(* ===== verification/Prelude.thy ===== *)
theory Prelude
  imports Main "HOL-Library.AList" "HOL-Library.Char_ord" "HOL-Library.List_Lexorder"
begin

text \<open>
  Shared vocabulary of the development: results of fallible code, state-passing
  operations that may fail after they have changed the state, JavaScript's insertion
  ordered \<open>Map\<close> as an association list, the lookup of a key in an object literal
  (which also finds what every object inherits), and the generic lemmas the components
  share. Facts that unfold an operation's outcome are collected in \<open>result_simps\<close>,
  facts on maps in \<open>jsmap_simps\<close>.
\<close>

named_theorems result_simps
named_theorems jsmap_simps

section \<open>Results of fallible code\<close>

text \<open>A call that throws \<open>e\<close> is \<open>Inl e\<close>, one that returns \<open>v\<close> is \<open>Inr v\<close>.\<close>

type_synonym ('e, 'a) result = "'e + 'a"

text \<open>
  An operation on a state: the state it leaves behind (also when it throws, since
  JavaScript does not undo the writes made before a throw) and its result.
\<close>

type_synonym ('s, 'e, 'a) outcome = "'s \<times> ('e, 'a) result"

definition bindR :: "('e, 'a) result \<Rightarrow> ('a \<Rightarrow> ('e, 'b) result) \<Rightarrow> ('e, 'b) result" where
  "bindR r f = (case r of Inl e \<Rightarrow> Inl e | Inr a \<Rightarrow> f a)"

definition andThen ::
  "('s, 'e, 'a) outcome \<Rightarrow> ('s \<Rightarrow> 'a \<Rightarrow> ('s, 'e, 'b) outcome) \<Rightarrow> ('s, 'e, 'b) outcome" where
  "andThen o1 f = (case o1 of (s, Inl e) \<Rightarrow> (s, Inl e) | (s, Inr a) \<Rightarrow> f s a)"

lemma bindR_Inr_iff [result_simps]:
  "bindR r f = Inr b \<longleftrightarrow> (\<exists>a. r = Inr a \<and> f a = Inr b)"
  by (cases r) (auto simp: bindR_def)

lemma bindR_simps [simp]:
  "bindR (Inl e) f = Inl e" "bindR (Inr a) f = f a"
  by (simp_all add: bindR_def)

lemma andThen_simps [simp]:
  "andThen (s, Inl e) f = (s, Inl e)" "andThen (s, Inr a) f = f s a"
  by (simp_all add: andThen_def)

lemma andThen_Inr_iff [result_simps]:
  "andThen o1 f = (t, Inr b) \<longleftrightarrow> (\<exists>s a. o1 = (s, Inr a) \<and> f s a = (t, Inr b))"
  by (cases o1; cases "snd o1") (auto simp: andThen_def split: sum.splits)

lemma fst_andThen_pure [simp]: "fst (andThen o1 (\<lambda>s a. (s, g s a))) = fst o1"
  by (cases o1; cases "snd o1") (auto simp: andThen_def split: sum.splits)

lemma andThen_state_inv:
  assumes "I (fst o1)" and "\<And>s a. o1 = (s, Inr a) \<Longrightarrow> I s \<Longrightarrow> I (fst (f s a))"
  shows "I (fst (andThen o1 f))"
  using assms by (cases o1; cases "snd o1") (auto simp: andThen_def split: sum.splits)

text \<open>A throw passes through the callers of the code that throws; its kind is only renamed.\<close>

definition map_error :: "('e \<Rightarrow> 'f) \<Rightarrow> ('s, 'e, 'a) outcome \<Rightarrow> ('s, 'f, 'a) outcome" where
  "map_error f o1 = (case o1 of (s, Inl e) \<Rightarrow> (s, Inl (f e)) | (s, Inr a) \<Rightarrow> (s, Inr a))"

text \<open>\<open>BEGIN \<dots> COMMIT\<close>, with \<open>ROLLBACK\<close> when the body throws.\<close>

definition transaction :: "('s \<Rightarrow> ('s, 'e, 'a) outcome) \<Rightarrow> 's \<Rightarrow> ('s, 'e, 'a) outcome" where
  "transaction body s = (case body s of (s', Inl e) \<Rightarrow> (s, Inl e) | (s', Inr a) \<Rightarrow> (s', Inr a))"

text \<open>\<open>a ?? b\<close>, and \<open>COALESCE(a, b)\<close>, on values that may be \<open>null\<close>.\<close>

definition or_else :: "'a option \<Rightarrow> 'a \<Rightarrow> 'a" where
  "or_else a b = (case a of Some x \<Rightarrow> x | None \<Rightarrow> b)"

definition or_opt :: "'a option \<Rightarrow> 'a option \<Rightarrow> 'a option" where
  "or_opt a b = (case a of Some x \<Rightarrow> Some x | None \<Rightarrow> b)"

lemma or_else_simps [simp]: "or_else None b = b" "or_else (Some a) b = a"
  by (simp_all add: or_else_def)

lemma or_opt_simps [simp]: "or_opt None b = b" "or_opt (Some a) b = Some a"
  by (simp_all add: or_opt_def)

lemma map_error_simps [simp]:
  "map_error f (s, Inl e) = (s, Inl (f e))" "map_error f (s, Inr a) = (s, Inr a)"
  by (simp_all add: map_error_def)

lemma map_error_Inr_iff [result_simps]: "map_error f o1 = (s, Inr a) \<longleftrightarrow> o1 = (s, Inr a)"
  by (cases o1; cases "snd o1") (auto simp: map_error_def split: sum.splits)

lemma fst_map_error [simp]: "fst (map_error f o1) = fst o1"
  by (cases o1; cases "snd o1") (auto simp: map_error_def split: sum.splits)

lemma transaction_Inr_iff [result_simps]: "transaction f s = (t, Inr a) \<longleftrightarrow> f s = (t, Inr a)"
  by (auto simp: transaction_def split: prod.splits sum.splits)

lemma transaction_Inl [result_simps]:
  "transaction f s = (t, Inl e) \<Longrightarrow> t = s"
  by (auto simp: transaction_def split: prod.splits sum.splits)

lemma transaction_state_inv:
  assumes "I s" and "\<And>t a. f s = (t, Inr a) \<Longrightarrow> I t"
  shows "I (fst (transaction f s))"
  using assms by (auto simp: transaction_def split: prod.splits sum.splits)

text \<open>
  What holds after an operation: \<open>N\<close> of the value and the state when it returns, \<open>X\<close> of
  the state when it throws. The rules are used backwards, one per statement of the code.
\<close>

definition post :: "('s, 'e, 'a) outcome \<Rightarrow> ('a \<Rightarrow> 's \<Rightarrow> bool) \<Rightarrow> ('s \<Rightarrow> bool) \<Rightarrow> bool" where
  "post o1 N X = (case o1 of (s, Inl _) \<Rightarrow> X s | (s, Inr v) \<Rightarrow> N v s)"

lemma post_simps [simp]: "post (s, Inl e) N X = X s" "post (s, Inr v) N X = N v s"
  by (simp_all add: post_def)

lemma post_andThen_iff: "post (andThen o1 f) N X \<longleftrightarrow> post o1 (\<lambda>v s. post (f s v) N X) X"
  by (auto simp: post_def andThen_def split: prod.splits sum.splits)

lemmas post_andThen = post_andThen_iff [THEN iffD2]

lemma post_fst: "post o1 (\<lambda>_. I) I \<Longrightarrow> I (fst o1)"
  by (auto simp: post_def split: prod.splits sum.splits)

lemma post_Inr: "post o1 N X \<Longrightarrow> o1 = (s, Inr v) \<Longrightarrow> N v s"
  by simp

lemma post_mono: "post o1 N X \<Longrightarrow> (\<And>v s. N v s \<Longrightarrow> N' v s) \<Longrightarrow> (\<And>s. X s \<Longrightarrow> X' s) \<Longrightarrow> post o1 N' X'"
  by (auto simp: post_def split: prod.splits sum.splits)

lemma post_faulty:
  assumes "post o1 N X" and "\<not> b \<Longrightarrow> \<not> isl (snd o1)" and "\<And>v s. N v s \<Longrightarrow> N' v s"
    and "\<And>s. b \<Longrightarrow> X s \<Longrightarrow> X' s"
  shows "post o1 N' X'"
proof (cases o1)
  case (Pair s r)
  with assms show ?thesis by (cases r) auto
qed

fun mapR :: "('a \<Rightarrow> ('e, 'b) result) \<Rightarrow> 'a list \<Rightarrow> ('e, 'b list) result" where
  "mapR f [] = Inr []"
| "mapR f (x # xs) =
     (case f x of Inl e \<Rightarrow> Inl e
      | Inr y \<Rightarrow> (case mapR f xs of Inl e \<Rightarrow> Inl e | Inr ys \<Rightarrow> Inr (y # ys)))"

lemma mapR_cong [fundef_cong]:
  assumes "xs = ys" and "\<And>x. x \<in> set ys \<Longrightarrow> f x = g x"
  shows "mapR f xs = mapR g ys"
  using assms(2) unfolding assms(1) by (induction ys) (auto split: sum.splits)

lemma mapR_Inr_list_all2:
  "mapR f xs = Inr ys \<longleftrightarrow> list_all2 (\<lambda>x y. f x = Inr y) xs ys"
proof (induction xs arbitrary: ys)
  case Nil
  then show ?case by auto
next
  case (Cons x xs)
  show ?case
    by (auto simp: list_all2_Cons1 Cons.IH [symmetric] split: sum.splits)
qed

lemma mapR_length: "mapR f xs = Inr ys \<Longrightarrow> length ys = length xs"
  by (simp add: mapR_Inr_list_all2 list_all2_lengthD)

lemma isr_iff_ex: "isl r \<longleftrightarrow> (\<exists>e. r = Inl e)"
  by (cases r) auto

section \<open>Insertion ordered maps\<close>

text \<open>
  A JavaScript \<open>Map\<close> iterates its entries in the order their keys were first set, and
  setting a key that is present keeps its place: \<open>AList.update\<close> does exactly that.
\<close>

type_synonym ('k, 'v) jsmap = "('k \<times> 'v) list"

definition map_get :: "('k, 'v) jsmap \<Rightarrow> 'k \<Rightarrow> 'v option" where
  "map_get m k = map_of m k"

definition map_set :: "('k, 'v) jsmap \<Rightarrow> 'k \<Rightarrow> 'v \<Rightarrow> ('k, 'v) jsmap" where
  "map_set m k v = AList.update k v m"

definition map_delete :: "('k, 'v) jsmap \<Rightarrow> 'k \<Rightarrow> ('k, 'v) jsmap" where
  "map_delete m k = AList.delete k m"

definition map_values :: "('k, 'v) jsmap \<Rightarrow> 'v list" where
  "map_values m = map snd m"

definition map_keys :: "('k, 'v) jsmap \<Rightarrow> 'k list" where
  "map_keys m = map fst m"

definition map_ok :: "('k, 'v) jsmap \<Rightarrow> bool" where
  "map_ok m = distinct (map fst m)"

lemma map_get_empty [simp, jsmap_simps]: "map_get [] k = None"
  by (simp add: map_get_def)

lemma map_get_set [simp, jsmap_simps]:
  "map_get (map_set m k v) k' = (if k' = k then Some v else map_get m k')"
  by (simp add: map_get_def map_set_def update_conv')

lemma map_get_delete [simp, jsmap_simps]:
  "map_get (map_delete m k) k' = (if k' = k then None else map_get m k')"
  by (simp add: map_get_def map_delete_def delete_conv')

lemma map_ok_empty [simp]: "map_ok []"
  by (simp add: map_ok_def)

lemma map_ok_set [simp, jsmap_simps]: "map_ok m \<Longrightarrow> map_ok (map_set m k v)"
  by (simp add: map_ok_def map_set_def distinct_update)

lemma map_ok_delete [simp, jsmap_simps]: "map_ok m \<Longrightarrow> map_ok (map_delete m k)"
  by (simp add: map_ok_def map_delete_def distinct_delete)

lemma map_keys_set: "set (map_keys (map_set m k v)) = insert k (set (map_keys m))"
  by (induction m) (auto simp: map_keys_def map_set_def)

lemma map_get_None_iff: "map_get m k = None \<longleftrightarrow> k \<notin> set (map_keys m)"
  by (auto simp: map_get_def map_keys_def map_of_eq_None_iff)

lemma map_get_in: "map_get m k = Some v \<Longrightarrow> (k, v) \<in> set m"
  by (simp add: map_get_def map_of_SomeD)

lemma map_get_iff: "map_ok m \<Longrightarrow> map_get m k = Some v \<longleftrightarrow> (k, v) \<in> set m"
  by (auto simp: map_get_def map_ok_def)

lemma map_values_get: "map_get m k = Some v \<Longrightarrow> v \<in> set (map_values m)"
  by (force simp: map_values_def dest: map_get_in)

lemma set_map_set_subset: "set (map_set m k v) \<subseteq> insert (k, v) (set m)"
  by (induction m) (auto simp: map_set_def)

lemma map_set_new: "k \<notin> set (map_keys m) \<Longrightarrow> map_set m k v = m @ [(k, v)]"
  by (induction m) (auto simp: map_set_def map_keys_def)

lemma map_set_same: "map_get m k = Some v \<Longrightarrow> map_set m k v = m"
  by (induction m) (auto simp: map_set_def map_get_def split: if_splits)

section \<open>Lookup in an object literal\<close>

text \<open>
  \<open>table[key]\<close> and \<open>key in table\<close> on an object literal also find the members that
  every object inherits from \<open>Object.prototype\<close>. A table whose keys are the program's
  own names therefore has three outcomes.
\<close>

datatype 'v prop_lookup = Own 'v | Inherited | Absent

definition object_prototype_keys :: "string list" where
  "object_prototype_keys =
     [''constructor'', ''__defineGetter__'', ''__defineSetter__'', ''hasOwnProperty'',
      ''__lookupGetter__'', ''__lookupSetter__'', ''isPrototypeOf'',
      ''propertyIsEnumerable'', ''toString'', ''valueOf'', ''__proto__'',
      ''toLocaleString'']"

definition literal_lookup :: "(string \<times> 'v) list \<Rightarrow> string \<Rightarrow> 'v prop_lookup" where
  "literal_lookup tbl k =
     (case map_of tbl k of
        Some v \<Rightarrow> Own v
      | None \<Rightarrow> if k \<in> set object_prototype_keys then Inherited else Absent)"

section \<open>Lists\<close>

lemma filter_all_id: "(\<And>x. x \<in> set xs \<Longrightarrow> P x) \<Longrightarrow> filter P xs = xs"
  by (induction xs) auto

lemma find_Some_in: "find P xs = Some x \<Longrightarrow> x \<in> set xs \<and> P x"
  by (induction xs) (auto split: if_splits)

lemma find_None_all: "find P xs = None \<longleftrightarrow> (\<forall>x\<in>set xs. \<not> P x)"
  by (induction xs) auto

text \<open>\<open>UPDATE table SET \<dots> WHERE p\<close>, and the rows it touches.\<close>

definition update_where :: "('a \<Rightarrow> bool) \<Rightarrow> ('a \<Rightarrow> 'a) \<Rightarrow> 'a list \<Rightarrow> 'a list" where
  "update_where p f rows = map (\<lambda>r. if p r then f r else r) rows"

lemma set_update_where:
  "set (update_where p f rows) = (\<lambda>r. if p r then f r else r) ` set rows"
  by (simp add: update_where_def)

lemma map_update_where:
  "(\<And>r. p r \<Longrightarrow> g (f r) = g r) \<Longrightarrow> map g (update_where p f rows) = map g rows"
  by (simp add: update_where_def)

lemma find_update_where:
  "(\<And>r. p r \<Longrightarrow> p (f r)) \<Longrightarrow> find p (update_where p f rows) = map_option f (find p rows)"
  by (induction rows) (auto simp: update_where_def)

lemma find_update_where_other:
  "(\<And>r. p r \<Longrightarrow> \<not> q r \<and> \<not> q (f r)) \<Longrightarrow> find q (update_where p f rows) = find q rows"
  by (induction rows) (auto simp: update_where_def)

lemma update_where_length [simp]: "length (update_where p f rows) = length rows"
  by (simp add: update_where_def)

text \<open>The last element that satisfies a predicate, as \<open>reverse().find(p)\<close> returns it.\<close>

definition find_last :: "('a \<Rightarrow> bool) \<Rightarrow> 'a list \<Rightarrow> 'a option" where
  "find_last P xs = find P (rev xs)"

lemma find_last_append:
  "find_last P (xs @ ys) = (case find_last P ys of Some y \<Rightarrow> Some y | None \<Rightarrow> find_last P xs)"
proof -
  have "find P (as @ bs) = (case find P as of Some y \<Rightarrow> Some y | None \<Rightarrow> find P bs)" for as bs
    by (induction as) auto
  then show ?thesis unfolding find_last_def rev_append .
qed

lemma find_last_snoc [simp]:
  "find_last P (xs @ [y]) = (if P y then Some y else find_last P xs)"
  by (simp add: find_last_def)

lemma find_last_Some_in: "find_last P xs = Some x \<Longrightarrow> x \<in> set xs \<and> P x"
  unfolding find_last_def by (drule find_Some_in) simp

end
