(* ===== verification/JsValue.thy ===== *)
theory JsValue
  imports Complex_Main Prelude
begin

text \<open>
  JavaScript values as far as the program inspects them dynamically: the values
  \<open>JSON.parse\<close> can produce plus \<open>undefined\<close>; numbers with their three special
  values; and the parts of the standard library the validators use (truthiness, property
  access, \<open>trim\<close>, \<open>toLowerCase\<close>, \<open>slice\<close>, \<open>split\<close>, \<open>Number(v)\<close>,
  \<open>Number.isInteger\<close>).

  A string is a list of characters with codes below 256, so the model speaks of strings
  whose code units are Latin-1. A finite number is an exact rational: the rounding of
  doubles is not modelled, and nothing below depends on it.
\<close>

section \<open>Numbers\<close>

datatype jsnum = NaN | NegInf | PosInf | Fin rat

definition num_lt :: "jsnum \<Rightarrow> jsnum \<Rightarrow> bool" where
  "num_lt a b =
     (case (a, b) of
        (NaN, _) \<Rightarrow> False
      | (_, NaN) \<Rightarrow> False
      | (NegInf, NegInf) \<Rightarrow> False
      | (NegInf, _) \<Rightarrow> True
      | (_, NegInf) \<Rightarrow> False
      | (PosInf, _) \<Rightarrow> False
      | (Fin _, PosInf) \<Rightarrow> True
      | (Fin x, Fin y) \<Rightarrow> x < y)"

definition is_finite_num :: "jsnum \<Rightarrow> bool" where
  "is_finite_num n = (case n of Fin _ \<Rightarrow> True | _ \<Rightarrow> False)"

definition rat_is_int :: "rat \<Rightarrow> bool" where
  "rat_is_int q \<longleftrightarrow> of_int \<lfloor>q\<rfloor> = q"

definition is_integer_num :: "jsnum \<Rightarrow> bool" where
  "is_integer_num n = (case n of Fin q \<Rightarrow> rat_is_int q | _ \<Rightarrow> False)"

lemma num_lt_Fin [simp]: "num_lt (Fin x) (Fin y) \<longleftrightarrow> x < y"
  by (simp add: num_lt_def)

lemma num_lt_NaN [simp]: "\<not> num_lt NaN n" "\<not> num_lt n NaN"
  by (simp_all add: num_lt_def split: jsnum.splits)

lemma is_integer_num_cases:
  "is_integer_num n \<Longrightarrow> \<exists>z::int. n = Fin (of_int z)"
  by (cases n) (auto simp: is_integer_num_def rat_is_int_def intro: sym)

lemma rat_is_int_of_int [simp]: "rat_is_int (of_int z)"
  by (simp add: rat_is_int_def)

lemma is_integer_num_of_int [simp]: "is_integer_num (Fin (of_int z))"
  by (simp add: is_integer_num_def)

section \<open>Values\<close>

datatype js =
    JUndef
  | JNull
  | JBool bool
  | JNum jsnum
  | JStr string
  | JArr "js list"
  | JObj "(string \<times> js) list"

text \<open>\<open>v?.key\<close> on own members; anything else reads as \<open>undefined\<close>.\<close>

definition get_prop :: "js \<Rightarrow> string \<Rightarrow> js" where
  "get_prop v k = (case v of JObj fs \<Rightarrow> (case map_of fs k of Some x \<Rightarrow> x | None \<Rightarrow> JUndef) | _ \<Rightarrow> JUndef)"

definition is_nullish :: "js \<Rightarrow> bool" where
  "is_nullish v = (case v of JUndef \<Rightarrow> True | JNull \<Rightarrow> True | _ \<Rightarrow> False)"

text \<open>\<open>a ?? b\<close>\<close>

definition coalesce :: "js \<Rightarrow> js \<Rightarrow> js" where
  "coalesce a b = (if is_nullish a then b else a)"

definition truthy :: "js \<Rightarrow> bool" where
  "truthy v =
     (case v of
        JUndef \<Rightarrow> False
      | JNull \<Rightarrow> False
      | JBool b \<Rightarrow> b
      | JNum n \<Rightarrow> n \<noteq> NaN \<and> n \<noteq> Fin 0
      | JStr s \<Rightarrow> s \<noteq> []
      | JArr _ \<Rightarrow> True
      | JObj _ \<Rightarrow> True)"

text \<open>\<open>v || {}\<close>\<close>

definition or_object :: "js \<Rightarrow> js" where
  "or_object v = (if truthy v then v else JObj [])"

text \<open>\<open>v \<and> typeof v === "object" \<and> !Array.isArray(v)\<close>\<close>

definition is_plain_object :: "js \<Rightarrow> bool" where
  "is_plain_object v = (case v of JObj _ \<Rightarrow> True | _ \<Rightarrow> False)"

lemma get_prop_simps [simp]:
  "get_prop JUndef k = JUndef" "get_prop JNull k = JUndef" "get_prop (JBool b) k = JUndef"
  "get_prop (JNum n) k = JUndef" "get_prop (JStr s) k = JUndef" "get_prop (JArr xs) k = JUndef"
  "get_prop (JObj fs) k = (case map_of fs k of Some x \<Rightarrow> x | None \<Rightarrow> JUndef)"
  by (simp_all add: get_prop_def)

section \<open>Strings\<close>

definition code :: "char \<Rightarrow> nat" where
  "code c = of_char c"

definition is_space :: "char \<Rightarrow> bool" where
  "is_space c = (code c \<in> {9, 10, 11, 12, 13, 32, 160})"

definition is_digit :: "char \<Rightarrow> bool" where
  "is_digit c = (48 \<le> code c \<and> code c \<le> 57)"

definition is_upper :: "char \<Rightarrow> bool" where
  "is_upper c = (65 \<le> code c \<and> code c \<le> 90)"

definition is_lower :: "char \<Rightarrow> bool" where
  "is_lower c = (97 \<le> code c \<and> code c \<le> 122)"

definition is_alnum :: "char \<Rightarrow> bool" where
  "is_alnum c = (is_upper c \<or> is_lower c \<or> is_digit c)"

definition js_trim :: "string \<Rightarrow> string" where
  "js_trim s = rev (dropWhile is_space (rev (dropWhile is_space s)))"

definition lower_char :: "char \<Rightarrow> char" where
  "lower_char c =
     (if is_upper c \<or> (192 \<le> code c \<and> code c \<le> 222 \<and> code c \<noteq> 215)
      then char_of (code c + 32) else c)"

definition to_lower :: "string \<Rightarrow> string" where
  "to_lower s = map lower_char s"

text \<open>\<open>s.split(c)\<close> for a one-character separator.\<close>

fun split_on :: "char \<Rightarrow> string \<Rightarrow> string list" where
  "split_on c [] = [[]]"
| "split_on c (x # xs) =
     (if x = c then [] # split_on c xs
      else (case split_on c xs of [] \<Rightarrow> [[x]] | y # ys \<Rightarrow> (x # y) # ys))"

text \<open>\<open>xs.join(sep)\<close>\<close>

fun join_with :: "string \<Rightarrow> string list \<Rightarrow> string" where
  "join_with sep [] = []"
| "join_with sep [x] = x"
| "join_with sep (x # y # ys) = x @ sep @ join_with sep (y # ys)"

lemma split_on_nonempty [simp]: "split_on c s \<noteq> []"
  by (induction s) (auto split: list.splits)

lemma join_split_on: "join_with [c] (split_on c s) = s"
proof (induction s)
  case Nil
  show ?case by simp
next
  case (Cons x xs)
  obtain y ys where yy: "split_on c xs = y # ys"
    by (cases "split_on c xs") simp_all
  with Cons show ?case by (cases ys) auto
qed

lemma js_trim_length: "length (js_trim s) \<le> length s"
  unfolding js_trim_def
  by (metis length_dropWhile_le length_rev order_trans)

lemma js_trim_idem: "js_trim (js_trim s) = js_trim s"
proof -
  have dw: "dropWhile P (dropWhile P xs) = dropWhile P xs" for P and xs :: string
    by (induction xs) auto
  have keep: "dropWhile P (rev (dropWhile P (rev xs))) = rev (dropWhile P (rev xs))"
    if "dropWhile P xs = xs" for P and xs :: string
  proof (cases xs)
    case (Cons a as)
    with that have na: "\<not> P a" by (metis dropWhile_eq_Cons_conv)
    have "dropWhile P (rev as @ [a]) = dropWhile P (rev as) @ [a]"
      using na by (metis dropWhile.simps(2) dropWhile_append2 dropWhile_append3
          dropWhile_eq_Nil_conv append_Nil)
    with Cons na show ?thesis by simp
  qed simp
  show ?thesis
    unfolding js_trim_def
    using keep [of is_space "dropWhile is_space s"] by (simp add: dw)
qed

section \<open>Number(value)\<close>

fun digits_value :: "nat \<Rightarrow> string \<Rightarrow> nat" where
  "digits_value acc [] = acc"
| "digits_value acc (c # cs) = digits_value (10 * acc + (code c - 48)) cs"

definition drop_sign :: "string \<Rightarrow> bool \<times> string" where
  "drop_sign s =
     (case s of
        [] \<Rightarrow> (False, [])
      | c # cs \<Rightarrow> if c = CHR ''-'' then (True, cs) else if c = CHR ''+'' then (False, cs) else (False, s))"

text \<open>The exponent part: nothing, or \<open>e\<close> with an optional sign and digits.\<close>

definition exponent_value :: "string \<Rightarrow> int option" where
  "exponent_value s =
     (case s of
        [] \<Rightarrow> Some 0
      | c # cs \<Rightarrow>
          if c = CHR ''e'' \<or> c = CHR ''E'' then
            (case drop_sign cs of (neg, ds) \<Rightarrow>
               if ds \<noteq> [] \<and> list_all is_digit ds
               then Some (if neg then - int (digits_value 0 ds) else int (digits_value 0 ds))
               else None)
          else None)"

definition scale10 :: "nat \<Rightarrow> int \<Rightarrow> rat" where
  "scale10 m e = (if 0 \<le> e then of_nat m * 10 ^ nat e else of_nat m / 10 ^ nat (- e))"

definition unsigned_decimal :: "string \<Rightarrow> rat option" where
  "unsigned_decimal s =
     (let ip = takeWhile is_digit s; r = dropWhile is_digit s;
          fp = (case r of c # cs \<Rightarrow> if c = CHR ''.'' then takeWhile is_digit cs else [] | [] \<Rightarrow> []);
          r2 = (case r of c # cs \<Rightarrow> if c = CHR ''.'' then dropWhile is_digit cs else r | [] \<Rightarrow> [])
      in if ip = [] \<and> fp = [] then None
         else map_option (\<lambda>e. scale10 (digits_value 0 (ip @ fp)) (e - int (length fp)))
                (exponent_value r2))"

definition radix_digit :: "nat \<Rightarrow> char \<Rightarrow> nat option" where
  "radix_digit b c =
     (let v = (if is_digit c then Some (code c - 48)
               else if is_upper c then Some (code c - 55)
               else if is_lower c then Some (code c - 87) else None)
      in case v of Some d \<Rightarrow> if d < b then Some d else None | None \<Rightarrow> None)"

fun radix_value :: "nat \<Rightarrow> nat \<Rightarrow> string \<Rightarrow> nat option" where
  "radix_value b acc [] = Some acc"
| "radix_value b acc (c # cs) =
     (case radix_digit b c of None \<Rightarrow> None | Some d \<Rightarrow> radix_value b (b * acc + d) cs)"

definition radix_prefix :: "string \<Rightarrow> (nat \<times> string) option" where
  "radix_prefix s =
     (case s of
        z # x # ds \<Rightarrow>
          if z = CHR ''0'' \<and> ds \<noteq> [] then
            (if x = CHR ''x'' \<or> x = CHR ''X'' then Some (16, ds)
             else if x = CHR ''o'' \<or> x = CHR ''O'' then Some (8, ds)
             else if x = CHR ''b'' \<or> x = CHR ''B'' then Some (2, ds) else None)
          else None
      | _ \<Rightarrow> None)"

definition string_to_number :: "string \<Rightarrow> jsnum" where
  "string_to_number str =
     (let s = js_trim str in
      if s = [] then Fin 0
      else case radix_prefix s of
        Some (b, ds) \<Rightarrow> (case radix_value b 0 ds of Some v \<Rightarrow> Fin (of_nat v) | None \<Rightarrow> NaN)
      | None \<Rightarrow>
          (case drop_sign s of (neg, u) \<Rightarrow>
             if u = ''Infinity'' then (if neg then NegInf else PosInf)
             else (case unsigned_decimal u of
                     Some q \<Rightarrow> Fin (if neg then - q else q)
                   | None \<Rightarrow> NaN)))"

text \<open>
  \<open>Number(v)\<close>. An array is first turned into its comma-joined text: the empty array
  reads as 0, a one-element array as its element (\<open>undefined\<close> and \<open>null\<close> join as
  the empty text, a boolean as a word), a longer one never reads as a number.
\<close>

fun js_number :: "js \<Rightarrow> jsnum" where
  "js_number JUndef = NaN"
| "js_number JNull = Fin 0"
| "js_number (JBool b) = Fin (if b then 1 else 0)"
| "js_number (JNum n) = n"
| "js_number (JStr s) = string_to_number s"
| "js_number (JArr []) = Fin 0"
| "js_number (JArr [v]) =
     (case v of JUndef \<Rightarrow> Fin 0 | JBool _ \<Rightarrow> NaN | _ \<Rightarrow> js_number v)"
| "js_number (JArr (_ # _ # _)) = NaN"
| "js_number (JObj _) = NaN"

lemma string_to_number_examples:
  "string_to_number '' 42 '' = Fin 42" "string_to_number ''-1.5e1'' = Fin (-15)"
  "string_to_number ''0x1F'' = Fin 31" "string_to_number ''12px'' = NaN"
  "string_to_number '''' = Fin 0" "string_to_number ''.'' = NaN"
  by code_simp+

section \<open>Identifiers\<close>

text \<open>\<open>/^[A-Za-z0-9._:-]{1,128}$/\<close>, the identifier pattern of every Zarvis service.\<close>

definition id_char :: "char \<Rightarrow> bool" where
  "id_char c = (is_alnum c \<or> c \<in> set ''._:-'')"

definition matches_id_pattern :: "string \<Rightarrow> bool" where
  "matches_id_pattern s = (1 \<le> length s \<and> length s \<le> 128 \<and> list_all id_char s)"

text \<open>\<open>[A-Za-z0-9_.-]\<close>, a segment of a repository name.\<close>

definition segment_char :: "char \<Rightarrow> bool" where
  "segment_char c = (is_alnum c \<or> c \<in> set ''_.-'')"

section \<open>Numerals and dates\<close>

definition digit_char :: "nat \<Rightarrow> char" where
  "digit_char d = char_of (48 + d)"

text \<open>Decimal digits, padded with zeros to a width.\<close>

fun padded :: "nat \<Rightarrow> nat \<Rightarrow> string" where
  "padded 0 n = []"
| "padded (Suc w) n = padded w (n div 10) @ [digit_char (n mod 10)]"

fun nat_str :: "nat \<Rightarrow> string" where
  "nat_str n = (if n < 10 then [digit_char n] else nat_str (n div 10) @ [digit_char (n mod 10)])"

declare nat_str.simps [simp del]

definition int_str :: "int \<Rightarrow> string" where
  "int_str z = (if z < 0 then CHR ''-'' # nat_str (nat (- z)) else nat_str (nat z))"

text \<open>The proleptic Gregorian date of a day counted from 1970-01-01.\<close>

definition civil_of_day :: "int \<Rightarrow> int \<times> int \<times> int" where
  "civil_of_day day =
     (let z = day + 719468; era = z div 146097; doe = z mod 146097;
          yoe = (doe - doe div 1460 + doe div 36524 - doe div 146096) div 365;
          doy = doe - (365 * yoe + yoe div 4 - yoe div 100);
          mp = (5 * doy + 2) div 153;
          d = doy - (153 * mp + 2) div 5 + 1;
          m = (if mp < 10 then mp + 3 else mp - 9);
          y = yoe + era * 400
      in (if m \<le> 2 then y + 1 else y, m, d))"

text \<open>\<open>new Date(ms).toISOString()\<close>\<close>

definition to_iso :: "int \<Rightarrow> string" where
  "to_iso ms =
     (let (y, m, d) = civil_of_day (ms div 86400000); t = nat (ms mod 86400000);
          ys = (if 0 \<le> y \<and> y \<le> 9999 then padded 4 (nat y)
                else (if y < 0 then ''-'' else ''+'') @ padded 6 (nat \<bar>y\<bar>))
      in ys @ ''-'' @ padded 2 (nat m) @ ''-'' @ padded 2 (nat d) @ ''T''
         @ padded 2 (t div 3600000) @ '':'' @ padded 2 (t div 60000 mod 60) @ '':''
         @ padded 2 (t div 1000 mod 60) @ ''.'' @ padded 3 (t mod 1000) @ ''Z'')"

section \<open>What a value becomes when it is stored as JSON\<close>

text \<open>
  The value \<open>JSON.parse(JSON.stringify(v))\<close> reads back: a member that is
  \<open>undefined\<close> is dropped, an element that is becomes \<open>null\<close>, and a number that
  is not finite is written as \<open>null\<close>.
\<close>

fun json_image :: "js \<Rightarrow> js" where
  "json_image JUndef = JNull"
| "json_image JNull = JNull"
| "json_image (JBool b) = JBool b"
| "json_image (JNum n) = (if is_finite_num n then JNum n else JNull)"
| "json_image (JStr s) = JStr s"
| "json_image (JArr xs) = JArr (map json_image xs)"
| "json_image (JObj fs) =
     JObj (filter (\<lambda>(k, v). v \<noteq> JUndef) (map (\<lambda>(k, v). (k, if v = JUndef then JUndef else json_image v)) fs))"

lemma json_image_not_undef [simp]: "json_image v \<noteq> JUndef"
  by (cases v) simp_all

text \<open>Storing reaches a fixed point: what was read back is stored unchanged.\<close>

lemma json_image_idem: "json_image (json_image v) = json_image v"
proof (induction v rule: json_image.induct)
  case (6 xs)
  then show ?case by simp
next
  case (7 fs)
  have "(if v = JUndef then JUndef else json_image (json_image v)) = json_image v"
    if "(k, v) \<in> set fs" "v \<noteq> JUndef" for k v
    using 7 [of "(k, v)" k v] that by (cases v) simp_all
  then show ?case
  proof (induction fs)
    case (Cons f fs)
    obtain k v where f: "f = (k, v)" by (cases f)
    have IH: "json_image (json_image (JObj fs)) = json_image (JObj fs)"
      by (rule Cons.IH) (use Cons.prems in auto)
    show ?case
      using IH Cons.prems [of k v] by (cases "v = JUndef") (simp_all add: f)
  qed simp
qed simp_all

lemma get_prop_json_image:
  assumes "map_of fs k = Some v" and "v \<noteq> JUndef"
  shows "get_prop (json_image (JObj fs)) k = json_image v"
proof -
  have "map_of (filter (\<lambda>(k, v). v \<noteq> JUndef)
          (map (\<lambda>(k, v). (k, if v = JUndef then JUndef else json_image v)) fs)) k = Some (json_image v)"
    using assms by (induction fs) (auto split: if_splits)
  then show ?thesis by simp
qed

section \<open>Text of a value\<close>

text \<open>
  \<open>String(v)\<close>, as a template literal applies it. \<open>R\<close> is the decimal text of a
  number that is no integer.
\<close>

definition num_text :: "(rat \<Rightarrow> string) \<Rightarrow> jsnum \<Rightarrow> string" where
  "num_text R n =
     (case n of
        NaN \<Rightarrow> ''NaN''
      | NegInf \<Rightarrow> ''-Infinity''
      | PosInf \<Rightarrow> ''Infinity''
      | Fin q \<Rightarrow> if rat_is_int q then int_str \<lfloor>q\<rfloor> else R q)"

fun js_text_of :: "(rat \<Rightarrow> string) \<Rightarrow> js \<Rightarrow> string" where
  "js_text_of R JUndef = ''undefined''"
| "js_text_of R JNull = ''null''"
| "js_text_of R (JBool b) = (if b then ''true'' else ''false'')"
| "js_text_of R (JNum n) = num_text R n"
| "js_text_of R (JStr s) = s"
| "js_text_of R (JArr xs) =
     join_with '','' (map (\<lambda>x. if x = JUndef \<or> x = JNull then [] else js_text_of R x) xs)"
| "js_text_of R (JObj _) = ''[object Object]''"

text \<open>\<open>a || b\<close>\<close>

definition js_or :: "js \<Rightarrow> js \<Rightarrow> js" where
  "js_or a b = (if truthy a then a else b)"

text \<open>\<open>{...a, ...b}\<close> on member lists, and \<open>delete o.k\<close>.\<close>

definition spread :: "(string \<times> js) list \<Rightarrow> (string \<times> js) list \<Rightarrow> (string \<times> js) list" where
  "spread a b = foldl (\<lambda>m (k, v). map_set m k v) a b"

lemma map_of_spread: "distinct (map fst b) \<Longrightarrow>
    map_of (spread a b) k = (case map_of b k of Some v \<Rightarrow> Some v | None \<Rightarrow> map_of a k)"
proof (induction b arbitrary: a)
  case (Cons p b)
  obtain k0 v0 where p: "p = (k0, v0)" by (cases p)
  have "map_of (map_set a k0 v0) k = (if k = k0 then Some v0 else map_of a k)"
    using map_get_set [of a k0 v0 k] by (simp add: map_get_def)
  moreover have "map_of b k0 = None"
    using Cons.prems by (simp add: p map_of_eq_None_iff)
  ultimately show ?case
    using Cons by (auto simp: spread_def p split: option.splits)
qed (simp add: spread_def)

end
