(* ===== verification/OperatorStateMachine.thy ===== *)
theory OperatorStateMachine
  imports Prelude
begin

text \<open>
  The operator state machine of \<open>packages/zeto/src/domain/operatorStateMachine.js\<close>: the
  state groups, the static transition table, the pause policy, the checkpoint contract and
  the guarded transition. Every exported function of the file is a definition here.
  A trigger is the string the callers pass; a value that is no operator state is
  \<open>NotAState\<close>, which is what a corrupt row, or a target inherited from
  \<open>Object.prototype\<close>, holds.
\<close>

section \<open>States and triggers\<close>

datatype op_state =
    IDLE | LISTENING | TRANSCRIBING | THINKING | PLANNING | AWAITING_APPROVAL
  | EXECUTING | VERIFYING | SPEAKING | DEGRADED | RECOVERING | REAUTHORIZING
  | PAUSED | FAILED | CANCELLED | EMERGENCY_STOPPED | NotAState string

type_synonym trigger = string

definition ACTIVE_STATES :: "op_state list" where
  "ACTIVE_STATES =
     [LISTENING, TRANSCRIBING, THINKING, PLANNING, AWAITING_APPROVAL, EXECUTING,
      VERIFYING, SPEAKING, DEGRADED]"

definition PAUSABLE_STATES :: "op_state list" where
  "PAUSABLE_STATES = [AWAITING_APPROVAL, EXECUTING, VERIFYING, DEGRADED]"

definition RECOVERY_STATES :: "op_state list" where
  "RECOVERY_STATES = [RECOVERING, REAUTHORIZING]"

definition TERMINAL_STATES :: "op_state list" where
  "TERMINAL_STATES = [FAILED, CANCELLED, EMERGENCY_STOPPED]"

definition NON_TERMINAL_STATES :: "op_state list" where
  "NON_TERMINAL_STATES = IDLE # ACTIVE_STATES @ RECOVERY_STATES @ [PAUSED]"

definition ALL_STATES :: "op_state list" where
  "ALL_STATES = NON_TERMINAL_STATES @ TERMINAL_STATES"

definition isActive :: "op_state \<Rightarrow> bool" where
  "isActive s = (s \<in> set ACTIVE_STATES)"

definition isPausable :: "op_state \<Rightarrow> bool" where
  "isPausable s = (s \<in> set PAUSABLE_STATES)"

definition isRecovery :: "op_state \<Rightarrow> bool" where
  "isRecovery s = (s \<in> set RECOVERY_STATES)"

definition isTerminal :: "op_state \<Rightarrow> bool" where
  "isTerminal s = (s \<in> set TERMINAL_STATES)"

definition isNonTerminal :: "op_state \<Rightarrow> bool" where
  "isNonTerminal s = (s \<in> set NON_TERMINAL_STATES)"

definition isKnownState :: "op_state \<Rightarrow> bool" where
  "isKnownState s = (s \<in> set ALL_STATES)"

text \<open>\<open>null\<close> and \<open>undefined\<close> are in no list, so \<open>None\<close> is not valid.\<close>

definition isValidResumeState :: "op_state option \<Rightarrow> bool" where
  "isValidResumeState r = (case r of Some s \<Rightarrow> isPausable s | None \<Rightarrow> False)"

definition isValidRecoveryTarget :: "op_state option \<Rightarrow> bool" where
  "isValidRecoveryTarget p = (case p of Some s \<Rightarrow> isActive s \<and> s \<noteq> DEGRADED | None \<Rightarrow> False)"

lemmas state_groups =
  isActive_def isPausable_def isRecovery_def isTerminal_def isNonTerminal_def isKnownState_def
  ACTIVE_STATES_def PAUSABLE_STATES_def RECOVERY_STATES_def TERMINAL_STATES_def
  NON_TERMINAL_STATES_def ALL_STATES_def isValidResumeState_def isValidRecoveryTarget_def

section \<open>The transition table\<close>

datatype target = To op_state | RESUME_STATE | PREVIOUS_STATE

fun TRANSITIONS :: "op_state \<Rightarrow> (trigger \<times> target) list option" where
  "TRANSITIONS IDLE = Some [(''start_listening'', To LISTENING)]"
| "TRANSITIONS LISTENING = Some
     [(''speech_available'', To TRANSCRIBING), (''no_speech'', To IDLE), (''stt_timeout'', To IDLE),
      (''listening_idle_timeout'', To IDLE), (''mic_cancel'', To IDLE)]"
| "TRANSITIONS TRANSCRIBING = Some
     [(''utterance_finalized'', To THINKING), (''stt_failed'', To DEGRADED), (''stt_cancel'', To IDLE)]"
| "TRANSITIONS THINKING = Some
     [(''intent_resolved'', To PLANNING), (''intent_timeout'', To FAILED)]"
| "TRANSITIONS PLANNING = Some
     [(''require_approval'', To AWAITING_APPROVAL), (''auto_approved'', To EXECUTING),
      (''plan_rejected'', To CANCELLED), (''plan_timeout'', To CANCELLED)]"
| "TRANSITIONS AWAITING_APPROVAL = Some
     [(''approve'', To EXECUTING), (''policy_override'', To EXECUTING),
      (''reject'', To CANCELLED), (''approval_timeout'', To CANCELLED)]"
| "TRANSITIONS EXECUTING = Some
     [(''step_completed'', To VERIFYING), (''step_failed'', To FAILED), (''step_timeout'', To EXECUTING)]"
| "TRANSITIONS VERIFYING = Some
     [(''all_verified'', To SPEAKING), (''verify_retry'', To EXECUTING),
      (''verify_failed'', To FAILED), (''verify_timeout'', To FAILED)]"
| "TRANSITIONS SPEAKING = Some
     [(''tts_completed'', To IDLE), (''tts_failed'', To IDLE), (''tts_cancel'', To IDLE)]"
| "TRANSITIONS DEGRADED = Some
     [(''recovered'', PREVIOUS_STATE), (''degrade_failed'', To FAILED)]"
| "TRANSITIONS PAUSED = Some
     [(''resume_requested'', To REAUTHORIZING), (''cancel'', To CANCELLED),
      (''session_timeout'', To CANCELLED)]"
| "TRANSITIONS REAUTHORIZING = Some
     [(''reauth_granted'', To RECOVERING), (''reauth_denied'', To CANCELLED),
      (''reauth_timeout'', To CANCELLED)]"
| "TRANSITIONS RECOVERING = Some
     [(''checkpoint_validated'', RESUME_STATE), (''checkpoint_invalid'', To FAILED),
      (''recovery_timeout'', To FAILED)]"
| "TRANSITIONS FAILED = None"
| "TRANSITIONS CANCELLED = None"
| "TRANSITIONS EMERGENCY_STOPPED = None"
| "TRANSITIONS (NotAState _) = None"

text \<open>
  \<open>trigger in table\<close> and \<open>table[trigger]\<close>: the table is an object literal, so the name
  of a member of \<open>Object.prototype\<close> is found too, and what it yields is no state.
\<close>

definition lookup_transition :: "op_state \<Rightarrow> trigger \<Rightarrow> target option" where
  "lookup_transition s t =
     (case TRANSITIONS s of
        None \<Rightarrow> None
      | Some tbl \<Rightarrow>
          (case literal_lookup tbl t of
             Own tgt \<Rightarrow> Some tgt
           | Inherited \<Rightarrow> Some (To (NotAState t))
           | Absent \<Rightarrow> None))"

section \<open>Pause policy and checkpoints\<close>

datatype pause_behavior = P_none | P_pause | P_defer | P_cancel op_state trigger

definition pauseRequestPolicy :: "op_state \<Rightarrow> pause_behavior" where
  "pauseRequestPolicy s =
     (if s = IDLE \<or> isTerminal s then P_none
      else if isPausable s \<or> isRecovery s then P_pause
      else (case s of
              LISTENING \<Rightarrow> P_cancel IDLE ''mic_cancel''
            | TRANSCRIBING \<Rightarrow> P_cancel IDLE ''stt_cancel''
            | SPEAKING \<Rightarrow> P_cancel IDLE ''tts_cancel''
            | THINKING \<Rightarrow> P_defer
            | PLANNING \<Rightarrow> P_defer
            | _ \<Rightarrow> P_none))"

record checkpoint =
  cp_previousState :: op_state
  cp_resumeState :: "op_state option"

record tcontext =
  cx_previousState :: "op_state option"
  cx_resumeState :: "op_state option"
  cx_attempt :: "int option"
  cx_maxAttempts :: "int option"

definition nextCheckpoint :: "op_state \<Rightarrow> op_state \<Rightarrow> tcontext \<Rightarrow> checkpoint" where
  "nextCheckpoint from_st to_st current =
     \<lparr>cp_previousState = from_st,
      cp_resumeState =
        (if to_st = PAUSED then
           (if isPausable from_st then Some from_st
            else if isRecovery from_st then cx_resumeState current
            else None)
         else if to_st = DEGRADED then cx_resumeState current
         else if isRecovery to_st then cx_resumeState current
         else if isPausable to_st \<and> from_st = RECOVERING then Some to_st
         else None)\<rparr>"

section \<open>The guarded transition\<close>

datatype op_error =
    UnknownOperatorState | NoOutboundTransitions | PauseNotLegal | CancelNotLegal
  | HardFailureNotLegal | DegradeNotLegal | InvalidTransition

record transition_result =
  tr_to :: op_state
  tr_checkpoint :: checkpoint
  tr_checkpointCorrupt :: bool
  tr_recoveryTargetInvalid :: bool
  tr_exhausted :: "bool option"

definition moved :: "op_state \<Rightarrow> op_state \<Rightarrow> tcontext \<Rightarrow> transition_result" where
  "moved from_st to_st ctx =
     \<lparr>tr_to = to_st, tr_checkpoint = nextCheckpoint from_st to_st ctx,
      tr_checkpointCorrupt = False, tr_recoveryTargetInvalid = False, tr_exhausted = None\<rparr>"

definition retry_in_execution :: "op_state \<Rightarrow> tcontext \<Rightarrow> transition_result" where
  "retry_in_execution s ctx =
     (let attempt = (case cx_attempt ctx of Some a \<Rightarrow> a | None \<Rightarrow> 0);
          maxAttempts = (case cx_maxAttempts ctx of Some m \<Rightarrow> m | None \<Rightarrow> 3);
          exhausted = (attempt \<ge> maxAttempts);
          to_st = (if exhausted then FAILED else EXECUTING)
      in (moved s to_st ctx)\<lparr>tr_exhausted := Some exhausted\<rparr>)"

text \<open>What a table entry resolves to; the two sentinels are read from the checkpoint.\<close>

definition resolve_target :: "op_state \<Rightarrow> trigger \<Rightarrow> target \<Rightarrow> tcontext \<Rightarrow> transition_result" where
  "resolve_target s t tgt ctx =
     (case tgt of
        RESUME_STATE \<Rightarrow>
          (case cx_resumeState ctx of
             Some r \<Rightarrow>
               if isValidResumeState (Some r) then moved s r ctx
               else (moved s FAILED ctx)\<lparr>tr_checkpointCorrupt := True\<rparr>
           | None \<Rightarrow> (moved s FAILED ctx)\<lparr>tr_checkpointCorrupt := True\<rparr>)
      | PREVIOUS_STATE \<Rightarrow>
          (case cx_previousState ctx of
             Some p \<Rightarrow>
               if isValidRecoveryTarget (Some p) then moved s p ctx
               else (moved s FAILED ctx)\<lparr>tr_recoveryTargetInvalid := True\<rparr>
           | None \<Rightarrow> (moved s FAILED ctx)\<lparr>tr_recoveryTargetInvalid := True\<rparr>)
      | To target \<Rightarrow>
          if t = ''step_timeout'' \<and> target = EXECUTING then retry_in_execution s ctx
          else if t = ''verify_retry'' then retry_in_execution s ctx
          else moved s target ctx)"

definition transitionOperatorState ::
  "op_state \<Rightarrow> trigger \<Rightarrow> tcontext \<Rightarrow> (op_error, transition_result) result" where
  "transitionOperatorState s t ctx =
     (if \<not> isKnownState s then Inl UnknownOperatorState
      else if isTerminal s then Inl NoOutboundTransitions
      else if t = ''emergency_stop'' then Inr (moved s EMERGENCY_STOPPED ctx)
      else if t = ''pause'' then
        (if \<not> isPausable s \<and> \<not> isRecovery s then Inl PauseNotLegal
         else Inr (moved s PAUSED ctx))
      else if t = ''cancel'' then
        (if s = PAUSED \<or> isActive s \<or> isRecovery s then Inr (moved s CANCELLED ctx)
         else Inl CancelNotLegal)
      else if t = ''hard_failure'' then
        (if isActive s \<or> isRecovery s then Inr (moved s FAILED ctx) else Inl HardFailureNotLegal)
      else if t = ''degrade'' then
        (if isActive s then Inr (moved s DEGRADED ctx) else Inl DegradeNotLegal)
      else
        (case lookup_transition s t of
           None \<Rightarrow> Inl InvalidTransition
         | Some tgt \<Rightarrow> Inr (resolve_target s t tgt ctx)))"

section \<open>Properties of one transition\<close>

lemma known_states: "isKnownState s \<longleftrightarrow> (\<forall>n. s \<noteq> NotAState n)"
  by (cases s) (simp_all add: state_groups)

lemma known_iff_groups: "isKnownState s \<longleftrightarrow> isNonTerminal s \<or> isTerminal s"
  by (simp add: isKnownState_def ALL_STATES_def isNonTerminal_def isTerminal_def)

lemma groups_disjoint: "\<not> (isNonTerminal s \<and> isTerminal s)"
  by (cases s) (simp_all add: state_groups)

lemma pausable_active: "isPausable s \<Longrightarrow> isActive s"
  by (cases s) (simp_all add: state_groups)

lemma pausable_known: "isPausable s \<Longrightarrow> isKnownState s"
  by (cases s) (simp_all add: state_groups)

lemma active_known: "isActive s \<Longrightarrow> isKnownState s"
  by (cases s) (simp_all add: state_groups)

lemma moved_simps [simp]:
  "tr_to (moved s q ctx) = q" "tr_checkpoint (moved s q ctx) = nextCheckpoint s q ctx"
  "tr_exhausted (moved s q ctx) = None" "\<not> tr_checkpointCorrupt (moved s q ctx)"
  "\<not> tr_recoveryTargetInvalid (moved s q ctx)"
  by (simp_all add: moved_def)

lemma nextCheckpoint_previous [simp]: "cp_previousState (nextCheckpoint s q ctx) = s"
  by (simp add: nextCheckpoint_def)

lemma transition_terminal:
  "isTerminal s \<Longrightarrow> transitionOperatorState s t ctx = Inl NoOutboundTransitions"
  using known_iff_groups by (auto simp: transitionOperatorState_def)

text \<open>The ways a transition can succeed.\<close>

lemma transition_cases:
  assumes "transitionOperatorState s t ctx = Inr r"
  obtains (emergency) "t = ''emergency_stop''" "isNonTerminal s" "r = moved s EMERGENCY_STOPPED ctx"
  | (pause) "t = ''pause''" "isPausable s \<or> isRecovery s" "r = moved s PAUSED ctx"
  | (cancel) "t = ''cancel''" "s = PAUSED \<or> isActive s \<or> isRecovery s" "r = moved s CANCELLED ctx"
  | (failure) "t = ''hard_failure''" "isActive s \<or> isRecovery s" "r = moved s FAILED ctx"
  | (degrade) "t = ''degrade''" "isActive s" "r = moved s DEGRADED ctx"
  | (edge) tgt where "lookup_transition s t = Some tgt" "isNonTerminal s"
      "r = resolve_target s t tgt ctx"
  using assms known_iff_groups [of s]
  by (auto simp: transitionOperatorState_def split: if_splits option.splits)

lemma transition_from_nonterminal:
  "transitionOperatorState s t ctx = Inr r \<Longrightarrow> isNonTerminal s"
  using known_iff_groups [of s] by (auto simp: transitionOperatorState_def split: if_splits)

text \<open>The edges of the table, by their target.\<close>

definition table_edges :: "op_state \<Rightarrow> (trigger \<times> target) list" where
  "table_edges s = (case TRANSITIONS s of Some tbl \<Rightarrow> tbl | None \<Rightarrow> [])"

lemma lookup_transition_edge:
  assumes "lookup_transition s t = Some tgt"
  obtains (own) "(t, tgt) \<in> set (table_edges s)"
  | (inherited) "t \<in> set object_prototype_keys" "tgt = To (NotAState t)"
  using assms
  by (auto simp: lookup_transition_def literal_lookup_def table_edges_def split: option.splits if_splits dest: map_of_SomeD)

text \<open>The sources of the edges to a given target.\<close>

lemma edge_sources:
  "(t, To EXECUTING) \<in> set (table_edges s) \<Longrightarrow>
     s = PLANNING \<and> t = ''auto_approved'' \<or> s = AWAITING_APPROVAL \<and> t = ''approve''
     \<or> s = AWAITING_APPROVAL \<and> t = ''policy_override'' \<or> s = EXECUTING \<and> t = ''step_timeout''
     \<or> s = VERIFYING \<and> t = ''verify_retry''"
  "(t, To SPEAKING) \<in> set (table_edges s) \<Longrightarrow> s = VERIFYING \<and> t = ''all_verified''"
  "(t, To REAUTHORIZING) \<in> set (table_edges s) \<Longrightarrow> s = PAUSED \<and> t = ''resume_requested''"
  "(t, To RECOVERING) \<in> set (table_edges s) \<Longrightarrow> s = REAUTHORIZING \<and> t = ''reauth_granted''"
  "(t, RESUME_STATE) \<in> set (table_edges s) \<Longrightarrow> s = RECOVERING \<and> t = ''checkpoint_validated''"
  "(t, PREVIOUS_STATE) \<in> set (table_edges s) \<Longrightarrow> s = DEGRADED \<and> t = ''recovered''"
  "(t, To EMERGENCY_STOPPED) \<notin> set (table_edges s)"
  "(t, To PAUSED) \<notin> set (table_edges s)"
  "(''verify_retry'', tgt) \<in> set (table_edges s) \<Longrightarrow> s = VERIFYING"
  by (cases s; simp add: table_edges_def)+

lemma resolve_cases:
  assumes "tr_to (resolve_target s t tgt ctx) = q"
  obtains (static) "tgt = To q"
  | (resumed) "tgt = RESUME_STATE" "cx_resumeState ctx = Some q" "isPausable q"
  | (recovered) "tgt = PREVIOUS_STATE" "cx_previousState ctx = Some q" "isActive q" "q \<noteq> DEGRADED"
  | (failed) "q = FAILED"
  | (retried) "q = EXECUTING" "t = ''verify_retry''"
  using assms
  by (auto simp: resolve_target_def retry_in_execution_def Let_def isValidResumeState_def
      isValidRecoveryTarget_def split: target.splits option.splits if_splits)

text \<open>Where a transition along a table edge ends.\<close>

lemma resolve_to:
  "tr_to (resolve_target s t tgt ctx) =
     (case tgt of
        RESUME_STATE \<Rightarrow>
          if isValidResumeState (cx_resumeState ctx) then the (cx_resumeState ctx) else FAILED
      | PREVIOUS_STATE \<Rightarrow>
          if isValidRecoveryTarget (cx_previousState ctx) then the (cx_previousState ctx) else FAILED
      | To q \<Rightarrow>
          if (t = ''step_timeout'' \<and> q = EXECUTING \<or> t = ''verify_retry'')
          then (if (case cx_attempt ctx of Some a \<Rightarrow> a | None \<Rightarrow> 0)
                    \<ge> (case cx_maxAttempts ctx of Some m \<Rightarrow> m | None \<Rightarrow> 3)
                then FAILED else EXECUTING)
          else q)"
  by (cases tgt; cases "cx_resumeState ctx"; cases "cx_previousState ctx")
     (simp_all add: resolve_target_def retry_in_execution_def Let_def isValidResumeState_def
        isValidRecoveryTarget_def)

lemma resolve_checkpoint:
  "tr_checkpoint (resolve_target s t tgt ctx) = nextCheckpoint s (tr_to (resolve_target s t tgt ctx)) ctx"
  by (simp add: resolve_target_def retry_in_execution_def Let_def split: target.splits option.splits)

lemma transition_checkpoint:
  "transitionOperatorState s t ctx = Inr r \<Longrightarrow> tr_checkpoint r = nextCheckpoint s (tr_to r) ctx"
  by (erule transition_cases) (simp_all add: resolve_checkpoint)

lemma transition_previous_state:
  "transitionOperatorState s t ctx = Inr r \<Longrightarrow> cp_previousState (tr_checkpoint r) = s"
  by (simp add: transition_checkpoint)

text \<open>The entries of a state group: from where, and by which trigger.\<close>

lemma entered_cases:
  assumes "transitionOperatorState s t ctx = Inr r" and "tr_to r = q"
  obtains (special) "(q, t) \<in> {(EMERGENCY_STOPPED, ''emergency_stop''), (PAUSED, ''pause''),
      (CANCELLED, ''cancel''), (FAILED, ''hard_failure''), (DEGRADED, ''degrade'')}"
      "q = PAUSED \<longrightarrow> isPausable s \<or> isRecovery s"
  | (static) "(t, To q) \<in> set (table_edges s)"
  | (resumed) "(t, RESUME_STATE) \<in> set (table_edges s)" "cx_resumeState ctx = Some q" "isPausable q"
  | (recovered) "(t, PREVIOUS_STATE) \<in> set (table_edges s)" "cx_previousState ctx = Some q"
      "isActive q" "q \<noteq> DEGRADED"
  | (failed) "q = FAILED"
  | (retried) tgt where "q = EXECUTING" "t = ''verify_retry''" "(t, tgt) \<in> set (table_edges s)"
  | (inherited) "q = NotAState t" "t \<in> set object_prototype_keys"
  using assms(1)
proof (cases rule: transition_cases)
  case (edge tgt)
  from edge(1) show ?thesis
  proof (cases rule: lookup_transition_edge)
    case own
    have "tr_to (resolve_target s t tgt ctx) = q" using assms(2) edge(3) by simp
    then show ?thesis
    proof (cases rule: resolve_cases)
      case static
      show ?thesis by (rule that(2)) (use own static in simp)
    next
      case resumed
      show ?thesis by (rule that(3)) (use own resumed in simp_all)
    next
      case recovered
      show ?thesis by (rule that(4)) (use own recovered in simp_all)
    next
      case failed
      then show ?thesis by (rule that(5))
    next
      case retried
      show ?thesis by (rule that(6)) (use own retried in simp_all)
    qed
  next
    case inherited
    have "t \<noteq> ''verify_retry''"
      using inherited(1) by (rule contrapos_pn) (simp add: object_prototype_keys_def)
    then have "q = NotAState t"
      using inherited edge assms(2) by (simp add: resolve_target_def)
    then show ?thesis by (rule that(7)) (rule inherited)
  qed
qed (rule that(1); use assms(2) in simp)+

lemma enter_emergency:
  assumes "transitionOperatorState s t ctx = Inr r" and "tr_to r = EMERGENCY_STOPPED"
  shows "t = ''emergency_stop''"
  using assms
  by (cases rule: entered_cases) (simp_all add: state_groups edge_sources)

lemma enter_executing:
  assumes "transitionOperatorState s t ctx = Inr r" and "tr_to r = EXECUTING" and "s \<noteq> EXECUTING"
  shows "(s = PLANNING \<and> t = ''auto_approved'')
       \<or> (s = AWAITING_APPROVAL \<and> t = ''approve'')
       \<or> (s = AWAITING_APPROVAL \<and> t = ''policy_override'')
       \<or> (s = VERIFYING \<and> t = ''verify_retry'')
       \<or> (s = RECOVERING \<and> t = ''checkpoint_validated'' \<and> cx_resumeState ctx = Some EXECUTING)
       \<or> (s = DEGRADED \<and> t = ''recovered'' \<and> cx_previousState ctx = Some EXECUTING)"
  using assms(1,2)
proof (cases rule: entered_cases)
  case static
  from edge_sources(1) [OF static] assms(3) show ?thesis by (elim disjE conjE) simp_all
next
  case resumed
  from edge_sources(5) [OF resumed(1)] resumed(2) show ?thesis by simp
next
  case recovered
  from edge_sources(6) [OF recovered(1)] recovered(2) show ?thesis by simp
next
  case (retried tgt)
  with edge_sources(9) [of tgt s] show ?thesis by simp
qed simp_all

lemma enter_speaking:
  assumes "transitionOperatorState s t ctx = Inr r" and "tr_to r = SPEAKING"
  shows "(s = VERIFYING \<and> t = ''all_verified'')
       \<or> (s = DEGRADED \<and> t = ''recovered'' \<and> cx_previousState ctx = Some SPEAKING)"
  using assms
proof (cases rule: entered_cases)
  case static
  from edge_sources(2) [OF static] show ?thesis by simp
next
  case recovered
  from edge_sources(6) [OF recovered(1)] recovered(2) show ?thesis by simp
qed (simp_all add: state_groups)

lemma enter_paused:
  assumes "transitionOperatorState s t ctx = Inr r" and "tr_to r = PAUSED"
  shows "t = ''pause'' \<and> (isPausable s \<or> isRecovery s)"
  using assms
  by (cases rule: entered_cases) (simp_all add: edge_sources, simp_all add: state_groups)

lemma enter_recovery:
  assumes "transitionOperatorState s t ctx = Inr r" and "isRecovery (tr_to r)"
  shows "(s = PAUSED \<and> t = ''resume_requested'' \<and> tr_to r = REAUTHORIZING)
       \<or> (s = REAUTHORIZING \<and> t = ''reauth_granted'' \<and> tr_to r = RECOVERING)"
proof -
  have rec: "tr_to r = RECOVERING \<or> tr_to r = REAUTHORIZING"
    using assms(2) by (simp add: isRecovery_def RECOVERY_STATES_def)
  then show ?thesis
  proof
    assume to: "tr_to r = RECOVERING"
    from assms(1) to show ?thesis
      by (cases rule: entered_cases)
         (simp_all add: to, simp_all add: edge_sources state_groups)
  next
    assume to: "tr_to r = REAUTHORIZING"
    from assms(1) to show ?thesis
      by (cases rule: entered_cases)
         (simp_all add: to, simp_all add: edge_sources state_groups)
  qed
qed

lemma retry_budget:
  assumes "s = EXECUTING \<and> t = ''step_timeout'' \<or> s = VERIFYING \<and> t = ''verify_retry''"
  shows "\<exists>r. transitionOperatorState s t ctx = Inr r \<and>
     tr_to r = (if (case cx_attempt ctx of Some a \<Rightarrow> a | None \<Rightarrow> 0)
                    \<ge> (case cx_maxAttempts ctx of Some m \<Rightarrow> m | None \<Rightarrow> 3)
                then FAILED else EXECUTING)"
  using assms by (elim disjE conjE) (simp_all add: transitionOperatorState_def lookup_transition_def literal_lookup_def resolve_to state_groups)

text \<open>
  The deterministic pause policy and the transition function agree: what the policy calls
  a pause is a legal pause, what it calls a cancel is a legal trigger to the named state.
\<close>

lemma pause_policy_pause:
  "pauseRequestPolicy s = P_pause \<longleftrightarrow> isPausable s \<or> isRecovery s"
  by (cases s) (simp_all add: pauseRequestPolicy_def state_groups)

lemma pause_policy_cancel_cases:
  "pauseRequestPolicy s = P_cancel q t \<Longrightarrow>
     q = IDLE \<and> (s = LISTENING \<and> t = ''mic_cancel'' \<or> s = TRANSCRIBING \<and> t = ''stt_cancel''
       \<or> s = SPEAKING \<and> t = ''tts_cancel'')"
  by (cases s) (simp_all add: pauseRequestPolicy_def state_groups)

lemma pause_policy_cancel:
  assumes "pauseRequestPolicy s = P_cancel q t"
  shows "q = IDLE \<and> transitionOperatorState s t ctx = Inr (moved s IDLE ctx)"
  using pause_policy_cancel_cases [OF assms]
  by (elim conjE disjE)
     (simp_all add: transitionOperatorState_def lookup_transition_def literal_lookup_def
       resolve_target_def state_groups)

lemma pause_policy_defer: "pauseRequestPolicy s = P_defer \<longleftrightarrow> s \<in> {THINKING, PLANNING}"
  by (cases s) (simp_all add: pauseRequestPolicy_def state_groups)

lemma pause_legal_iff:
  "(\<exists>r. transitionOperatorState s ''pause'' ctx = Inr r) \<longleftrightarrow> pauseRequestPolicy s = P_pause"
  by (cases s) (simp_all add: pauseRequestPolicy_def transitionOperatorState_def state_groups)

section \<open>Sessions of the machine\<close>

text \<open>
  The part of a persisted session the machine reads back: the caller passes the stored
  \<open>previousState\<close> and \<open>resumeState\<close> as the context of the next transition.
\<close>

record machine =
  m_state :: op_state
  m_previous :: "op_state option"
  m_resume :: "op_state option"

definition machine_init :: machine where
  "machine_init = \<lparr>m_state = IDLE, m_previous = None, m_resume = None\<rparr>"

definition machine_context :: "machine \<Rightarrow> int option \<Rightarrow> int option \<Rightarrow> tcontext" where
  "machine_context m a mx =
     \<lparr>cx_previousState = m_previous m, cx_resumeState = m_resume m, cx_attempt = a, cx_maxAttempts = mx\<rparr>"

definition machine_after :: "transition_result \<Rightarrow> machine" where
  "machine_after r =
     \<lparr>m_state = tr_to r, m_previous = Some (cp_previousState (tr_checkpoint r)),
      m_resume = cp_resumeState (tr_checkpoint r)\<rparr>"

inductive machine_step :: "machine \<Rightarrow> trigger \<Rightarrow> machine \<Rightarrow> bool" where
  fire: "transitionOperatorState (m_state m) t (machine_context m a mx) = Inr r
         \<Longrightarrow> machine_step m t (machine_after r)"

inductive_cases machine_stepE: "machine_step m t m'"

inductive machine_reachable :: "machine \<Rightarrow> bool" where
  start: "machine_reachable machine_init"
| step: "machine_reachable m \<Longrightarrow> machine_step m t m' \<Longrightarrow> machine_reachable m'"

text \<open>
  The invariant of the checkpoint: a session that is paused or on its way back always
  carries a resume state that is pausable.
\<close>

definition machine_inv :: "machine \<Rightarrow> bool" where
  "machine_inv m \<longleftrightarrow>
     (m_state m = PAUSED \<or> isRecovery (m_state m) \<longrightarrow> isValidResumeState (m_resume m)) \<and>
     (m_resume m \<noteq> None \<longrightarrow> isValidResumeState (m_resume m))"

lemma machine_inv_init: "machine_inv machine_init"
  by (simp add: machine_inv_def machine_init_def state_groups)

lemma checkpoint_resume_valid:
  assumes "machine_inv m"
  shows "cp_resumeState (nextCheckpoint (m_state m) q (machine_context m a mx)) \<noteq> None
           \<longrightarrow> isValidResumeState (cp_resumeState (nextCheckpoint (m_state m) q (machine_context m a mx)))"
  using assms
  by (auto simp: nextCheckpoint_def machine_inv_def machine_context_def isValidResumeState_def
      split: option.splits)

lemma machine_step_inv: "machine_step m t m' \<Longrightarrow> machine_inv m \<Longrightarrow> machine_inv m'"
proof (induction rule: machine_step.induct)
  case (fire m t a mx r)
  let ?ctx = "machine_context m a mx"
  have cp: "tr_checkpoint r = nextCheckpoint (m_state m) (tr_to r) ?ctx"
    using fire.hyps by (rule transition_checkpoint)
  have valid: "cp_resumeState (tr_checkpoint r) \<noteq> None
                 \<longrightarrow> isValidResumeState (cp_resumeState (tr_checkpoint r))"
    using checkpoint_resume_valid [OF fire.prems] cp by simp
  have "isValidResumeState (cp_resumeState (tr_checkpoint r))"
    if "tr_to r = PAUSED \<or> isRecovery (tr_to r)"
    using that enter_paused [OF fire.hyps] enter_recovery [OF fire.hyps] fire.prems
    by (auto simp: cp nextCheckpoint_def machine_inv_def machine_context_def
        isValidResumeState_def isRecovery_def RECOVERY_STATES_def split: option.splits if_splits)
  with valid show ?case by (simp add: machine_inv_def machine_after_def)
qed

lemma machine_reachable_inv: "machine_reachable m \<Longrightarrow> machine_inv m"
  by (induction rule: machine_reachable.induct) (auto intro: machine_inv_init machine_step_inv)

section \<open>The theorems of the machine\<close>

text \<open>
  C1: \<open>EMERGENCY_STOPPED\<close> is entered exactly by the trigger \<open>emergency_stop\<close>, and
  from every non-terminal state that trigger succeeds.
\<close>

theorem emergency_stop_exclusive:
  "(\<exists>r. transitionOperatorState s t ctx = Inr r \<and> tr_to r = EMERGENCY_STOPPED)
     \<longleftrightarrow> t = ''emergency_stop'' \<and> isNonTerminal s"
proof
  assume "\<exists>r. transitionOperatorState s t ctx = Inr r \<and> tr_to r = EMERGENCY_STOPPED"
  then show "t = ''emergency_stop'' \<and> isNonTerminal s"
    using enter_emergency transition_from_nonterminal by blast
next
  assume "t = ''emergency_stop'' \<and> isNonTerminal s"
  then show "\<exists>r. transitionOperatorState s t ctx = Inr r \<and> tr_to r = EMERGENCY_STOPPED"
    using known_iff_groups [of s] groups_disjoint [of s] by (simp add: transitionOperatorState_def)
qed

text \<open>
  C2: the execution gate. A session that enters \<open>EXECUTING\<close> from another state was
  approved (by the plan policy, by the operator or by an override), has a verification
  retry, or returns to an execution that had been interrupted.
\<close>

theorem execution_gate:
  assumes "transitionOperatorState s t ctx = Inr r" and "tr_to r = EXECUTING" and "s \<noteq> EXECUTING"
  shows "(s, t) \<in> {(PLANNING, ''auto_approved''), (AWAITING_APPROVAL, ''approve''),
            (AWAITING_APPROVAL, ''policy_override''), (VERIFYING, ''verify_retry'')}
       \<or> (s = RECOVERING \<and> t = ''checkpoint_validated'' \<and> cx_resumeState ctx = Some EXECUTING)
       \<or> (s = DEGRADED \<and> t = ''recovered'' \<and> cx_previousState ctx = Some EXECUTING)"
  using enter_executing [OF assms] by simp

definition no_context :: tcontext where
  "no_context =
     \<lparr>cx_previousState = None, cx_resumeState = None, cx_attempt = None, cx_maxAttempts = None\<rparr>"

theorem execution_gate_witness:
  "(AWAITING_APPROVAL, ''approve'') \<in> {(PLANNING, ''auto_approved''), (AWAITING_APPROVAL, ''approve''),
            (AWAITING_APPROVAL, ''policy_override''), (VERIFYING, ''verify_retry'')}
       \<or> (AWAITING_APPROVAL = RECOVERING \<and> ''approve'' = ''checkpoint_validated'' \<and>
          cx_resumeState no_context = Some EXECUTING)
       \<or> (AWAITING_APPROVAL = DEGRADED \<and> ''approve'' = ''recovered'' \<and>
          cx_previousState no_context = Some EXECUTING)"
  by (rule execution_gate [of AWAITING_APPROVAL "''approve''" no_context
        "moved AWAITING_APPROVAL EXECUTING no_context"])
     (simp_all add: transitionOperatorState_def lookup_transition_def literal_lookup_def
        resolve_target_def state_groups)

text \<open>
  From every reachable session, whatever trigger comes next, the checkpoint the
  machine reads is never the corrupt one: the branch of \<open>checkpoint_validated\<close> that
  fails the session is dead code for sessions the machine itself produced.
\<close>

theorem reachable_checkpoint_sound:
  assumes "machine_reachable m"
    and "transitionOperatorState (m_state m) t (machine_context m a mx) = Inr r"
  shows "\<not> tr_checkpointCorrupt r"
proof -
  have inv: "machine_inv m" using assms(1) by (rule machine_reachable_inv)
  from assms(2) show ?thesis
  proof (cases rule: transition_cases)
    case (edge tgt)
    show ?thesis
    proof (cases tgt)
      case RESUME_STATE
      from edge(1) have "m_state m = RECOVERING"
        by (cases rule: lookup_transition_edge) (simp_all add: RESUME_STATE edge_sources)
      with inv have "isValidResumeState (m_resume m)"
        by (simp add: machine_inv_def isRecovery_def RECOVERY_STATES_def)
      then obtain q where "m_resume m = Some q" "isPausable q"
        by (auto simp: isValidResumeState_def split: option.splits)
      then show ?thesis
        by (simp add: edge RESUME_STATE resolve_target_def machine_context_def isValidResumeState_def)
    qed (simp_all add: edge resolve_target_def retry_in_execution_def Let_def split: option.splits)
  qed simp_all
qed

theorem reachable_checkpoint_sound_witness:
  "\<not> tr_checkpointCorrupt
        (moved LISTENING IDLE (machine_context (machine_after (moved IDLE LISTENING no_context)) None None))"
proof (rule reachable_checkpoint_sound [of "machine_after (moved IDLE LISTENING no_context)"
      "''no_speech''" None None])
  have "machine_step machine_init ''start_listening'' (machine_after
          (moved IDLE LISTENING (machine_context machine_init None None)))"
    by (rule machine_step.fire [of _ _ None None])
       (simp add: transitionOperatorState_def lookup_transition_def literal_lookup_def
         resolve_target_def state_groups machine_init_def)
  moreover have "machine_context machine_init None None = no_context"
    by (simp add: machine_context_def machine_init_def no_context_def)
  ultimately show "machine_reachable (machine_after (moved IDLE LISTENING no_context))"
    using machine_reachable.start machine_reachable.step by metis
qed (simp add: machine_after_def transitionOperatorState_def lookup_transition_def
      literal_lookup_def resolve_target_def state_groups)

text \<open>
  The deterministic pause policy and the transition function agree. What the policy
  calls a pause is exactly what \<open>pause\<close> accepts; what it calls a cancel is a legal
  trigger that leads to the state it names; what it defers is exactly the two states
  whose work is in the model.
\<close>

theorem pause_policy_agrees:
  "(pauseRequestPolicy s = P_pause \<longleftrightarrow> (\<exists>r. transitionOperatorState s ''pause'' ctx = Inr r)) \<and>
   (pauseRequestPolicy s = P_defer \<longleftrightarrow> s = THINKING \<or> s = PLANNING) \<and>
   {(q, t). pauseRequestPolicy s = P_cancel q t}
     \<subseteq> {(q, t). q = IDLE \<and> transitionOperatorState s t ctx = Inr (moved s q ctx)}"
  using pause_legal_iff pause_policy_defer pause_policy_cancel by fastforce

text \<open>
  The retry budget. A timed-out step, and a verification that asks for a retry, go
  back to \<open>EXECUTING\<close> while the attempt is below the maximum (3 unless given) and fail the
  session from then on; the result says which of the two happened.
\<close>

theorem retry_budget_exact:
  assumes "s = EXECUTING \<and> t = ''step_timeout'' \<or> s = VERIFYING \<and> t = ''verify_retry''"
    and "n = (case cx_attempt ctx of Some a \<Rightarrow> a | None \<Rightarrow> 0)"
    and "k = (case cx_maxAttempts ctx of Some m \<Rightarrow> m | None \<Rightarrow> 3)"
  shows "\<exists>r. transitionOperatorState s t ctx = Inr r \<and> tr_exhausted r = Some (n \<ge> k)
           \<and> tr_to r = (if n \<ge> k then FAILED else EXECUTING)
           \<and> cp_previousState (tr_checkpoint r) = s"
proof -
  obtain r where r: "transitionOperatorState s t ctx = Inr r"
    "tr_to r = (if n \<ge> k then FAILED else EXECUTING)"
    using retry_budget [OF assms(1), of ctx] assms(2,3) by auto
  have "tr_exhausted r = Some (n \<ge> k)"
    using assms r(1)
    by (elim disjE conjE) (auto simp: transitionOperatorState_def lookup_transition_def
        literal_lookup_def resolve_target_def retry_in_execution_def Let_def state_groups)
  with r transition_previous_state [OF r(1)] show ?thesis by blast
qed

theorem retry_budget_exact_witness:
  "\<exists>r. transitionOperatorState EXECUTING ''step_timeout'' no_context = Inr r
       \<and> tr_exhausted r = Some ((0::int) \<ge> 3)
       \<and> tr_to r = (if (0::int) \<ge> 3 then FAILED else EXECUTING)
       \<and> cp_previousState (tr_checkpoint r) = EXECUTING"
  by (rule retry_budget_exact) (simp_all add: no_context_def)

end
