(* ===== verification/OperatorEvents.thy ===== *)
theory OperatorEvents
  imports JsValue OperatorStateMachine
begin

text \<open>
  The canonical event catalog of \<open>packages/zeto/src/domain/operatorEvents.js\<close>: the
  closed list of event types and the builders of the event envelope. The random part of
  an event id and the clock are arguments; a payload is the JavaScript object the
  builders write.
\<close>

section \<open>The catalog\<close>

definition EVENT_TYPES :: "string list" where
  "EVENT_TYPES =
     [''session.started'', ''session.ended'', ''session.state_changed'', ''input.received'',
      ''transcript.partial'', ''transcript.final'', ''intent.resolved'', ''plan.created'',
      ''plan.approved'', ''plan.rejected'', ''step.started'', ''step.finished'', ''step.failed'',
      ''tool.require_approval'', ''verification.passed'', ''verification.failed'',
      ''speech.started'', ''speech.ended'', ''pairing.issued'', ''pairing.consumed'',
      ''incident.raised'', ''incident.resolved'', ''emergency.stop'']"

definition isKnownEventType :: "string \<Rightarrow> bool" where
  "isKnownEventType ty = (ty \<in> set EVENT_TYPES)"

datatype event_error = UnknownEventType string

definition assertEventType :: "string \<Rightarrow> (event_error, string) result" where
  "assertEventType ty = (if \<not> isKnownEventType ty then Inl (UnknownEventType ty) else Inr ty)"

section \<open>The envelope\<close>

record event =
  ev_event_id :: string
  ev_session_id :: string
  ev_generation :: int
  ev_sequence_id :: "int option"
  ev_type :: string
  ev_occurred_at :: int
  ev_correlation_id :: "string option"
  ev_payload :: js

definition buildEvent ::
  "string \<Rightarrow> int \<Rightarrow> string \<Rightarrow> int \<Rightarrow> string \<Rightarrow> string option \<Rightarrow> js \<Rightarrow> (event_error, event) result" where
  "buildEvent uid occurredAt sessionId generation ty correlationId payload =
     bindR (assertEventType ty) (\<lambda>_.
       Inr \<lparr>ev_event_id = ''evt_'' @ uid, ev_session_id = sessionId, ev_generation = generation,
            ev_sequence_id = None, ev_type = ty, ev_occurred_at = occurredAt,
            ev_correlation_id = correlationId, ev_payload = payload\<rparr>)"

text \<open>A state as the string the code stores; \<open>null\<close> for an absent text.\<close>

fun state_name :: "op_state \<Rightarrow> string" where
  "state_name IDLE = ''IDLE''"
| "state_name LISTENING = ''LISTENING''"
| "state_name TRANSCRIBING = ''TRANSCRIBING''"
| "state_name THINKING = ''THINKING''"
| "state_name PLANNING = ''PLANNING''"
| "state_name AWAITING_APPROVAL = ''AWAITING_APPROVAL''"
| "state_name EXECUTING = ''EXECUTING''"
| "state_name VERIFYING = ''VERIFYING''"
| "state_name SPEAKING = ''SPEAKING''"
| "state_name DEGRADED = ''DEGRADED''"
| "state_name RECOVERING = ''RECOVERING''"
| "state_name REAUTHORIZING = ''REAUTHORIZING''"
| "state_name PAUSED = ''PAUSED''"
| "state_name FAILED = ''FAILED''"
| "state_name CANCELLED = ''CANCELLED''"
| "state_name EMERGENCY_STOPPED = ''EMERGENCY_STOPPED''"
| "state_name (NotAState n) = n"

definition js_text :: "string option \<Rightarrow> js" where
  "js_text t = (case t of None \<Rightarrow> JNull | Some s \<Rightarrow> JStr s)"

definition js_int :: "int \<Rightarrow> js" where
  "js_int n = JNum (Fin (of_int n))"

definition move_payload :: "op_state \<Rightarrow> op_state \<Rightarrow> trigger \<Rightarrow> string \<Rightarrow> js" where
  "move_payload from_st to_st trigger actor =
     JObj [(''from'', JStr (state_name from_st)), (''to'', JStr (state_name to_st)),
           (''trigger'', JStr trigger), (''actor'', JStr actor)]"

definition buildStateChanged ::
  "string \<Rightarrow> int \<Rightarrow> string \<Rightarrow> int \<Rightarrow> op_state \<Rightarrow> op_state \<Rightarrow> trigger \<Rightarrow> string \<Rightarrow> string option
     \<Rightarrow> (event_error, event) result" where
  "buildStateChanged uid occurredAt sessionId generation from_st to_st trigger actor correlationId =
     buildEvent uid occurredAt sessionId generation ''session.state_changed'' correlationId
       (move_payload from_st to_st trigger actor)"

record emergency_record =
  er_actorId :: "string option"
  er_reason :: string
  er_source :: string
  er_activePlanId :: "string option"
  er_activeStepId :: "string option"
  er_grantsRevokedCount :: int
  er_toolsCancelledCount :: int
  er_killSwitchLatched :: bool

definition buildEmergencyStop ::
  "string \<Rightarrow> int \<Rightarrow> string \<Rightarrow> int \<Rightarrow> emergency_record \<Rightarrow> string option \<Rightarrow> (event_error, event) result" where
  "buildEmergencyStop uid occurredAt sessionId generation er correlationId =
     buildEvent uid occurredAt sessionId generation ''emergency.stop'' correlationId
       (JObj [(''actor_id'', js_text (er_actorId er)), (''reason'', JStr (er_reason er)),
              (''source'', JStr (er_source er)), (''active_plan_id'', js_text (er_activePlanId er)),
              (''active_step_id'', js_text (er_activeStepId er)),
              (''grants_revoked_count'', js_int (er_grantsRevokedCount er)),
              (''tools_cancelled_count'', js_int (er_toolsCancelledCount er)),
              (''kill_switch_latched'', JBool (er_killSwitchLatched er))])"

section \<open>What a built event is\<close>

lemma buildEvent_Inr [result_simps]:
  "buildEvent uid tm sid gen ty corr p = Inr ev \<longleftrightarrow>
     isKnownEventType ty \<and>
     ev = \<lparr>ev_event_id = ''evt_'' @ uid, ev_session_id = sid, ev_generation = gen,
           ev_sequence_id = None, ev_type = ty, ev_occurred_at = tm,
           ev_correlation_id = corr, ev_payload = p\<rparr>"
  by (auto simp: buildEvent_def assertEventType_def)

lemma known_event_types [simp]:
  "isKnownEventType ''session.started''" "isKnownEventType ''session.ended''"
  "isKnownEventType ''session.state_changed''" "isKnownEventType ''input.received''"
  "isKnownEventType ''transcript.final''" "isKnownEventType ''plan.created''"
  "isKnownEventType ''plan.approved''" "isKnownEventType ''plan.rejected''"
  "isKnownEventType ''step.started''" "isKnownEventType ''step.finished''"
  "isKnownEventType ''step.failed''" "isKnownEventType ''emergency.stop''"
  by (simp_all add: isKnownEventType_def EVENT_TYPES_def)

lemma event_types_distinct: "distinct EVENT_TYPES"
  by (simp add: EVENT_TYPES_def)

lemma state_name_inj:
  assumes "isKnownState s" and "isKnownState q" and "state_name s = state_name q"
  shows "s = q"
  using assms by (cases s; cases q) (simp_all add: known_states)

lemma state_name_nonempty: "isKnownState s \<Longrightarrow> state_name s \<noteq> []"
  by (cases s) (simp_all add: known_states)

end
