(* ===== verification/OperatorRepository.thy ===== *)
theory OperatorRepository
  imports OperatorEvents
begin

text \<open>
  The persistence layer of the operator runtime,
  \<open>packages/zeto/src/repositories/operatorRepository.js\<close>. A table is the list of its
  rows in insertion order; \<open>gen_random_uuid()\<close> and \<open>randomUUID()\<close> draw from the
  supply \<open>uuid n\<close> for growing \<open>n\<close>; \<open>now()\<close> is the clock of the world. The
  constraints of the schema (primary keys, foreign keys, UNIQUE, CHECK) that a statement
  can violate are branches of the operation that issues it, and a transaction that throws
  leaves the tables as they were.
\<close>

section \<open>Rows and tables\<close>

record session =
  se_id :: string
  se_generation :: int
  se_mode :: string
  se_capabilities :: "string list"
  se_state :: op_state
  se_previousState :: "op_state option"
  se_resumeState :: "op_state option"
  se_checkpointId :: "string option"
  se_planId :: "string option"
  se_stepId :: "string option"
  se_attempt :: int
  se_pendingPause :: bool
  se_grantsRevoked :: bool
  se_killSwitchLatched :: bool
  se_lastSequenceId :: int
  se_actorId :: "string option"
  se_createdAt :: int
  se_updatedAt :: int

record command =
  co_id :: string
  co_sessionId :: string
  co_correlationId :: string
  co_type :: string
  co_text :: "string option"
  co_audioRef :: "string option"
  co_status :: string

record plan =
  pl_id :: string
  pl_sessionId :: string
  pl_generation :: int
  pl_intent :: string
  pl_policyVerdict :: string
  pl_estimatedCost :: rat
  pl_status :: string
  pl_createdAt :: int
  pl_updatedAt :: int

record plan_step_input =
  pi_stepId :: string
  pi_tool :: string
  pi_args :: js
  pi_risk :: string
  pi_dependsOn :: "string list"

record plan_step =
  ps_id :: string
  ps_planId :: string
  ps_stepKey :: string
  ps_tool :: string
  ps_args :: js
  ps_risk :: string
  ps_dependsOn :: "string list"
  ps_status :: string
  ps_idempotencyKey :: string

record execution =
  ex_id :: string
  ex_sessionId :: string
  ex_generation :: int
  ex_planId :: "string option"
  ex_stepId :: "string option"
  ex_tool :: string
  ex_action :: "string option"
  ex_args :: js
  ex_risk :: "string option"
  ex_approval :: string
  ex_idempotencyKey :: string
  ex_status :: string
  ex_response :: "js option"
  ex_durationMs :: "int option"

record evidence =
  evd_id :: string
  evd_stepId :: "string option"
  evd_executionId :: "string option"
  evd_status :: string
  evd_evidence :: js

record sequence =
  sq_id :: string
  sq_name :: string
  sq_mode :: string
  sq_dryRun :: bool
  sq_createdBy :: "string option"
  sq_createdAt :: int
  sq_updatedAt :: int

record sequence_step =
  ss_sequenceId :: string
  ss_stepKey :: string
  ss_position :: int
  ss_intent :: string
  ss_args :: js
  ss_risk :: string

record sequence_run =
  sr_id :: string
  sr_sequenceId :: string
  sr_sessionId :: string
  sr_dryRun :: bool
  sr_status :: string
  sr_currentStep :: "string option"
  sr_error :: "js option"

record run_step =
  rs_runId :: string
  rs_stepKey :: string
  rs_position :: int
  rs_intent :: string
  rs_args :: js
  rs_risk :: string
  rs_status :: string
  rs_result :: "js option"
  rs_error :: "js option"
  rs_idempotencyKey :: string

record queue_row =
  qr_id :: string
  qr_status :: string
  qr_message :: string
  qr_createdAt :: int

record world =
  w_now :: int
  w_fresh :: nat
  w_sessions :: "session list"
  w_events :: "event list"
  w_commands :: "command list"
  w_plans :: "plan list"
  w_planSteps :: "plan_step list"
  w_executions :: "execution list"
  w_evidence :: "evidence list"
  w_sequences :: "sequence list"
  w_sequenceSteps :: "sequence_step list"
  w_runs :: "sequence_run list"
  w_runSteps :: "run_step list"
  w_queue :: "queue_row list"

definition empty_world :: "int \<Rightarrow> world" where
  "empty_world now =
     \<lparr>w_now = now, w_fresh = 0, w_sessions = [], w_events = [], w_commands = [], w_plans = [],
      w_planSteps = [], w_executions = [], w_evidence = [], w_sequences = [],
      w_sequenceSteps = [], w_runs = [], w_runSteps = [], w_queue = []\<rparr>"

datatype repo_error =
    SessionMissing string | RunStepMissing string string | ConstraintViolation

type_synonym 'a repo_result = "(world, repo_error, 'a) outcome"

type_synonym uuid_supply = "nat \<Rightarrow> string"

text \<open>Draw the next random id.\<close>

definition next_uuid :: "uuid_supply \<Rightarrow> world \<Rightarrow> string" where
  "next_uuid U w = U (w_fresh w)"

definition tick :: "world \<Rightarrow> world" where
  "tick w = w\<lparr>w_fresh := Suc (w_fresh w)\<rparr>"

section \<open>Sessions\<close>

definition getSession :: "world \<Rightarrow> string \<Rightarrow> session option" where
  "getSession w sid = find (\<lambda>s. se_id s = sid) (w_sessions w)"

definition new_session :: "string \<Rightarrow> int \<Rightarrow> string \<Rightarrow> string list \<Rightarrow> string option \<Rightarrow> session" where
  "new_session sid now mode capabilities actorId =
     \<lparr>se_id = sid, se_generation = 1, se_mode = mode, se_capabilities = capabilities,
      se_state = IDLE, se_previousState = None, se_resumeState = None, se_checkpointId = None,
      se_planId = None, se_stepId = None, se_attempt = 0, se_pendingPause = False,
      se_grantsRevoked = False, se_killSwitchLatched = False, se_lastSequenceId = 0,
      se_actorId = actorId, se_createdAt = now, se_updatedAt = now\<rparr>"

definition SESSION_MODES :: "string list" where
  "SESSION_MODES = [''chat'', ''voice'', ''operator'', ''automation'']"

definition repo_createSession ::
  "uuid_supply \<Rightarrow> string \<Rightarrow> string list \<Rightarrow> string option \<Rightarrow> world \<Rightarrow> session repo_result" where
  "repo_createSession U mode capabilities actorId w =
     (let sid = next_uuid U w; s = new_session sid (w_now w) mode capabilities actorId
      in if mode \<notin> set SESSION_MODES \<or> sid \<in> se_id ` set (w_sessions w)
         then (tick w, Inl ConstraintViolation)
         else ((tick w)\<lparr>w_sessions := w_sessions w @ [s]\<rparr>, Inr s))"

text \<open>\<open>ORDER BY created_at DESC LIMIT 1\<close>; rows of the same instant keep their order.\<close>

definition findLatestSession :: "world \<Rightarrow> string option \<Rightarrow> bool \<Rightarrow> session option" where
  "findLatestSession w actorId excludeTerminal =
     (case sort_key (\<lambda>s. - se_createdAt s)
             (filter (\<lambda>s. (actorId = None \<or> se_actorId s = actorId) \<and>
                          (\<not> excludeTerminal \<or> \<not> isTerminal (se_state s))) (w_sessions w)) of
        [] \<Rightarrow> None
      | s # _ \<Rightarrow> Some s)"

definition reserveSequence :: "string \<Rightarrow> int \<Rightarrow> world \<Rightarrow> int repo_result" where
  "reserveSequence sid cnt w =
     (case getSession w sid of
        None \<Rightarrow> (w, Inl (SessionMissing sid))
      | Some s \<Rightarrow>
          (w\<lparr>w_sessions := update_where (\<lambda>r. se_id r = sid)
               (\<lambda>r. r\<lparr>se_lastSequenceId := se_lastSequenceId r + cnt, se_updatedAt := w_now w\<rparr>)
               (w_sessions w)\<rparr>,
           Inr (se_lastSequenceId s + cnt - cnt + 1)))"

record updates =
  up_state :: op_state
  up_previousState :: "op_state option"
  up_resumeState :: "op_state option"
  up_checkpointId :: "string option"
  up_planId :: "string option"
  up_stepId :: "string option"
  up_attempt :: "int option"
  up_pendingPause :: "bool option"
  up_grantsRevoked :: "bool option"
  up_killSwitchLatched :: "bool option"

definition written_session :: "int \<Rightarrow> updates \<Rightarrow> session \<Rightarrow> session" where
  "written_session now u r =
     r\<lparr>se_state := up_state u,
       se_previousState := up_previousState u,
       se_resumeState := up_resumeState u,
       se_checkpointId := or_opt (up_checkpointId u) (se_checkpointId r),
       se_planId := or_opt (up_planId u) (se_planId r),
       se_stepId := or_opt (up_stepId u) (se_stepId r),
       se_attempt := or_else (up_attempt u) (se_attempt r),
       se_pendingPause := or_else (up_pendingPause u) (se_pendingPause r),
       se_grantsRevoked := or_else (up_grantsRevoked u) (se_grantsRevoked r),
       se_killSwitchLatched := or_else (up_killSwitchLatched u) (se_killSwitchLatched r),
       se_updatedAt := now\<rparr>"

text \<open>The row's CHECKs: the state is one of the sixteen names, \<open>attempt >= 0\<close>.\<close>

definition write_session :: "string \<Rightarrow> updates \<Rightarrow> world \<Rightarrow> session repo_result" where
  "write_session sid u w =
     (case getSession w sid of
        None \<Rightarrow> (w, Inl (SessionMissing sid))
      | Some s \<Rightarrow>
          let s' = written_session (w_now w) u s
          in if \<not> isKnownState (se_state s') \<or> se_attempt s' < 0 then (w, Inl ConstraintViolation)
             else (w\<lparr>w_sessions := update_where (\<lambda>r. se_id r = sid) (written_session (w_now w) u)
                       (w_sessions w)\<rparr>,
                   Inr s'))"

definition setPendingPause :: "string \<Rightarrow> bool \<Rightarrow> world \<Rightarrow> world \<times> session option" where
  "setPendingPause sid p w =
     (let w' = w\<lparr>w_sessions := update_where (\<lambda>r. se_id r = sid)
                  (\<lambda>r. r\<lparr>se_pendingPause := p, se_updatedAt := w_now w\<rparr>) (w_sessions w)\<rparr>
      in (w', getSession w' sid))"

section \<open>The append-only event log\<close>

definition mapEvent :: "event \<Rightarrow> event" where
  "mapEvent e = e\<lparr>ev_payload := or_object (ev_payload e)\<rparr>"

text \<open>The row written for the event at a sequence number.\<close>

definition stamp :: "string \<Rightarrow> int \<Rightarrow> event \<Rightarrow> event" where
  "stamp sid n e =
     e\<lparr>ev_session_id := sid, ev_sequence_id := Some n,
       ev_payload := json_image (or_object (ev_payload e))\<rparr>"

definition event_conflict :: "world \<Rightarrow> event \<Rightarrow> bool" where
  "event_conflict w e \<longleftrightarrow>
     list_ex (\<lambda>x. ev_event_id x = ev_event_id e \<or>
        (ev_session_id x = ev_session_id e \<and> ev_generation x = ev_generation e \<and>
         ev_sequence_id x = ev_sequence_id e)) (w_events w)"

definition insert_event :: "event \<Rightarrow> world \<Rightarrow> event repo_result" where
  "insert_event e w =
     (if event_conflict w e \<or> getSession w (ev_session_id e) = None \<or> ev_generation e \<le> 0
         \<or> or_else (ev_sequence_id e) 0 \<le> 0
      then (w, Inl ConstraintViolation)
      else (w\<lparr>w_events := w_events w @ [e]\<rparr>, Inr (mapEvent e)))"

fun insert_events :: "string \<Rightarrow> int \<Rightarrow> event list \<Rightarrow> world \<Rightarrow> event list repo_result" where
  "insert_events sid n [] w = (w, Inr [])"
| "insert_events sid n (e # es) w =
     andThen (insert_event (stamp sid n e) w) (\<lambda>w1 x.
     andThen (insert_events sid (n + 1) es w1) (\<lambda>w2 xs. (w2, Inr (x # xs))))"

definition appendEvents :: "string \<Rightarrow> event list \<Rightarrow> world \<Rightarrow> event list repo_result" where
  "appendEvents sid es w =
     (if es = [] then (w, Inr [])
      else transaction (\<lambda>w.
        andThen (reserveSequence sid (int (length es)) w) (\<lambda>w1 start.
        insert_events sid start es w1)) w)"

definition applyTransition ::
  "string \<Rightarrow> updates \<Rightarrow> event list \<Rightarrow> world \<Rightarrow> (session \<times> event list) repo_result" where
  "applyTransition sid u es w =
     transaction (\<lambda>w.
       andThen (reserveSequence sid (int (length es)) w) (\<lambda>w1 start.
       andThen (write_session sid u w1) (\<lambda>w2 s.
       andThen (insert_events sid start es w2) (\<lambda>w3 stored. (w3, Inr (s, stored)))))) w"

definition after_sequence :: "int \<Rightarrow> event \<Rightarrow> bool" where
  "after_sequence n e = (case ev_sequence_id e of Some k \<Rightarrow> n < k | None \<Rightarrow> False)"

definition listEventsAfter :: "world \<Rightarrow> string \<Rightarrow> int \<Rightarrow> nat \<Rightarrow> event list" where
  "listEventsAfter w sid lastSequenceId limit =
     map mapEvent (take limit
       (sort_key (\<lambda>e. or_else (ev_sequence_id e) 0)
         (filter (\<lambda>e. ev_session_id e = sid \<and> after_sequence lastSequenceId e) (w_events w))))"

section \<open>Commands, plans, tool executions, evidence\<close>

definition COMMAND_TYPES :: "string list" where
  "COMMAND_TYPES = [''text'', ''voice'', ''sequence'']"

definition createCommand ::
  "uuid_supply \<Rightarrow> string \<Rightarrow> string \<Rightarrow> string \<Rightarrow> string option \<Rightarrow> string option \<Rightarrow> world
     \<Rightarrow> command repo_result" where
  "createCommand U sid correlationId ty txt audioRef w =
     (let c = \<lparr>co_id = next_uuid U w, co_sessionId = sid, co_correlationId = correlationId,
               co_type = ty, co_text = txt, co_audioRef = audioRef, co_status = ''received''\<rparr>
      in if getSession w sid = None \<or> ty \<notin> set COMMAND_TYPES
            \<or> co_id c \<in> co_id ` set (w_commands w)
         then (tick w, Inl ConstraintViolation)
         else ((tick w)\<lparr>w_commands := w_commands w @ [c]\<rparr>, Inr c))"

definition getCommand :: "world \<Rightarrow> string \<Rightarrow> command option" where
  "getCommand w cid = find (\<lambda>c. co_id c = cid) (w_commands w)"

definition RISKS :: "string list" where
  "RISKS = [''none'', ''low'', ''medium'', ''high'', ''critical'']"

definition VERDICTS :: "string list" where
  "VERDICTS = [''approved'', ''approval_required'', ''denied'']"

definition PLAN_STATUSES :: "string list" where
  "PLAN_STATUSES =
     [''pending'', ''approved'', ''rejected'', ''executing'', ''completed'', ''failed'', ''cancelled'']"

definition plan_idempotency_key :: "string \<Rightarrow> int \<Rightarrow> string \<Rightarrow> string \<Rightarrow> string" where
  "plan_idempotency_key sid generation planId stepId =
     sid @ '':'' @ int_str generation @ '':'' @ planId @ '':'' @ stepId"

fun insert_plan_steps ::
  "uuid_supply \<Rightarrow> string \<Rightarrow> int \<Rightarrow> string \<Rightarrow> plan_step_input list \<Rightarrow> world \<Rightarrow> plan_step list repo_result" where
  "insert_plan_steps U sid generation planId [] w = (w, Inr [])"
| "insert_plan_steps U sid generation planId (i # is) w =
     (let r = \<lparr>ps_id = next_uuid U w, ps_planId = planId, ps_stepKey = pi_stepId i,
               ps_tool = pi_tool i, ps_args = json_image (or_object (pi_args i)), ps_risk = pi_risk i,
               ps_dependsOn = pi_dependsOn i, ps_status = ''queued'',
               ps_idempotencyKey = plan_idempotency_key sid generation planId (pi_stepId i)\<rparr>
      in if pi_risk i \<notin> set RISKS
            \<or> list_ex (\<lambda>x. ps_id x = ps_id r \<or> ps_planId x = planId \<and> ps_stepKey x = pi_stepId i)
                 (w_planSteps w)
         then (tick w, Inl ConstraintViolation)
         else andThen (insert_plan_steps U sid generation planId is
                         ((tick w)\<lparr>w_planSteps := w_planSteps w @ [r]\<rparr>))
                (\<lambda>w2 rs. (w2, Inr (r # rs))))"

definition repo_createPlan ::
  "uuid_supply \<Rightarrow> string \<Rightarrow> int \<Rightarrow> string \<Rightarrow> string \<Rightarrow> rat \<Rightarrow> plan_step_input list \<Rightarrow> world
     \<Rightarrow> (plan \<times> plan_step list) repo_result" where
  "repo_createPlan U sid generation intent policyVerdict estimatedCost steps w =
     transaction (\<lambda>w.
       let p = \<lparr>pl_id = next_uuid U w, pl_sessionId = sid, pl_generation = generation,
                pl_intent = intent, pl_policyVerdict = policyVerdict,
                pl_estimatedCost = estimatedCost, pl_status = ''pending'',
                pl_createdAt = w_now w, pl_updatedAt = w_now w\<rparr>
       in if getSession w sid = None \<or> policyVerdict \<notin> set VERDICTS \<or> estimatedCost < 0
             \<or> generation \<le> 0 \<or> pl_id p \<in> pl_id ` set (w_plans w)
          then (tick w, Inl ConstraintViolation)
          else andThen (insert_plan_steps U sid generation (pl_id p) steps
                          ((tick w)\<lparr>w_plans := w_plans w @ [p]\<rparr>))
                 (\<lambda>w2 rs. (w2, Inr (p, rs)))) w"

definition getPlan :: "world \<Rightarrow> string \<Rightarrow> plan option" where
  "getPlan w planId = find (\<lambda>p. pl_id p = planId) (w_plans w)"

definition getPlanWithSteps :: "world \<Rightarrow> string \<Rightarrow> (plan \<times> plan_step list) option" where
  "getPlanWithSteps w planId =
     (case getPlan w planId of
        None \<Rightarrow> None
      | Some p \<Rightarrow>
          Some (p, sort_key ps_stepKey (filter (\<lambda>r. ps_planId r = planId) (w_planSteps w))))"

definition updatePlanStatus :: "string \<Rightarrow> string \<Rightarrow> world \<Rightarrow> plan option repo_result" where
  "updatePlanStatus planId status w =
     (if getPlan w planId \<noteq> None \<and> status \<notin> set PLAN_STATUSES then (w, Inl ConstraintViolation)
      else let w' = w\<lparr>w_plans := update_where (\<lambda>p. pl_id p = planId)
                        (\<lambda>p. p\<lparr>pl_status := status, pl_updatedAt := w_now w\<rparr>) (w_plans w)\<rparr>
           in (w', Inr (getPlan w' planId)))"

record execution_request =
  xq_sessionId :: string
  xq_generation :: int
  xq_planId :: "string option"
  xq_stepId :: "string option"
  xq_tool :: string
  xq_action :: "string option"
  xq_args :: js
  xq_risk :: "string option"
  xq_approval :: string
  xq_idempotencyKey :: string

definition APPROVALS :: "string list" where
  "APPROVALS = [''approved'', ''denied'', ''not_required'']"

text \<open>\<open>t || null\<close>\<close>

definition non_blank :: "string option \<Rightarrow> string option" where
  "non_blank t = (if t = Some [] then None else t)"

definition new_execution :: "string \<Rightarrow> execution_request \<Rightarrow> execution" where
  "new_execution xid q =
     \<lparr>ex_id = xid, ex_sessionId = xq_sessionId q, ex_generation = xq_generation q,
      ex_planId = xq_planId q, ex_stepId = xq_stepId q, ex_tool = xq_tool q,
      ex_action = non_blank (xq_action q), ex_args = json_image (xq_args q), ex_risk = non_blank (xq_risk q),
      ex_approval = xq_approval q, ex_idempotencyKey = xq_idempotencyKey q,
      ex_status = ''running'', ex_response = None, ex_durationMs = None\<rparr>"

definition find_execution :: "world \<Rightarrow> string \<Rightarrow> int \<Rightarrow> string \<Rightarrow> execution option" where
  "find_execution w sid generation key =
     find (\<lambda>x. ex_sessionId x = sid \<and> ex_generation x = generation \<and> ex_idempotencyKey x = key)
       (w_executions w)"

text \<open>
  \<open>ON CONFLICT (session_id, generation, idempotency_key) DO NOTHING\<close>, then the stored
  row. The CHECKs are tested before the conflict is; the foreign keys only of a row that
  is inserted.
\<close>

definition recordToolExecution :: "uuid_supply \<Rightarrow> execution_request \<Rightarrow> world \<Rightarrow> execution option repo_result" where
  "recordToolExecution U q w =
     (if xq_generation q \<le> 0 \<or> xq_approval q \<notin> set APPROVALS then (tick w, Inl ConstraintViolation)
      else case find_execution w (xq_sessionId q) (xq_generation q) (xq_idempotencyKey q) of
        Some x \<Rightarrow> (tick w, Inr (Some x))
      | None \<Rightarrow>
          let x = new_execution (next_uuid U w) q
          in if getSession w (xq_sessionId q) = None
                \<or> (case xq_planId q of Some p \<Rightarrow> getPlan w p = None | None \<Rightarrow> False)
                \<or> (case xq_stepId q of Some s \<Rightarrow> \<not> list_ex (\<lambda>r. ps_id r = s) (w_planSteps w) | None \<Rightarrow> False)
                \<or> ex_id x \<in> ex_id ` set (w_executions w)
             then (tick w, Inl ConstraintViolation)
             else ((tick w)\<lparr>w_executions := w_executions w @ [x]\<rparr>, Inr (Some x)))"

definition STEP_STATUSES :: "string list" where
  "STEP_STATUSES = [''queued'', ''running'', ''succeeded'', ''failed'', ''cancelled'']"

definition EXECUTION_STATUSES :: "string list" where
  "EXECUTION_STATUSES = [''running'', ''succeeded'', ''failed'', ''cancelled'']"

definition finishToolExecution ::
  "string \<Rightarrow> string \<Rightarrow> js \<Rightarrow> int option \<Rightarrow> world \<Rightarrow> execution option repo_result" where
  "finishToolExecution xid status response durationMs w =
     (let r = (if truthy response then Some (json_image response) else None);
          w' = w\<lparr>w_executions := update_where (\<lambda>x. ex_id x = xid)
                   (\<lambda>x. x\<lparr>ex_status := status, ex_response := or_opt r (ex_response x),
                          ex_durationMs := or_opt durationMs (ex_durationMs x)\<rparr>) (w_executions w)\<rparr>
      in if list_ex (\<lambda>x. ex_id x = xid) (w_executions w) \<and> status \<notin> set EXECUTION_STATUSES
         then (w, Inl ConstraintViolation)
         else (w', Inr (find (\<lambda>x. ex_id x = xid) (w_executions w'))))"

definition recordVerificationEvidence ::
  "uuid_supply \<Rightarrow> string option \<Rightarrow> string option \<Rightarrow> string \<Rightarrow> js \<Rightarrow> world \<Rightarrow> evidence repo_result" where
  "recordVerificationEvidence U stepId executionId status evd w =
     (let r = \<lparr>evd_id = next_uuid U w, evd_stepId = stepId, evd_executionId = executionId,
               evd_status = status, evd_evidence = json_image evd\<rparr>
      in if status \<notin> {''passed'', ''failed'', ''pending''}
            \<or> (case stepId of Some s \<Rightarrow> \<not> list_ex (\<lambda>x. ps_id x = s) (w_planSteps w) | None \<Rightarrow> False)
            \<or> (case executionId of Some x \<Rightarrow> \<not> list_ex (\<lambda>y. ex_id y = x) (w_executions w) | None \<Rightarrow> False)
            \<or> evd_id r \<in> evd_id ` set (w_evidence w)
         then (tick w, Inl ConstraintViolation)
         else ((tick w)\<lparr>w_evidence := w_evidence w @ [r]\<rparr>, Inr r))"

section \<open>Sequences and their runs\<close>

record sequence_step_input =
  qi_id :: string
  qi_intent :: string
  qi_args :: js
  qi_risk :: "string option"

record sequence_input =
  si_name :: string
  si_mode :: string
  si_dryRun :: bool
  si_steps :: "sequence_step_input list"

definition SEQUENCE_MODES :: "string list" where
  "SEQUENCE_MODES = [''chat'', ''operator'', ''automation'']"

fun insert_sequence_steps ::
  "string \<Rightarrow> int \<Rightarrow> sequence_step_input list \<Rightarrow> world \<Rightarrow> sequence_step list repo_result" where
  "insert_sequence_steps seqId pos [] w = (w, Inr [])"
| "insert_sequence_steps seqId pos (i # is) w =
     (let r = \<lparr>ss_sequenceId = seqId, ss_stepKey = qi_id i, ss_position = pos,
               ss_intent = qi_intent i, ss_args = json_image (or_object (qi_args i)),
               ss_risk = or_else (qi_risk i) ''none''\<rparr>
      in if ss_risk r \<notin> set RISKS
            \<or> list_ex (\<lambda>x. ss_sequenceId x = seqId \<and> (ss_stepKey x = qi_id i \<or> ss_position x = pos))
                 (w_sequenceSteps w)
         then (w, Inl ConstraintViolation)
         else andThen (insert_sequence_steps seqId (pos + 1) is
                         (w\<lparr>w_sequenceSteps := w_sequenceSteps w @ [r]\<rparr>))
                (\<lambda>w2 rs. (w2, Inr (r # rs))))"

definition repo_createSequence ::
  "uuid_supply \<Rightarrow> sequence_input \<Rightarrow> string option \<Rightarrow> world
     \<Rightarrow> (sequence \<times> sequence_step list) repo_result" where
  "repo_createSequence U i createdBy w =
     transaction (\<lambda>w.
       let q = \<lparr>sq_id = next_uuid U w, sq_name = si_name i, sq_mode = si_mode i,
                sq_dryRun = si_dryRun i, sq_createdBy = createdBy,
                sq_createdAt = w_now w, sq_updatedAt = w_now w\<rparr>
       in if si_mode i \<notin> set SEQUENCE_MODES \<or> sq_id q \<in> sq_id ` set (w_sequences w)
          then (tick w, Inl ConstraintViolation)
          else andThen (insert_sequence_steps (sq_id q) 1 (si_steps i)
                          ((tick w)\<lparr>w_sequences := w_sequences w @ [q]\<rparr>))
                 (\<lambda>w2 rs. (w2, Inr (q, rs)))) w"

definition sequence_steps :: "world \<Rightarrow> string \<Rightarrow> sequence_step list" where
  "sequence_steps w seqId =
     sort_key ss_position (filter (\<lambda>r. ss_sequenceId r = seqId) (w_sequenceSteps w))"

definition listSequences :: "world \<Rightarrow> (sequence \<times> nat) list" where
  "listSequences w =
     map (\<lambda>q. (q, length (filter (\<lambda>r. ss_sequenceId r = sq_id q) (w_sequenceSteps w))))
       (sort_key (\<lambda>q. - sq_createdAt q) (w_sequences w))"

definition repo_getSequence :: "world \<Rightarrow> string \<Rightarrow> sequence option" where
  "repo_getSequence w seqId = find (\<lambda>q. sq_id q = seqId) (w_sequences w)"

definition getSequenceWithSteps :: "world \<Rightarrow> string \<Rightarrow> (sequence \<times> sequence_step list) option" where
  "getSequenceWithSteps w seqId =
     (case repo_getSequence w seqId of
        None \<Rightarrow> None
      | Some q \<Rightarrow> Some (q, sequence_steps w seqId))"

text \<open>
  When no row matches, the method returns \<open>null\<close> inside its \<open>try\<close>, before
  \<open>COMMIT\<close>: the third component says that the client went back to the pool with the
  transaction still open.
\<close>

definition repo_updateSequence ::
  "string \<Rightarrow> sequence_input \<Rightarrow> world \<Rightarrow> ((sequence \<times> sequence_step list) option \<times> bool) repo_result" where
  "repo_updateSequence seqId i w =
     transaction (\<lambda>w.
       case repo_getSequence w seqId of
         None \<Rightarrow> (w, Inr (None, True))
       | Some q \<Rightarrow>
           let q' = q\<lparr>sq_name := si_name i, sq_mode := si_mode i, sq_dryRun := si_dryRun i,
                      sq_updatedAt := w_now w\<rparr>
           in if si_mode i \<notin> set SEQUENCE_MODES then (w, Inl ConstraintViolation)
              else andThen
                (insert_sequence_steps seqId 1 (si_steps i)
                   (w\<lparr>w_sequences := update_where (\<lambda>r. sq_id r = seqId) (\<lambda>_. q') (w_sequences w),
                      w_sequenceSteps := filter (\<lambda>r. ss_sequenceId r \<noteq> seqId) (w_sequenceSteps w)\<rparr>))
                (\<lambda>w2 rs. (w2, Inr (Some (q', rs), False)))) w"

text \<open>The delete cascades to the steps, to the runs and to their steps.\<close>

definition repo_deleteSequence :: "string \<Rightarrow> world \<Rightarrow> world \<times> bool" where
  "repo_deleteSequence seqId w =
     (let gone = map sr_id (filter (\<lambda>r. sr_sequenceId r = seqId) (w_runs w))
      in (w\<lparr>w_sequences := filter (\<lambda>q. sq_id q \<noteq> seqId) (w_sequences w),
            w_sequenceSteps := filter (\<lambda>r. ss_sequenceId r \<noteq> seqId) (w_sequenceSteps w),
            w_runs := filter (\<lambda>r. sr_sequenceId r \<noteq> seqId) (w_runs w),
            w_runSteps := filter (\<lambda>r. rs_runId r \<notin> set gone) (w_runSteps w)\<rparr>,
          repo_getSequence w seqId \<noteq> None))"

fun insert_run_steps :: "string \<Rightarrow> sequence_step list \<Rightarrow> world \<Rightarrow> run_step list repo_result" where
  "insert_run_steps runId [] w = (w, Inr [])"
| "insert_run_steps runId (s # ss) w =
     (let r = \<lparr>rs_runId = runId, rs_stepKey = ss_stepKey s, rs_position = ss_position s,
               rs_intent = ss_intent s, rs_args = json_image (or_object (ss_args s)),
               rs_risk = ss_risk s, rs_status = ''queued'', rs_result = None, rs_error = None,
               rs_idempotencyKey = runId @ '':'' @ ss_stepKey s\<rparr>
      in if list_ex (\<lambda>x. rs_runId x = runId \<and> rs_stepKey x = ss_stepKey s) (w_runSteps w)
            \<or> ss_risk s \<notin> set RISKS \<or> ss_position s \<le> 0
         then (w, Inl ConstraintViolation)
         else andThen (insert_run_steps runId ss (w\<lparr>w_runSteps := w_runSteps w @ [r]\<rparr>))
                (\<lambda>w2 rs. (w2, Inr (r # rs))))"

definition createSequenceRun ::
  "uuid_supply \<Rightarrow> string \<Rightarrow> string \<Rightarrow> bool \<Rightarrow> world \<Rightarrow> (sequence_run \<times> run_step list) repo_result" where
  "createSequenceRun U seqId sid dryRun w =
     transaction (\<lambda>w.
       let r = \<lparr>sr_id = next_uuid U w, sr_sequenceId = seqId, sr_sessionId = sid,
                sr_dryRun = dryRun, sr_status = ''running'', sr_currentStep = None, sr_error = None\<rparr>
       in if repo_getSequence w seqId = None \<or> getSession w sid = None
             \<or> sr_id r \<in> sr_id ` set (w_runs w)
          then (tick w, Inl ConstraintViolation)
          else andThen (insert_run_steps (sr_id r) (sequence_steps w seqId)
                          ((tick w)\<lparr>w_runs := w_runs w @ [r]\<rparr>))
                 (\<lambda>w2 rs. (w2, Inr (r, rs)))) w"

definition getSequenceRun :: "world \<Rightarrow> string \<Rightarrow> sequence_run option" where
  "getSequenceRun w runId = find (\<lambda>r. sr_id r = runId) (w_runs w)"

definition run_steps :: "world \<Rightarrow> string \<Rightarrow> run_step list" where
  "run_steps w runId = sort_key rs_position (filter (\<lambda>r. rs_runId r = runId) (w_runSteps w))"

definition getSequenceRunWithSteps :: "world \<Rightarrow> string \<Rightarrow> (sequence_run \<times> run_step list) option" where
  "getSequenceRunWithSteps w runId =
     (case getSequenceRun w runId of None \<Rightarrow> None | Some r \<Rightarrow> Some (r, run_steps w runId))"

definition RUN_STATUSES :: "string list" where
  "RUN_STATUSES = [''running'', ''succeeded'', ''failed'', ''cancelled'']"

definition updateSequenceRun ::
  "string \<Rightarrow> string \<Rightarrow> string option \<Rightarrow> js option \<Rightarrow> world \<Rightarrow> sequence_run option repo_result" where
  "updateSequenceRun runId status currentStep err w =
     (let w' = w\<lparr>w_runs := update_where (\<lambda>r. sr_id r = runId)
                   (\<lambda>r. r\<lparr>sr_status := status, sr_currentStep := or_opt currentStep (sr_currentStep r),
                          sr_error := or_opt (map_option json_image err) (sr_error r)\<rparr>) (w_runs w)\<rparr>
      in if getSequenceRun w runId \<noteq> None \<and> status \<notin> set RUN_STATUSES
         then (w, Inl ConstraintViolation)
         else (w', Inr (getSequenceRun w' runId)))"

definition setSequenceRunStep ::
  "string \<Rightarrow> string \<Rightarrow> string \<Rightarrow> js option \<Rightarrow> js option \<Rightarrow> world \<Rightarrow> run_step repo_result" where
  "setSequenceRunStep runId stepKey status res err w =
     (let hit = (\<lambda>r. rs_runId r = runId \<and> rs_stepKey r = stepKey);
          upd = (\<lambda>r. r\<lparr>rs_status := status, rs_result := or_opt (map_option json_image res) (rs_result r),
                       rs_error := or_opt (map_option json_image err) (rs_error r)\<rparr>)
      in (case find hit (w_runSteps w) of
            None \<Rightarrow> (w, Inl (RunStepMissing runId stepKey))
          | Some r \<Rightarrow>
              if status \<notin> set STEP_STATUSES then (w, Inl ConstraintViolation)
              else (w\<lparr>w_runSteps := update_where hit upd (w_runSteps w)\<rparr>, Inr (upd r))))"

section \<open>What the writes to a session and its log do\<close>

definition log :: "world \<Rightarrow> string \<Rightarrow> event list" where
  "log w sid = filter (\<lambda>e. ev_session_id e = sid) (w_events w)"

text \<open>The rows written for a list of events, from a first sequence number on.\<close>

fun stamped :: "string \<Rightarrow> int \<Rightarrow> event list \<Rightarrow> event list" where
  "stamped sid n [] = []"
| "stamped sid n (e # es) = stamp sid n e # stamped sid (n + 1) es"

lemma getSession_id: "getSession w sid = Some s \<Longrightarrow> se_id s = sid \<and> s \<in> set (w_sessions w)"
  unfolding getSession_def by (drule find_Some_in) simp

lemma mapEvent_simps [simp]:
  "ev_session_id (mapEvent e) = ev_session_id e" "ev_sequence_id (mapEvent e) = ev_sequence_id e"
  "ev_event_id (mapEvent e) = ev_event_id e" "ev_type (mapEvent e) = ev_type e"
  "ev_generation (mapEvent e) = ev_generation e"
  by (simp_all add: mapEvent_def)

lemma stamp_simps [simp]:
  "ev_session_id (stamp sid n e) = sid" "ev_sequence_id (stamp sid n e) = Some n"
  "ev_event_id (stamp sid n e) = ev_event_id e" "ev_type (stamp sid n e) = ev_type e"
  "ev_generation (stamp sid n e) = ev_generation e"
  by (simp_all add: stamp_def)

lemma stamped_facts:
  "length (stamped sid n es) = length es"
  "map ev_type (stamped sid n es) = map ev_type es"
  "map ev_event_id (stamped sid n es) = map ev_event_id es"
  "map ev_generation (stamped sid n es) = map ev_generation es"
  "filter (\<lambda>e. ev_session_id e = sid) (stamped sid n es) = stamped sid n es"
  by (induction es arbitrary: n) simp_all

lemma stamped_sequence:
  "map ev_sequence_id (stamped sid n es) = map (\<lambda>k. Some (n + int k)) [0..<length es]"
proof (induction es arbitrary: n)
  case (Cons e es)
  have "map (\<lambda>k. Some (n + int k)) [0..<Suc (length es)]
      = Some n # map (\<lambda>k. Some (n + 1 + int k)) [0..<length es]"
    by (simp only: upt_conv_Cons [of 0 "Suc (length es)"] map_Suc_upt [symmetric])
       (simp add: algebra_simps)
  with Cons show ?case by simp
qed simp

lemma stamped_session: "e \<in> set (stamped sid n es) \<Longrightarrow> ev_session_id e = sid"
  by (induction es arbitrary: n) auto

lemma insert_event_Inr:
  "insert_event e w = (w', Inr x) \<Longrightarrow>
     w' = w\<lparr>w_events := w_events w @ [e]\<rparr> \<and> x = mapEvent e \<and> ev_generation e > 0"
  by (auto simp: insert_event_def split: if_splits)

lemma insert_events_Inr:
  "insert_events sid n es w = (w', Inr xs) \<Longrightarrow>
     w' = w\<lparr>w_events := w_events w @ stamped sid n es\<rparr> \<and> xs = map mapEvent (stamped sid n es)"
proof (induction es arbitrary: n w xs)
  case (Cons e es)
  then obtain w1 x ys where "insert_event (stamp sid n e) w = (w1, Inr x)"
    "insert_events sid (n + 1) es w1 = (w', Inr ys)" "xs = x # ys"
    by (auto simp: result_simps)
  with Cons.IH [of "n + 1" w1 ys] insert_event_Inr [of "stamp sid n e" w w1 x]
  show ?case by auto
qed simp

definition bump :: "string \<Rightarrow> int \<Rightarrow> world \<Rightarrow> world" where
  "bump sid cnt w =
     w\<lparr>w_sessions := update_where (\<lambda>r. se_id r = sid)
         (\<lambda>r. r\<lparr>se_lastSequenceId := se_lastSequenceId r + cnt, se_updatedAt := w_now w\<rparr>)
         (w_sessions w)\<rparr>"

lemma reserveSequence_cases:
  "reserveSequence sid cnt w =
     (case getSession w sid of
        None \<Rightarrow> (w, Inl (SessionMissing sid))
      | Some s \<Rightarrow> (bump sid cnt w, Inr (se_lastSequenceId s + 1)))"
  by (simp add: reserveSequence_def bump_def split: option.splits)

lemma appendEvents_Inr:
  assumes "appendEvents sid es w = (w', Inr xs)" and "es \<noteq> []"
  obtains s where "getSession w sid = Some s"
    "xs = map mapEvent (stamped sid (se_lastSequenceId s + 1) es)"
    "w' = (bump sid (int (length es)) w)
            \<lparr>w_events := w_events w @ stamped sid (se_lastSequenceId s + 1) es\<rparr>"
proof -
  from assms obtain w1 start where
    r: "reserveSequence sid (int (length es)) w = (w1, Inr start)"
    and i: "insert_events sid start es w1 = (w', Inr xs)"
    by (auto simp: appendEvents_def result_simps)
  from r obtain s where "getSession w sid = Some s" "w1 = bump sid (int (length es)) w"
    "start = se_lastSequenceId s + 1"
    by (auto simp: reserveSequence_cases split: option.splits)
  with insert_events_Inr [OF i] show ?thesis
    by (intro that [of s]) (simp_all add: bump_def)
qed

lemma appendEvents_Inl: "appendEvents sid es w = (w', Inl e) \<Longrightarrow> w' = w"
  by (auto simp: appendEvents_def dest: transaction_Inl split: if_splits)

text \<open>The session row after a transition, and the tables it leaves.\<close>

definition moved_session :: "int \<Rightarrow> updates \<Rightarrow> int \<Rightarrow> session \<Rightarrow> session" where
  "moved_session now u cnt s =
     written_session now u (s\<lparr>se_lastSequenceId := se_lastSequenceId s + cnt, se_updatedAt := now\<rparr>)"

lemma update_where_twice:
  "(\<And>r. p r \<Longrightarrow> p (f r)) \<Longrightarrow>
     update_where p g (update_where p f rows) = update_where p (\<lambda>r. g (f r)) rows"
  by (simp add: update_where_def comp_def)

lemma applyTransition_Inr:
  assumes "applyTransition sid u es w = (w', Inr (s', xs))"
  obtains s where "getSession w sid = Some s" "isKnownState (up_state u)" "0 \<le> se_attempt s'"
    "s' = moved_session (w_now w) u (int (length es)) s"
    "xs = map mapEvent (stamped sid (se_lastSequenceId s + 1) es)"
    "w' = w\<lparr>w_sessions := update_where (\<lambda>r. se_id r = sid)
                (moved_session (w_now w) u (int (length es))) (w_sessions w),
            w_events := w_events w @ stamped sid (se_lastSequenceId s + 1) es\<rparr>"
proof -
  from assms obtain w1 start w2 w3 where
    r: "reserveSequence sid (int (length es)) w = (w1, Inr start)"
    and ws: "write_session sid u w1 = (w2, Inr s')"
    and i: "insert_events sid start es w2 = (w', Inr xs)"
    by (auto simp: applyTransition_def result_simps)
  from r obtain s where s: "getSession w sid = Some s" "w1 = bump sid (int (length es)) w"
    "start = se_lastSequenceId s + 1"
    by (auto simp: reserveSequence_cases split: option.splits)
  have s1: "getSession w1 sid = Some (s\<lparr>se_lastSequenceId := se_lastSequenceId s + int (length es),
               se_updatedAt := w_now w\<rparr>)"
    using s(1) by (simp add: s(2) bump_def getSession_def find_update_where)
  have now: "w_now w1 = w_now w" by (simp add: s(2) bump_def)
  from ws s1 have w2: "w2 = w1\<lparr>w_sessions := update_where (\<lambda>r. se_id r = sid)
        (written_session (w_now w) u) (w_sessions w1)\<rparr>"
    and s': "s' = moved_session (w_now w) u (int (length es)) s" and known: "isKnownState (up_state u)" "0 \<le> se_attempt s'"
    by (auto simp: write_session_def now moved_session_def written_session_def Let_def split: if_splits)
  have "w_sessions w2 = update_where (\<lambda>r. se_id r = sid)
      (moved_session (w_now w) u (int (length es))) (w_sessions w)"
    by (simp add: w2 s(2) bump_def update_where_twice moved_session_def [abs_def])
  with insert_events_Inr [OF i] s known s' w2 show ?thesis
    by (intro that [of s]) (simp_all add: bump_def)
qed

lemma applyTransition_Inl: "applyTransition sid u es w = (w', Inl e) \<Longrightarrow> w' = w"
  by (auto simp: applyTransition_def dest: transaction_Inl)

lemma moved_session_id [simp]: "se_id (moved_session now u cnt s) = se_id s"
  by (simp add: moved_session_def written_session_def)

lemma applyTransition_session:
  assumes "applyTransition sid u es w = (w', Inr (s', xs))"
  shows "getSession w' sid = Some s'" and "se_state s' = up_state u"
    and "up_pendingPause u = Some p \<Longrightarrow> se_pendingPause s' = p"
proof -
  from assms obtain s where s: "getSession w sid = Some s"
    "s' = moved_session (w_now w) u (int (length es)) s"
    "w_sessions w' = update_where (\<lambda>r. se_id r = sid)
                (moved_session (w_now w) u (int (length es))) (w_sessions w)"
    by (rule applyTransition_Inr) simp
  from s show "getSession w' sid = Some s'"
    by (simp add: getSession_def find_update_where)
  show "se_state s' = up_state u" "up_pendingPause u = Some p \<Longrightarrow> se_pendingPause s' = p"
    by (simp_all add: s(2) moved_session_def written_session_def)
qed

text \<open>When the numbers and the ids are new, the inserts violate no constraint.\<close>

definition insertable :: "string \<Rightarrow> int \<Rightarrow> event list \<Rightarrow> world \<Rightarrow> bool" where
  "insertable sid n es w \<longleftrightarrow>
     getSession w sid \<noteq> None \<and> 0 < n \<and> distinct (map ev_event_id es) \<and>
     (\<forall>e\<in>set es. 0 < ev_generation e \<and> (\<forall>x\<in>set (w_events w). ev_event_id x \<noteq> ev_event_id e)) \<and>
     (\<forall>x\<in>set (w_events w). ev_session_id x = sid \<longrightarrow> (\<exists>k<n. ev_sequence_id x = Some k))"

lemma insert_events_succeeds:
  "insertable sid n es w \<Longrightarrow> \<exists>w' xs. insert_events sid n es w = (w', Inr xs)"
proof (induction es arbitrary: n w)
  case (Cons e es)
  have nc: "\<not> event_conflict w (stamp sid n e)"
    using Cons.prems by (force simp: insertable_def event_conflict_def list_ex_iff)
  define w1 where "w1 = w\<lparr>w_events := w_events w @ [stamp sid n e]\<rparr>"
  have "insert_event (stamp sid n e) w = (w1, Inr (mapEvent (stamp sid n e)))"
    using nc Cons.prems by (simp add: insert_event_def w1_def insertable_def)
  moreover have "insertable sid (n + 1) es w1"
    using Cons.prems by (fastforce simp: insertable_def w1_def getSession_def)
  with Cons.IH obtain w' xs where "insert_events sid (n + 1) es w1 = (w', Inr xs)" by blast
  ultimately show ?case by simp
qed simp

lemma applyTransition_succeeds:
  assumes s: "getSession w sid = Some s" and known: "isKnownState (up_state u)"
    and att: "0 \<le> or_else (up_attempt u) (se_attempt s)"
    and ins: "insertable sid (se_lastSequenceId s + 1) es w"
  shows "\<exists>w' s' xs. applyTransition sid u es w = (w', Inr (s', xs))"
proof -
  define w1 where "w1 = bump sid (int (length es)) w"
  have res: "reserveSequence sid (int (length es)) w = (w1, Inr (se_lastSequenceId s + 1))"
    by (simp add: reserveSequence_cases s w1_def)
  have s1: "getSession w1 sid = Some (s\<lparr>se_lastSequenceId := se_lastSequenceId s + int (length es),
               se_updatedAt := w_now w\<rparr>)"
    using s by (simp add: w1_def bump_def getSession_def find_update_where)
  then obtain w2 s2 where ws: "write_session sid u w1 = (w2, Inr s2)"
    and w2: "w_events w2 = w_events w" "getSession w2 sid \<noteq> None"
    using known att
    by (auto simp: write_session_def Let_def written_session_def w1_def bump_def getSession_def
        find_update_where)
  have "insertable sid (se_lastSequenceId s + 1) es w2"
    using ins w2 by (simp add: insertable_def)
  then obtain w3 xs where "insert_events sid (se_lastSequenceId s + 1) es w2 = (w3, Inr xs)"
    using insert_events_succeeds by blast
  with res ws show ?thesis by (simp add: applyTransition_def transaction_def)
qed

end
