(* ===== verification/OperatorSequences.thy ===== *)
theory OperatorSequences
  imports OperatorRepository
begin

text \<open>
  Sequence steps: risk and argument resolution
  (\<open>packages/zeto/src/domain/operatorSequences.js\<close>) and the built-in read-only intents
  (\<open>packages/zeto/src/services/operatorSequenceExecutor.js\<close>).
\<close>

section \<open>Intents and risk\<close>

definition BUILTIN_INTENTS :: "(string \<times> string) list" where
  "BUILTIN_INTENTS =
     [(''queue.read'', ''none''), (''session.status'', ''none''), (''events.recent'', ''none'')]"

definition HIGH_RISK :: "string list" where
  "HIGH_RISK = [''high'', ''critical'']"

definition isKnownIntent :: "string \<Rightarrow> bool" where
  "isKnownIntent intent = (map_of BUILTIN_INTENTS intent \<noteq> None)"

text \<open>What an object inherits has no member \<open>risk\<close>, so only the own entries count.\<close>

definition intentRisk :: "string \<Rightarrow> string" where
  "intentRisk intent = or_else (map_of BUILTIN_INTENTS intent) ''none''"

definition isHighRiskStep :: "string option \<Rightarrow> string \<Rightarrow> bool" where
  "isHighRiskStep risk intent = (or_else risk (intentRisk intent) \<in> set HIGH_RISK)"

section \<open>References to earlier results\<close>

definition ref_suffix :: string where
  "ref_suffix = ''.result''"

text \<open>\<open>/^s(\d+)\.result$/\<close>: the digits, when the whole text matches.\<close>

definition step_ref :: "string \<Rightarrow> string option" where
  "step_ref v =
     (case v of
        [] \<Rightarrow> None
      | c # r \<Rightarrow>
          let ds = takeWhile is_digit r
          in if c = CHR ''s'' \<and> ds \<noteq> [] \<and> drop (length ds) r = ref_suffix then Some ds else None)"

datatype step_error =
    UnresolvedReference string string
  | UnsupportedIntent string
  | StepRepository repo_error

fun walk :: "(string, js) jsmap \<Rightarrow> string \<Rightarrow> js \<Rightarrow> (step_error, js) result" where
  "walk results stepId (JStr s) =
     (case step_ref s of
        None \<Rightarrow> Inr (JStr s)
      | Some ds \<Rightarrow>
          (case map_get results (CHR ''s'' # ds) of
             None \<Rightarrow> Inl (UnresolvedReference stepId (CHR ''s'' # ds))
           | Some v \<Rightarrow> Inr v))"
| "walk results stepId (JArr xs) = bindR (mapR (walk results stepId) xs) (\<lambda>ys. Inr (JArr ys))"
| "walk results stepId (JObj fs) =
     bindR (mapR (\<lambda>(k, v). bindR (walk results stepId v) (\<lambda>y. Inr (k, y))) fs) (\<lambda>gs. Inr (JObj gs))"
| "walk results stepId v = Inr v"

definition resolveStepArgs :: "js \<Rightarrow> (string, js) jsmap \<Rightarrow> string \<Rightarrow> (step_error, js) result" where
  "resolveStepArgs args resultsById stepId = walk resultsById stepId args"

section \<open>The executor\<close>

definition trunc_rat :: "rat \<Rightarrow> int" where
  "trunc_rat q = (if 0 \<le> q then \<lfloor>q\<rfloor> else \<lceil>q\<rceil>)"

definition clampLimit :: "js \<Rightarrow> int \<Rightarrow> int \<Rightarrow> int" where
  "clampLimit raw fallback mx =
     (case js_number raw of
        Fin q \<Rightarrow> min (max (trunc_rat q) 1) mx
      | _ \<Rightarrow> fallback)"

definition queue_page :: "world \<Rightarrow> string option \<Rightarrow> nat \<Rightarrow> queue_row list" where
  "queue_page w status limit =
     take limit (sort_key qr_createdAt
       (filter (\<lambda>r. case non_blank status of None \<Rightarrow> True | Some st \<Rightarrow> qr_status r = st) (w_queue w)))"

definition as_text :: "js \<Rightarrow> string option" where
  "as_text v = (case v of JStr s \<Rightarrow> Some s | _ \<Rightarrow> None)"

definition executeSequenceStep :: "string \<Rightarrow> js \<Rightarrow> session \<Rightarrow> world \<Rightarrow> (step_error, js) result" where
  "executeSequenceStep intent args session w =
     (if \<not> isKnownIntent intent then Inl (UnsupportedIntent intent)
      else if intent = ''queue.read'' then
        (let status = as_text (get_prop args ''status'');
             limit = clampLimit (get_prop args ''limit'') 25 100;
             rows = queue_page w status (nat limit)
         in Inr (JObj
              [(''count'', js_int (int (length rows))),
               (''status'', JStr (or_else status ''all'')),
               (''items'', JArr (map (\<lambda>r. JObj
                  [(''id'', JStr (qr_id r)), (''status'', JStr (qr_status r)),
                   (''message'', JStr (qr_message r)),
                   (''created_at'', JStr (to_iso (qr_createdAt r)))]) rows))]))
      else if intent = ''session.status'' then
        Inr (JObj
          [(''id'', JStr (se_id session)), (''state'', JStr (state_name (se_state session))),
           (''mode'', JStr (se_mode session)), (''generation'', js_int (se_generation session)),
           (''last_sequence_id'', js_int (se_lastSequenceId session))])
      else if intent = ''events.recent'' then
        (let limit = clampLimit (get_prop args ''limit'') 25 100;
             events = listEventsAfter w (se_id session) 0 (nat limit)
         in Inr (JObj
              [(''count'', js_int (int (length events))),
               (''items'', JArr (map (\<lambda>e. JObj
                  [(''event_id'', JStr (ev_event_id e)),
                   (''sequence_id'', case ev_sequence_id e of Some n \<Rightarrow> js_int n | None \<Rightarrow> JNull),
                   (''type'', JStr (ev_type e)),
                   (''occurred_at'', JStr (to_iso (ev_occurred_at e)))]) events))]))
      else Inl (UnsupportedIntent intent))"

section \<open>Facts\<close>

lemma clampLimit_bounds: "1 \<le> mx \<Longrightarrow> 1 \<le> fb \<Longrightarrow> fb \<le> mx \<Longrightarrow> 1 \<le> clampLimit raw fb mx \<and> clampLimit raw fb mx \<le> mx"
  by (simp add: clampLimit_def split: jsnum.splits)

lemma queue_page_length: "length (queue_page w status n) \<le> n"
  by (simp add: queue_page_def)

text \<open>The texts a value mentions as references, and a value that mentions none.\<close>

fun references :: "js \<Rightarrow> string list" where
  "references (JStr s) = (case step_ref s of None \<Rightarrow> [] | Some ds \<Rightarrow> [CHR ''s'' # ds])"
| "references (JArr xs) = concat (map references xs)"
| "references (JObj fs) = concat (map (\<lambda>(k, v). references v) fs)"
| "references v = []"

lemma mapR_cases_isl:
  "isl (mapR f xs) \<longleftrightarrow> (\<exists>x\<in>set xs. isl (f x))"
  by (induction xs) (auto split: sum.splits)

lemma isl_bindR: "isl (bindR r f) \<longleftrightarrow> isl r \<or> (\<exists>a. r = Inr a \<and> isl (f a))"
  by (cases r) auto

lemma walk_fails_iff:
  "isl (walk results stepId v) \<longleftrightarrow> (\<exists>k\<in>set (references v). map_get results k = None)"
proof (induction results stepId v rule: walk.induct)
  case (1 results stepId s)
  show ?case by (auto split: option.splits)
next
  case (2 results stepId xs)
  then show ?case by (auto simp: isl_bindR mapR_cases_isl)
next
  case (3 results stepId fs)
  have "isl (bindR (walk results stepId v) (\<lambda>y. Inr (k, y))) \<longleftrightarrow>
        (\<exists>r\<in>set (references v). map_get results r = None)" if "(k, v) \<in> set fs" for k v
    using 3 [OF that refl] by (simp add: isl_bindR)
  then have "(\<exists>p\<in>set fs. isl (case p of (k, v) \<Rightarrow> bindR (walk results stepId v) (\<lambda>y. Inr (k, y))))
      \<longleftrightarrow> (\<exists>p\<in>set fs. \<exists>r\<in>set (references (snd p)). map_get results r = None)"
    by (intro bex_cong) auto
  then show ?case by (simp add: isl_bindR mapR_cases_isl case_prod_beta)
qed simp_all

text \<open>What resolving should give: every reference replaced by the result it names.\<close>

fun filled :: "(string, js) jsmap \<Rightarrow> js \<Rightarrow> js" where
  "filled results (JStr s) =
     (case step_ref s of None \<Rightarrow> JStr s | Some ds \<Rightarrow> or_else (map_get results (CHR ''s'' # ds)) JUndef)"
| "filled results (JArr xs) = JArr (map (filled results) xs)"
| "filled results (JObj fs) = JObj (map (\<lambda>(k, v). (k, filled results v)) fs)"
| "filled results v = v"

lemma walk_filled:
  "\<forall>k\<in>set (references v). map_get results k \<noteq> None \<Longrightarrow> walk results stepId v = Inr (filled results v)"
proof (induction results stepId v rule: walk.induct)
  case (2 results stepId xs)
  then have "mapR (walk results stepId) xs = Inr (map (filled results) xs)"
    by (auto simp: mapR_Inr_list_all2 list_all2_map2 list_all2_same)
  then show ?case by simp
next
  case (3 results stepId fs)
  then have "mapR (\<lambda>(k, v). bindR (walk results stepId v) (\<lambda>y. Inr (k, y))) fs =
      Inr (map (\<lambda>(k, v). (k, filled results v)) fs)"
    by (fastforce simp: mapR_Inr_list_all2 list_all2_map2 list_all2_same)
  then show ?case by simp
qed (auto split: option.splits)

text \<open>
  Argument resolution. Resolving succeeds exactly when every reference that the
  arguments mention, at any depth, names a completed step, and then the value is the
  arguments with each reference replaced by the result it names.
\<close>

theorem resolveStepArgs_correct:
  "resolveStepArgs args results stepId = Inr v \<longleftrightarrow>
     set (references args) \<subseteq> set (map_keys results) \<and> v = filled results args"
proof (cases "set (references args) \<subseteq> set (map_keys results)")
  case True
  then have "\<forall>k\<in>set (references args). map_get results k \<noteq> None"
    by (auto simp: map_get_None_iff)
  from walk_filled [OF this] True show ?thesis by (auto simp: resolveStepArgs_def)
next
  case False
  then have "isl (walk results stepId args)" by (auto simp: walk_fails_iff map_get_None_iff)
  with False show ?thesis by (auto simp: resolveStepArgs_def isl_def)
qed

text \<open>The built-in intents only read: each terminates with a value, bounded in size.\<close>

lemma executeSequenceStep_known:
  "(\<exists>v. executeSequenceStep intent args session w = Inr v) \<longleftrightarrow> isKnownIntent intent"
  by (auto simp: executeSequenceStep_def isKnownIntent_def BUILTIN_INTENTS_def Let_def)

end
