(* ===== verification/OperatorStream.thy ===== *)
theory OperatorStream
  imports OperatorEvents
begin

text \<open>
  The way an event takes from the log to the command center: the server's SSE framing
  (\<open>formatSseEvent\<close> of \<open>packages/zeto/src/api/operatorV1.js\<close>), the client's pure
  helpers (\<open>public/js/operatorStream.js\<close>) and its event handler
  (\<open>public/js/zarvis.js\<close>). The client's data are JavaScript values, because it reads
  members that may be missing; \<open>R\<close> prints a number that is no integer.
\<close>

section \<open>SSE framing\<close>

definition LF :: char where "LF = CHR 0x0A"
definition CR :: char where "CR = CHR 0x0D"

text \<open>\<open>\r?\n\<close> at the head of a text, and what follows it.\<close>

definition after_break :: "string \<Rightarrow> string option" where
  "after_break s =
     (case s of
        [] \<Rightarrow> None
      | c # r \<Rightarrow>
          if c = LF then Some r
          else if c = CR then (case r of [] \<Rightarrow> None | d # r' \<Rightarrow> if d = LF then Some r' else None)
          else None)"

definition after_blank :: "string \<Rightarrow> string option" where
  "after_blank s = (case after_break s of None \<Rightarrow> None | Some r \<Rightarrow> after_break r)"

lemma after_break_shorter: "after_break s = Some r \<Longrightarrow> length r < length s"
  by (auto simp: after_break_def split: list.splits if_splits)

lemma after_blank_shorter: "after_blank s = Some r \<Longrightarrow> length r < length s"
  by (auto simp: after_blank_def dest!: after_break_shorter split: option.splits)

text \<open>\<open>split(/\r?\n/)\<close> and \<open>split(/\r?\n\r?\n/)\<close>; \<open>acc\<close> is the open piece, reversed.\<close>

function split_breaks :: "string \<Rightarrow> string \<Rightarrow> string list" where
  "split_breaks acc s =
     (case after_break s of
        Some r \<Rightarrow> rev acc # split_breaks [] r
      | None \<Rightarrow> (case s of [] \<Rightarrow> [rev acc] | c # r \<Rightarrow> split_breaks (c # acc) r))"
  by pat_completeness auto
termination
  by (relation "measure (\<lambda>(acc, s). length s)") (auto dest: after_break_shorter)

function split_blanks :: "string \<Rightarrow> string \<Rightarrow> string list" where
  "split_blanks acc s =
     (case after_blank s of
        Some r \<Rightarrow> rev acc # split_blanks [] r
      | None \<Rightarrow> (case s of [] \<Rightarrow> [rev acc] | c # r \<Rightarrow> split_blanks (c # acc) r))"
  by pat_completeness auto
termination
  by (relation "measure (\<lambda>(acc, s). length s)") (auto dest: after_blank_shorter)

declare split_breaks.simps [simp del] split_blanks.simps [simp del]

definition starts_with :: "string \<Rightarrow> string \<Rightarrow> bool" where
  "starts_with p s = (take (length p) s = p)"

record sse_block =
  sb_event :: "string option"
  sb_data :: string

fun read_sse_line :: "string option \<times> string list \<Rightarrow> string \<Rightarrow> string option \<times> string list" where
  "read_sse_line (ev, ds) line =
     (if starts_with '':'' line then (ev, ds)
      else if starts_with ''event:'' line then (Some (js_trim (drop 6 line)), ds)
      else if starts_with ''data:'' line then (ev, ds @ [js_trim (drop 5 line)])
      else (ev, ds))"

definition read_sse_chunk :: "string \<Rightarrow> sse_block list" where
  "read_sse_chunk chunk =
     (if js_trim chunk = [] then []
      else case foldl read_sse_line (None, []) (split_breaks [] chunk) of
        (ev, ds) \<Rightarrow>
          if ds = [] then [] else [\<lparr>sb_event = ev, sb_data = join_with [LF] ds\<rparr>])"

definition parseSseBlocks :: "string \<Rightarrow> sse_block list" where
  "parseSseBlocks txt = concat (map read_sse_chunk (split_blanks [] txt))"

text \<open>The members of the data object the server sends: the payload is spread into it.\<close>

definition envelope :: "event \<Rightarrow> (string \<times> js) list" where
  "envelope e =
     [(''event_id'', JStr (ev_event_id e)), (''session_id'', JStr (ev_session_id e)),
      (''generation'', js_int (ev_generation e)),
      (''sequence_id'', case ev_sequence_id e of Some n \<Rightarrow> js_int n | None \<Rightarrow> JNull),
      (''type'', JStr (ev_type e)), (''occurred_at'', JStr (to_iso (ev_occurred_at e))),
      (''correlation_id'', js_text (ev_correlation_id e)),
      (''payload'', or_object (ev_payload e))]"

definition own_members :: "js \<Rightarrow> (string \<times> js) list" where
  "own_members v = (case v of JObj fs \<Rightarrow> fs | _ \<Rightarrow> [])"

definition sse_data :: "event \<Rightarrow> js" where
  "sse_data e =
     JObj (map_delete (spread (envelope e) (own_members (or_object (ev_payload e)))) ''payload'')"

text \<open>\<open>J\<close> is \<open>JSON.stringify\<close>.\<close>

definition formatSseEvent :: "(js \<Rightarrow> string) \<Rightarrow> event \<Rightarrow> string" where
  "formatSseEvent J e =
     ''event: '' @ ev_type e @ [LF] @ ''data: '' @ J (sse_data e) @ [LF, LF]"

section \<open>Stream entries\<close>

definition MAX_ENTRIES :: nat where
  "MAX_ENTRIES = 500"

definition TERMINAL_ERROR :: "js list" where
  "TERMINAL_ERROR = [JStr ''FAILED'', JStr ''EMERGENCY_STOPPED'']"

record stream_entry =
  en_id :: js
  en_session_id :: js
  en_plan_id :: js
  en_step_id :: js
  en_ts :: js
  en_actor :: js
  en_intent :: js
  en_tool :: js
  en_target :: js
  en_risk :: js
  en_approval :: js
  en_result :: string
  en_duration_ms :: js
  en_correlation_id :: js
  en_summary :: js
  en_error :: "js option"

definition base_entry :: "js \<Rightarrow> js \<Rightarrow> stream_entry" where
  "base_entry ev payload =
     \<lparr>en_id = get_prop ev ''event_id'', en_session_id = get_prop ev ''session_id'',
      en_plan_id = js_or (get_prop payload ''plan_id'') JNull,
      en_step_id = js_or (get_prop payload ''step_id'') JNull,
      en_ts = js_or (get_prop ev ''occurred_at'') JNull,
      en_actor = js_or (get_prop payload ''actor'') (JStr ''system''),
      en_intent = js_or (get_prop payload ''intent'') JNull,
      en_tool = js_or (get_prop payload ''tool'') JNull,
      en_target = js_or (get_prop payload ''target'') JNull,
      en_risk = js_or (get_prop payload ''risk'') JNull,
      en_approval = js_or (get_prop payload ''approval'') (JStr ''not_required''),
      en_result = ''ok'',
      en_duration_ms = js_or (get_prop payload ''duration_ms'') (JNum (Fin 0)),
      en_correlation_id = js_or (get_prop ev ''correlation_id'') JNull,
      en_summary = get_prop ev ''type'', en_error = None\<rparr>"

text \<open>
  The texts of the source with characters outside Latin-1 (the arrow, the dash, the
  ellipsis and the middle dot) are written with \<open>->\<close>, \<open>--\<close>, \<open>...\<close> and \<open>.\<close>.
\<close>

definition or_text :: "(rat \<Rightarrow> string) \<Rightarrow> js \<Rightarrow> string \<Rightarrow> string" where
  "or_text R v d = js_text_of R (js_or v (JStr d))"

definition percent_text :: "(rat \<Rightarrow> string) \<Rightarrow> js \<Rightarrow> string" where
  "percent_text R v =
     (if truthy v
      then '' ('' @ num_text R (case js_number v of Fin q \<Rightarrow> Fin (of_int \<lfloor>q * 100 + 1 / 2\<rfloor>) | n \<Rightarrow> n) @ ''%)''
      else [])"

definition streamEntryFromEvent :: "(rat \<Rightarrow> string) \<Rightarrow> js \<Rightarrow> stream_entry option" where
  "streamEntryFromEvent R ev =
     (let payload = js_or (get_prop ev ''payload'') ev;
          base = base_entry ev payload;
          f = get_prop payload;
          say = (\<lambda>a s. base\<lparr>en_actor := JStr a, en_summary := JStr s\<rparr>);
          step = or_text R (f ''step_id'') ''?''
      in case get_prop ev ''type'' of
        JStr ty \<Rightarrow>
          (if ty = ''session.started'' then
             Some (base\<lparr>en_summary := JStr (''Session started ('' @ or_text R (f ''mode'') ''operator'' @ '')'')\<rparr>)
           else if ty = ''session.ended'' then
             Some (base\<lparr>en_summary := JStr (''Session ended ('' @ or_text R (f ''to'') ''terminal'' @ '')''),
                        en_result := (if f ''to'' \<in> set TERMINAL_ERROR then ''error'' else ''ok'')\<rparr>)
           else if ty = ''session.state_changed'' then
             Some (base\<lparr>en_summary := JStr (js_text_of R (f ''from'') @ '' -> '' @ js_text_of R (f ''to'')
                          @ (if truthy (f ''trigger'') then '' ('' @ js_text_of R (f ''trigger'') @ '')'' else [])),
                        en_result := (if f ''to'' \<in> set TERMINAL_ERROR then ''error''
                                      else if f ''to'' = JStr ''CANCELLED'' then ''cancelled'' else ''ok'')\<rparr>)
           else if ty = ''input.received'' then
             Some (say ''operator'' (''Command received ('' @ or_text R (f ''type'') ''text'' @ '')''))
           else if ty = ''transcript.final'' then
             Some (base\<lparr>en_actor := JStr ''operator'', en_summary := js_or (f ''text'') (JStr ''...'')\<rparr>)
           else if ty = ''intent.resolved'' then
             Some (say ''zarvis'' (''Intent: '' @ js_text_of R (f ''intent'') @ percent_text R (f ''confidence'')))
           else if ty = ''plan.created'' then
             Some (say ''zarvis'' (''Plan created ('' @ or_text R (f ''verdict'') ''approval_required'' @ '')''))
           else if ty = ''plan.approved'' then Some (say ''policy'' ''Plan approved'')
           else if ty = ''plan.rejected'' then
             Some ((say ''policy'' ''Plan rejected'')\<lparr>en_result := ''cancelled''\<rparr>)
           else if ty = ''step.started'' then
             Some (say ''zarvis'' (''Step '' @ step @ '' started ('' @ or_text R (f ''tool'') ''tool'' @ '')''))
           else if ty = ''step.finished'' then Some (say ''zarvis'' (''Step '' @ step @ '' finished''))
           else if ty = ''step.failed'' then
             Some ((say ''zarvis'' (''Step '' @ step @ '' failed''))
                     \<lparr>en_result := ''error'', en_error := Some (js_or (f ''error'') (JStr ''step failed''))\<rparr>)
           else if ty = ''tool.require_approval'' then
             Some ((say ''policy'' (''Approval required for step '' @ step))
                     \<lparr>en_result := ''blocked'', en_risk := js_or (f ''risk'') (JStr ''high'')\<rparr>)
           else if ty = ''verification.passed'' then
             Some (say ''zarvis'' (''Verification passed ('' @ step @ '')''))
           else if ty = ''verification.failed'' then
             Some ((say ''zarvis'' (''Verification failed ('' @ step @ '')''))
                     \<lparr>en_result := ''error'', en_error := Some (JStr ''postcondition unmet'')\<rparr>)
           else if ty = ''speech.started'' then Some (say ''zarvis'' ''Speaking...'')
           else if ty = ''speech.ended'' then Some (say ''zarvis'' ''Speech ended'')
           else if ty = ''pairing.issued'' then Some (say ''system'' ''Pairing token issued'')
           else if ty = ''pairing.consumed'' then Some (say ''system'' ''Pairing token consumed'')
           else if ty = ''incident.raised'' then
             Some ((say ''system'' (''Incident raised ('' @ or_text R (f ''level'') ''warning''
                       @ (if truthy (f ''scope'') then '' . '' @ js_text_of R (f ''scope'') else []) @ '')''))
                     \<lparr>en_result := ''error''\<rparr>)
           else if ty = ''incident.resolved'' then Some (say ''system'' ''Incident resolved'')
           else if ty = ''emergency.stop'' then
             Some ((say ''operator'' (''EMERGENCY STOP -- '' @ or_text R (f ''reason'') ''safety interrupt''))
                     \<lparr>en_result := ''error'', en_risk := JStr ''critical'',
                      en_error := Some (js_or (f ''reason'') (JStr ''emergency stop''))\<rparr>)
           else None)
      | _ \<Rightarrow> None)"

section \<open>Orb presentation\<close>

record presentation =
  or_label :: string
  or_tone :: string
  or_motion :: string
  or_reduced :: string

definition present :: "string \<Rightarrow> string \<Rightarrow> string \<Rightarrow> string \<Rightarrow> presentation" where
  "present l t m r = \<lparr>or_label = l, or_tone = t, or_motion = m, or_reduced = r\<rparr>"

definition presentations :: "(string \<times> presentation) list" where
  "presentations =
     [(''IDLE'', present ''IDLE'' ''idle'' ''pulse'' ''Static''),
      (''LISTENING'', present ''LISTENING'' ''active'' ''rings'' ''Listening''),
      (''TRANSCRIBING'', present ''TRANSCRIBING'' ''active'' ''tick'' ''Transcribing''),
      (''THINKING'', present ''THINKING'' ''active'' ''orbit'' ''Thinking''),
      (''PLANNING'', present ''PLANNING'' ''active'' ''orbit'' ''Planning''),
      (''AWAITING_APPROVAL'', present ''AWAITING APPROVAL'' ''attention'' ''pulse'' ''Awaiting approval''),
      (''EXECUTING'', present ''EXECUTING'' ''active'' ''directed'' ''Executing''),
      (''VERIFYING'', present ''VERIFYING'' ''active'' ''scan'' ''Verifying''),
      (''SPEAKING'', present ''SPEAKING'' ''active'' ''bars'' ''Speaking''),
      (''DEGRADED'', present ''DEGRADED'' ''attention'' ''tint'' ''Degraded''),
      (''RECOVERING'', present ''RECOVERING'' ''attention'' ''scan'' ''Recovering''),
      (''REAUTHORIZING'', present ''REAUTHORIZING'' ''attention'' ''pulse'' ''Re-authorizing''),
      (''PAUSED'', present ''PAUSED'' ''idle'' ''pulse'' ''Paused''),
      (''FAILED'', present ''FAILED'' ''danger'' ''shake'' ''Failed''),
      (''CANCELLED'', present ''CANCELLED'' ''idle'' ''fade'' ''Cancelled''),
      (''EMERGENCY_STOPPED'', present ''EMERGENCY STOP'' ''danger'' ''flash'' ''Emergency stopped'')]"

text \<open>\<open>None\<close>: a member of \<open>Object.prototype\<close>, which is no presentation.\<close>

definition orbPresentationForState :: "string \<Rightarrow> presentation option" where
  "orbPresentationForState st =
     (case literal_lookup presentations st of
        Own p \<Rightarrow> Some p
      | Inherited \<Rightarrow> None
      | Absent \<Rightarrow> Some (present st ''idle'' ''pulse'' st))"

section \<open>Merging and applying events\<close>

fun index_events :: "(string, event) jsmap \<Rightarrow> event list \<Rightarrow> (string, event) jsmap" where
  "index_events m [] = m"
| "index_events m (e # es) = index_events (map_set m (ev_event_id e) e) es"

definition mergeEvents :: "nat \<Rightarrow> (event \<Rightarrow> int option) \<Rightarrow> event list \<Rightarrow> event list \<Rightarrow> event list" where
  "mergeEvents mx getSeq existing incoming =
     (let byId = index_events (index_events [] existing)
                   (filter (\<lambda>e. ev_event_id e \<noteq> []) incoming);
          merged = sort_key (\<lambda>e. or_else (getSeq e) 0) (map_values byId)
      in if length merged > mx then drop (length merged - mx) merged else merged)"

definition applyStateChanged :: "js \<Rightarrow> js \<Rightarrow> js" where
  "applyStateChanged currentState ev =
     (if \<not> truthy ev \<or> get_prop ev ''type'' \<noteq> JStr ''session.state_changed'' then currentState
      else js_or (get_prop (get_prop ev ''payload'') ''to'') currentState)"

section \<open>The client's handler\<close>

record client =
  cl_lastEventId :: int
  cl_state :: js
  cl_entries :: "stream_entry list"

text \<open>\<open>Math.max(last, Number(event.sequence_id) || 0)\<close> for whole sequence numbers.\<close>

definition seq_number :: "js \<Rightarrow> int" where
  "seq_number v = (case js_number v of Fin q \<Rightarrow> \<lfloor>q\<rfloor> | _ \<Rightarrow> 0)"

definition handleEvent :: "(rat \<Rightarrow> string) \<Rightarrow> js \<Rightarrow> client \<Rightarrow> client" where
  "handleEvent R ev c =
     (if \<not> truthy ev \<or> \<not> truthy (get_prop ev ''event_id'') then c
      else
        let c1 = c\<lparr>cl_lastEventId := max (cl_lastEventId c) (seq_number (get_prop ev ''sequence_id''))\<rparr>;
            c2 = (if get_prop ev ''type'' = JStr ''session.state_changed''
                  then c1\<lparr>cl_state := js_or (get_prop (get_prop ev ''payload'') ''to'') (cl_state c1)\<rparr>
                  else c1)
        in (case streamEntryFromEvent R ev of
              None \<Rightarrow> c2
            | Some e \<Rightarrow>
                let es = cl_entries c2 @ [e]
                in c2\<lparr>cl_entries := (if length es > 500 then drop (length es - 500) es else es)\<rparr>))"

section \<open>Framing and parsing are inverse\<close>

text \<open>A text that stays on its line and is not changed by \<open>trim\<close>.\<close>

definition one_line :: "string \<Rightarrow> bool" where
  "one_line s \<longleftrightarrow> LF \<notin> set s \<and> CR \<notin> set s \<and> js_trim s = s"

lemma LF_CR_codes: "LF \<noteq> CR" "is_space LF" "is_space CR"
  by (simp_all add: LF_def CR_def is_space_def code_def)

lemma breaks_plain:
  "LF \<notin> set x \<Longrightarrow> CR \<notin> set x \<Longrightarrow> split_breaks acc (x @ r) = split_breaks (rev x @ acc) r"
proof (induction x arbitrary: acc)
  case (Cons c x)
  then have "after_break (c # x @ r) = None" by (auto simp: after_break_def)
  with Cons show ?case by (simp add: split_breaks.simps [of acc "c # x @ r"])
qed simp

lemma blanks_plain:
  "LF \<notin> set x \<Longrightarrow> CR \<notin> set x \<Longrightarrow> split_blanks acc (x @ r) = split_blanks (rev x @ acc) r"
proof (induction x arbitrary: acc)
  case (Cons c x)
  then have "after_blank (c # x @ r) = None" by (auto simp: after_blank_def after_break_def)
  with Cons show ?case by (simp add: split_blanks.simps [of acc "c # x @ r"])
qed simp

lemma split_breaks_line:
  assumes "LF \<notin> set x" and "CR \<notin> set x"
  shows "split_breaks [] (x @ LF # r) = x # split_breaks [] r" "split_breaks [] x = [x]"
proof -
  show "split_breaks [] (x @ LF # r) = x # split_breaks [] r"
    using breaks_plain [OF assms, of "[]" "LF # r"]
    by (simp add: split_breaks.simps [of _ "LF # r"] after_break_def)
  show "split_breaks [] x = [x]"
    using breaks_plain [OF assms, of "[]" "[]"]
    by (simp add: split_breaks.simps [of _ "[]"] after_break_def)
qed

lemma split_blanks_frame:
  assumes "LF \<notin> set x" "CR \<notin> set x" "LF \<notin> set (c # y)" "CR \<notin> set (c # y)"
  shows "split_blanks [] (x @ LF # (c # y) @ LF # LF # r) = (x @ LF # c # y) # split_blanks [] r"
proof -
  have "after_blank (LF # (c # y) @ LF # LF # r) = None"
    using assms by (auto simp: after_blank_def after_break_def)
  then have "split_blanks [] (x @ LF # (c # y) @ LF # LF # r)
        = split_blanks (LF # rev x) ((c # y) @ LF # LF # r)"
    using blanks_plain [OF assms(1,2), of "[]"]
    by (simp add: split_blanks.simps [of _ "LF # c # y @ LF # LF # r"])
  also have "\<dots> = split_blanks (rev (c # y) @ LF # rev x) (LF # LF # r)"
    by (rule blanks_plain) (use assms in auto)
  also have "\<dots> = (x @ LF # c # y) # split_blanks [] r"
    by (simp add: split_blanks.simps [of _ "LF # LF # r"] after_blank_def after_break_def)
  finally show ?thesis .
qed

lemma js_trim_prefix:
  assumes "\<not> is_space c" shows "js_trim (c # s) \<noteq> []"
  using assms by (simp add: js_trim_def dropWhile_eq_Nil_conv)

lemma js_trim_space: "js_trim (CHR '' '' # s) = js_trim s"
  by (simp add: js_trim_def is_space_def code_def)

lemma read_frame:
  assumes "one_line ty" "one_line d"
  shows "read_sse_chunk (''event: '' @ ty @ LF # ''data: '' @ d) = [\<lparr>sb_event = Some ty, sb_data = d\<rparr>]"
proof -
  have plain: "LF \<notin> set ''event: data: ''" "CR \<notin> set ''event: data: ''"
    by (simp_all add: LF_def CR_def)
  have "split_breaks [] ((''event: '' @ ty) @ LF # (''data: '' @ d)) = [''event: '' @ ty, ''data: '' @ d]"
    using split_breaks_line(1) [of "''event: '' @ ty" "''data: '' @ d"]
      split_breaks_line(2) [of "''data: '' @ d"] assms plain
    by (simp add: one_line_def)
  then have "split_breaks [] (''event: '' @ ty @ LF # ''data: '' @ d) = [''event: '' @ ty, ''data: '' @ d]"
    by simp
  moreover have "js_trim (''event: '' @ ty @ LF # ''data: '' @ d) \<noteq> []"
    using js_trim_prefix [of "CHR ''e''"] by (simp add: is_space_def code_def)
  ultimately show ?thesis
    using assms by (simp add: read_sse_chunk_def starts_with_def js_trim_space one_line_def)
qed

lemma parse_one_frame:
  assumes "one_line ty" "one_line d"
  shows "parseSseBlocks ((''event: '' @ ty @ [LF] @ ''data: '' @ d @ [LF, LF]) @ rest)
         = \<lparr>sb_event = Some ty, sb_data = d\<rparr> # parseSseBlocks rest"
proof -
  have plain: "LF \<notin> set ''event: data: ''" "CR \<notin> set ''event: data: ''"
    by (simp_all add: LF_def CR_def)
  have "split_blanks [] ((''event: '' @ ty) @ LF # (CHR ''d'' # ''ata: '' @ d) @ LF # LF # rest)
        = ((''event: '' @ ty) @ LF # CHR ''d'' # ''ata: '' @ d) # split_blanks [] rest"
    by (rule split_blanks_frame) (use assms plain in \<open>auto simp: one_line_def\<close>)
  then show ?thesis
    using read_frame [OF assms] by (simp add: parseSseBlocks_def)
qed

lemma parse_nothing: "parseSseBlocks [] = []"
  by (simp add: parseSseBlocks_def split_blanks.simps after_blank_def after_break_def
      read_sse_chunk_def js_trim_def)

lemma event_types_one_line: "isKnownEventType ty \<Longrightarrow> one_line ty"
proof -
  have "list_all one_line EVENT_TYPES"
    by (simp add: EVENT_TYPES_def one_line_def js_trim_def is_space_def code_def LF_def CR_def)
  then show "isKnownEventType ty \<Longrightarrow> one_line ty"
    by (simp add: isKnownEventType_def list_all_iff)
qed

text \<open>
  C3: the wire format round-trips. Whatever sequence of catalog events the server frames,
  and however \<open>JSON.stringify\<close> prints a value on one line, the client's parser finds
  exactly those blocks, in that order, with the types and the data that were sent.
\<close>

theorem sse_roundtrip:
  assumes "\<forall>e\<in>set es. isKnownEventType (ev_type e) \<and> one_line (J (sse_data e))"
  shows "parseSseBlocks (concat (map (formatSseEvent J) es))
         = map (\<lambda>e. \<lparr>sb_event = Some (ev_type e), sb_data = J (sse_data e)\<rparr>) es"
  using assms
proof (induction es)
  case Nil
  show ?case by (simp add: parse_nothing)
next
  case (Cons e es)
  then have "parseSseBlocks (formatSseEvent J e @ rest)
      = \<lparr>sb_event = Some (ev_type e), sb_data = J (sse_data e)\<rparr> # parseSseBlocks rest" for rest
    unfolding formatSseEvent_def by (intro parse_one_frame) (simp_all add: event_types_one_line)
  with Cons show ?case by simp
qed

definition sample_event :: event where
  "sample_event =
     \<lparr>ev_event_id = ''evt_1'', ev_session_id = ''s'', ev_generation = 1, ev_sequence_id = Some 1,
      ev_type = ''session.started'', ev_occurred_at = 0, ev_correlation_id = None,
      ev_payload = JObj [(''mode'', JStr ''chat'')]\<rparr>"

theorem sse_roundtrip_witness:
  "parseSseBlocks (concat (map (formatSseEvent (\<lambda>_. ''{}'')) [sample_event]))
     = map (\<lambda>e. \<lparr>sb_event = Some (ev_type e), sb_data = ''{}''\<rparr>) [sample_event]"
  by (rule sse_roundtrip)
     (simp add: sample_event_def one_line_def js_trim_def is_space_def code_def LF_def CR_def)

section \<open>Merging\<close>

definition keyed :: "event list \<Rightarrow> (string, event) jsmap" where
  "keyed es = map (\<lambda>e. (ev_event_id e, e)) es"

lemma map_keys_keyed [simp]: "map_keys (keyed es) = map ev_event_id es"
  by (simp add: map_keys_def keyed_def)

lemma map_values_keyed [simp]: "map_values (keyed es) = es"
  by (simp add: map_values_def keyed_def comp_def)

lemma index_new:
  "distinct (map ev_event_id (xs @ ys)) \<Longrightarrow> index_events (keyed xs) ys = keyed (xs @ ys)"
proof (induction ys arbitrary: xs)
  case (Cons y ys)
  have "map_set (keyed xs) (ev_event_id y) y = keyed (xs @ [y])"
    using Cons.prems by (subst map_set_new) (auto simp: keyed_def map_keys_def)
  with Cons.IH [of "xs @ [y]"] Cons.prems show ?case by simp
qed simp

lemma index_same:
  "distinct (map ev_event_id xs) \<Longrightarrow> set ys \<subseteq> set xs \<Longrightarrow> index_events (keyed xs) ys = keyed xs"
proof (induction ys)
  case (Cons y ys)
  have "map_get (keyed xs) (ev_event_id y) = Some y"
    using Cons.prems by (auto simp: map_get_def keyed_def comp_def)
  with Cons show ?case by (simp add: map_set_same)
qed simp

lemma index_append: "index_events m (xs @ ys) = index_events (index_events m xs) ys"
  by (induction xs arbitrary: m) simp_all

lemma index_events_inv:
  assumes "map_ok m" and "\<forall>p\<in>set m. fst p = ev_event_id (snd p) \<and> snd p \<in> A" and "set es \<subseteq> A"
  shows "map_ok (index_events m es) \<and>
         (\<forall>p\<in>set (index_events m es). fst p = ev_event_id (snd p) \<and> snd p \<in> A)"
  using assms
proof (induction es arbitrary: m)
  case (Cons e es)
  have "fst p = ev_event_id (snd p) \<and> snd p \<in> A" if "p \<in> set (map_set m (ev_event_id e) e)" for p
  proof -
    from that set_map_set_subset [of m "ev_event_id e" e] have "p = (ev_event_id e, e) \<or> p \<in> set m"
      by blast
    with Cons.prems show ?thesis by (elim disjE) simp_all
  qed
  then have all: "\<forall>p\<in>set (map_set m (ev_event_id e) e). fst p = ev_event_id (snd p) \<and> snd p \<in> A"
    by (rule ballI)
  have "map_ok (map_set m (ev_event_id e) e)" "set es \<subseteq> A"
    using Cons.prems by (auto intro: map_ok_set)
  with all show ?case unfolding index_events.simps by (intro Cons.IH)
qed simp

lemma merged_values:
  fixes es fs :: "event list"
  defines "m \<equiv> index_events (index_events [] es) (filter (\<lambda>e. ev_event_id e \<noteq> []) fs)"
  shows "distinct (map ev_event_id (map_values m)) \<and> set (map_values m) \<subseteq> set es \<union> set fs"
proof -
  have "map_ok m \<and> (\<forall>p\<in>set m. fst p = ev_event_id (snd p) \<and> snd p \<in> set es \<union> set fs)"
    unfolding m_def index_append [symmetric] by (rule index_events_inv) auto
  then have m: "distinct (map fst m)" "\<forall>p\<in>set m. fst p = ev_event_id (snd p)"
    "\<forall>p\<in>set m. snd p \<in> set es \<union> set fs"
    by (simp_all add: map_ok_def)
  from m(2) have "map ev_event_id (map_values m) = map fst m"
    by (simp add: map_values_def)
  with m(1) have "distinct (map ev_event_id (map_values m))" by (simp only:)
  with m(3) show ?thesis by (auto simp: map_values_def)
qed


text \<open>
  A reconnect is idempotent. When the server replays a stretch the client already has
  and goes on with new events, the merge is the log itself, cut to the newest events.
\<close>

theorem mergeEvents_replay:
  assumes "distinct (map ev_event_id (old @ both @ new))"
    and "[] \<notin> ev_event_id ` set (both @ new)"
    and "sorted (map (\<lambda>e. or_else (ev_sequence_id e) 0) (old @ both @ new))"
  shows "mergeEvents mx ev_sequence_id (old @ both) (both @ new)
         = drop (length (old @ both @ new) - mx) (old @ both @ new)"
proof -
  have "index_events [] (old @ both) = keyed (old @ both)"
    using index_new [of "[]" "old @ both"] assms(1) by (auto simp: keyed_def)
  moreover have "index_events (keyed (old @ both)) both = keyed (old @ both)"
    by (rule index_same) (use assms(1) in auto)
  moreover have "index_events (keyed (old @ both)) new = keyed ((old @ both) @ new)"
    by (rule index_new) (use assms(1) in simp)
  moreover have "filter (\<lambda>e. ev_event_id e \<noteq> []) (both @ new) = both @ new"
    by (rule filter_all_id) (use assms(2) in force)
  ultimately show ?thesis
    using sort_key_id_if_sorted [OF assms(3)] by (simp add: mergeEvents_def Let_def index_append)
qed

theorem mergeEvents_replay_witness:
  "mergeEvents 500 ev_sequence_id ([] @ [sample_event]) ([sample_event] @ [])
     = drop (length ([] @ [sample_event] @ []) - 500) ([] @ [sample_event] @ [])"
  by (rule mergeEvents_replay) (simp_all add: sample_event_def)

section \<open>What the client makes of an event\<close>

text \<open>
  An event of the server never moves the client's state. The framing spreads the
  payload into the envelope and deletes the member \<open>payload\<close>, which is the member the
  client's handler reads the new state from.
\<close>

theorem client_state_never_moves:
  "cl_state (handleEvent R (sse_data e) c) = cl_state c"
proof -
  have "get_prop (sse_data e) ''payload'' = JUndef"
    using map_get_delete [of "spread (envelope e) (own_members (or_object (ev_payload e)))"
        "''payload''" "''payload''"]
    by (simp add: sse_data_def map_get_def)
  then show ?thesis
    by (simp add: handleEvent_def Let_def js_or_def truthy_def split: option.splits)
qed

text \<open>The stored event as one object, the payload in its member, and what it does.\<close>

definition event_object :: "event \<Rightarrow> js" where
  "event_object e = JObj (envelope e)"

definition replay_state :: "event list \<Rightarrow> js" where
  "replay_state es = foldl (\<lambda>st e. applyStateChanged st (event_object e)) (JStr ''IDLE'') es"

lemma replay_state_append:
  "replay_state (es @ [e]) = applyStateChanged (replay_state es) (event_object e)"
  by (simp add: replay_state_def)

lemma apply_other_event:
  "ev_type e \<noteq> ''session.state_changed'' \<Longrightarrow> applyStateChanged st (event_object e) = st"
  by (simp add: applyStateChanged_def event_object_def envelope_def)

lemma move_payload_image [simp]:
  "json_image (or_object (move_payload f t trig a)) = move_payload f t trig a"
  by (simp add: or_object_def move_payload_def truthy_def)

lemma apply_move_event:
  assumes "ev_type e = ''session.state_changed''" and "ev_payload e = move_payload f t trig a"
    and "isKnownState t"
  shows "applyStateChanged st (event_object e) = JStr (state_name t)"
  using assms state_name_nonempty [OF assms(3)]
  by (simp add: applyStateChanged_def event_object_def envelope_def truthy_def move_payload_def
      or_object_def js_or_def)

text \<open>
  A submitted command never reaches the command stream. The payload's own \<open>type\<close>
  (\<open>text\<close>, \<open>voice\<close> or \<open>sequence\<close>) overwrites the envelope's
  \<open>input.received\<close> when the server flattens the event, and the client has no entry for it.
\<close>

theorem command_entry_lost:
  assumes "ev_type e = ''input.received''"
    and "ev_payload e = JObj (fs @ [(''type'', JStr ty)] @ gs)" and "distinct (map fst (fs @ [(''type'', JStr ty)] @ gs))"
    and "ty \<in> {''text'', ''voice'', ''sequence''}"
  shows "streamEntryFromEvent R (sse_data e) = None"
proof -
  let ?p = "fs @ [(''type'', JStr ty)] @ gs"
  have "map_of ?p ''type'' = Some (JStr ty)"
    by (rule map_of_is_SomeI [OF assms(3)]) simp
  then have "map_of (spread (envelope e) ?p) ''type'' = Some (JStr ty)"
    by (simp only: map_of_spread [OF assms(3)]) simp
  moreover have "own_members (or_object (ev_payload e)) = ?p"
    by (simp add: assms(2) or_object_def own_members_def truthy_def)
  ultimately have "get_prop (sse_data e) ''type'' = JStr ty"
    using map_get_delete [of "spread (envelope e) ?p" "''payload''" "''type''"]
    by (simp add: sse_data_def map_get_def)
  with assms(4) show ?thesis
    by (elim insertE emptyE) (simp_all add: streamEntryFromEvent_def Let_def)
qed

theorem command_entry_lost_witness:
  "streamEntryFromEvent (\<lambda>_. []) (sse_data (sample_event
     \<lparr>ev_type := ''input.received'',
      ev_payload := JObj ([] @ [(''type'', JStr ''text'')] @ [(''sequence_id'', JNull)])\<rparr>)) = None"
  by (rule command_entry_lost [where fs = "[]" and ty = "''text''" and gs = "[(''sequence_id'', JNull)]"])
     simp_all

text \<open>
  Every state of the operator machine has a presentation of its own; the tone tells apart
  the failures, the states that need the operator, the states at rest and the working ones.
\<close>

lemma orb_presentation_tone:
  "isKnownState s \<Longrightarrow> map_option or_tone (orbPresentationForState (state_name s)) =
     Some (if s = FAILED \<or> s = EMERGENCY_STOPPED then ''danger''
           else if s = DEGRADED \<or> s = AWAITING_APPROVAL \<or> isRecovery s then ''attention''
           else if s = IDLE \<or> s = PAUSED \<or> s = CANCELLED then ''idle'' else ''active'')"
  by (cases s)
     (simp_all add: known_states orbPresentationForState_def literal_lookup_def presentations_def
        present_def isRecovery_def RECOVERY_STATES_def)

end
