(* ===== verification/OperatorRuntime.thy ===== *)
theory OperatorRuntime
  imports OperatorSequences OperatorStream
begin

text \<open>
  The operator runtime, \<open>packages/zeto/src/services/operatorRuntimeService.js\<close>: every
  method of \<open>OperatorRuntimeService\<close>, composed of the repository's statements in the
  order of the code, and a step relation of the whole service. A method is atomic here:
  the interleaving of two requests at an \<open>await\<close> is not modelled.

  The request schemas are declared with a third-party validator; they are the fields of
  \<open>contracts\<close>, arguments of the methods that parse: \<open>None\<close> is a schema that throws.
\<close>

section \<open>Inputs and errors\<close>

record plan_input =
  pn_intent :: string
  pn_steps :: "plan_step_input list"
  pn_policyVerdict :: string
  pn_estimatedCost :: rat

record command_input =
  ci_text :: "string option"
  ci_audioRef :: "string option"
  ci_sequenceId :: "string option"

record run_input =
  ri_dryRun :: bool
  ri_sessionId :: "string option"
  ri_resumeRunId :: "string option"
  ri_confirmReplay :: bool

record contracts =
  k_session :: "string \<Rightarrow> string list \<Rightarrow> (string \<times> string list) option"
  k_command :: "command_input \<Rightarrow> command_input option"
  k_plan :: "plan_input \<Rightarrow> plan_input option"
  k_decision :: "string \<Rightarrow> string option"
  k_reject :: "string option \<Rightarrow> string option"
  k_cancel :: "string option \<Rightarrow> string option"
  k_emergency :: "string option \<Rightarrow> string option"
  k_sequence :: "sequence_input \<Rightarrow> sequence_input option"
  k_run :: "run_input \<Rightarrow> run_input option"
  k_pgMessage :: string

datatype rt_error =
    SchemaError
  | SessionNotFound string
  | TransitionError op_error
  | EventError event_error
  | RepositoryError repo_error
  | PlanNotFound string
  | PlanNotPending string
  | NotAwaitingApproval string op_state
  | SequenceNotFound string
  | RunNotFound string
  | RunNotOfSequence string string
  | RunNotResumable string string
  | ConfirmationRequired string

type_synonym 'a rt_result = "(world, rt_error, 'a) outcome"

definition parsed :: "'b option \<Rightarrow> world \<Rightarrow> 'b rt_result" where
  "parsed r w = (case r of None \<Rightarrow> (w, Inl SchemaError) | Some v \<Rightarrow> (w, Inr v))"

definition repo :: "'a repo_result \<Rightarrow> 'a rt_result" where
  "repo r = map_error RepositoryError r"

text \<open>The event that a builder makes, its id drawn from the supply.\<close>

definition emitting :: "world \<Rightarrow> (event_error, event) result \<Rightarrow> event rt_result" where
  "emitting w r = (case r of Inl e \<Rightarrow> (w, Inl (EventError e)) | Inr ev \<Rightarrow> (tick w, Inr ev))"

definition emit ::
  "uuid_supply \<Rightarrow> string \<Rightarrow> int \<Rightarrow> string \<Rightarrow> string option \<Rightarrow> js \<Rightarrow> world \<Rightarrow> event rt_result" where
  "emit U sid generation ty corr payload w =
     emitting w (buildEvent (next_uuid U w) (w_now w) sid generation ty corr payload)"

definition the_session :: "string \<Rightarrow> world \<Rightarrow> session rt_result" where
  "the_session sid w =
     (case getSession w sid of None \<Rightarrow> (w, Inl (SessionNotFound sid)) | Some s \<Rightarrow> (w, Inr s))"

section \<open>Sessions\<close>

definition createSession ::
  "uuid_supply \<Rightarrow> contracts \<Rightarrow> string \<Rightarrow> string list \<Rightarrow> string option \<Rightarrow> world
     \<Rightarrow> (session \<times> event list) rt_result" where
  "createSession U K mode capabilities actorId w =
     andThen (parsed (k_session K mode capabilities) w) (\<lambda>w1 inp.
     andThen (repo (repo_createSession U (fst inp) (snd inp) actorId w1)) (\<lambda>w2 s.
     andThen (emit U (se_id s) (se_generation s) ''session.started'' None
                (JObj [(''mode'', JStr (se_mode s))]) w2) (\<lambda>w3 ev.
     andThen (repo (appendEvents (se_id s) [ev] w3)) (\<lambda>w4 stored. (w4, Inr (s, stored))))))"

record call_context =
  cc_checkpointId :: "string option"
  cc_attempt :: "int option"
  cc_maxAttempts :: "int option"
  cc_planId :: "string option"
  cc_stepId :: "string option"
  cc_reason :: "string option"
  cc_source :: "string option"
  cc_toolsCancelledCount :: "int option"

definition no_call_context :: call_context where
  "no_call_context =
     \<lparr>cc_checkpointId = None, cc_attempt = None, cc_maxAttempts = None, cc_planId = None,
      cc_stepId = None, cc_reason = None, cc_source = None, cc_toolsCancelledCount = None\<rparr>"

record call_options =
  op_actor :: string
  op_correlationId :: "string option"
  op_context :: call_context

text \<open>
  The context of the guarded transition: the persisted checkpoint, then what the caller
  adds. No caller overrides \<open>previousState\<close> or \<open>resumeState\<close>.
\<close>

definition transition_context :: "session \<Rightarrow> call_context \<Rightarrow> tcontext" where
  "transition_context s cc =
     \<lparr>cx_previousState = se_previousState s, cx_resumeState = se_resumeState s,
      cx_attempt = cc_attempt cc, cx_maxAttempts = cc_maxAttempts cc\<rparr>"

text \<open>The columns every transition writes.\<close>

definition base_updates :: "session \<Rightarrow> transition_result \<Rightarrow> call_context \<Rightarrow> string option \<Rightarrow> updates" where
  "base_updates s r cc checkpointId =
     \<lparr>up_state = tr_to r,
      up_previousState = Some (cp_previousState (tr_checkpoint r)),
      up_resumeState = cp_resumeState (tr_checkpoint r),
      up_checkpointId = checkpointId,
      up_planId = cc_planId cc, up_stepId = cc_stepId cc,
      up_attempt = cc_attempt cc,
      up_pendingPause = (if se_pendingPause s then Some False else None),
      up_grantsRevoked = None, up_killSwitchLatched = None\<rparr>"

definition stop_record :: "session \<Rightarrow> call_options \<Rightarrow> emergency_record" where
  "stop_record s opt =
     (let cc = op_context opt in
      \<lparr>er_actorId = (if op_actor opt = ''system'' then None else Some (op_actor opt)),
       er_reason = or_else (non_blank (cc_reason cc)) ''Emergency stop requested'',
       er_source = or_else (non_blank (cc_source cc)) ''operator'',
       er_activePlanId = se_planId s, er_activeStepId = se_stepId s,
       er_grantsRevokedCount = (if se_grantsRevoked s then 0 else 1),
       er_toolsCancelledCount = or_else (cc_toolsCancelledCount cc) 0,
       er_killSwitchLatched = True\<rparr>)"

text \<open>The update and the events of a transition that the machine has allowed.\<close>

definition transition_record ::
  "uuid_supply \<Rightarrow> session \<Rightarrow> transition_result \<Rightarrow> trigger \<Rightarrow> call_options \<Rightarrow> world
     \<Rightarrow> (updates \<times> event list) rt_result" where
  "transition_record U s r trig opt w =
     (let sid = se_id s; gen = se_generation s; cc = op_context opt; to_st = tr_to r;
          actor = op_actor opt; corr = op_correlationId opt
      in andThen (emitting w (buildStateChanged (next_uuid U w) (w_now w) sid gen (se_state s) to_st
                    trig actor corr)) (\<lambda>w1 changed.
         let fresh_checkpoint = (cc_checkpointId cc = None \<and> to_st = PAUSED);
             checkpointId = (if fresh_checkpoint then Some (next_uuid U w1) else cc_checkpointId cc);
             w2 = (if fresh_checkpoint then tick w1 else w1);
             u = base_updates s r cc checkpointId
         in if to_st \<notin> set TERMINAL_STATES then (w2, Inr (u, [changed]))
            else andThen (emit U sid gen ''session.ended'' corr
                            (move_payload (se_state s) to_st trig actor) w2) (\<lambda>w3 ended.
              if to_st \<noteq> EMERGENCY_STOPPED
              then (w3, Inr (u\<lparr>up_grantsRevoked := Some True\<rparr>, [changed, ended]))
              else andThen (emitting w3 (buildEmergencyStop (next_uuid U w3) (w_now w3) sid gen
                              (stop_record s opt) corr)) (\<lambda>w4 stop.
                (w4, Inr (u\<lparr>up_grantsRevoked := Some True, up_killSwitchLatched := Some True\<rparr>,
                          [changed, ended, stop]))))))"

record transition_reply =
  tp_session :: session
  tp_events :: "event list"
  tp_from :: op_state
  tp_to :: op_state
  tp_trigger :: trigger
  tp_actor :: string

text \<open>One guarded transition, persisted; the deferred pause is applied by the caller below.\<close>

definition transition_once ::
  "uuid_supply \<Rightarrow> session \<Rightarrow> trigger \<Rightarrow> call_options \<Rightarrow> world \<Rightarrow> transition_reply rt_result" where
  "transition_once U s trig opt w =
     (case transitionOperatorState (se_state s) trig (transition_context s (op_context opt)) of
        Inl e \<Rightarrow> (w, Inl (TransitionError e))
      | Inr r \<Rightarrow>
          andThen (transition_record U s r trig opt w) (\<lambda>w1 (u, events).
          andThen (repo (applyTransition (se_id s) u events w1)) (\<lambda>w2 (s', stored).
            (w2, Inr \<lparr>tp_session = s', tp_events = stored, tp_from = se_state s,
                      tp_to = tr_to r, tp_trigger = trig, tp_actor = op_actor opt\<rparr>))))"

definition pending :: "world \<Rightarrow> string \<Rightarrow> nat" where
  "pending w sid = (case getSession w sid of Some s \<Rightarrow> if se_pendingPause s then 1 else 0 | None \<Rightarrow> 0)"

lemma emitting_Inr [result_simps]: "emitting w r = (w', Inr ev) \<longleftrightarrow> r = Inr ev \<and> w' = tick w"
  by (auto simp: emitting_def split: sum.splits)

text \<open>The envelope a builder makes for a catalog type.\<close>

definition built :: "uuid_supply \<Rightarrow> world \<Rightarrow> string \<Rightarrow> int \<Rightarrow> string \<Rightarrow> string option \<Rightarrow> js \<Rightarrow> event" where
  "built U w sid gen ty corr payload =
     \<lparr>ev_event_id = ''evt_'' @ next_uuid U w, ev_session_id = sid, ev_generation = gen,
      ev_sequence_id = None, ev_type = ty, ev_occurred_at = w_now w,
      ev_correlation_id = corr, ev_payload = payload\<rparr>"

lemma built_simps [simp]:
  "ev_session_id (built U w sid gen ty corr p) = sid" "ev_generation (built U w sid gen ty corr p) = gen"
  "ev_type (built U w sid gen ty corr p) = ty" "ev_payload (built U w sid gen ty corr p) = p"
  "ev_event_id (built U w sid gen ty corr p) = ''evt_'' @ next_uuid U w"
  by (simp_all add: built_def)

lemma emit_known:
  "isKnownEventType ty \<Longrightarrow> emit U sid gen ty corr p w = (tick w, Inr (built U w sid gen ty corr p))"
  by (simp add: emit_def emitting_def buildEvent_def assertEventType_def built_def)

definition changed_event :: "uuid_supply \<Rightarrow> session \<Rightarrow> op_state \<Rightarrow> trigger \<Rightarrow> call_options \<Rightarrow> world \<Rightarrow> event" where
  "changed_event U s to_st trig opt w =
     built U w (se_id s) (se_generation s) ''session.state_changed'' (op_correlationId opt)
       (move_payload (se_state s) to_st trig (op_actor opt))"

lemma emitting_changed:
  "emitting w (buildStateChanged (next_uuid U w) (w_now w) (se_id s) (se_generation s) (se_state s) to_st
      trig (op_actor opt) (op_correlationId opt)) = (tick w, Inr (changed_event U s to_st trig opt w))"
  by (simp add: buildStateChanged_def emitting_def buildEvent_def assertEventType_def built_def
      changed_event_def)

lemma emitting_stop:
  "emitting w (buildEmergencyStop (next_uuid U w) (w_now w) sid gen er corr)
     = (tick w, Inr (built U w sid gen ''emergency.stop'' corr
          (case buildEmergencyStop [] 0 sid gen er corr of Inr e \<Rightarrow> ev_payload e | Inl _ \<Rightarrow> JNull)))"
  by (simp add: buildEmergencyStop_def emitting_def buildEvent_def assertEventType_def built_def)

definition later :: "nat \<Rightarrow> world \<Rightarrow> world" where
  "later n w = w\<lparr>w_fresh := w_fresh w + n\<rparr>"

lemma tick_later: "tick w = later 1 w" "later n (later m w) = later (m + n) w"
  by (simp_all add: tick_def later_def)

lemma later_tables [simp]:
  "w_sessions (later n w) = w_sessions w" "w_events (later n w) = w_events w"
  "w_now (later n w) = w_now w" "getSession (later n w) sid = getSession w sid"
  "next_uuid U (later n w) = U (w_fresh w + n)" "w_fresh (later n w) = w_fresh w + n"
  "w_plans (later n w) = w_plans w"
  by (simp_all add: later_def getSession_def next_uuid_def)

text \<open>What a transition records: it never fails, and these are its columns and events.\<close>

definition ids_from :: "uuid_supply \<Rightarrow> nat \<Rightarrow> nat \<Rightarrow> event list \<Rightarrow> bool" where
  "ids_from U m n es \<longleftrightarrow>
     (\<exists>ks. map ev_event_id es = map (\<lambda>k. ''evt_'' @ U k) ks \<and> distinct ks \<and> set ks \<subseteq> {m..<n})"

definition recorded :: "uuid_supply \<Rightarrow> session \<Rightarrow> transition_result \<Rightarrow> trigger \<Rightarrow> call_options \<Rightarrow> world
     \<Rightarrow> updates \<Rightarrow> event list \<Rightarrow> bool" where
  "recorded U s r trig opt w u es \<longleftrightarrow>
     up_state u = tr_to r \<and> up_previousState u = Some (cp_previousState (tr_checkpoint r)) \<and>
     up_resumeState u = cp_resumeState (tr_checkpoint r) \<and> up_attempt u = cc_attempt (op_context opt) \<and>
     up_pendingPause u = (if se_pendingPause s then Some False else None) \<and>
     up_grantsRevoked u = (if isTerminal (tr_to r) then Some True else None) \<and>
     up_killSwitchLatched u = (if tr_to r = EMERGENCY_STOPPED then Some True else None) \<and>
     es \<noteq> [] \<and> hd es = changed_event U s (tr_to r) trig opt w \<and>
     map ev_type (tl es) = (if isTerminal (tr_to r) then [''session.ended''] else [])
           @ (if tr_to r = EMERGENCY_STOPPED then [''emergency.stop''] else []) \<and>
     (\<forall>e\<in>set es. ev_generation e = se_generation s)"

lemma transition_record_shape:
  obtains n u es where "transition_record U s r trig opt w = (later n w, Inr (u, es))"
    and "recorded U s r trig opt w u es" and "ids_from U (w_fresh w) (w_fresh w + n) es"
proof -
  let ?t = "isTerminal (tr_to r)" and ?e = "tr_to r = EMERGENCY_STOPPED"
  have et: "?e \<Longrightarrow> ?t" and pt: "?t \<Longrightarrow> tr_to r \<noteq> PAUSED"
    by (auto simp: isTerminal_def TERMINAL_STATES_def)
  let ?cp = "cc_checkpointId (op_context opt)"
  note rec_simps = numeral_2_eq_2 numeral_3_eq_3 transition_record_def Let_def emitting_changed emitting_stop emit_known tick_later
    isTerminal_def [symmetric]
  define c where "c = changed_event U s (tr_to r) trig opt w"
  have c: "ev_generation c = se_generation s" "ev_event_id c = ''evt_'' @ U (w_fresh w)"
    by (simp_all add: c_def changed_event_def next_uuid_def)
  define u where "u = base_updates s r (op_context opt)"
  have one: "ids_from U m (m + Suc k) [e]" if "ev_event_id e = ''evt_'' @ U m" for m k e
    unfolding ids_from_def using that by (intro exI [of _ "[m]"]) simp
  consider (plain) "\<not> ?t" | (ended) "?t" "\<not> ?e" | (stopped) "?t" "?e" by blast
  then show ?thesis
  proof cases
    case plain
    define k :: nat where "k = (if cc_checkpointId (op_context opt) = None \<and> tr_to r = PAUSED then 1 else 0)"
    obtain cp where "transition_record U s r trig opt w = (later (Suc k) w, Inr (u cp, [c]))"
      using plain by (simp add: rec_simps k_def c_def u_def)
    then show ?thesis
      by (rule that) (use plain et one [of c "w_fresh w" k] c in
          \<open>auto simp: recorded_def u_def base_updates_def c_def\<close>)
  next
    case ended
    let ?d = "built U (later 1 w) (se_id s) (se_generation s) ''session.ended'' (op_correlationId opt)
        (move_payload (se_state s) (tr_to r) trig (op_actor opt))"
    have t: "transition_record U s r trig opt w
        = (later 2 w, Inr ((u ?cp)\<lparr>up_grantsRevoked := Some True\<rparr>, [c, ?d]))"
      using ended pt [OF ended(1)] by (simp add: rec_simps c_def u_def)
    have i: "ids_from U (w_fresh w) (w_fresh w + 2) [c, ?d]"
      unfolding ids_from_def by (intro exI [of _ "[w_fresh w, w_fresh w + 1]"]) (simp add: c)
    show ?thesis
      by (rule that [OF t _ i]) (use ended c in
          \<open>simp_all add: recorded_def u_def base_updates_def c_def\<close>)
  next
    case stopped
    let ?d = "built U (later 1 w) (se_id s) (se_generation s) ''session.ended'' (op_correlationId opt)
        (move_payload (se_state s) (tr_to r) trig (op_actor opt))"
    obtain p where t: "transition_record U s r trig opt w
        = (later 3 w, Inr ((u ?cp)\<lparr>up_grantsRevoked := Some True, up_killSwitchLatched := Some True\<rparr>,
           [c, ?d, built U (later 2 w) (se_id s) (se_generation s) ''emergency.stop'' (op_correlationId opt) p]))"
      using stopped pt [OF stopped(1)] by (simp add: rec_simps c_def u_def)
    have i: "ids_from U (w_fresh w) (w_fresh w + 3)
        [c, ?d, built U (later 2 w) (se_id s) (se_generation s) ''emergency.stop'' (op_correlationId opt) p]"
      unfolding ids_from_def
      by (intro exI [of _ "[w_fresh w, w_fresh w + 1, w_fresh w + 2]"]) (simp add: c)
    show ?thesis
      by (rule that [OF t _ i]) (use stopped c in
          \<open>simp_all add: recorded_def u_def base_updates_def c_def\<close>)
  qed
qed

lemma transition_record_pending:
  "transition_record U s r trig opt w = (w', Inr (u, es)) \<Longrightarrow>
     up_pendingPause u = (if se_pendingPause s then Some False else None)"
  by (rule transition_record_shape [of U s r trig opt w]) (simp add: recorded_def)

lemma transition_once_Inr:
  assumes "transition_once U s trig opt w = (w', Inr p)"
  obtains r n u es s' st where
    "transitionOperatorState (se_state s) trig (transition_context s (op_context opt)) = Inr r"
    "recorded U s r trig opt w u es" "ids_from U (w_fresh w) (w_fresh w + n) es"
    "applyTransition (se_id s) u es (later n w) = (w', Inr (s', st))"
    "p = \<lparr>tp_session = s', tp_events = st, tp_from = se_state s, tp_to = tr_to r, tp_trigger = trig,
          tp_actor = op_actor opt\<rparr>"
proof (cases "transitionOperatorState (se_state s) trig (transition_context s (op_context opt))")
  case (Inl e)
  with assms show ?thesis by (simp add: transition_once_def)
next
  case (Inr r)
  obtain n u es where rec: "transition_record U s r trig opt w = (later n w, Inr (u, es))"
    "recorded U s r trig opt w u es" "ids_from U (w_fresh w) (w_fresh w + n) es"
    by (rule transition_record_shape)
  obtain w2 x where app: "applyTransition (se_id s) u es (later n w) = (w2, x)" by fastforce
  show ?thesis
  proof (cases x)
    case (Inl e)
    with assms \<open>_ = Inr r\<close> rec(1) app show ?thesis by (simp add: transition_once_def repo_def)
  next
    case (Inr y)
    obtain s' st where y: "y = (s', st)" by (cases y)
    from assms \<open>_ = Inr r\<close> rec(1) app Inr y
    have "w' = w2" "p = \<lparr>tp_session = s', tp_events = st, tp_from = se_state s, tp_to = tr_to r,
        tp_trigger = trig, tp_actor = op_actor opt\<rparr>"
      by (simp_all add: transition_once_def repo_def)
    with \<open>_ = Inr r\<close> rec app Inr y show ?thesis by (intro that) simp_all
  qed
qed

lemma transition_once_Inl:
  assumes "transition_once U s trig opt w = (w', Inl e)"
  shows "\<exists>n. w' = later n w"
proof (cases "transitionOperatorState (se_state s) trig (transition_context s (op_context opt))")
  case (Inl e)
  with assms show ?thesis by (auto simp: transition_once_def later_def intro: exI [of _ 0])
next
  case (Inr r)
  obtain n u es where rec: "transition_record U s r trig opt w = (later n w, Inr (u, es))"
    by (rule transition_record_shape)
  obtain w2 x where app: "applyTransition (se_id s) u es (later n w) = (w2, x)" by fastforce
  with assms Inr rec have "x = Inl (case x of Inl f \<Rightarrow> f)" "w' = w2"
    by (cases x; auto simp: transition_once_def repo_def)+
  with app applyTransition_Inl [of "se_id s" u es "later n w"] show ?thesis by metis
qed

lemma transition_once_pending:
  assumes "transition_once U s trig opt w = (w', Inr p)" and "se_pendingPause s"
  shows "pending w' (se_id s) = 0"
  using assms(1)
proof (rule transition_once_Inr)
  fix r n u es s' st
  assume "recorded U s r trig opt w u es"
    and app: "applyTransition (se_id s) u es (later n w) = (w', Inr (s', st))"
  with assms(2) have "up_pendingPause u = Some False" by (simp add: recorded_def)
  with applyTransition_session(1) [OF app] applyTransition_session(3) [OF app, of False]
  show ?thesis by (simp add: pending_def)
qed

text \<open>
  \<open>transition\<close>: when a pause was pending and the session has reached a pausable state,
  the method calls itself with \<open>pause\<close>. The write has cleared the flag by then, so the
  second call makes no third.
\<close>

function transition ::
  "uuid_supply \<Rightarrow> string \<Rightarrow> trigger \<Rightarrow> call_options \<Rightarrow> world \<Rightarrow> transition_reply rt_result" where
  "transition U sid trig opt w =
     (case getSession w sid of
        None \<Rightarrow> (w, Inl (SessionNotFound sid))
      | Some s \<Rightarrow>
          (case transition_once U s trig opt w of
             (w', Inl e) \<Rightarrow> (w', Inl e)
           | (w', Inr p) \<Rightarrow>
               if se_pendingPause s \<and> isPausable (tp_to p) \<and> tp_to p \<noteq> PAUSED
               then transition U sid ''pause'' (opt\<lparr>op_context := no_call_context\<rparr>) w'
               else (w', Inr p)))"
  by pat_completeness auto
termination
proof (relation "measure (\<lambda>(U, sid, trig, opt, w). pending w sid)")
  fix U sid trig opt w s w' r p
  assume s: "getSession w sid = Some s" and "(w', r) = transition_once U s trig opt w" and "r = Inr p"
    and pend: "se_pendingPause s \<and> isPausable (tp_to p) \<and> tp_to p \<noteq> PAUSED"
  then have "transition_once U s trig opt w = (w', Inr p)" by simp
  with pend have "pending w' (se_id s) = 0" by (blast intro: transition_once_pending)
  moreover have "se_id s = sid" using s getSession_id by blast
  moreover have "pending w sid = 1" using s pend by (simp add: pending_def)
  ultimately show "((U, sid, ''pause'', opt\<lparr>op_context := no_call_context\<rparr>, w'), (U, sid, trig, opt, w))
      \<in> measure (\<lambda>(U, sid, trig, opt, w). pending w sid)"
    by simp
qed simp

declare transition.simps [simp del]

definition options_for :: "string \<Rightarrow> string option \<Rightarrow> call_context \<Rightarrow> call_options" where
  "options_for actor corr cc = \<lparr>op_actor = actor, op_correlationId = corr, op_context = cc\<rparr>"

section \<open>Commands, pause, resume, stop\<close>

definition submitCommand ::
  "uuid_supply \<Rightarrow> contracts \<Rightarrow> string \<Rightarrow> command_input \<Rightarrow> world
     \<Rightarrow> (command \<times> event list \<times> string) rt_result" where
  "submitCommand U K sid raw w =
     andThen (parsed (k_command K raw) w) (\<lambda>w1 inp.
     andThen (the_session sid w1) (\<lambda>w2 s.
       let txt = non_blank (ci_text inp); audio = non_blank (ci_audioRef inp);
           ty = (if txt \<noteq> None then ''text'' else if audio \<noteq> None then ''voice'' else ''sequence'');
           corr = ''cmd_'' @ next_uuid U w2
       in andThen (repo (createCommand U sid corr ty txt audio (tick w2))) (\<lambda>w3 cmd.
          andThen (emit U sid (se_generation s) ''input.received'' (Some corr)
                     (JObj [(''type'', JStr ty), (''sequence_id'', js_text (non_blank (ci_sequenceId inp)))]) w3)
            (\<lambda>w4 received.
          andThen (case txt of
                     None \<Rightarrow> (w4, Inr [received])
                   | Some t \<Rightarrow>
                       andThen (emit U sid (se_generation s) ''transcript.final'' (Some corr)
                                  (JObj [(''text'', JStr t)]) w4) (\<lambda>w5 ev. (w5, Inr [received, ev])))
            (\<lambda>w6 events.
          andThen (repo (appendEvents sid events w6)) (\<lambda>w7 stored. (w7, Inr (cmd, stored, corr))))))))"

datatype pause_reply =
    PauseNone session
  | PauseCancelled transition_reply
  | PauseDeferred "session option"
  | PausePaused session string

definition pause ::
  "uuid_supply \<Rightarrow> string \<Rightarrow> string \<Rightarrow> string option \<Rightarrow> string option \<Rightarrow> world \<Rightarrow> pause_reply rt_result" where
  "pause U sid actor corr reason w =
     andThen (the_session sid w) (\<lambda>w1 s.
       let cc = no_call_context\<lparr>cc_reason := reason\<rparr>
       in case pauseRequestPolicy (se_state s) of
            P_none \<Rightarrow> (w1, Inr (PauseNone s))
          | P_cancel q trig \<Rightarrow>
              andThen (transition U sid trig (options_for actor corr cc) w1)
                (\<lambda>w2 p. (w2, Inr (PauseCancelled p)))
          | P_defer \<Rightarrow>
              (case setPendingPause sid True w1 of (w2, s') \<Rightarrow> (w2, Inr (PauseDeferred s')))
          | P_pause \<Rightarrow>
              (let checkpointId = next_uuid U w1
               in andThen (transition U sid ''pause''
                             (options_for actor corr (cc\<lparr>cc_checkpointId := Some checkpointId\<rparr>)) (tick w1))
                    (\<lambda>w2 p. (w2, Inr (PausePaused (tp_session p) checkpointId)))))"

definition resume ::
  "uuid_supply \<Rightarrow> string \<Rightarrow> string \<Rightarrow> string option \<Rightarrow> bool \<Rightarrow> world \<Rightarrow> transition_reply rt_result" where
  "resume U sid actor corr reauthGranted w =
     andThen (transition U sid ''resume_requested'' (options_for actor corr no_call_context) w) (\<lambda>w1 p1.
       if reauthGranted
       then andThen (transition U sid ''reauth_granted'' (options_for actor corr no_call_context) w1) (\<lambda>w2 p2.
            transition U sid ''checkpoint_validated'' (options_for actor corr no_call_context) w2)
       else (w1, Inr p1))"

definition cancelSession ::
  "uuid_supply \<Rightarrow> contracts \<Rightarrow> string \<Rightarrow> string \<Rightarrow> string option \<Rightarrow> string option \<Rightarrow> world
     \<Rightarrow> transition_reply rt_result" where
  "cancelSession U K sid actor corr reason w =
     andThen (parsed (k_cancel K (non_blank reason)) w) (\<lambda>w1 rsn.
       transition U sid ''cancel'' (options_for actor corr (no_call_context\<lparr>cc_reason := Some rsn\<rparr>)) w1)"

definition emergencyStop ::
  "uuid_supply \<Rightarrow> contracts \<Rightarrow> string \<Rightarrow> string \<Rightarrow> string option \<Rightarrow> string option \<Rightarrow> string \<Rightarrow> world
     \<Rightarrow> transition_reply rt_result" where
  "emergencyStop U K sid actor corr reason src w =
     andThen (parsed (k_emergency K (non_blank reason)) w) (\<lambda>w1 rsn.
       transition U sid ''emergency_stop''
         (options_for actor corr (no_call_context\<lparr>cc_reason := Some rsn, cc_source := Some src\<rparr>)) w1)"

section \<open>Plans\<close>

definition plan_context :: "string \<Rightarrow> call_context" where
  "plan_context planId = no_call_context\<lparr>cc_planId := Some planId\<rparr>"

definition createPlan ::
  "uuid_supply \<Rightarrow> contracts \<Rightarrow> string \<Rightarrow> string option \<Rightarrow> plan_input \<Rightarrow> world
     \<Rightarrow> (plan \<times> session) rt_result" where
  "createPlan U K sid corr raw w =
     andThen (parsed (k_plan K raw) w) (\<lambda>w1 inp.
     andThen (the_session sid w1) (\<lambda>w2 s.
     andThen (repo (repo_createPlan U sid (se_generation s) (pn_intent inp) (pn_policyVerdict inp)
                      (pn_estimatedCost inp) (pn_steps inp) w2)) (\<lambda>w3 pr.
       let p = fst pr; opt = options_for ''zarvis'' corr (plan_context (pl_id p))
       in andThen (emit U sid (se_generation s) ''plan.created'' corr
                     (JObj [(''plan_id'', JStr (pl_id p)), (''verdict'', JStr (pn_policyVerdict inp))]) w3)
            (\<lambda>w4 ev.
          andThen (repo (appendEvents sid [ev] w4)) (\<lambda>w5 _.
            if pn_policyVerdict inp = ''approved'' then
              andThen (transition U sid ''auto_approved'' opt w5) (\<lambda>w6 t.
              andThen (repo (updatePlanStatus (pl_id p) ''executing'' w6)) (\<lambda>w7 _.
                (w7, Inr (p, tp_session t))))
            else if pn_policyVerdict inp = ''denied'' then
              andThen (transition U sid ''plan_rejected'' opt w5) (\<lambda>w6 t.
              andThen (repo (updatePlanStatus (pl_id p) ''rejected'' w6)) (\<lambda>w7 _.
                (w7, Inr (p, tp_session t))))
            else
              andThen (transition U sid ''require_approval'' opt w5) (\<lambda>w6 t.
                (w6, Inr (p, tp_session t))))))))"

text \<open>What approving and rejecting share: a pending plan of a session that awaits it.\<close>

definition pending_plan :: "string \<Rightarrow> world \<Rightarrow> (plan \<times> session) rt_result" where
  "pending_plan planId w =
     (case getPlan w planId of
        None \<Rightarrow> (w, Inl (PlanNotFound planId))
      | Some p \<Rightarrow>
          if pl_status p \<noteq> ''pending'' then (w, Inl (PlanNotPending planId))
          else andThen (the_session (pl_sessionId p) w) (\<lambda>w1 s.
                 if se_state s \<noteq> AWAITING_APPROVAL
                 then (w1, Inl (NotAwaitingApproval (pl_sessionId p) (se_state s)))
                 else (w1, Inr (p, s))))"

type_synonym plan_reply = "(plan \<times> plan_step list) option \<times> session"

definition approvePlan ::
  "uuid_supply \<Rightarrow> contracts \<Rightarrow> string \<Rightarrow> string \<Rightarrow> string option \<Rightarrow> string option \<Rightarrow> string \<Rightarrow> world
     \<Rightarrow> plan_reply rt_result" where
  "approvePlan U K planId actor actorId corr decision w =
     andThen (parsed (k_decision K decision) w) (\<lambda>w1 dec.
     andThen (pending_plan planId w1) (\<lambda>w2 ps.
       let p = fst ps
       in andThen (emit U (pl_sessionId p) (pl_generation p) ''plan.approved'' corr
                     (JObj [(''plan_id'', JStr (pl_id p)), (''verdict'', JStr dec),
                            (''actor_id'', js_text actorId)]) w2) (\<lambda>w3 ev.
          andThen (repo (appendEvents (pl_sessionId p) [ev] w3)) (\<lambda>w4 _.
          andThen (transition U (pl_sessionId p)
                     (if dec = ''overridden'' then ''policy_override'' else ''approve'')
                     (options_for actor corr (plan_context (pl_id p))) w4) (\<lambda>w5 t.
          andThen (repo (updatePlanStatus (pl_id p) ''approved'' w5)) (\<lambda>w6 _.
            (w6, Inr (getPlanWithSteps w6 (pl_id p), tp_session t))))))))"

definition rejectPlan ::
  "uuid_supply \<Rightarrow> contracts \<Rightarrow> string \<Rightarrow> string \<Rightarrow> string option \<Rightarrow> string option \<Rightarrow> string option \<Rightarrow> world
     \<Rightarrow> plan_reply rt_result" where
  "rejectPlan U K planId actor actorId corr reason w =
     andThen (parsed (k_reject K (non_blank reason)) w) (\<lambda>w1 rsn.
     andThen (pending_plan planId w1) (\<lambda>w2 ps.
       let p = fst ps
       in andThen (emit U (pl_sessionId p) (pl_generation p) ''plan.rejected'' corr
                     (JObj [(''plan_id'', JStr (pl_id p)), (''reason'', JStr rsn),
                            (''actor_id'', js_text actorId)]) w2) (\<lambda>w3 ev.
          andThen (repo (appendEvents (pl_sessionId p) [ev] w3)) (\<lambda>w4 _.
          andThen (transition U (pl_sessionId p) ''reject''
                     (options_for actor corr ((plan_context (pl_id p))\<lparr>cc_reason := Some rsn\<rparr>)) w4) (\<lambda>w5 t.
          andThen (repo (updatePlanStatus (pl_id p) ''rejected'' w5)) (\<lambda>w6 _.
            (w6, Inr (getPlanWithSteps w6 (pl_id p), tp_session t))))))))"

definition eventsAfter :: "world \<Rightarrow> string \<Rightarrow> int \<Rightarrow> nat \<Rightarrow> event list" where
  "eventsAfter w sid lastSequenceId limit = listEventsAfter w sid lastSequenceId limit"

text \<open>
  The polling loop of the SSE endpoint (\<open>packages/zeto/src/api/operatorV1.js\<close>): one
  round sends the events after the last one sent, in order, and remembers the last.
\<close>

definition sendNewEvents :: "world \<Rightarrow> string \<Rightarrow> int \<Rightarrow> event list \<times> int" where
  "sendNewEvents w sid lastSeen =
     (let events = eventsAfter w sid lastSeen 1000
      in (events, foldl (\<lambda>_ e. or_else (ev_sequence_id e) 0) lastSeen events))"

section \<open>Sequences\<close>

definition createSequence ::
  "uuid_supply \<Rightarrow> contracts \<Rightarrow> sequence_input \<Rightarrow> string option \<Rightarrow> world
     \<Rightarrow> (sequence \<times> sequence_step list) rt_result" where
  "createSequence U K raw actorId w =
     andThen (parsed (k_sequence K raw) w) (\<lambda>w1 inp. repo (repo_createSequence U inp actorId w1))"

definition getSequence :: "world \<Rightarrow> string \<Rightarrow> (sequence \<times> sequence_step list) option" where
  "getSequence w seqId = getSequenceWithSteps w seqId"

definition updateSequence ::
  "contracts \<Rightarrow> string \<Rightarrow> sequence_input \<Rightarrow> world \<Rightarrow> (sequence \<times> sequence_step list) rt_result" where
  "updateSequence K seqId raw w =
     andThen (parsed (k_sequence K raw) w) (\<lambda>w1 inp.
     andThen (repo (repo_updateSequence seqId inp w1)) (\<lambda>w2 r.
       case fst r of None \<Rightarrow> (w2, Inl (SequenceNotFound seqId)) | Some q \<Rightarrow> (w2, Inr q)))"

definition deleteSequence :: "string \<Rightarrow> world \<Rightarrow> unit rt_result" where
  "deleteSequence seqId w =
     (case repo_deleteSequence seqId w of
        (w1, deleted) \<Rightarrow> if deleted then (w1, Inr ()) else (w1, Inl (SequenceNotFound seqId)))"

text \<open>The message of an error that a step can end with; the database's own is \<open>pg\<close>.\<close>

definition repo_message :: "string \<Rightarrow> repo_error \<Rightarrow> string" where
  "repo_message pg e =
     (case e of
        SessionMissing sid \<Rightarrow> ''Operator session not found: '' @ sid
      | RunStepMissing r k \<Rightarrow> ''Sequence run step not found: '' @ r @ '':'' @ k
      | ConstraintViolation \<Rightarrow> pg)"

definition step_message :: "string \<Rightarrow> step_error \<Rightarrow> string" where
  "step_message pg e =
     (case e of
        UnresolvedReference stepId key \<Rightarrow>
          ''Step '' @ stepId @ '' references '' @ key @ ''.result before that step completed''
      | UnsupportedIntent intent \<Rightarrow>
          ''Unsupported intent '' @ [CHR 0x22] @ intent @ [CHR 0x22] @ '' -- no tool registered for it. ''
          @ ''Supported read-only intents: queue.read, session.status, events.recent.''
      | StepRepository r \<Rightarrow> repo_message pg r)"

definition step_code :: "step_error \<Rightarrow> js" where
  "step_code e = (case e of UnsupportedIntent _ \<Rightarrow> JStr ''UNSUPPORTED_INTENT'' | _ \<Rightarrow> JNull)"

definition step_payload :: "sequence_run \<Rightarrow> sequence_step \<Rightarrow> (string \<times> js) list \<Rightarrow> js" where
  "step_payload run st extra =
     JObj ([(''plan_id'', JNull), (''step_id'', JStr (ss_stepKey st)), (''tool'', JStr (ss_intent st))]
           @ extra @ [(''run_id'', JStr (sr_id run)), (''sequence_id'', JStr (sr_sequenceId run))])"

record step_outcome =
  so_failed :: "step_error option"
  so_events :: "event list"
  so_results :: "(string, js) jsmap"

text \<open>
  The body of the \<open>try\<close>: the arguments, the intent, the run step, the two events. It
  returns the results map as well, which the code has extended before the two writes.
\<close>

definition attempt_step ::
  "uuid_supply \<Rightarrow> sequence_run \<Rightarrow> sequence_step \<Rightarrow> session \<Rightarrow> (string, js) jsmap \<Rightarrow> string \<Rightarrow> event \<Rightarrow> world
     \<Rightarrow> (world, step_error \<times> (string, js) jsmap, event list \<times> (string, js) jsmap) outcome" where
  "attempt_step U run st s results corr started w =
     (case bindR (resolveStepArgs (ss_args st) results (ss_stepKey st)) (\<lambda>args.
             executeSequenceStep (ss_intent st) args s w) of
        Inl e \<Rightarrow> (w, Inl (e, results))
      | Inr v \<Rightarrow>
          let results' = map_set results (ss_stepKey st) v
          in map_error (\<lambda>e. (StepRepository e, results'))
              (andThen (setSequenceRunStep (sr_id run) (ss_stepKey st) ''succeeded'' (Some v) None w) (\<lambda>w1 _.
               let finished = built U w1 (se_id s) (se_generation s) ''step.finished'' (Some corr)
                     (step_payload run st [(''result'', v)])
               in andThen (appendEvents (se_id s) [started, finished] (tick w1)) (\<lambda>w2 stored.
                    (w2, Inr (stored, results'))))))"

definition run_step_once ::
  "uuid_supply \<Rightarrow> string \<Rightarrow> sequence_run \<Rightarrow> sequence_step \<Rightarrow> session \<Rightarrow> (string, js) jsmap \<Rightarrow> string \<Rightarrow> world
     \<Rightarrow> step_outcome rt_result" where
  "run_step_once U pg run st s results corr w =
     andThen (emit U (se_id s) (se_generation s) ''step.started'' (Some corr) (step_payload run st []) w)
       (\<lambda>w1 started.
     andThen (repo (setSequenceRunStep (sr_id run) (ss_stepKey st) ''running'' None None w1)) (\<lambda>w2 _.
       case attempt_step U run st s results corr started w2 of
         (w3, Inr (stored, results')) \<Rightarrow>
           (w3, Inr \<lparr>so_failed = None, so_events = stored, so_results = results'\<rparr>)
       | (w3, Inl (e, results')) \<Rightarrow>
           andThen (repo (setSequenceRunStep (sr_id run) (ss_stepKey st) ''failed'' None
                      (Some (JObj [(''message'', JStr (step_message pg e)), (''code'', step_code e)])) w3))
             (\<lambda>w4 _.
           andThen (emit U (se_id s) (se_generation s) ''step.failed'' (Some corr)
                      (step_payload run st [(''error'', JStr (step_message pg e))]) w4) (\<lambda>w5 failed.
           andThen (repo (appendEvents (se_id s) [started, failed] w5)) (\<lambda>w6 stored.
             (w6, Inr \<lparr>so_failed = Some e, so_events = stored, so_results = results'\<rparr>))))))"

section \<open>Runs\<close>

record run_reply =
  rr_run :: "sequence_run option"
  rr_session :: session
  rr_events :: "event list"

text \<open>
  The loop over the steps that both entries share: a failed step ends the run, the last
  step completes it.
\<close>

fun run_loop ::
  "uuid_supply \<Rightarrow> string \<Rightarrow> sequence_run \<Rightarrow> session \<Rightarrow> string \<Rightarrow> sequence_step list \<Rightarrow> (string, js) jsmap
     \<Rightarrow> event list \<Rightarrow> world \<Rightarrow> run_reply rt_result" where
  "run_loop U pg run s corr [] results evs w =
     andThen (repo (updateSequenceRun (sr_id run) ''succeeded'' None None w)) (\<lambda>w1 r.
       (w1, Inr \<lparr>rr_run = r, rr_session = s, rr_events = evs\<rparr>))"
| "run_loop U pg run s corr (st # sts) results evs w =
     andThen (run_step_once U pg run st s results corr w) (\<lambda>w1 o1.
       case so_failed o1 of
         None \<Rightarrow> run_loop U pg run s corr sts (so_results o1) (evs @ so_events o1) w1
       | Some e \<Rightarrow>
           andThen (repo (updateSequenceRun (sr_id run) ''failed'' (Some (ss_stepKey st))
                      (Some (JObj [(''step'', JStr (ss_stepKey st)),
                                   (''message'', JStr (step_message pg e))])) w1)) (\<lambda>w2 r.
             (w2, Inr \<lparr>rr_run = r, rr_session = s, rr_events = evs @ so_events o1\<rparr>)))"

definition startSequenceRun ::
  "uuid_supply \<Rightarrow> string \<Rightarrow> sequence \<times> sequence_step list \<Rightarrow> session \<Rightarrow> bool \<Rightarrow> world \<Rightarrow> run_reply rt_result" where
  "startSequenceRun U pg q s dryRun w =
     andThen (repo (createSequenceRun U (sq_id (fst q)) (se_id s) dryRun w)) (\<lambda>w1 rn.
       let run = fst rn; corr = ''run_'' @ sr_id run
       in andThen (emit U (se_id s) (se_generation s) ''input.received'' (Some corr)
                     (JObj [(''type'', JStr ''sequence''), (''sequence_id'', JStr (sq_id (fst q))),
                            (''run_id'', JStr (sr_id run)), (''dry_run'', JBool dryRun)]) w1) (\<lambda>w2 ev.
          andThen (repo (appendEvents (se_id s) [ev] w2)) (\<lambda>w3 stored.
            run_loop U pg run s corr (snd q) [] stored w3)))"

definition stored_step :: "run_step list \<Rightarrow> string \<Rightarrow> run_step option" where
  "stored_step rows key = find_last (\<lambda>r. rs_stepKey r = key) rows"

definition step_done :: "run_step list \<Rightarrow> sequence_step \<Rightarrow> bool" where
  "step_done rows st =
     (case stored_step rows (ss_stepKey st) of Some r \<Rightarrow> rs_status r = ''succeeded'' | None \<Rightarrow> False)"

definition done_results :: "run_step list \<Rightarrow> sequence_step list \<Rightarrow> (string, js) jsmap" where
  "done_results rows sts =
     foldl (\<lambda>m st. map_set m (ss_stepKey st)
              (case stored_step rows (ss_stepKey st) of Some r \<Rightarrow> or_else (rs_result r) JNull | None \<Rightarrow> JNull))
       [] (takeWhile (step_done rows) sts)"

text \<open>
  Resuming: the results of the leading steps that succeeded are kept, the first other step
  needs a confirmation when its risk is high, and every step that has not succeeded runs.
\<close>

definition resumeSequenceRun ::
  "uuid_supply \<Rightarrow> string \<Rightarrow> sequence \<times> sequence_step list \<Rightarrow> string \<Rightarrow> bool \<Rightarrow> world \<Rightarrow> run_reply rt_result" where
  "resumeSequenceRun U pg q runId confirmReplay w =
     (case getSequenceRunWithSteps w runId of
        None \<Rightarrow> (w, Inl (RunNotFound runId))
      | Some (run, rows) \<Rightarrow>
          if sr_sequenceId run \<noteq> sq_id (fst q) then (w, Inl (RunNotOfSequence runId (sq_id (fst q))))
          else if sr_status run \<noteq> ''failed'' then (w, Inl (RunNotResumable runId (sr_status run)))
          else andThen (the_session (sr_sessionId run) w) (\<lambda>w1 s.
            case dropWhile (step_done rows) (snd q) of
              [] \<Rightarrow>
                andThen (repo (updateSequenceRun runId ''succeeded'' None None w1)) (\<lambda>w2 r.
                  (w2, Inr \<lparr>rr_run = r, rr_session = s, rr_events = []\<rparr>))
            | st # _ \<Rightarrow>
                if isHighRiskStep (Some (ss_risk st)) (ss_intent st) \<and> \<not> confirmReplay
                then (w1, Inl (ConfirmationRequired (ss_stepKey st)))
                else andThen (repo (updateSequenceRun runId ''running'' None None w1)) (\<lambda>w2 _.
                  run_loop U pg run s (''run_'' @ runId)
                    (filter (\<lambda>x. \<not> step_done rows x) (snd q)) (done_results rows (snd q)) [] w2)))"

definition runSequence ::
  "uuid_supply \<Rightarrow> contracts \<Rightarrow> string \<Rightarrow> run_input \<Rightarrow> string option \<Rightarrow> world \<Rightarrow> run_reply rt_result" where
  "runSequence U K seqId raw actorId w =
     andThen (parsed (k_run K raw) w) (\<lambda>w1 inp.
       case getSequenceWithSteps w1 seqId of
         None \<Rightarrow> (w1, Inl (SequenceNotFound seqId))
       | Some q \<Rightarrow>
           (case non_blank (ri_resumeRunId inp) of
              Some rid \<Rightarrow> resumeSequenceRun U (k_pgMessage K) q rid (ri_confirmReplay inp) w1
            | None \<Rightarrow>
                let named = (case non_blank (ri_sessionId inp) of Some sid \<Rightarrow> getSession w1 sid | None \<Rightarrow> None)
                in case or_opt named (findLatestSession w1 actorId True) of
                     Some s \<Rightarrow> startSequenceRun U (k_pgMessage K) q s (ri_dryRun inp) w1
                   | None \<Rightarrow>
                       andThen (createSession U K (sq_mode (fst q)) [] actorId w1) (\<lambda>w2 cs.
                         startSequenceRun U (k_pgMessage K) q (fst cs) (ri_dryRun inp) w2)))"

section \<open>The service as a step relation\<close>

text \<open>One completed call of a public method, whatever it returned or threw, or time passing.\<close>

inductive rt_step :: "uuid_supply \<Rightarrow> contracts \<Rightarrow> world \<Rightarrow> world \<Rightarrow> bool" for U K where
  create_session: "rt_step U K w (fst (createSession U K mode caps actorId w))"
| transition: "rt_step U K w (fst (transition U sid trig opt w))"
| submit_command: "rt_step U K w (fst (submitCommand U K sid inp w))"
| pause: "rt_step U K w (fst (pause U sid actor corr reason w))"
| resume: "rt_step U K w (fst (resume U sid actor corr granted w))"
| cancel_session: "rt_step U K w (fst (cancelSession U K sid actor corr reason w))"
| emergency_stop: "rt_step U K w (fst (emergencyStop U K sid actor corr reason src w))"
| create_plan: "rt_step U K w (fst (createPlan U K sid corr inp_plan w))"
| approve_plan: "rt_step U K w (fst (approvePlan U K planId actor actorId corr decision w))"
| reject_plan: "rt_step U K w (fst (rejectPlan U K planId actor actorId corr reason w))"
| create_sequence: "rt_step U K w (fst (createSequence U K inp_seq actorId w))"
| update_sequence: "rt_step U K w (fst (updateSequence K seqId inp_seq w))"
| delete_sequence: "rt_step U K w (fst (deleteSequence seqId w))"
| run_sequence: "rt_step U K w (fst (runSequence U K seqId inp_run actorId w))"
| record_execution: "rt_step U K w (fst (recordToolExecution U q w))"
| finish_execution: "rt_step U K w (fst (finishToolExecution xid status response dur w))"
| record_evidence: "rt_step U K w (fst (recordVerificationEvidence U stepId xid' status evd w))"
| time_passes: "w_now w \<le> t \<Longrightarrow> rt_step U K w (w\<lparr>w_now := t\<rparr>)"

inductive rt_reachable :: "uuid_supply \<Rightarrow> contracts \<Rightarrow> world \<Rightarrow> bool" for U K where
  start: "rt_reachable U K (empty_world t)"
| step: "rt_reachable U K w \<Longrightarrow> rt_step U K w w' \<Longrightarrow> rt_reachable U K w'"

end
