(* ===== verification/OperatorInvariants.thy ===== *)
theory OperatorInvariants
  imports OperatorRuntime
begin

text \<open>
  What every reachable store of the operator runtime satisfies: each session row is a
  reachable session of the state machine, its flags say what its state says, its event
  log is numbered without gaps, and replaying the log gives its state.
\<close>

section \<open>The invariant\<close>

definition machine_of :: "session \<Rightarrow> machine" where
  "machine_of s =
     \<lparr>m_state = se_state s, m_previous = se_previousState s, m_resume = se_resumeState s\<rparr>"

definition typed :: "string \<Rightarrow> event list \<Rightarrow> nat" where
  "typed ty es = length (filter (\<lambda>e. ev_type e = ty) es)"

definition row_ok :: "session \<Rightarrow> bool" where
  "row_ok s \<longleftrightarrow>
     isKnownState (se_state s) \<and> se_generation s = 1 \<and> 0 \<le> se_attempt s \<and> machine_reachable (machine_of s) \<and>
     (se_grantsRevoked s \<longleftrightarrow> isTerminal (se_state s)) \<and>
     (se_killSwitchLatched s \<longleftrightarrow> se_state s = EMERGENCY_STOPPED) \<and>
     (se_pendingPause s \<longrightarrow> se_state s = THINKING \<or> se_state s = PLANNING)"

definition log_ok :: "session \<Rightarrow> event list \<Rightarrow> bool" where
  "log_ok s es \<longleftrightarrow>
     se_lastSequenceId s = int (length es) \<and>
     map ev_sequence_id es = map (\<lambda>k. Some (1 + int k)) [0..<length es] \<and>
     (\<forall>e\<in>set es. ev_generation e = 1) \<and>
     replay_state es = JStr (state_name (se_state s)) \<and>
     typed ''session.ended'' es = (if isTerminal (se_state s) then 1 else 0) \<and>
     typed ''emergency.stop'' es = (if se_state s = EMERGENCY_STOPPED then 1 else 0)"

definition drawn :: "uuid_supply \<Rightarrow> nat \<Rightarrow> event \<Rightarrow> bool" where
  "drawn U n e \<longleftrightarrow> (\<exists>k<n. ev_event_id e = ''evt_'' @ U k)"

text \<open>A plan's generation is the one of its session, and that is always the first.\<close>

definition plans_ok :: "world \<Rightarrow> bool" where
  "plans_ok w \<longleftrightarrow> (\<forall>p\<in>set (w_plans w). pl_generation p = 1)"

definition world_ok :: "uuid_supply \<Rightarrow> world \<Rightarrow> bool" where
  "world_ok U w \<longleftrightarrow>
     distinct (map se_id (w_sessions w)) \<and>
     (\<forall>e\<in>set (w_events w). getSession w (ev_session_id e) \<noteq> None \<and> drawn U (w_fresh w) e) \<and>
     (\<forall>s\<in>set (w_sessions w). row_ok s \<and> log_ok s (log w (se_id s))) \<and> plans_ok w"

lemma world_ok_empty: "world_ok U (empty_world t)"
  by (simp add: world_ok_def empty_world_def plans_ok_def)

lemma typed_append [simp]: "typed ty (es @ fs) = typed ty es + typed ty fs"
  by (simp add: typed_def)

lemma typed_types: "typed ty es = length (filter (\<lambda>x. x = ty) (map ev_type es))"
  by (simp add: typed_def filter_map comp_def)

lemma drawn_mono: "drawn U n e \<Longrightarrow> n \<le> m \<Longrightarrow> drawn U m e"
  by (auto simp: drawn_def intro: order_less_le_trans)

lemma drawn_stamp [simp]: "drawn U n (stamp sid k e) = drawn U n e"
  by (simp add: drawn_def)

lemma getSession_distinct:
  assumes "distinct (map se_id (w_sessions w))" and "s \<in> set (w_sessions w)"
  shows "getSession w (se_id s) = Some s"
proof -
  obtain t where t: "getSession w (se_id s) = Some t"
    using assms(2) find_None_all [of "\<lambda>x. se_id x = se_id s" "w_sessions w"]
    by (cases "getSession w (se_id s)") (auto simp: getSession_def)
  with getSession_id have "se_id t = se_id s" "t \<in> set (w_sessions w)" by blast+
  with assms have "t = s" by (simp add: distinct_map inj_on_def)
  with t show ?thesis by simp
qed

text \<open>Operations that leave sessions and events alone keep the invariant.\<close>

definition unrelated :: "world \<Rightarrow> world \<Rightarrow> bool" where
  "unrelated w w' \<longleftrightarrow>
     w_sessions w' = w_sessions w \<and> w_events w' = w_events w \<and> w_fresh w \<le> w_fresh w' \<and>
     (plans_ok w \<longrightarrow> plans_ok w')"

lemma unrelated_refl [simp]: "unrelated w w"
  by (simp add: unrelated_def)

lemma unrelated_trans: "unrelated a b \<Longrightarrow> unrelated b c \<Longrightarrow> unrelated a c"
  by (simp add: unrelated_def)

lemma unrelated_tick [simp]: "unrelated w (tick w)" "unrelated w (later n w)"
  by (simp_all add: unrelated_def tick_def later_def plans_ok_def)

lemma world_ok_unrelated: "world_ok U w \<Longrightarrow> unrelated w w' \<Longrightarrow> world_ok U w'"
  by (auto simp: world_ok_def unrelated_def log_def getSession_def intro: drawn_mono)

lemma world_ok_tick [simp]: "world_ok U w \<Longrightarrow> world_ok U (tick w)"
  by (erule world_ok_unrelated) simp

lemma getSession_None: "getSession w x = None \<longleftrightarrow> x \<notin> set (map se_id (w_sessions w))"
  by (auto simp: getSession_def find_None_all)

lemma world_ok_session:
  assumes "world_ok U w" and "getSession w sid = Some s"
  shows "row_ok s" "log_ok s (log w sid)" "se_id s = sid" "se_generation s = 1"
  using assms getSession_id [OF assms(2)] by (auto simp: world_ok_def row_ok_def)

text \<open>The event table is append-only.\<close>

definition extends :: "world \<Rightarrow> world \<Rightarrow> bool" where
  "extends w w' \<longleftrightarrow> (\<exists>new. w_events w' = w_events w @ new)"

lemma extends_same: "w_events w' = w_events w \<Longrightarrow> extends w w'"
  by (simp add: extends_def)

lemma extends_trans: "extends a b \<Longrightarrow> extends b c \<Longrightarrow> extends a c"
  by (auto simp: extends_def)

section \<open>One session written, events appended to its log\<close>

lemma world_ok_write:
  assumes ok: "world_ok U w" and s: "getSession w sid = Some s"
    and ses: "w_sessions w' = update_where (\<lambda>r. se_id r = sid) f (w_sessions w)"
    and evs: "w_events w' = w_events w @ new" and new: "\<forall>e\<in>set new. ev_session_id e = sid \<and> drawn U (w_fresh w') e"
    and f: "\<And>r. se_id (f r) = se_id r" and le: "w_fresh w \<le> w_fresh w'" and plans: "w_plans w' = w_plans w"
    and row: "row_ok (f s)" and lg: "log_ok (f s) (log w sid @ new)"
  shows "world_ok U w'"
proof -
  have sid: "se_id s = sid" using s getSession_id by blast
  have dist: "distinct (map se_id (w_sessions w'))"
    using ok by (simp add: ses map_update_where f world_ok_def)
  have logs: "log w' sid = log w sid @ new" "sid' \<noteq> sid \<Longrightarrow> log w' sid' = log w sid'" for sid'
    using new by (auto simp: log_def evs intro: filter_all_id)
  have get: "getSession w' x \<noteq> None \<longleftrightarrow> getSession w x \<noteq> None" for x
    by (simp only: getSession_None ses map_update_where f)
  have events: "getSession w' (ev_session_id e) \<noteq> None \<and> drawn U (w_fresh w') e"
    if "e \<in> set (w_events w')" for e
  proof (cases "e \<in> set (w_events w)")
    case True
    with ok have "getSession w (ev_session_id e) \<noteq> None" "drawn U (w_fresh w) e"
      by (simp_all add: world_ok_def)
    with le show ?thesis unfolding get by (blast intro: drawn_mono)
  next
    case False
    with that new have "ev_session_id e = sid" "drawn U (w_fresh w') e" by (auto simp: evs)
    with s show ?thesis unfolding get by simp
  qed
  have "row_ok r \<and> log_ok r (log w' (se_id r))" if "r \<in> set (w_sessions w')" for r
  proof -
    from that obtain q where q: "q \<in> set (w_sessions w)" "r = (if se_id q = sid then f q else q)"
      by (auto simp: ses set_update_where)
    show ?thesis
    proof (cases "se_id q = sid")
      case True
      then have "q = s" using getSession_distinct q(1) ok s by (fastforce simp: world_ok_def)
      with True q(2) row lg show ?thesis by (simp add: f logs)
    next
      case False
      with q ok show ?thesis by (auto simp: world_ok_def logs)
    qed
  qed
  moreover have "plans_ok w'" using ok plans by (simp add: world_ok_def plans_ok_def)
  ultimately show ?thesis using dist events unfolding world_ok_def by blast
qed

text \<open>Events that say nothing of the state.\<close>

definition neutral :: "event \<Rightarrow> bool" where
  "neutral e \<longleftrightarrow> ev_type e \<notin> {''session.state_changed'', ''session.ended'', ''emergency.stop''}
     \<and> ev_generation e = 1"

lemma replay_neutral:
  "\<forall>e\<in>set es. ev_type e \<noteq> ''session.state_changed'' \<Longrightarrow>
     replay_state (L @ stamped sid n es) = replay_state L"
proof (induction es arbitrary: n L)
  case (Cons e es)
  have "replay_state (L @ [stamp sid n e]) = replay_state L"
    using Cons.prems by (simp add: replay_state_append apply_other_event)
  with Cons.IH [of "L @ [stamp sid n e]" "n + 1"] Cons.prems show ?case by simp
qed simp

lemma stamped_numbers:
  assumes "map ev_sequence_id L = map (\<lambda>k. Some (1 + int k)) [0..<length L]"
  shows "map ev_sequence_id (L @ stamped sid (int (length L) + 1) es)
         = map (\<lambda>k. Some (1 + int k)) [0..<length L + length es]"
proof -
  have "map (\<lambda>k. Some (1 + int k)) [length L..<length L + length es]
      = map (\<lambda>k. Some (int (length L) + 1 + int k)) [0..<length es]"
    by (rule nth_equalityI) simp_all
  then show ?thesis
    using assms by (simp add: stamped_sequence upt_add_eq_append [of 0 "length L" "length es"])
qed

lemma stamped_generations: "(\<forall>e\<in>set (stamped sid n es). P (ev_generation e)) \<longleftrightarrow> (\<forall>e\<in>set es. P (ev_generation e))"
  by (induction es arbitrary: n) auto

lemma stamped_drawn: "(\<forall>e\<in>set (stamped sid n es). ev_session_id e = sid \<and> drawn U m e)
    \<longleftrightarrow> (\<forall>e\<in>set es. drawn U m e)"
  by (induction es arbitrary: n) auto

lemma stamped_types: "typed ty (stamped sid n es) = typed ty es"
  by (simp add: typed_types stamped_facts)

lemma log_ok_neutral:
  assumes "log_ok s L" and "\<forall>e\<in>set es. neutral e"
    and "se_state q = se_state s" "se_lastSequenceId q = se_lastSequenceId s + int (length es)"
  shows "log_ok q (L @ stamped sid (se_lastSequenceId s + 1) es)"
proof -
  have none: "typed ty es = 0" if "ty \<in> {''session.ended'', ''emergency.stop''}" for ty
    using assms(2) that by (auto simp: typed_def neutral_def filter_empty_conv)
  have last: "se_lastSequenceId s = int (length L)" using assms(1) by (simp add: log_ok_def)
  show ?thesis
    unfolding log_ok_def
  proof (intro conjI)
    show "map ev_sequence_id (L @ stamped sid (se_lastSequenceId s + 1) es)
        = map (\<lambda>k. Some (1 + int k)) [0..<length (L @ stamped sid (se_lastSequenceId s + 1) es)]"
      using assms(1) stamped_numbers [of L sid es] by (simp add: last log_ok_def stamped_facts)
    show "replay_state (L @ stamped sid (se_lastSequenceId s + 1) es) = JStr (state_name (se_state q))"
      using assms replay_neutral [of es L] by (auto simp: log_ok_def neutral_def)
    show "\<forall>e\<in>set (L @ stamped sid (se_lastSequenceId s + 1) es). ev_generation e = 1"
      using assms(1,2) stamped_generations [of sid _ es "\<lambda>g. g = 1"]
      by (auto simp: log_ok_def neutral_def ball_Un)
  qed (use assms none in \<open>simp_all add: log_ok_def stamped_facts stamped_types\<close>)
qed

lemma appendEvents_ok:
  assumes ok: "world_ok U w" and es: "\<forall>e\<in>set es. neutral e \<and> drawn U (w_fresh w) e"
    and app: "appendEvents sid es w = (w', r)"
  shows "world_ok U w' \<and> w_fresh w' = w_fresh w \<and> extends w w'"
proof (cases r)
  case (Inl e)
  with app ok show ?thesis by (auto dest: appendEvents_Inl intro: extends_same)
next
  case (Inr xs)
  show ?thesis
  proof (cases "es = []")
    case True
    with app Inr ok show ?thesis by (simp add: appendEvents_def extends_same)
  next
    case False
    from app False obtain s where s: "getSession w sid = Some s"
      and w': "w' = (bump sid (int (length es)) w)
            \<lparr>w_events := w_events w @ stamped sid (se_lastSequenceId s + 1) es\<rparr>"
      unfolding Inr by (rule appendEvents_Inr)
    note sok = world_ok_session [OF ok s]
    have "world_ok U w'"
    proof (rule world_ok_write [OF ok s])
      show "\<forall>e\<in>set (stamped sid (se_lastSequenceId s + 1) es). ev_session_id e = sid \<and> drawn U (w_fresh w') e"
        unfolding stamped_drawn using es by (simp add: w' bump_def)
      show "log_ok (s\<lparr>se_lastSequenceId := se_lastSequenceId s + int (length es), se_updatedAt := w_now w\<rparr>)
          (log w sid @ stamped sid (se_lastSequenceId s + 1) es)"
        by (rule log_ok_neutral [OF sok(2)]) (use es in auto)
      show "row_ok (s\<lparr>se_lastSequenceId := se_lastSequenceId s + int (length es), se_updatedAt := w_now w\<rparr>)"
        using sok(1) by (simp add: row_ok_def machine_of_def)
    qed (simp_all add: w' bump_def)
    then show ?thesis by (simp add: w' bump_def extends_def)
  qed
qed

section \<open>A transition\<close>

lemma transition_context_machine:
  "transition_context s cc = machine_context (machine_of s) (cc_attempt cc) (cc_maxAttempts cc)"
  by (simp add: transition_context_def machine_context_def machine_of_def)

lemma moved_session_columns:
  "se_state (moved_session t u n s) = up_state u"
  "se_previousState (moved_session t u n s) = up_previousState u"
  "se_resumeState (moved_session t u n s) = up_resumeState u"
  "se_grantsRevoked (moved_session t u n s) = or_else (up_grantsRevoked u) (se_grantsRevoked s)"
  "se_killSwitchLatched (moved_session t u n s) = or_else (up_killSwitchLatched u) (se_killSwitchLatched s)"
  "se_lastSequenceId (moved_session t u n s) = se_lastSequenceId s + n"
  "se_generation (moved_session t u n s) = se_generation s"
  "se_pendingPause (moved_session t u n s) = or_else (up_pendingPause u) (se_pendingPause s)"
  by (simp_all add: moved_session_def written_session_def)

lemma recorded_cons:
  "recorded U s r trig opt w u es \<Longrightarrow> es = changed_event U s (tr_to r) trig opt w # tl es"
  by (cases es) (simp_all add: recorded_def)

lemma recorded_types:
  assumes "recorded U s r trig opt w u es"
  shows "typed ''session.ended'' es = (if isTerminal (tr_to r) then 1 else 0)"
    and "typed ''emergency.stop'' es = (if tr_to r = EMERGENCY_STOPPED then 1 else 0)"
    and "\<forall>e\<in>set (tl es). ev_type e \<noteq> ''session.state_changed''"
proof -
  from assms have tl: "map ev_type (tl es) = (if isTerminal (tr_to r) then [''session.ended''] else [])
           @ (if tr_to r = EMERGENCY_STOPPED then [''emergency.stop''] else [])"
    by (simp add: recorded_def)
  have es: "es = changed_event U s (tr_to r) trig opt w # tl es"
    using assms by (rule recorded_cons)
  have hd: "ev_type (changed_event U s (tr_to r) trig opt w) = ''session.state_changed''"
    by (simp add: changed_event_def)
  have types: "map ev_type es = ''session.state_changed'' # map ev_type (tl es)"
    by (subst es) (simp add: hd)
  show "typed ''session.ended'' es = (if isTerminal (tr_to r) then 1 else 0)"
    "typed ''emergency.stop'' es = (if tr_to r = EMERGENCY_STOPPED then 1 else 0)"
    by (simp_all add: typed_types types tl)
  have "\<forall>t\<in>set (map ev_type (tl es)). t \<noteq> ''session.state_changed''"
    unfolding tl by (simp add: ball_Un)
  then show "\<forall>e\<in>set (tl es). ev_type e \<noteq> ''session.state_changed''" by simp
qed

lemma stamp_move_event:
  "ev_payload (stamp sid n (changed_event U s q trig opt w)) = move_payload (se_state s) q trig (op_actor opt)"
  by (simp add: stamp_def changed_event_def)

lemma log_ok_move:
  assumes lg: "log_ok s L" and row: "row_ok s" and rec: "recorded U s r trig opt w u es"
    and nt: "isNonTerminal (se_state s)" and known: "isKnownState (tr_to r)"
    and q: "se_state q = tr_to r" "se_lastSequenceId q = se_lastSequenceId s + int (length es)"
  shows "log_ok q (L @ stamped sid (se_lastSequenceId s + 1) es)"
proof -
  have old: "\<not> isTerminal (se_state s)" "se_state s \<noteq> EMERGENCY_STOPPED"
    using nt groups_disjoint by (auto simp: isTerminal_def TERMINAL_STATES_def)
  have last: "se_lastSequenceId s = int (length L)" using lg by (simp add: log_ok_def)
  have gens: "\<forall>e\<in>set es. ev_generation e = 1" using rec row by (simp add: recorded_def row_ok_def)
  let ?c = "changed_event U s (tr_to r) trig opt w" and ?n = "se_lastSequenceId s + 1"
  have es: "es = ?c # tl es" using rec by (rule recorded_cons)
  have "replay_state (L @ [stamp sid ?n ?c]) = JStr (state_name (tr_to r))"
    unfolding replay_state_append
    by (rule apply_move_event [OF _ stamp_move_event known]) (simp add: changed_event_def)
  then have replay: "replay_state (L @ stamped sid ?n es) = JStr (state_name (tr_to r))"
    using replay_neutral [OF recorded_types(3) [OF rec], of "L @ [stamp sid ?n ?c]" sid "?n + 1"]
    by (subst es) simp
  show ?thesis
    unfolding log_ok_def
  proof (intro conjI)
    show "map ev_sequence_id (L @ stamped sid ?n es)
        = map (\<lambda>k. Some (1 + int k)) [0..<length (L @ stamped sid ?n es)]"
      using lg stamped_numbers [of L sid es] by (simp add: last log_ok_def stamped_facts)
    show "replay_state (L @ stamped sid ?n es) = JStr (state_name (se_state q))"
      using replay q by simp
    show "\<forall>e\<in>set (L @ stamped sid ?n es). ev_generation e = 1"
      using lg gens stamped_generations [of sid ?n es "\<lambda>g. g = 1"] by (auto simp: log_ok_def)
  qed (use lg q old last recorded_types [OF rec] in
      \<open>simp_all add: log_ok_def stamped_facts stamped_types\<close>)
qed

lemma row_ok_move:
  assumes row: "row_ok s" and rec: "recorded U s r trig opt w u es"
    and tr: "transitionOperatorState (se_state s) trig (transition_context s (op_context opt)) = Inr r"
    and known: "isKnownState (tr_to r)" and att: "0 \<le> se_attempt (moved_session t u n s)"
  shows "row_ok (moved_session t u n s)"
proof -
  have old: "\<not> isTerminal (se_state s)" "se_state s \<noteq> EMERGENCY_STOPPED"
    using transition_from_nonterminal [OF tr] groups_disjoint
    by (auto simp: isTerminal_def TERMINAL_STATES_def)
  have "machine_step (machine_of s) trig (machine_after r)"
    by (rule machine_step.fire) (use tr in \<open>simp add: transition_context_machine, simp add: machine_of_def\<close>)
  moreover have "machine_of (moved_session t u n s) = machine_after r"
    using rec by (simp add: machine_of_def machine_after_def moved_session_columns recorded_def)
  ultimately have "machine_reachable (machine_of (moved_session t u n s))"
    using row by (auto simp: row_ok_def intro: machine_reachable.step)
  with assms old show ?thesis
    by (simp add: row_ok_def moved_session_columns recorded_def)
qed

lemma ids_from_drawn:
  assumes "ids_from U m n es" shows "\<forall>e\<in>set es. drawn U n e"
proof
  fix e assume "e \<in> set es"
  then have "ev_event_id e \<in> set (map ev_event_id es)" by simp
  moreover from assms obtain ks where "map ev_event_id es = map (\<lambda>k. ''evt_'' @ U k) ks"
    "set ks \<subseteq> {m..<n}" by (auto simp: ids_from_def)
  ultimately obtain k where "k \<in> set ks" "ev_event_id e = ''evt_'' @ U k" by auto
  with \<open>set ks \<subseteq> _\<close> have "k < n" by auto
  with \<open>ev_event_id e = _\<close> show "drawn U n e" unfolding drawn_def by blast
qed

lemma transition_once_ok:
  assumes ok: "world_ok U w" and s: "getSession w sid = Some s"
  shows "world_ok U (fst (transition_once U s trig opt w)) \<and>
         w_fresh w \<le> w_fresh (fst (transition_once U s trig opt w)) \<and>
         extends w (fst (transition_once U s trig opt w))"
proof -
  obtain w' x where o1: "transition_once U s trig opt w = (w', x)" by fastforce
  show ?thesis
  proof (cases x)
    case (Inl e)
    with o1 obtain n where "w' = later n w" using transition_once_Inl by blast
    with o1 ok show ?thesis by (auto intro: world_ok_unrelated extends_same)
  next
    case (Inr p)
    from o1 have "transition_once U s trig opt w = (w', Inr p)" unfolding Inr .
    then obtain r n u es s' st where
      tr: "transitionOperatorState (se_state s) trig (transition_context s (op_context opt)) = Inr r"
      and rec: "recorded U s r trig opt w u es" and ids: "ids_from U (w_fresh w) (w_fresh w + n) es"
      and app: "applyTransition (se_id s) u es (later n w) = (w', Inr (s', st))"
      by (rule transition_once_Inr)
    have sid: "se_id s = sid" using s getSession_id by blast
    from app obtain s0 where s0: "getSession (later n w) (se_id s) = Some s0" "isKnownState (up_state u)"
      "0 \<le> se_attempt s'" "s' = moved_session (w_now (later n w)) u (int (length es)) s0"
      "w' = (later n w)\<lparr>w_sessions := update_where (\<lambda>r. se_id r = se_id s)
                (moved_session (w_now (later n w)) u (int (length es))) (w_sessions (later n w)),
            w_events := w_events (later n w) @ stamped (se_id s) (se_lastSequenceId s0 + 1) es\<rparr>"
      by (rule applyTransition_Inr) blast
    have known: "isKnownState (tr_to r)" using s0(2) rec by (simp add: recorded_def)
    have s0s: "s0 = s" using s0(1) s sid by simp
    note sok = world_ok_session [OF ok s]
    have dr: "\<forall>e\<in>set es. drawn U (w_fresh w + n) e"
      using ids by (rule ids_from_drawn)
    have "world_ok U w'"
    proof (rule world_ok_write [OF ok s])
      show "\<forall>e\<in>set (stamped sid (se_lastSequenceId s + 1) es). ev_session_id e = sid \<and> drawn U (w_fresh w') e"
        unfolding stamped_drawn using dr by (simp add: s0(5))
      show "row_ok (moved_session (w_now w) u (int (length es)) s)"
        by (rule row_ok_move [OF sok(1) rec tr known]) (use s0(3,4) s0s in simp)
      show "log_ok (moved_session (w_now w) u (int (length es)) s)
              (log w sid @ stamped sid (se_lastSequenceId s + 1) es)"
        by (rule log_ok_move [OF sok(2,1) rec transition_from_nonterminal [OF tr] known])
           (use rec in \<open>simp_all add: moved_session_columns recorded_def\<close>)
    qed (simp_all add: s0(5) s0s sid)
    with o1 show ?thesis by (simp add: s0(5) extends_def)
  qed
qed

lemma transition_ok:
  assumes "world_ok U w"
  shows "world_ok U (fst (transition U sid trig opt w))
         \<and> w_fresh w \<le> w_fresh (fst (transition U sid trig opt w))
         \<and> extends w (fst (transition U sid trig opt w))"
  using assms
proof (induction U sid trig opt w rule: transition.induct)
  case (1 U sid trig opt w)
  show ?case
  proof (cases "getSession w sid")
    case None
    with "1.prems" show ?thesis by (simp add: transition.simps [of U sid trig opt w] extends_same)
  next
    case (Some s)
    obtain w' x where o1: "transition_once U s trig opt w = (w', x)" by fastforce
    with transition_once_ok [OF "1.prems" Some, of trig opt]
    have ok': "world_ok U w'" "w_fresh w \<le> w_fresh w'" "extends w w'" by simp_all
    show ?thesis
    proof (cases x)
      case (Inl e)
      with Some o1 ok' show ?thesis by (simp add: transition.simps [of U sid trig opt w])
    next
      case (Inr p)
      show ?thesis
      proof (cases "se_pendingPause s \<and> isPausable (tp_to p) \<and> tp_to p \<noteq> PAUSED")
        case True
        have "world_ok U (fst (transition U sid ''pause'' (opt\<lparr>op_context := no_call_context\<rparr>) w')) \<and>
            w_fresh w' \<le> w_fresh (fst (transition U sid ''pause'' (opt\<lparr>op_context := no_call_context\<rparr>) w')) \<and>
            extends w' (fst (transition U sid ''pause'' (opt\<lparr>op_context := no_call_context\<rparr>) w'))"
          by (rule "1.IH" [OF Some o1 [symmetric] _ _ ok'(1)]) (use Inr True in auto)
        with extends_trans [OF ok'(3)] Some o1 Inr True ok' show ?thesis
          by (simp add: transition.simps [of U sid trig opt w])
      next
        case False
        then have "transition U sid trig opt w = (w', Inr p)"
          by (simp only: transition.simps [of U sid trig opt w] Some o1 Inr option.case prod.case
              sum.case if_False)
        with ok' show ?thesis by simp
      qed
    qed
  qed
qed

section \<open>The building blocks of a method\<close>

text \<open>
  A method is a chain of \<open>andThen\<close>; one rule per link carries the invariant along.
\<close>

named_theorems keeps

definition kept :: "uuid_supply \<Rightarrow> world \<Rightarrow> world \<Rightarrow> bool" where
  "kept U w w' \<longleftrightarrow> world_ok U w' \<and> w_fresh w \<le> w_fresh w' \<and> extends w w'"

lemma kept_refl [simp]: "world_ok U w \<Longrightarrow> kept U w w"
  by (simp add: kept_def extends_same)

lemma kept_trans: "kept U a b \<Longrightarrow> kept U b c \<Longrightarrow> kept U a c"
  by (auto simp: kept_def intro: extends_trans)

lemma kept_tick: "kept U w w1 \<Longrightarrow> kept U w (tick w1)"
  by (auto simp: kept_def extends_def) (simp_all add: tick_def)

lemma kept_unrelated: "kept U w w1 \<Longrightarrow> unrelated w1 w2 \<Longrightarrow> kept U w w2"
  by (auto simp: kept_def unrelated_def extends_def intro: world_ok_unrelated)

lemma keeps_andThen:
  assumes "kept U w (fst o1)"
    and "\<And>w1 a. o1 = (w1, Inr a) \<Longrightarrow> kept U w w1 \<Longrightarrow> kept U w (fst (f w1 a))"
  shows "kept U w (fst (andThen o1 f))"
proof -
  obtain w1 r where o1: "o1 = (w1, r)" by (cases o1)
  show ?thesis
  proof (cases r)
    case (Inl e)
    with assms(1) show ?thesis by (simp add: o1)
  next
    case (Inr a)
    with assms(1) have "kept U w (fst (f w1 a))" by (intro assms(2)) (simp_all add: o1)
    with Inr show ?thesis by (simp add: o1)
  qed
qed

lemma keeps_parsed:
  assumes "kept U w w1" and "\<And>v. kept U w (fst (f w1 v))"
  shows "kept U w (fst (andThen (parsed r w1) f))"
proof (cases r)
  case (Some v)
  then show ?thesis using assms(2) [of v] by (simp add: parsed_def)
qed (use assms(1) in \<open>simp add: parsed_def\<close>)

lemma keeps_the_session:
  assumes "kept U w w1" and "\<And>s. getSession w1 sid = Some s \<Longrightarrow> se_generation s = 1 \<Longrightarrow> se_id s = sid \<Longrightarrow> kept U w (fst (f w1 s))"
  shows "kept U w (fst (andThen (the_session sid w1) f))"
proof (cases "getSession w1 sid")
  case (Some s)
  have "world_ok U w1" using assms(1) by (simp add: kept_def)
  with Some world_ok_session(3,4) have "se_id s = sid" "se_generation s = 1" by blast+
  then show ?thesis using assms(2) [OF Some] by (simp add: the_session_def Some)
qed (use assms(1) in \<open>simp add: the_session_def\<close>)

lemma keeps_emit:
  assumes "kept U w w1" and "isKnownEventType ty" and "kept U w (fst (f (tick w1) (built U w1 sid g ty c p)))"
  shows "kept U w (fst (andThen (emit U sid g ty c p w1) f))"
  using assms by (simp add: emit_known)

lemma keeps_append:
  assumes "kept U w w1" and "\<forall>e\<in>set es. neutral e \<and> drawn U (w_fresh w1) e"
    and "\<And>w2 st. kept U w w2 \<Longrightarrow> w_fresh w1 \<le> w_fresh w2 \<Longrightarrow> kept U w (fst (f w2 st))"
  shows "kept U w (fst (andThen (repo (appendEvents sid es w1)) f))"
proof -
  obtain w2 r where a: "appendEvents sid es w1 = (w2, r)" by fastforce
  from appendEvents_ok [OF _ assms(2) a] assms(1) have "kept U w w2" "w_fresh w2 = w_fresh w1"
    by (auto simp: kept_def intro: extends_trans)
  with assms(3) [of w2] show ?thesis
    by (cases r) (simp_all add: a repo_def)
qed

lemma keeps_append_last:
  assumes "kept U w w1" and "\<forall>e\<in>set es. neutral e \<and> drawn U (w_fresh w1) e"
  shows "kept U w (fst (repo (appendEvents sid es w1)))"
  using keeps_append [OF assms, of "\<lambda>w a. (w, Inr a)" sid] by (simp del: split_paired_All)

lemma keeps_transition:
  assumes "kept U w w1" and "\<And>w2 p. kept U w w2 \<Longrightarrow> kept U w (fst (f w2 p))"
  shows "kept U w (fst (andThen (transition U sid trig opt w1) f))"
proof (rule keeps_andThen)
  show k: "kept U w (fst (transition U sid trig opt w1))"
    using transition_ok [of U w1 sid trig opt] assms(1) by (auto simp: kept_def intro: extends_trans)
  show "kept U w (fst (f w2 p))" if "transition U sid trig opt w1 = (w2, Inr p)" "kept U w w2" for w2 p
    using that(2) by (rule assms(2))
qed

lemma keeps_transition_last:
  "kept U w w1 \<Longrightarrow> kept U w (fst (transition U sid trig opt w1))"
  using transition_ok [of U w1 sid trig opt] by (auto simp: kept_def intro: extends_trans)

lemma keeps_repo:
  assumes "kept U w w1" and "unrelated w1 (fst r)"
    and "\<And>w2 a. r = (w2, Inr a) \<Longrightarrow> kept U w w2 \<Longrightarrow> w_fresh w1 \<le> w_fresh w2 \<Longrightarrow> kept U w (fst (f w2 a))"
  shows "kept U w (fst (andThen (repo r) f))"
proof (rule keeps_andThen)
  show "kept U w (fst (repo r))"
    using kept_unrelated [OF assms(1,2)] by (simp add: repo_def)
  show "kept U w (fst (f w2 a))" if "repo r = (w2, Inr a)" "kept U w w2" for w2 a
    using that assms(2) by (intro assms(3)) (auto simp: repo_def result_simps unrelated_def)
qed

lemma keeps_repo_last: "kept U w w1 \<Longrightarrow> unrelated w1 (fst r) \<Longrightarrow> kept U w (fst (repo r))"
  by (simp add: repo_def kept_unrelated)

lemma drawn_built [simp]:
  "w_fresh w < n \<Longrightarrow> drawn U n (built U w sid g ty c p)"
  by (auto simp: drawn_def next_uuid_def)

lemma neutral_built [simp]:
  "neutral (built U w sid g ty c p) \<longleftrightarrow>
     ty \<notin> {''session.state_changed'', ''session.ended'', ''emergency.stop''} \<and> g = 1"
  by (simp add: neutral_def)

lemma tick_tables [simp]:
  "w_fresh (tick w) = Suc (w_fresh w)" "w_events (tick w) = w_events w"
  "w_sessions (tick w) = w_sessions w" "getSession (tick w) sid = getSession w sid"
  by (simp_all add: tick_def getSession_def)

section \<open>The repository's other statements\<close>

lemma unrelated_transaction:
  "unrelated w (fst (f w)) \<Longrightarrow> unrelated w (fst (transaction f w))"
  by (auto simp: transaction_def split: prod.splits sum.splits)

lemma unrelated_createCommand: "unrelated w (fst (createCommand U sid corr ty t a w))"
  by (simp add: createCommand_def Let_def unrelated_def tick_def plans_ok_def)

lemma unrelated_updatePlanStatus: "unrelated w (fst (updatePlanStatus p st w))"
  by (auto simp: updatePlanStatus_def Let_def unrelated_def plans_ok_def update_where_def)

lemma keeps_updatePlanStatus: "kept U w w1 \<Longrightarrow> kept U w (fst (repo (updatePlanStatus p st w1)))"
  by (erule keeps_repo_last) (rule unrelated_updatePlanStatus)

lemma unrelated_insert_plan_steps: "unrelated w (fst (insert_plan_steps U sid g p is w))"
proof (induction "is" arbitrary: w)
  case (Cons i "is")
  have "unrelated w ((tick w)\<lparr>w_planSteps := rows\<rparr>)" for rows
    by (simp add: unrelated_def tick_def plans_ok_def)
  then have "unrelated w (fst (insert_plan_steps U sid g p is ((tick w)\<lparr>w_planSteps := rows\<rparr>)))" for rows
    using Cons.IH unrelated_trans by blast
  then show ?case
    by (simp add: Let_def)
qed simp

lemma unrelated_createPlan:
  assumes "g = 1" shows "unrelated w (fst (repo_createPlan U sid g i v c steps w))"
proof -
  have "unrelated w ((tick w)\<lparr>w_plans := w_plans w @ [p]\<rparr>)" if "pl_generation p = 1" for p
    using that by (simp add: unrelated_def tick_def plans_ok_def)
  then have "unrelated w (fst (insert_plan_steps U sid g q steps ((tick w)\<lparr>w_plans := w_plans w @ [p]\<rparr>)))"
    if "pl_generation p = 1" for p q
    using that unrelated_insert_plan_steps unrelated_trans by blast
  then show ?thesis
    unfolding repo_createPlan_def
    by (intro unrelated_transaction) (simp add: Let_def assms)
qed

lemma unrelated_recordToolExecution: "unrelated w (fst (recordToolExecution U q w))"
  by (simp add: recordToolExecution_def Let_def unrelated_def tick_def plans_ok_def split: option.splits)

lemma unrelated_finishToolExecution: "unrelated w (fst (finishToolExecution x st r d w))"
  by (simp add: finishToolExecution_def Let_def unrelated_def plans_ok_def)

lemma unrelated_recordVerificationEvidence: "unrelated w (fst (recordVerificationEvidence U s x st e w))"
  by (simp add: recordVerificationEvidence_def Let_def unrelated_def tick_def plans_ok_def)

lemma unrelated_insert_sequence_steps: "unrelated w (fst (insert_sequence_steps q n is w))"
proof (induction "is" arbitrary: n w)
  case (Cons i "is")
  have "unrelated w (w\<lparr>w_sequenceSteps := rows\<rparr>)" for rows by (simp add: unrelated_def plans_ok_def)
  then have "unrelated w (fst (insert_sequence_steps q (n + 1) is (w\<lparr>w_sequenceSteps := rows\<rparr>)))" for rows
    using Cons.IH unrelated_trans by blast
  then show ?case by (simp add: Let_def)
qed simp

lemma unrelated_createSequence: "unrelated w (fst (repo_createSequence U i c w))"
proof -
  have "unrelated w ((tick w)\<lparr>w_sequences := rows\<rparr>)" for rows
    by (simp add: unrelated_def tick_def plans_ok_def)
  then have "unrelated w (fst (insert_sequence_steps q n is ((tick w)\<lparr>w_sequences := rows\<rparr>)))" for q n "is" rows
    using unrelated_insert_sequence_steps unrelated_trans by blast
  then show ?thesis
    unfolding repo_createSequence_def
    by (intro unrelated_transaction) (simp add: Let_def)
qed

lemma unrelated_updateSequence: "unrelated w (fst (repo_updateSequence q i w))"
proof -
  have "unrelated w (w\<lparr>w_sequences := rows, w_sequenceSteps := rows'\<rparr>)" for rows rows'
    by (simp add: unrelated_def plans_ok_def)
  then have "unrelated w (fst (insert_sequence_steps q n is (w\<lparr>w_sequences := rows, w_sequenceSteps := rows'\<rparr>)))"
    for n "is" rows rows'
    using unrelated_insert_sequence_steps unrelated_trans by blast
  then show ?thesis
    unfolding repo_updateSequence_def
    by (intro unrelated_transaction) (simp add: Let_def split: option.splits)
qed

lemma unrelated_deleteSequence: "unrelated w (fst (repo_deleteSequence q w))"
  by (simp add: repo_deleteSequence_def Let_def unrelated_def plans_ok_def)

lemma unrelated_insert_run_steps: "unrelated w (fst (insert_run_steps r ss w))"
proof (induction ss arbitrary: w)
  case (Cons s ss)
  have "unrelated w (w\<lparr>w_runSteps := rows\<rparr>)" for rows by (simp add: unrelated_def plans_ok_def)
  then have "unrelated w (fst (insert_run_steps r ss (w\<lparr>w_runSteps := rows\<rparr>)))" for rows
    using Cons.IH unrelated_trans by blast
  then show ?case by (simp add: Let_def)
qed simp

lemma unrelated_createSequenceRun: "unrelated w (fst (createSequenceRun U q sid d w))"
proof -
  have "unrelated w ((tick w)\<lparr>w_runs := rows\<rparr>)" for rows by (simp add: unrelated_def tick_def plans_ok_def)
  then have "unrelated w (fst (insert_run_steps r ss ((tick w)\<lparr>w_runs := rows\<rparr>)))" for r ss rows
    using unrelated_insert_run_steps unrelated_trans by blast
  then show ?thesis
    unfolding createSequenceRun_def
    by (intro unrelated_transaction) (simp add: Let_def)
qed

lemma unrelated_updateSequenceRun: "unrelated w (fst (updateSequenceRun r st c e w))"
  by (simp add: updateSequenceRun_def Let_def unrelated_def plans_ok_def)

lemma unrelated_setSequenceRunStep: "unrelated w (fst (setSequenceRunStep r k st res e w))"
  by (simp add: setSequenceRunStep_def Let_def unrelated_def plans_ok_def split: option.splits)

lemmas unrelated_statements =
  unrelated_createCommand unrelated_updatePlanStatus unrelated_createPlan
  unrelated_recordToolExecution unrelated_finishToolExecution unrelated_recordVerificationEvidence
  unrelated_createSequence unrelated_updateSequence unrelated_deleteSequence
  unrelated_createSequenceRun unrelated_updateSequenceRun unrelated_setSequenceRunStep

section \<open>Every method keeps the invariant\<close>

lemma repo_createSession_ok:
  assumes "world_ok U w"
  shows "kept U w (fst (repo_createSession U m c a w))"
proof -
  define s where "s = new_session (next_uuid U w) (w_now w) m c a"
  define w1 where "w1 = (tick w)\<lparr>w_sessions := w_sessions w @ [s]\<rparr>"
  have cols: "se_id s = next_uuid U w" "se_state s = IDLE" "se_generation s = 1"
    by (simp_all add: s_def new_session_def)
  have "machine_of s = machine_init"
    by (simp add: s_def new_session_def machine_of_def machine_init_def)
  then have row: "row_ok s"
    using machine_reachable.start by (simp add: row_ok_def s_def new_session_def state_groups)
  have new: "world_ok U w1" if fresh: "next_uuid U w \<notin> se_id ` set (w_sessions w)"
  proof -
    have "ev_session_id e \<noteq> next_uuid U w" if "e \<in> set (w_events w)" for e
      using assms that fresh getSession_None [of w "next_uuid U w"] by (auto simp: world_ok_def)
    then have "log w1 (se_id s) = []" by (auto simp: log_def w1_def cols filter_empty_conv)
    then have lg: "log_ok s (log w1 (se_id s))"
      by (simp add: log_ok_def replay_state_def typed_def s_def new_session_def state_groups)
    have "log w1 sid = log w sid" for sid by (simp add: log_def w1_def)
    moreover have "getSession w x \<noteq> None \<Longrightarrow> getSession w1 x \<noteq> None" for x
      using getSession_None [of w x] getSession_None [of w1 x] by (auto simp: w1_def)
    ultimately show ?thesis
      using assms fresh row lg
      by (auto simp: world_ok_def w1_def cols plans_ok_def tick_def intro: drawn_mono)
  qed
  show "kept U w (fst (repo_createSession U m c a w))"
    using new world_ok_tick [OF assms]
    by (simp add: repo_createSession_def Let_def kept_def s_def w1_def extends_def)
qed

lemma repo_createSession_generation:
  "repo_createSession U m c a w = (w', Inr s) \<Longrightarrow> se_generation s = 1"
  by (auto simp: repo_createSession_def Let_def new_session_def split: if_splits)

lemma createSession_keeps:
  assumes "kept U w w1"
  shows "kept U w (fst (createSession U K m c a w1))"
  unfolding createSession_def
proof (rule keeps_parsed [OF assms], rule keeps_andThen)
  fix inp :: "string \<times> string list"
  have ok: "world_ok U w1" using assms by (simp add: kept_def)
  show "kept U w (fst (repo (repo_createSession U (fst inp) (snd inp) a w1)))"
    using kept_trans [OF assms repo_createSession_ok [OF ok]] by (simp add: repo_def)
  fix w2 s
  assume r: "repo (repo_createSession U (fst inp) (snd inp) a w1) = (w2, Inr s)" and k: "kept U w w2"
  from r have "se_generation s = 1"
    unfolding repo_def map_error_Inr_iff by (rule repo_createSession_generation)
  then show "kept U w (fst (andThen (emit U (se_id s) (se_generation s) ''session.started'' None
      (JObj [(''mode'', JStr (se_mode s))]) w2) (\<lambda>w3 ev.
      andThen (repo (appendEvents (se_id s) [ev] w3)) (\<lambda>w4 stored. (w4, Inr (s, stored))))))"
    by (intro keeps_emit keeps_append) (simp_all add: k kept_tick)
qed

lemma createSession_generation:
  assumes "createSession U K m c a w = (w', Inr (s, es))"
  shows "se_generation s = 1"
proof -
  have "\<exists>mm cc w1 w2. repo_createSession U mm cc a w1 = (w2, Inr s)"
    using assms unfolding createSession_def andThen_Inr_iff repo_def map_error_Inr_iff by blast
  then show ?thesis using repo_createSession_generation by blast
qed

lemma submitCommand_keeps:
  assumes "world_ok U w" shows "kept U w (fst (submitCommand U K sid raw w))"
  unfolding submitCommand_def Let_def
proof (rule keeps_parsed [OF kept_refl [OF assms]], rule keeps_the_session [OF kept_refl [OF assms]],
    rule keeps_repo)
  fix inp s
  show "kept U w (tick w)" using assms by (simp add: kept_tick)
  fix w3 and cmd :: command
  assume k: "kept U w w3" and gen: "se_generation s = 1"
  let ?corr = "Some (''cmd_'' @ next_uuid U w)"
  show "kept U w (fst (andThen (emit U sid (se_generation s) ''input.received'' ?corr p w3) (\<lambda>w4 received.
          andThen (case non_blank (ci_text inp) of
                     None \<Rightarrow> (w4, Inr [received])
                   | Some t \<Rightarrow>
                       andThen (emit U sid (se_generation s) ''transcript.final'' ?corr
                                  (JObj [(''text'', JStr t)]) w4) (\<lambda>w5 ev. (w5, Inr [received, ev])))
            (\<lambda>w6 events. andThen (repo (appendEvents sid events w6))
               (\<lambda>w7 stored. (w7, Inr (cmd, stored, ''cmd_'' @ next_uuid U w)))))))" for p
  proof (cases "non_blank (ci_text inp)")
    case None
    show ?thesis
      unfolding None option.case
      by (intro keeps_emit, simp_all add: k gen, intro keeps_append_last) (simp_all add: k gen kept_tick)
  next
    case (Some t)
    show ?thesis
      unfolding Some option.case
      by (intro keeps_emit, simp_all add: k gen emit_known, intro keeps_append_last)
         (simp_all add: k gen kept_tick)
  qed
qed (simp_all add: unrelated_statements)

lemma pause_keeps:
  assumes "world_ok U w" shows "kept U w (fst (pause U sid actor corr reason w))"
  unfolding pause_def Let_def
proof (rule keeps_the_session [OF kept_refl [OF assms]])
  fix s assume s: "getSession w sid = Some s"
  have "world_ok U (fst (setPendingPause sid True w))" if "pauseRequestPolicy (se_state s) = P_defer"
  proof (rule world_ok_write [OF assms s, where new = "[]"])
    show "row_ok (s\<lparr>se_pendingPause := True, se_updatedAt := w_now w\<rparr>)"
      using world_ok_session(1) [OF assms s] that
      by (simp add: row_ok_def machine_of_def pause_policy_defer)
    show "log_ok (s\<lparr>se_pendingPause := True, se_updatedAt := w_now w\<rparr>) (log w sid @ [])"
      using world_ok_session(2) [OF assms s] by (simp add: log_ok_def)
  qed (simp_all add: setPendingPause_def Let_def)
  then have "kept U w (fst (setPendingPause sid True w))" if "pauseRequestPolicy (se_state s) = P_defer"
    using that by (simp add: kept_def setPendingPause_def Let_def extends_def)
  then show "kept U w (fst (case pauseRequestPolicy (se_state s) of
            P_none \<Rightarrow> (w, Inr (PauseNone s))
          | P_pause \<Rightarrow>
              andThen (transition U sid ''pause'' (options_for actor corr
                  (no_call_context\<lparr>cc_reason := reason, cc_checkpointId := Some (next_uuid U w)\<rparr>)) (tick w))
                (\<lambda>w2 p. (w2, Inr (PausePaused (tp_session p) (next_uuid U w))))
          | P_defer \<Rightarrow> (case setPendingPause sid True w of (w2, s') \<Rightarrow> (w2, Inr (PauseDeferred s')))
          | P_cancel q trig \<Rightarrow>
              andThen (transition U sid trig (options_for actor corr (no_call_context\<lparr>cc_reason := reason\<rparr>)) w)
                (\<lambda>w2 p. (w2, Inr (PauseCancelled p)))))"
    using assms
    by (simp add: kept_tick keeps_transition_last case_prod_beta split: pause_behavior.split)
qed

lemma resume_keeps:
  assumes "world_ok U w" shows "kept U w (fst (resume U sid actor corr granted w))"
  unfolding resume_def
  by (rule keeps_transition [OF kept_refl [OF assms]])
     (auto intro: keeps_transition keeps_transition_last)

lemma cancelSession_keeps:
  "world_ok U w \<Longrightarrow> kept U w (fst (cancelSession U K sid actor corr reason w))"
  unfolding cancelSession_def by (intro keeps_parsed keeps_transition_last) simp_all

lemma emergencyStop_keeps:
  "world_ok U w \<Longrightarrow> kept U w (fst (emergencyStop U K sid actor corr reason src w))"
  unfolding emergencyStop_def by (intro keeps_parsed keeps_transition_last) simp_all

lemma createPlan_keeps:
  assumes "world_ok U w" shows "kept U w (fst (createPlan U K sid corr raw w))"
  unfolding createPlan_def Let_def
proof (rule keeps_parsed [OF kept_refl [OF assms]], rule keeps_the_session [OF kept_refl [OF assms]],
    rule keeps_repo [OF kept_refl [OF assms]], rule unrelated_createPlan, assumption, rule keeps_emit)
  fix s w3 and p :: plan and inp opt
  assume k: "kept U w w3" and gen: "se_generation s = 1"
  show "kept U w (fst (andThen (repo (appendEvents sid [built U w3 sid (se_generation s) ''plan.created'' corr pl] (tick w3)))
          (\<lambda>w5 _. if pn_policyVerdict inp = ''approved'' then
              andThen (transition U sid ''auto_approved'' opt w5) (\<lambda>w6 t.
              andThen (repo (updatePlanStatus (pl_id p) ''executing'' w6)) (\<lambda>w7 _. (w7, Inr (p, tp_session t))))
            else if pn_policyVerdict inp = ''denied'' then
              andThen (transition U sid ''plan_rejected'' opt w5) (\<lambda>w6 t.
              andThen (repo (updatePlanStatus (pl_id p) ''rejected'' w6)) (\<lambda>w7 _. (w7, Inr (p, tp_session t))))
            else andThen (transition U sid ''require_approval'' opt w5) (\<lambda>w6 t. (w6, Inr (p, tp_session t))))))" for pl
  proof (rule keeps_append)
    fix w5 assume "kept U w w5"
    then show "kept U w (fst (if pn_policyVerdict inp = ''approved'' then
              andThen (transition U sid ''auto_approved'' opt w5) (\<lambda>w6 t.
              andThen (repo (updatePlanStatus (pl_id p) ''executing'' w6)) (\<lambda>w7 _. (w7, Inr (p, tp_session t))))
            else if pn_policyVerdict inp = ''denied'' then
              andThen (transition U sid ''plan_rejected'' opt w5) (\<lambda>w6 t.
              andThen (repo (updatePlanStatus (pl_id p) ''rejected'' w6)) (\<lambda>w7 _. (w7, Inr (p, tp_session t))))
            else andThen (transition U sid ''require_approval'' opt w5) (\<lambda>w6 t. (w6, Inr (p, tp_session t)))))"
      by (auto intro!: keeps_transition keeps_repo_last keeps_transition_last simp: unrelated_statements)
  qed (use k gen in \<open>simp_all add: kept_tick\<close>)
qed simp_all

lemma keeps_pending_plan:
  assumes "kept U w w1" and "\<And>p s. pl_generation p = 1 \<Longrightarrow> kept U w (fst (f w1 (p, s)))"
  shows "kept U w (fst (andThen (pending_plan planId w1) f))"
proof -
  have "pl_generation p = 1" if "getPlan w1 planId = Some p" for p
    using that assms(1) find_Some_in [of _ "w_plans w1" p]
    by (auto simp: getPlan_def kept_def world_ok_def plans_ok_def)
  then show ?thesis
    using assms by (simp add: pending_plan_def the_session_def split: option.split)
qed

lemma approvePlan_keeps:
  assumes "world_ok U w" shows "kept U w (fst (approvePlan U K planId actor actorId corr decision w))"
  unfolding approvePlan_def Let_def
  by (intro keeps_parsed [OF kept_refl [OF assms]] keeps_pending_plan [OF kept_refl [OF assms]]
      keeps_emit keeps_append keeps_transition)
     (simp_all add: assms kept_tick keeps_updatePlanStatus)

lemma rejectPlan_keeps:
  assumes "world_ok U w" shows "kept U w (fst (rejectPlan U K planId actor actorId corr reason w))"
  unfolding rejectPlan_def Let_def
  by (intro keeps_parsed [OF kept_refl [OF assms]] keeps_pending_plan [OF kept_refl [OF assms]]
      keeps_emit keeps_append keeps_transition)
     (simp_all add: assms kept_tick keeps_updatePlanStatus)

lemma attempt_step_keeps:
  assumes "kept U w w1" and "se_generation s = 1" and "neutral started" "drawn U (w_fresh w1) started"
  shows "kept U w (fst (attempt_step U run st s results corr started w1))
         \<and> w_fresh w1 \<le> w_fresh (fst (attempt_step U run st s results corr started w1))"
proof (cases "bindR (resolveStepArgs (ss_args st) results (ss_stepKey st)) (\<lambda>args.
             executeSequenceStep (ss_intent st) args s w1)")
  case (Inl e)
  then show ?thesis using assms(1) by (simp add: attempt_step_def)
next
  case (Inr v)
  obtain w2 x where set1:
    "setSequenceRunStep (sr_id run) (ss_stepKey st) ''succeeded'' (Some v) None w1 = (w2, x)" by fastforce
  have u: "unrelated w1 w2"
    using unrelated_setSequenceRunStep [of w1 "sr_id run" "ss_stepKey st" "''succeeded''" "Some v" None]
    by (simp add: set1)
  have k2: "kept U w w2" "w_fresh w1 \<le> w_fresh w2"
    using kept_unrelated [OF assms(1) u] u by (simp_all add: unrelated_def)
  let ?fin = "built U w2 (se_id s) (se_generation s) ''step.finished'' (Some corr) (step_payload run st [(''result'', v)])"
  obtain w3 y where app: "appendEvents (se_id s) [started, ?fin] (tick w2) = (w3, y)" by fastforce
  have "drawn U (w_fresh (tick w2)) started" using assms(4) by (rule drawn_mono) (simp add: k2 le_SucI)
  then have "world_ok U w3 \<and> w_fresh w3 = w_fresh (tick w2) \<and> extends (tick w2) w3"
    using kept_tick [OF k2(1)] assms(2,3) by (intro appendEvents_ok [OF _ _ app]) (simp_all add: kept_def)
  then have k3: "kept U w w3" "w_fresh w1 \<le> w_fresh w3"
    using kept_tick [OF k2(1)] k2(2) by (auto simp: kept_def intro: extends_trans)
  show ?thesis
  proof (cases x)
    case (Inl e)
    with \<open>_ = Inr v\<close> k2 show ?thesis by (simp add: attempt_step_def Let_def set1)
  next
    case (Inr r)
    with \<open>_ = Inr v\<close> k3 show ?thesis by (simp add: attempt_step_def Let_def set1 app)
  qed
qed

lemma keeps_run_write:
  "kept U w w1 \<Longrightarrow> kept U w (fst (repo (updateSequenceRun r st c e w1)))"
  "kept U w w1 \<Longrightarrow> kept U w (fst (repo (setSequenceRunStep r k st res e w1)))"
  by (erule keeps_repo_last, rule unrelated_statements)+

lemma repo_fresh_mono:
  assumes "repo r = (w2, Inr a)" and "unrelated w1 (fst r)"
  shows "w_fresh w1 \<le> w_fresh w2"
  using assms by (auto simp: repo_def result_simps unrelated_def)

lemma run_step_once_keeps:
  assumes k: "kept U w w1" and gen: "se_generation s = 1"
  shows "kept U w (fst (run_step_once U pg run st s results corr w1))"
  unfolding run_step_once_def
proof (rule keeps_emit [OF k], simp, rule keeps_andThen)
  let ?st = "built U w1 (se_id s) (se_generation s) ''step.started'' (Some corr) (step_payload run st [])"
  let ?set = "setSequenceRunStep (sr_id run) (ss_stepKey st)"
  show "kept U w (fst (repo (?set ''running'' None None (tick w1))))"
    by (intro keeps_run_write kept_tick k)
  fix w2 and row :: run_step
  assume r: "repo (?set ''running'' None None (tick w1)) = (w2, Inr row)" and k2: "kept U w w2"
  have fr: "w_fresh (tick w1) \<le> w_fresh w2"
    using r unrelated_setSequenceRunStep by (rule repo_fresh_mono)
  then have st: "neutral ?st" "drawn U (w_fresh w2) ?st" using gen by simp_all
  obtain w3 y where att: "attempt_step U run st s results corr ?st w2 = (w3, y)" by fastforce
  from attempt_step_keeps [OF k2 gen st, of run st results corr] have k3: "kept U w w3" "w_fresh w2 \<le> w_fresh w3"
    by (simp_all add: att)
  show "kept U w (fst (case attempt_step U run st s results corr ?st w2 of
         (w3, Inl (e, results')) \<Rightarrow>
           andThen (repo (?set ''failed'' None
                      (Some (JObj [(''message'', JStr (step_message pg e)), (''code'', step_code e)])) w3))
             (\<lambda>w4 _.
           andThen (emit U (se_id s) (se_generation s) ''step.failed'' (Some corr)
                      (step_payload run st [(''error'', JStr (step_message pg e))]) w4) (\<lambda>w5 failed.
           andThen (repo (appendEvents (se_id s) [?st, failed] w5)) (\<lambda>w6 stored.
             (w6, Inr \<lparr>so_failed = Some e, so_events = stored, so_results = results'\<rparr>))))
       | (w3, Inr (stored, results')) \<Rightarrow>
           (w3, Inr \<lparr>so_failed = None, so_events = stored, so_results = results'\<rparr>)))"
  proof (cases y)
    case (Inr z)
    with att k3 show ?thesis by (simp add: case_prod_beta)
  next
    case (Inl z)
    obtain e results' where z: "z = (e, results')" by (cases z)
    have "kept U w (fst (andThen (repo (?set ''failed'' None er w3)) (\<lambda>w4 _.
           andThen (emit U (se_id s) (se_generation s) ''step.failed'' (Some corr) pl w4) (\<lambda>w5 failed.
           andThen (repo (appendEvents (se_id s) [?st, failed] w5)) (\<lambda>w6 stored.
             (w6, Inr \<lparr>so_failed = Some e, so_events = stored, so_results = results'\<rparr>))))))" for er pl
    proof (rule keeps_andThen)
      show "kept U w (fst (repo (?set ''failed'' None er w3)))" by (intro keeps_run_write k3)
      fix w4 and row :: run_step
      assume r4: "repo (?set ''failed'' None er w3) = (w4, Inr row)" and k4: "kept U w w4"
      have "w_fresh w3 \<le> w_fresh w4"
        using r4 unrelated_setSequenceRunStep by (rule repo_fresh_mono)
      with fr k3(2) have "w_fresh w1 < w_fresh (tick w4)" by simp
      then show "kept U w (fst (andThen (emit U (se_id s) (se_generation s) ''step.failed'' (Some corr) pl w4)
            (\<lambda>w5 failed. andThen (repo (appendEvents (se_id s) [?st, failed] w5)) (\<lambda>w6 stored.
             (w6, Inr \<lparr>so_failed = Some e, so_events = stored, so_results = results'\<rparr>)))))"
        by (intro keeps_emit keeps_append) (simp_all add: k4 kept_tick gen)
    qed
    with att Inl z show ?thesis by simp
  qed
qed

lemma run_loop_keeps:
  "kept U w w1 \<Longrightarrow> se_generation s = 1 \<Longrightarrow> kept U w (fst (run_loop U pg run s corr sts results evs w1))"
proof (induction sts arbitrary: results evs w1)
  case Nil
  then show ?case by (simp add: keeps_run_write)
next
  case (Cons st sts)
  show ?case
    unfolding run_loop.simps
  proof (rule keeps_andThen)
    show "kept U w (fst (run_step_once U pg run st s results corr w1))"
      using Cons.prems by (rule run_step_once_keeps)
    fix w2 o1 assume "kept U w w2"
    then show "kept U w (fst (case so_failed o1 of
         None \<Rightarrow> run_loop U pg run s corr sts (so_results o1) (evs @ so_events o1) w2
       | Some e \<Rightarrow>
           andThen (repo (updateSequenceRun (sr_id run) ''failed'' (Some (ss_stepKey st))
                      (Some (JObj [(''step'', JStr (ss_stepKey st)),
                                   (''message'', JStr (step_message pg e))])) w2)) (\<lambda>w2 r.
             (w2, Inr \<lparr>rr_run = r, rr_session = s, rr_events = evs @ so_events o1\<rparr>))))"
      using Cons.IH Cons.prems(2) by (simp add: keeps_run_write split: option.split)
  qed
qed

lemma startSequenceRun_keeps:
  assumes "kept U w w1" and "se_generation s = 1"
  shows "kept U w (fst (startSequenceRun U pg q s d w1))"
  unfolding startSequenceRun_def Let_def
  by (rule keeps_repo [OF assms(1) unrelated_createSequenceRun], rule keeps_emit)
     (auto intro!: keeps_append run_loop_keeps simp: assms kept_tick)

lemma resumeSequenceRun_keeps:
  assumes k: "kept U w w1"
  shows "kept U w (fst (resumeSequenceRun U pg q rid cf w1))"
proof (cases "getSequenceRunWithSteps w1 rid")
  case (Some rr)
  obtain run rows where rr: "rr = (run, rows)" by (cases rr)
  have "kept U w (fst (andThen (the_session (sr_sessionId run) w1) (\<lambda>w1 s.
            case dropWhile (step_done rows) (snd q) of
              [] \<Rightarrow> andThen (repo (updateSequenceRun rid ''succeeded'' None None w1)) (\<lambda>w2 r.
                  (w2, Inr \<lparr>rr_run = r, rr_session = s, rr_events = []\<rparr>))
            | st # _ \<Rightarrow>
                if isHighRiskStep (Some (ss_risk st)) (ss_intent st) \<and> \<not> cf
                then (w1, Inl (ConfirmationRequired (ss_stepKey st)))
                else andThen (repo (updateSequenceRun rid ''running'' None None w1)) (\<lambda>w2 _.
                  run_loop U pg run s (''run_'' @ rid)
                    (filter (\<lambda>x. \<not> step_done rows x) (snd q)) (done_results rows (snd q)) [] w2))))"
  proof (rule keeps_the_session [OF k])
    fix s :: session assume gen: "se_generation s = 1"
    have run: "kept U w (fst (andThen (repo (updateSequenceRun rid ''running'' None None w1)) (\<lambda>w2 _.
                  run_loop U pg run s (''run_'' @ rid) sts res [] w2)))" for sts res
      by (rule keeps_andThen) (auto intro: keeps_run_write k run_loop_keeps gen)
    show "kept U w (fst (case dropWhile (step_done rows) (snd q) of
              [] \<Rightarrow> andThen (repo (updateSequenceRun rid ''succeeded'' None None w1)) (\<lambda>w2 r.
                  (w2, Inr \<lparr>rr_run = r, rr_session = s, rr_events = []\<rparr>))
            | st # _ \<Rightarrow>
                if isHighRiskStep (Some (ss_risk st)) (ss_intent st) \<and> \<not> cf
                then (w1, Inl (ConfirmationRequired (ss_stepKey st)))
                else andThen (repo (updateSequenceRun rid ''running'' None None w1)) (\<lambda>w2 _.
                  run_loop U pg run s (''run_'' @ rid)
                    (filter (\<lambda>x. \<not> step_done rows x) (snd q)) (done_results rows (snd q)) [] w2)))"
      using run k by (simp add: keeps_run_write split: list.split)
  qed
  then show ?thesis using k by (simp add: resumeSequenceRun_def Some rr)
qed (use k in \<open>simp add: resumeSequenceRun_def\<close>)

lemma findLatestSession_in:
  assumes "findLatestSession w a x = Some s" shows "s \<in> set (w_sessions w)"
proof -
  let ?rows = "sort_key (\<lambda>s. - se_createdAt s)
             (filter (\<lambda>s. (a = None \<or> se_actorId s = a) \<and> (\<not> x \<or> \<not> isTerminal (se_state s))) (w_sessions w))"
  from assms obtain xs where "?rows = s # xs"
    by (cases ?rows) (simp_all add: findLatestSession_def)
  then have "s \<in> set ?rows" by (simp only: list.set_intros)
  then show ?thesis by simp
qed

lemma runSequence_keeps:
  assumes ok: "world_ok U w"
  shows "kept U w (fst (runSequence U K seqId raw actorId w))"
  unfolding runSequence_def
proof (rule keeps_parsed [OF kept_refl [OF ok]])
  fix inp
  have gens: "se_generation s = 1" if "s \<in> set (w_sessions w)" for s
    using that ok by (simp add: world_ok_def row_ok_def)
  have named: "se_generation s = 1" if "getSession w sid = Some s" for sid s
    using getSession_id [OF that] gens by blast
  have latest: "se_generation s = 1" if "findLatestSession w actorId True = Some s" for s
    using findLatestSession_in [OF that] by (rule gens)
  have start: "kept U w (fst (startSequenceRun U (k_pgMessage K) q s d w))" if "se_generation s = 1" for q s d
    using kept_refl [OF ok] that by (rule startSequenceRun_keeps)
  have created: "kept U w (fst (andThen (createSession U K m [] actorId w) (\<lambda>w2 cs.
                         startSequenceRun U (k_pgMessage K) q (fst cs) d w2)))" for m q d
  proof (rule keeps_andThen)
    show "kept U w (fst (createSession U K m [] actorId w))" by (intro createSession_keeps kept_refl ok)
    fix w2 cs assume c: "createSession U K m [] actorId w = (w2, Inr cs)" and k: "kept U w w2"
    obtain s es where cs: "cs = (s, es)" by (cases cs)
    have "se_generation s = 1" using c unfolding cs by (rule createSession_generation)
    with k show "kept U w (fst (startSequenceRun U (k_pgMessage K) q (fst cs) d w2))"
      by (simp add: cs startSequenceRun_keeps)
  qed
  have pick: "se_generation s = 1"
    if "or_opt (case n of Some sid \<Rightarrow> getSession w sid | None \<Rightarrow> None) (findLatestSession w actorId True) = Some s"
    for n s
    using that named latest by (auto simp: or_opt_def split: option.splits)
  show "kept U w (fst (case getSequenceWithSteps w seqId of
         None \<Rightarrow> (w, Inl (SequenceNotFound seqId))
       | Some q \<Rightarrow>
           (case non_blank (ri_resumeRunId inp) of
              Some rid \<Rightarrow> resumeSequenceRun U (k_pgMessage K) q rid (ri_confirmReplay inp) w
            | None \<Rightarrow>
                let named = (case non_blank (ri_sessionId inp) of Some sid \<Rightarrow> getSession w sid | None \<Rightarrow> None)
                in case or_opt named (findLatestSession w actorId True) of
                     Some s \<Rightarrow> startSequenceRun U (k_pgMessage K) q s (ri_dryRun inp) w
                   | None \<Rightarrow>
                       andThen (createSession U K (sq_mode (fst q)) [] actorId w) (\<lambda>w2 cs.
                         startSequenceRun U (k_pgMessage K) q (fst cs) (ri_dryRun inp) w2))))"
    using ok start created pick [of "non_blank (ri_sessionId inp)"] resumeSequenceRun_keeps [OF kept_refl [OF ok]]
    unfolding Let_def
    by (simp split: option.split del: option.case_eq_if)
qed

section \<open>Reachable stores\<close>

lemma rt_step_keeps:
  assumes "rt_step U K w w'" and "world_ok U w" shows "kept U w w'"
  using assms
proof (cases rule: rt_step.cases)
  case (time_passes t)
  with assms(2) show ?thesis
    by (auto simp: kept_def unrelated_def plans_ok_def extends_def intro!: world_ok_unrelated [OF assms(2)])
next
  case (record_execution q)
  with assms(2) unrelated_recordToolExecution show ?thesis by (blast intro: kept_unrelated kept_refl)
next
  case (finish_execution xid status response dur)
  with assms(2) unrelated_finishToolExecution show ?thesis by (blast intro: kept_unrelated kept_refl)
next
  case (record_evidence stepId xid' status evd)
  with assms(2) unrelated_recordVerificationEvidence show ?thesis by (blast intro: kept_unrelated kept_refl)
next
  case (create_sequence inp actorId)
  with assms(2) show ?thesis
    unfolding create_sequence createSequence_def
    by (intro keeps_parsed kept_refl keeps_repo_last [OF kept_refl] unrelated_createSequence)
next
  case (update_sequence seqId inp)
  have "kept U w (fst (andThen (repo (repo_updateSequence seqId i w)) (\<lambda>w2 r.
       case fst r of None \<Rightarrow> (w2, Inl (SequenceNotFound seqId)) | Some q \<Rightarrow> (w2, Inr q))))" for i
    by (rule keeps_repo [OF kept_refl [OF assms(2)] unrelated_updateSequence]) (simp split: option.split)
  then show ?thesis
    unfolding update_sequence updateSequence_def
    by (intro keeps_parsed kept_refl assms(2))
next
  case (delete_sequence seqId)
  have "kept U w (fst (repo_deleteSequence seqId w))"
    by (rule kept_unrelated [OF kept_refl [OF assms(2)] unrelated_deleteSequence])
  then show ?thesis by (simp add: delete_sequence deleteSequence_def case_prod_beta)
qed (simp_all add: assms(2) createSession_keeps keeps_transition_last submitCommand_keeps pause_keeps
      resume_keeps cancelSession_keeps emergencyStop_keeps createPlan_keeps approvePlan_keeps
      rejectPlan_keeps runSequence_keeps)

lemma rt_reachable_ok: "rt_reachable U K w \<Longrightarrow> world_ok U w"
  by (induction rule: rt_reachable.induct) (auto intro: world_ok_empty dest: rt_step_keeps simp: kept_def)

end
