(* ===== verification/OperatorProperties.thy ===== *)
theory OperatorProperties
  imports OperatorInvariants
begin

text \<open>
  The theorems of the operator runtime: the persisted sessions refine the state machine,
  the log is complete and replayable, legal transitions are persisted, the stop is final,
  pausing and resuming return to the interrupted work, and what happens to a pause that
  had to wait. The delivery of events is stated once, for any store with a numbered
  append-only log, and instantiated with the repository.
\<close>

section \<open>Delivery from a numbered, append-only log\<close>

text \<open>
  One polling round of a consumer that remembers the last number it has seen. The server's
  SSE loop (\<open>sendNewEvents\<close>) is this round with a limit of 1000.
\<close>

definition poll ::
  "('w \<Rightarrow> string \<Rightarrow> int \<Rightarrow> nat \<Rightarrow> event list) \<Rightarrow> nat \<Rightarrow> 'w \<Rightarrow> string \<Rightarrow> event list \<times> int \<Rightarrow> event list \<times> int" where
  "poll rd limit w sid c =
     (let es = rd w sid (snd c) limit
      in (fst c @ es, foldl (\<lambda>_ e. or_else (ev_sequence_id e) 0) (snd c) es))"

locale event_log =
  fixes ok :: "'w \<Rightarrow> bool"
    and rows :: "'w \<Rightarrow> string \<Rightarrow> event list"
    and rd :: "'w \<Rightarrow> string \<Rightarrow> int \<Rightarrow> nat \<Rightarrow> event list"
    and step :: "'w \<Rightarrow> 'w \<Rightarrow> bool"
  assumes numbered: "ok w \<Longrightarrow> i < length (rows w sid) \<Longrightarrow> ev_sequence_id (rows w sid ! i) = Some (1 + int i)"
    and rd_after: "ok w \<Longrightarrow> k \<le> length (rows w sid) \<Longrightarrow> rd w sid (int k) limit = take limit (drop k (rows w sid))"
    and step_ok: "ok w \<Longrightarrow> step w w' \<Longrightarrow> ok w'"
    and step_grows: "ok w \<Longrightarrow> step w w' \<Longrightarrow> \<exists>new. rows w' sid = rows w sid @ new"
begin

text \<open>The consumer has a prefix of the log and remembers its length.\<close>

definition in_step :: "'w \<Rightarrow> string \<Rightarrow> event list \<times> int \<Rightarrow> bool" where
  "in_step w sid c \<longleftrightarrow>
     fst c = take (length (fst c)) (rows w sid) \<and> snd c = int (length (fst c)) \<and>
     length (fst c) \<le> length (rows w sid)"

lemma in_step_start: "in_step w sid ([], 0)"
  by (simp add: in_step_def)

lemma last_number:
  assumes "ok w" and "k \<le> length (rows w sid)"
  shows "foldl (\<lambda>_ e. or_else (ev_sequence_id e) 0) (int k) (take n (drop k (rows w sid)))
         = int (length (take (k + n) (rows w sid)))"
proof (cases "take n (drop k (rows w sid)) = []")
  case True
  with assms(2) show ?thesis by auto
next
  case False
  let ?es = "take n (drop k (rows w sid))"
  have fold: "foldl (\<lambda>_ e. or_else (ev_sequence_id e) 0) a xs = or_else (ev_sequence_id (last xs)) 0"
    if "xs \<noteq> []" for a and xs :: "event list"
    using that by (induction xs rule: rev_induct) simp_all
  define m where "m = min (length (rows w sid)) (k + n) - 1"
  have len: "length ?es = min (length (rows w sid) - k) n" by simp
  have m: "k \<le> m" "m < length (rows w sid)" "m + 1 = min (length (rows w sid)) (k + n)"
    using False assms(2) by (auto simp: m_def)
  have "last ?es = ?es ! (length ?es - 1)" using False by (rule last_conv_nth)
  also have "\<dots> = rows w sid ! m"
    using False assms(2) by (simp add: m_def min_def)
  finally have "last ?es = rows w sid ! m" .
  with fold [OF False] numbered [OF assms(1) m(2)] m(3) show ?thesis by simp
qed

lemma poll_in_step:
  assumes "ok w" and "in_step w sid c"
  shows "in_step w sid (poll rd limit w sid c)"
    and "fst (poll rd limit w sid c) = take (length (fst c) + limit) (rows w sid)"
proof -
  obtain got n where c: "c = (got, n)" by (cases c)
  define k where "k = length got"
  from assms(2) have g: "got = take k (rows w sid)" "n = int k" "k \<le> length (rows w sid)"
    by (simp_all add: in_step_def c k_def)
  have es: "rd w sid n limit = take limit (drop k (rows w sid))"
    unfolding g(2) using assms(1) g(3) by (rule rd_after)
  have got': "fst (poll rd limit w sid c) = take (k + limit) (rows w sid)"
    by (simp add: poll_def c es Let_def take_add g(1) [symmetric])
  then show "fst (poll rd limit w sid c) = take (length (fst c) + limit) (rows w sid)"
    by (simp add: c k_def)
  have "snd (poll rd limit w sid c) = int (length (take (k + limit) (rows w sid)))"
    using last_number [OF assms(1) g(3), of limit] by (simp add: poll_def c es [unfolded g(2)] Let_def g(2))
  with got' show "in_step w sid (poll rd limit w sid c)"
    by (simp add: in_step_def min_def)
qed

lemma poll_nothing:
  assumes "ok w" and "in_step w sid (got, n)" and "rd w sid n (Suc limit) = []"
  shows "got = rows w sid"
  using assms rd_after [OF assms(1), of "length got" sid "Suc limit"] by (simp add: in_step_def)

lemma step_in_step:
  assumes "ok w" and "step w w'" and "in_step w sid c"
  shows "in_step w' sid c"
  using step_grows [OF assms(1,2), of sid] assms(3) by (auto simp: in_step_def)

end

section \<open>The repository is such a log\<close>

definition event_rows :: "world \<Rightarrow> string \<Rightarrow> event list" where
  "event_rows w sid = map mapEvent (log w sid)"

lemma log_numbers:
  assumes "world_ok U w"
  shows "map ev_sequence_id (log w sid) = map (\<lambda>k. Some (1 + int k)) [0..<length (log w sid)]"
proof (cases "getSession w sid")
  case None
  have "ev_session_id e \<noteq> sid" if "e \<in> set (w_events w)" for e
  proof
    assume "ev_session_id e = sid"
    with that assms None show False unfolding world_ok_def by blast
  qed
  then have "log w sid = []" by (simp add: log_def filter_empty_conv)
  then show ?thesis by simp
next
  case (Some s)
  from world_ok_session(2) [OF assms this] show ?thesis by (simp add: log_ok_def)
qed

lemma log_number:
  assumes "world_ok U w" and "i < length (log w sid)"
  shows "ev_sequence_id (log w sid ! i) = Some (1 + int i)"
proof -
  have "map ev_sequence_id (log w sid) ! i = map (\<lambda>k. Some (1 + int k)) [0..<length (log w sid)] ! i"
    by (simp only: log_numbers [OF assms(1)])
  with assms(2) show ?thesis by simp
qed

lemma after_position:
  assumes "world_ok U w" and "k \<le> length (log w sid)"
  shows "filter (after_sequence (int k)) (log w sid) = drop k (log w sid)"
proof -
  let ?L = "log w sid"
  have "filter (after_sequence (int k)) (take k ?L) = []"
    using log_number [OF assms(1)]
    by (auto simp: filter_empty_conv in_set_conv_nth after_sequence_def)
  moreover have "filter (after_sequence (int k)) (drop k ?L) = drop k ?L"
    by (rule filter_all_id)
       (use assms(2) log_number [OF assms(1), of "k + i" sid for i] in
         \<open>auto simp: in_set_conv_nth after_sequence_def\<close>)
  moreover have "filter (after_sequence (int k)) ?L
      = filter (after_sequence (int k)) (take k ?L) @ filter (after_sequence (int k)) (drop k ?L)"
    by (simp only: filter_append [symmetric] append_take_drop_id)
  ultimately show ?thesis by simp
qed

lemma listEventsAfter_position:
  assumes "world_ok U w" and "k \<le> length (log w sid)"
  shows "listEventsAfter w sid (int k) limit = take limit (drop k (event_rows w sid))"
proof -
  let ?es = "filter (\<lambda>e. ev_session_id e = sid \<and> after_sequence (int k) e) (w_events w)"
  have es: "?es = drop k (log w sid)"
    using after_position [OF assms] by (simp add: log_def conj_commute)
  have "map (\<lambda>e. or_else (ev_sequence_id e) 0) (log w sid)
      = map (\<lambda>x. or_else x 0) (map ev_sequence_id (log w sid))" by simp
  also have "\<dots> = map (\<lambda>i. 1 + int i) [0..<length (log w sid)]"
    by (simp add: log_numbers [OF assms(1)])
  finally have "sorted (map (\<lambda>e. or_else (ev_sequence_id e) 0) (log w sid))"
    by (simp add: sorted_iff_nth_mono)
  then have "sorted (map (\<lambda>e. or_else (ev_sequence_id e) 0) (drop k (log w sid)))"
    by (simp add: drop_map [symmetric] sorted_wrt_drop)
  then show ?thesis
    by (simp add: listEventsAfter_def es sort_key_id_if_sorted event_rows_def take_map drop_map)
qed

interpretation op_log: event_log "world_ok U" event_rows listEventsAfter "rt_step U K" for U K
proof unfold_locales
  fix w sid i assume "world_ok U w" "i < length (event_rows w sid)"
  then show "ev_sequence_id (event_rows w sid ! i) = Some (1 + int i)"
    by (simp add: event_rows_def log_number)
next
  fix w sid k limit assume "world_ok U w" "k \<le> length (event_rows w sid)"
  then show "listEventsAfter w sid (int k) limit = take limit (drop k (event_rows w sid))"
    by (intro listEventsAfter_position) (simp_all add: event_rows_def)
next
  fix w w' assume "world_ok U w" "rt_step U K w w'"
  with rt_step_keeps show "world_ok U w'" by (auto simp: kept_def)
next
  fix w w' sid assume "world_ok U w" "rt_step U K w w'"
  then have "extends w w'" using rt_step_keeps by (auto simp: kept_def)
  then show "\<exists>new. event_rows w' sid = event_rows w sid @ new"
    by (auto simp: extends_def event_rows_def log_def)
qed

lemma sendNewEvents_poll:
  "poll listEventsAfter 1000 w sid (got, n) = (got @ fst (sendNewEvents w sid n), snd (sendNewEvents w sid n))"
  by (simp add: poll_def sendNewEvents_def eventsAfter_def Let_def)

section \<open>Legal transitions are persisted\<close>

lemma ids_new:
  assumes inj: "inj U" and ok: "world_ok U w" and ids: "ids_from U (w_fresh w) m es"
  shows "distinct (map ev_event_id es)" "e \<in> set es \<Longrightarrow> x \<in> set (w_events w) \<Longrightarrow> ev_event_id x \<noteq> ev_event_id e"
proof -
  from ids obtain ks where ks: "map ev_event_id es = map (\<lambda>k. ''evt_'' @ U k) ks" "distinct ks"
    "set ks \<subseteq> {w_fresh w..<m}" by (auto simp: ids_from_def)
  have i: "inj (\<lambda>k. ''evt_'' @ U k)" using inj by (simp add: inj_def)
  show "distinct (map ev_event_id es)"
    unfolding ks(1) using ks(2) i by (simp add: distinct_map inj_on_def inj_def)
  assume "e \<in> set es" and x: "x \<in> set (w_events w)"
  then have "ev_event_id e \<in> set (map ev_event_id es)" by simp
  then obtain k where k: "k \<in> set ks" "ev_event_id e = ''evt_'' @ U k" unfolding ks(1) by auto
  from ok x obtain j where j: "j < w_fresh w" "ev_event_id x = ''evt_'' @ U j"
    unfolding world_ok_def drawn_def by blast
  have "j \<noteq> k" using j k ks(3) by auto
  then show "ev_event_id x \<noteq> ev_event_id e" using inj j k by (simp add: inj_eq)
qed

lemma transition_once_succeeds:
  assumes ok: "world_ok U w" and inj: "inj U" and s: "getSession w sid = Some s"
    and tr: "transitionOperatorState (se_state s) trig (transition_context s (op_context opt)) = Inr r"
    and known: "isKnownState (tr_to r)" and att: "cc_attempt (op_context opt) = None"
  obtains w' p where "transition_once U s trig opt w = (w', Inr p)"
    "tp_to p = tr_to r" "getSession w' sid = Some (tp_session p)"
    "machine_of (tp_session p) = machine_after r" "\<not> se_pendingPause (tp_session p)"
    "world_ok U w'" "w_plans w' = w_plans w" "w_planSteps w' = w_planSteps w"
proof -
  note sok = world_ok_session [OF ok s]
  obtain n u es where rec: "transition_record U s r trig opt w = (later n w, Inr (u, es))"
    "recorded U s r trig opt w u es" "ids_from U (w_fresh w) (w_fresh w + n) es"
    by (rule transition_record_shape)
  have fresh: "w_fresh (later n w) = w_fresh w + n" by simp
  have "insertable sid (se_lastSequenceId s + 1) es (later n w)"
    unfolding insertable_def
  proof (intro conjI)
    show "0 < se_lastSequenceId s + 1" using sok(2) by (simp add: log_ok_def)
    show "distinct (map ev_event_id es)" using ids_new(1) [OF inj ok rec(3)] .
    show "\<forall>e\<in>set es. 0 < ev_generation e \<and> (\<forall>x\<in>set (w_events (later n w)). ev_event_id x \<noteq> ev_event_id e)"
      using rec(2) sok(4) ids_new(2) [OF inj ok rec(3)] by (simp add: recorded_def)
    show "\<forall>x\<in>set (w_events (later n w)). ev_session_id x = sid
        \<longrightarrow> (\<exists>k<se_lastSequenceId s + 1. ev_sequence_id x = Some k)"
    proof (intro ballI impI)
      fix x assume "x \<in> set (w_events (later n w))" "ev_session_id x = sid"
      then have "x \<in> set (log w sid)" by (simp add: log_def)
      then obtain i where i: "i < length (log w sid)" "x = log w sid ! i" by (auto simp: in_set_conv_nth)
      with log_number [OF ok i(1)] sok(2) show "\<exists>k<se_lastSequenceId s + 1. ev_sequence_id x = Some k"
        by (simp add: log_ok_def)
    qed
  qed (use s in simp)
  moreover have "0 \<le> or_else (up_attempt u) (se_attempt s)"
    using rec(2) att sok(1) by (simp add: recorded_def row_ok_def)
  moreover have "isKnownState (up_state u)" using rec(2) known by (simp add: recorded_def)
  ultimately obtain w' s' xs where app: "applyTransition sid u es (later n w) = (w', Inr (s', xs))"
    using applyTransition_succeeds [of "later n w" sid s u es] s by (metis later_tables(4))
  define p where "p = \<lparr>tp_session = s', tp_events = xs, tp_from = se_state s, tp_to = tr_to r,
      tp_trigger = trig, tp_actor = op_actor opt\<rparr>"
  have once: "transition_once U s trig opt w = (w', Inr p)"
    using tr rec(1) app sok(3) by (simp add: transition_once_def repo_def p_def)
  from app obtain s0 where s0: "getSession (later n w) sid = Some s0"
    "s' = moved_session (w_now (later n w)) u (int (length es)) s0"
    "w_plans w' = w_plans w" "w_planSteps w' = w_planSteps w"
    by (rule applyTransition_Inr) (simp add: later_def)
  have "s0 = s" using s0(1) s by simp
  then have cols: "machine_of s' = machine_after r" "\<not> se_pendingPause s'"
    using s0(2) rec(2) by (auto simp: machine_of_def machine_after_def moved_session_columns recorded_def)
  show ?thesis
    by (rule that [OF once])
       (use cols app applyTransition_session(1) [OF app] transition_once_ok [OF ok s, of trig opt] once s0(3,4) in
         \<open>simp_all add: p_def\<close>)
qed

lemma transition_succeeds:
  assumes "world_ok U w" and "inj U" and "getSession w sid = Some s"
    and "transitionOperatorState (se_state s) trig (transition_context s (op_context opt)) = Inr r"
    and "isKnownState (tr_to r)" and "cc_attempt (op_context opt) = None"
    and np: "\<not> (se_pendingPause s \<and> isPausable (tr_to r))"
  obtains w' p where "transition U sid trig opt w = (w', Inr p)"
    "getSession w' sid = Some (tp_session p)" "machine_of (tp_session p) = machine_after r"
    "\<not> se_pendingPause (tp_session p)" "world_ok U w'" "w_plans w' = w_plans w"
    "w_planSteps w' = w_planSteps w"
proof -
  obtain w' p where once: "transition_once U s trig opt w = (w', Inr p)" "tp_to p = tr_to r"
    "getSession w' sid = Some (tp_session p)" "machine_of (tp_session p) = machine_after r"
    "\<not> se_pendingPause (tp_session p)" "world_ok U w'" "w_plans w' = w_plans w"
    "w_planSteps w' = w_planSteps w"
    by (rule transition_once_succeeds [OF assms(1-6)])
  have "\<not> (se_pendingPause s \<and> isPausable (tp_to p) \<and> tp_to p \<noteq> PAUSED)" using np once(2) by auto
  then have "transition U sid trig opt w = (w', Inr p)"
    by (simp only: transition.simps [of U sid trig opt w] assms(3) once(1) option.case prod.case
        sum.case if_False)
  with once(3-8) that show ?thesis by blast
qed

lemma machine_after_columns:
  "machine_of s = machine_after r \<Longrightarrow>
     se_state s = tr_to r \<and> se_previousState s = Some (cp_previousState (tr_checkpoint r)) \<and>
     se_resumeState s = cp_resumeState (tr_checkpoint r)"
  by (simp add: machine_of_def machine_after_def)

section \<open>The theorems\<close>

text \<open>
  C5: the persisted session refines the state machine. Whatever requests the service has
  served, every session row is a reachable session of the abstract machine: the columns
  \<open>state\<close>, \<open>previous_state\<close> and \<open>resume_state\<close> never come apart, and its flags say
  exactly what the state says.
\<close>

theorem session_refines_machine:
  assumes "rt_reachable U K w" and "getSession w sid = Some s"
  shows "machine_reachable (machine_of s) \<and>
         (se_grantsRevoked s \<longleftrightarrow> isTerminal (se_state s)) \<and>
         (se_killSwitchLatched s \<longleftrightarrow> se_state s = EMERGENCY_STOPPED) \<and>
         (se_pendingPause s \<longrightarrow> se_state s = THINKING \<or> se_state s = PLANNING)"
  using world_ok_session(1) [OF rt_reachable_ok [OF assms(1)] assms(2)] by (simp add: row_ok_def)

text \<open>
  C6: the log explains the state. Replaying a session's log with the client's own rule
  gives the state the server has stored; the numbers run from 1 without gaps up to the
  stored counter; and the audit records are there once: one end of session exactly when the
  state is terminal, one stop record exactly when it is the emergency stop.
\<close>

theorem log_explains_state:
  assumes "rt_reachable U K w" and "getSession w sid = Some s"
  shows "replay_state (log w sid) = JStr (state_name (se_state s)) \<and>
         map ev_sequence_id (log w sid) = map (\<lambda>k. Some (1 + int k)) [0..<length (log w sid)] \<and>
         se_lastSequenceId s = int (length (log w sid)) \<and>
         typed ''session.ended'' (log w sid) = (if isTerminal (se_state s) then 1 else 0) \<and>
         typed ''emergency.stop'' (log w sid) = (if se_state s = EMERGENCY_STOPPED then 1 else 0)"
  using world_ok_session(2) [OF rt_reachable_ok [OF assms(1)] assms(2)] by (simp add: log_ok_def)

text \<open>A run of the service with one consumer of the SSE endpoint.\<close>

inductive served :: "uuid_supply \<Rightarrow> contracts \<Rightarrow> string \<Rightarrow> world \<Rightarrow> event list \<times> int \<Rightarrow> bool" for U K sid where
  connect: "rt_reachable U K w \<Longrightarrow> served U K sid w ([], 0)"
| request: "served U K sid w c \<Longrightarrow> rt_step U K w w' \<Longrightarrow> served U K sid w' c"
| round: "served U K sid w (got, n) \<Longrightarrow>
    served U K sid w (got @ fst (sendNewEvents w sid n), snd (sendNewEvents w sid n))"

lemma served_in_step:
  "served U K sid w c \<Longrightarrow> world_ok U w \<and> op_log.in_step w sid c"
proof (induction rule: served.induct)
  case (connect w)
  then show ?case using rt_reachable_ok op_log.in_step_start by blast
next
  case (request w c w')
  then show ?case using op_log.step_ok op_log.step_in_step by blast
next
  case (round w got n)
  then show ?case
    using op_log.poll_in_step(1) [of U w sid "(got, n)" 1000] by (simp add: sendNewEvents_poll)
qed



text \<open>Looking up an edge of the table.\<close>

lemma lookup_own:
  "TRANSITIONS s = Some tbl \<Longrightarrow> map_of tbl t = Some tgt \<Longrightarrow> lookup_transition s t = Some tgt"
  by (simp add: lookup_transition_def literal_lookup_def)

lemmas machine_eval = transitionOperatorState_def lookup_transition_def literal_lookup_def
  resolve_target_def state_groups

lemma pausable_facts:
  "isPausable q \<Longrightarrow> isKnownState q \<and> \<not> isTerminal q \<and> q \<noteq> THINKING \<and> q \<noteq> PLANNING"
  by (cases q) (simp_all add: state_groups)

definition sample_uuid :: uuid_supply where
  "sample_uuid n = replicate n CHR ''x''"

lemma sample_uuid_inj: "inj sample_uuid"
  by (rule injI) (metis sample_uuid_def length_replicate)

text \<open>Contracts that accept everything, for the witnesses.\<close>

definition accept_all :: contracts where
  "accept_all =
     \<lparr>k_session = (\<lambda>m c. Some (m, c)), k_command = Some, k_plan = Some, k_decision = Some,
      k_reject = (\<lambda>r. Some (or_else r ''Rejected by operator'')),
      k_cancel = (\<lambda>r. Some (or_else r ''Cancelled by operator'')),
      k_emergency = (\<lambda>r. r), k_sequence = Some, k_run = Some, k_pgMessage = ''constraint''\<rparr>"

text \<open>
  C9: the emergency stop works from every live session. With a reason the schema accepts,
  the call returns, the stored session is \<open>EMERGENCY_STOPPED\<close> with the kill switch latched
  and the grants revoked, and from then on every trigger is refused without any change.
\<close>

theorem emergency_stop_works:
  assumes "rt_reachable U K w" and "inj U" and "getSession w sid = Some s"
    and "\<not> isTerminal (se_state s)" and "k_emergency K (non_blank reason) = Some rsn"
  shows "\<exists>w' p. emergencyStop U K sid actor corr reason src w = (w', Inr p) \<and>
           getSession w' sid = Some (tp_session p) \<and> se_state (tp_session p) = EMERGENCY_STOPPED \<and>
           se_killSwitchLatched (tp_session p) \<and> se_grantsRevoked (tp_session p) \<and>
           (\<forall>trig opt. transition U sid trig opt w' = (w', Inl (TransitionError NoOutboundTransitions)))"
proof -
  have ok: "world_ok U w" using assms(1) by (rule rt_reachable_ok)
  let ?opt = "options_for actor corr (no_call_context\<lparr>cc_reason := Some rsn, cc_source := Some src\<rparr>)"
  have kn: "isKnownState (se_state s)" using world_ok_session(1) [OF ok assms(3)] by (simp add: row_ok_def)
  have tr: "transitionOperatorState (se_state s) ''emergency_stop'' (transition_context s (op_context ?opt))
      = Inr (moved (se_state s) EMERGENCY_STOPPED (transition_context s (op_context ?opt)))" (is "_ = Inr ?r")
    using kn assms(4) by (simp add: transitionOperatorState_def)
  have np: "\<not> (se_pendingPause s \<and> isPausable (tr_to ?r))" by (simp add: state_groups)
  obtain w' p where w': "transition U sid ''emergency_stop'' ?opt w = (w', Inr p)"
    "getSession w' sid = Some (tp_session p)" "machine_of (tp_session p) = machine_after ?r" "world_ok U w'"
    by (rule transition_succeeds [OF ok assms(2,3) tr _ _ np])
       (simp_all add: state_groups options_for_def no_call_context_def)
  have st: "se_state (tp_session p) = EMERGENCY_STOPPED"
    using machine_after_columns [OF w'(3)] by simp
  have row: "row_ok (tp_session p)" using world_ok_session(1) [OF w'(4,2)] .
  have refuse: "transition U sid trig opt w' = (w', Inl (TransitionError NoOutboundTransitions))" for trig opt
    using w'(2) st
    by (simp add: transition.simps [of U sid trig opt w'] transition_once_def transition_terminal
        isTerminal_def TERMINAL_STATES_def)
  have "emergencyStop U K sid actor corr reason src w = (w', Inr p)"
    using w'(1) by (simp add: emergencyStop_def parsed_def assms(5))
  with w'(2) st row refuse show ?thesis by (auto simp: row_ok_def isTerminal_def TERMINAL_STATES_def)
qed

text \<open>A small reachable store for the witnesses: one session, created and idle.\<close>

definition one_session :: world where
  "one_session = fst (createSession sample_uuid accept_all ''operator'' [] None (empty_world 0))"

lemma one_session_reachable: "rt_reachable sample_uuid accept_all one_session"
  unfolding one_session_def by (rule rt_reachable.step [OF rt_reachable.start rt_step.create_session])

definition first_session :: session where
  "first_session = (new_session [] 0 ''operator'' [] None)\<lparr>se_lastSequenceId := 1\<rparr>"

lemmas one_session_eval =
      createSession_def parsed_def accept_all_def repo_def repo_createSession_def
      SESSION_MODES_def empty_world_def next_uuid_def sample_uuid_def emit_known tick_def
      appendEvents_def transaction_def reserveSequence_def getSession_def new_session_def
      insert_event_def event_conflict_def stamp_def built_def update_where_def first_session_def Let_def

lemma one_session_get: "getSession one_session [] = Some first_session"
  by (simp add: one_session_def one_session_eval)

theorem emergency_stop_works_witness:
  "\<exists>w' p. emergencyStop sample_uuid accept_all [] ''operator'' None (Some ''fire'') ''operator'' one_session = (w', Inr p) \<and>
           getSession w' [] = Some (tp_session p) \<and> se_state (tp_session p) = EMERGENCY_STOPPED \<and>
           se_killSwitchLatched (tp_session p) \<and> se_grantsRevoked (tp_session p) \<and>
           (\<forall>trig opt. transition sample_uuid [] trig opt w' = (w', Inl (TransitionError NoOutboundTransitions)))"
  by (rule emergency_stop_works [OF one_session_reachable sample_uuid_inj one_session_get, where rsn = "''fire''"])
     (simp_all add: first_session_def new_session_def state_groups accept_all_def non_blank_def)

text \<open>
  Pausing and resuming return to the interrupted work. From any pausable state the
  pause succeeds and stores the state as the one to resume, under the checkpoint it
  returns; resuming with the authorization granted leads back to exactly that state.
\<close>

theorem pause_resume_returns:
  assumes "rt_reachable U K w" and "inj U" and "getSession w sid = Some s" and "isPausable (se_state s)"
  shows "\<exists>w1 s1 cp w2 p. pause U sid actor corr reason w = (w1, Inr (PausePaused s1 cp)) \<and>
           se_state s1 = PAUSED \<and> se_resumeState s1 = Some (se_state s) \<and>
           resume U sid actor' corr' True w1 = (w2, Inr p) \<and> se_state (tp_session p) = se_state s"
proof -
  have ok: "world_ok U w" using assms(1) by (rule rt_reachable_ok)
  let ?q = "se_state s"
  have np: "\<not> se_pendingPause s"
    using world_ok_session(1) [OF ok assms(3)] pausable_facts [OF assms(4)] by (simp add: row_ok_def)
  have qk: "isKnownState ?q" "\<not> isTerminal ?q"
    using pausable_facts [OF assms(4)] by simp_all
  define cp where "cp = next_uuid U w"
  define o1 where "o1 = options_for actor corr (no_call_context\<lparr>cc_reason := reason, cc_checkpointId := Some cp\<rparr>)"
  define o2 where "o2 = options_for actor' corr' no_call_context"
  have att: "cc_attempt (op_context o1) = None" "cc_attempt (op_context o2) = None"
    by (simp_all add: o1_def o2_def options_for_def no_call_context_def)
  let ?r1 = "moved ?q PAUSED (transition_context s (op_context o1))"
  have t1: "transitionOperatorState ?q ''pause'' (transition_context s (op_context o1)) = Inr ?r1"
    using qk assms(4) by (simp add: transitionOperatorState_def)
  have s0: "getSession (tick w) sid = Some s" using assms(3) by simp
  obtain w1 p1 where a: "transition U sid ''pause'' o1 (tick w) = (w1, Inr p1)"
    "getSession w1 sid = Some (tp_session p1)" "machine_of (tp_session p1) = machine_after ?r1"
    "\<not> se_pendingPause (tp_session p1)" "world_ok U w1"
    by (rule transition_succeeds [OF world_ok_tick [OF ok] assms(2) s0 t1 _ att(1)])
       (simp_all add: np known_states)
  have c1: "se_state (tp_session p1) = PAUSED" "se_resumeState (tp_session p1) = Some ?q"
    using machine_after_columns [OF a(3)] assms(4) by (simp_all add: nextCheckpoint_def)
  let ?x1 = "transition_context (tp_session p1) (op_context o2)"
  have t2: "transitionOperatorState (se_state (tp_session p1)) ''resume_requested'' ?x1
      = Inr (moved PAUSED REAUTHORIZING ?x1)" (is "_ = Inr ?r2")
    by (simp add: c1 machine_eval)
  obtain w2 p2 where b: "transition U sid ''resume_requested'' o2 w1 = (w2, Inr p2)"
    "getSession w2 sid = Some (tp_session p2)" "machine_of (tp_session p2) = machine_after ?r2"
    "\<not> se_pendingPause (tp_session p2)" "world_ok U w2"
    by (rule transition_succeeds [OF a(5) assms(2) a(2) t2 _ att(2)]) (simp_all add: a(4) known_states)
  have c2: "se_state (tp_session p2) = REAUTHORIZING" "se_resumeState (tp_session p2) = Some ?q"
    using machine_after_columns [OF b(3)] c1
    by (simp_all add: nextCheckpoint_def isRecovery_def RECOVERY_STATES_def transition_context_def)
  let ?x2 = "transition_context (tp_session p2) (op_context o2)"
  have t3: "transitionOperatorState (se_state (tp_session p2)) ''reauth_granted'' ?x2
      = Inr (moved REAUTHORIZING RECOVERING ?x2)" (is "_ = Inr ?r3")
    by (simp add: c2 machine_eval)
  obtain w3 p3 where c: "transition U sid ''reauth_granted'' o2 w2 = (w3, Inr p3)"
    "getSession w3 sid = Some (tp_session p3)" "machine_of (tp_session p3) = machine_after ?r3"
    "\<not> se_pendingPause (tp_session p3)" "world_ok U w3"
    by (rule transition_succeeds [OF b(5) assms(2) b(2) t3 _ att(2)]) (simp_all add: b(4) known_states)
  have c3: "se_state (tp_session p3) = RECOVERING" "se_resumeState (tp_session p3) = Some ?q"
    using machine_after_columns [OF c(3)] c2
    by (simp_all add: nextCheckpoint_def isRecovery_def RECOVERY_STATES_def transition_context_def)
  let ?x3 = "transition_context (tp_session p3) (op_context o2)"
  have t4: "transitionOperatorState (se_state (tp_session p3)) ''checkpoint_validated'' ?x3
      = Inr (moved RECOVERING ?q ?x3)" (is "_ = Inr ?r4")
  proof -
    have "cx_resumeState ?x3 = Some ?q" by (simp add: transition_context_def c3)
    with assms(4) show ?thesis
      by (simp add: c3 transitionOperatorState_def lookup_transition_def literal_lookup_def
          resolve_target_def isValidResumeState_def known_states)
         (simp add: state_groups)
  qed
  obtain w4 p4 where d: "transition U sid ''checkpoint_validated'' o2 w3 = (w4, Inr p4)"
    "machine_of (tp_session p4) = machine_after ?r4"
    by (rule transition_succeeds [OF c(5) assms(2) c(2) t4 _ att(2)]) (simp_all add: c(4) qk)
  have "pause U sid actor corr reason w = (w1, Inr (PausePaused (tp_session p1) cp))"
    using a(1) assms(4)
    by (simp add: pause_def the_session_def assms(3) Let_def pause_policy_pause [THEN iffD2] cp_def o1_def)
  moreover have "resume U sid actor' corr' True w1 = (w4, Inr p4)"
    using b(1) c(1) d(1) by (simp add: resume_def o2_def)
  ultimately show ?thesis
    using c1 machine_after_columns [OF d(2)] by fastforce
qed

text \<open>
  A deferred pause takes effect only when the very next transition reaches a pausable
  state. From \<open>PLANNING\<close> with the plan approved the session stops in \<open>PAUSED\<close>; but from
  \<open>THINKING\<close> the step to \<open>PLANNING\<close> clears the request, so the pause is lost although the
  operator was told that it is deferred.
\<close>

theorem deferred_pause:
  assumes "rt_reachable U K w" and "inj U" and "getSession w sid = Some s" and "se_pendingPause s"
    and "cc_attempt (op_context opt) = None"
  shows "(se_state s = THINKING \<longrightarrow>
            (\<exists>w' p. transition U sid ''intent_resolved'' opt w = (w', Inr p) \<and>
                    getSession w' sid = Some (tp_session p) \<and>
                    se_state (tp_session p) = PLANNING \<and> \<not> se_pendingPause (tp_session p))) \<and>
         (se_state s = PLANNING \<longrightarrow>
            (\<exists>w' p. transition U sid ''auto_approved'' opt w = (w', Inr p) \<and>
                    getSession w' sid = Some (tp_session p) \<and>
                    se_state (tp_session p) = PAUSED \<and> se_resumeState (tp_session p) = Some EXECUTING))"
proof (intro conjI impI)
  have ok: "world_ok U w" using assms(1) by (rule rt_reachable_ok)
  let ?x = "transition_context s (op_context opt)"
  {
    assume st: "se_state s = THINKING"
    have tr: "transitionOperatorState (se_state s) ''intent_resolved'' ?x = Inr (moved THINKING PLANNING ?x)"
      by (simp add: st machine_eval)
    obtain w' p where "transition U sid ''intent_resolved'' opt w = (w', Inr p)"
      "getSession w' sid = Some (tp_session p)" "machine_of (tp_session p) = machine_after (moved THINKING PLANNING ?x)"
      "\<not> se_pendingPause (tp_session p)"
      by (rule transition_succeeds [OF ok assms(2,3) tr _ assms(5)]) (simp_all add: state_groups)
    then show "\<exists>w' p. transition U sid ''intent_resolved'' opt w = (w', Inr p) \<and>
                    getSession w' sid = Some (tp_session p) \<and>
                    se_state (tp_session p) = PLANNING \<and> \<not> se_pendingPause (tp_session p)"
      using machine_after_columns by fastforce
  next
    assume st: "se_state s = PLANNING"
    have tr: "transitionOperatorState (se_state s) ''auto_approved'' ?x = Inr (moved PLANNING EXECUTING ?x)"
      by (simp add: st machine_eval)
    obtain w1 p1 where a: "transition_once U s ''auto_approved'' opt w = (w1, Inr p1)" "tp_to p1 = EXECUTING"
      "getSession w1 sid = Some (tp_session p1)" "machine_of (tp_session p1) = machine_after (moved PLANNING EXECUTING ?x)"
      "\<not> se_pendingPause (tp_session p1)" "world_ok U w1"
      by (rule transition_once_succeeds [OF ok assms(2,3) tr _ assms(5)]) (simp_all add: state_groups)
    let ?opt = "opt\<lparr>op_context := no_call_context\<rparr>" and ?y = "transition_context (tp_session p1) no_call_context"
    have st1: "se_state (tp_session p1) = EXECUTING" using machine_after_columns [OF a(4)] by simp
    have tr2: "transitionOperatorState (se_state (tp_session p1)) ''pause'' (transition_context (tp_session p1) (op_context ?opt))
        = Inr (moved EXECUTING PAUSED ?y)"
      by (simp add: st1 machine_eval)
    obtain w' p where b: "transition U sid ''pause'' ?opt w1 = (w', Inr p)"
      "getSession w' sid = Some (tp_session p)" "machine_of (tp_session p) = machine_after (moved EXECUTING PAUSED ?y)"
      by (rule transition_succeeds [OF a(6) assms(2) a(3) tr2])
         (simp_all add: a(5) known_states no_call_context_def)
    have "transition U sid ''auto_approved'' opt w = (w', Inr p)"
      using assms(3,4) a(1,2) b(1)
      by (simp add: transition.simps [of U sid "''auto_approved''" opt w] isPausable_def PAUSABLE_STATES_def)
    then show "\<exists>w' p. transition U sid ''auto_approved'' opt w = (w', Inr p) \<and>
                    getSession w' sid = Some (tp_session p) \<and>
                    se_state (tp_session p) = PAUSED \<and> se_resumeState (tp_session p) = Some EXECUTING"
      using b(2) machine_after_columns [OF b(3)] by (simp add: nextCheckpoint_def isPausable_def PAUSABLE_STATES_def)
  }
qed

section \<open>Witnesses on reachable stores\<close>

text \<open>A session of a reachable store in a given state, with no pause pending.\<close>

definition reachable_in :: "op_state \<Rightarrow> bool" where
  "reachable_in q \<longleftrightarrow>
     (\<exists>w s. rt_reachable sample_uuid accept_all w \<and> getSession w [] = Some s \<and> se_state s = q \<and>
            \<not> se_pendingPause s \<and> w_plans w = [] \<and> w_planSteps w = [])"

lemma one_session_plans: "w_plans one_session = []" "w_planSteps one_session = []"
  "w_executions one_session = []"
  by (simp_all add: one_session_def one_session_eval)

lemma reachable_idle: "reachable_in IDLE"
  unfolding reachable_in_def
  by (intro exI conjI, rule one_session_reachable, rule one_session_get)
     (simp_all add: first_session_def new_session_def one_session_plans)

lemma reachable_edge:
  assumes "reachable_in q" and "\<And>ctx. transitionOperatorState q t ctx = Inr (moved q q' ctx)"
    and "isKnownState q'"
  shows "reachable_in q'"
proof -
  from assms(1) obtain w s where ws: "rt_reachable sample_uuid accept_all w" "getSession w [] = Some s"
    "se_state s = q" "\<not> se_pendingPause s" "w_plans w = []" "w_planSteps w = []"
    unfolding reachable_in_def by blast
  define opt where "opt = options_for ''operator'' None no_call_context"
  let ?r = "moved q q' (transition_context s (op_context opt))"
  have tr: "transitionOperatorState (se_state s) t (transition_context s (op_context opt)) = Inr ?r"
    by (simp add: ws(3) assms(2))
  obtain w' p where w': "transition sample_uuid [] t opt w = (w', Inr p)" "getSession w' [] = Some (tp_session p)"
    "machine_of (tp_session p) = machine_after ?r" "\<not> se_pendingPause (tp_session p)"
    "w_plans w' = w_plans w" "w_planSteps w' = w_planSteps w"
    by (rule transition_succeeds [OF rt_reachable_ok [OF ws(1)] sample_uuid_inj ws(2) tr])
       (simp_all add: assms(3) ws(4) opt_def options_for_def no_call_context_def)
  have "rt_reachable sample_uuid accept_all w'"
    using rt_reachable.step [OF ws(1) rt_step.transition [of sample_uuid accept_all w "[]" t opt]]
    by (simp add: w'(1))
  moreover have "se_state (tp_session p) = q'" using machine_after_columns [OF w'(3)] by simp
  ultimately show ?thesis using w'(2,4-6) ws(5,6) unfolding reachable_in_def by fastforce
qed

lemma reachable_thinking: "reachable_in THINKING"
proof -
  have "reachable_in LISTENING"
    by (rule reachable_edge [OF reachable_idle, of "''start_listening''"]) (simp_all add: machine_eval)
  then have "reachable_in TRANSCRIBING"
    by (rule reachable_edge [of _ "''speech_available''"]) (simp_all add: machine_eval)
  then show ?thesis
    by (rule reachable_edge [of _ "''utterance_finalized''"]) (simp_all add: machine_eval)
qed

lemma reachable_planning: "reachable_in PLANNING"
  by (rule reachable_edge [OF reachable_thinking, of "''intent_resolved''"]) (simp_all add: machine_eval)

lemma reachable_executing: "reachable_in EXECUTING"
  by (rule reachable_edge [OF reachable_planning, of "''auto_approved''"]) (simp_all add: machine_eval)

lemma reachable_stopped: "reachable_in EMERGENCY_STOPPED"
  by (rule reachable_edge [OF reachable_idle, of "''emergency_stop''"]) (simp_all add: machine_eval)

lemma reachable_deferred:
  "\<exists>w s. rt_reachable sample_uuid accept_all w \<and> getSession w [] = Some s \<and> se_state s = THINKING \<and>
         se_pendingPause s"
proof -
  from reachable_thinking obtain w s where ws: "rt_reachable sample_uuid accept_all w"
    "getSession w [] = Some s" "se_state s = THINKING" unfolding reachable_in_def by blast
  let ?w = "fst (pause sample_uuid [] ''operator'' None None w)"
  have "rt_reachable sample_uuid accept_all ?w"
    by (rule rt_reachable.step [OF ws(1) rt_step.pause])
  moreover have "?w = fst (setPendingPause [] True w)"
    using ws(2,3) by (simp add: pause_def the_session_def Let_def pauseRequestPolicy_def state_groups
        case_prod_beta)
  moreover have "getSession (fst (setPendingPause [] True w)) []
      = Some (s\<lparr>se_pendingPause := True, se_updatedAt := w_now w\<rparr>)"
    using ws(2) by (simp add: setPendingPause_def Let_def getSession_def find_update_where)
  ultimately show ?thesis using ws(3) by fastforce
qed

text \<open>The witnesses of the theorems above.\<close>

theorem session_refines_machine_witness:
  "machine_reachable (machine_of first_session) \<and>
   (se_grantsRevoked first_session \<longleftrightarrow> isTerminal (se_state first_session)) \<and>
   (se_killSwitchLatched first_session \<longleftrightarrow> se_state first_session = EMERGENCY_STOPPED)"
  using session_refines_machine [OF one_session_reachable one_session_get] by blast

theorem log_explains_state_witness:
  "replay_state (log one_session []) = JStr (state_name (se_state first_session)) \<and>
   map ev_sequence_id (log one_session []) = map (\<lambda>k. Some (1 + int k)) [0..<length (log one_session [])] \<and>
   se_lastSequenceId first_session = int (length (log one_session [])) \<and>
   typed ''session.ended'' (log one_session []) = (if isTerminal (se_state first_session) then 1 else 0) \<and>
   typed ''emergency.stop'' (log one_session []) =
     (if se_state first_session = EMERGENCY_STOPPED then 1 else 0)"
  by (rule log_explains_state [OF one_session_reachable one_session_get])



theorem pause_resume_returns_witness:
  "\<exists>w s. getSession w [] = Some s \<and> se_state s = EXECUTING \<and>
     (\<exists>w1 s1 cp w2 p. pause sample_uuid [] ''operator'' None None w = (w1, Inr (PausePaused s1 cp)) \<and>
        se_state s1 = PAUSED \<and> se_resumeState s1 = Some (se_state s) \<and>
        resume sample_uuid [] ''operator'' None True w1 = (w2, Inr p) \<and> se_state (tp_session p) = se_state s)"
proof -
  from reachable_executing obtain w s where ws: "rt_reachable sample_uuid accept_all w"
    "getSession w [] = Some s" "se_state s = EXECUTING" unfolding reachable_in_def by blast
  moreover have "isPausable (se_state s)" by (simp add: ws(3) isPausable_def PAUSABLE_STATES_def)
  ultimately show ?thesis
    using pause_resume_returns [OF ws(1) sample_uuid_inj ws(2)] by blast
qed

theorem deferred_pause_witness:
  "\<exists>w s. getSession w [] = Some s \<and> se_state s = THINKING \<and> se_pendingPause s \<and>
     (\<exists>w' p. transition sample_uuid [] ''intent_resolved'' (options_for ''system'' None no_call_context) w = (w', Inr p) \<and>
        getSession w' [] = Some (tp_session p) \<and>
        se_state (tp_session p) = PLANNING \<and> \<not> se_pendingPause (tp_session p))"
proof -
  from reachable_deferred obtain w s where ws: "rt_reachable sample_uuid accept_all w"
    "getSession w [] = Some s" "se_state s = THINKING" "se_pendingPause s" by blast
  have "cc_attempt (op_context (options_for ''system'' None no_call_context)) = None"
    by (simp add: options_for_def no_call_context_def)
  from conjunct1 [OF deferred_pause [OF ws(1) sample_uuid_inj ws(2,4) this]] ws show ?thesis by blast
qed


section \<open>Plans, executions, runs\<close>

lemma appendEvents_keeps_state:
  assumes "appendEvents sid es w = (w', r)" and "getSession w sid' = Some s"
  shows "\<exists>s'. getSession w' sid' = Some s' \<and> se_state s' = se_state s \<and>
           se_pendingPause s' = se_pendingPause s"
proof (cases "es = [] \<or> isl r")
  case True
  then show ?thesis
    using assms appendEvents_Inl [of sid es w w'] by (cases r) (auto simp: appendEvents_def)
next
  case False
  then obtain xs where "appendEvents sid es w = (w', Inr xs)" "es \<noteq> []" using assms(1) by (cases r) auto
  then obtain s0 :: session where "w' = (bump sid (int (length es)) w)
            \<lparr>w_events := w_events w @ stamped sid (se_lastSequenceId s0 + 1) es\<rparr>"
    by (rule appendEvents_Inr) blast
  then have w': "w_sessions w' = update_where (\<lambda>r. se_id r = sid)
      (\<lambda>r. r\<lparr>se_lastSequenceId := se_lastSequenceId r + int (length es), se_updatedAt := w_now w\<rparr>)
      (w_sessions w)"
    by (simp add: bump_def)
  show ?thesis
  proof (cases "sid' = sid")
    case True
    then show ?thesis using assms(2) by (simp add: getSession_def w' find_update_where)
  next
    case False
    then have "getSession w' sid' = getSession w sid'"
      unfolding getSession_def w' by (intro find_update_where_other) auto
    with assms(2) show ?thesis by simp
  qed
qed

lemma transition_reply:
  assumes "transition U sid trig opt w = (w', Inr p)" and "getSession w sid = Some s" and "\<not> se_pendingPause s"
  obtains r where "transitionOperatorState (se_state s) trig (transition_context s (op_context opt)) = Inr r"
    "se_state (tp_session p) = tr_to r" "extends w w'"
proof -
  obtain w1 x where once: "transition_once U s trig opt w = (w1, x)" by fastforce
  with assms have x: "x = Inr p" "w1 = w'"
    by (simp_all add: transition.simps [of U sid trig opt w] split: sum.splits)
  from once [unfolded x] obtain r n u es s' st where
    r: "transitionOperatorState (se_state s) trig (transition_context s (op_context opt)) = Inr r"
    "recorded U s r trig opt w u es" "applyTransition (se_id s) u es (later n w) = (w', Inr (s', st))"
    "p = \<lparr>tp_session = s', tp_events = st, tp_from = se_state s, tp_to = tr_to r, tp_trigger = trig,
          tp_actor = op_actor opt\<rparr>"
    by (rule transition_once_Inr)
  have "se_state s' = tr_to r" using applyTransition_session(2) [OF r(3)] r(2) by (simp add: recorded_def)
  moreover have "extends w w'"
    using r(3) by (rule applyTransition_Inr) (simp add: extends_def)
  ultimately show ?thesis using that r by simp
qed

lemma pending_plan_Inr:
  "pending_plan planId w = (w', Inr (p, s)) \<longleftrightarrow>
     w' = w \<and> getPlan w planId = Some p \<and> pl_status p = ''pending'' \<and>
     getSession w (pl_sessionId p) = Some s \<and> se_state s = AWAITING_APPROVAL"
  by (auto simp: pending_plan_def the_session_def split: option.splits if_splits)

text \<open>
  Execution follows an approval. A call of \<open>approvePlan\<close> that returns has found the
  plan pending and its session awaiting the approval; the session it leaves is executing.
\<close>

theorem approve_requires_pending:
  assumes "rt_reachable U K w"
    and "approvePlan U K planId actor actorId corr decision w = (w', Inr (reply, s'))"
  shows "\<exists>p s. getPlan w planId = Some p \<and> pl_status p = ''pending'' \<and>
           getSession w (pl_sessionId p) = Some s \<and> se_state s = AWAITING_APPROVAL \<and>
           se_state s' = EXECUTING"
proof -
  from assms(2) obtain dec p s w3 ev w4 xs w5 t where
    pend: "pending_plan planId w = (w, Inr (p, s))"
    and em: "emit U (pl_sessionId p) (pl_generation p) ''plan.approved'' corr
                     (JObj [(''plan_id'', JStr (pl_id p)), (''verdict'', JStr dec),
                            (''actor_id'', js_text actorId)]) w = (w3, Inr ev)"
    and app: "appendEvents (pl_sessionId p) [ev] w3 = (w4, Inr xs)"
    and tr: "transition U (pl_sessionId p) (if dec = ''overridden'' then ''policy_override'' else ''approve'')
               (options_for actor corr (plan_context (pl_id p))) w4 = (w5, Inr t)" and s': "s' = tp_session t"
    unfolding approvePlan_def andThen_Inr_iff repo_def map_error_Inr_iff Let_def
    by (auto simp: parsed_def pending_plan_Inr split: option.splits)
  from pend have p: "getPlan w planId = Some p" "pl_status p = ''pending''"
    "getSession w (pl_sessionId p) = Some s" "se_state s = AWAITING_APPROVAL"
    by (simp_all add: pending_plan_Inr)
  have "\<not> se_pendingPause s"
    using world_ok_session(1) [OF rt_reachable_ok [OF assms(1)] p(3)] p(4) by (auto simp: row_ok_def)
  moreover have "w3 = tick w" using em by (simp add: emit_known)
  ultimately obtain s4 where s4: "getSession w4 (pl_sessionId p) = Some s4" "se_state s4 = AWAITING_APPROVAL"
    "\<not> se_pendingPause s4"
    using appendEvents_keeps_state [OF app, of "pl_sessionId p" s] p(3,4) by auto
  let ?t = "if dec = ''overridden'' then ''policy_override'' else ''approve''"
  from tr s4(1,3) obtain r where r: "transitionOperatorState AWAITING_APPROVAL ?t
      (transition_context s4 (plan_context (pl_id p))) = Inr r" "se_state s' = tr_to r"
    by (rule transition_reply) (simp add: s4(2) s' options_for_def)
  have "tr_to r = EXECUTING"
    using r(1) by (cases "dec = ''overridden''") (simp_all add: machine_eval, auto)
  with p r(2) show ?thesis by auto
qed

text \<open>
  Tool executions are idempotent. A second request with the same session, generation
  and idempotency key, whatever its tool and arguments, returns the execution the first
  one stored and adds no row.
\<close>

theorem tool_execution_idempotent:
  assumes "recordToolExecution U q w = (w1, Inr (Some x))"
    and "xq_sessionId q' = xq_sessionId q" "xq_generation q' = xq_generation q"
      "xq_idempotencyKey q' = xq_idempotencyKey q" and "xq_approval q' \<in> set APPROVALS"
  shows "recordToolExecution U q' w1 = (tick w1, Inr (Some x))"
proof -
  have gen: "0 < xq_generation q"
    using assms(1) by (auto simp: recordToolExecution_def split: if_splits)
  have "find_execution w1 (xq_sessionId q) (xq_generation q) (xq_idempotencyKey q) = Some x"
  proof (cases "find_execution w (xq_sessionId q) (xq_generation q) (xq_idempotencyKey q)")
    case (Some y)
    with assms(1) show ?thesis
      by (auto simp: recordToolExecution_def find_execution_def tick_def split: if_splits)
  next
    case None
    with assms(1) have x: "x = new_execution (next_uuid U w) q"
      "w1 = (tick w)\<lparr>w_executions := w_executions w @ [x]\<rparr>"
      by (auto simp: recordToolExecution_def Let_def split: if_splits)
    have "find P (xs @ [y]) = Some y" if "find P xs = None" "P y" for P and xs :: "execution list" and y
      using that by (induction xs) (auto split: if_splits)
    with None show ?thesis
      by (simp add: x find_execution_def) (simp add: new_execution_def)
  qed
  with gen assms(2-5) show ?thesis by (simp add: recordToolExecution_def)
qed

definition sample_request :: execution_request where
  "sample_request =
     \<lparr>xq_sessionId = [], xq_generation = 1, xq_planId = None, xq_stepId = None, xq_tool = ''queue.read'',
      xq_action = None, xq_args = JObj [], xq_risk = None, xq_approval = ''not_required'',
      xq_idempotencyKey = ''k''\<rparr>"

theorem tool_execution_idempotent_witness:
  "recordToolExecution sample_uuid (sample_request\<lparr>xq_tool := ''other''\<rparr>)
     (fst (recordToolExecution sample_uuid sample_request one_session))
   = (tick (fst (recordToolExecution sample_uuid sample_request one_session)),
      Inr (Some (new_execution (next_uuid sample_uuid one_session) sample_request)))"
proof (rule tool_execution_idempotent [of _ sample_request one_session])
  show "recordToolExecution sample_uuid sample_request one_session
      = (fst (recordToolExecution sample_uuid sample_request one_session),
         Inr (Some (new_execution (next_uuid sample_uuid one_session) sample_request)))"
    by (simp add: recordToolExecution_def find_execution_def sample_request_def APPROVALS_def
        one_session_get one_session_plans Let_def)
qed (simp_all add: sample_request_def APPROVALS_def)


text \<open>An event of the service can always be appended to a session's log.\<close>

lemma append_built_succeeds:
  assumes ok: "world_ok U w" and inj: "inj U" and s: "getSession w sid = Some s"
    and nt: "neutral (built U w sid (se_generation s) ty c p)"
  obtains w' xs s' where
    "appendEvents sid [built U w sid (se_generation s) ty c p] (tick w) = (w', Inr xs)"
    "getSession w' sid = Some s'" "se_state s' = se_state s" "se_pendingPause s' = se_pendingPause s"
    "se_generation s' = se_generation s" "world_ok U w'" "w_plans w' = w_plans w"
proof -
  let ?e = "built U w sid (se_generation s) ty c p"
  note sok = world_ok_session [OF ok s]
  have ids: "ids_from U (w_fresh w) (Suc (w_fresh w)) [?e]"
    unfolding ids_from_def by (intro exI [of _ "[w_fresh w]"]) (simp add: next_uuid_def)
  define w1 where "w1 = bump sid 1 (tick w)"
  have "getSession w1 sid = Some (s\<lparr>se_lastSequenceId := se_lastSequenceId s + 1, se_updatedAt := w_now (tick w)\<rparr>)"
    using s by (simp add: w1_def bump_def getSession_def find_update_where)
  moreover have "\<exists>k<se_lastSequenceId s + 1. ev_sequence_id x = Some k"
    if x: "x \<in> set (w_events w)" "ev_session_id x = sid" for x
  proof -
    from x have "x \<in> set (log w sid)" by (simp add: log_def)
    then obtain i where i: "i < length (log w sid)" "x = log w sid ! i" by (auto simp: in_set_conv_nth)
    with log_number [OF ok i(1)] sok(2) show ?thesis by (simp add: log_ok_def)
  qed
  moreover have "0 < se_lastSequenceId s + 1" using sok(2) by (simp add: log_ok_def)
  ultimately have "insertable sid (se_lastSequenceId s + 1) [?e] w1"
    using ids_new(2) [OF inj ok ids] sok(4) by (simp add: insertable_def w1_def bump_def)
  then obtain w' xs where "insert_events sid (se_lastSequenceId s + 1) [?e] w1 = (w', Inr xs)"
    using insert_events_succeeds by blast
  then have app: "appendEvents sid [?e] (tick w) = (w', Inr xs)"
    using s by (simp add: appendEvents_def transaction_def reserveSequence_cases w1_def)
  have dr: "drawn U (w_fresh (tick w)) ?e" by simp
  have ok': "world_ok U w'"
    using appendEvents_ok [OF world_ok_tick [OF ok] _ app] nt dr by simp
  from appendEvents_keeps_state [OF app, of sid s] s obtain s' where
    s': "getSession w' sid = Some s'" "se_state s' = se_state s" "se_pendingPause s' = se_pendingPause s" by auto
  have "w_plans w' = w_plans w"
    using app by (rule appendEvents_Inr) (simp_all add: bump_def tick_def)
  with that app s' ok' world_ok_session(4) [OF ok' s'(1)] sok(4) show ?thesis by simp
qed

lemma insert_plan_steps_plans: "w_plans (fst (insert_plan_steps U sid g p is w)) = w_plans w"
proof (induction "is" arbitrary: w)
  case (Cons i "is")
  have "w_plans (fst (insert_plan_steps U sid g p is ((tick w)\<lparr>w_planSteps := rows\<rparr>))) = w_plans w" for rows
    by (simp add: Cons.IH) (simp add: tick_def)
  then show ?case by (simp add: Let_def) (simp add: tick_def)
qed simp

lemma repo_createPlan_Inr:
  assumes "repo_createPlan U sid g i v c steps w = (w', Inr (p, rows))"
  shows "w_plans w' = w_plans w @ [p]" "pl_status p = ''pending''" "pl_sessionId p = sid" "p \<notin> set (w_plans w)"
proof -
  from assms have "\<exists>x. insert_plan_steps U sid g (pl_id p) steps ((tick w)\<lparr>w_plans := w_plans w @ [p]\<rparr>) = (w', Inr x)
      \<and> pl_status p = ''pending'' \<and> pl_sessionId p = sid \<and> pl_id p \<notin> pl_id ` set (w_plans w)"
    unfolding repo_createPlan_def transaction_Inr_iff Let_def
    by (auto simp: andThen_Inr_iff split: if_splits)
  then obtain x where x: "insert_plan_steps U sid g (pl_id p) steps ((tick w)\<lparr>w_plans := w_plans w @ [p]\<rparr>) = (w', Inr x)"
    "pl_status p = ''pending''" "pl_sessionId p = sid" "pl_id p \<notin> pl_id ` set (w_plans w)" by blast
  then show "pl_status p = ''pending''" "pl_sessionId p = sid" "p \<notin> set (w_plans w)" by auto
  show "w_plans w' = w_plans w @ [p]"
    using insert_plan_steps_plans [of U sid g "pl_id p" steps "(tick w)\<lparr>w_plans := w_plans w @ [p]\<rparr>"] x(1) by simp
qed

lemma plan_triggers_only_planning:
  assumes "isKnownState q" and "q \<noteq> PLANNING"
    and "t = ''auto_approved'' \<or> t = ''plan_rejected'' \<or> t = ''require_approval''"
  shows "isl (transitionOperatorState q t ctx)"
  using assms(3,1,2)
  by (elim disjE; cases q)
     (simp_all add: known_states transitionOperatorState_def lookup_transition_def literal_lookup_def
       object_prototype_keys_def)

text \<open>
  Creating a plan is not atomic. When the session is not planning, the call throws
  after the plan row has been committed: a pending plan stays behind that the session never
  waited for.
\<close>

theorem createPlan_not_atomic:
  assumes "rt_reachable U K w" and "inj U" and "getSession w sid = Some s"
    and "se_state s \<noteq> PLANNING" and "k_plan K raw = Some inp"
    and "repo_createPlan U sid (se_generation s) (pn_intent inp) (pn_policyVerdict inp)
           (pn_estimatedCost inp) (pn_steps inp) w = (w1, Inr (p, rows))"
  shows "\<exists>w' e. createPlan U K sid corr raw w = (w', Inl (TransitionError e)) \<and>
           p \<in> set (w_plans w') \<and> pl_status p = ''pending'' \<and> p \<notin> set (w_plans w)"
proof -
  have ok: "world_ok U w" using assms(1) by (rule rt_reachable_ok)
  note row = world_ok_session [OF ok assms(3)]
  have "unrelated w w1"
    using unrelated_createPlan [OF row(4), of w U sid "pn_intent inp" "pn_policyVerdict inp"
        "pn_estimatedCost inp" "pn_steps inp"] assms(6) by simp
  then have ok1: "world_ok U w1" and s1: "getSession w1 sid = Some s"
    using ok assms(3) by (auto simp: unrelated_def getSession_def intro: world_ok_unrelated)
  let ?pay = "JObj [(''plan_id'', JStr (pl_id p)), (''verdict'', JStr (pn_policyVerdict inp))]"
  obtain w2 xs s2 where app: "appendEvents sid [built U w1 sid (se_generation s) ''plan.created'' corr ?pay] (tick w1)
      = (w2, Inr xs)" and s2: "getSession w2 sid = Some s2" "se_state s2 = se_state s" "w_plans w2 = w_plans w1"
    by (rule append_built_succeeds [OF ok1 assms(2) s1, of "''plan.created''" corr ?pay]) (simp add: row(4), blast)
  have fails: "\<exists>e. transition U sid t opt w2 = (w2, Inl (TransitionError e))"
    if "t = ''auto_approved'' \<or> t = ''plan_rejected'' \<or> t = ''require_approval''" for t opt
  proof -
    have "isKnownState (se_state s2)" "se_state s2 \<noteq> PLANNING"
      using row(1) assms(4) s2(2) by (simp_all add: row_ok_def)
    from plan_triggers_only_planning [OF this that]
    obtain e where "transitionOperatorState (se_state s2) t (transition_context s2 (op_context opt)) = Inl e"
      by (auto simp: isl_def)
    then show ?thesis using s2(1) by (simp add: transition.simps [of U sid t opt w2] transition_once_def)
  qed
  let ?opt = "options_for ''zarvis'' corr (plan_context (pl_id p))"
  obtain e1 where e1: "transition U sid ''auto_approved'' ?opt w2 = (w2, Inl (TransitionError e1))"
    using fails by blast
  obtain e2 where e2: "transition U sid ''plan_rejected'' ?opt w2 = (w2, Inl (TransitionError e2))"
    using fails by blast
  obtain e3 where e3: "transition U sid ''require_approval'' ?opt w2 = (w2, Inl (TransitionError e3))"
    using fails by blast
  have "createPlan U K sid corr raw w = (w2, Inl (TransitionError
      (if pn_policyVerdict inp = ''approved'' then e1 else if pn_policyVerdict inp = ''denied'' then e2 else e3)))"
    by (simp add: createPlan_def parsed_def assms(5) the_session_def assms(3) repo_def assms(6) emit_known app e1 e2 e3 Let_def)
  then show ?thesis
    using repo_createPlan_Inr [OF assms(6)] s2(3) by auto
qed

definition sample_plan :: plan_input where
  "sample_plan =
     \<lparr>pn_intent = ''read'', pn_steps = [], pn_policyVerdict = ''approval_required'', pn_estimatedCost = 0\<rparr>"

text \<open>The plan row that \<open>createPlan\<close> writes first, in a store without plans.\<close>

lemma sample_plan_row:
  assumes "getSession w [] = Some s" and "w_plans w = []" and "se_generation s = 1"
  shows "\<exists>w1 p. repo_createPlan sample_uuid [] (se_generation s) (pn_intent sample_plan)
            (pn_policyVerdict sample_plan) (pn_estimatedCost sample_plan) (pn_steps sample_plan) w = (w1, Inr (p, []))"
  using assms by (simp add: repo_createPlan_def transaction_def Let_def sample_plan_def VERDICTS_def)

lemma accept_sample_plan:
  "k_plan accept_all sample_plan = Some sample_plan"
  by (simp add: accept_all_def)

lemma sample_plan_verdict:
  "pn_policyVerdict sample_plan \<noteq> ''approved''" "pn_policyVerdict sample_plan \<noteq> ''denied''"
  by (simp_all add: sample_plan_def)

theorem createPlan_not_atomic_witness:
  "\<exists>p w' e. createPlan sample_uuid accept_all [] None sample_plan one_session = (w', Inl (TransitionError e)) \<and>
           p \<in> set (w_plans w') \<and> pl_status p = ''pending'' \<and> p \<notin> set (w_plans one_session)"
proof -
  have gen: "se_generation first_session = 1" "se_state first_session \<noteq> PLANNING"
    by (simp_all add: first_session_def new_session_def)
  obtain w1 p where "repo_createPlan sample_uuid [] (se_generation first_session) (pn_intent sample_plan)
      (pn_policyVerdict sample_plan) (pn_estimatedCost sample_plan) (pn_steps sample_plan) one_session = (w1, Inr (p, []))"
    using sample_plan_row [OF one_session_get one_session_plans(1) gen(1)] by blast
  from createPlan_not_atomic [OF one_session_reachable sample_uuid_inj one_session_get gen(2) accept_sample_plan this, of None]
  show ?thesis by blast
qed

text \<open>A reachable store with a plan that awaits its approval.\<close>

lemma reachable_awaiting:
  "\<exists>w p s. rt_reachable sample_uuid accept_all w \<and> getPlan w (pl_id p) = Some p \<and> pl_status p = ''pending'' \<and>
     pl_sessionId p = [] \<and> pl_generation p = 1 \<and>
     getSession w [] = Some s \<and> se_state s = AWAITING_APPROVAL \<and> \<not> se_pendingPause s"
proof -
  from reachable_planning obtain w s where ws: "rt_reachable sample_uuid accept_all w" "getSession w [] = Some s"
    "se_state s = PLANNING" "\<not> se_pendingPause s" "w_plans w = []" unfolding reachable_in_def by blast
  have ok: "world_ok sample_uuid w" using ws(1) by (rule rt_reachable_ok)
  note row = world_ok_session [OF ok ws(2)]
  obtain w1 p where cp: "repo_createPlan sample_uuid [] (se_generation s) (pn_intent sample_plan)
      (pn_policyVerdict sample_plan) (pn_estimatedCost sample_plan) (pn_steps sample_plan) w = (w1, Inr (p, []))"
    using sample_plan_row [OF ws(2,5) row(4)] by blast
  note plan = repo_createPlan_Inr [OF cp]
  have "unrelated w w1"
    using unrelated_createPlan [OF row(4), of w sample_uuid "[]" "pn_intent sample_plan" "pn_policyVerdict sample_plan"
        "pn_estimatedCost sample_plan" "pn_steps sample_plan"] cp by simp
  then have ok1: "world_ok sample_uuid w1" and s1: "getSession w1 [] = Some s"
    using ok ws(2) by (auto simp: unrelated_def getSession_def intro: world_ok_unrelated)
  let ?pay = "JObj [(''plan_id'', JStr (pl_id p)), (''verdict'', JStr (pn_policyVerdict sample_plan))]"
  obtain w2 xs s2 where app: "appendEvents [] [built sample_uuid w1 [] (se_generation s) ''plan.created'' None ?pay] (tick w1)
      = (w2, Inr xs)" and s2: "getSession w2 [] = Some s2" "se_state s2 = se_state s" "se_pendingPause s2 = se_pendingPause s"
      "world_ok sample_uuid w2" "w_plans w2 = w_plans w1"
    by (rule append_built_succeeds [OF ok1 sample_uuid_inj s1, of "''plan.created''" None ?pay])
       (simp add: row(4), blast)
  let ?opt = "options_for ''zarvis'' None (plan_context (pl_id p))"
  let ?x = "transition_context s2 (op_context ?opt)"
  have tr: "transitionOperatorState (se_state s2) ''require_approval'' ?x = Inr (moved PLANNING AWAITING_APPROVAL ?x)"
    by (simp add: s2(2) ws(3) machine_eval)
  obtain w3 t where t: "transition sample_uuid [] ''require_approval'' ?opt w2 = (w3, Inr t)"
    "getSession w3 [] = Some (tp_session t)" "machine_of (tp_session t) = machine_after (moved PLANNING AWAITING_APPROVAL ?x)"
    "\<not> se_pendingPause (tp_session t)" "w_plans w3 = w_plans w2"
    by (rule transition_succeeds [OF s2(4) sample_uuid_inj s2(1) tr])
       (simp_all add: known_states s2(3) ws(4) options_for_def plan_context_def no_call_context_def)
  have "createPlan sample_uuid accept_all [] None sample_plan w = (w3, Inr (p, tp_session t))"
    using t(1) cp
    by (simp add: createPlan_def parsed_def accept_sample_plan sample_plan_verdict the_session_def ws(2) repo_def
        emit_known app Let_def)
  then have "rt_reachable sample_uuid accept_all w3"
    using rt_reachable.step [OF ws(1) rt_step.create_plan [of sample_uuid accept_all w "[]" None sample_plan]] by simp
  moreover have "getPlan w3 (pl_id p) = Some p" using plan(1) ws(5) t(5) s2(5) by (simp add: getPlan_def)
  moreover have "pl_generation p = 1"
    using cp row(4) by (auto simp: repo_createPlan_def transaction_Inr_iff Let_def sample_plan_def split: if_splits)
  ultimately show ?thesis
    using t(2,4) machine_after_columns [OF t(3)] plan(2,3) by fastforce
qed

theorem approve_requires_pending_witness:
  "\<exists>w w' pid reply s'. approvePlan sample_uuid accept_all pid ''operator'' None None ''approved'' w = (w', Inr (reply, s')) \<and>
     (\<exists>p s. getPlan w pid = Some p \<and> pl_status p = ''pending'' \<and>
           getSession w (pl_sessionId p) = Some s \<and> se_state s = AWAITING_APPROVAL \<and> se_state s' = EXECUTING)"
proof -
  from reachable_awaiting obtain w p s where ws: "rt_reachable sample_uuid accept_all w"
    "getPlan w (pl_id p) = Some p" "pl_status p = ''pending''" "pl_sessionId p = []" "pl_generation p = 1"
    "getSession w [] = Some s" "se_state s = AWAITING_APPROVAL" "\<not> se_pendingPause s" by blast
  have ok: "world_ok sample_uuid w" using ws(1) by (rule rt_reachable_ok)
  have gen: "se_generation s = 1" using world_ok_session(4) [OF ok ws(6)] .
  let ?pay = "JObj [(''plan_id'', JStr (pl_id p)), (''verdict'', JStr ''approved''), (''actor_id'', JNull)]"
  obtain w2 xs s2 where app: "appendEvents [] [built sample_uuid w [] (se_generation s) ''plan.approved'' None ?pay] (tick w)
      = (w2, Inr xs)" and s2: "getSession w2 [] = Some s2" "se_state s2 = se_state s" "se_pendingPause s2 = se_pendingPause s"
      "world_ok sample_uuid w2" "w_plans w2 = w_plans w"
    by (rule append_built_succeeds [OF ok sample_uuid_inj ws(6), of "''plan.approved''" None ?pay])
       (simp add: gen, blast)
  let ?opt = "options_for ''operator'' None (plan_context (pl_id p))"
  let ?x = "transition_context s2 (op_context ?opt)"
  have tr: "transitionOperatorState (se_state s2) ''approve'' ?x = Inr (moved AWAITING_APPROVAL EXECUTING ?x)"
    by (simp add: s2(2) ws(7) machine_eval)
  obtain w3 t where t: "transition sample_uuid [] ''approve'' ?opt w2 = (w3, Inr t)" "w_plans w3 = w_plans w2"
    by (rule transition_succeeds [OF s2(4) sample_uuid_inj s2(1) tr])
       (simp_all add: known_states s2(3) ws(8) options_for_def plan_context_def no_call_context_def)
  have "\<exists>w' reply. approvePlan sample_uuid accept_all (pl_id p) ''operator'' None None ''approved'' w
      = (w', Inr (reply, tp_session t))"
    using t app ws(2-7) gen
    by (simp add: approvePlan_def parsed_def accept_all_def pending_plan_def the_session_def repo_def emit_known
        Let_def js_text_def updatePlanStatus_def PLAN_STATUSES_def)
  then obtain w' reply where "approvePlan sample_uuid accept_all (pl_id p) ''operator'' None None ''approved'' w
      = (w', Inr (reply, tp_session t))" by blast
  with approve_requires_pending [OF ws(1) this] show ?thesis by blast
qed

end
