(* ===== verification/TaskPlan.thy ===== *)
theory TaskPlan
  imports JsValue
begin

text \<open>
  The task plans of the Zarvis task gateway
  (\<open>packages/zarvis/services/zarvis-task-gateway/runtime.mjs\<close>): the validation that turns
  a request into a plan, the digest that an approval is bound to, the grants a plan asks
  for, and the worker that executes a plan step by step. The GitHub tool
  is the argument \<open>gh\<close> (a call of a remote service: an answer or an error message),
  SHA-256 over the JSON text is the argument \<open>H\<close>, and \<open>R\<close> prints a number that
  is no integer. Times are milliseconds.
\<close>

section \<open>Errors and fields\<close>

text \<open>\<open>AgentOrchestratorError(message, status)\<close>, or an error of an adapter.\<close>

datatype task_error = TaskError string nat | AdapterError string

definition core_require_string :: "js \<Rightarrow> string \<Rightarrow> (task_error, string) result" where
  "core_require_string v name =
     (case v of
        JStr s \<Rightarrow> if js_trim s = [] then Inl (TaskError (name @ '' is required'') 400) else Inr (js_trim s)
      | _ \<Rightarrow> Inl (TaskError (name @ '' is required'') 400))"

definition require_string :: "js \<Rightarrow> string \<Rightarrow> nat \<Rightarrow> (task_error, string) result" where
  "require_string v field mx =
     (case v of
        JStr s \<Rightarrow>
          (if js_trim s = [] \<or> mx < length (js_trim s) then Inl (TaskError (field @ '' is invalid'') 400)
           else Inr (js_trim s))
      | _ \<Rightarrow> Inl (TaskError (field @ '' is required'') 400))"

definition require_id :: "js \<Rightarrow> string \<Rightarrow> (task_error, string) result" where
  "require_id v field =
     bindR (require_string v field 128) (\<lambda>s.
       if matches_id_pattern s then Inr s else Inl (TaskError (field @ '' is invalid'') 400))"

definition MAX_STEPS :: nat where
  "MAX_STEPS = 20"

definition APPROVAL_TTL_MS :: int where
  "APPROVAL_TTL_MS = 15 * 60 * 1000"

definition READ_ONLY_TOOLS :: "string list" where
  "READ_ONLY_TOOLS = [''github.repository.status'', ''zarvis.repository.summary'']"

definition matches_repository :: "string \<Rightarrow> bool" where
  "matches_repository s =
     (case split_on (CHR ''/'') s of
        [a, b] \<Rightarrow> a \<noteq> [] \<and> b \<noteq> [] \<and> list_all segment_char a \<and> list_all segment_char b
      | _ \<Rightarrow> False)"

section \<open>Plans\<close>

record task_step =
  tk_id :: string
  tk_order :: nat
  tk_tool :: string
  tk_scope :: string
  tk_dependsOn :: "string list"
  tk_arguments :: js

record task_plan =
  pk_objective :: string
  pk_steps :: "task_step list"

definition normalizeArguments :: "js \<Rightarrow> (task_error, js) result" where
  "normalizeArguments v =
     (if is_nullish v then Inr (JObj [])
      else case v of JObj fs \<Rightarrow> Inr v
      | _ \<Rightarrow> Inl (TaskError ''step.arguments must be an object'' 400))"

text \<open>The step ids a step may depend on: those seen so far, its own one among them.\<close>

fun text_of :: "js \<Rightarrow> (task_error, string) result" where
  "text_of (JStr s) = Inr s"
| "text_of _ = Inl (TaskError ''step.depends_on must be an array of step IDs'' 400)"

definition dependency_list :: "string list \<Rightarrow> string \<Rightarrow> js \<Rightarrow> (task_error, string list) result" where
  "dependency_list seen stepId v =
     bindR (if is_nullish v then Inr []
            else case v of JArr xs \<Rightarrow> mapR text_of xs
            | _ \<Rightarrow> Inl (TaskError ''step.depends_on must be an array of step IDs'' 400))
       (\<lambda>ds. case find (\<lambda>d. d \<notin> set seen) ds of
               None \<Rightarrow> Inr ds
             | Some d \<Rightarrow> Inl (TaskError (''step '' @ stepId @ '' may depend only on an earlier step; missing '' @ d) 400))"

definition normalize_step :: "string list \<Rightarrow> nat \<Rightarrow> js \<Rightarrow> (task_error, task_step) result" where
  "normalize_step ids index raw =
     (if \<not> is_plain_object raw then Inl (TaskError ''step is invalid'' 400)
      else bindR (require_id (get_prop raw ''id'') ''step.id'') (\<lambda>id.
        if id \<in> set ids then Inl (TaskError ''step.id must be unique'' 400)
        else bindR (require_string (get_prop raw ''tool'') ''step.tool'' 128) (\<lambda>tool.
        if tool \<notin> set READ_ONLY_TOOLS
        then Inl (TaskError ''Only registered read-only ZARVIS task tools are allowed'' 400)
        else if get_prop raw ''mutating'' = JBool True
        then Inl (TaskError ''Mutating task steps remain blocked'' 403)
        else bindR (require_string (get_prop raw ''scope'') ''step.scope'' 256) (\<lambda>scope.
        if \<not> matches_repository scope
        then Inl (TaskError ''step.scope must be an owner/repository identifier'' 400)
        else bindR (dependency_list (ids @ [id]) id (get_prop raw ''depends_on'')) (\<lambda>deps.
        bindR (normalizeArguments (get_prop raw ''arguments'')) (\<lambda>args.
          Inr \<lparr>tk_id = id, tk_order = index, tk_tool = tool, tk_scope = scope,
               tk_dependsOn = deps, tk_arguments = args\<rparr>))))))"

fun normalize_steps :: "string list \<Rightarrow> nat \<Rightarrow> js list \<Rightarrow> (task_error, task_step list) result" where
  "normalize_steps ids index [] = Inr []"
| "normalize_steps ids index (raw # raws) =
     bindR (normalize_step ids index raw) (\<lambda>st.
     bindR (normalize_steps (ids @ [tk_id st]) (Suc index) raws) (\<lambda>sts. Inr (st # sts)))"

definition normalizePlan :: "js \<Rightarrow> (task_error, task_plan) result" where
  "normalizePlan input =
     bindR (require_string (coalesce (get_prop input ''objective'') (get_prop input ''task'')) ''objective'' 2000)
       (\<lambda>objective.
         case get_prop input ''steps'' of
           JArr raws \<Rightarrow>
             (if length raws < 1 \<or> MAX_STEPS < length raws
              then Inl (TaskError ''steps must contain between 1 and 20 items'' 400)
              else bindR (normalize_steps [] 0 raws) (\<lambda>steps. Inr \<lparr>pk_objective = objective, pk_steps = steps\<rparr>))
         | _ \<Rightarrow> Inl (TaskError ''steps must contain between 1 and 20 items'' 400))"

text \<open>What the digest covers.\<close>

definition stablePlanValue :: "task_plan \<Rightarrow> js" where
  "stablePlanValue p =
     JObj [(''objective'', JStr (pk_objective p)),
           (''steps'', JArr (map (\<lambda>st.
              JObj [(''id'', JStr (tk_id st)), (''tool'', JStr (tk_tool st)), (''scope'', JStr (tk_scope st)),
                    (''depends_on'', JArr (map JStr (tk_dependsOn st))), (''arguments'', tk_arguments st)])
              (pk_steps p)))]"

definition planDigest :: "(js \<Rightarrow> string) \<Rightarrow> task_plan \<Rightarrow> string" where
  "planDigest H p = H (stablePlanValue p)"

section \<open>Grants\<close>

record tool_grant =
  gr_tool :: string
  gr_scope :: string
  gr_mutating :: bool

definition ends_with :: "string \<Rightarrow> string \<Rightarrow> bool" where
  "ends_with suf s = (length suf \<le> length s \<and> drop (length s - length suf) s = suf)"

definition normalizeToolGrant :: "js \<Rightarrow> (task_error, tool_grant) result" where
  "normalizeToolGrant v =
     (case v of
        JStr s \<Rightarrow> Inr \<lparr>gr_tool = s, gr_scope = ''*'',
                       gr_mutating = (\<not> (ends_with '':read'' s \<or> ends_with ''.read'' s))\<rparr>
      | JObj _ \<Rightarrow>
          bindR (core_require_string (get_prop v ''tool'') ''tool'') (\<lambda>tool.
          bindR (core_require_string (coalesce (get_prop v ''scope'') (JStr ''*'')) ''scope'') (\<lambda>scope.
            Inr \<lparr>gr_tool = tool, gr_scope = scope, gr_mutating = truthy (get_prop v ''mutating'')\<rparr>))
      | JArr _ \<Rightarrow> Inl (TaskError ''tool is required'' 400)
      | _ \<Rightarrow> Inl (TaskError ''tool grant is invalid'' 400))"

definition normalizeToolGrants :: "js \<Rightarrow> bool \<Rightarrow> (task_error, tool_grant list) result" where
  "normalizeToolGrants v allowEmpty =
     (case v of
        JArr xs \<Rightarrow>
          if \<not> allowEmpty \<and> xs = [] then Inl (TaskError ''tool_grants must not be empty'' 400)
          else mapR normalizeToolGrant xs
      | _ \<Rightarrow> Inl (TaskError ''tool_grants must be an array'' 400))"

text \<open>A grant as the object it is stored as.\<close>

definition grant_js :: "tool_grant \<Rightarrow> js" where
  "grant_js g = JObj [(''tool'', JStr (gr_tool g)), (''scope'', JStr (gr_scope g)), (''mutating'', JBool (gr_mutating g))]"

definition grantKey :: "tool_grant \<Rightarrow> string" where
  "grantKey g = gr_tool g @ [CHR 0x0A] @ gr_scope g @ [CHR 0x0A] @ (if gr_mutating g then ''true'' else ''false'')"

definition assertApprovedGrants :: "tool_grant list \<Rightarrow> tool_grant list \<Rightarrow> (task_error, unit) result" where
  "assertApprovedGrants requested approved =
     (if \<forall>g\<in>set approved. grantKey g \<in> grantKey ` set requested then Inr ()
      else Inl (TaskError ''approved tool grant was not requested'' 400))"

fun unique_grants :: "(string, tool_grant) jsmap \<Rightarrow> task_step list \<Rightarrow> (string, tool_grant) jsmap" where
  "unique_grants m [] = m"
| "unique_grants m (st # sts) =
     (let key = tk_tool st @ [CHR 0x0A] @ tk_scope st
      in unique_grants
           (if map_get m key = None
            then map_set m key \<lparr>gr_tool = tk_tool st, gr_scope = tk_scope st, gr_mutating = False\<rparr> else m) sts)"

definition requestedGrants :: "task_step list \<Rightarrow> tool_grant list" where
  "requestedGrants steps = map_values (unique_grants [] steps)"

section \<open>The worker\<close>

datatype job_status =
  PendingApproval | Approved | Running | Succeeded | Failed | Cancelled | Expired | Paused

datatype step_state = StepSucceeded js | StepFailed string | StepSkipped

record step_result =
  re_stepId :: string
  re_state :: step_state
  re_completedAt :: int

definition step_word :: "step_state \<Rightarrow> string" where
  "step_word s = (case s of StepSucceeded _ \<Rightarrow> ''succeeded'' | StepFailed _ \<Rightarrow> ''failed'' | StepSkipped \<Rightarrow> ''skipped'')"

record worker_audit =
  wa_workerId :: string
  wa_attempt :: int
  wa_toolCalls :: "(string \<times> string) list"
  wa_reason :: "string option"

record worker_result =
  wr_status :: job_status
  wr_resultRefs :: "string list"
  wr_stepResults :: "step_result list"
  wr_completedIds :: "string list"
  wr_audit :: worker_audit
  wr_completedAt :: int

type_synonym github = "string \<Rightarrow> string \<Rightarrow> (string, js) result"

definition succeeded_output :: "(string, step_result) jsmap \<Rightarrow> string \<Rightarrow> js option" where
  "succeeded_output done d =
     (case map_get done d of
        Some r \<Rightarrow> (case re_state r of StepSucceeded v \<Rightarrow> Some v | _ \<Rightarrow> None)
      | None \<Rightarrow> None)"

text \<open>The two tools; \<open>outputs\<close> are the outputs of the dependencies, in order.\<close>

definition summary_of :: "(rat \<Rightarrow> string) \<Rightarrow> js \<Rightarrow> js" where
  "summary_of R repository =
     JObj [(''text'', JStr (js_text_of R (get_prop repository ''full_name'') @ '' uses ''
              @ js_text_of R (get_prop repository ''default_branch'') @ '' and has ''
              @ js_text_of R (get_prop repository ''open_issues_count'')
              @ '' open issues and pull requests.'')),
           (''repository'', get_prop repository ''full_name'')]"

definition run_tool :: "(rat \<Rightarrow> string) \<Rightarrow> github \<Rightarrow> task_step \<Rightarrow> js list \<Rightarrow> (string, js) result" where
  "run_tool R gh st outputs =
     (if tk_tool st = ''github.repository.status'' then
        (case split_on (CHR ''/'') (tk_scope st) of
           owner # repository # _ \<Rightarrow> gh owner repository
         | _ \<Rightarrow> Inl ''Invalid GitHub repository identifier.'')
      else if tk_tool st = ''zarvis.repository.summary'' then
        (let repository = (if outputs = [] then JUndef else last outputs)
         in if truthy (get_prop repository ''full_name'') then Inr (summary_of R repository)
            else Inl ''Repository status dependency is missing'')
      else Inl (''Unregistered task tool: '' @ tk_tool st))"

text \<open>The outcome of one step, from the results so far.\<close>

definition plan_step_outcome :: "(rat \<Rightarrow> string) \<Rightarrow> github \<Rightarrow> (string, step_result) jsmap \<Rightarrow> task_step \<Rightarrow> step_state" where
  "plan_step_outcome R gh done st =
     (let outputs = map (succeeded_output done) (tk_dependsOn st)
      in if None \<in> set outputs then StepSkipped
         else case run_tool R gh st (map the outputs) of
                Inr v \<Rightarrow> StepSucceeded v
              | Inl m \<Rightarrow> StepFailed (if m = [] then ''Step failed'' else m))"

text \<open>The loop: a failed step ends it, a skipped one does not.\<close>

fun work_steps ::
  "(rat \<Rightarrow> string) \<Rightarrow> github \<Rightarrow> int \<Rightarrow> (string, step_result) jsmap \<Rightarrow> task_step list \<Rightarrow> bool \<times> step_result list" where
  "work_steps R gh now done [] = (True, [])"
| "work_steps R gh now done (st # sts) =
     (let r = \<lparr>re_stepId = tk_id st, re_state = plan_step_outcome R gh done st, re_completedAt = now\<rparr>
      in case re_state r of
           StepFailed _ \<Rightarrow> (False, [r])
         | _ \<Rightarrow> (case work_steps R gh now (map_set done (tk_id st) r) sts of (ok, rs) \<Rightarrow> (ok, r # rs)))"

definition tool_calls :: "step_result list \<Rightarrow> (string \<times> string) list" where
  "tool_calls rs = map (\<lambda>r. (re_stepId r, step_word (re_state r))) rs"

definition expiredResult :: "int \<Rightarrow> int \<Rightarrow> worker_result" where
  "expiredResult attempt now =
     \<lparr>wr_status = Expired, wr_resultRefs = [], wr_stepResults = [], wr_completedIds = [],
      wr_audit = \<lparr>wa_workerId = ''zarvis-plan-worker'', wa_attempt = attempt, wa_toolCalls = [],
                  wa_reason = Some ''approval_expired''\<rparr>,
      wr_completedAt = now\<rparr>"

definition execute_plan ::
  "(rat \<Rightarrow> string) \<Rightarrow> github \<Rightarrow> int \<Rightarrow> string \<Rightarrow> int \<Rightarrow> int \<Rightarrow> task_plan \<Rightarrow> worker_result" where
  "execute_plan R gh now jobId attempt expiresAt p =
     (if expiresAt < now then expiredResult attempt now
      else case work_steps R gh now [] (pk_steps p) of
        (ok, rs) \<Rightarrow>
          \<lparr>wr_status = (if ok then Succeeded else Failed),
           wr_resultRefs = (if ok then [jobId @ ''-attempt-'' @ int_str attempt] else []),
           wr_stepResults = rs, wr_completedIds = map re_stepId rs,
           wr_audit = \<lparr>wa_workerId = ''zarvis-plan-worker'', wa_attempt = attempt,
                       wa_toolCalls = tool_calls rs, wa_reason = None\<rparr>,
           wr_completedAt = now\<rparr>)"


section \<open>What a normalized plan looks like\<close>

definition bounded_text :: "nat \<Rightarrow> string \<Rightarrow> bool" where
  "bounded_text mx s \<longleftrightarrow> js_trim s = s \<and> s \<noteq> [] \<and> length s \<le> mx"

lemma require_string_Inr [result_simps]:
  "require_string v f mx = Inr s \<longleftrightarrow> (\<exists>t. v = JStr t \<and> s = js_trim t \<and> bounded_text mx s)"
  by (cases v) (auto simp: require_string_def bounded_text_def js_trim_idem)

lemma require_string_bounded: "bounded_text mx s \<Longrightarrow> require_string (JStr s) f mx = Inr s"
  by (simp add: require_string_Inr bounded_text_def)

lemma require_id_Inr [result_simps]:
  "require_id v f = Inr s \<longleftrightarrow> require_string v f 128 = Inr s \<and> matches_id_pattern s"
  by (auto simp: require_id_def bindR_Inr_iff)

text \<open>A step, given the ids of the steps before it and its place.\<close>

definition step_ok :: "string list \<Rightarrow> nat \<Rightarrow> task_step \<Rightarrow> bool" where
  "step_ok ids i st \<longleftrightarrow>
     bounded_text 128 (tk_id st) \<and> matches_id_pattern (tk_id st) \<and> tk_id st \<notin> set ids \<and> tk_order st = i \<and>
     bounded_text 128 (tk_tool st) \<and> tk_tool st \<in> set READ_ONLY_TOOLS \<and>
     bounded_text 256 (tk_scope st) \<and> matches_repository (tk_scope st) \<and>
     set (tk_dependsOn st) \<subseteq> insert (tk_id st) (set ids) \<and> is_plain_object (tk_arguments st)"

fun steps_ok :: "string list \<Rightarrow> nat \<Rightarrow> task_step list \<Rightarrow> bool" where
  "steps_ok ids i [] \<longleftrightarrow> True"
| "steps_ok ids i (st # sts) \<longleftrightarrow> step_ok ids i st \<and> steps_ok (ids @ [tk_id st]) (Suc i) sts"

definition plan_ok :: "task_plan \<Rightarrow> bool" where
  "plan_ok p \<longleftrightarrow> bounded_text 2000 (pk_objective p) \<and> 1 \<le> length (pk_steps p) \<and> length (pk_steps p) \<le> MAX_STEPS \<and>
     steps_ok [] 0 (pk_steps p)"

lemma text_of_Inr [result_simps]: "text_of v = Inr s \<longleftrightarrow> v = JStr s"
  by (cases v) auto

lemma dependency_list_Inr:
  "dependency_list seen stepId v = Inr ds \<Longrightarrow> set ds \<subseteq> set seen"
  by (auto simp: dependency_list_def bindR_Inr_iff find_None_all split: option.splits)

lemma mapR_text_of [simp]: "mapR text_of (map JStr ds) = Inr ds"
  by (induction ds) auto

lemma dependency_list_texts:
  "set ds \<subseteq> set seen \<Longrightarrow> dependency_list seen stepId (JArr (map JStr ds)) = Inr ds"
  by (auto simp: dependency_list_def is_nullish_def find_None_all split: option.splits)

lemma normalizeArguments_Inr: "normalizeArguments v = Inr a \<Longrightarrow> is_plain_object a"
  by (auto simp: normalizeArguments_def is_plain_object_def split: if_splits js.splits)

lemma normalizeArguments_object: "is_plain_object a \<Longrightarrow> normalizeArguments a = Inr a"
  by (cases a) (auto simp: normalizeArguments_def is_plain_object_def is_nullish_def)

lemma normalize_step_ok: "normalize_step ids i raw = Inr st \<Longrightarrow> step_ok ids i st"
  by (auto simp: normalize_step_def bindR_Inr_iff require_id_Inr require_string_Inr step_ok_def
      intro: normalizeArguments_Inr dest!: dependency_list_Inr split: if_splits)

lemma normalize_steps_ok: "normalize_steps ids i raws = Inr sts \<Longrightarrow> steps_ok ids i sts"
  by (induction raws arbitrary: ids i sts) (auto simp: bindR_Inr_iff dest: normalize_step_ok)

lemma normalizePlan_ok: "normalizePlan inp = Inr p \<Longrightarrow> plan_ok p"
proof -
  assume "normalizePlan inp = Inr p"
  then obtain raws where r: "normalize_steps [] 0 raws = Inr (pk_steps p)" "1 \<le> length raws" "length raws \<le> MAX_STEPS"
    "bounded_text 2000 (pk_objective p)"
    unfolding normalizePlan_def by (cases "get_prop inp ''steps''")
      (auto simp: bindR_Inr_iff require_string_Inr not_less Suc_le_eq split: if_splits)
  have "length sts = length raws" if "normalize_steps ids i raws = Inr sts" for ids i sts and raws :: "js list"
    using that by (induction raws arbitrary: ids i sts) (auto simp: bindR_Inr_iff)
  with r normalize_steps_ok [OF r(1)] show ?thesis by (simp add: plan_ok_def)
qed

text \<open>The digested value of a plan, read as a request, is the plan again.\<close>

definition step_value :: "task_step \<Rightarrow> js" where
  "step_value st =
     JObj [(''id'', JStr (tk_id st)), (''tool'', JStr (tk_tool st)), (''scope'', JStr (tk_scope st)),
           (''depends_on'', JArr (map JStr (tk_dependsOn st))), (''arguments'', tk_arguments st)]"

lemma step_value_props:
  "get_prop (step_value st) ''id'' = JStr (tk_id st)" "get_prop (step_value st) ''tool'' = JStr (tk_tool st)"
  "get_prop (step_value st) ''scope'' = JStr (tk_scope st)"
  "get_prop (step_value st) ''depends_on'' = JArr (map JStr (tk_dependsOn st))"
  "get_prop (step_value st) ''arguments'' = tk_arguments st" "get_prop (step_value st) ''mutating'' = JUndef"
  "is_plain_object (step_value st)"
  by (simp_all add: step_value_def is_plain_object_def)

lemma normalize_step_value: "step_ok ids i st \<Longrightarrow> normalize_step ids i (step_value st) = Inr st"
  by (simp add: normalize_step_def step_value_props step_ok_def require_id_def require_string_bounded
      dependency_list_texts normalizeArguments_object)

lemma normalize_steps_value: "steps_ok ids i sts \<Longrightarrow> normalize_steps ids i (map step_value sts) = Inr sts"
  by (induction sts arbitrary: ids i) (simp_all add: normalize_step_value)

lemma stablePlanValue_steps:
  "stablePlanValue p = JObj [(''objective'', JStr (pk_objective p)), (''steps'', JArr (map step_value (pk_steps p)))]"
  by (simp add: stablePlanValue_def step_value_def)

lemma normalizePlan_value: "plan_ok p \<Longrightarrow> normalizePlan (stablePlanValue p) = Inr p"
  by (auto simp: normalizePlan_def stablePlanValue_steps plan_ok_def coalesce_def is_nullish_def
      require_string_bounded normalize_steps_value)

section \<open>What the worker does with a plan\<close>

definition self_dependent :: "task_step \<Rightarrow> bool" where
  "self_dependent st \<longleftrightarrow> tk_id st \<in> set (tk_dependsOn st)"

definition all_succeeded :: "(string, step_result) jsmap \<Rightarrow> string list \<Rightarrow> bool" where
  "all_succeeded done ids \<longleftrightarrow> (\<forall>d\<in>set ids. succeeded_output done d \<noteq> None)"

lemma succeeded_output_set:
  "succeeded_output (map_set done i r) d =
     (if d = i then (case re_state r of StepSucceeded v \<Rightarrow> Some v | _ \<Rightarrow> None) else succeeded_output done d)"
  by (simp add: succeeded_output_def)

lemma work_steps_never_skip:
  assumes "steps_ok ids i sts" and "all_succeeded done ids" and "\<forall>st\<in>set sts. \<not> self_dependent st"
    and "work_steps R gh now done sts = (ok, rs)"
  shows "(\<forall>r\<in>set rs. re_state r \<noteq> StepSkipped) \<and> map re_stepId rs = take (length rs) (map tk_id sts) \<and>
    (ok \<longleftrightarrow> length rs = length sts \<and> (\<forall>r\<in>set rs. \<exists>v. re_state r = StepSucceeded v))"
  using assms
proof (induction sts arbitrary: ids i "done" ok rs)
  case (Cons st sts)
  let ?s = "plan_step_outcome R gh done st" and ?r = "\<lparr>re_stepId = tk_id st, re_state = plan_step_outcome R gh done st, re_completedAt = now\<rparr>"
  have "set (tk_dependsOn st) \<subseteq> set ids" using Cons.prems(1,3) by (auto simp: step_ok_def self_dependent_def)
  then have "\<forall>d\<in>set (tk_dependsOn st). succeeded_output done d \<noteq> None"
    using Cons.prems(2) by (auto simp: all_succeeded_def)
  then have "None \<notin> set (map (succeeded_output done) (tk_dependsOn st))" by force
  then have ns: "?s \<noteq> StepSkipped" by (simp add: plan_step_outcome_def Let_def split: sum.splits)
  show ?case
  proof (cases ?s)
    case (StepSucceeded v)
    obtain ok' rs' where rec: "work_steps R gh now (map_set done (tk_id st) ?r) sts = (ok', rs')" by fastforce
    have "all_succeeded (map_set done (tk_id st) ?r) (ids @ [tk_id st])"
      using Cons.prems(2) by (auto simp: all_succeeded_def succeeded_output_set StepSucceeded)
    from Cons.IH [OF _ this _ rec] Cons.prems(1,3) Cons.prems(4) rec StepSucceeded
    show ?thesis by (auto simp: Let_def)
  next
    case (StepFailed m)
    with Cons.prems(4) show ?thesis by (auto simp: Let_def)
  qed (use ns in simp)
qed simp

lemma work_steps_self:
  assumes "\<forall>st\<in>set sts. self_dependent st" and "distinct (map tk_id sts)"
    and "\<forall>st\<in>set sts. succeeded_output done (tk_id st) = None"
  shows "fst (work_steps R gh now done sts) \<and> (\<forall>r\<in>set (snd (work_steps R gh now done sts)). re_state r = StepSkipped)"
  using assms
proof (induction sts arbitrary: "done")
  case (Cons st sts)
  have "succeeded_output done (tk_id st) = None" "tk_id st \<in> set (tk_dependsOn st)"
    using Cons.prems(1,3) by (auto simp: self_dependent_def)
  then have s: "plan_step_outcome R gh done st = StepSkipped"
    by (force simp: plan_step_outcome_def Let_def)
  let ?r = "\<lparr>re_stepId = tk_id st, re_state = StepSkipped, re_completedAt = now\<rparr>"
  have "\<forall>x\<in>set sts. succeeded_output (map_set done (tk_id st) ?r) (tk_id x) = None"
    using Cons.prems(3) by (auto simp: succeeded_output_set)
  from Cons.IH [OF _ _ this] Cons.prems(1,2) s show ?case
    by (auto simp: Let_def split: prod.splits)
qed simp

lemma steps_ok_ids: "steps_ok ids i sts \<Longrightarrow> distinct ids \<Longrightarrow> distinct (ids @ map tk_id sts)"
proof (induction sts arbitrary: ids i)
  case (Cons st sts)
  then have "distinct ((ids @ [tk_id st]) @ map tk_id sts)"
    by (intro Cons.IH) (auto simp: step_ok_def)
  then show ?case by simp
qed simp

text \<open>
  C10: a normalized plan is well formed and normalizing is idempotent. Its ids are distinct,
  its tools are read-only ones, its scopes name repositories, every dependency is the
  step itself or an earlier step; and the value that the approval digest covers, sent
  as a request, is accepted and gives the same plan.
\<close>

theorem normalizePlan_sound:
  assumes "normalizePlan inp = Inr p"
  shows "normalizePlan (stablePlanValue p) = Inr p \<and> distinct (map tk_id (pk_steps p)) \<and>
    length (pk_steps p) \<in> {1..20} \<and>
    (\<forall>i<length (pk_steps p). let st = pk_steps p ! i in
       tk_order st = i \<and> tk_tool st \<in> set READ_ONLY_TOOLS \<and> matches_repository (tk_scope st) \<and>
       set (tk_dependsOn st) \<subseteq> set (map tk_id (take (Suc i) (pk_steps p))))"
proof -
  have ok: "plan_ok p" using assms by (rule normalizePlan_ok)
  have place: "tk_order (sts ! i) = k + i \<and> tk_tool (sts ! i) \<in> set READ_ONLY_TOOLS \<and>
      matches_repository (tk_scope (sts ! i)) \<and>
      set (tk_dependsOn (sts ! i)) \<subseteq> set ids \<union> set (map tk_id (take (Suc i) sts))"
    if "steps_ok ids k sts" "i < length sts" for ids k i sts
    using that
  proof (induction sts arbitrary: ids k i)
    case (Cons st sts)
    show ?case
    proof (cases i)
      case (Suc j)
      with Cons.IH [of "ids @ [tk_id st]" "Suc k" j] Cons.prems show ?thesis by auto
    qed (use Cons.prems in \<open>auto simp: step_ok_def\<close>)
  qed simp
  have steps: "steps_ok [] 0 (pk_steps p)" using ok by (simp add: plan_ok_def)
  then have "distinct (map tk_id (pk_steps p))" using steps_ok_ids [OF steps] by simp
  moreover have "length (pk_steps p) \<in> {1..20}" using ok by (simp add: plan_ok_def MAX_STEPS_def)
  ultimately show ?thesis
    using normalizePlan_value [OF ok] place [OF steps] by (simp add: Let_def)
qed

definition sample_request :: js where
  "sample_request =
     JObj [(''objective'', JStr '' Check ''),
           (''steps'', JArr
              [JObj [(''id'', JStr ''a''), (''tool'', JStr ''github.repository.status''), (''scope'', JStr ''o/r'')],
               JObj [(''id'', JStr ''b''), (''tool'', JStr ''zarvis.repository.summary''), (''scope'', JStr ''o/r''),
                     (''depends_on'', JArr [JStr ''a''])]])]"

definition sample_task_plan :: task_plan where
  "sample_task_plan =
     \<lparr>pk_objective = ''Check'',
      pk_steps =
        [\<lparr>tk_id = ''a'', tk_order = 0, tk_tool = ''github.repository.status'', tk_scope = ''o/r'',
          tk_dependsOn = [], tk_arguments = JObj []\<rparr>,
         \<lparr>tk_id = ''b'', tk_order = 1, tk_tool = ''zarvis.repository.summary'', tk_scope = ''o/r'',
          tk_dependsOn = [''a''], tk_arguments = JObj []\<rparr>]\<rparr>"

lemma sample_request_plan: "normalizePlan sample_request = Inr sample_task_plan"
  by code_simp

theorem normalizePlan_sound_witness:
  "normalizePlan (stablePlanValue sample_task_plan) = Inr sample_task_plan"
  using normalizePlan_sound [OF sample_request_plan] by blast

text \<open>
  C11: the worker runs a plan in order and stops at the first failure. When no step depends
  on itself, no step is skipped, the results are those of a prefix of the plan, and the
  plan succeeds exactly when every step has succeeded.
\<close>

theorem worker_runs_in_order:
  assumes "normalizePlan inp = Inr p" and "\<forall>st\<in>set (pk_steps p). \<not> self_dependent st" and "now \<le> expiresAt"
  shows "let r = execute_plan R gh now jobId attempt expiresAt p; rs = wr_stepResults r in
    (\<forall>x\<in>set rs. re_state x \<noteq> StepSkipped) \<and>
    map re_stepId rs = take (length rs) (map tk_id (pk_steps p)) \<and>
    (wr_status r = Succeeded \<longleftrightarrow>
       length rs = length (pk_steps p) \<and> (\<forall>x\<in>set rs. \<exists>v. re_state x = StepSucceeded v)) \<and>
    (wr_status r \<noteq> Succeeded \<longrightarrow> wr_status r = Failed)"
proof -
  obtain ok rs where w: "work_steps R gh now [] (pk_steps p) = (ok, rs)" by fastforce
  have "steps_ok [] 0 (pk_steps p)" using normalizePlan_ok [OF assms(1)] by (simp add: plan_ok_def)
  from work_steps_never_skip [OF this _ assms(2) w] show ?thesis
    using assms(3) w by (auto simp: execute_plan_def all_succeeded_def Let_def)
qed

definition sample_github :: github where
  "sample_github owner repository =
     Inr (JObj [(''full_name'', JStr (owner @ ''/'' @ repository)), (''default_branch'', JStr ''main''),
                (''open_issues_count'', JNum (Fin 2))])"

theorem worker_runs_in_order_witness:
  "wr_status (execute_plan (\<lambda>_. []) sample_github 5 ''j'' 1 9 sample_task_plan) = Succeeded \<or>
   wr_status (execute_plan (\<lambda>_. []) sample_github 5 ''j'' 1 9 sample_task_plan) = Failed"
proof -
  have "\<forall>st\<in>set (pk_steps sample_task_plan). \<not> self_dependent st"
    by (simp add: sample_task_plan_def self_dependent_def)
  from worker_runs_in_order [OF sample_request_plan this, of 5 9 "\<lambda>_. []" sample_github "''j''" 1]
  show ?thesis unfolding Let_def by fastforce
qed

text \<open>
  A step may name itself. The check for earlier steps runs after the step's own id has
  been recorded, so such a plan is accepted; the worker skips the step, and a plan
  made of such steps is reported as succeeded although nothing was executed.
\<close>

theorem self_dependency_succeeds_unexecuted:
  assumes "normalizePlan inp = Inr p" and "\<forall>st\<in>set (pk_steps p). self_dependent st" and "now \<le> expiresAt"
  shows "wr_status (execute_plan R gh now jobId attempt expiresAt p) = Succeeded \<and>
    (\<forall>x\<in>set (wr_stepResults (execute_plan R gh now jobId attempt expiresAt p)). re_state x = StepSkipped)"
proof -
  have ok: "steps_ok [] 0 (pk_steps p)" using normalizePlan_ok [OF assms(1)] by (simp add: plan_ok_def)
  then have "distinct (map tk_id (pk_steps p))" using steps_ok_ids [OF ok] by simp
  from work_steps_self [OF assms(2) this, of "[]" R gh now] show ?thesis
    using assms(3) by (auto simp: execute_plan_def succeeded_output_def split: prod.splits)
qed

definition looping_request :: js where
  "looping_request =
     JObj [(''task'', JStr ''Loop''),
           (''steps'', JArr [JObj [(''id'', JStr ''a''), (''tool'', JStr ''github.repository.status''),
                                   (''scope'', JStr ''o/r''), (''depends_on'', JArr [JStr ''a''])]])]"

definition looping_plan :: task_plan where
  "looping_plan =
     \<lparr>pk_objective = ''Loop'',
      pk_steps =
        [\<lparr>tk_id = ''a'', tk_order = 0, tk_tool = ''github.repository.status'', tk_scope = ''o/r'',
          tk_dependsOn = [''a''], tk_arguments = JObj []\<rparr>]\<rparr>"

theorem self_dependency_succeeds_unexecuted_witness:
  "normalizePlan looping_request = Inr looping_plan \<and>
   wr_status (execute_plan (\<lambda>_. []) sample_github 5 ''j'' 1 9 looping_plan) = Succeeded"
proof -
  have n: "normalizePlan looping_request = Inr looping_plan" by code_simp
  have "\<forall>st\<in>set (pk_steps looping_plan). self_dependent st"
    by (simp add: looping_plan_def self_dependent_def)
  from self_dependency_succeeds_unexecuted [OF n this, of 5 9] n show ?thesis by simp
qed

end
