(* ===== verification/TaskGateway.thy ===== *)
theory TaskGateway
  imports TaskPlan
begin

text \<open>
  The durable task gateway of Zarvis: \<open>AgentOrchestrator\<close>
  (\<open>packages/zarvis/services/zarvis-task-gateway/orchestrator-core.mjs\<close>) and
  \<open>ZarvisTaskRuntime\<close> (\<open>runtime.mjs\<close>), over an injected job store, queue and
  audit sink, which are the record \<open>providers\<close> of operations on a state \<open>'s\<close>. A
  method is atomic and sees one reading of the clock; a write made before a throw stays.
\<close>

section \<open>Jobs\<close>

record constraints =
  kn_sandbox :: js
  kn_network :: js
  kn_timeoutSeconds :: js
  kn_maxRetries :: js

record approval =
  ap_approvedBy :: string
  ap_approvedAt :: int
  ap_grants :: "tool_grant list"
  ap_constraints :: constraints

text \<open>What \<open>submitPlan\<close> adds to a job.\<close>

record task_part =
  tt_plan :: task_plan
  tt_digest :: string
  tt_expiresAt :: int

record job =
  jb_id :: string
  jb_tenantId :: string
  jb_objective :: string
  jb_requestedGrants :: "tool_grant list"
  jb_inputRefs :: "js list"
  jb_status :: job_status
  jb_idempotencyKey :: string
  jb_correlationId :: js
  jb_attempt :: int
  jb_maxRetries :: js
  jb_timeoutSeconds :: js
  jb_createdAt :: int
  jb_updatedAt :: int
  jb_approval :: "approval option"
  jb_task :: "task_part option"
  jb_nonce :: js
  jb_consumedAt :: "int option"
  jb_startedAt :: "int option"
  jb_result :: "worker_result option"
  jb_error :: "string option"
  jb_audit :: "worker_audit option"
  jb_cancelled :: "(js \<times> int) option"
  jb_pausedFrom :: "job_status option"
  jb_pausedAt :: "int option"
  jb_resumedAt :: "int option"

record queue_item =
  qi_jobId :: string
  qi_tenantId :: string
  qi_attempt :: int
  qi_enqueuedAt :: int

record audit_event =
  au_eventId :: string
  au_type :: string
  au_occurredAt :: int
  au_tenantId :: string
  au_jobId :: string
  au_correlationId :: js
  au_extra :: "(string \<times> js) list"

definition TERMINAL :: "job_status list" where
  "TERMINAL = [Succeeded, Failed, Cancelled, Expired]"

definition status_word :: "job_status \<Rightarrow> string" where
  "status_word s =
     (case s of
        PendingApproval \<Rightarrow> ''pending_approval'' | Approved \<Rightarrow> ''approved'' | Running \<Rightarrow> ''running''
      | Succeeded \<Rightarrow> ''succeeded'' | Failed \<Rightarrow> ''failed'' | Cancelled \<Rightarrow> ''cancelled''
      | Expired \<Rightarrow> ''expired'' | Paused \<Rightarrow> ''paused'')"

section \<open>The injected adapters and the runtime's state\<close>

record 's providers =
  pv_findById :: "string \<Rightarrow> 's \<Rightarrow> (string, job option) result"
  pv_findByIdempotency :: "string \<Rightarrow> string \<Rightarrow> 's \<Rightarrow> (string, job option) result"
  pv_list :: "string \<Rightarrow> 's \<Rightarrow> (string, job list) result"
  pv_save :: "job \<Rightarrow> 's \<Rightarrow> ('s, string, job) outcome"
  pv_enqueue :: "queue_item \<Rightarrow> 's \<Rightarrow> ('s, string, queue_item) outcome"
  pv_dequeue :: "'s \<Rightarrow> ('s, string, queue_item option) outcome"
  pv_emit :: "audit_event \<Rightarrow> 's \<Rightarrow> ('s, string, unit) outcome"

record 's gateway =
  gw_now :: int
  gw_fresh :: nat
  gw_data :: 's

type_synonym ('s, 'a) task_result = "('s gateway, task_error, 'a) outcome"

text \<open>
  The constructor's other arguments: the approval check of an identity service (absent in
  \<open>ZarvisTaskRuntime\<close>), the worker and the supply of random ids.
\<close>

record 's orchestrator =
  oc_providers :: "'s providers"
  oc_identity :: "(string \<Rightarrow> job \<Rightarrow> (task_error, unit) result) option"
  oc_worker :: "int \<Rightarrow> job \<Rightarrow> (string, worker_result) result"
  oc_uuid :: "nat \<Rightarrow> string"

text \<open>An adapter's operation on the runtime's state.\<close>

definition on_data :: "('s \<Rightarrow> ('s, string, 'a) outcome) \<Rightarrow> 's gateway \<Rightarrow> ('s, 'a) task_result" where
  "on_data f g =
     (case f (gw_data g) of
        (d, Inl m) \<Rightarrow> (g\<lparr>gw_data := d\<rparr>, Inl (AdapterError m))
      | (d, Inr v) \<Rightarrow> (g\<lparr>gw_data := d\<rparr>, Inr v))"

definition reading :: "(string, 'a) result \<Rightarrow> 's gateway \<Rightarrow> ('s, 'a) task_result" where
  "reading r g = (case r of Inl m \<Rightarrow> (g, Inl (AdapterError m)) | Inr v \<Rightarrow> (g, Inr v))"

definition checked :: "(task_error, 'a) result \<Rightarrow> 's gateway \<Rightarrow> ('s, 'a) task_result" where
  "checked r g = (g, r)"

definition draw :: "'s orchestrator \<Rightarrow> 's gateway \<Rightarrow> string \<times> 's gateway" where
  "draw O1 g = (oc_uuid O1 (gw_fresh g), g\<lparr>gw_fresh := Suc (gw_fresh g)\<rparr>)"

definition save_job :: "'s orchestrator \<Rightarrow> job \<Rightarrow> 's gateway \<Rightarrow> ('s, job) task_result" where
  "save_job O1 j g = on_data (pv_save (oc_providers O1) j) g"

definition enqueue_job :: "'s orchestrator \<Rightarrow> job \<Rightarrow> 's gateway \<Rightarrow> ('s, queue_item) task_result" where
  "enqueue_job O1 j g =
     on_data (pv_enqueue (oc_providers O1)
       \<lparr>qi_jobId = jb_id j, qi_tenantId = jb_tenantId j, qi_attempt = jb_attempt j + 1, qi_enqueuedAt = gw_now g\<rparr>) g"

text \<open>\<open>this.audit.emit(buildEvent(type, job, now, extra))\<close>; \<open>taskEvent\<close> differs in the owner's fields only.\<close>

definition emit_event ::
  "'s orchestrator \<Rightarrow> string \<Rightarrow> job \<Rightarrow> (string \<times> js) list \<Rightarrow> 's gateway \<Rightarrow> ('s, unit) task_result" where
  "emit_event O1 ty j extra g =
     (case draw O1 g of
        (uuid, g1) \<Rightarrow>
          on_data (pv_emit (oc_providers O1)
            \<lparr>au_eventId = uuid, au_type = ty, au_occurredAt = gw_now g, au_tenantId = jb_tenantId j,
             au_jobId = jb_id j, au_correlationId = jb_correlationId j, au_extra = extra\<rparr>) g1)"

definition get_job :: "'s orchestrator \<Rightarrow> string \<Rightarrow> 's gateway \<Rightarrow> ('s, job) task_result" where
  "get_job O1 i g =
     andThen (reading (pv_findById (oc_providers O1) i (gw_data g)) g) (\<lambda>g1 r.
       case r of None \<Rightarrow> (g1, Inl (TaskError ''Job not found'' 404)) | Some j \<Rightarrow> (g1, Inr j))"

section \<open>Submitting\<close>

definition number_field :: "js \<Rightarrow> string \<Rightarrow> int \<Rightarrow> js" where
  "number_field input k d =
     JNum (js_number (coalesce (coalesce (get_prop input k) (get_prop (get_prop input ''execution_policy'') k))
                        (JNum (Fin (of_int d)))))"

definition array_items :: "js \<Rightarrow> js list" where
  "array_items v = (case v of JArr xs \<Rightarrow> xs | _ \<Rightarrow> [])"

definition new_job :: "string \<Rightarrow> string \<Rightarrow> string \<Rightarrow> tool_grant list \<Rightarrow> string \<Rightarrow> int \<Rightarrow> js \<Rightarrow> job" where
  "new_job i tenant objective grants key now input =
     \<lparr>jb_id = i, jb_tenantId = tenant, jb_objective = objective, jb_requestedGrants = grants,
      jb_inputRefs = array_items (get_prop input ''input_refs''),
      jb_status = PendingApproval, jb_idempotencyKey = key,
      jb_correlationId = get_prop input ''correlation_id'', jb_attempt = 0,
      jb_maxRetries = number_field input ''max_retries'' 1,
      jb_timeoutSeconds = number_field input ''timeout_seconds'' 900,
      jb_createdAt = now, jb_updatedAt = now, jb_approval = None, jb_task = None, jb_nonce = JUndef,
      jb_consumedAt = None, jb_startedAt = None,
      jb_result = None, jb_error = None, jb_audit = None, jb_cancelled = None, jb_pausedFrom = None,
      jb_pausedAt = None, jb_resumedAt = None\<rparr>"

definition submit :: "'s orchestrator \<Rightarrow> js \<Rightarrow> 's gateway \<Rightarrow> ('s, nat \<times> job) task_result" where
  "submit O1 input g =
     andThen (checked (core_require_string (get_prop input ''tenant_id'') ''tenant_id'') g) (\<lambda>g1 tenant.
     andThen (checked (core_require_string
        (coalesce (get_prop input ''objective'') (get_prop input ''task'')) ''task'') g1) (\<lambda>g2 objective.
     andThen (checked (core_require_string (get_prop input ''idempotency_key'') ''idempotency_key'') g2) (\<lambda>g3 key.
     andThen (reading (pv_findByIdempotency (oc_providers O1) tenant key (gw_data g3)) g3) (\<lambda>g4 dup.
       case dup of
         Some j \<Rightarrow> (g4, Inr (200, j))
       | None \<Rightarrow>
          (case draw O1 g4 of (i, g5) \<Rightarrow>
           andThen (checked (normalizeToolGrants
              (coalesce (get_prop input ''tool_grants_requested'') (get_prop input ''tool_grants'')) False) g5)
             (\<lambda>g6 grants.
           andThen (save_job O1 (new_job i tenant objective grants key (gw_now g) input) g6) (\<lambda>g7 saved.
           andThen (emit_event O1 ''agent.job.requested.v1'' saved
              [(''requested_by'', coalesce (get_prop input ''requested_by'')
                  (JObj [(''type'', JStr ''service''), (''id'', JStr ''zarvis-task-gateway'')])),
               (''objective'', JStr (jb_objective saved)), (''input_refs'', JArr (jb_inputRefs saved)),
               (''tool_grants_requested'', JArr (map grant_js (jb_requestedGrants saved))),
               (''execution_policy'', JObj [(''requires_approval'', JBool True),
                  (''timeout_seconds'', jb_timeoutSeconds saved), (''max_retries'', jb_maxRetries saved)])] g7)
             (\<lambda>g8 _. (g8, Inr (202, saved))))))))))"

section \<open>Approving, cancelling, retrying\<close>

definition approval_constraints :: "job \<Rightarrow> js \<Rightarrow> constraints" where
  "approval_constraints j c =
     \<lparr>kn_sandbox = coalesce (get_prop c ''sandbox'') (JStr ''restricted''),
      kn_network = coalesce (get_prop c ''network'') (JStr ''deny-by-default''),
      kn_timeoutSeconds = JNum (js_number (coalesce (get_prop c ''timeout_seconds'') (jb_timeoutSeconds j))),
      kn_maxRetries = JNum (js_number (coalesce (get_prop c ''max_retries'') (jb_maxRetries j)))\<rparr>"

definition constraints_js :: "constraints \<Rightarrow> js" where
  "constraints_js c =
     JObj [(''sandbox'', kn_sandbox c), (''network'', kn_network c),
           (''timeout_seconds'', kn_timeoutSeconds c), (''max_retries'', kn_maxRetries c)]"

definition approve :: "'s orchestrator \<Rightarrow> string \<Rightarrow> js \<Rightarrow> 's gateway \<Rightarrow> ('s, job) task_result" where
  "approve O1 i input g =
     andThen (get_job O1 i g) (\<lambda>g1 j.
       if jb_status j \<noteq> PendingApproval then (g1, Inl (TaskError ''Job is not awaiting approval'' 409))
       else
     andThen (checked (core_require_string (get_prop input ''approved_by'') ''approved_by'') g1) (\<lambda>g2 by_id.
     andThen (checked (case oc_identity O1 of None \<Rightarrow> Inr () | Some f \<Rightarrow> f by_id j) g2) (\<lambda>g3 _.
     andThen (checked (normalizeToolGrants
        (coalesce (get_prop input ''tool_grants'') (JArr (map grant_js (jb_requestedGrants j)))) False) g3)
       (\<lambda>g4 grants.
     andThen (checked (assertApprovedGrants (jb_requestedGrants j) grants) g4) (\<lambda>g5 _.
     andThen (save_job O1
        (j\<lparr>jb_status := Approved,
           jb_approval := Some \<lparr>ap_approvedBy = by_id, ap_approvedAt = gw_now g, ap_grants = grants,
              ap_constraints = approval_constraints j (get_prop input ''constraints'')\<rparr>,
           jb_updatedAt := gw_now g\<rparr>) g5) (\<lambda>g6 nxt.
     andThen (enqueue_job O1 nxt g6) (\<lambda>g7 _.
     andThen (emit_event O1 ''agent.job.approved.v1'' nxt
        [(''approved_by'', JObj [(''type'', JStr ''user''), (''id'', JStr by_id)]),
         (''approval_state'', JStr ''approved''), (''tool_grants'', JArr (map grant_js grants)),
         (''constraints'', constraints_js (approval_constraints j (get_prop input ''constraints'')))] g7)
       (\<lambda>g8 _. (g8, Inr nxt)))))))))"

definition audit_js :: "string \<Rightarrow> int \<Rightarrow> (string \<times> string) list \<Rightarrow> string option \<Rightarrow> js" where
  "audit_js worker attempt calls reason =
     JObj ([(''worker_id'', JStr worker), (''attempt'', JNum (Fin (of_int attempt))),
            (''tool_calls'', JArr (map (\<lambda>(s, w). JObj [(''step_id'', JStr s), (''status'', JStr w)]) calls))]
           @ (case reason of None \<Rightarrow> [] | Some r \<Rightarrow> [(''reason'', JStr r)]))"

definition cancel :: "'s orchestrator \<Rightarrow> string \<Rightarrow> js \<Rightarrow> 's gateway \<Rightarrow> ('s, job) task_result" where
  "cancel O1 i input g =
     andThen (get_job O1 i g) (\<lambda>g1 j.
       if jb_status j \<in> set TERMINAL then (g1, Inl (TaskError ''Job is already terminal'' 409))
       else
     andThen (save_job O1 (j\<lparr>jb_status := Cancelled,
        jb_cancelled := Some (get_prop input ''cancelled_by'', gw_now g), jb_updatedAt := gw_now g\<rparr>) g1) (\<lambda>g2 nxt.
     andThen (emit_event O1 ''agent.job.completed.v1'' nxt
        [(''status'', JStr ''cancelled''),
         (''audit'', audit_js ''zarvis-task-gateway'' (jb_attempt nxt) [] None)] g2) (\<lambda>g3 _. (g3, Inr nxt))))"

text \<open>\<open>job.attempt >= job.max_retries + 1\<close>; \<open>null\<close> counts as 0, a comparison with \<open>NaN\<close> is false.\<close>

definition retries_spent :: "job \<Rightarrow> bool" where
  "retries_spent j =
     (case js_number (jb_maxRetries j) of
        Fin q \<Rightarrow> q + 1 \<le> of_int (jb_attempt j)
      | NegInf \<Rightarrow> True | PosInf \<Rightarrow> False | NaN \<Rightarrow> False)"

definition retry :: "'s orchestrator \<Rightarrow> string \<Rightarrow> 's gateway \<Rightarrow> ('s, job) task_result" where
  "retry O1 i g =
     andThen (get_job O1 i g) (\<lambda>g1 j.
       if jb_status j \<noteq> Failed then (g1, Inl (TaskError ''Only failed jobs can be retried'' 409))
       else if retries_spent j then (g1, Inl (TaskError ''Retry limit exceeded'' 409))
       else
     andThen (save_job O1 (j\<lparr>jb_status := Approved, jb_updatedAt := gw_now g\<rparr>) g1) (\<lambda>g2 nxt.
     andThen (enqueue_job O1 nxt g2) (\<lambda>g3 _. (g3, Inr nxt))))"

section \<open>Running the next job\<close>

definition started_job :: "job \<Rightarrow> queue_item \<Rightarrow> int \<Rightarrow> job" where
  "started_job j item now =
     j\<lparr>jb_status := Running, jb_attempt := qi_attempt item, jb_startedAt := Some now, jb_updatedAt := now\<rparr>"

definition finished_job :: "job \<Rightarrow> worker_result \<Rightarrow> int \<Rightarrow> job" where
  "finished_job running r now =
     running\<lparr>jb_result := Some r, jb_audit := Some (wr_audit r), jb_status := wr_status r, jb_updatedAt := now\<rparr>"

definition broken_job :: "job \<Rightarrow> string \<Rightarrow> int \<Rightarrow> job" where
  "broken_job running m now =
     running\<lparr>jb_status := Failed, jb_error := Some (if m = [] then ''Worker failed'' else m),
       jb_audit := Some \<lparr>wa_workerId = ''zarvis-plan-worker'', wa_attempt = jb_attempt running,
                        wa_toolCalls = [], wa_reason = None\<rparr>,
       jb_updatedAt := now\<rparr>"

definition completed_extra :: "job \<Rightarrow> worker_result \<Rightarrow> (string \<times> js) list" where
  "completed_extra j r =
     [(''status'', JStr (status_word (jb_status j))),
      (''result_refs'', JArr (map (\<lambda>x. JObj [(''type'', JStr ''zarvis-task-result''), (''id'', JStr x)]) (wr_resultRefs r))),
      (''usage'', JObj [(''input_tokens'', JNum (Fin 0)), (''output_tokens'', JNum (Fin 0)), (''runtime_ms'', JNum (Fin 0))]),
      (''audit'', audit_js (wa_workerId (wr_audit r)) (wa_attempt (wr_audit r)) (wa_toolCalls (wr_audit r)) (wa_reason (wr_audit r)))]"

text \<open>The \<open>try\<close> block: the worker, the completed job, its event; \<open>Inl\<close> is the caught message.\<close>

definition attempt_job :: "'s orchestrator \<Rightarrow> job \<Rightarrow> 's gateway \<Rightarrow> ('s gateway, string, job) outcome" where
  "attempt_job O1 running g =
     (case oc_worker O1 (gw_now g) running of
        Inl m \<Rightarrow> (g, Inl m)
      | Inr r \<Rightarrow>
          map_error (\<lambda>e. case e of TaskError m _ \<Rightarrow> m | AdapterError m \<Rightarrow> m)
            (andThen (save_job O1 (finished_job running r (gw_now g)) g) (\<lambda>g1 completed.
             andThen (emit_event O1 ''agent.job.completed.v1'' completed (completed_extra completed r) g1)
               (\<lambda>g2 _. (g2, Inr completed)))))"

definition run_job :: "'s orchestrator \<Rightarrow> job \<Rightarrow> queue_item \<Rightarrow> 's gateway \<Rightarrow> ('s, job) task_result" where
  "run_job O1 j item g =
     andThen (save_job O1 (started_job j item (gw_now g)) g) (\<lambda>g1 running.
       case attempt_job O1 running g1 of
         (g2, Inr completed) \<Rightarrow> (g2, Inr completed)
       | (g2, Inl m) \<Rightarrow>
           andThen (save_job O1 (broken_job running m (gw_now g)) g2) (\<lambda>g3 failed.
           andThen (emit_event O1 ''agent.job.completed.v1'' failed
              [(''status'', JStr ''failed''),
               (''error'', JObj [(''code'', JStr ''WORKER_FAILED''),
                  (''message'', JStr (if m = [] then ''Worker failed'' else m))]),
               (''audit'', audit_js ''zarvis-plan-worker'' (jb_attempt running) [] None)] g3)
             (\<lambda>g4 _. (g4, Inr failed))))"

definition runNext :: "'s orchestrator \<Rightarrow> 's gateway \<Rightarrow> ('s, job option) task_result" where
  "runNext O1 g =
     andThen (on_data (pv_dequeue (oc_providers O1)) g) (\<lambda>g1 item.
       case item of
         None \<Rightarrow> (g1, Inr None)
       | Some it \<Rightarrow>
           andThen (get_job O1 (qi_jobId it) g1) (\<lambda>g2 j.
             if jb_status j \<noteq> Approved then (g2, Inr (Some j))
             else andThen (run_job O1 j it g2) (\<lambda>g3 r. (g3, Inr (Some r)))))"

section \<open>Task plans\<close>

definition ZARVIS_OWNER_USER_ID :: string where
  "ZARVIS_OWNER_USER_ID = ''github:4076926''"

definition ZARVIS_OWNER_TENANT_ID :: string where
  "ZARVIS_OWNER_TENANT_ID = ''owner-4076926''"

definition emit_task ::
  "'s orchestrator \<Rightarrow> string \<Rightarrow> job \<Rightarrow> (string \<times> js) list \<Rightarrow> 's gateway \<Rightarrow> ('s, unit) task_result" where
  "emit_task O1 ty j extra g =
     emit_event O1 ty j ([(''user_id'', JStr ZARVIS_OWNER_USER_ID)] @ extra) g"

definition digest_of :: "job \<Rightarrow> js" where
  "digest_of j = (case jb_task j of None \<Rightarrow> JUndef | Some t \<Rightarrow> JStr (tt_digest t))"

definition submission :: "task_plan \<Rightarrow> string \<Rightarrow> js \<Rightarrow> js \<Rightarrow> js" where
  "submission p key correlation input =
     JObj [(''tenant_id'', JStr ZARVIS_OWNER_TENANT_ID), (''objective'', JStr (pk_objective p)),
           (''tool_grants'', JArr (map grant_js (requestedGrants (pk_steps p)))),
           (''input_refs'', JArr (array_items (get_prop input ''input_refs''))),
           (''idempotency_key'', JStr key), (''correlation_id'', correlation),
           (''requested_by'', JObj [(''type'', JStr ''user''), (''id'', JStr ZARVIS_OWNER_USER_ID)]),
           (''max_retries'', coalesce (get_prop input ''max_retries'') (JNum (Fin 1))),
           (''timeout_seconds'', coalesce (get_prop input ''timeout_seconds'') (JNum (Fin 900)))]"

text \<open>\<open>input.correlation_id ?? randomUUID()\<close>\<close>

definition correlation_for :: "'s orchestrator \<Rightarrow> js \<Rightarrow> 's gateway \<Rightarrow> js \<times> 's gateway" where
  "correlation_for O1 input g =
     (if is_nullish (get_prop input ''correlation_id'')
      then (case draw O1 g of (u, g1) \<Rightarrow> (JStr u, g1)) else (get_prop input ''correlation_id'', g))"

definition planned_job :: "job \<Rightarrow> task_plan \<Rightarrow> string \<Rightarrow> string \<Rightarrow> int \<Rightarrow> job" where
  "planned_job j p digest nonce now =
     j\<lparr>jb_task := Some \<lparr>tt_plan = p, tt_digest = digest, tt_expiresAt = now + APPROVAL_TTL_MS\<rparr>,
       jb_nonce := JStr nonce, jb_updatedAt := now\<rparr>"

definition submitPlan ::
  "'s orchestrator \<Rightarrow> (js \<Rightarrow> string) \<Rightarrow> js \<Rightarrow> 's gateway \<Rightarrow> ('s, nat \<times> job) task_result" where
  "submitPlan O1 H input g =
     andThen (checked (normalizePlan input) g) (\<lambda>g1 p.
     andThen (checked (require_id (get_prop input ''idempotency_key'') ''idempotency_key'') g1) (\<lambda>g2 key.
     andThen (reading (pv_findByIdempotency (oc_providers O1) ZARVIS_OWNER_TENANT_ID key (gw_data g2)) g2) (\<lambda>g3 dup.
       case dup of
         Some j \<Rightarrow>
           (if digest_of j \<noteq> JStr (planDigest H p)
            then (g3, Inl (TaskError ''idempotency_key was already used with a different exact task plan'' 409))
            else (g3, Inr (200, j)))
       | None \<Rightarrow>
          (case correlation_for O1 input g3 of (correlation, g4) \<Rightarrow>
           andThen (submit O1 (submission p key correlation input) g4) (\<lambda>g5 submitted.
            case draw O1 g5 of (nonce, g6) \<Rightarrow>
           andThen (save_job O1 (planned_job (snd submitted) p (planDigest H p) nonce (gw_now g)) g6) (\<lambda>g7 j.
           andThen (emit_task O1 ''zarvis.task.plan-created.v1'' j
              [(''approval_digest'', JStr (planDigest H p)),
               (''approval_expires_at'', JStr (to_iso (gw_now g + APPROVAL_TTL_MS))),
               (''step_count'', JNum (Fin (of_nat (length (pk_steps p)))))] g7)
             (\<lambda>g8 _. (g8, Inr (202, j)))))))))"

text \<open>The proof of approval: unconsumed, for this exact plan, with the nonce, in time.\<close>

definition assertApprovalProof :: "job \<Rightarrow> js \<Rightarrow> int \<Rightarrow> (task_error, unit) result" where
  "assertApprovalProof j input now =
     (if jb_consumedAt j \<noteq> None then Inl (TaskError ''Approval proof was already consumed'' 409)
      else if get_prop input ''approval_digest'' \<noteq> digest_of j
      then Inl (TaskError ''Approval digest does not match the exact task plan'' 409)
      else if get_prop input ''approval_nonce'' \<noteq> jb_nonce j
      then Inl (TaskError ''Approval nonce is invalid'' 409)
      else if (case jb_task j of Some t \<Rightarrow> tt_expiresAt t < now | None \<Rightarrow> False)
      then Inl (TaskError ''Approval proof has expired'' 409)
      else Inr ())"

definition task_approvePlan :: "'s orchestrator \<Rightarrow> string \<Rightarrow> js \<Rightarrow> 's gateway \<Rightarrow> ('s, job) task_result" where
  "task_approvePlan O1 i input g =
     andThen (get_job O1 i g) (\<lambda>g1 j.
       if jb_status j \<noteq> PendingApproval then (g1, Inl (TaskError ''Task is not awaiting approval'' 409))
       else
     andThen (checked (assertApprovalProof j input (gw_now g)) g1) (\<lambda>g2 _.
     andThen (approve O1 i
        (JObj [(''approved_by'', JStr ZARVIS_OWNER_USER_ID),
               (''tool_grants'', JArr (map grant_js (jb_requestedGrants j))),
               (''constraints'', get_prop input ''constraints'')]) g2) (\<lambda>g3 approved.
     save_job O1 (approved\<lparr>jb_consumedAt := Some (gw_now g), jb_nonce := JNull, jb_updatedAt := gw_now g\<rparr>) g3)))"

definition task_pause :: "'s orchestrator \<Rightarrow> string \<Rightarrow> 's gateway \<Rightarrow> ('s, job) task_result" where
  "task_pause O1 i g =
     andThen (get_job O1 i g) (\<lambda>g1 j.
       if jb_status j \<notin> {PendingApproval, Approved}
       then (g1, Inl (TaskError ''Only pending or approved tasks can be paused'' 409))
       else
     andThen (save_job O1 (j\<lparr>jb_status := Paused, jb_pausedFrom := Some (jb_status j),
        jb_pausedAt := Some (gw_now g), jb_updatedAt := gw_now g\<rparr>) g1) (\<lambda>g2 paused.
     andThen (emit_task O1 ''zarvis.task.paused.v1'' paused
        [(''paused_from_status'', JStr (status_word (jb_status j)))] g2) (\<lambda>g3 _. (g3, Inr paused))))"

definition task_resume :: "'s orchestrator \<Rightarrow> string \<Rightarrow> 's gateway \<Rightarrow> ('s, job) task_result" where
  "task_resume O1 i g =
     andThen (get_job O1 i g) (\<lambda>g1 j.
       if jb_status j \<noteq> Paused then (g1, Inl (TaskError ''Only paused tasks can be resumed'' 409))
       else
     let back = (if jb_pausedFrom j = Some Approved then Approved else PendingApproval) in
     andThen (save_job O1 (j\<lparr>jb_status := back, jb_resumedAt := Some (gw_now g), jb_pausedFrom := None,
        jb_updatedAt := gw_now g\<rparr>) g1) (\<lambda>g2 resumed.
     andThen (if back = Approved then andThen (enqueue_job O1 resumed g2) (\<lambda>g3 _. (g3, Inr ())) else (g2, Inr ()))
       (\<lambda>g3 _.
     andThen (emit_task O1 ''zarvis.task.resumed.v1'' resumed [(''resumed_status'', JStr (status_word back))] g3)
       (\<lambda>g4 _. (g4, Inr resumed)))))"

definition task_cancelPlan :: "'s orchestrator \<Rightarrow> string \<Rightarrow> 's gateway \<Rightarrow> ('s, job) task_result" where
  "task_cancelPlan O1 i g = cancel O1 i (JObj [(''cancelled_by'', JStr ZARVIS_OWNER_USER_ID)]) g"

definition task_listPlans :: "'s orchestrator \<Rightarrow> 's gateway \<Rightarrow> ('s, job list) task_result" where
  "task_listPlans O1 g = reading (pv_list (oc_providers O1) ZARVIS_OWNER_TENANT_ID (gw_data g)) g"

text \<open>The plan worker on a job; a job without a plan makes it throw.\<close>

definition zarvis_worker ::
  "(rat \<Rightarrow> string) \<Rightarrow> github \<Rightarrow> int \<Rightarrow> job \<Rightarrow> (string, worker_result) result" where
  "zarvis_worker R gh now j =
     (case jb_task j of
        None \<Rightarrow> Inl ''Cannot read properties of undefined''
      | Some t \<Rightarrow> Inr (execute_plan R gh now (jb_id j) (jb_attempt j) (tt_expiresAt t) (tt_plan t)))"

definition zarvis_runtime ::
  "'s providers \<Rightarrow> (rat \<Rightarrow> string) \<Rightarrow> github \<Rightarrow> (nat \<Rightarrow> string) \<Rightarrow> 's orchestrator" where
  "zarvis_runtime P R gh U =
     \<lparr>oc_providers = P, oc_identity = None, oc_worker = zarvis_worker R gh, oc_uuid = U\<rparr>"

section \<open>The service as a step relation\<close>

text \<open>
  One completed call of a route of the server, whatever it returned or threw; time passing;
  or a change \<open>E\<close> of the adapters' environment (a disk that fills up or recovers).
\<close>

inductive gw_step ::
  "'s orchestrator \<Rightarrow> (js \<Rightarrow> string) \<Rightarrow> ('s \<Rightarrow> 's \<Rightarrow> bool) \<Rightarrow> 's gateway \<Rightarrow> 's gateway \<Rightarrow> bool" for O1 H E where
  submit_plan: "gw_step O1 H E g (fst (submitPlan O1 H input g))"
| approve_plan: "gw_step O1 H E g (fst (task_approvePlan O1 i input g))"
| pause_task: "gw_step O1 H E g (fst (task_pause O1 i g))"
| resume_task: "gw_step O1 H E g (fst (task_resume O1 i g))"
| cancel_task: "gw_step O1 H E g (fst (task_cancelPlan O1 i g))"
| retry_task: "gw_step O1 H E g (fst (retry O1 i g))"
| run_next: "gw_step O1 H E g (fst (runNext O1 g))"
| time_passes: "gw_now g \<le> t \<Longrightarrow> gw_step O1 H E g (g\<lparr>gw_now := t\<rparr>)"
| environment: "E (gw_data g) d \<Longrightarrow> gw_step O1 H E g (g\<lparr>gw_data := d\<rparr>)"

inductive gw_reachable ::
  "'s orchestrator \<Rightarrow> (js \<Rightarrow> string) \<Rightarrow> ('s \<Rightarrow> 's \<Rightarrow> bool) \<Rightarrow> 's \<Rightarrow> 's gateway \<Rightarrow> bool" for O1 H E s0 where
  start: "gw_reachable O1 H E s0 \<lparr>gw_now = t, gw_fresh = 0, gw_data = s0\<rparr>"
| step: "gw_reachable O1 H E s0 g \<Longrightarrow> gw_step O1 H E g g' \<Longrightarrow> gw_reachable O1 H E s0 g'"

end
