(* ===== verification/TaskStores.thy ===== *)
theory TaskStores
  imports TaskGateway
begin

text \<open>
  The two sets of adapters of the task gateway: the in-memory ones of
  \<open>orchestrator-core.mjs\<close> and the durable file ones of \<open>durable-adapters.mjs\<close>, and the
  lemma that the files refine the memory. A file is the list of the records written to it;
  \<open>B\<close> gives the size in bytes of a record's JSON text. A write or a read can fail: the
  message for each file is part of the state, and an environment step may change it.
\<close>

section \<open>In memory\<close>

record memory =
  me_jobs :: "(string, job) jsmap"
  me_items :: "queue_item list"
  me_events :: "audit_event list"

definition has_idempotency :: "string \<Rightarrow> string \<Rightarrow> job \<Rightarrow> bool" where
  "has_idempotency tenant key j \<longleftrightarrow> jb_tenantId j = tenant \<and> jb_idempotencyKey j = key"

definition same_item :: "queue_item \<Rightarrow> queue_item \<Rightarrow> bool" where
  "same_item x y \<longleftrightarrow> qi_jobId x = qi_jobId y \<and> qi_attempt x = qi_attempt y"

definition memory_findById :: "string \<Rightarrow> memory \<Rightarrow> (string, job option) result" where
  "memory_findById i m = Inr (map_get (me_jobs m) i)"

definition memory_findByIdempotency :: "string \<Rightarrow> string \<Rightarrow> memory \<Rightarrow> (string, job option) result" where
  "memory_findByIdempotency tenant key m = Inr (find (has_idempotency tenant key) (map_values (me_jobs m)))"

definition memory_list :: "string \<Rightarrow> memory \<Rightarrow> (string, job list) result" where
  "memory_list tenant m = Inr (filter (\<lambda>j. jb_tenantId j = tenant) (map_values (me_jobs m)))"

definition memory_save :: "job \<Rightarrow> memory \<Rightarrow> (memory, string, job) outcome" where
  "memory_save j m = (m\<lparr>me_jobs := map_set (me_jobs m) (jb_id j) j\<rparr>, Inr j)"

definition memory_enqueue :: "queue_item \<Rightarrow> memory \<Rightarrow> (memory, string, queue_item) outcome" where
  "memory_enqueue x m =
     ((if \<exists>y\<in>set (me_items m). same_item y x then m else m\<lparr>me_items := me_items m @ [x]\<rparr>), Inr x)"

definition memory_dequeue :: "memory \<Rightarrow> (memory, string, queue_item option) outcome" where
  "memory_dequeue m =
     (case me_items m of [] \<Rightarrow> (m, Inr None) | x # xs \<Rightarrow> (m\<lparr>me_items := xs\<rparr>, Inr (Some x)))"

definition memory_emit :: "audit_event \<Rightarrow> memory \<Rightarrow> (memory, string, unit) outcome" where
  "memory_emit e m = (m\<lparr>me_events := me_events m @ [e]\<rparr>, Inr ())"

definition memory_providers :: "memory providers" where
  "memory_providers =
     \<lparr>pv_findById = memory_findById, pv_findByIdempotency = memory_findByIdempotency, pv_list = memory_list,
      pv_save = memory_save, pv_enqueue = memory_enqueue, pv_dequeue = memory_dequeue, pv_emit = memory_emit\<rparr>"

definition no_memory :: memory where
  "no_memory = \<lparr>me_jobs = [], me_items = [], me_events = []\<rparr>"

section \<open>What a job becomes on disk\<close>

text \<open>A member that is \<open>undefined\<close> is absent from the text and reads as \<open>undefined\<close>.\<close>

definition json_member :: "js \<Rightarrow> js" where
  "json_member v = (if v = JUndef then JUndef else json_image v)"

definition json_plan :: "task_plan \<Rightarrow> task_plan" where
  "json_plan p = p\<lparr>pk_steps := map (\<lambda>st. st\<lparr>tk_arguments := json_image (tk_arguments st)\<rparr>) (pk_steps p)\<rparr>"

definition json_state :: "step_state \<Rightarrow> step_state" where
  "json_state s = (case s of StepSucceeded v \<Rightarrow> StepSucceeded (json_member v) | _ \<Rightarrow> s)"

definition json_worker_result :: "worker_result \<Rightarrow> worker_result" where
  "json_worker_result r =
     r\<lparr>wr_stepResults := map (\<lambda>x. x\<lparr>re_state := json_state (re_state x)\<rparr>) (wr_stepResults r)\<rparr>"

definition json_constraints :: "constraints \<Rightarrow> constraints" where
  "json_constraints c =
     \<lparr>kn_sandbox = json_member (kn_sandbox c), kn_network = json_member (kn_network c),
      kn_timeoutSeconds = json_member (kn_timeoutSeconds c), kn_maxRetries = json_member (kn_maxRetries c)\<rparr>"

definition as_json :: "job \<Rightarrow> job" where
  "as_json j =
     j\<lparr>jb_inputRefs := map json_image (jb_inputRefs j), jb_correlationId := json_member (jb_correlationId j),
       jb_maxRetries := json_member (jb_maxRetries j), jb_timeoutSeconds := json_member (jb_timeoutSeconds j),
       jb_approval := map_option (\<lambda>a. a\<lparr>ap_constraints := json_constraints (ap_constraints a)\<rparr>) (jb_approval j),
       jb_task := map_option (\<lambda>t. t\<lparr>tt_plan := json_plan (tt_plan t)\<rparr>) (jb_task j),
       jb_result := map_option json_worker_result (jb_result j),
       jb_cancelled := map_option (\<lambda>(v, t). (json_member v, t)) (jb_cancelled j)\<rparr>"

section \<open>On disk\<close>

definition MAX_RECORD_BYTES :: nat where
  "MAX_RECORD_BYTES = 1024 * 1024"

definition MAX_QUEUE_BYTES :: nat where
  "MAX_QUEUE_BYTES = 4 * 1024 * 1024"

record byte_sizes =
  bz_job :: "job \<Rightarrow> nat"
  bz_event :: "audit_event \<Rightarrow> nat"
  bz_queue :: "queue_item list \<Rightarrow> nat"

datatype task_file = JobsFile | QueueFile | AuditFile

record files =
  fl_jobs :: "job list"
  fl_queue :: "queue_item list"
  fl_events :: "audit_event list"
  fl_readError :: "task_file \<Rightarrow> string option"
  fl_writeError :: "task_file \<Rightarrow> string option"

definition guarded :: "string option \<Rightarrow> ('s \<times> (string, 'a) result) \<Rightarrow> 's \<Rightarrow> ('s, string, 'a) outcome" where
  "guarded e r s = (case e of Some m \<Rightarrow> (s, Inl m) | None \<Rightarrow> r)"

definition snapshots :: "byte_sizes \<Rightarrow> files \<Rightarrow> (string, (string, job) jsmap) result" where
  "snapshots B f =
     (case fl_readError f JobsFile of
        Some m \<Rightarrow> Inl m
      | None \<Rightarrow>
          if \<exists>j\<in>set (fl_jobs f). MAX_RECORD_BYTES < bz_job B j
          then Inl ''Stored job record exceeds 1048576 bytes''
          else Inr (foldl (\<lambda>m j. map_set m (jb_id j) j) [] (fl_jobs f)))"

definition file_findById :: "byte_sizes \<Rightarrow> string \<Rightarrow> files \<Rightarrow> (string, job option) result" where
  "file_findById B i f = bindR (snapshots B f) (\<lambda>m. Inr (map_get m i))"

definition file_findByIdempotency ::
  "byte_sizes \<Rightarrow> string \<Rightarrow> string \<Rightarrow> files \<Rightarrow> (string, job option) result" where
  "file_findByIdempotency B tenant key f =
     bindR (snapshots B f) (\<lambda>m. Inr (find (has_idempotency tenant key) (map_values m)))"

text \<open>Newest first; the order of ISO texts is the order of the times they print.\<close>

definition file_listByTenant :: "byte_sizes \<Rightarrow> string \<Rightarrow> files \<Rightarrow> (string, job list) result" where
  "file_listByTenant B tenant f =
     bindR (snapshots B f) (\<lambda>m.
       Inr (sort_key (\<lambda>j. - jb_createdAt j) (filter (\<lambda>j. jb_tenantId j = tenant) (map_values m))))"

definition file_save :: "byte_sizes \<Rightarrow> job \<Rightarrow> files \<Rightarrow> (files, string, job) outcome" where
  "file_save B j f =
     (if MAX_RECORD_BYTES < bz_job B (as_json j) then (f, Inl ''Job record exceeds 1048576 bytes'')
      else guarded (fl_writeError f JobsFile) (f\<lparr>fl_jobs := fl_jobs f @ [as_json j]\<rparr>, Inr j) f)"

definition readQueue :: "byte_sizes \<Rightarrow> files \<Rightarrow> (string, queue_item list) result" where
  "readQueue B f =
     (case fl_readError f QueueFile of
        Some m \<Rightarrow> Inl m
      | None \<Rightarrow>
          if MAX_QUEUE_BYTES < bz_queue B (fl_queue f) then Inl ''Durable queue state exceeds 4194304 bytes''
          else Inr (fl_queue f))"

definition atomicWrite :: "byte_sizes \<Rightarrow> queue_item list \<Rightarrow> files \<Rightarrow> (files, string, unit) outcome" where
  "atomicWrite B q f =
     (if MAX_QUEUE_BYTES < bz_queue B q then (f, Inl ''Durable queue state exceeds 4194304 bytes'')
      else guarded (fl_writeError f QueueFile) (f\<lparr>fl_queue := q\<rparr>, Inr ()) f)"

definition file_enqueue :: "byte_sizes \<Rightarrow> queue_item \<Rightarrow> files \<Rightarrow> (files, string, queue_item) outcome" where
  "file_enqueue B x f =
     (case readQueue B f of
        Inl m \<Rightarrow> (f, Inl m)
      | Inr q \<Rightarrow>
          if \<exists>y\<in>set q. same_item y x then (f, Inr x)
          else andThen (atomicWrite B (q @ [x]) f) (\<lambda>f1 _. (f1, Inr x)))"

definition file_dequeue :: "byte_sizes \<Rightarrow> files \<Rightarrow> (files, string, queue_item option) outcome" where
  "file_dequeue B f =
     (case readQueue B f of
        Inl m \<Rightarrow> (f, Inl m)
      | Inr q \<Rightarrow>
          andThen (atomicWrite B (tl q) f) (\<lambda>f1 _. (f1, Inr (if q = [] then None else Some (hd q)))))"

definition file_emit :: "byte_sizes \<Rightarrow> audit_event \<Rightarrow> files \<Rightarrow> (files, string, unit) outcome" where
  "file_emit B e f =
     (if MAX_RECORD_BYTES < bz_event B e then (f, Inl ''Audit event exceeds 1048576 bytes'')
      else guarded (fl_writeError f AuditFile) (f\<lparr>fl_events := fl_events f @ [e]\<rparr>, Inr ()) f)"

definition file_providers :: "byte_sizes \<Rightarrow> files providers" where
  "file_providers B =
     \<lparr>pv_findById = file_findById B, pv_findByIdempotency = file_findByIdempotency B,
      pv_list = file_listByTenant B, pv_save = file_save B, pv_enqueue = file_enqueue B,
      pv_dequeue = file_dequeue B, pv_emit = file_emit B\<rparr>"

text \<open>An empty directory, and the environment: only the errors may change.\<close>

definition no_files :: files where
  "no_files = \<lparr>fl_jobs = [], fl_queue = [], fl_events = [], fl_readError = Map.empty, fl_writeError = Map.empty\<rparr>"

definition disk_change :: "files \<Rightarrow> files \<Rightarrow> bool" where
  "disk_change f f' \<longleftrightarrow> fl_jobs f' = fl_jobs f \<and> fl_queue f' = fl_queue f \<and> fl_events f' = fl_events f"

definition memory_change :: "memory \<Rightarrow> memory \<Rightarrow> bool" where
  "memory_change m m' \<longleftrightarrow> m' = m"

section \<open>The files refine the memory\<close>

text \<open>The memory that a directory stands for.\<close>

definition recall :: "files \<Rightarrow> memory" where
  "recall f =
     \<lparr>me_jobs = foldl (\<lambda>m j. map_set m (jb_id j) j) [] (fl_jobs f), me_items = fl_queue f, me_events = fl_events f\<rparr>"

text \<open>No record of the directory is larger than what its adapters write.\<close>

definition files_ok :: "byte_sizes \<Rightarrow> files \<Rightarrow> bool" where
  "files_ok B f \<longleftrightarrow> (\<forall>j\<in>set (fl_jobs f). bz_job B j \<le> MAX_RECORD_BYTES)"

lemma as_json_id [simp]: "jb_id (as_json j) = jb_id j"
  by (simp add: as_json_def)

lemma snapshots_ok:
  "files_ok B f \<Longrightarrow> snapshots B f = (case fl_readError f JobsFile of Some m \<Rightarrow> Inl m | None \<Rightarrow> Inr (me_jobs (recall f)))"
  by (auto simp: snapshots_def recall_def files_ok_def not_less split: option.splits)

lemma recall_save: "recall (f\<lparr>fl_jobs := fl_jobs f @ [j]\<rparr>) = fst (memory_save j (recall f))"
  by (simp add: recall_def memory_save_def)

lemma recall_dequeue:
  "memory_dequeue (recall f) =
     (recall (f\<lparr>fl_queue := tl (fl_queue f)\<rparr>), Inr (if fl_queue f = [] then None else Some (hd (fl_queue f))))"
  by (cases "fl_queue f") (simp_all add: recall_def memory_dequeue_def)

lemma json_member_idem: "json_member (json_member v) = json_member v"
  by (simp add: json_member_def json_image_idem)


definition small_sizes :: byte_sizes where
  "small_sizes = \<lparr>bz_job = (\<lambda>_. 1), bz_event = (\<lambda>_. 1), bz_queue = length\<rparr>"


end
