(* ===== verification/TaskProperties.thy ===== *)
theory TaskProperties
  imports TaskStores
begin

text \<open>
  What the task gateway promises over any adapters that keep the contract of the locale
  \<open>task_adapters\<close>: a store that returns what was saved, a queue that is first-in
  first-out without duplicates, an audit sink that touches neither. Operations may fail.
  The contract is proved for the in-memory and for the file adapters, and the client's
  lemmas carry over.
\<close>

section \<open>The invariant\<close>

definition grants_covered :: "job \<Rightarrow> bool" where
  "grants_covered j \<longleftrightarrow>
     (\<forall>a. jb_approval j = Some a \<longrightarrow> grantKey ` set (ap_grants a) \<subseteq> grantKey ` set (jb_requestedGrants j))"

definition was_approved :: "job \<Rightarrow> bool" where
  "was_approved j \<longleftrightarrow> jb_approval j \<noteq> None"

text \<open>The status and the approval of a job agree.\<close>

definition approval_ok :: "job \<Rightarrow> bool" where
  "approval_ok j \<longleftrightarrow>
     (if was_approved j
      then jb_status j \<noteq> PendingApproval \<and> (jb_status j = Paused \<longrightarrow> jb_pausedFrom j = Some Approved)
      else jb_status j = PendingApproval \<or> jb_status j = Cancelled \<or>
           (jb_status j = Paused \<and> jb_pausedFrom j \<noteq> Some Approved))"

definition retry_limit :: "job \<Rightarrow> rat option" where
  "retry_limit j = (case js_number (jb_maxRetries j) of Fin q \<Rightarrow> Some q | _ \<Rightarrow> None)"

definition awaits_run :: "job \<Rightarrow> bool" where
  "awaits_run j \<longleftrightarrow> jb_status j = Approved \<or> (jb_status j = Paused \<and> jb_pausedFrom j = Some Approved)"

text \<open>The attempts stay within the budget, and a job that awaits a run has one left.\<close>

definition budget_ok :: "job \<Rightarrow> bool" where
  "budget_ok j \<longleftrightarrow> 0 \<le> jb_attempt j \<and> (\<not> was_approved j \<longrightarrow> jb_attempt j = 0) \<and>
     (\<forall>q. retry_limit j = Some q \<longrightarrow>
        (jb_attempt j \<le> 1 \<or> of_int (jb_attempt j) < q + 2) \<and>
        (awaits_run j \<longrightarrow> jb_attempt j = 0 \<or> of_int (jb_attempt j) < q + 1))"

definition job_ok :: "job \<Rightarrow> bool" where
  "job_ok j \<longleftrightarrow> approval_ok j \<and> grants_covered j \<and> budget_ok j"

text \<open>A job is saved again with the same owner and key, its approval and its attempts.\<close>

definition same_key :: "job \<Rightarrow> job \<Rightarrow> bool" where
  "same_key k j \<longleftrightarrow> jb_tenantId k = jb_tenantId j \<and> jb_idempotencyKey k = jb_idempotencyKey j"

definition evolves :: "job \<Rightarrow> job \<Rightarrow> bool" where
  "evolves k j \<longleftrightarrow> same_key k j \<and> (was_approved k \<longrightarrow> was_approved j) \<and> jb_attempt k \<le> jb_attempt j"

lemma evolves_refl [simp]: "evolves j j"
  by (simp add: evolves_def same_key_def)

lemma evolves_trans: "evolves a b \<Longrightarrow> evolves b c \<Longrightarrow> evolves a c"
  by (simp add: evolves_def same_key_def)

definition job_row :: "(job \<Rightarrow> job) \<Rightarrow> (nat \<Rightarrow> string) \<Rightarrow> nat \<Rightarrow> string \<Rightarrow> job \<Rightarrow> bool" where
  "job_row K U n i j \<longleftrightarrow>
     jb_id j = i \<and> (\<exists>m<n. i = U m) \<and> job_ok j \<and> jb_maxRetries (K j) = jb_maxRetries j"

definition unique_keys :: "(string \<Rightarrow> job option) \<Rightarrow> bool" where
  "unique_keys J \<longleftrightarrow> (\<forall>i j i' j'. J i = Some j \<longrightarrow> J i' = Some j' \<longrightarrow> same_key j j' \<longrightarrow> i = i')"

definition jobs_ok :: "(job \<Rightarrow> job) \<Rightarrow> (nat \<Rightarrow> string) \<Rightarrow> nat \<Rightarrow> (string \<Rightarrow> job option) \<Rightarrow> bool" where
  "jobs_ok K U n J \<longleftrightarrow> (\<forall>i j. J i = Some j \<longrightarrow> job_row K U n i j) \<and> unique_keys J"

definition queue_ok :: "(string \<Rightarrow> job option) \<Rightarrow> queue_item list \<Rightarrow> bool" where
  "queue_ok J Q \<longleftrightarrow> distinct (map qi_jobId Q) \<and>
     (\<forall>x\<in>set Q. \<exists>j. J (qi_jobId x) = Some j \<and> qi_attempt x = jb_attempt j + 1)"

text \<open>No job is lost, forgets its approval or takes an attempt back.\<close>

definition grows :: "(string \<Rightarrow> job option) \<Rightarrow> (string \<Rightarrow> job option) \<Rightarrow> bool" where
  "grows J J' \<longleftrightarrow> (\<forall>i j. J i = Some j \<longrightarrow> (\<exists>j'. J' i = Some j' \<and> evolves j j'))"

lemma grows_refl [simp]: "grows J J"
  by (simp add: grows_def)

lemma grows_trans: "grows J J1 \<Longrightarrow> grows J1 J2 \<Longrightarrow> grows J J2"
  unfolding grows_def by (meson evolves_trans)

lemma grows_upd:
  assumes "\<And>k. J i = Some k \<Longrightarrow> evolves k j"
  shows "grows J (J(i \<mapsto> j))"
  using assms by (simp add: grows_def)

lemma unique_keys_upd:
  assumes "unique_keys J" and "\<And>i' k. J i' = Some k \<Longrightarrow> same_key k j \<Longrightarrow> i' = i"
  shows "unique_keys (J(i \<mapsto> j))"
  unfolding unique_keys_def
proof (intro allI impI)
  fix a x b y
  assume h: "(J(i \<mapsto> j)) a = Some x" "(J(i \<mapsto> j)) b = Some y" "same_key x y"
  show "a = b"
  proof (cases "a = i"; cases "b = i")
    assume "a = i" "b \<noteq> i"
    with h assms(2) [of b y] show ?thesis by (simp add: same_key_def)
  next
    assume "a \<noteq> i" "b = i"
    with h assms(2) [of a x] show ?thesis by (simp add: same_key_def)
  next
    assume "a \<noteq> i" "b \<noteq> i"
    with h assms(1) show ?thesis by (simp add: unique_keys_def)
  qed simp
qed

lemma jobs_ok_upd:
  assumes "jobs_ok K U n J" and "job_row K U n i j" and "\<And>i' k. J i' = Some k \<Longrightarrow> same_key k j \<Longrightarrow> i' = i"
  shows "jobs_ok K U n (J(i \<mapsto> j))"
  using assms(1,2) unique_keys_upd [OF _ assms(3)] by (simp add: jobs_ok_def)

lemma jobs_ok_more: "jobs_ok K U n J \<Longrightarrow> n \<le> m \<Longrightarrow> jobs_ok K U m J"
  unfolding jobs_ok_def job_row_def by (meson order_less_le_trans)

lemma queue_ok_upd:
  assumes "queue_ok J Q" and "\<And>x. x \<in> set Q \<Longrightarrow> qi_jobId x = i \<Longrightarrow> qi_attempt x = jb_attempt j + 1"
  shows "queue_ok (J(i \<mapsto> j)) Q"
  using assms by (auto simp: queue_ok_def)

lemma queue_ok_tl: "queue_ok J (x # Q) \<Longrightarrow> queue_ok J Q"
  by (simp add: queue_ok_def)

lemma queue_ok_snoc:
  assumes "queue_ok J Q" and "J (qi_jobId x) = Some j" and "qi_attempt x = jb_attempt j + 1"
  shows "(\<exists>y\<in>set Q. same_item y x) \<longleftrightarrow> qi_jobId x \<in> qi_jobId ` set Q"
    and "qi_jobId x \<notin> qi_jobId ` set Q \<Longrightarrow> queue_ok J (Q @ [x])"
proof -
  have att: "qi_attempt y = qi_attempt x" if "y \<in> set Q" "qi_jobId y = qi_jobId x" for y
    using assms that by (auto simp: queue_ok_def)
  show "(\<exists>y\<in>set Q. same_item y x) \<longleftrightarrow> qi_jobId x \<in> qi_jobId ` set Q"
  proof
    assume "\<exists>y\<in>set Q. same_item y x"
    then show "qi_jobId x \<in> qi_jobId ` set Q"
      by (auto simp: same_item_def intro: rev_image_eqI)
  next
    assume "qi_jobId x \<in> qi_jobId ` set Q"
    then obtain y where "y \<in> set Q" "qi_jobId y = qi_jobId x" by auto
    with att show "\<exists>y\<in>set Q. same_item y x" by (auto simp: same_item_def)
  qed
  show "qi_jobId x \<notin> qi_jobId ` set Q \<Longrightarrow> queue_ok J (Q @ [x])"
    using assms by (simp add: queue_ok_def)
qed

lemmas job_ok_defs = job_ok_def approval_ok_def was_approved_def grants_covered_def budget_ok_def
  awaits_run_def retry_limit_def

lemma andThen_assoc: "andThen (andThen o1 f) h = andThen o1 (\<lambda>s a. andThen (f s a) h)"
  by (cases o1; cases "snd o1") (auto simp: andThen_def split: sum.splits prod.splits)

text \<open>Running: the worker reports one of three outcomes.\<close>

definition proper_worker :: "'s orchestrator \<Rightarrow> bool" where
  "proper_worker O1 \<longleftrightarrow> (\<forall>t j r. oc_worker O1 t j = Inr r \<longrightarrow> wr_status r \<in> {Succeeded, Failed, Expired})"

text \<open>The worker polls \<open>n\<close> times.\<close>

fun run_times :: "'s orchestrator \<Rightarrow> nat \<Rightarrow> 's gateway \<Rightarrow> 's gateway" where
  "run_times O1 0 g = g"
| "run_times O1 (Suc n) g = run_times O1 n (fst (runNext O1 g))"

section \<open>The contract of the adapters\<close>

locale task_adapters =
  fixes P :: "'s providers" and ok :: "'s \<Rightarrow> bool" and jobs :: "'s \<Rightarrow> string \<Rightarrow> job option"
    and items :: "'s \<Rightarrow> queue_item list" and E :: "'s \<Rightarrow> 's \<Rightarrow> bool" and K :: "job \<Rightarrow> job"
    and errors :: "string set"
  assumes find_job: "ok s \<Longrightarrow> pv_findById P i s = Inr r \<Longrightarrow> r = jobs s i"
    and idem_Some: "ok s \<Longrightarrow> pv_findByIdempotency P t k s = Inr (Some j) \<Longrightarrow>
          has_idempotency t k j \<and> (\<exists>i. jobs s i = Some j)"
    and idem_None: "ok s \<Longrightarrow> pv_findByIdempotency P t k s = Inr None \<Longrightarrow> jobs s i = Some j \<Longrightarrow>
          \<not> has_idempotency t k j"
    and save: "ok s \<Longrightarrow> post (pv_save P j s)
          (\<lambda>k s'. k = j \<and> ok s' \<and> items s' = items s \<and> jobs s' = (jobs s)(jb_id j \<mapsto> K j))
          (\<lambda>s'. ok s' \<and> items s' = items s \<and> jobs s' = jobs s)"
    and enqueue: "ok s \<Longrightarrow> post (pv_enqueue P x s)
          (\<lambda>y s'. y = x \<and> ok s' \<and> jobs s' = jobs s \<and>
             items s' = (if \<exists>y\<in>set (items s). same_item y x then items s else items s @ [x]))
          (\<lambda>s'. ok s' \<and> items s' = items s \<and> jobs s' = jobs s)"
    and dequeue: "ok s \<Longrightarrow> post (pv_dequeue P s)
          (\<lambda>r s'. ok s' \<and> jobs s' = jobs s \<and> items s = (case r of None \<Rightarrow> [] | Some x \<Rightarrow> x # items s') \<and>
             (r = None \<longrightarrow> items s' = []))
          (\<lambda>s'. ok s' \<and> items s' = items s \<and> jobs s' = jobs s)"
    and emit: "ok s \<Longrightarrow> post (pv_emit P e s) (\<lambda>_ s'. ok s' \<and> items s' = items s \<and> jobs s' = jobs s)
          (\<lambda>s'. ok s' \<and> items s' = items s \<and> jobs s' = jobs s)"
    and env: "ok s \<Longrightarrow> E s s' \<Longrightarrow> ok s' \<and> items s' = items s \<and> jobs s' = jobs s"
    and kept: "(\<forall>j. K j = j) \<or> (\<forall>j. K j = as_json j)"
    and reliable: "errors = {} \<Longrightarrow> ok s \<Longrightarrow> \<not> isl (pv_findById P i s) \<and> \<not> isl (pv_findByIdempotency P t k s) \<and>
          \<not> isl (snd (pv_save P j s)) \<and> \<not> isl (snd (pv_enqueue P x s)) \<and> \<not> isl (snd (pv_dequeue P s)) \<and>
          \<not> isl (snd (pv_emit P e s))"
begin

lemma K_fields [simp]:
  "jb_id (K j) = jb_id j" "jb_tenantId (K j) = jb_tenantId j" "jb_idempotencyKey (K j) = jb_idempotencyKey j"
  "jb_attempt (K j) = jb_attempt j" "jb_status (K j) = jb_status j" "was_approved (K j) = was_approved j"
  "jb_pausedFrom (K j) = jb_pausedFrom j" "jb_requestedGrants (K j) = jb_requestedGrants j"
  using kept by (auto simp: as_json_def was_approved_def)

lemma K_maxRetries:
  "jb_maxRetries j = jb_maxRetries k \<Longrightarrow> jb_maxRetries (K j) = jb_maxRetries (K k)"
  "jb_maxRetries (K (K j)) = jb_maxRetries (K j)"
  using kept by (auto simp: as_json_def json_member_idem)

lemma K_grants: "grants_covered (K j) = grants_covered j"
proof -
  have "grants_covered (as_json j) = grants_covered j"
    by (cases "jb_approval j") (auto simp: grants_covered_def as_json_def)
  with kept show ?thesis by auto
qed

lemma K_job_ok: "jb_maxRetries (K j) = jb_maxRetries j \<Longrightarrow> job_ok (K j) = job_ok j"
  by (simp add: job_ok_def approval_ok_def K_grants budget_ok_def awaits_run_def retry_limit_def)

definition inv :: "(nat \<Rightarrow> string) \<Rightarrow> 's gateway \<Rightarrow> bool" where
  "inv U g \<longleftrightarrow> ok (gw_data g) \<and> jobs_ok K U (gw_fresh g) (jobs (gw_data g)) \<and>
     queue_ok (jobs (gw_data g)) (items (gw_data g))"

text \<open>The invariant, and that nothing has been lost since \<open>g0\<close>.\<close>

definition good :: "(nat \<Rightarrow> string) \<Rightarrow> 's gateway \<Rightarrow> 's gateway \<Rightarrow> bool" where
  "good U g0 g \<longleftrightarrow> inv U g \<and> grows (jobs (gw_data g0)) (jobs (gw_data g)) \<and> gw_fresh g0 \<le> gw_fresh g"

lemma good_refl: "inv U g \<Longrightarrow> good U g g"
  by (simp add: good_def)

lemma good_ok: "good U g0 g \<Longrightarrow> ok (gw_data g)"
  by (simp add: good_def inv_def)

lemma good_queue: "good U g0 g \<Longrightarrow> queue_ok (jobs (gw_data g)) (items (gw_data g))"
  by (simp add: good_def inv_def)

lemma good_jobs: "good U g0 g \<Longrightarrow> jobs_ok K U (gw_fresh g) (jobs (gw_data g))"
  by (simp add: good_def inv_def)

lemma good_job:
  assumes "good U g0 g" and "jobs (gw_data g) i = Some j"
  shows "jb_id j = i" "job_ok j" "jb_maxRetries (K j) = jb_maxRetries j" "\<exists>m<gw_fresh g. i = U m"
  using good_jobs [OF assms(1)] assms(2) by (simp_all add: jobs_ok_def job_row_def)

lemma good_data:
  assumes "good U g0 g" and "ok d" and "jobs_ok K U (gw_fresh g) (jobs d)" and "queue_ok (jobs d) (items d)"
    and "grows (jobs (gw_data g)) (jobs d)"
  shows "good U g0 (g\<lparr>gw_data := d\<rparr>)"
  using assms grows_trans [OF _ assms(5)] by (simp add: good_def inv_def)

lemma good_same:
  assumes "good U g0 g" and "ok d" and "items d = items (gw_data g)" and "jobs d = jobs (gw_data g)"
  shows "good U g0 (g\<lparr>gw_data := d\<rparr>)"
  using assms good_data [OF assms(1,2)] good_jobs [OF assms(1)] good_queue [OF assms(1)] by simp

lemma good_fresh: "good U g0 g \<Longrightarrow> good U g0 (g\<lparr>gw_fresh := Suc (gw_fresh g)\<rparr>)"
  using jobs_ok_more [of K U "gw_fresh g" _ "Suc (gw_fresh g)"] by (simp add: good_def inv_def)

text \<open>What a job must satisfy to be saved.\<close>

definition savable :: "(nat \<Rightarrow> string) \<Rightarrow> 's gateway \<Rightarrow> job \<Rightarrow> bool" where
  "savable U g j \<longleftrightarrow> job_ok (K j) \<and> (\<exists>m<gw_fresh g. jb_id j = U m) \<and>
     (\<forall>i k. jobs (gw_data g) i = Some k \<longrightarrow> same_key k j \<longrightarrow> i = jb_id j) \<and>
     (\<forall>x\<in>set (items (gw_data g)). qi_jobId x = jb_id j \<longrightarrow> qi_attempt x = jb_attempt j + 1) \<and>
     (\<forall>k. jobs (gw_data g) (jb_id j) = Some k \<longrightarrow> evolves k j)"

lemma K_same_key [simp]: "same_key k (K j) = same_key k j" "evolves k (K j) = evolves k j"
  "same_key (K k) j = same_key k j" "evolves (K k) j = evolves k j"
  by (simp_all add: same_key_def evolves_def)

lemma savable_again:
  assumes "good U g0 g" and "jobs (gw_data g) (jb_id j) = Some k"
    and "evolves k j" "job_ok (K j)"
    and "jb_attempt j = jb_attempt k \<or> jb_id j \<notin> qi_jobId ` set (items (gw_data g))"
  shows "savable U g j"
proof -
  note k = good_job [OF assms(1,2)]
  have "i = jb_id j" if "jobs (gw_data g) i = Some m" "same_key m j" for i m
  proof -
    have "same_key m k" using that(2) assms(3) by (simp add: same_key_def evolves_def)
    with that(1) assms(2) good_jobs [OF assms(1)] show ?thesis by (simp add: jobs_ok_def unique_keys_def)
  qed
  moreover have "qi_attempt x = jb_attempt j + 1" if "x \<in> set (items (gw_data g))" "qi_jobId x = jb_id j" for x
  proof -
    from good_queue [OF assms(1)] that(1) obtain m where
      "jobs (gw_data g) (qi_jobId x) = Some m" "qi_attempt x = jb_attempt m + 1"
      by (auto simp: queue_ok_def)
    moreover have "jb_id j \<in> qi_jobId ` set (items (gw_data g))" using that by force
    ultimately show ?thesis using assms(2,5) that(2) by auto
  qed
  ultimately show ?thesis using assms(2-4) k(4) by (auto simp: savable_def)
qed

lemma savable_update:
  assumes "good U g0 g" and "jobs (gw_data g) (jb_id j) = Some k"
    and "evolves k j" "jb_maxRetries j = jb_maxRetries k" "job_ok j"
    and "jb_attempt j = jb_attempt k \<or> jb_id j \<notin> qi_jobId ` set (items (gw_data g))"
  shows "savable U g j"
proof (rule savable_again [OF assms(1-3) _ assms(6)])
  have "jb_maxRetries (K j) = jb_maxRetries j"
    using K_maxRetries(1) [OF assms(4)] good_job(3) [OF assms(1,2)] assms(4) by simp
  then show "job_ok (K j)" using K_job_ok assms(5) by simp
qed

subsection \<open>One rule per statement\<close>

lemma on_data_post:
  assumes "post (f (gw_data g)) (\<lambda>v d. N v (g\<lparr>gw_data := d\<rparr>)) (\<lambda>d. X (g\<lparr>gw_data := d\<rparr>))"
  shows "post (on_data f g) N X"
  using assms by (simp add: on_data_def post_def split: prod.splits sum.splits)

lemma good_save:
  assumes "good U g0 g" and "savable U g j" and "ok d" and "items d = items (gw_data g)"
    and "jobs d = (jobs (gw_data g))(jb_id j \<mapsto> K j)"
  shows "good U g0 (g\<lparr>gw_data := d\<rparr>)"
proof (rule good_data [OF assms(1,3)])
  have row: "job_row K U (gw_fresh g) (jb_id j) (K j)"
    using assms(2) by (simp add: job_row_def savable_def K_maxRetries(2))
  show "jobs_ok K U (gw_fresh g) (jobs d)" unfolding assms(5)
    by (rule jobs_ok_upd [OF good_jobs [OF assms(1)] row]) (use assms(2) in \<open>simp add: savable_def\<close>)
  show "queue_ok (jobs d) (items d)" unfolding assms(4,5)
    by (rule queue_ok_upd [OF good_queue [OF assms(1)]]) (use assms(2) in \<open>simp add: savable_def\<close>)
  show "grows (jobs (gw_data g)) (jobs d)" unfolding assms(5)
    by (rule grows_upd) (use assms(2) in \<open>simp add: savable_def\<close>)
qed

lemma save_post:
  assumes "good U g0 g" and "savable U g j" and "oc_providers O1 = P"
    and N: "\<And>g'. good U g0 g' \<Longrightarrow> jobs (gw_data g') = (jobs (gw_data g))(jb_id j \<mapsto> K j) \<Longrightarrow>
           items (gw_data g') = items (gw_data g) \<Longrightarrow> N j g'"
    and X: "\<And>g'. errors \<noteq> {} \<Longrightarrow> good U g0 g' \<Longrightarrow> jobs (gw_data g') = jobs (gw_data g) \<Longrightarrow>
           items (gw_data g') = items (gw_data g) \<Longrightarrow> X g'"
  shows "post (save_job O1 j g) N X"
  unfolding save_job_def assms(3)
proof (rule on_data_post, rule post_faulty [where b = "errors \<noteq> {}", OF save [OF good_ok [OF assms(1)], of j]])
  show "\<not> errors \<noteq> {} \<Longrightarrow> \<not> isl (snd (pv_save P j (gw_data g)))" using reliable good_ok [OF assms(1)] by blast
next
  fix k d
  assume "k = j \<and> ok d \<and> items d = items (gw_data g) \<and> jobs d = (jobs (gw_data g))(jb_id j \<mapsto> K j)"
  then show "N k (g\<lparr>gw_data := d\<rparr>)" using N [of "g\<lparr>gw_data := d\<rparr>"] good_save [OF assms(1,2), of d] by simp
next
  fix d
  assume "errors \<noteq> {}" and "ok d \<and> items d = items (gw_data g) \<and> jobs d = jobs (gw_data g)"
  then show "X (g\<lparr>gw_data := d\<rparr>)" using X good_same [OF assms(1)] by simp
qed

lemma emit_post:
  assumes "good U g0 g" and "oc_providers O1 = P"
    and N: "\<And>g'. good U g0 g' \<Longrightarrow> jobs (gw_data g') = jobs (gw_data g) \<Longrightarrow> items (gw_data g') = items (gw_data g) \<Longrightarrow> N () g'"
    and X: "\<And>g'. errors \<noteq> {} \<Longrightarrow> good U g0 g' \<Longrightarrow> jobs (gw_data g') = jobs (gw_data g) \<Longrightarrow>
           items (gw_data g') = items (gw_data g) \<Longrightarrow> X g'"
  shows "post (emit_event O1 ty j ex g) N X"
proof -
  let ?g = "g\<lparr>gw_fresh := Suc (gw_fresh g)\<rparr>"
  note g1 = good_fresh [OF assms(1)]
  have same: "good U g0 (?g\<lparr>gw_data := d\<rparr>)"
    if "ok d \<and> items d = items (gw_data ?g) \<and> jobs d = jobs (gw_data ?g)" for d
    using that good_same [OF g1] by blast
  show ?thesis unfolding emit_event_def draw_def assms(2) prod.case
  proof (rule on_data_post, rule post_faulty [where b = "errors \<noteq> {}", OF emit [OF good_ok [OF g1]]])
    fix e
    show "\<not> errors \<noteq> {} \<Longrightarrow> \<not> isl (snd (pv_emit P e (gw_data ?g)))" using reliable good_ok [OF g1] by blast
  qed (use same N X in force)+
qed

lemma enqueue_post:
  assumes "good U g0 g" and "oc_providers O1 = P" and "jobs (gw_data g) (jb_id j) = Some (K j)"
    and N: "\<And>x g'. good U g0 g' \<Longrightarrow> jobs (gw_data g') = jobs (gw_data g) \<Longrightarrow>
           insert (jb_id j) (qi_jobId ` set (items (gw_data g))) = qi_jobId ` set (items (gw_data g')) \<Longrightarrow> N x g'"
    and X: "\<And>g'. errors \<noteq> {} \<Longrightarrow> good U g0 g' \<Longrightarrow> jobs (gw_data g') = jobs (gw_data g) \<Longrightarrow>
           items (gw_data g') = items (gw_data g) \<Longrightarrow> X g'"
  shows "post (enqueue_job O1 j g) N X"
proof -
  let ?x = "\<lparr>qi_jobId = jb_id j, qi_tenantId = jb_tenantId j, qi_attempt = jb_attempt j + 1, qi_enqueuedAt = gw_now g\<rparr>"
  note sn = queue_ok_snoc [OF good_queue [OF assms(1)], of ?x "K j"]
  have jx: "jobs (gw_data g) (qi_jobId ?x) = Some (K j)" "qi_attempt ?x = jb_attempt (K j) + 1"
    using assms(3) by simp_all
  have step: "good U g0 (g\<lparr>gw_data := d\<rparr>) \<and> insert (jb_id j) (qi_jobId ` set (items (gw_data g))) = qi_jobId ` set (items d)"
    if d: "ok d" "jobs d = jobs (gw_data g)"
      "items d = (if \<exists>y\<in>set (items (gw_data g)). same_item y ?x then items (gw_data g) else items (gw_data g) @ [?x])"
    for d
  proof (cases "jb_id j \<in> qi_jobId ` set (items (gw_data g))")
    case True
    then have "items d = items (gw_data g)" using d(3) sn(1) [OF jx] by simp
    with True good_same [OF assms(1) d(1) _ d(2)] show ?thesis by (simp add: insert_absorb)
  next
    case False
    then have i: "items d = items (gw_data g) @ [?x]" using d(3) sn(1) [OF jx] by simp
    have "queue_ok (jobs d) (items d)" unfolding i d(2) using sn(2) [OF jx] False by simp
    with i good_data [OF assms(1) d(1)] d(2) good_jobs [OF assms(1)] show ?thesis by simp
  qed
  show ?thesis unfolding enqueue_job_def assms(2)
  proof (rule on_data_post, rule post_faulty [where b = "errors \<noteq> {}", OF enqueue [OF good_ok [OF assms(1)], of ?x]])
    show "\<not> errors \<noteq> {} \<Longrightarrow> \<not> isl (snd (pv_enqueue P ?x (gw_data g)))" using reliable good_ok [OF assms(1)] by blast
  next
    fix y d
    assume "y = ?x \<and> ok d \<and> jobs d = jobs (gw_data g) \<and>
      items d = (if \<exists>y\<in>set (items (gw_data g)). same_item y ?x then items (gw_data g) else items (gw_data g) @ [?x])"
    then show "N y (g\<lparr>gw_data := d\<rparr>)" using step [of d] N [of "g\<lparr>gw_data := d\<rparr>" y] by simp
  next
    fix d
    assume "errors \<noteq> {}" and "ok d \<and> items d = items (gw_data g) \<and> jobs d = jobs (gw_data g)"
    then show "X (g\<lparr>gw_data := d\<rparr>)" using X good_same [OF assms(1)] by simp
  qed
qed

lemma get_post:
  assumes "good U g0 g" and "oc_providers O1 = P"
    and "\<And>j. jobs (gw_data g) i = Some j \<Longrightarrow> N j g" and "errors \<noteq> {} \<or> jobs (gw_data g) i = None \<Longrightarrow> X g"
  shows "post (get_job O1 i g) N X"
proof (cases "pv_findById P i (gw_data g)")
  case (Inl m)
  then have "errors \<noteq> {}" using reliable good_ok [OF assms(1)] by (metis sum.disc(1))
  with Inl assms(4) show ?thesis by (simp add: get_job_def reading_def assms(2))
next
  case (Inr r)
  then have "r = jobs (gw_data g) i" by (rule find_job [OF good_ok [OF assms(1)]])
  with Inr assms(3,4) show ?thesis by (simp add: get_job_def reading_def assms(2) split: option.splits)
qed

lemma checked_post: "(\<And>v. r = Inr v \<Longrightarrow> N v g) \<Longrightarrow> X g \<Longrightarrow> post (checked r g) N X"
  by (cases r) (simp_all add: checked_def)

lemma reading_post:
  "(\<And>v. r = Inr v \<Longrightarrow> N v g) \<Longrightarrow> X g \<Longrightarrow> post (reading r g) N X"
  by (cases r) (simp_all add: reading_def)

text \<open>Without faults, a job that awaits its run is queued.\<close>

definition live :: "'s gateway \<Rightarrow> bool" where
  "live g \<longleftrightarrow> (\<forall>i j. jobs (gw_data g) i = Some j \<longrightarrow> jb_status j = Approved \<longrightarrow>
     i \<in> qi_jobId ` set (items (gw_data g)))"

definition sound :: "(nat \<Rightarrow> string) \<Rightarrow> 's gateway \<Rightarrow> 's gateway \<Rightarrow> bool" where
  "sound U g0 g \<longleftrightarrow> good U g0 g \<and> (errors = {} \<longrightarrow> live g)"

lemma sound_faulty: "errors \<noteq> {} \<Longrightarrow> good U g0 g \<Longrightarrow> sound U g0 g"
  by (simp add: sound_def)

lemma sound_live: "sound U g0 g \<Longrightarrow> errors = {} \<Longrightarrow> live g"
  unfolding sound_def by blast

lemma sound_good: "sound U g0 g \<Longrightarrow> good U g0 g"
  by (simp add: sound_def)

lemma sound_upd:
  assumes "good U g0 g'" and "sound U g0 g" and "jobs (gw_data g') = (jobs (gw_data g))(i \<mapsto> j)"
    and "qi_jobId ` set (items (gw_data g)) - {i} \<subseteq> qi_jobId ` set (items (gw_data g'))"
    and "jb_status j = Approved \<Longrightarrow> i \<in> qi_jobId ` set (items (gw_data g'))"
  shows "sound U g0 g'"
  using assms by (auto simp: sound_def live_def split: if_splits)

lemma sound_same:
  assumes "good U g0 g'" and "sound U g0 g" and "jobs (gw_data g') = jobs (gw_data g)"
    and "items (gw_data g') = items (gw_data g)"
  shows "sound U g0 g'"
  using assms by (simp add: sound_def live_def)

subsection \<open>The operations\<close>

lemma update_post:
  assumes s: "sound U g0 g" and P: "oc_providers O1 = P" and k: "jobs (gw_data g) (jb_id j) = Some k"
    and j: "evolves k j" "jb_maxRetries j = jb_maxRetries k" "job_ok j"
    and att: "jb_attempt j = jb_attempt k \<or> jb_id j \<notin> qi_jobId ` set (items (gw_data g))"
    and live: "jb_status j = Approved \<Longrightarrow> jb_id j \<in> qi_jobId ` set (items (gw_data g))"
    and N: "\<And>g'. sound U g0 g' \<Longrightarrow> jobs (gw_data g') = (jobs (gw_data g))(jb_id j \<mapsto> K j) \<Longrightarrow>
              items (gw_data g') = items (gw_data g) \<Longrightarrow> N j g'"
    and X: "\<And>g'. sound U g0 g' \<Longrightarrow> X g'"
  shows "post (save_job O1 j g) N X"
proof (rule save_post [OF sound_good [OF s] savable_update [OF sound_good [OF s] k j att] P])
  fix g' assume g': "good U g0 g'" "jobs (gw_data g') = (jobs (gw_data g))(jb_id j \<mapsto> K j)"
    "items (gw_data g') = items (gw_data g)"
  have "sound U g0 g'" by (rule sound_upd [OF g'(1) s g'(2)]) (use g'(3) live in auto)
  with N g'(2,3) show "N j g'" by blast
next
  fix g' assume "errors \<noteq> {}" "good U g0 g'"
  with X sound_faulty show "X g'" by blast
qed

lemma notify_post:
  assumes s: "sound U g0 g" and P: "oc_providers O1 = P"
    and N: "\<And>g'. sound U g0 g' \<Longrightarrow> jobs (gw_data g') = jobs (gw_data g) \<Longrightarrow> items (gw_data g') = items (gw_data g) \<Longrightarrow> N () g'"
    and X: "\<And>g'. sound U g0 g' \<Longrightarrow> X g'"
  shows "post (emit_event O1 ty j ex g) N X"
proof (rule emit_post [OF sound_good [OF s] P])
  fix g' assume "good U g0 g'" "jobs (gw_data g') = jobs (gw_data g)" "items (gw_data g') = items (gw_data g)"
  with sound_same [OF _ s] N show "N () g'" by blast
next
  fix g' assume "errors \<noteq> {}" "good U g0 g'"
  with X sound_faulty show "X g'" by blast
qed

text \<open>A job becomes approved and is queued for its next attempt.\<close>

lemma requeue_post:
  assumes s: "sound U g0 g" and P: "oc_providers O1 = P" and k: "jobs (gw_data g) (jb_id j) = Some k"
    and j: "evolves k j" "jb_maxRetries j = jb_maxRetries k" "job_ok j" "jb_attempt j = jb_attempt k"
    and N: "\<And>x g'. sound U g0 g' \<Longrightarrow> jobs (gw_data g') = (jobs (gw_data g))(jb_id j \<mapsto> K j) \<Longrightarrow>
              jb_id j \<in> qi_jobId ` set (items (gw_data g')) \<Longrightarrow> post (f j x g') N X"
    and X: "\<And>g'. sound U g0 g' \<Longrightarrow> X g'"
  shows "post (andThen (save_job O1 j g) (\<lambda>g2 nxt. andThen (enqueue_job O1 nxt g2) (\<lambda>g3 x. f nxt x g3))) N X"
proof (rule post_andThen, rule save_post [OF sound_good [OF s] savable_update [OF sound_good [OF s] k j(1-3)] P])
  fix g2 assume g2: "good U g0 g2" "jobs (gw_data g2) = (jobs (gw_data g))(jb_id j \<mapsto> K j)"
    "items (gw_data g2) = items (gw_data g)"
  show "post (andThen (enqueue_job O1 j g2) (\<lambda>g3 x. f j x g3)) N X"
  proof (rule post_andThen, rule enqueue_post [OF g2(1) P])
    fix x g3 assume g3: "good U g0 g3" "jobs (gw_data g3) = jobs (gw_data g2)"
      "insert (jb_id j) (qi_jobId ` set (items (gw_data g2))) = qi_jobId ` set (items (gw_data g3))"
    have up: "jobs (gw_data g3) = (jobs (gw_data g))(jb_id j \<mapsto> K j)" using g2(2) g3(2) by simp
    have "sound U g0 g3" by (rule sound_upd [OF g3(1) s up]) (use g2(3) g3(3) in auto)
    with N up g3(3) show "post (f j x g3) N X" by blast
  next
    show "jobs (gw_data g2) (jb_id j) = Some (K j)" using g2(2) by simp
  next
    fix g' assume "errors \<noteq> {}" "good U g0 g'"
    with X sound_faulty show "X g'" by blast
  qed
next
  fix g' assume "errors \<noteq> {}" "good U g0 g'"
  with X sound_faulty show "X g'" by blast
qed (simp add: j)

lemma evolves_upd:
  "jb_tenantId j = jb_tenantId k \<Longrightarrow> jb_idempotencyKey j = jb_idempotencyKey k \<Longrightarrow> jb_attempt j = jb_attempt k \<Longrightarrow>
   (jb_approval j = jb_approval k \<or> jb_approval j \<noteq> None) \<Longrightarrow> evolves k j"
  by (auto simp: evolves_def same_key_def was_approved_def)

lemma retry_sound:
  assumes s: "sound U g0 g" and P: "oc_providers O1 = P"
  shows "post (retry O1 i g) (\<lambda>_. sound U g0) (sound U g0)"
  unfolding retry_def
proof (rule post_andThen, rule get_post [OF sound_good [OF s] P], split if_split, intro conjI impI, goal_cases)
  case (2 j)
  note jf = good_job [OF sound_good [OF s] 2(1)]
  show ?case
  proof (split if_split, intro conjI impI, goal_cases)
    case 2
    have "job_ok (j\<lparr>jb_status := Approved, jb_updatedAt := gw_now g\<rparr>)"
      using jf(2) \<open>\<not> jb_status j \<noteq> Failed\<close> 2 by (auto simp: job_ok_defs retries_spent_def split: if_splits jsnum.splits)
    then show ?case
      by (intro requeue_post [OF s P, where k = j]) (simp_all add: jf(1) \<open>jobs (gw_data g) i = Some j\<close> evolves_upd)
  qed (use s in simp)
qed (use s in simp_all)

lemma cancel_sound:
  assumes s: "sound U g0 g" and P: "oc_providers O1 = P"
  shows "post (cancel O1 i inp g) (\<lambda>_. sound U g0) (sound U g0)"
  unfolding cancel_def
proof (rule post_andThen, rule get_post [OF sound_good [OF s] P], split if_split, intro conjI impI, goal_cases)
  case (2 j)
  note jf = good_job [OF sound_good [OF s] 2(1)]
  show ?case
    by (intro post_andThen update_post [OF s P, where k = j] notify_post [OF _ P])
       (use jf 2(1) in \<open>auto simp: evolves_upd job_ok_defs split: if_splits\<close>)
qed (use s in simp_all)

lemma pause_sound:
  assumes s: "sound U g0 g" and P: "oc_providers O1 = P"
  shows "post (task_pause O1 i g) (\<lambda>_. sound U g0) (sound U g0)"
  unfolding task_pause_def emit_task_def
proof (rule post_andThen, rule get_post [OF sound_good [OF s] P], split if_split, intro conjI impI, goal_cases)
  case (2 j)
  note jf = good_job [OF sound_good [OF s] 2(1)]
  show ?case
    by (intro post_andThen update_post [OF s P, where k = j] notify_post [OF _ P])
       (use jf 2 in \<open>auto simp: evolves_upd job_ok_defs split: if_splits\<close>)
qed (use s in simp_all)

lemma resume_sound:
  assumes s: "sound U g0 g" and P: "oc_providers O1 = P"
  shows "post (task_resume O1 i g) (\<lambda>_. sound U g0) (sound U g0)"
  unfolding task_resume_def emit_task_def
proof (rule post_andThen, rule get_post [OF sound_good [OF s] P], split if_split, intro conjI impI, goal_cases)
  case (2 j)
  note jf = good_job [OF sound_good [OF s] 2(1)]
  show ?case
  proof (cases "jb_pausedFrom j = Some Approved")
    case True
    let ?j = "j\<lparr>jb_status := Approved, jb_resumedAt := Some (gw_now g), jb_pausedFrom := None, jb_updatedAt := gw_now g\<rparr>"
    have "job_ok ?j" using jf(2) 2 True by (auto simp: job_ok_defs split: if_splits)
    then have "post (andThen (save_job O1 ?j g) (\<lambda>g2 nxt. andThen (enqueue_job O1 nxt g2) (\<lambda>g3 x.
        andThen (emit_event O1 ty nxt ex g3) (\<lambda>g4 _. (g4, Inr nxt))))) (\<lambda>_. sound U g0) (sound U g0)" for ty ex
      by (intro requeue_post [OF s P, where k = j] post_andThen notify_post [OF _ P])
         (simp_all add: jf(1) 2(1) evolves_upd)
    with True show ?thesis by (simp add: Let_def andThen_assoc)
  next
    case False
    let ?j = "j\<lparr>jb_status := PendingApproval, jb_resumedAt := Some (gw_now g), jb_pausedFrom := None, jb_updatedAt := gw_now g\<rparr>"
    have "job_ok ?j" using jf(2) 2 False by (auto simp: job_ok_defs split: if_splits)
    then have "post (andThen (save_job O1 ?j g) (\<lambda>g2 nxt.
        andThen (emit_event O1 ty nxt ex g2) (\<lambda>g4 _. (g4, Inr nxt)))) (\<lambda>_. sound U g0) (sound U g0)" for ty ex
      by (intro post_andThen update_post [OF s P, where k = j] notify_post [OF _ P])
         (simp_all add: jf(1) 2(1) evolves_upd)
    with False show ?thesis by (simp add: Let_def)
  qed
qed (use s in simp_all)

text \<open>Approving: what the caller knows of the job it returns.\<close>

lemma approve_sound:
  assumes s: "sound U g0 g" and P: "oc_providers O1 = P" and X: "\<And>g'. sound U g0 g' \<Longrightarrow> X g'"
    and N: "\<And>j g'. sound U g0 g' \<Longrightarrow> jobs (gw_data g') (jb_id j) = Some (K j) \<Longrightarrow> jb_id j = i \<Longrightarrow> job_ok j \<Longrightarrow>
       jb_maxRetries (K j) = jb_maxRetries j \<Longrightarrow> jb_status j = Approved \<Longrightarrow>
       jb_id j \<in> qi_jobId ` set (items (gw_data g')) \<Longrightarrow> N j g'"
  shows "post (approve O1 i inp g) N X"
  unfolding approve_def
proof (rule post_andThen, rule get_post [OF sound_good [OF s] P], split if_split, intro conjI impI, goal_cases)
  case (2 j)
  note jf = good_job [OF sound_good [OF s] 2(1)]
  have X': "X g" using X s .
  show ?case
  proof (intro post_andThen checked_post X', goal_cases)
    case (1 by_id u grants v)
    let ?j = "j\<lparr>jb_status := Approved,
           jb_approval := Some \<lparr>ap_approvedBy = by_id, ap_approvedAt = gw_now g, ap_grants = grants,
              ap_constraints = approval_constraints j (get_prop inp ''constraints'')\<rparr>,
           jb_updatedAt := gw_now g\<rparr>"
    have "grantKey ` set grants \<subseteq> grantKey ` set (jb_requestedGrants j)"
      using 1(4) by (auto simp: assertApprovedGrants_def split: if_splits)
    moreover have "jb_status j = PendingApproval" using 2(2) by simp
    ultimately have ok: "job_ok ?j" using jf(2) by (auto simp: job_ok_defs split: if_splits)
    have stable: "jb_maxRetries (K ?j) = jb_maxRetries ?j"
      using K_maxRetries(1) [of ?j j] jf(3) by simp
    have "post (andThen (save_job O1 ?j g) (\<lambda>g2 nxt. andThen (enqueue_job O1 nxt g2) (\<lambda>g3 x.
        andThen (emit_event O1 ty nxt ex g3) (\<lambda>g4 _. (g4, Inr nxt))))) N X" for ty ex
      by (intro requeue_post [OF s P, where k = j] post_andThen notify_post [OF _ P])
         (use X jf(1) 2(1) ok stable in \<open>auto simp: evolves_upd intro: N\<close>)
    then show ?case by (simp add: post_andThen_iff)
  qed
qed (use X s in simp_all)

lemma approve_plan_sound:
  assumes s: "sound U g0 g" and P: "oc_providers O1 = P"
  shows "post (task_approvePlan O1 i inp g) (\<lambda>j g'. sound U g0 g' \<and> jobs (gw_data g') i = Some (K j) \<and> was_approved j)
           (sound U g0)"
  unfolding task_approvePlan_def
proof (rule post_andThen, rule get_post [OF sound_good [OF s] P], split if_split, intro conjI impI, goal_cases)
  case (2 j)
  show ?case
  proof (rule post_andThen, rule checked_post, rule post_andThen, rule approve_sound [OF s P], goal_cases)
    case (2 v a g')
    let ?j = "a\<lparr>jb_consumedAt := Some (gw_now g), jb_nonce := JNull, jb_updatedAt := gw_now g\<rparr>"
    have "job_ok ?j" using 2(5) by (simp add: job_ok_defs)
    moreover have "was_approved a" using 2(5,7) by (auto simp: job_ok_defs split: if_splits)
    ultimately show ?case
      by (intro update_post [OF 2(2) P, where k = "K a"])
         (use 2 in \<open>auto simp: evolves_upd was_approved_def\<close>)
  qed (use s in simp_all)
qed (use s in simp_all)

text \<open>A job that awaits its first approval.\<close>

definition fresh_job :: "job \<Rightarrow> bool" where
  "fresh_job j \<longleftrightarrow> jb_status j = PendingApproval \<and> \<not> was_approved j \<and> jb_attempt j = 0"

lemma fresh_job_ok: "fresh_job j \<Longrightarrow> job_ok j"
  by (auto simp: fresh_job_def job_ok_defs)

lemma K_fresh_job: "fresh_job (K j) = fresh_job j"
  by (simp add: fresh_job_def)

lemma savable_new:
  assumes "good U g0 g" and "fresh_job j" and "inj U" and "jb_id j = U n" and "gw_fresh g = n + 1"
    and "\<And>i k. jobs (gw_data g) i = Some k \<Longrightarrow> \<not> same_key k j \<and> i \<noteq> U n"
  shows "savable U g j"
proof -
  have "jb_id j \<notin> qi_jobId ` set (items (gw_data g))"
    using good_queue [OF assms(1)] assms(4,6) by (fastforce simp: queue_ok_def)
  moreover have "job_ok (K j)" using fresh_job_ok assms(2) by (simp add: K_fresh_job)
  moreover have "\<exists>m<gw_fresh g. jb_id j = U m" using assms(4,5) by auto
  moreover have "jobs (gw_data g) (jb_id j) = None" using assms(4,6) by (metis not_None_eq)
  moreover have "qi_jobId x \<noteq> jb_id j" if "x \<in> set (items (gw_data g))" for x
    using \<open>jb_id j \<notin> _\<close> that by force
  ultimately show ?thesis using assms(6) by (auto simp: savable_def)
qed

lemma submit_sound:
  assumes s: "sound U g0 g" and P: "oc_providers O1 = P" and U: "oc_uuid O1 = U" "inj U"
    and X: "\<And>g'. sound U g0 g' \<Longrightarrow> X g'"
    and dup: "\<And>j t k. core_require_string (get_prop inp ''tenant_id'') ''tenant_id'' = Inr t \<Longrightarrow>
       core_require_string (get_prop inp ''idempotency_key'') ''idempotency_key'' = Inr k \<Longrightarrow>
       pv_findByIdempotency P t k (gw_data g) = Inr (Some j) \<Longrightarrow> N (200, j) g"
    and N: "\<And>j g'. sound U g0 g' \<Longrightarrow> jobs (gw_data g') (jb_id j) = Some (K j) \<Longrightarrow> fresh_job j \<Longrightarrow> N (202, j) g'"
  shows "post (submit O1 inp g) N X"
proof -
  have X': "X g" using X s .
  show ?thesis unfolding submit_def P
  proof (intro post_andThen checked_post reading_post X', goal_cases)
    case (1 tenant objective key d)
    show ?case
    proof (cases d)
      case (Some j)
      with dup 1 show ?thesis by simp
    next
      case None
      note none = idem_None [OF good_ok [OF sound_good [OF s]] 1(4) [unfolded None]]
      let ?g = "g\<lparr>gw_fresh := Suc (gw_fresh g)\<rparr>" and ?i = "U (gw_fresh g)"
      have s1: "sound U g0 ?g"
        by (rule sound_same [OF good_fresh [OF sound_good [OF s]] s]) simp_all
      have "post (andThen (checked r ?g) (\<lambda>g6 grants.
           andThen (save_job O1 (new_job ?i tenant objective grants key (gw_now g) inp) g6) (\<lambda>g7 saved.
           andThen (emit_event O1 ty saved (ex saved) g7) (\<lambda>g8 _. (g8, Inr (202, saved)))))) N X" for r ty ex
      proof (rule post_andThen, rule checked_post, rule post_andThen, goal_cases)
        case (1 grants)
        let ?j = "new_job ?i tenant objective grants key (gw_now g) inp"
        have fr: "fresh_job ?j" by (simp add: fresh_job_def new_job_def was_approved_def)
        have sv: "savable U ?g ?j"
        proof (rule savable_new [OF sound_good [OF s1] fr U(2), of "gw_fresh g"])
          fix i k assume k: "jobs (gw_data ?g) i = Some k"
          from good_job(4) [OF sound_good [OF s], of i k] k obtain m where "m < gw_fresh g" "i = U m" by auto
          then have "i \<noteq> ?i" using U(2) by (auto dest: injD)
          moreover have "\<not> same_key k ?j"
            using none [of i k] k by (simp add: has_idempotency_def same_key_def new_job_def)
          ultimately show "\<not> same_key k ?j \<and> i \<noteq> ?i" by simp
        qed (simp_all add: new_job_def)
        show ?case
        proof (rule save_post [OF sound_good [OF s1] sv P])
          fix g' assume g': "good U g0 g'" "jobs (gw_data g') = (jobs (gw_data ?g))(jb_id ?j \<mapsto> K ?j)"
            "items (gw_data g') = items (gw_data ?g)"
          have s2: "sound U g0 g'"
            by (rule sound_upd [OF g'(1) s1 g'(2)]) (use g'(3) fr in \<open>auto simp: fresh_job_def\<close>)
          show "post (andThen (emit_event O1 ty ?j (ex ?j) g') (\<lambda>g8 _. (g8, Inr (202, ?j)))) N X"
            by (rule post_andThen, rule notify_post [OF s2 P]) (use X g'(2) fr in \<open>auto intro: N\<close>)
        next
          fix g' assume "errors \<noteq> {}" "good U g0 g'"
          with X sound_faulty show "X g'" by blast
        qed
      qed (use X s1 in auto)
      with None show ?thesis by (simp add: draw_def U(1))
    qed
  qed
qed

lemma owner_text: "core_require_string (JStr ZARVIS_OWNER_TENANT_ID) f = Inr ZARVIS_OWNER_TENANT_ID"
proof -
  have "js_trim ZARVIS_OWNER_TENANT_ID = ZARVIS_OWNER_TENANT_ID" by code_simp
  then show ?thesis by (simp add: core_require_string_def ZARVIS_OWNER_TENANT_ID_def)
qed

lemma require_id_core: "require_id v f = Inr k \<Longrightarrow> core_require_string (JStr k) f' = Inr k"
  by (auto simp: require_id_Inr require_string_Inr bounded_text_def core_require_string_def js_trim_idem)

lemma submission_props:
  "get_prop (submission p key c inp) ''tenant_id'' = JStr ZARVIS_OWNER_TENANT_ID"
  "get_prop (submission p key c inp) ''idempotency_key'' = JStr key"
  by (simp_all add: submission_def)

lemma correlation_sound:
  assumes "sound U g0 g" and "oc_uuid O1 = U" and "correlation_for O1 inp g = (c, g')"
  shows "sound U g0 g' \<and> gw_data g' = gw_data g"
  using assms sound_same [OF good_fresh [OF sound_good [OF assms(1)]] assms(1)]
  by (auto simp: correlation_for_def draw_def split: if_splits)

lemma submitPlan_sound:
  assumes s: "sound U g0 g" and P: "oc_providers O1 = P" and U: "oc_uuid O1 = U" "inj U"
  shows "post (submitPlan O1 H inp g) (\<lambda>_. sound U g0) (sound U g0)"
  unfolding submitPlan_def P
proof (intro post_andThen checked_post reading_post s, goal_cases)
  case (1 p key d)
  show ?case
  proof (cases d)
    case None
    obtain c g1 where c: "correlation_for O1 inp g = (c, g1)" by fastforce
    note s1 = correlation_sound [OF s U(1) c]
    have "post (andThen (submit O1 (submission p key c inp) g1) (\<lambda>g5 submitted.
            case draw O1 g5 of (nonce, g6) \<Rightarrow>
           andThen (save_job O1 (planned_job (snd submitted) p digest nonce (gw_now g)) g6) (\<lambda>g7 j.
           andThen (emit_event O1 ty j (ex j) g7) (\<lambda>g8 _. (g8, Inr (202, j)))))) (\<lambda>_. sound U g0) (sound U g0)"
      for digest ty ex
    proof (rule post_andThen, rule submit_sound [OF conjunct1 [OF s1] P U], goal_cases)
      case (2 j t k)
      have "t = ZARVIS_OWNER_TENANT_ID" "k = key"
        using 2(1,2) require_id_core [OF 1(2)] by (simp_all add: submission_props owner_text)
      with 2(3) 1(3) None s1 show ?case by simp
    next
      case (3 j g5)
      let ?g = "g5\<lparr>gw_fresh := Suc (gw_fresh g5)\<rparr>"
      let ?j = "planned_job j p digest (U (gw_fresh g5)) (gw_now g)"
      have s5: "sound U g0 ?g" by (rule sound_same [OF good_fresh [OF sound_good [OF 3(1)]] 3(1)]) simp_all
      have fr: "fresh_job ?j" using 3(3) by (simp add: fresh_job_def planned_job_def was_approved_def)
      have sv: "savable U ?g ?j"
        by (rule savable_again [OF sound_good [OF s5], where k = "K j"])
           (use 3(2) fr fresh_job_ok [of "K ?j"] in \<open>simp_all add: K_fresh_job planned_job_def evolves_upd\<close>)
      have "post (save_job O1 ?j ?g) (\<lambda>j g7. post (andThen (emit_event O1 ty j (ex j) g7) (\<lambda>g8 _. (g8, Inr (202, j))))
          (\<lambda>_. sound U g0) (sound U g0)) (sound U g0)"
      proof (rule save_post [OF sound_good [OF s5] sv P])
        fix g' assume g': "good U g0 g'" "jobs (gw_data g') = (jobs (gw_data ?g))(jb_id ?j \<mapsto> K ?j)"
          "items (gw_data g') = items (gw_data ?g)"
        have "sound U g0 g'"
          by (rule sound_upd [OF g'(1) s5 g'(2)]) (use g'(3) fr in \<open>auto simp: fresh_job_def\<close>)
        then show "post (andThen (emit_event O1 ty ?j (ex ?j) g') (\<lambda>g8 _. (g8, Inr (202, ?j)))) (\<lambda>_. sound U g0) (sound U g0)"
          by (intro post_andThen notify_post [OF _ P]) simp_all
      next
        fix g' assume "errors \<noteq> {}" "good U g0 g'"
        then show "sound U g0 g'" by (rule sound_faulty)
      qed
      then show ?case by (simp add: draw_def U(1) post_andThen_iff)
    qed
    with None c show ?thesis by (simp add: emit_task_def)
  qed (use s in simp)
qed

lemma K_stable:
  assumes "jb_maxRetries (K j) = jb_maxRetries j" and "jb_maxRetries k = jb_maxRetries j"
  shows "jb_maxRetries (K k) = jb_maxRetries j"
  using K_maxRetries(1) [OF assms(2)] assms(1) by simp

text \<open>What a run leaves behind: the same queue, only this job changed, its attempt counted.\<close>

definition ran :: "(nat \<Rightarrow> string) \<Rightarrow> 's gateway \<Rightarrow> 's gateway \<Rightarrow> job \<Rightarrow> 's gateway \<Rightarrow> job \<Rightarrow> bool" where
  "ran U g0 g j g' k \<longleftrightarrow> sound U g0 g' \<and> items (gw_data g') = items (gw_data g) \<and>
     jobs (gw_data g') = (jobs (gw_data g))(jb_id j \<mapsto> k) \<and> jb_id k = jb_id j \<and> same_key k j \<and> was_approved k \<and>
     jb_attempt k = jb_attempt j \<and> jb_maxRetries k = jb_maxRetries j"

lemma ran_sound: "ran U g0 g j g' k \<Longrightarrow> sound U g0 g'"
  by (simp add: ran_def)

lemma ran_save:
  assumes r: "ran U g0 g j g1 k" and P: "oc_providers O1 = P"
    and m: "jb_id m = jb_id j" "same_key m j" "was_approved m" "jb_attempt m = jb_attempt j"
      "jb_maxRetries m = jb_maxRetries j" "job_ok m" "jb_status m \<noteq> Approved" "jb_maxRetries (K m) = jb_maxRetries m"
    and N: "\<And>g'. ran U g0 g j g' (K m) \<Longrightarrow> N m g'" and X: "\<And>g'. errors \<noteq> {} \<Longrightarrow> ran U g0 g j g' k \<Longrightarrow> X g'"
  shows "post (save_job O1 m g1) N X"
proof (rule save_post [OF _ _ P])
  have g: "good U g0 g1" and k: "jobs (gw_data g1) (jb_id m) = Some k"
    using r m(1) by (simp_all add: ran_def sound_def)
  have ev: "evolves k m" using r m by (simp add: ran_def evolves_def same_key_def)
  show "good U g0 g1" by (rule g)
  show "savable U g1 m" by (rule savable_update [OF g k ev _ m(6)]) (use r m in \<open>simp_all add: ran_def\<close>)
  fix g' assume g': "good U g0 g'" "jobs (gw_data g') = (jobs (gw_data g1))(jb_id m \<mapsto> K m)"
    "items (gw_data g') = items (gw_data g1)"
  have "sound U g0 g'" by (rule sound_upd [OF g'(1) _ g'(2)]) (use r g'(3) m(7) in \<open>auto simp: ran_def\<close>)
  then have "ran U g0 g j g' (K m)" using r g'(2,3) m by (simp add: ran_def)
  then show "N m g'" by (rule N)
next
  fix g' assume g': "errors \<noteq> {}" "good U g0 g'" "jobs (gw_data g') = jobs (gw_data g1)" "items (gw_data g') = items (gw_data g1)"
  then have "ran U g0 g j g' k" using r sound_faulty by (simp add: ran_def)
  with g'(1) show "X g'" by (rule X)
qed

lemma ran_emit:
  assumes r: "ran U g0 g j g1 k" and P: "oc_providers O1 = P"
    and N: "\<And>g'. ran U g0 g j g' k \<Longrightarrow> N () g'" and X: "\<And>g'. errors \<noteq> {} \<Longrightarrow> ran U g0 g j g' k \<Longrightarrow> X g'"
  shows "post (emit_event O1 ty m ex g1) N X"
proof (rule emit_post [OF _ P])
  show "good U g0 g1" using r by (simp add: ran_def sound_def)
next
  fix g' assume g': "good U g0 g'" "jobs (gw_data g') = jobs (gw_data g1)" "items (gw_data g') = items (gw_data g1)"
  have "sound U g0 g'" using sound_same [OF g'(1) _ g'(2,3)] r by (simp add: ran_def)
  then show "N () g'" using N r g'(2,3) by (simp add: ran_def)
next
  fix g' assume g': "errors \<noteq> {}" "good U g0 g'" "jobs (gw_data g') = jobs (gw_data g1)" "items (gw_data g') = items (gw_data g1)"
  then have "ran U g0 g j g' k" using r sound_faulty by (simp add: ran_def)
  with g'(1) show "X g'" by (rule X)
qed

lemma finished_ok:
  assumes "job_ok j" and "was_approved j" and "jb_status j' \<in> {Succeeded, Failed, Expired}"
    and "jb_approval j' = jb_approval j" "jb_requestedGrants j' = jb_requestedGrants j" "jb_attempt j' = jb_attempt j"
    and "jb_maxRetries j' = jb_maxRetries j"
  shows "job_ok j'"
  using assms by (auto simp: job_ok_defs split: if_splits)

text \<open>The end of a run: a proper status, and nothing else of the row lost.\<close>

lemma attempt_ran:
  assumes r: "ran U g0 g j g1 k" and P: "oc_providers O1 = P" and W: "proper_worker O1"
    and j: "job_ok j" "was_approved j" "jb_maxRetries (K j) = jb_maxRetries j"
  shows "post (attempt_job O1 j g1)
    (\<lambda>m g'. ran U g0 g j g' (K m) \<and> jb_status m \<in> {Succeeded, Failed, Expired})
    (\<lambda>g'. \<exists>k. ran U g0 g j g' k)"
proof (cases "oc_worker O1 (gw_now g1) j")
  case (Inl m)
  with r show ?thesis by (auto simp: attempt_job_def)
next
  case (Inr w)
  have st: "wr_status w \<in> {Succeeded, Failed, Expired}" using W Inr by (simp add: proper_worker_def)
  let ?m = "finished_job j w (gw_now g1)"
  have ok: "job_ok ?m" by (rule finished_ok [OF j(1,2)]) (use st in \<open>simp_all add: finished_job_def\<close>)
  have stable: "jb_maxRetries (K ?m) = jb_maxRetries ?m"
    using K_stable [OF j(3), of ?m] by (simp add: finished_job_def)
  have "post (andThen (save_job O1 ?m g1) (\<lambda>g2 c. andThen (emit_event O1 ty c (ex c) g2) (\<lambda>g3 _. (g3, Inr c))))
      (\<lambda>m g'. ran U g0 g j g' (K m) \<and> jb_status m \<in> {Succeeded, Failed, Expired}) (\<lambda>g'. \<exists>k. ran U g0 g j g' k)" for ty ex
    by (intro post_andThen ran_save [OF r P] ran_emit [OF _ P])
       (use st ok stable j(2) in \<open>auto simp: finished_job_def same_key_def was_approved_def\<close>)
  moreover have "post (map_error f o1) N X = post o1 N X" for f :: "task_error \<Rightarrow> string" and o1 :: "('s, job) task_result" and N X
    by (cases o1; cases "snd o1") auto
  ultimately show ?thesis by (simp add: attempt_job_def Inr)
qed

lemma run_sound:
  assumes g: "good U g0 g" and P: "oc_providers O1 = P" and W: "proper_worker O1"
    and j: "jobs (gw_data g) i = Some j" "jb_status j = Approved" "qi_attempt it = jb_attempt j + 1"
      "i \<notin> qi_jobId ` set (items (gw_data g))"
    and live: "\<And>m k. errors = {} \<Longrightarrow> jobs (gw_data g) m = Some k \<Longrightarrow> jb_status k = Approved \<Longrightarrow> m \<noteq> i \<Longrightarrow>
       m \<in> qi_jobId ` set (items (gw_data g))"
  shows "post (run_job O1 j it g)
    (\<lambda>m g'. sound U g0 g' \<and> items (gw_data g') = items (gw_data g) \<and> jobs (gw_data g') = (jobs (gw_data g))(i \<mapsto> K m) \<and>
       jb_status m \<in> {Succeeded, Failed, Expired} \<and> jb_attempt m = jb_attempt j + 1)
    (\<lambda>g'. errors \<noteq> {} \<and> sound U g0 g')"
  unfolding run_job_def
proof -
  note jf = good_job [OF g j(1)]
  let ?r = "started_job j it (gw_now g)"
  have app: "was_approved ?r" using jf(2) j(2) by (auto simp: job_ok_defs started_job_def split: if_splits)
  have ok: "job_ok ?r"
    using jf(2) j(2,3) by (auto simp: job_ok_defs started_job_def split: if_splits)
  have stable: "jb_maxRetries (K ?r) = jb_maxRetries ?r"
    using K_stable [OF jf(3), of ?r] by (simp add: started_job_def)
  have ev: "evolves j ?r" using j(3) by (simp add: evolves_def same_key_def started_job_def was_approved_def)
  have sv: "savable U g ?r"
    by (rule savable_update [OF g _ ev _ ok]) (use j jf(1) in \<open>simp_all add: started_job_def\<close>)
  show "post (andThen (save_job O1 ?r g) (\<lambda>g1 running.
       case attempt_job O1 running g1 of
         (g2, Inr completed) \<Rightarrow> (g2, Inr completed)
       | (g2, Inl m) \<Rightarrow>
           andThen (save_job O1 (broken_job running m (gw_now g)) g2) (\<lambda>g3 failed.
           andThen (emit_event O1 ''agent.job.completed.v1'' failed
              [(''status'', JStr ''failed''),
               (''error'', JObj [(''code'', JStr ''WORKER_FAILED''),
                  (''message'', JStr (if m = [] then ''Worker failed'' else m))]),
               (''audit'', audit_js ''zarvis-plan-worker'' (jb_attempt running) [] None)] g3)
             (\<lambda>g4 _. (g4, Inr failed)))))
    (\<lambda>m g'. sound U g0 g' \<and> items (gw_data g') = items (gw_data g) \<and> jobs (gw_data g') = (jobs (gw_data g))(i \<mapsto> K m) \<and>
       jb_status m \<in> {Succeeded, Failed, Expired} \<and> jb_attempt m = jb_attempt j + 1)
    (\<lambda>g'. errors \<noteq> {} \<and> sound U g0 g')"
  proof (rule post_andThen, rule save_post [OF g sv P])
    fix g1 assume g1: "good U g0 g1" "jobs (gw_data g1) = (jobs (gw_data g))(jb_id ?r \<mapsto> K ?r)"
      "items (gw_data g1) = items (gw_data g)"
    have id: "jb_id ?r = i" using jf(1) by (simp add: started_job_def)
    have "sound U g0 g1"
      using g1 live id by (auto simp: sound_def live_def started_job_def split: if_splits)
    then have r: "ran U g0 g ?r g1 (K ?r)"
      using g1 app stable by (simp add: ran_def same_key_def)
    have fin: "sound U g0 g' \<and> items (gw_data g') = items (gw_data g) \<and> jobs (gw_data g') = (jobs (gw_data g))(i \<mapsto> K m) \<and>
       jb_attempt m = jb_attempt j + 1" if "ran U g0 g ?r g' (K m)" for m g'
      using that id j(3) by (simp add: ran_def started_job_def)
    show "post (case attempt_job O1 ?r g1 of
         (g2, Inr completed) \<Rightarrow> (g2, Inr completed)
       | (g2, Inl m) \<Rightarrow>
           andThen (save_job O1 (broken_job ?r m (gw_now g)) g2) (\<lambda>g3 failed.
           andThen (emit_event O1 ''agent.job.completed.v1'' failed
              [(''status'', JStr ''failed''),
               (''error'', JObj [(''code'', JStr ''WORKER_FAILED''),
                  (''message'', JStr (if m = [] then ''Worker failed'' else m))]),
               (''audit'', audit_js ''zarvis-plan-worker'' (jb_attempt ?r) [] None)] g3)
             (\<lambda>g4 _. (g4, Inr failed))))
      (\<lambda>m g'. sound U g0 g' \<and> items (gw_data g') = items (gw_data g) \<and> jobs (gw_data g') = (jobs (gw_data g))(i \<mapsto> K m) \<and>
       jb_status m \<in> {Succeeded, Failed, Expired} \<and> jb_attempt m = jb_attempt j + 1) (\<lambda>g'. errors \<noteq> {} \<and> sound U g0 g')"
    proof (cases "attempt_job O1 ?r g1")
      case (Pair g2 res)
      note at = attempt_ran [OF r P W ok app stable, unfolded Pair]
      show ?thesis
      proof (cases res)
        case (Inr m)
        with at fin [of g2 m] show ?thesis by (simp add: Pair)
      next
        case (Inl msg)
        with at obtain k where k: "ran U g0 g ?r g2 k" by auto
        let ?b = "broken_job ?r msg (gw_now g)"
        have bok: "job_ok ?b" by (rule finished_ok [OF ok app]) (simp_all add: broken_job_def)
        have bst: "jb_maxRetries (K ?b) = jb_maxRetries ?b"
          using K_stable [OF stable, of ?b] by (simp add: broken_job_def)
        have "post (andThen (save_job O1 ?b g2) (\<lambda>g3 failed. andThen (emit_event O1 ty failed ex g3) (\<lambda>g4 _. (g4, Inr failed))))
          (\<lambda>m g'. ran U g0 g ?r g' (K m) \<and> jb_status m = Failed) (\<lambda>g'. errors \<noteq> {} \<and> sound U g0 g')" for ty ex
          by (intro post_andThen ran_save [OF k P] ran_emit [OF _ P])
             (use bok bst app in \<open>auto simp: broken_job_def same_key_def was_approved_def dest: ran_sound\<close>)
        then have "post (andThen (save_job O1 ?b g2) (\<lambda>g3 failed. andThen (emit_event O1 ty failed ex g3) (\<lambda>g4 _. (g4, Inr failed))))
          (\<lambda>m g'. sound U g0 g' \<and> items (gw_data g') = items (gw_data g) \<and> jobs (gw_data g') = (jobs (gw_data g))(i \<mapsto> K m) \<and>
             jb_status m \<in> {Succeeded, Failed, Expired} \<and> jb_attempt m = jb_attempt j + 1) (\<lambda>g'. errors \<noteq> {} \<and> sound U g0 g')" for ty ex
          by (rule post_mono) (use fin in auto)
        then show ?thesis by (simp add: Pair Inl)
      qed
    qed
  next
    fix g' assume "errors \<noteq> {}" "good U g0 g'"
    then show "errors \<noteq> {} \<and> sound U g0 g'" using sound_faulty by blast
  qed
qed

lemma dequeue_post:
  assumes g: "good U g0 g" and P: "oc_providers O1 = P"
    and None: "\<And>g'. good U g0 g' \<Longrightarrow> jobs (gw_data g') = jobs (gw_data g) \<Longrightarrow> items (gw_data g) = [] \<Longrightarrow>
       items (gw_data g') = [] \<Longrightarrow> N None g'"
    and Some: "\<And>x g'. good U g0 g' \<Longrightarrow> jobs (gw_data g') = jobs (gw_data g) \<Longrightarrow>
       items (gw_data g) = x # items (gw_data g') \<Longrightarrow> N (Some x) g'"
    and X: "\<And>g'. errors \<noteq> {} \<Longrightarrow> good U g0 g' \<Longrightarrow> X g'"
  shows "post (on_data (pv_dequeue (oc_providers O1)) g) N X"
  unfolding P
proof (rule on_data_post, rule post_faulty [where b = "errors \<noteq> {}", OF dequeue [OF good_ok [OF g]]])
  show "\<not> errors \<noteq> {} \<Longrightarrow> \<not> isl (snd (pv_dequeue P (gw_data g)))" using reliable good_ok [OF g] by blast
next
  fix r d
  assume d: "ok d \<and> jobs d = jobs (gw_data g) \<and> items (gw_data g) = (case r of None \<Rightarrow> [] | Some x \<Rightarrow> x # items d) \<and>
             (r = None \<longrightarrow> items d = [])"
  have "queue_ok (jobs d) (items d)"
    using d good_queue [OF g] queue_ok_tl by (fastforce split: option.splits)
  then have "good U g0 (g\<lparr>gw_data := d\<rparr>)"
    using good_data [OF g conjunct1 [OF d]] good_jobs [OF g] d by simp
  then show "N r (g\<lparr>gw_data := d\<rparr>)" using None Some d by (cases r) simp_all
next
  fix d assume "errors \<noteq> {}" "ok d \<and> items d = items (gw_data g) \<and> jobs d = jobs (gw_data g)"
  then show "X (g\<lparr>gw_data := d\<rparr>)" using X good_same [OF g] by simp
qed

text \<open>One call of \<open>runNext\<close>: the head of the queue is run when it is still approved.\<close>

definition run_effect :: "'s gateway \<Rightarrow> 's gateway \<Rightarrow> bool" where
  "run_effect g g' \<longleftrightarrow>
     (case items (gw_data g) of
        [] \<Rightarrow> items (gw_data g') = [] \<and> jobs (gw_data g') = jobs (gw_data g)
      | x # q \<Rightarrow> items (gw_data g') = q \<and>
          (\<exists>j k. jobs (gw_data g) (qi_jobId x) = Some j \<and> jobs (gw_data g') = (jobs (gw_data g))(qi_jobId x \<mapsto> k) \<and>
             (if jb_status j = Approved
              then jb_status k \<in> {Succeeded, Failed, Expired} \<and> jb_attempt k = jb_attempt j + 1 else k = j)))"

lemma runNext_sound:
  assumes s: "sound U g0 g" and P: "oc_providers O1 = P" and W: "proper_worker O1"
  shows "post (runNext O1 g) (\<lambda>_ g'. sound U g0 g' \<and> run_effect g g') (\<lambda>g'. errors \<noteq> {} \<and> sound U g0 g')"
  unfolding runNext_def
proof (rule post_andThen, rule dequeue_post [OF sound_good [OF s] P], goal_cases)
  case (1 g')
  have "sound U g0 g'" using sound_same [OF 1(1) s 1(2)] 1(3,4) by simp
  with 1 show ?case by (simp add: run_effect_def)
next
  case (2 x g')
  obtain j where j: "jobs (gw_data g) (qi_jobId x) = Some j" "qi_attempt x = jb_attempt j + 1"
    "qi_jobId x \<notin> qi_jobId ` set (items (gw_data g'))"
    using good_queue [OF sound_good [OF s]] 2(3) by (auto simp: queue_ok_def)
  show ?case
  proof (simp, rule post_andThen, rule get_post [OF 2(1) P], goal_cases)
    case (1 k)
    then have k: "k = j" using j(1) 2(2) by simp
    show ?case
    proof (cases "jb_status j = Approved")
      case True
      have live: "m \<in> qi_jobId ` set (items (gw_data g'))"
        if "errors = {}" "jobs (gw_data g') m = Some l" "jb_status l = Approved" "m \<noteq> qi_jobId x" for m l
      proof -
        have "live g" using s that(1) unfolding sound_def by blast
        with that(2-4) 2(2,3) show ?thesis by (auto simp: live_def)
      qed
      have "post (run_job O1 j x g') (\<lambda>m g2. sound U g0 g2 \<and> run_effect g g2) (\<lambda>g'. errors \<noteq> {} \<and> sound U g0 g')"
        by (rule post_mono [OF run_sound [OF 2(1) P W _ True j(2,3) live]])
           (use j(1) 2(2,3) True in \<open>auto simp: run_effect_def\<close>)
      then show ?thesis using True k by (simp add: post_andThen_iff)
    next
      case False
      have "sound U g0 g'"
        by (rule sound_upd [OF 2(1) s, of "qi_jobId x" j]) (use 2(2,3) False j(1) in \<open>auto simp: fun_upd_idem\<close>)
      then show ?thesis using False k j(1) 2 by (auto simp: run_effect_def fun_upd_idem)
    qed
  next
    case 2
    with \<open>jobs (gw_data g') = jobs (gw_data g)\<close> j(1) show ?case using sound_faulty \<open>good U g0 g'\<close> by auto
  qed
qed (simp add: sound_faulty)

lemma step_sound:
  assumes s: "sound U g0 g" and P: "oc_providers O1 = P" and U: "oc_uuid O1 = U" "inj U"
    and W: "proper_worker O1" and st: "gw_step O1 H E g g'"
  shows "sound U g0 g'"
  using st
proof cases
  case (submit_plan inp)
  then show ?thesis using post_fst [OF submitPlan_sound [OF s P U]] by simp
next
  case (approve_plan i inp)
  have "post (task_approvePlan O1 i inp g) (\<lambda>_. sound U g0) (sound U g0)"
    by (rule post_mono [OF approve_plan_sound [OF s P]]) simp_all
  then show ?thesis using approve_plan post_fst by blast
next
  case (pause_task i)
  then show ?thesis using post_fst [OF pause_sound [OF s P]] by simp
next
  case (resume_task i)
  then show ?thesis using post_fst [OF resume_sound [OF s P]] by simp
next
  case (cancel_task i)
  then show ?thesis using post_fst [OF cancel_sound [OF s P]] by (simp add: task_cancelPlan_def)
next
  case (retry_task i)
  then show ?thesis using post_fst [OF retry_sound [OF s P]] by simp
next
  case run_next
  have "post (runNext O1 g) (\<lambda>_. sound U g0) (sound U g0)"
    by (rule post_mono [OF runNext_sound [OF s P W]]) simp_all
  then show ?thesis using run_next post_fst by blast
next
  case (time_passes t)
  with s show ?thesis by (simp add: sound_def good_def inv_def live_def)
next
  case (environment d)
  note e = env [OF good_ok [OF sound_good [OF s]] environment(2)]
  have "good U g0 (g\<lparr>gw_data := d\<rparr>)" by (rule good_same [OF sound_good [OF s]]) (use e in auto)
  from sound_same [OF this s] e environment(1) show ?thesis by simp
qed

lemma steps_sound:
  assumes "(gw_step O1 H E)\<^sup>*\<^sup>* g g'" and "sound U g0 g" and "oc_providers O1 = P" and "oc_uuid O1 = U" and "inj U"
    and "proper_worker O1"
  shows "sound U g0 g'"
  using assms(1,2) by (induction rule: rtranclp_induct) (auto intro: step_sound [OF _ assms(3-6)])

lemma start_sound:
  assumes "ok s0" and "jobs s0 = Map.empty" and "items s0 = []" and "gw_data g = s0"
  shows "sound U g g"
  using assms by (simp add: sound_def good_def inv_def jobs_ok_def unique_keys_def queue_ok_def live_def)

lemma reachable_sound:
  assumes "gw_reachable O1 H E s0 g" and "ok s0" and "jobs s0 = Map.empty" and "items s0 = []"
    and "oc_providers O1 = P" and "oc_uuid O1 = U" and "inj U" and "proper_worker O1"
  shows "sound U g g"
  using assms(1)
proof induction
  case (start t)
  then show ?case by (rule start_sound [OF assms(2-4)]) simp
next
  case (step g g')
  have "sound U g g'" by (rule step_sound [OF step.IH assms(5-8) step.hyps(2)])
  then show ?case by (auto simp: sound_def good_def)
qed

lemma runs_eventually:
  assumes "sound U g0 g" and "errors = {}" and "oc_providers O1 = P" and "proper_worker O1"
    and "jobs (gw_data g) i = Some j" and "jb_status j = Approved"
  shows "\<exists>n k. n \<le> length (items (gw_data g)) \<and> jobs (gw_data (run_times O1 n g)) i = Some k \<and>
    jb_status k \<in> {Succeeded, Failed, Expired} \<and> jb_attempt k = jb_attempt j + 1"
  using assms
proof (induction "length (items (gw_data g))" arbitrary: g rule: less_induct)
  case less
  have "i \<in> qi_jobId ` set (items (gw_data g))"
    using sound_live [OF less.prems(1,2)] less.prems(5,6) by (auto simp: live_def)
  then obtain x q where x: "items (gw_data g) = x # q" by (cases "items (gw_data g)") auto
  define g' where "g' = fst (runNext O1 g)"
  have "post (runNext O1 g) (\<lambda>_ g'. sound U g0 g' \<and> run_effect g g') (\<lambda>g'. sound U g0 g' \<and> run_effect g g')"
    by (rule post_mono [OF runNext_sound [OF less.prems(1,3,4)]]) (use less.prems(2) in auto)
  from post_fst [OF this] have g': "sound U g0 g'" "run_effect g g'" by (simp_all add: g'_def)
  from g'(2) obtain l k where k: "items (gw_data g') = q" "jobs (gw_data g) (qi_jobId x) = Some l"
    "jobs (gw_data g') = (jobs (gw_data g))(qi_jobId x \<mapsto> k)"
    "if jb_status l = Approved then jb_status k \<in> {Succeeded, Failed, Expired} \<and> jb_attempt k = jb_attempt l + 1 else k = l"
    by (auto simp: run_effect_def x)
  show ?case
  proof (cases "qi_jobId x = i")
    case True
    with k less.prems(5,6) have "jobs (gw_data g') i = Some k" "jb_status k \<in> {Succeeded, Failed, Expired}"
      "jb_attempt k = jb_attempt j + 1" by auto
    then show ?thesis by (intro exI [of _ 1] exI [of _ k]) (simp add: x g'_def)
  next
    case False
    have "length (items (gw_data g')) < length (items (gw_data g))" by (simp add: x k(1))
    from less.hyps [OF this g'(1) less.prems(2-4) _ less.prems(6)] False less.prems(5) k(3)
    obtain n m where "n \<le> length (items (gw_data g'))" "jobs (gw_data (run_times O1 n g')) i = Some m"
      "jb_status m \<in> {Succeeded, Failed, Expired}" "jb_attempt m = jb_attempt j + 1" by auto
    then show ?thesis by (intro exI [of _ "Suc n"] exI [of _ m]) (simp add: x k(1) g'_def [symmetric])
  qed
qed

end

section \<open>Both sets of adapters keep the contract\<close>

lemma found_in_map:
  assumes "find p (map_values m) = Some v" and "map_ok m"
  shows "p v \<and> (\<exists>i. map_get m i = Some v)"
proof -
  from find_Some_in [OF assms(1)] obtain i where "(i, v) \<in> set m" "p v" by (auto simp: map_values_def)
  with assms(2) show ?thesis by (auto simp: map_get_iff)
qed

lemma not_found_in_map: "find p (map_values m) = None \<Longrightarrow> map_get m i = Some v \<Longrightarrow> \<not> p v"
  by (auto simp: find_None_all dest: map_values_get)

lemma map_get_set_fun: "map_get (map_set m k v) = (map_get m)(k \<mapsto> v)"
  by (simp add: fun_eq_iff)

text \<open>In memory, a job is kept as it is.\<close>

definition as_is :: "job \<Rightarrow> job" where
  "as_is j = j"

lemmas memory_defs = as_is_def memory_providers_def memory_findById_def memory_findByIdempotency_def memory_save_def
  memory_enqueue_def memory_dequeue_def memory_emit_def memory_change_def

interpretation mem: task_adapters memory_providers "\<lambda>m. map_ok (me_jobs m)" "\<lambda>m. map_get (me_jobs m)" me_items
  memory_change as_is "{}"
proof (unfold_locales, goal_cases)
  case (2 s t k j)
  then show ?case using found_in_map [of "has_idempotency t k" "me_jobs s" j] by (simp add: memory_defs)
next
  case (3 s t k i j)
  then show ?case using not_found_in_map [of "has_idempotency t k" "me_jobs s" i j] by (simp add: memory_defs)
next
  case (6 s)
  then show ?case by (simp add: memory_defs split: list.splits)
next
  case (10 s)
  then show ?case by (simp add: memory_defs split: list.splits)
qed (simp_all add: memory_defs map_get_set_fun)

lemmas file_defs = file_providers_def file_findById_def file_findByIdempotency_def file_save_def file_enqueue_def
  file_dequeue_def file_emit_def readQueue_def atomicWrite_def guarded_def disk_change_def

lemma recall_map_ok: "map_ok (me_jobs (recall f))"
proof -
  have "map_ok m \<Longrightarrow> map_ok (foldl (\<lambda>m j. map_set m (jb_id j) j) m js)" for m and js :: "job list"
    by (induction js arbitrary: m) simp_all
  then show ?thesis by (simp add: recall_def)
qed

lemma recall_fields [simp]:
  "me_jobs (recall (f\<lparr>fl_jobs := fl_jobs f @ [j]\<rparr>)) = map_set (me_jobs (recall f)) (jb_id j) j"
  "me_jobs (recall (f\<lparr>fl_queue := q\<rparr>)) = me_jobs (recall f)" "me_jobs (recall (f\<lparr>fl_events := es\<rparr>)) = me_jobs (recall f)"
  by (simp_all add: recall_def)

interpretation disk: task_adapters "file_providers B" "\<lambda>f. files_ok B f" "\<lambda>f. map_get (me_jobs (recall f))" fl_queue
  disk_change as_json UNIV for B
proof (unfold_locales, goal_cases)
  case (1 s i r)
  then show ?case by (auto simp: file_defs snapshots_ok bindR_Inr_iff split: option.splits)
next
  case (2 s t k j)
  then show ?case
    using found_in_map [OF _ recall_map_ok, of "has_idempotency t k" s j]
    by (simp add: file_defs snapshots_ok split: option.splits)
next
  case (3 s t k i j)
  then show ?case
    using not_found_in_map [of "has_idempotency t k" "me_jobs (recall s)" i j]
    by (simp add: file_defs snapshots_ok split: option.splits)
next
  case (4 s j)
  then show ?case by (simp add: file_defs map_get_set_fun files_ok_def not_less split: option.splits)
next
  case (5 s x)
  then show ?case by (simp add: file_defs files_ok_def split: option.splits)
next
  case (6 s)
  then show ?case by (cases "fl_queue s") (simp_all add: file_defs files_ok_def split: option.splits)
next
  case (7 s e)
  then show ?case by (simp add: file_defs files_ok_def split: option.splits)
next
  case (8 s s')
  then show ?case by (simp add: file_defs files_ok_def recall_def)
qed simp_all

end
