(* ===== verification/TaskGuarantees.thy ===== *)
theory TaskGuarantees
  imports TaskProperties
begin

text \<open>
  The guarantees of the task gateway, stated for \<open>ZarvisTaskRuntime\<close> over the durable
  files (whose reads and writes may fail at any time) and over memory, and the concrete
  runs that witness them.
\<close>

section \<open>The two runtimes\<close>

definition disk_runtime ::
  "byte_sizes \<Rightarrow> (rat \<Rightarrow> string) \<Rightarrow> github \<Rightarrow> (nat \<Rightarrow> string) \<Rightarrow> files orchestrator" where
  "disk_runtime B R gh U = zarvis_runtime (file_providers B) R gh U"

definition memory_runtime :: "(rat \<Rightarrow> string) \<Rightarrow> github \<Rightarrow> (nat \<Rightarrow> string) \<Rightarrow> memory orchestrator" where
  "memory_runtime R gh U = zarvis_runtime memory_providers R gh U"

definition stored_job :: "files gateway \<Rightarrow> string \<Rightarrow> job option" where
  "stored_job g i = map_get (me_jobs (recall (gw_data g))) i"

lemma runtime_fields [simp]:
  "oc_providers (zarvis_runtime P R gh U) = P" "oc_uuid (zarvis_runtime P R gh U) = U"
  "oc_worker (zarvis_runtime P R gh U) = zarvis_worker R gh" "oc_identity (zarvis_runtime P R gh U) = None"
  by (simp_all add: zarvis_runtime_def)

lemma zarvis_worker_proper: "proper_worker (zarvis_runtime P R gh U)"
  unfolding proper_worker_def
  by (auto simp: zarvis_worker_def execute_plan_def expiredResult_def split: option.splits prod.splits if_splits)

lemma disk_sound:
  assumes "gw_reachable (disk_runtime B R gh U) H disk_change no_files g" and "inj U"
  shows "disk.sound B U g g"
  by (rule disk.reachable_sound [OF assms(1) _ _ _ _ _ assms(2)])
     (simp_all add: disk_runtime_def files_ok_def no_files_def recall_def zarvis_worker_proper fun_eq_iff)

lemma memory_sound:
  assumes "gw_reachable (memory_runtime R gh U) H memory_change no_memory g" and "inj U"
  shows "mem.sound U g g"
  by (rule mem.reachable_sound [OF assms(1) _ _ _ _ _ assms(2)])
     (simp_all add: memory_runtime_def no_memory_def zarvis_worker_proper fun_eq_iff)

section \<open>Sample runs\<close>

definition task_uuid :: "nat \<Rightarrow> string" where
  "task_uuid n = replicate n CHR ''u''"

lemma task_uuid_inj: "inj task_uuid"
  by (auto simp: task_uuid_def inj_def dest: arg_cong [of _ _ length])

definition keyed_request :: js where
  "keyed_request =
     JObj [(''objective'', JStr '' Check ''),
           (''steps'', JArr
              [JObj [(''id'', JStr ''a''), (''tool'', JStr ''github.repository.status''), (''scope'', JStr ''o/r'')],
               JObj [(''id'', JStr ''b''), (''tool'', JStr ''zarvis.repository.summary''), (''scope'', JStr ''o/r''),
                     (''depends_on'', JArr [JStr ''a''])]]),
           (''idempotency_key'', JStr ''k'')]"

lemma keyed_request_eval:
  "normalizePlan keyed_request = Inr sample_task_plan"
  "require_id (get_prop keyed_request ''idempotency_key'') ''idempotency_key'' = Inr ''k''"
  "get_prop keyed_request ''correlation_id'' = JUndef"
  "core_require_string (JStr ''k'') ''idempotency_key'' = Inr ''k''"
  "core_require_string (JStr ''Check'') ''task'' = Inr ''Check''"
  "core_require_string (JStr ZARVIS_OWNER_TENANT_ID) ''tenant_id'' = Inr ZARVIS_OWNER_TENANT_ID"
  by code_simp+

definition sample_grants :: "tool_grant list" where
  "sample_grants =
     [\<lparr>gr_tool = ''github.repository.status'', gr_scope = ''o/r'', gr_mutating = False\<rparr>,
      \<lparr>gr_tool = ''zarvis.repository.summary'', gr_scope = ''o/r'', gr_mutating = False\<rparr>]"

lemma sample_grants_eval:
  "requestedGrants (pk_steps sample_task_plan) = sample_grants"
  "normalizeToolGrants (JArr (map grant_js sample_grants)) False = Inr sample_grants"
  "assertApprovedGrants sample_grants sample_grants = Inr ()"
  by code_simp+
lemma numbers: "js_number (JNum n) = n" by simp

definition sample_submission :: js where "sample_submission = submission sample_task_plan ''k'' (JStr []) keyed_request"

lemma sample_submission_eval:
  "get_prop sample_submission ''tenant_id'' = JStr ZARVIS_OWNER_TENANT_ID"
  "get_prop sample_submission ''objective'' = JStr ''Check''"
  "get_prop sample_submission ''idempotency_key'' = JStr ''k''"
  "get_prop sample_submission ''tool_grants'' = JArr (map grant_js sample_grants)"
  "get_prop sample_submission ''tool_grants_requested'' = JUndef"
  by (simp_all add: sample_submission_def submission_def sample_grants_eval sample_task_plan_def sample_grants_def) (code_simp+)?

text \<open>A runtime on a healthy disk whose records are small.\<close>

definition sample_rt :: "files orchestrator" where
  "sample_rt = disk_runtime small_sizes (\<lambda>_. []) sample_github task_uuid"

definition healthy :: "files gateway \<Rightarrow> bool" where
  "healthy g \<longleftrightarrow> fl_readError (gw_data g) = Map.empty \<and> fl_writeError (gw_data g) = Map.empty \<and>
     length (fl_queue (gw_data g)) \<le> 1"

definition put_job :: "job \<Rightarrow> files gateway \<Rightarrow> files gateway" where
  "put_job j g = g\<lparr>gw_data := (gw_data g)\<lparr>fl_jobs := fl_jobs (gw_data g) @ [as_json j]\<rparr>\<rparr>"

definition put_event :: "audit_event \<Rightarrow> files gateway \<Rightarrow> files gateway" where
  "put_event e g = g\<lparr>gw_fresh := Suc (gw_fresh g), gw_data := (gw_data g)\<lparr>fl_events := fl_events (gw_data g) @ [e]\<rparr>\<rparr>"

definition put_queue :: "queue_item list \<Rightarrow> files gateway \<Rightarrow> files gateway" where
  "put_queue q g = g\<lparr>gw_data := (gw_data g)\<lparr>fl_queue := q\<rparr>\<rparr>"

lemma put_healthy [simp]:
  "healthy (put_job j g) = healthy g" "healthy (put_event e g) = healthy g" "healthy (g\<lparr>gw_fresh := n\<rparr>) = healthy g"
  "length q \<le> 1 \<Longrightarrow> healthy g \<Longrightarrow> healthy (put_queue q g)"
  by (simp_all add: healthy_def put_job_def put_event_def put_queue_def)

lemma put_fields [simp]:
  "gw_now (put_job j g) = gw_now g" "gw_now (put_event e g) = gw_now g" "gw_now (put_queue q g) = gw_now g"
  "gw_fresh (put_job j g) = gw_fresh g" "gw_fresh (put_event e g) = Suc (gw_fresh g)" "gw_fresh (put_queue q g) = gw_fresh g"
  "stored_job (put_job j g) i = (if i = jb_id j then Some (as_json j) else stored_job g i)"
  "stored_job (put_event e g) i = stored_job g i" "stored_job (put_queue q g) i = stored_job g i"
  "stored_job (g\<lparr>gw_fresh := n\<rparr>) i = stored_job g i"
  "fl_queue (gw_data (put_job j g)) = fl_queue (gw_data g)" "fl_queue (gw_data (put_event e g)) = fl_queue (gw_data g)"
  "fl_queue (gw_data (put_queue q g)) = q"
  by (simp_all add: put_job_def put_event_def put_queue_def stored_job_def)

lemma small_bytes [simp]: "\<not> MAX_RECORD_BYTES < bz_job small_sizes j" "\<not> MAX_RECORD_BYTES < bz_event small_sizes e"
  "length q \<le> 1 \<Longrightarrow> \<not> MAX_QUEUE_BYTES < bz_queue small_sizes q" "files_ok small_sizes f"
  by (simp_all add: small_sizes_def MAX_RECORD_BYTES_def MAX_QUEUE_BYTES_def files_ok_def)

lemma sample_rt_fields [simp]:
  "oc_providers sample_rt = file_providers small_sizes" "oc_uuid sample_rt = task_uuid" "oc_identity sample_rt = None"
  "oc_worker sample_rt = zarvis_worker (\<lambda>_. []) sample_github"
  by (simp_all add: sample_rt_def disk_runtime_def)

definition recorded_event :: "string \<Rightarrow> job \<Rightarrow> (string \<times> js) list \<Rightarrow> 's gateway \<Rightarrow> audit_event" where
  "recorded_event ty j ex g =
     \<lparr>au_eventId = task_uuid (gw_fresh g), au_type = ty, au_occurredAt = gw_now g, au_tenantId = jb_tenantId j,
      au_jobId = jb_id j, au_correlationId = jb_correlationId j, au_extra = ex\<rparr>"

lemma healthy_ops:
  assumes "healthy g"
  shows "save_job sample_rt j g = (put_job j g, Inr j)"
    and "emit_event sample_rt ty j ex g = (put_event (recorded_event ty j ex g) g, Inr ())"
    and "get_job sample_rt i g = (case stored_job g i of None \<Rightarrow> (g, Inl (TaskError ''Job not found'' 404)) | Some j \<Rightarrow> (g, Inr j))"
    and "pv_findByIdempotency (file_providers small_sizes) t k (gw_data g) =
           Inr (find (has_idempotency t k) (map_values (me_jobs (recall (gw_data g)))))"
    and "fl_queue (gw_data g) = [] \<Longrightarrow> enqueue_job sample_rt j g =
           (let x = \<lparr>qi_jobId = jb_id j, qi_tenantId = jb_tenantId j, qi_attempt = jb_attempt j + 1, qi_enqueuedAt = gw_now g\<rparr>
            in (put_queue [x] g, Inr x))"
    and "fl_queue (gw_data g) = [x] \<Longrightarrow> on_data (pv_dequeue (file_providers small_sizes)) g = (put_queue [] g, Inr (Some x))"
  using assms
  by (simp_all add: save_job_def emit_event_def draw_def on_data_def file_defs healthy_def put_job_def put_event_def put_queue_def
      get_job_def reading_def snapshots_ok stored_job_def bindR_def recorded_event_def enqueue_job_def Let_def split: option.splits)

definition start_gateway :: "files gateway" where
  "start_gateway = \<lparr>gw_now = 0, gw_fresh = 0, gw_data = no_files\<rparr>"

lemma start_gateway_fields [simp]:
  "healthy start_gateway" "stored_job start_gateway i = None" "me_jobs (recall (gw_data start_gateway)) = []"
  "gw_fresh start_gateway = 0" "gw_now start_gateway = 0" "fl_queue (gw_data start_gateway) = []"
  by (simp_all add: start_gateway_def healthy_def no_files_def stored_job_def recall_def)

lemma me_jobs_fresh [simp]: "gw_data (g\<lparr>gw_fresh := n\<rparr>) = gw_data g" "gw_now (g\<lparr>gw_fresh := n\<rparr>) = gw_now g" by simp_all

definition sample_job :: job where
  "sample_job = new_job ''u'' ZARVIS_OWNER_TENANT_ID ''Check'' sample_grants ''k'' 0 sample_submission"

definition sample_planned :: job where
  "sample_planned = planned_job sample_job sample_task_plan ''d'' ''uuu'' 0"

lemma sample_ids [simp]:
  "jb_id sample_job = ''u''" "jb_id sample_planned = ''u''" "jb_status sample_planned = PendingApproval"
  "jb_nonce sample_planned = JStr ''uuu''" "digest_of sample_planned = JStr ''d''" "jb_consumedAt sample_planned = None"
  "jb_requestedGrants sample_planned = sample_grants" "jb_attempt sample_planned = 0"
  "jb_task sample_planned = Some \<lparr>tt_plan = sample_task_plan, tt_digest = ''d'', tt_expiresAt = APPROVAL_TTL_MS\<rparr>"
  "task_uuid (Suc 0) = ''u''" "task_uuid 3 = ''uuu''" "task_uuid 0 = []"
  by (simp_all add: sample_job_def sample_planned_def planned_job_def new_job_def digest_of_def task_uuid_def numeral_3_eq_3)

lemma first_submission:
  "\<exists>g. submitPlan sample_rt (\<lambda>_. ''d'') keyed_request start_gateway = (g, Inr (202, sample_planned)) \<and> healthy g \<and>
     stored_job g ''u'' = Some (as_json sample_planned) \<and> fl_queue (gw_data g) = [] \<and> gw_now g = 0"
  by (simp add: submitPlan_def keyed_request_eval checked_def reading_def correlation_for_def draw_def submit_def healthy_ops
      sample_submission_eval sample_submission_def [symmetric] emit_task_def coalesce_def is_nullish_def
      sample_grants_eval sample_job_def [symmetric] planDigest_def map_values_def Let_def numeral_3_eq_3 [symmetric])
    (simp add: sample_planned_def planned_job_def)?

lemma sample_json [simp]:
  "jb_status (as_json j) = jb_status j" "jb_nonce (as_json j) = jb_nonce j" "digest_of (as_json j) = digest_of j"
  "jb_consumedAt (as_json j) = jb_consumedAt j" "jb_requestedGrants (as_json j) = jb_requestedGrants j"
  "jb_attempt (as_json j) = jb_attempt j" "jb_pausedFrom (as_json j) = jb_pausedFrom j"
  "jb_tenantId (as_json j) = jb_tenantId j" "jb_idempotencyKey (as_json j) = jb_idempotencyKey j"
  "jb_task (as_json j) = map_option (\<lambda>t. t\<lparr>tt_plan := json_plan (tt_plan t)\<rparr>) (jb_task j)"
  by (cases "jb_task j"; simp add: as_json_def digest_of_def)+

definition sample_proof :: js where
  "sample_proof = JObj [(''approval_digest'', JStr ''d''), (''approval_nonce'', JStr ''uuu'')]"

lemma owner_by: "core_require_string (JStr ZARVIS_OWNER_USER_ID) ''approved_by'' = Inr ZARVIS_OWNER_USER_ID"
  by code_simp

lemma first_approval:
  assumes "healthy g" and "stored_job g ''u'' = Some (as_json sample_planned)" and "fl_queue (gw_data g) = []"
    and "gw_now g = 0"
  shows "\<exists>g' j x. task_approvePlan sample_rt ''u'' sample_proof g = (g', Inr j) \<and> healthy g' \<and>
    jb_id j = ''u'' \<and> stored_job g' ''u'' = Some (as_json j) \<and> jb_status j = Approved \<and> jb_attempt j = 0 \<and> was_approved j \<and> gw_now g' = 0 \<and>
    fl_queue (gw_data g') = [x] \<and> qi_jobId x = ''u'' \<and> qi_attempt x = 1 \<and>
    jb_task j = map_option (\<lambda>t. t\<lparr>tt_plan := json_plan (tt_plan t)\<rparr>) (jb_task sample_planned)"
  using assms
  by (simp add: task_approvePlan_def healthy_ops checked_def sample_proof_def assertApprovalProof_def approve_def owner_by
      coalesce_def is_nullish_def sample_grants_eval Let_def was_approved_def APPROVAL_TTL_MS_def)

lemma sample_reachable:
  "\<exists>g. gw_reachable sample_rt (\<lambda>_. ''d'') disk_change no_files g \<and> healthy g \<and>
     stored_job g ''u'' = Some (as_json sample_planned) \<and> fl_queue (gw_data g) = [] \<and> gw_now g = 0"
proof -
  obtain g where g: "submitPlan sample_rt (\<lambda>_. ''d'') keyed_request start_gateway = (g, Inr (202, sample_planned))"
    "healthy g" "stored_job g ''u'' = Some (as_json sample_planned)" "fl_queue (gw_data g) = []" "gw_now g = 0"
    using first_submission by blast
  have "gw_reachable sample_rt (\<lambda>_. ''d'') disk_change no_files start_gateway"
    unfolding start_gateway_def by (rule gw_reachable.start)
  from gw_reachable.step [OF this gw_step.submit_plan [of sample_rt "\<lambda>_. ''d''" disk_change start_gateway keyed_request]] g
  show ?thesis by auto
qed

lemma sample_approved:
  "\<exists>g0 g j x. gw_reachable sample_rt (\<lambda>_. ''d'') disk_change no_files g0 \<and>
     task_approvePlan sample_rt ''u'' sample_proof g0 = (g, Inr j) \<and>
     gw_reachable sample_rt (\<lambda>_. ''d'') disk_change no_files g \<and> healthy g \<and>
     stored_job g ''u'' = Some (as_json j) \<and> jb_id j = ''u'' \<and> jb_status j = Approved \<and> gw_now g = 0 \<and>
     fl_queue (gw_data g) = [x] \<and> qi_jobId x = ''u'' \<and>
     jb_task j = map_option (\<lambda>t. t\<lparr>tt_plan := json_plan (tt_plan t)\<rparr>) (jb_task sample_planned)"
proof -
  obtain g0 where g0: "gw_reachable sample_rt (\<lambda>_. ''d'') disk_change no_files g0" "healthy g0"
    "stored_job g0 ''u'' = Some (as_json sample_planned)" "fl_queue (gw_data g0) = []" "gw_now g0 = 0"
    using sample_reachable by blast
  obtain g j x where g: "task_approvePlan sample_rt ''u'' sample_proof g0 = (g, Inr j)" "healthy g" "jb_id j = ''u''"
    "stored_job g ''u'' = Some (as_json j)" "jb_status j = Approved" "gw_now g = 0" "fl_queue (gw_data g) = [x]"
    "qi_jobId x = ''u''"
    "jb_task j = map_option (\<lambda>t. t\<lparr>tt_plan := json_plan (tt_plan t)\<rparr>) (jb_task sample_planned)"
    using first_approval [OF g0(2-5)] by blast
  from gw_reachable.step [OF g0(1) gw_step.approve_plan [of sample_rt _ disk_change g0 "''u''" sample_proof]] g(1)
  have "gw_reachable sample_rt (\<lambda>_. ''d'') disk_change no_files g" by simp
  with g0(1) g show ?thesis by blast
qed

text \<open>The same run in memory.\<close>

definition memory_rt :: "memory orchestrator" where
  "memory_rt = memory_runtime (\<lambda>_. []) sample_github task_uuid"

definition mput_job :: "job \<Rightarrow> memory gateway \<Rightarrow> memory gateway" where
  "mput_job j g = g\<lparr>gw_data := (gw_data g)\<lparr>me_jobs := map_set (me_jobs (gw_data g)) (jb_id j) j\<rparr>\<rparr>"

definition mput_event :: "audit_event \<Rightarrow> memory gateway \<Rightarrow> memory gateway" where
  "mput_event e g = g\<lparr>gw_fresh := Suc (gw_fresh g), gw_data := (gw_data g)\<lparr>me_events := me_events (gw_data g) @ [e]\<rparr>\<rparr>"

definition mput_item :: "queue_item \<Rightarrow> memory gateway \<Rightarrow> memory gateway" where
  "mput_item x g = g\<lparr>gw_data := (gw_data g)\<lparr>me_items := [x]\<rparr>\<rparr>"

lemma mput_fields [simp]:
  "gw_now (mput_job j g) = gw_now g" "gw_now (mput_event e g) = gw_now g" "gw_now (mput_item x g) = gw_now g"
  "gw_fresh (mput_job j g) = gw_fresh g" "gw_fresh (mput_event e g) = Suc (gw_fresh g)" "gw_fresh (mput_item x g) = gw_fresh g"
  "me_jobs (gw_data (mput_job j g)) = map_set (me_jobs (gw_data g)) (jb_id j) j"
  "me_jobs (gw_data (mput_event e g)) = me_jobs (gw_data g)" "me_jobs (gw_data (mput_item x g)) = me_jobs (gw_data g)"
  "me_items (gw_data (mput_job j g)) = me_items (gw_data g)" "me_items (gw_data (mput_event e g)) = me_items (gw_data g)"
  by (simp_all add: mput_job_def mput_event_def mput_item_def)

lemma memory_rt_fields [simp]:
  "oc_providers memory_rt = memory_providers" "oc_uuid memory_rt = task_uuid" "oc_identity memory_rt = None"
  by (simp_all add: memory_rt_def memory_runtime_def)

lemma memory_ops:
  "save_job memory_rt j g = (mput_job j g, Inr j)"
  "emit_event memory_rt ty j ex g = (mput_event (recorded_event ty j ex g) g, Inr ())"
  "get_job memory_rt i g =
     (case map_get (me_jobs (gw_data g)) i of None \<Rightarrow> (g, Inl (TaskError ''Job not found'' 404)) | Some j \<Rightarrow> (g, Inr j))"
  "me_items (gw_data g) = [] \<Longrightarrow> enqueue_job memory_rt j g =
     (let x = \<lparr>qi_jobId = jb_id j, qi_tenantId = jb_tenantId j, qi_attempt = jb_attempt j + 1, qi_enqueuedAt = gw_now g\<rparr>
      in (mput_item x g, Inr x))"
  by (simp_all add: recorded_event_def Let_def save_job_def emit_event_def draw_def on_data_def memory_defs mput_job_def mput_event_def mput_item_def
      get_job_def reading_def enqueue_job_def split: option.splits)

definition start_memory :: "memory gateway" where
  "start_memory = \<lparr>gw_now = 0, gw_fresh = 0, gw_data = no_memory\<rparr>"

lemma start_memory_fields [simp]:
  "me_jobs (gw_data start_memory) = []" "gw_fresh start_memory = 0" "gw_now start_memory = 0" "me_items (gw_data start_memory) = []"
  by (simp_all add: start_memory_def no_memory_def)

lemma memory_submission:
  "\<exists>g. submitPlan memory_rt (\<lambda>_. ''d'') keyed_request start_memory = (g, Inr (202, sample_planned)) \<and>
     map_get (me_jobs (gw_data g)) ''u'' = Some sample_planned \<and> me_items (gw_data g) = [] \<and> gw_now g = 0"
proof -
  have find: "pv_findByIdempotency memory_providers t k (gw_data g) =
      Inr (find (has_idempotency t k) (map_values (me_jobs (gw_data g))))" for t k and g :: "memory gateway"
    by (simp add: memory_defs)
  show ?thesis
    by (simp add: submitPlan_def keyed_request_eval checked_def reading_def correlation_for_def draw_def submit_def
        memory_ops find sample_submission_eval sample_submission_def [symmetric] emit_task_def coalesce_def
        is_nullish_def sample_grants_eval sample_job_def [symmetric] planDigest_def map_values_def Let_def
        numeral_3_eq_3 [symmetric])
      (simp add: sample_planned_def planned_job_def)
qed

lemma memory_approval:
  assumes "map_get (me_jobs (gw_data g)) ''u'' = Some sample_planned" and "me_items (gw_data g) = []" and "gw_now g = 0"
  shows "\<exists>g' j. task_approvePlan memory_rt ''u'' sample_proof g = (g', Inr j) \<and>
    map_get (me_jobs (gw_data g')) ''u'' = Some j \<and> jb_status j = Approved"
proof -
  show ?thesis using assms
    by (simp add: task_approvePlan_def memory_ops checked_def sample_proof_def assertApprovalProof_def approve_def
        owner_by coalesce_def is_nullish_def sample_grants_eval Let_def APPROVAL_TTL_MS_def)
qed

lemma memory_sample_approved:
  "\<exists>g j. gw_reachable memory_rt (\<lambda>_. ''d'') memory_change no_memory g \<and>
     map_get (me_jobs (gw_data g)) ''u'' = Some j \<and> jb_status j = Approved"
proof -
  obtain g where g: "submitPlan memory_rt (\<lambda>_. ''d'') keyed_request start_memory = (g, Inr (202, sample_planned))"
     "map_get (me_jobs (gw_data g)) ''u'' = Some sample_planned" "me_items (gw_data g) = []" "gw_now g = 0"
    using memory_submission by blast
  obtain g' j where g': "task_approvePlan memory_rt ''u'' sample_proof g = (g', Inr j)"
    "map_get (me_jobs (gw_data g')) ''u'' = Some j" "jb_status j = Approved"
    using memory_approval [OF g(2-4)] by blast
  have "gw_reachable memory_rt (\<lambda>_. ''d'') memory_change no_memory start_memory"
    unfolding start_memory_def by (rule gw_reachable.start)
  from gw_reachable.step [OF this gw_step.submit_plan [of memory_rt "\<lambda>_. ''d''" memory_change start_memory keyed_request]] g(1)
  have "gw_reachable memory_rt (\<lambda>_. ''d'') memory_change no_memory g" by simp
  from gw_reachable.step [OF this gw_step.approve_plan [of memory_rt _ memory_change g "''u''" sample_proof]] g'(1)
  have "gw_reachable memory_rt (\<lambda>_. ''d'') memory_change no_memory g'" by simp
  with g'(2,3) show ?thesis by blast
qed

section \<open>The guarantees\<close>

text \<open>
  C13: nothing runs unapproved. On any disk, however it fails, a job that is approved, runs or
  has run, or that has used an attempt, carries an approval, and every grant of that
  approval was requested.
\<close>

theorem no_run_without_approval:
  assumes "gw_reachable (disk_runtime B R gh U) H disk_change no_files g" and "inj U"
    and "stored_job g i = Some j"
    and "jb_status j \<in> {Approved, Running, Succeeded, Failed, Expired} \<or> jb_attempt j \<noteq> 0"
  shows "\<exists>a. jb_approval j = Some a \<and> grantKey ` set (ap_grants a) \<subseteq> grantKey ` set (jb_requestedGrants j)"
proof -
  have "job_ok j"
    using disk.good_job(2) [OF disk.sound_good [OF disk_sound [OF assms(1,2)]]] assms(3) by (simp add: stored_job_def)
  with assms(4) show ?thesis by (auto simp: job_ok_defs split: if_splits)
qed

theorem no_run_without_approval_witness:
  "\<exists>g j a. stored_job g ''u'' = Some j \<and> jb_status j = Approved \<and> jb_approval j = Some a \<and>
     grantKey ` set (ap_grants a) \<subseteq> grantKey ` set (jb_requestedGrants j) \<and>
     gw_reachable sample_rt (\<lambda>_. ''d'') disk_change no_files g"
proof -
  obtain g j where g: "gw_reachable sample_rt (\<lambda>_. ''d'') disk_change no_files g" "stored_job g ''u'' = Some (as_json j)"
    "jb_status j = Approved" using sample_approved by blast
  from no_run_without_approval [OF g(1) [unfolded sample_rt_def] task_uuid_inj g(2)] g show ?thesis by force
qed



text \<open>
  C15: the attempts are bounded. A job whose retry limit is the number \<open>q\<close> is attempted at
  most \<open>q + 1\<close> times (once, when \<open>q\<close> is negative), whatever is requested and fails.
\<close>

theorem attempts_bounded:
  assumes "gw_reachable (disk_runtime B R gh U) H disk_change no_files g" and "inj U"
    and "stored_job g i = Some j" and "js_number (jb_maxRetries j) = Fin (of_int q)"
  shows "0 \<le> jb_attempt j \<and> jb_attempt j \<le> max 1 (q + 1)"
proof -
  have "job_ok j"
    using disk.good_job(2) [OF disk.sound_good [OF disk_sound [OF assms(1,2)]]] assms(3) by (simp add: stored_job_def)
  then have "0 \<le> jb_attempt j" "jb_attempt j \<le> 1 \<or> (of_int (jb_attempt j) :: rat) < of_int (q + 2)"
    using assms(4) by (auto simp: job_ok_def budget_ok_def retry_limit_def)
  then show ?thesis unfolding of_int_less_iff by auto
qed

theorem attempts_bounded_witness:
  "\<exists>g j. stored_job g ''u'' = Some j \<and> jb_attempt j \<le> max 1 (1 + 1)"
proof -
  obtain g where g: "gw_reachable sample_rt (\<lambda>_. ''d'') disk_change no_files g" "stored_job g ''u'' = Some (as_json sample_planned)"
    using sample_reachable by blast
  have "js_number (jb_maxRetries (as_json sample_planned)) = Fin (of_int 1)" by code_simp
  from attempts_bounded [OF g(1) [unfolded sample_rt_def] task_uuid_inj g(2) this] g(2) show ?thesis by blast
qed

text \<open>
  Submitting is idempotent. When a job of the owner exists under a key, submitting under
  that key changes nothing: it fails, or it returns the very job, and then the digest of
  the submitted plan is the job's.
\<close>

theorem resubmission_changes_nothing:
  assumes "gw_reachable (disk_runtime B R gh U) H disk_change no_files g" and "inj U"
    and "stored_job g i = Some j" and "jb_tenantId j = ZARVIS_OWNER_TENANT_ID"
    and "require_id (get_prop inp ''idempotency_key'') ''idempotency_key'' = Inr (jb_idempotencyKey j)"
    and "normalizePlan inp = Inr p"
    and "submitPlan (disk_runtime B R gh U) H inp g = (g', r)"
  shows "g' = g \<and> (isl r \<or> (r = Inr (200, j) \<and> digest_of j = JStr (planDigest H p)))"
proof (cases "file_findByIdempotency B ZARVIS_OWNER_TENANT_ID (jb_idempotencyKey j) (gw_data g)")
  case (Inl m)
  with assms(5-7) show ?thesis
    by (auto simp: submitPlan_def checked_def reading_def disk_runtime_def file_providers_def)
next
  case (Inr d)
  note g = disk.sound_good [OF disk_sound [OF assms(1,2)]]
  have pv: "pv_findByIdempotency (file_providers B) ZARVIS_OWNER_TENANT_ID (jb_idempotencyKey j) (gw_data g) = Inr d"
    using Inr by (simp add: file_providers_def)
  obtain k where k: "d = Some k"
  proof (cases d)
    case None
    from disk.idem_None [OF disk.good_ok [OF g] pv [unfolded None], of i j] assms(3,4) show ?thesis
      by (simp add: stored_job_def has_idempotency_def)
  qed
  from disk.idem_Some [OF disk.good_ok [OF g] pv [unfolded k]] obtain n where
    n: "has_idempotency ZARVIS_OWNER_TENANT_ID (jb_idempotencyKey j) k" "stored_job g n = Some k"
    by (auto simp: stored_job_def)
  have "same_key k j" using n(1) assms(4) by (simp add: has_idempotency_def same_key_def)
  then have "n = i"
    using disk.good_jobs [OF g] n(2) assms(3) by (auto simp: jobs_ok_def unique_keys_def stored_job_def)
  with n(2) assms(3) have "k = j" by simp
  with assms(5-7) pv k show ?thesis
    by (auto simp: submitPlan_def checked_def reading_def disk_runtime_def split: if_splits)
qed

theorem resubmission_changes_nothing_witness:
  "\<exists>g. stored_job g ''u'' = Some (as_json sample_planned) \<and>
     fst (submitPlan sample_rt (\<lambda>_. ''d'') keyed_request g) = g"
proof -
  obtain g where g: "gw_reachable sample_rt (\<lambda>_. ''d'') disk_change no_files g" "stored_job g ''u'' = Some (as_json sample_planned)"
    using sample_reachable by blast
  have "jb_tenantId (as_json sample_planned) = ZARVIS_OWNER_TENANT_ID" "jb_idempotencyKey (as_json sample_planned) = ''k''"
    by (simp_all add: sample_planned_def planned_job_def sample_job_def new_job_def)
  with resubmission_changes_nothing [OF g(1) [unfolded sample_rt_def] task_uuid_inj g(2), of keyed_request sample_task_plan
      "fst (submitPlan sample_rt (\<lambda>_. ''d'') keyed_request g)" "snd (submitPlan sample_rt (\<lambda>_. ''d'') keyed_request g)"] g(2)
  show ?thesis by (auto simp: keyed_request_eval sample_rt_def)
qed

text \<open>
  A failing audit sink turns success into failure. When the worker has succeeded and only
  the audit file cannot be written, the completed job that was just saved is overwritten
  as failed with the audit's message, and the call throws.
\<close>

theorem audit_failure_undoes_success:
  assumes "fl_readError (gw_data g) = Map.empty" and "fl_writeError (gw_data g) = [AuditFile \<mapsto> m]"
    and "\<And>k. bz_job B k \<le> MAX_RECORD_BYTES" and "\<And>e. bz_event B e \<le> MAX_RECORD_BYTES"
    and "bz_queue B q \<le> MAX_QUEUE_BYTES" and "bz_queue B (x # q) \<le> MAX_QUEUE_BYTES"
    and "fl_queue (gw_data g) = x # q" and "stored_job g (qi_jobId x) = Some j" and "jb_id j = qi_jobId x"
    and "jb_status j = Approved"
    and "zarvis_worker R gh (gw_now g) (started_job j x (gw_now g)) = Inr r" and "wr_status r = Succeeded"
  shows "\<exists>g' k. runNext (disk_runtime B R gh U) g = (g', Inl (AdapterError m)) \<and>
    stored_job g' (qi_jobId x) = Some k \<and> jb_status k = Failed \<and>
    jb_error k = Some (if m = [] then ''Worker failed'' else m) \<and>
    (\<exists>c\<in>set (fl_jobs (gw_data g')). jb_id c = qi_jobId x \<and> jb_status c = Succeeded)"
proof -
  let ?rt = "disk_runtime B R gh U"
  define tick where "tick g' = g'\<lparr>gw_fresh := Suc (gw_fresh g')\<rparr>" for g' :: "files gateway"
  define broken where "broken g' \<longleftrightarrow> fl_readError (gw_data g') = Map.empty \<and> fl_writeError (gw_data g') = [AuditFile \<mapsto> m]"
    for g' :: "files gateway"
  note small = assms(3-6) [unfolded not_less [symmetric]]
  have rt: "oc_providers ?rt = file_providers B" "oc_uuid ?rt = U" "oc_worker ?rt = zarvis_worker R gh"
    by (simp_all add: disk_runtime_def)
  have save: "save_job ?rt k g' = (put_job k g', Inr k)" if "broken g'" for k g'
    using that by (simp add: save_job_def rt on_data_def file_defs small broken_def put_job_def)
  have emit: "emit_event ?rt ty k ex g' = (tick g', Inl (AdapterError m))" if "broken g'" for ty k ex g'
    using that by (simp add: emit_event_def draw_def rt on_data_def file_defs small broken_def tick_def)
  let ?g1 = "put_queue q g"
  let ?s = "started_job j x (gw_now g)"
  let ?f = "finished_job ?s r (gw_now g)" and ?b = "broken_job ?s m (gw_now g)"
  let ?g3 = "tick (put_job ?f (put_job ?s ?g1))"
  have b: "broken ?g1" "broken (put_job k g') = broken g'" "broken (tick g') = broken g'"
    "gw_now (tick g') = gw_now g'" "stored_job (tick g') i = stored_job g' i" "gw_data (tick g') = gw_data g'" for k g' i
    using assms(1,2) by (simp_all add: broken_def put_queue_def put_job_def tick_def stored_job_def)
  have dq: "on_data (pv_dequeue (file_providers B)) g = (?g1, Inr (Some x))"
    using assms(1,2,7) by (simp add: on_data_def file_defs small put_queue_def)
  have get: "get_job ?rt (qi_jobId x) ?g1 = (?g1, Inr j)"
    using assms(1,3,8) by (simp add: get_job_def reading_def rt file_defs snapshots_ok files_ok_def stored_job_def put_queue_def)
  have att: "attempt_job ?rt ?s (put_job ?s ?g1) = (?g3, Inl m)"
    using assms(11) by (simp add: attempt_job_def rt save emit b)
  have "run_job ?rt j x ?g1 = (tick (put_job ?b ?g3), Inl (AdapterError m))"
    using att by (simp add: run_job_def save emit b)
  then have "runNext ?rt g = (tick (put_job ?b ?g3), Inl (AdapterError m))"
    using assms(10) by (simp add: runNext_def rt dq get)
  moreover have "stored_job (tick (put_job ?b ?g3)) (qi_jobId x) = Some (as_json ?b)"
    using assms(9) by (simp add: b broken_job_def started_job_def)
  moreover have "jb_status (as_json ?b) = Failed" "jb_error (as_json ?b) = Some (if m = [] then ''Worker failed'' else m)"
    by (simp_all add: broken_job_def as_json_def)
  moreover have "as_json ?f \<in> set (fl_jobs (gw_data (tick (put_job ?b ?g3))))" by (simp add: b put_job_def)
  moreover have "jb_id (as_json ?f) = qi_jobId x" "jb_status (as_json ?f) = Succeeded"
    using assms(9,12) by (simp_all add: finished_job_def started_job_def)
  ultimately show ?thesis by blast
qed

definition full_disk :: "files gateway \<Rightarrow> files gateway" where
  "full_disk g = g\<lparr>gw_data := (gw_data g)\<lparr>fl_writeError := [AuditFile \<mapsto> ''ENOSPC'']\<rparr>\<rparr>"

lemma sample_result: "wr_status (execute_plan (\<lambda>_. []) sample_github 0 i a APPROVAL_TTL_MS (json_plan sample_task_plan)) = Succeeded"
proof -
  have "fst (work_steps (\<lambda>_. []) sample_github 0 [] (pk_steps (json_plan sample_task_plan)))" by code_simp
  then show ?thesis by (auto simp: execute_plan_def APPROVAL_TTL_MS_def split: prod.splits)
qed

theorem audit_failure_undoes_success_witness:
  "\<exists>g g' k. runNext sample_rt g = (g', Inl (AdapterError ''ENOSPC'')) \<and> stored_job g' ''u'' = Some k \<and> jb_status k = Failed"
proof -
  obtain g j x where g: "healthy g" "stored_job g ''u'' = Some (as_json j)" "jb_id j = ''u''" "jb_status j = Approved" "gw_now g = 0"
    "fl_queue (gw_data g) = [x]" "qi_jobId x = ''u''"
    "jb_task j = map_option (\<lambda>t. t\<lparr>tt_plan := json_plan (tt_plan t)\<rparr>) (jb_task sample_planned)"
    using sample_approved by blast
  have st: "stored_job (full_disk g) i = stored_job g i" for i by (simp add: full_disk_def stored_job_def recall_def)
  have idem: "json_plan (json_plan p) = json_plan p" for p by (simp add: json_plan_def json_image_idem)
  have w: "zarvis_worker (\<lambda>_. []) sample_github (gw_now (full_disk g)) (started_job (as_json j) x (gw_now (full_disk g))) =
      Inr (execute_plan (\<lambda>_. []) sample_github 0 ''u'' (qi_attempt x) APPROVAL_TTL_MS (json_plan sample_task_plan))"
    using g(3,5,8) by (simp add: zarvis_worker_def started_job_def full_disk_def idem)
  from audit_failure_undoes_success [of "full_disk g" "''ENOSPC''" small_sizes "[]" x "as_json j" "\<lambda>_. []" sample_github,
      OF _ _ _ _ _ _ _ _ _ _ w sample_result, of task_uuid] g st
  show ?thesis by (auto simp: sample_rt_def full_disk_def healthy_def not_less [symmetric] simp del: not_less)
qed

text \<open>
  An approved job is run. In memory, where no adapter fails, after at most as many calls of
  \<open>runNext\<close> as there are queued items, an approved job has been executed once more and
  has ended.
\<close>

theorem approved_job_runs:
  assumes "gw_reachable (memory_runtime R gh U) H memory_change no_memory g" and "inj U"
    and "map_get (me_jobs (gw_data g)) i = Some j" and "jb_status j = Approved"
  shows "\<exists>n k. n \<le> length (me_items (gw_data g)) \<and>
    map_get (me_jobs (gw_data (run_times (memory_runtime R gh U) n g))) i = Some k \<and>
    jb_status k \<in> {Succeeded, Failed, Expired} \<and> jb_attempt k = jb_attempt j + 1"
  by (rule mem.runs_eventually [OF memory_sound [OF assms(1,2)] _ _ _ assms(3,4)])
     (simp_all add: memory_runtime_def zarvis_worker_proper)

theorem approved_job_runs_witness:
  "\<exists>g n k. map_get (me_jobs (gw_data (run_times memory_rt n g))) ''u'' = Some k \<and>
     jb_status k \<in> {Succeeded, Failed, Expired}"
proof -
  obtain g j where g: "gw_reachable memory_rt (\<lambda>_. ''d'') memory_change no_memory g"
    "map_get (me_jobs (gw_data g)) ''u'' = Some j" "jb_status j = Approved" using memory_sample_approved by blast
  from approved_job_runs [OF g(1) [unfolded memory_rt_def] task_uuid_inj g(2,3)] show ?thesis
    unfolding memory_rt_def by blast
qed

end
