(* ===== verification/Service.thy ===== *)
theory Service
  imports JsValue
begin

text \<open>
  What the small services of \<open>packages/zarvis/services\<close> share: a runtime's clock, its
  supply of random ids and the injected store it runs over; the calls it makes on them; the
  canonical form of a value that is hashed; a file that is appended to through a chain of
  promises; and the rules, one per statement, for reasoning about a method of a runtime.
  Each public method reads the clock once. The servers run every method that writes through
  a serial executor, so a method is never interleaved with another one.
\<close>

section \<open>Runtime, store and id supply\<close>

record 's service =
  sv_now :: int
  sv_fresh :: nat
  sv_data :: 's

type_synonym ('s, 'e, 'a) served = "('s service, 'e, 'a) outcome"

text \<open>A call of the store; \<open>F\<close> is the exception its failure is to the runtime.\<close>

definition on_store ::
  "(string \<Rightarrow> 'e) \<Rightarrow> ('s \<Rightarrow> ('s, string, 'a) outcome) \<Rightarrow> 's service \<Rightarrow> ('s, 'e, 'a) served" where
  "on_store F f g =
     (case f (sv_data g) of
        (d, Inl m) \<Rightarrow> (g\<lparr>sv_data := d\<rparr>, Inl (F m))
      | (d, Inr v) \<Rightarrow> (g\<lparr>sv_data := d\<rparr>, Inr v))"

definition from_store :: "(string \<Rightarrow> 'e) \<Rightarrow> ('s \<Rightarrow> (string, 'a) result) \<Rightarrow> 's service \<Rightarrow> ('s, 'e, 'a) served" where
  "from_store F f g = (case f (sv_data g) of Inl m \<Rightarrow> (g, Inl (F m)) | Inr v \<Rightarrow> (g, Inr v))"

text \<open>\<open>this.idFactory()\<close>\<close>

definition new_id :: "(nat \<Rightarrow> string) \<Rightarrow> 's service \<Rightarrow> ('s, 'e, string) served" where
  "new_id U g = (g\<lparr>sv_fresh := Suc (sv_fresh g)\<rparr>, Inr (U (sv_fresh g)))"

text \<open>A check that throws or yields a value and changes nothing.\<close>

definition check :: "('e, 'a) result \<Rightarrow> 's service \<Rightarrow> ('s, 'e, 'a) served" where
  "check r g = (g, r)"

lemma check_simps [simp]: "check (Inl e) g = (g, Inl e)" "check (Inr v) g = (g, Inr v)"
  by (simp_all add: check_def)

lemma on_store_post:
  assumes "post (f (sv_data g)) (\<lambda>v d. N v (g\<lparr>sv_data := d\<rparr>)) (\<lambda>d. X (g\<lparr>sv_data := d\<rparr>))"
  shows "post (on_store F f g) N X"
  using assms by (simp add: on_store_def post_def split: prod.splits sum.splits)

lemma from_store_post:
  assumes "\<And>v. f (sv_data g) = Inr v \<Longrightarrow> N v g" and "isl (f (sv_data g)) \<Longrightarrow> X g"
  shows "post (from_store F f g) N X"
  using assms by (simp add: from_store_def split: sum.splits)

lemma new_id_post: "N (U (sv_fresh g)) (g\<lparr>sv_fresh := Suc (sv_fresh g)\<rparr>) \<Longrightarrow> post (new_id U g) N X"
  by (simp add: new_id_def)

lemma check_post: "(\<And>v. r = Inr v \<Longrightarrow> N v g) \<Longrightarrow> (isl r \<Longrightarrow> X g) \<Longrightarrow> post (check r g) N X"
  by (cases r) simp_all

section \<open>Values that are hashed\<close>

text \<open>\<open>stable(value)\<close>: the members of every object in the order of their names.\<close>

fun stable :: "js \<Rightarrow> js" where
  "stable (JArr xs) = JArr (map stable xs)"
| "stable (JObj fs) = JObj (sort_key fst (map (\<lambda>(k, v). (k, stable v)) fs))"
| "stable v = v"

text \<open>\<open>createHash('sha256').update(JSON.stringify(stable(value)))\<close>; \<open>H\<close> is the hash of a JSON text.\<close>

definition digest :: "(js \<Rightarrow> string) \<Rightarrow> js \<Rightarrow> string" where
  "digest H v = H (stable v)"

text \<open>Two values whose members differ in order only have one digest.\<close>

lemma digest_order:
  assumes "distinct (map fst fs)" and "set fs = set gs" and "distinct (map fst gs)"
  shows "digest H (JObj fs) = digest H (JObj gs)"
proof -
  let ?st = "\<lambda>(k, v). (k, stable v)"
  have keys: "map fst (map ?st xs) = map fst xs" for xs :: "(string \<times> js) list"
    by (induction xs) auto
  have d: "distinct (map fst (sort_key fst (map ?st xs)))" if "distinct (map fst xs)" for xs :: "(string \<times> js) list"
  proof -
    have "distinct (map fst (map ?st xs))" using that by (simp only: keys)
    then show ?thesis by (simp only: distinct_map set_sort distinct_sort)
  qed
  have same: "set (sort_key fst (map ?st fs)) = set (sort_key fst (map ?st gs))" using assms(2) by simp
  have "inj_on fst (set (sort_key fst (map ?st fs)))"
    using d [OF assms(1)] by (simp only: distinct_map)
  then have "sort_key fst (map ?st fs) = sort_key fst (map ?st gs)"
    by (intro map_sorted_distinct_set_unique [where f = fst] d assms same) (simp_all only: same Un_absorb sorted_sort_key)
  then show ?thesis by (simp add: digest_def)
qed

section \<open>A supply of ids\<close>

text \<open>Ids without a repetition, for the runs that show a hypothesis can hold.\<close>

definition tally :: "nat \<Rightarrow> string" where
  "tally n = replicate (Suc n) (CHR ''t'')"

lemma inj_tally: "inj tally"
proof (rule injI)
  fix m n assume "tally m = tally n"
  then have "length (tally m) = length (tally n)" by simp
  then show "m = n" by (simp add: tally_def)
qed

lemma tally_simps [simp]: "tally n \<noteq> []" "tally m = tally n \<longleftrightarrow> m = n"
  using inj_tally by (auto simp: tally_def inj_def)

end
