(* ===== verification/ActionGateway.thy ===== *)
theory ActionGateway
  imports Service
begin

text \<open>
  The local action gateway of Zarvis (\<open>packages/zarvis/services/zarvis-action-gateway\<close>):
  \<open>ZarvisLocalActionRuntime\<close> of \<open>runtime.mjs\<close>, over the record \<open>action_store\<close> of the
  four operations of a store, and the worker of \<open>worker.mjs\<close>. The actions are the last
  snapshots in an append-only log of events; the preferences they change are a second file.
  Snapshots carry further members whose values are the same in every one of them (owner,
  tenant, scope, impact); those are left out. A request body is a value \<open>JSON.parse\<close>
  produced.
\<close>

section \<open>Actions, events, state\<close>

datatype action_status = Pending | Granted | Executed | RolledBack | Lapsed | Revoked

record action =
  ax_id :: string
  ax_status :: action_status
  ax_key :: js
  ax_previous :: js
  ax_next :: string
  ax_digest :: string
  ax_nonce :: "string option"
  ax_expiresAt :: int
  ax_consumedAt :: "int option"
  ax_executionId :: "string option"
  ax_executedAt :: "int option"
  ax_rollbackDigest :: "string option"
  ax_rollbackNonce :: "string option"
  ax_rolledBackAt :: "int option"
  ax_failureCode :: "string option"
  ax_createdAt :: int
  ax_updatedAt :: int

datatype action_event_type = Previewed | ApprovedEvent | ExpiredEvent | ExecutedEvent | RolledBackEvent | RevokedEvent

record action_event =
  ae_id :: string
  ae_type :: action_event_type
  ae_at :: int
  ae_action :: action

record local_state =
  ls_stop :: bool
  ls_reason :: "string option"
  ls_preferences :: "(string, js) jsmap"
  ls_updatedAt :: "int option"

definition DEFAULT_STATE :: local_state where
  "DEFAULT_STATE = \<lparr>ls_stop = False, ls_reason = None, ls_preferences = [], ls_updatedAt = None\<rparr>"

record 's action_store =
  as_readEvents :: "'s \<Rightarrow> (string, action_event list) result"
  as_appendEvent :: "action_event \<Rightarrow> 's \<Rightarrow> ('s, string, unit) outcome"
  as_readState :: "'s \<Rightarrow> (string, local_state) result"
  as_writeState :: "local_state \<Rightarrow> 's \<Rightarrow> ('s, string, local_state) outcome"

text \<open>The constructor's arguments, the hash, and the text of a number that is no integer.\<close>

record 's action_runtime =
  ar_store :: "'s action_store"
  ar_uuid :: "nat \<Rightarrow> string"
  ar_hash :: "js \<Rightarrow> string"
  ar_ratText :: "rat \<Rightarrow> string"

datatype action_error =
    ActionError string nat
  | ActionFault string

type_synonym ('s, 'a) action_result = "('s service, action_error, 'a) outcome"

definition APPROVAL_TTL :: int where
  "APPROVAL_TTL = 15 * 60 * 1000"

definition TERMINAL_STATUSES :: "action_status list" where
  "TERMINAL_STATUSES = [Executed, RolledBack, Lapsed, Revoked]"

section \<open>Validation\<close>

text \<open>\<open>/^[a-z][a-z0-9_.-]{0,63}$/\<close>; the test turns its argument into a string.\<close>

definition key_char :: "char \<Rightarrow> bool" where
  "key_char c = (is_lower c \<or> is_digit c \<or> c \<in> set ''_.-'')"

definition matches_key :: "string \<Rightarrow> bool" where
  "matches_key s = (case s of [] \<Rightarrow> False | c # cs \<Rightarrow> is_lower c \<and> length cs \<le> 63 \<and> list_all key_char cs)"

definition validatePreferenceInput :: "(rat \<Rightarrow> string) \<Rightarrow> js \<Rightarrow> (action_error, js \<times> string) result" where
  "validatePreferenceInput R input =
     (if \<not> is_plain_object input then Inl (ActionError ''invalid_action'' 400)
      else if get_prop input ''capability'' \<noteq> JStr ''sandbox.preference.set''
      then Inl (ActionError ''capability_denied'' 403)
      else if \<not> matches_key (js_text_of R (coalesce (get_prop input ''key'') (JStr [])))
      then Inl (ActionError ''invalid_preference_key'' 400)
      else case get_prop input ''value'' of
        JStr v \<Rightarrow>
          if 512 < length v then Inl (ActionError ''invalid_preference_value'' 400)
          else if get_prop input ''untrusted_content'' = JBool True \<or> truthy (get_prop input ''policy_effect'')
              \<or> truthy (get_prop input ''tool_grants'')
          then Inl (ActionError ''confused_deputy_denied'' 403)
          else Inr (get_prop input ''key'', v)
      | _ \<Rightarrow> Inl (ActionError ''invalid_preference_value'' 400))"

text \<open>Destructuring \<open>null\<close> or reading a member of it throws.\<close>

definition body_object :: "js \<Rightarrow> (action_error, js) result" where
  "body_object body = (if is_nullish body then Inl (ActionFault ''TypeError'') else Inr body)"

text \<open>
  \<open>JSON.stringify(left ?? null) === JSON.stringify(right ?? null)\<close>: two values have one text
  when they become one value.
\<close>

definition sameValue :: "js \<Rightarrow> js \<Rightarrow> bool" where
  "sameValue l r \<longleftrightarrow> json_image (coalesce l JNull) = json_image (coalesce r JNull)"

section \<open>Reading and recording\<close>

definition latestActions :: "action_event list \<Rightarrow> (string, action) jsmap" where
  "latestActions events =
     foldl (\<lambda>m e. if ax_id (ae_action e) \<noteq> [] then map_set m (ax_id (ae_action e)) (ae_action e) else m) [] events"

definition read_actions :: "'s action_runtime \<Rightarrow> 's service \<Rightarrow> ('s, (string, action) jsmap) action_result" where
  "read_actions A g =
     andThen (from_store ActionFault (as_readEvents (ar_store A)) g) (\<lambda>g1 es. (g1, Inr (latestActions es)))"

definition read_state :: "'s action_runtime \<Rightarrow> 's service \<Rightarrow> ('s, local_state) action_result" where
  "read_state A g = from_store ActionFault (as_readState (ar_store A)) g"

definition write_state :: "'s action_runtime \<Rightarrow> local_state \<Rightarrow> 's service \<Rightarrow> ('s, local_state) action_result" where
  "write_state A s g = on_store ActionFault (as_writeState (ar_store A) s) g"

definition record_action ::
  "'s action_runtime \<Rightarrow> action_event_type \<Rightarrow> action \<Rightarrow> 's service \<Rightarrow> ('s, action) action_result" where
  "record_action A ty a g =
     andThen (new_id (ar_uuid A) g) (\<lambda>g1 i.
     andThen (on_store ActionFault
        (as_appendEvent (ar_store A) \<lparr>ae_id = i, ae_type = ty, ae_at = sv_now g, ae_action = a\<rparr>) g1) (\<lambda>g2 _.
     (g2, Inr a)))"

definition lapsed :: "int \<Rightarrow> action \<Rightarrow> action" where
  "lapsed now a = a\<lparr>ax_status := Lapsed, ax_failureCode := Some ''approval_expired'', ax_updatedAt := now\<rparr>"

definition expire :: "'s action_runtime \<Rightarrow> action \<Rightarrow> 's service \<Rightarrow> ('s, action) action_result" where
  "expire A current g = record_action A ExpiredEvent (lapsed (sv_now g) current) g"

text \<open>\<open>const current = actions.get(id); if (!current) throw\<close>, and \<open>publicAction\<close>'s two parts.\<close>

definition find_action :: "'s action_runtime \<Rightarrow> string \<Rightarrow> 's service \<Rightarrow> ('s, action) action_result" where
  "find_action A i g =
     andThen (read_actions A g) (\<lambda>g1 m.
       check (case map_get m i of None \<Rightarrow> Inl (ActionError ''action_not_found'' 404) | Some a \<Rightarrow> Inr a) g1)"

type_synonym public_action = "action \<times> bool"

definition getAction :: "'s action_runtime \<Rightarrow> string \<Rightarrow> 's service \<Rightarrow> ('s, public_action) action_result" where
  "getAction A i g = andThen (find_action A i g) (\<lambda>g1 a. (g1, Inr (a, False)))"

definition listActions :: "'s action_runtime \<Rightarrow> 's service \<Rightarrow> ('s, public_action list) action_result" where
  "listActions A g =
     andThen (read_actions A g) (\<lambda>g1 m.
       (g1, Inr (map (\<lambda>a. (a, False)) (sort_key (\<lambda>a. - ax_updatedAt a) (map_values m)))))"

definition observed :: "local_state \<Rightarrow> string \<Rightarrow> js" where
  "observed s k = (case map_get (ls_preferences s) k of Some v \<Rightarrow> v | None \<Rightarrow> JNull)"

definition pref_key :: "(rat \<Rightarrow> string) \<Rightarrow> action \<Rightarrow> string" where
  "pref_key R a = js_text_of R (ax_key a)"

section \<open>Preview and approval\<close>

definition approval_payload :: "string \<Rightarrow> js \<Rightarrow> js \<Rightarrow> string \<Rightarrow> int \<Rightarrow> js" where
  "approval_payload i key prev nxt expires =
     JObj [(''schema_version'', JStr ''zarvis.action.approval-payload.v1''), (''action_id'', JStr i),
           (''capability'', JStr ''sandbox.preference.set''), (''key'', key), (''previous_value'', prev),
           (''next_value'', JStr nxt), (''owner_user_id'', JStr ''github:4076926''),
           (''tenant_id'', JStr ''owner-4076926''), (''expires_at'', JStr (to_iso expires))]"

definition new_action :: "string \<Rightarrow> js \<Rightarrow> js \<Rightarrow> string \<Rightarrow> string \<Rightarrow> string \<Rightarrow> int \<Rightarrow> action" where
  "new_action i key prev nxt dg nonce now =
     \<lparr>ax_id = i, ax_status = Pending, ax_key = key, ax_previous = prev, ax_next = nxt, ax_digest = dg,
      ax_nonce = Some nonce, ax_expiresAt = now + APPROVAL_TTL, ax_consumedAt = None, ax_executionId = None,
      ax_executedAt = None, ax_rollbackDigest = None, ax_rollbackNonce = None, ax_rolledBackAt = None,
      ax_failureCode = None, ax_createdAt = now, ax_updatedAt = now\<rparr>"

definition action_preview :: "'s action_runtime \<Rightarrow> js \<Rightarrow> 's service \<Rightarrow> ('s, public_action) action_result" where
  "action_preview A input g =
     andThen (check (validatePreferenceInput (ar_ratText A) input) g) (\<lambda>g1 (key, v).
     andThen (read_state A g1) (\<lambda>g2 s.
     if ls_stop s then (g2, Inl (ActionError ''emergency_stop_active'' 423))
     else
     andThen (new_id (ar_uuid A) g2) (\<lambda>g3 i.
     andThen (new_id (ar_uuid A) g3) (\<lambda>g4 nonce.
     let prev = observed s (js_text_of (ar_ratText A) key);
         dg = digest (ar_hash A) (approval_payload i key prev v (sv_now g + APPROVAL_TTL))
     in andThen (record_action A Previewed (new_action i key prev v dg nonce (sv_now g)) g4) (\<lambda>g5 a.
        (g5, Inr (a, False)))))))"

definition js_opt :: "string option \<Rightarrow> js" where
  "js_opt o1 = (case o1 of None \<Rightarrow> JNull | Some s \<Rightarrow> JStr s)"

definition granted :: "int \<Rightarrow> action \<Rightarrow> action" where
  "granted now a = a\<lparr>ax_status := Granted, ax_consumedAt := Some now, ax_nonce := None, ax_updatedAt := now\<rparr>"

definition action_approve :: "'s action_runtime \<Rightarrow> string \<Rightarrow> js \<Rightarrow> 's service \<Rightarrow> ('s, public_action) action_result" where
  "action_approve A i body g =
     andThen (check (body_object body) g) (\<lambda>g0 _.
     andThen (find_action A i g0) (\<lambda>g1 current.
     if ax_status current = Granted then (g1, Inr (current, True))
     else if ax_status current \<noteq> Pending then (g1, Inl (ActionError ''invalid_action_state'' 409))
     else if ax_expiresAt current < sv_now g then
       andThen (expire A current g1) (\<lambda>g2 _. (g2, Inl (ActionError ''approval_expired'' 410)))
     else if get_prop body ''approval_digest'' \<noteq> JStr (ax_digest current)
         \<or> get_prop body ''approval_nonce'' \<noteq> js_opt (ax_nonce current)
     then (g1, Inl (ActionError ''approval_mismatch'' 403))
     else
       andThen (record_action A ApprovedEvent (granted (sv_now g) current) g1) (\<lambda>g2 a. (g2, Inr (a, False)))))"

section \<open>Execution and rollback\<close>

definition rollback_payload :: "action \<Rightarrow> string \<Rightarrow> js" where
  "rollback_payload a x =
     JObj [(''schema_version'', JStr ''zarvis.action.rollback-payload.v1''), (''action_id'', JStr (ax_id a)),
           (''execution_id'', JStr x), (''key'', ax_key a), (''previous_value'', ax_previous a),
           (''next_value'', JStr (ax_next a)), (''owner_user_id'', JStr ''github:4076926''),
           (''tenant_id'', JStr ''owner-4076926'')]"

definition with_next :: "(rat \<Rightarrow> string) \<Rightarrow> int \<Rightarrow> action \<Rightarrow> local_state \<Rightarrow> local_state" where
  "with_next R now a s =
     s\<lparr>ls_preferences := map_set (ls_preferences s) (pref_key R a) (JStr (ax_next a)), ls_updatedAt := Some now\<rparr>"

definition executed :: "int \<Rightarrow> string \<Rightarrow> string \<Rightarrow> string \<Rightarrow> action \<Rightarrow> action" where
  "executed now x dg nonce a =
     a\<lparr>ax_status := Executed, ax_executionId := Some x, ax_executedAt := Some now, ax_rollbackDigest := Some dg,
       ax_rollbackNonce := Some nonce, ax_updatedAt := now\<rparr>"

definition action_execute :: "'s action_runtime \<Rightarrow> string \<Rightarrow> 's service \<Rightarrow> ('s, public_action) action_result" where
  "action_execute A i g =
     andThen (find_action A i g) (\<lambda>g1 current.
     if ax_status current = Executed then (g1, Inr (current, True))
     else if ax_status current \<noteq> Granted then (g1, Inl (ActionError ''invalid_action_state'' 409))
     else if ax_expiresAt current < sv_now g then
       andThen (expire A current g1) (\<lambda>g2 _. (g2, Inl (ActionError ''approval_expired'' 410)))
     else
     andThen (read_state A g1) (\<lambda>g2 s.
     if ls_stop s then (g2, Inl (ActionError ''emergency_stop_active'' 423))
     else if \<not> sameValue (observed s (pref_key (ar_ratText A) current)) (ax_previous current)
     then (g2, Inl (ActionError ''stale_preview'' 409))
     else
     andThen (new_id (ar_uuid A) g2) (\<lambda>g3 x.
     andThen (new_id (ar_uuid A) g3) (\<lambda>g4 nonce.
     andThen (write_state A (with_next (ar_ratText A) (sv_now g) current s) g4) (\<lambda>g5 _.
     andThen (record_action A ExecutedEvent
        (executed (sv_now g) x (digest (ar_hash A) (rollback_payload current x)) nonce current) g5) (\<lambda>g6 a.
     (g6, Inr (a, False))))))))"

definition with_previous :: "(rat \<Rightarrow> string) \<Rightarrow> int \<Rightarrow> action \<Rightarrow> local_state \<Rightarrow> local_state" where
  "with_previous R now a s =
     s\<lparr>ls_preferences :=
         (if ax_previous a = JNull then map_delete (ls_preferences s) (pref_key R a)
          else map_set (ls_preferences s) (pref_key R a) (ax_previous a)),
       ls_updatedAt := Some now\<rparr>"

definition rolled_back :: "int \<Rightarrow> action \<Rightarrow> action" where
  "rolled_back now a =
     a\<lparr>ax_status := RolledBack, ax_rollbackNonce := None, ax_rolledBackAt := Some now, ax_updatedAt := now\<rparr>"

definition action_rollback :: "'s action_runtime \<Rightarrow> string \<Rightarrow> js \<Rightarrow> 's service \<Rightarrow> ('s, public_action) action_result" where
  "action_rollback A i body g =
     andThen (check (body_object body) g) (\<lambda>g0 _.
     andThen (find_action A i g0) (\<lambda>g1 current.
     if ax_status current = RolledBack then (g1, Inr (current, True))
     else if ax_status current \<noteq> Executed then (g1, Inl (ActionError ''invalid_action_state'' 409))
     else if get_prop body ''rollback_digest'' \<noteq> js_opt (ax_rollbackDigest current)
         \<or> get_prop body ''rollback_nonce'' \<noteq> js_opt (ax_rollbackNonce current)
     then (g1, Inl (ActionError ''rollback_mismatch'' 403))
     else
     andThen (read_state A g1) (\<lambda>g2 s.
     if \<not> sameValue (observed s (pref_key (ar_ratText A) current)) (JStr (ax_next current))
     then (g2, Inl (ActionError ''rollback_state_conflict'' 409))
     else
     andThen (write_state A (with_previous (ar_ratText A) (sv_now g) current s) g2) (\<lambda>g3 _.
     andThen (record_action A RolledBackEvent (rolled_back (sv_now g) current) g3) (\<lambda>g4 a.
     (g4, Inr (a, False)))))))"

section \<open>Emergency stop\<close>

definition stop_reason :: "(rat \<Rightarrow> string) \<Rightarrow> js \<Rightarrow> string" where
  "stop_reason R v = take 256 (if v = JUndef then ''owner_requested'' else js_text_of R v)"

definition revoked :: "int \<Rightarrow> action \<Rightarrow> action" where
  "revoked now a = a\<lparr>ax_status := Revoked, ax_updatedAt := now\<rparr>"

text \<open>The loop over the actions; the count of those it revoked.\<close>

fun revoke_all :: "'s action_runtime \<Rightarrow> nat \<Rightarrow> action list \<Rightarrow> 's service \<Rightarrow> ('s, nat) action_result" where
  "revoke_all A n [] g = (g, Inr n)"
| "revoke_all A n (a # as) g =
     (if ax_status a \<in> set TERMINAL_STATUSES then revoke_all A n as g
      else andThen (record_action A RevokedEvent (revoked (sv_now g) a) g) (\<lambda>g1 _. revoke_all A (Suc n) as g1))"

definition stopped :: "string \<Rightarrow> int \<Rightarrow> local_state \<Rightarrow> local_state" where
  "stopped r now s = s\<lparr>ls_stop := True, ls_reason := Some r, ls_updatedAt := Some now\<rparr>"

definition action_emergencyStop :: "'s action_runtime \<Rightarrow> js \<Rightarrow> 's service \<Rightarrow> ('s, nat) action_result" where
  "action_emergencyStop A body g =
     andThen (check (body_object body) g) (\<lambda>g0 _.
     andThen (read_state A g0) (\<lambda>g1 s.
     andThen (write_state A (stopped (stop_reason (ar_ratText A) (get_prop body ''reason'')) (sv_now g) s) g1) (\<lambda>g2 _.
     andThen (read_actions A g2) (\<lambda>g3 m. revoke_all A 0 (map_values m) g3))))"

definition resumed :: "int \<Rightarrow> local_state \<Rightarrow> local_state" where
  "resumed now s = s\<lparr>ls_stop := False, ls_reason := None, ls_updatedAt := Some now\<rparr>"

definition action_resume :: "'s action_runtime \<Rightarrow> js \<Rightarrow> 's service \<Rightarrow> ('s, unit) action_result" where
  "action_resume A body g =
     andThen (check (body_object body) g) (\<lambda>g0 _.
     if get_prop body ''confirmation'' \<noteq> JStr ''RESUME_LOCAL_ACTIONS''
     then (g0, Inl (ActionError ''resume_confirmation_required'' 403))
     else
     andThen (read_state A g0) (\<lambda>g1 s.
     andThen (write_state A (resumed (sv_now g) s) g1) (\<lambda>g2 _. (g2, Inr ()))))"

text \<open>\<open>status()\<close>: the members that are not constants.\<close>

definition action_gateway_status :: "'s action_runtime \<Rightarrow> 's service \<Rightarrow> ('s, bool \<times> string option) action_result" where
  "action_gateway_status A g = andThen (read_state A g) (\<lambda>g1 s. (g1, Inr (ls_stop s, ls_reason s)))"

section \<open>The worker\<close>

text \<open>One pass of \<open>runOnce\<close>: the approved actions as listed; a refused request ends the pass.\<close>

definition approved_ids :: "public_action list \<Rightarrow> string list" where
  "approved_ids as = map ax_id (filter (\<lambda>a. ax_status a = Granted) (map fst as))"

fun execute_each :: "'s action_runtime \<Rightarrow> string list \<Rightarrow> 's service \<Rightarrow> ('s, unit) action_result" where
  "execute_each A [] g = (g, Inr ())"
| "execute_each A (i # is) g = andThen (action_execute A i g) (\<lambda>g1 _. execute_each A is g1)"

definition worker_runOnce :: "'s action_runtime \<Rightarrow> 's service \<Rightarrow> ('s, nat) action_result" where
  "worker_runOnce A g =
     andThen (listActions A g) (\<lambda>g1 as.
     andThen (execute_each A (approved_ids as) g1) (\<lambda>g2 _. (g2, Inr (length (approved_ids as)))))"

section \<open>The service as a step relation\<close>

text \<open>
  One completed call of a route of \<open>server.mjs\<close> that writes; time passing (the clock may be
  set back); or a change \<open>E\<close> of the store's environment.
\<close>

inductive ag_step :: "'s action_runtime \<Rightarrow> ('s \<Rightarrow> 's \<Rightarrow> bool) \<Rightarrow> 's service \<Rightarrow> 's service \<Rightarrow> bool" for A E where
  preview: "ag_step A E g (fst (action_preview A input g))"
| approve: "ag_step A E g (fst (action_approve A i body g))"
| execute: "ag_step A E g (fst (action_execute A i g))"
| rollback: "ag_step A E g (fst (action_rollback A i body g))"
| stop: "ag_step A E g (fst (action_emergencyStop A body g))"
| resume: "ag_step A E g (fst (action_resume A body g))"
| clock: "ag_step A E g (g\<lparr>sv_now := t\<rparr>)"
| environment: "E (sv_data g) d \<Longrightarrow> ag_step A E g (g\<lparr>sv_data := d\<rparr>)"

inductive ag_reachable :: "'s action_runtime \<Rightarrow> ('s \<Rightarrow> 's \<Rightarrow> bool) \<Rightarrow> 's \<Rightarrow> 's service \<Rightarrow> bool" for A E s0 where
  start: "ag_reachable A E s0 \<lparr>sv_now = t, sv_fresh = 0, sv_data = s0\<rparr>"
| step: "ag_reachable A E s0 g \<Longrightarrow> ag_step A E g g' \<Longrightarrow> ag_reachable A E s0 g'"

end
