(* ===== verification/ActionSpec.thy ===== *)
theory ActionSpec
  imports ActionGateway
begin

text \<open>
  What the action gateway promises, as an abstract machine over the log and the local state
  alone: which event may follow which in the life of an action, and how the preferences
  move with the log. \<open>F\<close> says whether the store may fail.
\<close>

section \<open>The life of an action\<close>

definition latest :: "action_event list \<Rightarrow> string \<Rightarrow> action option" where
  "latest l i = map_get (latestActions l) i"

text \<open>The snapshot \<open>b\<close> may be recorded at \<open>now\<close> after \<open>cur\<close>.\<close>

definition legal :: "action option \<Rightarrow> action_event_type \<Rightarrow> int \<Rightarrow> action \<Rightarrow> bool" where
  "legal cur ty now b =
     (case (ty, cur) of
        (Previewed, None) \<Rightarrow>
          ax_id b \<noteq> [] \<and> b = new_action (ax_id b) (ax_key b) (ax_previous b) (ax_next b) (ax_digest b) (the (ax_nonce b)) now
      | (ApprovedEvent, Some a) \<Rightarrow> ax_status a = Pending \<and> now \<le> ax_expiresAt a \<and> b = granted now a
      | (ExpiredEvent, Some a) \<Rightarrow> ax_status a \<in> {Pending, Granted} \<and> ax_expiresAt a < now \<and> b = lapsed now a
      | (ExecutedEvent, Some a) \<Rightarrow>
          ax_status a = Granted \<and> now \<le> ax_expiresAt a \<and>
          b = executed now (the (ax_executionId b)) (the (ax_rollbackDigest b)) (the (ax_rollbackNonce b)) a
      | (RolledBackEvent, Some a) \<Rightarrow> ax_status a = Executed \<and> b = rolled_back now a
      | (RevokedEvent, Some a) \<Rightarrow> ax_status a \<notin> set TERMINAL_STATUSES \<and> b = revoked now a
      | _ \<Rightarrow> False)"

definition moves_state :: "action_event_type \<Rightarrow> bool" where
  "moves_state ty \<longleftrightarrow> ty = ExecutedEvent \<or> ty = RolledBackEvent"

text \<open>The compare-and-set conditions, and the write that goes with an event.\<close>

definition permitted :: "(rat \<Rightarrow> string) \<Rightarrow> action_event_type \<Rightarrow> action \<Rightarrow> local_state \<Rightarrow> bool" where
  "permitted R ty b s =
     (if ty = ExecutedEvent then \<not> ls_stop s \<and> sameValue (observed s (pref_key R b)) (ax_previous b)
      else sameValue (observed s (pref_key R b)) (JStr (ax_next b)))"

definition written :: "(rat \<Rightarrow> string) \<Rightarrow> action_event_type \<Rightarrow> int \<Rightarrow> action \<Rightarrow> local_state \<Rightarrow> local_state" where
  "written R ty now b s =
     (case ty of ExecutedEvent \<Rightarrow> with_next R now b s | RolledBackEvent \<Rightarrow> with_previous R now b s | _ \<Rightarrow> s)"

definition logged :: "action_event list \<Rightarrow> action_event \<Rightarrow> bool" where
  "logged l e \<longleftrightarrow> legal (latest l (ax_id (ae_action e))) (ae_type e) (ae_at e) (ae_action e)"

inductive sandbox_step ::
  "bool \<Rightarrow> (rat \<Rightarrow> string) \<Rightarrow> action_event list \<times> local_state \<Rightarrow> action_event list \<times> local_state \<Rightarrow> bool"
  for F R where
  event: "logged l e \<Longrightarrow> \<not> moves_state (ae_type e) \<Longrightarrow> sandbox_step F R (l, s) (l @ [e], s)"
| run: "logged l e \<Longrightarrow> moves_state (ae_type e) \<Longrightarrow> permitted R (ae_type e) (ae_action e) s \<Longrightarrow>
    s' = written R (ae_type e) (ae_at e) (ae_action e) s \<Longrightarrow> sandbox_step F R (l, s) (l @ [e], s')"
| flag: "ls_preferences s' = ls_preferences s \<Longrightarrow> sandbox_step F R (l, s) (l, s')"
| unlogged: "F \<Longrightarrow> logged l e \<Longrightarrow> moves_state (ae_type e) \<Longrightarrow> permitted R (ae_type e) (ae_action e) s \<Longrightarrow>
    s' = written R (ae_type e) (ae_at e) (ae_action e) s \<Longrightarrow> sandbox_step F R (l, s) (l, s')"

inductive_cases sandbox_stepE: "sandbox_step F R (l, s) (l', s')"

abbreviation sandbox_steps ::
  "bool \<Rightarrow> (rat \<Rightarrow> string) \<Rightarrow> action_event list \<times> local_state \<Rightarrow> action_event list \<times> local_state \<Rightarrow> bool" where
  "sandbox_steps F R \<equiv> (sandbox_step F R)\<^sup>*\<^sup>*"

lemma latest_Nil [simp]: "latest [] i = None"
  by (simp add: latest_def latestActions_def)

lemma latest_snoc:
  "latest (l @ [e]) i =
     (if ax_id (ae_action e) \<noteq> [] \<and> i = ax_id (ae_action e) then Some (ae_action e) else latest l i)"
  by (simp add: latest_def latestActions_def)

lemma latest_id: "latest l i = Some a \<Longrightarrow> ax_id a = i \<and> i \<noteq> []"
  by (induction l rule: rev_induct) (auto simp: latest_snoc split: if_splits)

lemma snapshot_fields [simp]:
  "ax_id (granted t a) = ax_id a" "ax_id (lapsed t a) = ax_id a" "ax_id (executed t x d n a) = ax_id a"
  "ax_id (rolled_back t a) = ax_id a" "ax_id (revoked t a) = ax_id a" "ax_id (new_action i k p v d n t) = i"
  "ax_status (granted t a) = Granted" "ax_status (lapsed t a) = Lapsed" "ax_status (executed t x d n a) = Executed"
  "ax_status (rolled_back t a) = RolledBack" "ax_status (revoked t a) = Revoked"
  "ax_status (new_action i k p v d n t) = Pending"
  by (simp_all add: granted_def lapsed_def executed_def rolled_back_def revoked_def new_action_def)

section \<open>Legal logs\<close>

inductive legal_log :: "action_event list \<Rightarrow> bool" where
  empty: "legal_log []"
| snoc: "legal_log l \<Longrightarrow> logged l e \<Longrightarrow> legal_log (l @ [e])"

inductive_cases legal_log_snocE: "legal_log (l @ [e])"

lemma legal_log_prefix: "legal_log (l @ m) \<Longrightarrow> legal_log l"
  by (induction m rule: rev_induct) (auto simp: append_assoc [symmetric] simp del: append_assoc elim: legal_log_snocE)

lemma legal_log_logged: "legal_log (l @ [e]) \<Longrightarrow> logged l e"
  by (erule legal_log_snocE) auto

lemma legal_log_nth: "legal_log l \<Longrightarrow> k < length l \<Longrightarrow> legal_log (take k l) \<and> logged (take k l) (l ! k)"
  by (metis append_take_drop_id legal_log_logged legal_log_prefix take_Suc_conv_app_nth)

lemma sandbox_step_legal: "sandbox_step F R c c' \<Longrightarrow> legal_log (fst c) \<Longrightarrow> legal_log (fst c')"
  by (induction rule: sandbox_step.induct) (auto intro: legal_log.intros)

lemma sandbox_legal: "sandbox_steps F R c c' \<Longrightarrow> legal_log (fst c) \<Longrightarrow> legal_log (fst c')"
  by (induction rule: rtranclp_induct) (auto intro: sandbox_step_legal)

lemma sandbox_step_grows: "sandbox_step F R c c' \<Longrightarrow> \<exists>m. fst c' = fst c @ m"
  by (induction rule: sandbox_step.induct) auto

lemma sandbox_grows: "sandbox_steps F R c c' \<Longrightarrow> \<exists>m. fst c' = fst c @ m"
  by (induction rule: rtranclp_induct) (auto dest!: sandbox_step_grows)

text \<open>What never changes in an action.\<close>

definition terms_of :: "action \<Rightarrow> string \<times> js \<times> js \<times> string \<times> string \<times> int \<times> int" where
  "terms_of a = (ax_id a, ax_key a, ax_previous a, ax_next a, ax_digest a, ax_expiresAt a, ax_createdAt a)"

lemma terms_of_simps [simp]:
  "terms_of (granted t a) = terms_of a" "terms_of (lapsed t a) = terms_of a"
  "terms_of (executed t x d n a) = terms_of a" "terms_of (rolled_back t a) = terms_of a"
  "terms_of (revoked t a) = terms_of a"
  by (simp_all add: terms_of_def granted_def lapsed_def executed_def rolled_back_def revoked_def)

definition runs_of :: "string \<Rightarrow> action_event list \<Rightarrow> nat" where
  "runs_of i l = length (filter (\<lambda>e. ae_type e = ExecutedEvent \<and> ax_id (ae_action e) = i) l)"

lemma runs_of_simps [simp]:
  "runs_of i [] = 0"
  "runs_of i (l @ [e]) = runs_of i l + (if ae_type e = ExecutedEvent \<and> ax_id (ae_action e) = i then 1 else 0)"
  by (simp_all add: runs_of_def)

text \<open>An event of a kind, with the same terms as \<open>a\<close>, at an index of the log.\<close>

definition recorded :: "action_event list \<Rightarrow> nat \<Rightarrow> action_event_type \<Rightarrow> action \<Rightarrow> bool" where
  "recorded l k ty a \<longleftrightarrow> k < length l \<and> ae_type (l ! k) = ty \<and> terms_of (ae_action (l ! k)) = terms_of a"

lemma recorded_snoc: "recorded l k ty a \<Longrightarrow> recorded (l @ [e]) k ty a"
  by (simp add: recorded_def nth_append)

lemma recorded_terms: "terms_of b = terms_of a \<Longrightarrow> recorded l k ty b = recorded l k ty a"
  by (simp add: recorded_def)

lemma recorded_last: "ae_type e = ty \<Longrightarrow> terms_of (ae_action e) = terms_of a \<Longrightarrow> recorded (l @ [e]) (length l) ty a"
  by (simp add: recorded_def)

definition was_granted :: "action_event list \<Rightarrow> action \<Rightarrow> bool" where
  "was_granted l a \<longleftrightarrow> (\<exists>j k. j < k \<and> recorded l j Previewed a \<and> recorded l k ApprovedEvent a \<and>
      ae_at (l ! k) \<le> ax_expiresAt a \<and> ax_expiresAt a = ae_at (l ! j) + APPROVAL_TTL)"

definition was_previewed :: "action_event list \<Rightarrow> action \<Rightarrow> bool" where
  "was_previewed l a \<longleftrightarrow> (\<exists>j. recorded l j Previewed a \<and> ax_expiresAt a = ae_at (l ! j) + APPROVAL_TTL)"

definition history :: "action_event list \<Rightarrow> string \<Rightarrow> bool" where
  "history l i \<longleftrightarrow>
     (case latest l i of
        None \<Rightarrow> runs_of i l = 0
      | Some a \<Rightarrow>
          was_previewed l a \<and> (ax_status a \<in> {Granted, Executed, RolledBack} \<longrightarrow> was_granted l a) \<and>
          runs_of i l = (if ax_status a \<in> {Executed, RolledBack} then 1 else 0))"

lemma was_snoc: "was_previewed l a \<Longrightarrow> was_previewed (l @ [e]) a" "was_granted l a \<Longrightarrow> was_granted (l @ [e]) a"
  by (auto simp: was_previewed_def was_granted_def recorded_def nth_append)

lemma was_terms:
  assumes "terms_of b = terms_of a"
  shows "was_previewed l b = was_previewed l a" "was_granted l b = was_granted l a"
proof -
  have "ax_expiresAt b = ax_expiresAt a" using assms by (simp add: terms_of_def)
  with recorded_terms [OF assms] show "was_previewed l b = was_previewed l a" "was_granted l b = was_granted l a"
    by (simp_all add: was_previewed_def was_granted_def)
qed

lemma granted_now:
  assumes "was_previewed l a" and "ae_type e = ApprovedEvent" and "ae_at e \<le> ax_expiresAt a" and "ae_action e = granted t a"
  shows "was_granted (l @ [e]) a"
proof -
  from assms(1) obtain j where j: "recorded l j Previewed a" "ax_expiresAt a = ae_at (l ! j) + APPROVAL_TTL"
    by (auto simp: was_previewed_def)
  then have "j < length l" "ae_at ((l @ [e]) ! j) = ae_at (l ! j)" by (auto simp: recorded_def nth_append)
  with j recorded_snoc [OF j(1)] recorded_last [of e ApprovedEvent a l] assms(2-4) show ?thesis
    unfolding was_granted_def by (intro exI [of _ j] exI [of _ "length l"]) simp
qed

lemma previewed_now:
  assumes "ae_type e = Previewed" and "ae_action e = a" and "ax_expiresAt a = ae_at e + APPROVAL_TTL"
  shows "was_previewed (l @ [e]) a"
  unfolding was_previewed_def by (rule exI [of _ "length l"]) (use assms recorded_last [of e Previewed a l] in simp)

lemma legal_log_history:
  assumes "legal_log l" and "i \<noteq> []"
  shows "history l i"
  using assms(1)
proof (induction rule: legal_log.induct)
  case empty
  show ?case by (simp add: history_def)
next
  case (snoc l e)
  let ?b = "ae_action e"
  show ?case
  proof (cases "ax_id ?b = i")
    case False
    with snoc.IH show ?thesis
      by (auto simp: history_def latest_snoc was_snoc split: option.splits)
  next
    case True
    with assms(2) have l: "latest (l @ [e]) i = Some ?b" by (simp add: latest_snoc)
    have g: "legal (latest l i) (ae_type e) (ae_at e) ?b" using snoc.hyps(2) True by (simp add: logged_def)
    show ?thesis
    proof (cases "latest l i")
      case None
      with g have ty: "ae_type e = Previewed" by (auto simp: legal_def split: action_event_type.splits)
      with g None have b: "ax_status ?b = Pending" "ax_expiresAt ?b = ae_at e + APPROVAL_TTL"
        by (simp_all add: legal_def) (metis action.select_convs snapshot_fields new_action_def)+
      from snoc.IH None have "runs_of i l = 0" by (simp add: history_def)
      with previewed_now [OF ty refl b(2)] b(1) ty l show ?thesis by (simp add: history_def)
    next
      case (Some a)
      note h = snoc.IH [unfolded history_def Some option.case]
      from g Some have t: "terms_of ?b = terms_of a"
        by (auto simp: legal_def split: action_event_type.splits) (metis terms_of_simps)
      have keep: "was_previewed (l @ [e]) ?b" "was_granted l a \<Longrightarrow> was_granted (l @ [e]) ?b"
        using h was_snoc was_terms [OF t] by blast+
      show ?thesis
      proof (cases "ae_type e")
        case ApprovedEvent
        with g Some have a: "ae_at e \<le> ax_expiresAt a" "?b = granted (ae_at e) a" "ax_status a = Pending"
          by (simp_all add: legal_def)
        have "was_granted (l @ [e]) a" by (rule granted_now [OF _ ApprovedEvent a(1,2)]) (use h in blast)
        then have "was_granted (l @ [e]) ?b" by (simp only: was_terms(2) [OF t])
        with a h keep(1) ApprovedEvent l show ?thesis by (simp add: history_def)
      next
        case ExecutedEvent
        with g Some have a: "ax_status a = Granted" "ax_status ?b = Executed"
          by (simp_all add: legal_def) (metis snapshot_fields(9))
        with h keep ExecutedEvent True l show ?thesis by (simp add: history_def)
      next
        case RolledBackEvent
        with g Some have a: "ax_status a = Executed" "ax_status ?b = RolledBack"
          by (simp_all add: legal_def)
        with h keep RolledBackEvent True l show ?thesis by (simp add: history_def)
      next
        case ExpiredEvent
        with g Some have a: "ax_status a \<in> {Pending, Granted}" "ax_status ?b = Lapsed"
          by (simp_all add: legal_def)
        with h keep ExpiredEvent True l show ?thesis by (auto simp: history_def)
      next
        case RevokedEvent
        with g Some have a: "ax_status a \<notin> {Executed, RolledBack}" "ax_status ?b = Revoked"
          by (simp_all add: legal_def TERMINAL_STATUSES_def)
        with h keep RevokedEvent True l show ?thesis by (simp add: history_def)
      next
        case Previewed
        with g Some show ?thesis by (simp add: legal_def)
      qed
    qed
  qed
qed

section \<open>What a legal log says of an execution\<close>

lemma run_has_history:
  assumes "legal_log l" and "k < length l" and "ae_type (l ! k) = ExecutedEvent" and "ae_action (l ! k) = b"
  shows "\<exists>i j. i < j \<and> j < k \<and> recorded l i Previewed b \<and> recorded l j ApprovedEvent b \<and>
      ae_at (l ! j) \<le> ae_at (l ! i) + APPROVAL_TTL \<and> ae_at (l ! k) \<le> ae_at (l ! i) + APPROVAL_TTL"
    and "\<And>k'. k' < length l \<Longrightarrow> ae_type (l ! k') = ExecutedEvent \<Longrightarrow> ax_id (ae_action (l ! k')) = ax_id b \<Longrightarrow> k' = k"
proof -
  note p = legal_log_nth [OF assms(1,2)]
  from p assms(3,4) obtain a where a: "latest (take k l) (ax_id b) = Some a" "ax_status a = Granted"
      "ae_at (l ! k) \<le> ax_expiresAt a" and "terms_of b = terms_of a"
    by (auto simp: logged_def legal_def split: option.splits) (metis terms_of_simps(3))
  have "history (take k l) (ax_id b)"
    using p legal_log_history latest_id [OF a(1)] by blast
  with a have "was_granted (take k l) a" by (simp add: history_def)
  then obtain i j where ij: "i < j" "recorded (take k l) i Previewed a" "recorded (take k l) j ApprovedEvent a"
      "ae_at (take k l ! j) \<le> ax_expiresAt a" "ax_expiresAt a = ae_at (take k l ! i) + APPROVAL_TTL"
    by (auto simp: was_granted_def)
  then have "j < k" "i < k" by (auto simp: recorded_def)
  with ij a(3) \<open>terms_of b = terms_of a\<close> show "\<exists>i j. i < j \<and> j < k \<and> recorded l i Previewed b \<and> recorded l j ApprovedEvent b \<and>
      ae_at (l ! j) \<le> ae_at (l ! i) + APPROVAL_TTL \<and> ae_at (l ! k) \<le> ae_at (l ! i) + APPROVAL_TTL"
    by (intro exI [of _ i] exI [of _ j]) (simp add: recorded_def)
next
  fix k' assume k': "k' < length l" "ae_type (l ! k') = ExecutedEvent" "ax_id (ae_action (l ! k')) = ax_id b"
  have two: "\<not> (m < n \<and> n < length l \<and> ae_type (l ! m) = ExecutedEvent \<and> ae_type (l ! n) = ExecutedEvent \<and>
      ax_id (ae_action (l ! m)) = ax_id (ae_action (l ! n)))" for m n
  proof
    assume h: "m < n \<and> n < length l \<and> ae_type (l ! m) = ExecutedEvent \<and> ae_type (l ! n) = ExecutedEvent \<and>
      ax_id (ae_action (l ! m)) = ax_id (ae_action (l ! n))"
    let ?i = "ax_id (ae_action (l ! n))"
    have p: "legal_log (take n l)" "logged (take n l) (l ! n)" using legal_log_nth [OF assms(1)] h by blast+
    from p(2) h obtain a where a: "latest (take n l) ?i = Some a" "ax_status a = Granted"
      by (auto simp: logged_def legal_def split: option.splits)
    then have "runs_of ?i (take n l) = 0"
      using legal_log_history [OF p(1)] latest_id [OF a(1)] by (fastforce simp: history_def)
    moreover have "l ! m \<in> set (take n l)" using h by (metis in_set_conv_nth length_take min.absorb4 nth_take)
    ultimately show False using h by (auto simp: runs_of_def filter_empty_conv)
  qed
  from two [of k k'] two [of k' k] k' assms(2-4) show "k' = k" by (cases k k' rule: linorder_cases) auto
qed

text \<open>A finished action never runs.\<close>

lemma terminal_latest:
  assumes "legal_log (l @ m)" and "latest l i = Some a" and "ax_status a \<in> {RolledBack, Lapsed, Revoked}"
  shows "latest (l @ m) i = Some a"
  using assms(1)
proof (induction m rule: rev_induct)
  case (snoc e m)
  have "legal_log (l @ m)" "logged (l @ m) e"
    using snoc.prems legal_log_prefix [of "l @ m" "[e]"] legal_log_logged [of "l @ m" e] by simp_all
  with snoc.IH have a: "latest (l @ m) i = Some a" and e: "logged (l @ m) e" by blast+
  have "ax_id (ae_action e) \<noteq> i"
  proof
    assume "ax_id (ae_action e) = i"
    with a e have "legal (Some a) (ae_type e) (ae_at e) (ae_action e)" by (simp add: logged_def)
    with assms(3) show False by (auto simp: legal_def TERMINAL_STATUSES_def split: action_event_type.splits)
  qed
  with a show ?case using latest_snoc [of "l @ m" e i] by simp
qed (simp add: assms(2))

section \<open>The log explains the preferences\<close>

fun replay_preferences :: "(rat \<Rightarrow> string) \<Rightarrow> action_event list \<Rightarrow> (string, js) jsmap \<Rightarrow> (string, js) jsmap" where
  "replay_preferences R [] p = p"
| "replay_preferences R (e # es) p =
     replay_preferences R es
       (case ae_type e of
          ExecutedEvent \<Rightarrow> map_set p (pref_key R (ae_action e)) (JStr (ax_next (ae_action e)))
        | RolledBackEvent \<Rightarrow>
            (if ax_previous (ae_action e) = JNull then map_delete p (pref_key R (ae_action e))
             else map_set p (pref_key R (ae_action e)) (ax_previous (ae_action e)))
        | _ \<Rightarrow> p)"

lemma replay_snoc:
  "replay_preferences R (l @ [e]) p = ls_preferences (written R (ae_type e) (ae_at e) (ae_action e)
     (DEFAULT_STATE\<lparr>ls_preferences := replay_preferences R l p\<rparr>))"
  by (induction l arbitrary: p)
    (auto simp: written_def with_next_def with_previous_def split: action_event_type.splits)

lemma written_preferences:
  "ls_preferences s = ls_preferences s' \<Longrightarrow>
     ls_preferences (written R ty now b s) = ls_preferences (written R ty now b s')"
  by (simp add: written_def with_next_def with_previous_def split: action_event_type.splits)

lemma sandbox_step_explained:
  assumes "sandbox_step False R c c'" and "ls_preferences (snd c) = replay_preferences R (fst c) []"
  shows "ls_preferences (snd c') = replay_preferences R (fst c') []"
  using assms
proof (induction rule: sandbox_step.induct)
  case (event l e s)
  then show ?case by (auto simp: replay_snoc written_def moves_state_def split: action_event_type.splits)
next
  case (run l e s s')
  then show ?case by (auto simp: replay_snoc intro!: written_preferences)
qed simp_all

lemma sandbox_explained:
  "sandbox_steps False R c c' \<Longrightarrow> ls_preferences (snd c) = replay_preferences R (fst c) [] \<Longrightarrow>
     ls_preferences (snd c') = replay_preferences R (fst c') []"
  by (induction rule: rtranclp_induct) (auto intro: sandbox_step_explained)

end
