(* ===== verification/ActionStores.thy ===== *)
theory ActionStores
  imports ActionGateway
begin

text \<open>
  The two stores of \<open>store.mjs\<close>. The file store queues its writes on a chain of promises
  made with \<open>then\<close> and one handler only: once a write has been rejected the chain stays
  rejected, which is \<open>ad_chain\<close>. What fails is part of the state and may be changed by the
  environment: the message of a failing access (creating or reading the files), append or
  replacement; a failing append may have written its line (\<open>sync\<close> fails after the write).
  The files are created on first use with no event and \<open>DEFAULT_STATE\<close>, which a fresh
  store shows from the start; every record read back is one that was written.
\<close>

record action_memory =
  am_events :: "action_event list"
  am_state :: local_state

definition amem_readEvents :: "action_memory \<Rightarrow> (string, action_event list) result" where
  "amem_readEvents m = Inr (am_events m)"

definition amem_appendEvent :: "action_event \<Rightarrow> action_memory \<Rightarrow> (action_memory, string, unit) outcome" where
  "amem_appendEvent e m = (m\<lparr>am_events := am_events m @ [e]\<rparr>, Inr ())"

definition amem_readState :: "action_memory \<Rightarrow> (string, local_state) result" where
  "amem_readState m = Inr (am_state m)"

definition amem_writeState :: "local_state \<Rightarrow> action_memory \<Rightarrow> (action_memory, string, local_state) outcome" where
  "amem_writeState s m = (m\<lparr>am_state := s\<rparr>, Inr s)"

definition memory_action_store :: "action_memory action_store" where
  "memory_action_store =
     \<lparr>as_readEvents = amem_readEvents, as_appendEvent = amem_appendEvent, as_readState = amem_readState,
      as_writeState = amem_writeState\<rparr>"

definition empty_action_memory :: action_memory where
  "empty_action_memory = \<lparr>am_events = [], am_state = DEFAULT_STATE\<rparr>"

record action_disk =
  ad_events :: "action_event list"
  ad_state :: local_state
  ad_accessError :: "string option"
  ad_appendError :: "(string \<times> bool) option"
  ad_writeError :: "string option"
  ad_chain :: "string option"

definition accessed :: "action_disk \<Rightarrow> (string, action_disk) result" where
  "accessed d = (case ad_accessError d of Some m \<Rightarrow> Inl m | None \<Rightarrow> Inr d)"

definition disk_readEvents :: "action_disk \<Rightarrow> (string, action_event list) result" where
  "disk_readEvents d = bindR (accessed d) (\<lambda>d. Inr (ad_events d))"

definition disk_readState :: "action_disk \<Rightarrow> (string, local_state) result" where
  "disk_readState d = bindR (accessed d) (\<lambda>d. Inr (ad_state d))"

text \<open>\<open>this.writeChain = this.writeChain.then(job)\<close>, and the promise it returns awaited.\<close>

definition chained ::
  "(action_disk \<Rightarrow> (action_disk, string, 'a) outcome) \<Rightarrow> action_disk \<Rightarrow> (action_disk, string, 'a) outcome" where
  "chained job d =
     (case accessed d of
        Inl m \<Rightarrow> (d, Inl m)
      | Inr _ \<Rightarrow>
          (case ad_chain d of
             Some m \<Rightarrow> (d, Inl m)
           | None \<Rightarrow>
               (case job d of
                  (d', Inl m) \<Rightarrow> (d'\<lparr>ad_chain := Some m\<rparr>, Inl m)
                | (d', Inr v) \<Rightarrow> (d', Inr v))))"

definition append_line :: "action_event \<Rightarrow> action_disk \<Rightarrow> (action_disk, string, unit) outcome" where
  "append_line e d =
     (case ad_appendError d of
        None \<Rightarrow> (d\<lparr>ad_events := ad_events d @ [e]\<rparr>, Inr ())
      | Some (m, landed) \<Rightarrow> (if landed then d\<lparr>ad_events := ad_events d @ [e]\<rparr> else d, Inl m))"

definition replace_state :: "local_state \<Rightarrow> action_disk \<Rightarrow> (action_disk, string, local_state) outcome" where
  "replace_state s d =
     (case ad_writeError d of
        None \<Rightarrow> (d\<lparr>ad_state := s\<rparr>, Inr s)
      | Some m \<Rightarrow> (d, Inl m))"

definition disk_appendEvent :: "action_event \<Rightarrow> action_disk \<Rightarrow> (action_disk, string, unit) outcome" where
  "disk_appendEvent e d = chained (append_line e) d"

definition disk_writeState :: "local_state \<Rightarrow> action_disk \<Rightarrow> (action_disk, string, local_state) outcome" where
  "disk_writeState s d = chained (replace_state s) d"

definition file_action_store :: "action_disk action_store" where
  "file_action_store =
     \<lparr>as_readEvents = disk_readEvents, as_appendEvent = disk_appendEvent, as_readState = disk_readState,
      as_writeState = disk_writeState\<rparr>"

definition empty_action_disk :: action_disk where
  "empty_action_disk =
     \<lparr>ad_events = [], ad_state = DEFAULT_STATE, ad_accessError = None, ad_appendError = None,
      ad_writeError = None, ad_chain = None\<rparr>"

text \<open>The environment: faults come and go, and a restart of the process starts a new chain.\<close>

definition action_disk_change :: "action_disk \<Rightarrow> action_disk \<Rightarrow> bool" where
  "action_disk_change d d' \<longleftrightarrow>
     ad_events d' = ad_events d \<and> ad_state d' = ad_state d \<and> (ad_chain d' = ad_chain d \<or> ad_chain d' = None)"

lemma action_store_fields [simp]:
  "as_readEvents file_action_store = disk_readEvents" "as_appendEvent file_action_store = disk_appendEvent"
  "as_readState file_action_store = disk_readState" "as_writeState file_action_store = disk_writeState"
  "as_readEvents memory_action_store = amem_readEvents" "as_appendEvent memory_action_store = amem_appendEvent"
  "as_readState memory_action_store = amem_readState" "as_writeState memory_action_store = amem_writeState"
  by (simp_all add: file_action_store_def memory_action_store_def)

section \<open>What the file store does\<close>

lemma chained_post:
  assumes "post (job d) N X" and "\<And>d' m. X d' \<Longrightarrow> X (d'\<lparr>ad_chain := m\<rparr>)" and "X d"
  shows "post (chained job d) N X"
proof (cases "job d")
  case (Pair d' r)
  with assms show ?thesis by (cases r) (simp_all add: chained_def split: sum.splits option.splits)
qed

lemma disk_ops:
  "post (disk_appendEvent e d) (\<lambda>_ d'. ad_events d' = ad_events d @ [e] \<and> ad_state d' = ad_state d)
     (\<lambda>d'. (ad_events d' = ad_events d \<or> ad_events d' = ad_events d @ [e]) \<and> ad_state d' = ad_state d)"
  "post (disk_writeState s d) (\<lambda>_ d'. ad_events d' = ad_events d \<and> ad_state d' = s)
     (\<lambda>d'. ad_events d' = ad_events d \<and> ad_state d' = ad_state d)"
  by (auto simp: disk_appendEvent_def disk_writeState_def append_line_def replace_state_def
      intro!: chained_post split: option.splits)

text \<open>After one rejected write every later one is rejected, and nothing is written.\<close>

lemma chain_stays_rejected:
  assumes "ad_chain d = Some m" and "ad_accessError d = None"
  shows "disk_appendEvent e d = (d, Inl m)" and "disk_writeState s d = (d, Inl m)"
  using assms by (simp_all add: disk_appendEvent_def disk_writeState_def chained_def accessed_def)

lemma rejected_chain:
  assumes "ad_accessError d = None" and "ad_chain d = None" and "ad_appendError d = Some (m, w) \<or> ad_writeError d = Some m"
  shows "ad_appendError d = Some (m, w) \<Longrightarrow> ad_chain (fst (disk_appendEvent e d)) = Some m"
    and "ad_writeError d = Some m \<Longrightarrow> ad_chain (fst (disk_writeState s d)) = Some m"
  using assms by (simp_all add: disk_appendEvent_def disk_writeState_def chained_def accessed_def
      append_line_def replace_state_def)

end
