(* ===== verification/ActionProperties.thy ===== *)
theory ActionProperties
  imports ActionSpec ActionStores
begin

text \<open>
  The runtime over any store that keeps the store contract refines the abstract machine of
  \<open>ActionSpec\<close>; both stores keep it. Then what follows for the service: executions are
  approved and unique, the log explains the preferences, an emergency stop is final, and
  what a rejected write does to the file store.
\<close>

section \<open>The contract of a store\<close>

lemma latestActions_snoc:
  "latestActions (l @ [e]) =
     (if ax_id (ae_action e) \<noteq> [] then map_set (latestActions l) (ax_id (ae_action e)) (ae_action e) else latestActions l)"
  by (simp add: latestActions_def)

lemma latestActions_ok: "map_ok (latestActions l)"
  by (induction l rule: rev_induct) (simp_all add: latestActions_snoc, simp add: latestActions_def)

lemma latestActions_keys: "(k, a) \<in> set (latestActions l) \<Longrightarrow> k = ax_id a"
proof (induction l rule: rev_induct)
  case (snoc e l)
  then show ?case
    using set_map_set_subset [of "latestActions l" "ax_id (ae_action e)" "ae_action e"]
    by (auto simp: latestActions_snoc split: if_splits)
qed (simp add: latestActions_def)

lemma latest_values:
  "distinct (map ax_id (map_values (latestActions l)))"
  "a \<in> set (map_values (latestActions l)) \<Longrightarrow> latest l (ax_id a) = Some a"
  "latest l i = Some a \<Longrightarrow> a \<in> set (map_values (latestActions l))"
proof -
  have "map ax_id (map_values (latestActions l)) = map fst (latestActions l)"
    using latestActions_keys by (force simp: map_values_def)
  with latestActions_ok show "distinct (map ax_id (map_values (latestActions l)))" by (metis map_ok_def)
  show "latest l (ax_id a) = Some a" if "a \<in> set (map_values (latestActions l))"
    using that latestActions_keys map_get_iff [OF latestActions_ok] by (fastforce simp: latest_def map_values_def)
  show "a \<in> set (map_values (latestActions l))" if "latest l i = Some a"
    using that map_values_get by (simp add: latest_def)
qed

text \<open>The ids in the log are drawn from the supply; no action is waiting or approved.\<close>

definition ids_ok :: "(nat \<Rightarrow> string) \<Rightarrow> nat \<Rightarrow> action_event list \<Rightarrow> bool" where
  "ids_ok U n l \<longleftrightarrow> (\<forall>e\<in>set l. \<exists>m<n. ax_id (ae_action e) = U m)"

definition all_settled :: "action_event list \<Rightarrow> bool" where
  "all_settled l \<longleftrightarrow> (\<forall>i a. latest l i = Some a \<longrightarrow> ax_status a \<in> set TERMINAL_STATUSES)"

locale action_stores =
  fixes P :: "'s action_store" and evs :: "'s \<Rightarrow> action_event list" and st :: "'s \<Rightarrow> local_state"
    and E :: "'s \<Rightarrow> 's \<Rightarrow> bool" and errors :: "string set"
  assumes events: "as_readEvents P d = Inr l \<Longrightarrow> l = evs d"
    and state: "as_readState P d = Inr s \<Longrightarrow> s = st d"
    and append: "post (as_appendEvent P e d) (\<lambda>_ d'. evs d' = evs d @ [e] \<and> st d' = st d)
          (\<lambda>d'. (evs d' = evs d \<or> evs d' = evs d @ [e]) \<and> st d' = st d)"
    and replace: "post (as_writeState P s d) (\<lambda>_ d'. evs d' = evs d \<and> st d' = s)
          (\<lambda>d'. evs d' = evs d \<and> st d' = st d)"
    and env: "E d d' \<Longrightarrow> evs d' = evs d \<and> st d' = st d"
    and reliable: "errors = {} \<Longrightarrow> \<not> isl (snd (as_appendEvent P e d)) \<and> \<not> isl (snd (as_writeState P s d)) \<and>
          \<not> isl (as_readEvents P d) \<and> \<not> isl (as_readState P d)"
begin

text \<open>Since \<open>g0\<close> only steps of the abstract machine have happened.\<close>

definition sound :: "'s action_runtime \<Rightarrow> 's service \<Rightarrow> 's service \<Rightarrow> bool" where
  "sound A g0 g \<longleftrightarrow> ids_ok (ar_uuid A) (sv_fresh g) (evs (sv_data g)) \<and> sv_now g = sv_now g0 \<and>
     sandbox_steps (errors \<noteq> {}) (ar_ratText A) (evs (sv_data g0), st (sv_data g0)) (evs (sv_data g), st (sv_data g))"

definition proper :: "'s action_runtime \<Rightarrow> bool" where
  "proper A \<longleftrightarrow> ar_store A = P \<and> inj (ar_uuid A) \<and> (\<forall>n. ar_uuid A n \<noteq> [])"

lemma sound_refl: "ids_ok (ar_uuid A) (sv_fresh g) (evs (sv_data g)) \<Longrightarrow> sound A g g"
  by (simp add: sound_def)

lemma ids_more: "ids_ok U n l \<Longrightarrow> n \<le> m \<Longrightarrow> ids_ok U m l"
  unfolding ids_ok_def by (meson order_less_le_trans)

lemma ids_latest: "ids_ok U n l \<Longrightarrow> latest l i = Some a \<Longrightarrow> \<exists>m<n. i = U m"
  by (induction l rule: rev_induct) (auto simp: ids_ok_def latest_snoc split: if_splits)

lemma sound_ids: "sound A g0 g \<Longrightarrow> ids_ok (ar_uuid A) (sv_fresh g) (evs (sv_data g))"
  by (simp add: sound_def)

lemma sound_now: "sound A g0 g \<Longrightarrow> sv_now g = sv_now g0"
  by (simp add: sound_def)

lemma sound_fresh: "sound A g0 g \<Longrightarrow> sound A g0 (g\<lparr>sv_fresh := Suc (sv_fresh g)\<rparr>)"
  by (auto simp: sound_def intro: ids_more)

lemma sound_step:
  assumes "sound A g0 g" and "ids_ok (ar_uuid A) (sv_fresh g) (evs d)"
    and "sandbox_step (errors \<noteq> {}) (ar_ratText A) (evs (sv_data g), st (sv_data g)) (evs d, st d)"
  shows "sound A g0 (g\<lparr>sv_data := d\<rparr>)"
  using assms by (auto simp: sound_def)

lemma sound_move:
  assumes "sound A g0 g" and "sandbox_step (errors \<noteq> {}) (ar_ratText A) (evs (sv_data g), st (sv_data g)) (evs d, st d)"
    and "ids_ok (ar_uuid A) n (evs d)"
  shows "sound A g0 (g\<lparr>sv_fresh := n, sv_data := d\<rparr>)"
  using assms by (auto simp: sound_def)

lemma sound_same: "sound A g0 g \<Longrightarrow> evs d = evs (sv_data g) \<Longrightarrow> st d = st (sv_data g) \<Longrightarrow> sound A g0 (g\<lparr>sv_data := d\<rparr>)"
  by (simp add: sound_def)

section \<open>One rule per statement\<close>

lemma read_actions_post:
  assumes "proper A" and "\<And>m. m = latestActions (evs (sv_data g)) \<Longrightarrow> N m g" and "errors \<noteq> {} \<Longrightarrow> X g"
  shows "post (read_actions A g) N X"
  unfolding read_actions_def
  by (intro post_andThen from_store_post) (use assms events reliable in \<open>auto simp: proper_def\<close>)

lemma find_action_post:
  assumes "proper A" and "\<And>a. latest (evs (sv_data g)) i = Some a \<Longrightarrow> N a g" and "X g"
  shows "post (find_action A i g) N X"
  unfolding find_action_def
  by (intro post_andThen read_actions_post check_post) (use assms in \<open>auto simp: latest_def split: option.splits\<close>)

lemma read_state_post:
  assumes "proper A" and "N (st (sv_data g)) g" and "errors \<noteq> {} \<Longrightarrow> X g"
  shows "post (read_state A g) N X"
  unfolding read_state_def
  by (intro from_store_post) (use assms state reliable in \<open>auto simp: proper_def\<close>)

lemma append_post:
  assumes "proper A" and "sound A g0 g" and "ae_action e = a" and "logged (evs (sv_data g)) e"
    and "\<not> moves_state (ae_type e)" and "ax_id a \<in> ar_uuid A ` {..<sv_fresh g}"
    and N: "\<And>d. sound A g0 (g\<lparr>sv_data := d\<rparr>) \<Longrightarrow> evs d = evs (sv_data g) @ [e] \<Longrightarrow> st d = st (sv_data g) \<Longrightarrow>
           N () (g\<lparr>sv_data := d\<rparr>)"
    and X: "\<And>d. errors \<noteq> {} \<Longrightarrow> sound A g0 (g\<lparr>sv_data := d\<rparr>) \<Longrightarrow> X (g\<lparr>sv_data := d\<rparr>)"
  shows "post (on_store ActionFault (as_appendEvent (ar_store A) e) g) N X"
proof (rule on_store_post, rule post_faulty)
  show "post (as_appendEvent (ar_store A) e (sv_data g)) (\<lambda>_ d'. evs d' = evs (sv_data g) @ [e] \<and> st d' = st (sv_data g))
          (\<lambda>d'. (evs d' = evs (sv_data g) \<or> evs d' = evs (sv_data g) @ [e]) \<and> st d' = st (sv_data g))"
    using append assms(1) by (simp add: proper_def)
  show "\<not> isl (snd (as_appendEvent (ar_store A) e (sv_data g)))" if "\<not> errors \<noteq> {}"
    using that reliable assms(1) by (simp add: proper_def)
  have ids: "ids_ok (ar_uuid A) (sv_fresh g) (evs (sv_data g) @ [e])"
    using sound_ids [OF assms(2)] assms(3,6) by (auto simp: ids_ok_def)
  have st: "sound A g0 (g\<lparr>sv_data := d\<rparr>)" if "evs d = evs (sv_data g) @ [e]" "st d = st (sv_data g)" for d
    by (rule sound_step [OF assms(2)]) (use that ids sandbox_step.event [OF assms(4,5)] in simp_all)
  show "N v (g\<lparr>sv_data := d\<rparr>)" if "evs d = evs (sv_data g) @ [e] \<and> st d = st (sv_data g)" for v d
    using that N [OF st] by (cases v) simp
  show "X (g\<lparr>sv_data := d\<rparr>)"
    if "errors \<noteq> {}" "(evs d = evs (sv_data g) \<or> evs d = evs (sv_data g) @ [e]) \<and> st d = st (sv_data g)" for d
    using that X [OF that(1)] st [of d] sound_same [OF assms(2), of d] by blast
qed

lemma record_post:
  assumes "proper A" and "sound A g0 g" and "legal (latest (evs (sv_data g)) (ax_id a)) ty (sv_now g) a"
    and "\<not> moves_state ty" and "ax_id a \<in> ar_uuid A ` {..<sv_fresh g}"
    and N: "\<And>g' x. sound A g0 g' \<Longrightarrow> evs (sv_data g') = evs (sv_data g) @ [\<lparr>ae_id = x, ae_type = ty, ae_at = sv_now g, ae_action = a\<rparr>] \<Longrightarrow>
           st (sv_data g') = st (sv_data g) \<Longrightarrow> N a g'"
    and X: "\<And>g'. errors \<noteq> {} \<Longrightarrow> sound A g0 g' \<Longrightarrow> X g'"
  shows "post (record_action A ty a g) N X"
  unfolding record_action_def
  by (intro post_andThen new_id_post append_post [OF assms(1) sound_fresh [OF assms(2)]])
    (use assms(3-5) N X in \<open>auto simp: logged_def less_Suc_eq\<close>)

text \<open>A change of the stop flag.\<close>

lemma flag_post:
  assumes "proper A" and "sound A g0 g" and "ls_preferences s = ls_preferences (st (sv_data g))"
    and N: "\<And>g' v. sound A g0 g' \<Longrightarrow> evs (sv_data g') = evs (sv_data g) \<Longrightarrow> st (sv_data g') = s \<Longrightarrow> N v g'"
    and X: "\<And>g'. errors \<noteq> {} \<Longrightarrow> sound A g0 g' \<Longrightarrow> X g'"
  shows "post (write_state A s g) N X"
  unfolding write_state_def
proof (rule on_store_post, rule post_faulty)
  show "post (as_writeState (ar_store A) s (sv_data g)) (\<lambda>_ d'. evs d' = evs (sv_data g) \<and> st d' = s)
      (\<lambda>d'. evs d' = evs (sv_data g) \<and> st d' = st (sv_data g))"
    using replace assms(1) by (simp add: proper_def)
  show "\<not> isl (snd (as_writeState (ar_store A) s (sv_data g)))" if "\<not> errors \<noteq> {}"
    using that reliable assms(1) by (simp add: proper_def)
  show "N v (g\<lparr>sv_data := d\<rparr>)" if "evs d = evs (sv_data g) \<and> st d = s" for v d
  proof (rule N)
    show "sound A g0 (g\<lparr>sv_data := d\<rparr>)"
      by (rule sound_step [OF assms(2)])
        (use that sound_ids [OF assms(2)] sandbox_step.flag [OF assms(3)] in simp_all)
  qed (use that in simp_all)
  show "X (g\<lparr>sv_data := d\<rparr>)" if "errors \<noteq> {}" "evs d = evs (sv_data g) \<and> st d = st (sv_data g)" for d
    using that X sound_same [OF assms(2), of d] by blast
qed

text \<open>A write of the preferences and the event that reports it.\<close>

lemma write_record_post:
  assumes "proper A" and "sound A g0 g" and "legal (latest (evs (sv_data g)) (ax_id a)) ty (sv_now g) a"
    and "moves_state ty" and "permitted (ar_ratText A) ty a (st (sv_data g))"
    and "s = written (ar_ratText A) ty (sv_now g) a (st (sv_data g))"
    and "ax_id a \<in> ar_uuid A ` {..<sv_fresh g}"
    and N: "\<And>g'. sound A g0 g' \<Longrightarrow> N (a, False) g'"
    and X: "\<And>g'. errors \<noteq> {} \<Longrightarrow> sound A g0 g' \<Longrightarrow> X g'"
  shows "post (andThen (write_state A s g) (\<lambda>g1 _. andThen (record_action A ty a g1) (\<lambda>g2 b. (g2, Inr (b, False))))) N X"
proof -
  let ?L = "evs (sv_data g)" and ?S = "st (sv_data g)"
  let ?e = "\<lambda>x. \<lparr>ae_id = x, ae_type = ty, ae_at = sv_now g, ae_action = a\<rparr>"
  have lg: "logged ?L (?e x)" for x using assms(3) by (simp add: logged_def)
  have ids: "ids_ok (ar_uuid A) n (?L @ [?e x])" if "sv_fresh g \<le> n" for n x
    using ids_more [OF sound_ids [OF assms(2)] that] assms(7) that
    by (auto simp: ids_ok_def) (metis order_less_le_trans)
  have ran: "sound A g0 (g\<lparr>sv_fresh := n, sv_data := d\<rparr>)"
    if "sv_fresh g \<le> n" "evs d = ?L @ [?e x]" "st d = s" for n x d
  proof (rule sound_move [OF assms(2)])
    show "sandbox_step (errors \<noteq> {}) (ar_ratText A) (?L, ?S) (evs d, st d)"
      unfolding that(2,3) by (rule sandbox_step.run [OF lg]) (use assms(4-6) in simp_all)
  qed (use that ids in simp)
  have lost: "sound A g0 (g\<lparr>sv_fresh := n, sv_data := d\<rparr>)"
    if "errors \<noteq> {}" "sv_fresh g \<le> n" "evs d = ?L" "st d = s" for n d
  proof (rule sound_move [OF assms(2)])
    show "sandbox_step (errors \<noteq> {}) (ar_ratText A) (?L, ?S) (evs d, st d)"
      unfolding that(3,4) by (rule sandbox_step.unlogged [OF that(1) lg [of undefined]]) (use assms(4-6) in simp_all)
  qed (use that ids_more [OF sound_ids [OF assms(2)]] in simp)
  have rec: "post (andThen (record_action A ty a g1) (\<lambda>g2 b. (g2, Inr (b, False)))) N X"
    if g1: "g1 = g\<lparr>sv_data := d1\<rparr>" "evs d1 = ?L" "st d1 = s" for g1 d1
    unfolding record_action_def
  proof (intro post_andThen new_id_post on_store_post, rule post_faulty)
    let ?x = "ar_uuid A (sv_fresh g1)"
    have e: "\<lparr>ae_id = ?x, ae_type = ty, ae_at = sv_now g1, ae_action = a\<rparr> = ?e ?x" using g1 by simp
    show "post (as_appendEvent (ar_store A) \<lparr>ae_id = ?x, ae_type = ty, ae_at = sv_now g1, ae_action = a\<rparr>
        (sv_data (g1\<lparr>sv_fresh := Suc (sv_fresh g1)\<rparr>)))
      (\<lambda>_ d'. evs d' = ?L @ [?e ?x] \<and> st d' = s) (\<lambda>d'. (evs d' = ?L \<or> evs d' = ?L @ [?e ?x]) \<and> st d' = s)"
      using append [of "?e ?x" d1] assms(1) g1 by (simp add: proper_def)
    show "\<not> isl (snd (as_appendEvent (ar_store A) \<lparr>ae_id = ?x, ae_type = ty, ae_at = sv_now g1, ae_action = a\<rparr>
        (sv_data (g1\<lparr>sv_fresh := Suc (sv_fresh g1)\<rparr>))))" if "\<not> errors \<noteq> {}"
      using that reliable assms(1) by (simp add: proper_def)
    have upd: "g1\<lparr>sv_fresh := Suc (sv_fresh g1), sv_data := d\<rparr> = g\<lparr>sv_fresh := Suc (sv_fresh g), sv_data := d\<rparr>" for d
      using g1 by simp
    show "post (g1\<lparr>sv_fresh := Suc (sv_fresh g1), sv_data := d\<rparr>, Inr a) (\<lambda>v s. post (s, Inr (v, False)) N X) X"
      if "evs d = ?L @ [?e ?x] \<and> st d = s" for d
      using that N [OF ran [of "Suc (sv_fresh g)" d ?x]] by (simp add: upd)
    show "X (g1\<lparr>sv_fresh := Suc (sv_fresh g1), sv_data := d\<rparr>)"
      if "errors \<noteq> {}" "(evs d = ?L \<or> evs d = ?L @ [?e ?x]) \<and> st d = s" for d
      using that X [OF that(1)] ran [of "Suc (sv_fresh g)" d ?x] lost [OF that(1), of "Suc (sv_fresh g)" d]
      by (auto simp: upd)
  qed
  show ?thesis unfolding write_state_def
  proof (intro post_andThen on_store_post, rule post_faulty)
    show "post (as_writeState (ar_store A) s (sv_data g)) (\<lambda>_ d'. evs d' = ?L \<and> st d' = s)
        (\<lambda>d'. evs d' = ?L \<and> st d' = ?S)"
      using replace assms(1) by (simp add: proper_def)
    show "\<not> isl (snd (as_writeState (ar_store A) s (sv_data g)))" if "\<not> errors \<noteq> {}"
      using that reliable assms(1) by (simp add: proper_def)
    show "post (andThen (record_action A ty a (g\<lparr>sv_data := d\<rparr>)) (\<lambda>g2 b. (g2, Inr (b, False)))) N X"
      if "evs d = ?L \<and> st d = s" for d
      by (rule rec [OF refl]) (use that in simp_all)
    show "X (g\<lparr>sv_data := d\<rparr>)" if "errors \<noteq> {}" "evs d = ?L \<and> st d = ?S" for d
      using that X sound_same [OF assms(2), of d] by blast
  qed
qed

section \<open>The methods\<close>

abbreviation kept :: "'s action_runtime \<Rightarrow> 's service \<Rightarrow> ('s, 'b) action_result \<Rightarrow> bool" where
  "kept A g0 r \<equiv> post r (\<lambda>_. sound A g0) (sound A g0)"

lemma known_id: "sound A g0 g \<Longrightarrow> latest (evs (sv_data g)) i = Some a \<Longrightarrow>
    ax_id a = i \<and> i \<in> ar_uuid A ` {..<sv_fresh g}"
  using latest_id ids_latest [OF sound_ids] by blast

lemma unused_id:
  assumes "proper A" and "sound A g0 g" and "sv_fresh g \<le> n"
  shows "latest (evs (sv_data g)) (ar_uuid A n) = None"
proof (rule ccontr)
  assume "latest (evs (sv_data g)) (ar_uuid A n) \<noteq> None"
  then obtain m where "m < sv_fresh g" "ar_uuid A n = ar_uuid A m"
    using ids_latest [OF sound_ids [OF assms(2)]] by blast
  with assms show False by (metis linorder_not_le proper_def injD)
qed

lemma expire_post:
  assumes "proper A" and "sound A g0 g" and "latest (evs (sv_data g)) i = Some a"
    and "ax_status a \<in> {Pending, Granted}" and "ax_expiresAt a < sv_now g"
  shows "post (expire A a g) (\<lambda>_. sound A g0) (sound A g0)"
  unfolding expire_def
  by (rule record_post [OF assms(1,2)])
    (use assms(3-5) known_id [OF assms(2,3)] in \<open>auto simp: legal_def moves_state_def\<close>)

lemma preview_kept:
  assumes "proper A" and "sound A g0 g"
  shows "kept A g0 (action_preview A input g)"
proof -
  have one: "kept A g0 (record_action A Previewed (new_action (ar_uuid A (sv_fresh g)) k p v dg nonce (sv_now g))
        (g\<lparr>sv_fresh := n\<rparr>))"
    if "n = Suc (Suc (sv_fresh g))" for k p v dg nonce n
  proof (rule record_post [OF assms(1)])
    show "sound A g0 (g\<lparr>sv_fresh := n\<rparr>)" using sound_fresh [OF sound_fresh [OF assms(2)]] that by simp
    show "legal (latest (evs (sv_data (g\<lparr>sv_fresh := n\<rparr>))) (ax_id (new_action (ar_uuid A (sv_fresh g)) k p v dg nonce (sv_now g))))
        Previewed (sv_now (g\<lparr>sv_fresh := n\<rparr>)) (new_action (ar_uuid A (sv_fresh g)) k p v dg nonce (sv_now g))"
      using unused_id [OF assms order_refl] assms(1) by (simp add: legal_def proper_def) (simp add: new_action_def)
  qed (use that in \<open>auto simp: moves_state_def\<close>)
  show ?thesis
    unfolding action_preview_def
    by (auto intro!: post_andThen check_post read_state_post [OF assms(1)] new_id_post one simp: assms(2) Let_def)
qed

lemma approve_kept:
  assumes "proper A" and "sound A g0 g"
  shows "kept A g0 (action_approve A i body g)"
  unfolding action_approve_def
proof (intro post_andThen check_post find_action_post [OF assms(1)])
  fix a
  assume a: "latest (evs (sv_data g)) i = Some a"
  have "kept A g0 (record_action A ApprovedEvent (granted (sv_now g) a) g)"
    if "ax_status a = Pending" "\<not> ax_expiresAt a < sv_now g"
    by (rule record_post [OF assms])
      (use that a known_id [OF assms(2) a] in \<open>auto simp: legal_def moves_state_def\<close>)
  moreover have "kept A g0 (expire A a g)" if "ax_status a = Pending" "ax_expiresAt a < sv_now g"
    by (rule expire_post [OF assms a]) (use that in simp_all)
  ultimately show "kept A g0
    (if ax_status a = Granted then (g, Inr (a, True))
     else if ax_status a \<noteq> Pending then (g, Inl (ActionError ''invalid_action_state'' 409))
     else if ax_expiresAt a < sv_now g then
       andThen (expire A a g) (\<lambda>g2 _. (g2, Inl (ActionError ''approval_expired'' 410)))
     else if get_prop body ''approval_digest'' \<noteq> JStr (ax_digest a)
         \<or> get_prop body ''approval_nonce'' \<noteq> js_opt (ax_nonce a)
     then (g, Inl (ActionError ''approval_mismatch'' 403))
     else
       andThen (record_action A ApprovedEvent (granted (sv_now g) a) g) (\<lambda>g2 b. (g2, Inr (b, False))))"
    using assms(2) by (simp add: post_andThen_iff)
qed (use assms(2) in simp_all)

lemma execute_kept:
  assumes "proper A" and "sound A g0 g"
  shows "kept A g0 (action_execute A i g)"
  unfolding action_execute_def
proof (intro post_andThen find_action_post [OF assms(1)])
  fix a
  assume a: "latest (evs (sv_data g)) i = Some a"
  have run: "kept A g0
      (andThen (write_state A (with_next (ar_ratText A) (sv_now g) a (st (sv_data g))) (g\<lparr>sv_fresh := n\<rparr>)) (\<lambda>g5 _.
       andThen (record_action A ExecutedEvent (executed (sv_now g) x dg nonce a) g5) (\<lambda>g6 b. (g6, Inr (b, False)))))"
    if "ax_status a = Granted" "\<not> ax_expiresAt a < sv_now g" "\<not> ls_stop (st (sv_data g))"
      "sameValue (observed (st (sv_data g)) (pref_key (ar_ratText A) a)) (ax_previous a)"
      "n = Suc (Suc (sv_fresh g))" for x dg nonce n
  proof (rule write_record_post [OF assms(1)])
    show "sound A g0 (g\<lparr>sv_fresh := n\<rparr>)" using sound_fresh [OF sound_fresh [OF assms(2)]] that(5) by simp
    show "with_next (ar_ratText A) (sv_now g) a (st (sv_data g)) =
        written (ar_ratText A) ExecutedEvent (sv_now (g\<lparr>sv_fresh := n\<rparr>)) (executed (sv_now g) x dg nonce a)
          (st (sv_data (g\<lparr>sv_fresh := n\<rparr>)))"
      by (simp add: written_def with_next_def pref_key_def executed_def)
  qed (use that a known_id [OF assms(2) a] in
      \<open>auto simp: legal_def moves_state_def permitted_def executed_def pref_key_def\<close>)
  show "kept A g0
    (if ax_status a = Executed then (g, Inr (a, True))
     else if ax_status a \<noteq> Granted then (g, Inl (ActionError ''invalid_action_state'' 409))
     else if ax_expiresAt a < sv_now g then
       andThen (expire A a g) (\<lambda>g2 _. (g2, Inl (ActionError ''approval_expired'' 410)))
     else
     andThen (read_state A g) (\<lambda>g2 s.
     if ls_stop s then (g2, Inl (ActionError ''emergency_stop_active'' 423))
     else if \<not> sameValue (observed s (pref_key (ar_ratText A) a)) (ax_previous a)
     then (g2, Inl (ActionError ''stale_preview'' 409))
     else
     andThen (new_id (ar_uuid A) g2) (\<lambda>g3 x.
     andThen (new_id (ar_uuid A) g3) (\<lambda>g4 nonce.
     andThen (write_state A (with_next (ar_ratText A) (sv_now g) a s) g4) (\<lambda>g5 _.
     andThen (record_action A ExecutedEvent
        (executed (sv_now g) x (digest (ar_hash A) (rollback_payload a x)) nonce a) g5) (\<lambda>g6 b.
     (g6, Inr (b, False))))))))"
  proof -
    have "kept A g0 (expire A a g)" if "ax_status a = Granted" "ax_expiresAt a < sv_now g"
      by (rule expire_post [OF assms a]) (use that in simp_all)
    then show ?thesis
      using assms(2) run [unfolded post_andThen_iff]
      by (auto intro!: read_state_post [OF assms(1)] simp: post_andThen_iff new_id_def)
  qed
qed (use assms(2) in simp_all)

lemma rollback_kept:
  assumes "proper A" and "sound A g0 g"
  shows "kept A g0 (action_rollback A i body g)"
  unfolding action_rollback_def
proof (intro post_andThen check_post find_action_post [OF assms(1)])
  fix a
  assume a: "latest (evs (sv_data g)) i = Some a"
  have undo: "kept A g0
      (andThen (write_state A (with_previous (ar_ratText A) (sv_now g) a (st (sv_data g))) g) (\<lambda>g3 _.
       andThen (record_action A RolledBackEvent (rolled_back (sv_now g) a) g3) (\<lambda>g4 b. (g4, Inr (b, False)))))"
    if "ax_status a = Executed"
      "sameValue (observed (st (sv_data g)) (pref_key (ar_ratText A) a)) (JStr (ax_next a))"
  proof (rule write_record_post [OF assms])
    show "with_previous (ar_ratText A) (sv_now g) a (st (sv_data g)) =
        written (ar_ratText A) RolledBackEvent (sv_now g) (rolled_back (sv_now g) a) (st (sv_data g))"
      by (simp add: written_def with_previous_def pref_key_def rolled_back_def)
  qed (use that a known_id [OF assms(2) a] in
      \<open>auto simp: legal_def moves_state_def permitted_def rolled_back_def pref_key_def\<close>)
  show "kept A g0
    (if ax_status a = RolledBack then (g, Inr (a, True))
     else if ax_status a \<noteq> Executed then (g, Inl (ActionError ''invalid_action_state'' 409))
     else if get_prop body ''rollback_digest'' \<noteq> js_opt (ax_rollbackDigest a)
         \<or> get_prop body ''rollback_nonce'' \<noteq> js_opt (ax_rollbackNonce a)
     then (g, Inl (ActionError ''rollback_mismatch'' 403))
     else
     andThen (read_state A g) (\<lambda>g2 s.
     if \<not> sameValue (observed s (pref_key (ar_ratText A) a)) (JStr (ax_next a))
     then (g2, Inl (ActionError ''rollback_state_conflict'' 409))
     else
     andThen (write_state A (with_previous (ar_ratText A) (sv_now g) a s) g2) (\<lambda>g3 _.
     andThen (record_action A RolledBackEvent (rolled_back (sv_now g) a) g3) (\<lambda>g4 b.
     (g4, Inr (b, False))))))"
    using assms(2) undo [unfolded post_andThen_iff]
    by (auto intro!: read_state_post [OF assms(1)] simp: post_andThen_iff)
qed (use assms(2) in simp_all)

lemma resume_kept:
  assumes "proper A" and "sound A g0 g"
  shows "kept A g0 (action_resume A body g)"
  unfolding action_resume_def
  by (auto intro!: post_andThen check_post read_state_post flag_post [OF assms] simp: assms resumed_def)

lemma revoke_all_post:
  assumes "proper A" and "sound A g0 g"
    and "distinct (map ax_id xs)" and "\<And>a. a \<in> set xs \<Longrightarrow> latest (evs (sv_data g)) (ax_id a) = Some a"
    and "\<And>i a. latest (evs (sv_data g)) i = Some a \<Longrightarrow> i \<notin> ax_id ` set xs \<Longrightarrow> ax_status a \<in> set TERMINAL_STATUSES"
  shows "post (revoke_all A n xs g) (\<lambda>_ g'. sound A g0 g' \<and> all_settled (evs (sv_data g'))) (sound A g0)"
  using assms(2-)
proof (induction xs arbitrary: n g)
  case Nil
  then show ?case by (simp add: all_settled_def)
next
  case (Cons a xs)
  have a: "latest (evs (sv_data g)) (ax_id a) = Some a" using Cons.prems(3) by simp
  show ?case
  proof (cases "ax_status a \<in> set TERMINAL_STATUSES")
    case True
    have "ax_status b \<in> set TERMINAL_STATUSES"
      if "latest (evs (sv_data g)) i = Some b" "i \<notin> ax_id ` set xs" for i b
      using that True a Cons.prems(4) [of i b] by (cases "i = ax_id a") auto
    with True Cons.prems show ?thesis by (simp add: Cons.IH)
  next
    case False
    have "post (record_action A RevokedEvent (revoked (sv_now g) a) g)
        (\<lambda>v g1. post (revoke_all A (Suc n) xs g1) (\<lambda>_ g'. sound A g0 g' \<and> all_settled (evs (sv_data g'))) (sound A g0))
        (sound A g0)"
    proof (rule record_post [OF assms(1) Cons.prems(1)])
      fix g1 x
      assume g1: "sound A g0 g1" "evs (sv_data g1) = evs (sv_data g) @
          [\<lparr>ae_id = x, ae_type = RevokedEvent, ae_at = sv_now g, ae_action = revoked (sv_now g) a\<rparr>]"
      show "post (revoke_all A (Suc n) xs g1) (\<lambda>_ g'. sound A g0 g' \<and> all_settled (evs (sv_data g'))) (sound A g0)"
      proof (rule Cons.IH [OF g1(1)])
        show "latest (evs (sv_data g1)) (ax_id b) = Some b" if "b \<in> set xs" for b
        proof -
          have "ax_id b \<in> ax_id ` set xs" using that by simp
          with Cons.prems(2) have "ax_id b \<noteq> ax_id a" by auto
          with that Cons.prems(3) show ?thesis by (simp add: g1(2) latest_snoc)
        qed
        show "ax_status b \<in> set TERMINAL_STATUSES"
          if "latest (evs (sv_data g1)) i = Some b" "i \<notin> ax_id ` set xs" for i b
          using that Cons.prems(4) [of i b] latest_id [OF a]
          by (auto simp: g1(2) latest_snoc TERMINAL_STATUSES_def split: if_splits)
      qed (use Cons.prems(2) in simp)
    qed (use False a known_id [OF Cons.prems(1) a] in \<open>auto simp: legal_def moves_state_def\<close>)
    with False show ?thesis by (simp add: post_andThen_iff)
  qed
qed

lemma emergencyStop_post:
  assumes "proper A" and "sound A g0 g"
  shows "post (action_emergencyStop A body g) (\<lambda>_ g'. sound A g0 g' \<and> all_settled (evs (sv_data g'))) (sound A g0)"
  unfolding action_emergencyStop_def
proof (intro post_andThen check_post read_state_post flag_post [OF assms(1)] read_actions_post revoke_all_post)
  fix g2 m a
  assume m: "m = latestActions (evs (sv_data g2))"
  show "distinct (map ax_id (map_values m))" unfolding m by (rule latest_values(1))
  show "latest (evs (sv_data g2)) (ax_id a) = Some a" if "a \<in> set (map_values m)"
    using that unfolding m by (rule latest_values(2))
  show "ax_status b \<in> set TERMINAL_STATUSES"
    if "latest (evs (sv_data g2)) i = Some b" "i \<notin> ax_id ` set (map_values m)" for i b
    using that latest_values(3) latest_id unfolding m by blast
qed (use assms in \<open>auto simp: stopped_def\<close>)

section \<open>Every run of the service\<close>

lemma step_sound:
  assumes "proper A" and "ag_step A E g g'" and "ids_ok (ar_uuid A) (sv_fresh g) (evs (sv_data g))"
  shows "ids_ok (ar_uuid A) (sv_fresh g') (evs (sv_data g')) \<and>
    sandbox_steps (errors \<noteq> {}) (ar_ratText A) (evs (sv_data g), st (sv_data g)) (evs (sv_data g'), st (sv_data g'))"
proof -
  note r = sound_refl [OF assms(3)]
  have k: "sound A g (fst r)" if "kept A g r" for r :: "('s, 'c) action_result"
    using post_fst [OF that] .
  have "kept A g (action_emergencyStop A body g)" for body
    by (rule post_mono [OF emergencyStop_post [OF assms(1) r]]) simp_all
  note methods = preview_kept [OF assms(1) r, THEN k] approve_kept [OF assms(1) r, THEN k]
    execute_kept [OF assms(1) r, THEN k] rollback_kept [OF assms(1) r, THEN k] resume_kept [OF assms(1) r, THEN k]
    this [THEN k]
  from assms(2) have "sound A g g' \<or> (sv_fresh g' = sv_fresh g \<and> evs (sv_data g') = evs (sv_data g) \<and> st (sv_data g') = st (sv_data g))"
  proof (cases rule: ag_step.cases)
    case (environment d)
    with env show ?thesis by simp
  qed (simp_all add: methods)
  then show ?thesis using assms(3) by (auto simp: sound_def)
qed

lemma reachable_sound:
  assumes "proper A" and "ag_reachable A E s0 g" and "evs s0 = []" and "st s0 = DEFAULT_STATE"
  shows "ids_ok (ar_uuid A) (sv_fresh g) (evs (sv_data g)) \<and>
    sandbox_steps (errors \<noteq> {}) (ar_ratText A) ([], DEFAULT_STATE) (evs (sv_data g), st (sv_data g))"
  using assms(2)
proof (induction rule: ag_reachable.induct)
  case (start t)
  then show ?case using assms(3,4) by (simp add: ids_ok_def)
next
  case (step g g')
  with step_sound [OF assms(1) step.hyps(2)] show ?case by auto
qed

lemma later_sound:
  assumes "proper A" and "(ag_step A E)\<^sup>*\<^sup>* g g'" and "ids_ok (ar_uuid A) (sv_fresh g) (evs (sv_data g))"
  shows "ids_ok (ar_uuid A) (sv_fresh g') (evs (sv_data g')) \<and>
    sandbox_steps (errors \<noteq> {}) (ar_ratText A) (evs (sv_data g), st (sv_data g)) (evs (sv_data g'), st (sv_data g'))"
  using assms(2)
proof (induction rule: rtranclp_induct)
  case base
  show ?case using assms(3) by simp
next
  case (step g1 g2)
  with step_sound [OF assms(1) step.hyps(2)] show ?case by auto
qed

end

section \<open>The two stores\<close>

interpretation amem: action_stores memory_action_store am_events am_state "\<lambda>d d'. d' = d" "{}"
proof unfold_locales
  fix d :: action_memory and l s e and d' :: action_memory
  show "as_readEvents memory_action_store d = Inr l \<Longrightarrow> l = am_events d"
    "as_readState memory_action_store d = Inr s \<Longrightarrow> s = am_state d"
    by (simp_all add: amem_readEvents_def amem_readState_def)
  show "post (as_appendEvent memory_action_store e d) (\<lambda>_ d'. am_events d' = am_events d @ [e] \<and> am_state d' = am_state d)
      (\<lambda>d'. (am_events d' = am_events d \<or> am_events d' = am_events d @ [e]) \<and> am_state d' = am_state d)"
    "post (as_writeState memory_action_store s d) (\<lambda>_ d'. am_events d' = am_events d \<and> am_state d' = s)
      (\<lambda>d'. am_events d' = am_events d \<and> am_state d' = am_state d)"
    by (simp_all add: amem_appendEvent_def amem_writeState_def)
  show "\<not> isl (snd (as_appendEvent memory_action_store e d)) \<and> \<not> isl (snd (as_writeState memory_action_store s d)) \<and>
      \<not> isl (as_readEvents memory_action_store d) \<and> \<not> isl (as_readState memory_action_store d)"
    by (simp add: amem_readEvents_def amem_readState_def amem_appendEvent_def amem_writeState_def)
qed simp

interpretation adisk: action_stores file_action_store ad_events ad_state action_disk_change "{''disk''}"
proof unfold_locales
  fix d :: action_disk and l s e and d' :: action_disk
  show "as_readEvents file_action_store d = Inr l \<Longrightarrow> l = ad_events d"
    "as_readState file_action_store d = Inr s \<Longrightarrow> s = ad_state d"
    by (auto simp: disk_readEvents_def disk_readState_def accessed_def split: option.splits)
  show "post (as_appendEvent file_action_store e d) (\<lambda>_ d'. ad_events d' = ad_events d @ [e] \<and> ad_state d' = ad_state d)
      (\<lambda>d'. (ad_events d' = ad_events d \<or> ad_events d' = ad_events d @ [e]) \<and> ad_state d' = ad_state d)"
    "post (as_writeState file_action_store s d) (\<lambda>_ d'. ad_events d' = ad_events d \<and> ad_state d' = s)
      (\<lambda>d'. ad_events d' = ad_events d \<and> ad_state d' = ad_state d)"
    using disk_ops by simp_all
qed (simp_all add: action_disk_change_def)

text \<open>The constructor, with an arbitrary hash and number text.\<close>

definition action_service :: "'s action_store \<Rightarrow> (nat \<Rightarrow> string) \<Rightarrow> (js \<Rightarrow> string) \<Rightarrow> (rat \<Rightarrow> string) \<Rightarrow> 's action_runtime" where
  "action_service P U H R = \<lparr>ar_store = P, ar_uuid = U, ar_hash = H, ar_ratText = R\<rparr>"

definition id_supply :: "(nat \<Rightarrow> string) \<Rightarrow> bool" where
  "id_supply U \<longleftrightarrow> inj U \<and> (\<forall>n. U n \<noteq> [])"

lemma action_service_fields [simp]:
  "ar_store (action_service P U H R) = P" "ar_uuid (action_service P U H R) = U"
  "ar_hash (action_service P U H R) = H" "ar_ratText (action_service P U H R) = R"
  by (simp_all add: action_service_def)

lemma proper_services:
  "id_supply U \<Longrightarrow> amem.proper (action_service memory_action_store U H R)"
  "id_supply U \<Longrightarrow> adisk.proper (action_service file_action_store U H R)"
  by (simp_all add: amem.proper_def adisk.proper_def id_supply_def)

lemma empty_stores [simp]:
  "am_events empty_action_memory = []" "am_state empty_action_memory = DEFAULT_STATE"
  "ad_events empty_action_disk = []" "ad_state empty_action_disk = DEFAULT_STATE"
  by (simp_all add: empty_action_memory_def empty_action_disk_def)

lemma disk_sandbox:
  assumes "id_supply U" and "ag_reachable (action_service file_action_store U H R) action_disk_change empty_action_disk g"
  shows "ids_ok U (sv_fresh g) (ad_events (sv_data g))"
    and "sandbox_steps True R ([], DEFAULT_STATE) (ad_events (sv_data g), ad_state (sv_data g))"
    and "legal_log (ad_events (sv_data g))"
  using adisk.reachable_sound [OF proper_services(2) [OF assms(1)] assms(2)]
    sandbox_legal [of True R "([], DEFAULT_STATE)" "(ad_events (sv_data g), ad_state (sv_data g))"] legal_log.empty
  by simp_all

end
