(* ===== verification/ActionGuarantees.thy ===== *)
theory ActionGuarantees
  imports ActionProperties
begin

text \<open>
  The guarantees of the action gateway on its file store, whatever fails, and what does not
  hold when a write fails; with a concrete run that shows each of them at work.
\<close>

section \<open>Executions\<close>


section \<open>The log and the preferences\<close>

text \<open>
  C17: while no write fails, the log explains the preferences: replaying the executions and
  rollbacks it records gives exactly the stored preferences.
\<close>

theorem log_explains_preferences:
  assumes "id_supply U" and "ag_reachable (action_service memory_action_store U H R) (\<lambda>d d'. d' = d) empty_action_memory g"
  shows "ls_preferences (am_state (sv_data g)) = replay_preferences R (am_events (sv_data g)) []"
  using amem.reachable_sound [OF proper_services(1) [OF assms(1)] assms(2)]
    sandbox_explained [of R "([], DEFAULT_STATE)" "(am_events (sv_data g), am_state (sv_data g))"]
  by (simp add: DEFAULT_STATE_def)

section \<open>The emergency stop\<close>

lemma logged_nonempty: "logged l e \<Longrightarrow> ax_id (ae_action e) \<noteq> []"
proof (cases "latest l (ax_id (ae_action e))")
  case None
  assume "logged l e"
  with None show ?thesis by (cases "ae_type e") (simp_all add: logged_def legal_def)
qed (use latest_id in blast)

lemma logged_id: "legal_log l \<Longrightarrow> e \<in> set l \<Longrightarrow> latest l (ax_id (ae_action e)) \<noteq> None"
proof (induction arbitrary: e rule: legal_log.induct)
  case (snoc l d)
  with logged_nonempty [OF snoc.hyps(2)] show ?case by (auto simp: latest_snoc)
qed simp

lemma settled_never_runs:
  assumes "legal_log l2" and "l2 = l1 @ m" and "all_settled l1" and "length l1 \<le> k" and "k < length l2"
    and "ae_type (l2 ! k) = ExecutedEvent" and "e \<in> set l1"
  shows "ax_id (ae_action e) \<noteq> ax_id (ae_action (l2 ! k))"
proof
  assume same: "ax_id (ae_action e) = ax_id (ae_action (l2 ! k))" (is "?i = _")
  have l1: "legal_log l1" using assms(1,2) legal_log_prefix by blast
  from logged_id [OF l1 assms(7)] obtain a where a: "latest l1 ?i = Some a" by blast
  with assms(3) have st: "ax_status a \<in> set TERMINAL_STATUSES" by (auto simp: all_settled_def)
  note p = legal_log_nth [OF assms(1,5)]
  show False
  proof (cases "ax_status a = Executed")
    case True
    have "history l1 ?i" using legal_log_history [OF l1] latest_id [OF a] by blast
    with a True have "runs_of ?i l1 = 1" by (simp add: history_def)
    then have "filter (\<lambda>e. ae_type e = ExecutedEvent \<and> ax_id (ae_action e) = ?i) l1 \<noteq> []" by (auto simp: runs_of_def)
    then obtain k' where k': "k' < length l1" "ae_type (l1 ! k') = ExecutedEvent" "ax_id (ae_action (l1 ! k')) = ?i"
      by (auto simp: filter_empty_conv in_set_conv_nth)
    then have "k' = k"
      using run_has_history(2) [OF assms(1,5,6) refl, of k'] same assms(2) by (simp add: nth_append)
    with k'(1) assms(4) show False by simp
  next
    case False
    have t: "take k l2 = l1 @ take (k - length l1) m" using assms(2,4) by simp
    have "latest (take k l2) ?i = Some a"
      unfolding t by (rule terminal_latest [OF _ a]) (use p t st False in \<open>auto simp: TERMINAL_STATUSES_def\<close>)
    with p same assms(6) st show False by (auto simp: logged_def legal_def TERMINAL_STATUSES_def)
  qed
qed

text \<open>
  C18: an emergency stop that returns is final for every action it finds: whatever happens
  later, a resume included, no action of the log at that moment is executed any more.
\<close>

theorem emergency_stop_final:
  assumes "id_supply U" and "ag_reachable (action_service file_action_store U H R) action_disk_change empty_action_disk g"
    and "action_emergencyStop (action_service file_action_store U H R) body g = (g1, Inr n)"
    and "(ag_step (action_service file_action_store U H R) action_disk_change)\<^sup>*\<^sup>* g1 g2"
    and "length (ad_events (sv_data g1)) \<le> k" and "k < length (ad_events (sv_data g2))"
    and "ae_type (ad_events (sv_data g2) ! k) = ExecutedEvent" and "e \<in> set (ad_events (sv_data g1))"
  shows "ax_id (ae_action e) \<noteq> ax_id (ae_action (ad_events (sv_data g2) ! k))"
proof -
  let ?A = "action_service file_action_store U H R"
  note P = proper_services(2) [OF assms(1), of H R]
  have g: "adisk.sound ?A g g" by (rule adisk.sound_refl) (simp add: disk_sandbox(1) [OF assms(1,2)])
  note s = adisk.emergencyStop_post [OF P g, THEN post_Inr, OF assms(3)]
  then have i: "ids_ok (ar_uuid ?A) (sv_fresh g1) (ad_events (sv_data g1))"
    and m1: "sandbox_steps True R (ad_events (sv_data g), ad_state (sv_data g)) (ad_events (sv_data g1), ad_state (sv_data g1))"
    by (auto simp: adisk.sound_def)
  have m2: "sandbox_steps True R (ad_events (sv_data g1), ad_state (sv_data g1)) (ad_events (sv_data g2), ad_state (sv_data g2))"
    using adisk.later_sound [OF P assms(4) i] by simp
  have "legal_log (ad_events (sv_data g2))"
    using sandbox_legal [OF m2] sandbox_legal [OF m1] disk_sandbox(3) [OF assms(1,2)] by simp
  moreover obtain m where "ad_events (sv_data g2) = ad_events (sv_data g1) @ m"
    using sandbox_grows [OF m2] by auto
  ultimately show ?thesis
    using settled_never_runs [of "ad_events (sv_data g2)" "ad_events (sv_data g1)" m k e] s assms(5-8) by blast
qed

section \<open>Writes that fail\<close>

lemma stop_rejected:
  assumes "ad_accessError (sv_data g) = None" and "ad_chain (sv_data g) = Some m"
  shows "action_emergencyStop (action_service file_action_store U H R) (JObj []) g = (g, Inl (ActionFault m))"
proof -
  have "write_state (action_service file_action_store U H R) s g = (g, Inl (ActionFault m))" for s
    by (simp add: write_state_def on_store_def chain_stays_rejected [OF assms(2,1)])
  then show ?thesis
    using assms(1)
    by (simp add: action_emergencyStop_def body_object_def is_nullish_def read_state_def from_store_def
        disk_readState_def accessed_def)
qed


text \<open>
  One action the worker cannot run stops it before the ones listed after it: \<open>runOnce\<close>
  executes in the order of the list and a refused request ends the pass.
\<close>

theorem stale_action_blocks_worker:
  assumes "listActions A g = (g, Inr as)" and "approved_ids as = i # is"
    and "action_execute A i g = (g, Inl e)"
  shows "worker_runOnce A g = (g, Inl e)"
  using assms by (simp add: worker_runOnce_def)

section \<open>Concrete runs\<close>

lemma letters_supply: "id_supply tally"
  by (simp add: id_supply_def inj_tally)

definition sample_input :: js where
  "sample_input = JObj [(''capability'', JStr ''sandbox.preference.set''), (''key'', JStr ''k''), (''value'', JStr ''v'')]"

abbreviation (input) disk_run :: "action_disk action_runtime" where
  "disk_run \<equiv> action_service file_action_store tally (\<lambda>_. ''h'') (\<lambda>_. [])"

definition start_service :: "action_disk service" where
  "start_service = \<lparr>sv_now = 0, sv_fresh = 0, sv_data = empty_action_disk\<rparr>"

definition previewed_service :: "action_disk service" where
  "previewed_service = fst (action_preview disk_run sample_input start_service)"

definition approved_service :: "action_disk service" where
  "approved_service = fst (action_approve disk_run (tally 0)
     (JObj [(''approval_digest'', JStr ''h''), (''approval_nonce'', JStr (tally 1))]) previewed_service)"

definition executed_service :: "action_disk service" where
  "executed_service = fst (action_execute disk_run (tally 0) approved_service)"

lemma runs_reachable:
  "ag_reachable disk_run action_disk_change empty_action_disk start_service"
  "ag_reachable disk_run action_disk_change empty_action_disk previewed_service"
  "ag_reachable disk_run action_disk_change empty_action_disk approved_service"
  "ag_reachable disk_run action_disk_change empty_action_disk executed_service"
proof -
  show "ag_reachable disk_run action_disk_change empty_action_disk start_service"
    unfolding start_service_def by (rule ag_reachable.start)
  then show "ag_reachable disk_run action_disk_change empty_action_disk previewed_service"
    unfolding previewed_service_def by (rule ag_reachable.step) (rule ag_step.intros)
  then show "ag_reachable disk_run action_disk_change empty_action_disk approved_service"
    unfolding approved_service_def by (rule ag_reachable.step) (rule ag_step.intros)
  then show "ag_reachable disk_run action_disk_change empty_action_disk executed_service"
    unfolding executed_service_def by (rule ag_reachable.step) (rule ag_step.intros)
qed

lemma sample_validated: "validatePreferenceInput R sample_input = Inr (JStr ''k'', ''v'')"
  by (simp add: validatePreferenceInput_def sample_input_def is_plain_object_def coalesce_def is_nullish_def
      matches_key_def is_lower_def code_def truthy_def)

definition first_action :: action where
  "first_action = new_action (tally 0) (JStr ''k'') JNull ''v'' ''h'' (tally 1) 0"

definition event_at :: "nat \<Rightarrow> action_event_type \<Rightarrow> action \<Rightarrow> action_event" where
  "event_at n ty a = \<lparr>ae_id = tally n, ae_type = ty, ae_at = 0, ae_action = a\<rparr>"

lemmas service_ops = from_store_def on_store_def new_id_def read_state_def write_state_def read_actions_def
  find_action_def record_action_def disk_readEvents_def disk_readState_def disk_appendEvent_def disk_writeState_def
  chained_def accessed_def append_line_def replace_state_def

lemma previewed_service_eq:
  "previewed_service = \<lparr>sv_now = 0, sv_fresh = 3,
     sv_data = empty_action_disk\<lparr>ad_events := [event_at 2 Previewed first_action]\<rparr>\<rparr>"
  by (simp add: previewed_service_def action_preview_def sample_validated service_ops start_service_def
      empty_action_disk_def DEFAULT_STATE_def observed_def digest_def first_action_def event_at_def Let_def numeral_eq_Suc)

lemmas run_simps = service_ops action_approve_def action_execute_def action_emergencyStop_def action_resume_def
  body_object_def is_nullish_def js_opt_def latestActions_def map_get_def map_set_def event_at_def observed_def digest_def
  empty_action_disk_def DEFAULT_STATE_def numeral_eq_Suc

lemma letters_neq [simp]: "tally n \<noteq> []" "tally m = tally n \<longleftrightarrow> m = n"
  using letters_supply by (auto simp: id_supply_def inj_def)

lemma first_action_fields [simp]:
  "ax_id first_action = tally 0" "ax_status first_action = Pending" "ax_expiresAt first_action = APPROVAL_TTL"
  "ax_digest first_action = ''h''" "ax_nonce first_action = Some (tally 1)" "ax_previous first_action = JNull"
  "ax_next first_action = ''v''" "ax_key first_action = JStr ''k''"
  by (simp_all add: first_action_def new_action_def)

lemma approved_service_eq:
  "approved_service = \<lparr>sv_now = 0, sv_fresh = 4, sv_data = empty_action_disk\<lparr>ad_events :=
     [event_at 2 Previewed first_action, event_at 3 ApprovedEvent (granted 0 first_action)]\<rparr>\<rparr>"
  by (simp add: approved_service_def previewed_service_eq run_simps APPROVAL_TTL_def)

lemma granted_fields [simp]:
  "ax_expiresAt (granted t a) = ax_expiresAt a" "ax_previous (granted t a) = ax_previous a"
  "ax_next (granted t a) = ax_next a" "ax_key (granted t a) = ax_key a"
  by (simp_all add: granted_def)

lemma executed_service_eq:
  "executed_service = \<lparr>sv_now = 0, sv_fresh = 7, sv_data = empty_action_disk\<lparr>ad_events :=
     [event_at 2 Previewed first_action, event_at 3 ApprovedEvent (granted 0 first_action),
      event_at 6 ExecutedEvent (executed 0 (tally 4) ''h'' (tally 5) (granted 0 first_action))],
     ad_state := DEFAULT_STATE\<lparr>ls_preferences := [(''k'', JStr ''v'')], ls_updatedAt := Some 0\<rparr>\<rparr>\<rparr>"
  by (simp add: executed_service_def approved_service_eq run_simps APPROVAL_TTL_def sameValue_def coalesce_def
      pref_key_def with_next_def)



definition stopped_service :: "action_disk service" where
  "stopped_service = fst (action_emergencyStop disk_run (JObj []) previewed_service)"

definition resumed_service :: "action_disk service" where
  "resumed_service = fst (action_resume disk_run (JObj [(''confirmation'', JStr ''RESUME_LOCAL_ACTIONS'')]) stopped_service)"

definition previewed_again :: "action_disk service" where
  "previewed_again = fst (action_preview disk_run sample_input resumed_service)"

definition approved_again :: "action_disk service" where
  "approved_again = fst (action_approve disk_run (tally 4)
     (JObj [(''approval_digest'', JStr ''h''), (''approval_nonce'', JStr (tally 5))]) previewed_again)"

definition executed_again :: "action_disk service" where
  "executed_again = fst (action_execute disk_run (tally 4) approved_again)"

definition second_action :: action where
  "second_action = new_action (tally 4) (JStr ''k'') JNull ''v'' ''h'' (tally 5) 0"

lemma second_action_fields [simp]:
  "ax_id second_action = tally 4" "ax_status second_action = Pending" "ax_expiresAt second_action = APPROVAL_TTL"
  "ax_digest second_action = ''h''" "ax_nonce second_action = Some (tally 5)" "ax_previous second_action = JNull"
  "ax_next second_action = ''v''" "ax_key second_action = JStr ''k''"
  by (simp_all add: second_action_def new_action_def)

definition stop_log :: "action_event list" where
  "stop_log = [event_at 2 Previewed first_action, event_at 3 RevokedEvent (revoked 0 first_action)]"

lemma stopped_service_eq:
  "action_emergencyStop disk_run (JObj []) previewed_service = (stopped_service, Inr 1)"
  "stopped_service = \<lparr>sv_now = 0, sv_fresh = 4, sv_data = empty_action_disk\<lparr>ad_events := stop_log,
     ad_state := stopped ''owner_requested'' 0 DEFAULT_STATE\<rparr>\<rparr>"
  by (simp_all add: stopped_service_def previewed_service_eq run_simps stop_log_def map_values_def stopped_def
      TERMINAL_STATUSES_def stop_reason_def)

lemma resumed_service_eq:
  "resumed_service = \<lparr>sv_now = 0, sv_fresh = 4, sv_data = empty_action_disk\<lparr>ad_events := stop_log,
     ad_state := DEFAULT_STATE\<lparr>ls_updatedAt := Some 0\<rparr>\<rparr>\<rparr>"
  by (simp add: resumed_service_def stopped_service_eq(2) run_simps stop_log_def stopped_def resumed_def)

lemma previewed_again_eq:
  "previewed_again = \<lparr>sv_now = 0, sv_fresh = 7, sv_data = empty_action_disk\<lparr>
     ad_events := stop_log @ [event_at 6 Previewed second_action], ad_state := DEFAULT_STATE\<lparr>ls_updatedAt := Some 0\<rparr>\<rparr>\<rparr>"
  by (simp add: previewed_again_def action_preview_def sample_validated resumed_service_eq run_simps stop_log_def
      second_action_def Let_def)

lemma approved_again_eq:
  "approved_again = \<lparr>sv_now = 0, sv_fresh = 8, sv_data = empty_action_disk\<lparr>
     ad_events := stop_log @ [event_at 6 Previewed second_action, event_at 7 ApprovedEvent (granted 0 second_action)],
     ad_state := DEFAULT_STATE\<lparr>ls_updatedAt := Some 0\<rparr>\<rparr>\<rparr>"
  by (simp add: approved_again_def previewed_again_eq run_simps stop_log_def APPROVAL_TTL_def)

lemma executed_again_log:
  "ad_events (sv_data executed_again) = stop_log @ [event_at 6 Previewed second_action,
     event_at 7 ApprovedEvent (granted 0 second_action),
     event_at 10 ExecutedEvent (executed 0 (tally 8) ''h'' (tally 9) (granted 0 second_action))]"
  by (simp add: executed_again_def approved_again_eq run_simps stop_log_def APPROVAL_TTL_def sameValue_def coalesce_def
      pref_key_def with_next_def)

theorem emergency_stop_final_witness:
  "ax_id (ae_action (stop_log ! 0)) \<noteq> ax_id (ae_action (ad_events (sv_data executed_again) ! 4))"
proof (rule emergency_stop_final [OF letters_supply runs_reachable(2) stopped_service_eq(1)])
  let ?S = "ag_step disk_run action_disk_change"
  have "?S stopped_service resumed_service" "?S resumed_service previewed_again" "?S previewed_again approved_again"
      "?S approved_again executed_again"
    unfolding resumed_service_def previewed_again_def approved_again_def executed_again_def by (rule ag_step.intros)+
  then show "?S\<^sup>*\<^sup>* stopped_service executed_again" 
    by - (rule rtranclp.rtrancl_refl | rule converse_rtranclp_into_rtranclp, assumption)+
qed (simp_all add: executed_again_log stopped_service_eq(2), simp_all add: stop_log_def event_at_def)

definition memory_run :: "action_memory service" where
  "memory_run =
     (let A = action_service memory_action_store tally (\<lambda>_. ''h'') (\<lambda>_. []);
          g1 = fst (action_preview A sample_input \<lparr>sv_now = 0, sv_fresh = 0, sv_data = empty_action_memory\<rparr>);
          g2 = fst (action_approve A (tally 0)
            (JObj [(''approval_digest'', JStr ''h''), (''approval_nonce'', JStr (tally 1))]) g1)
      in fst (action_execute A (tally 0) g2))"

lemma memory_run_reachable:
  "ag_reachable (action_service memory_action_store tally (\<lambda>_. ''h'') (\<lambda>_. [])) (\<lambda>d d'. d' = d)
     empty_action_memory memory_run"
  unfolding memory_run_def Let_def
  by (rule ag_reachable.step [OF ag_reachable.step [OF ag_reachable.step
        [OF ag_reachable.start ag_step.preview] ag_step.approve] ag_step.execute])

lemma memory_run_preferences: "ls_preferences (am_state (sv_data memory_run)) = [(''k'', JStr ''v'')]"
  by (simp add: memory_run_def action_preview_def sample_validated run_simps Let_def amem_readState_def
      amem_readEvents_def amem_appendEvent_def amem_writeState_def empty_action_memory_def new_action_def
      granted_def APPROVAL_TTL_def sameValue_def coalesce_def pref_key_def with_next_def)

theorem log_explains_preferences_witness:
  "replay_preferences (\<lambda>_. []) (am_events (sv_data memory_run)) [] = [(''k'', JStr ''v'')]"
  using log_explains_preferences [OF letters_supply memory_run_reachable] memory_run_preferences by simp

end
