(* ===== verification/EventLog.thy ===== *)
theory EventLog
  imports Service
begin

text \<open>
  A store that keeps nothing but a log of events, as the proactive scheduler has it
  (\<open>packages/zarvis/services/zarvis-proactive/store.mjs\<close>): in memory, and in a file. The
  chain of promises of the file store passes its job as the rejection handler too, so a
  failed append does not reject the later ones, and the chain carries no state. What fails
  is part of the state and may be changed by the environment: the message of a failing
  access (creating or reading the file), or of a failing append, which may have written its
  line.
\<close>

record ('s, 'e) event_store =
  eo_readEvents :: "'s \<Rightarrow> (string, 'e list) result"
  eo_appendEvent :: "'e \<Rightarrow> 's \<Rightarrow> ('s, string, unit) outcome"

text \<open>In memory the state is the list of events.\<close>

definition pmem_readEvents :: "'e list \<Rightarrow> (string, 'e list) result" where
  "pmem_readEvents es = Inr es"

definition pmem_appendEvent :: "'e \<Rightarrow> 'e list \<Rightarrow> ('e list, string, unit) outcome" where
  "pmem_appendEvent e es = (es @ [e], Inr ())"

definition memory_event_store :: "('e list, 'e) event_store" where
  "memory_event_store = \<lparr>eo_readEvents = pmem_readEvents, eo_appendEvent = pmem_appendEvent\<rparr>"

record 'e log_file =
  lf_events :: "'e list"
  lf_accessError :: "string option"
  lf_appendError :: "(string \<times> bool) option"

definition log_readEvents :: "'e log_file \<Rightarrow> (string, 'e list) result" where
  "log_readEvents d = (case lf_accessError d of Some m \<Rightarrow> Inl m | None \<Rightarrow> Inr (lf_events d))"

definition log_appendEvent :: "'e \<Rightarrow> 'e log_file \<Rightarrow> ('e log_file, string, unit) outcome" where
  "log_appendEvent e d =
     (case lf_accessError d of
        Some m \<Rightarrow> (d, Inl m)
      | None \<Rightarrow>
          (case lf_appendError d of
             None \<Rightarrow> (d\<lparr>lf_events := lf_events d @ [e]\<rparr>, Inr ())
           | Some (m, landed) \<Rightarrow> (if landed then d\<lparr>lf_events := lf_events d @ [e]\<rparr> else d, Inl m)))"

definition file_event_store :: "('e log_file, 'e) event_store" where
  "file_event_store = \<lparr>eo_readEvents = log_readEvents, eo_appendEvent = log_appendEvent\<rparr>"

definition empty_log :: "'e log_file" where
  "empty_log = \<lparr>lf_events = [], lf_accessError = None, lf_appendError = None\<rparr>"

definition log_file_change :: "'e log_file \<Rightarrow> 'e log_file \<Rightarrow> bool" where
  "log_file_change d d' \<longleftrightarrow> lf_events d' = lf_events d"

lemma event_store_fields [simp]:
  "eo_readEvents memory_event_store = pmem_readEvents" "eo_appendEvent memory_event_store = pmem_appendEvent"
  "eo_readEvents file_event_store = log_readEvents" "eo_appendEvent file_event_store = log_appendEvent"
  by (simp_all add: memory_event_store_def file_event_store_def)

section \<open>The contract of an event store\<close>

locale event_log =
  fixes P :: "('s, 'e) event_store" and evs :: "'s \<Rightarrow> 'e list" and E :: "'s \<Rightarrow> 's \<Rightarrow> bool" and errors :: "string set"
  assumes events: "eo_readEvents P d = Inr l \<Longrightarrow> l = evs d"
    and append: "post (eo_appendEvent P e d) (\<lambda>_ d'. evs d' = evs d @ [e]) (\<lambda>d'. evs d' = evs d \<or> evs d' = evs d @ [e])"
    and env: "E d d' \<Longrightarrow> evs d' = evs d"
    and reliable: "errors = {} \<Longrightarrow> \<not> isl (snd (eo_appendEvent P e d)) \<and> \<not> isl (eo_readEvents P d)"
begin

lemma read_post:
  assumes "N (evs (sv_data g)) g" and "errors \<noteq> {} \<Longrightarrow> X g"
  shows "post (from_store F (eo_readEvents P) g) N X"
  by (rule from_store_post) (use assms events reliable in auto)

lemma append_post:
  assumes "\<And>d. evs d = evs (sv_data g) @ [e] \<Longrightarrow> N () (g\<lparr>sv_data := d\<rparr>)"
    and "\<And>d. errors \<noteq> {} \<Longrightarrow> evs d = evs (sv_data g) \<or> evs d = evs (sv_data g) @ [e] \<Longrightarrow> X (g\<lparr>sv_data := d\<rparr>)"
  shows "post (on_store F (eo_appendEvent P e) g) N X"
proof (rule on_store_post, rule post_faulty [OF append])
  show "\<not> isl (snd (eo_appendEvent P e (sv_data g)))" if "\<not> errors \<noteq> {}" using that reliable by blast
  show "N v (g\<lparr>sv_data := d\<rparr>)" if "evs d = evs (sv_data g) @ [e]" for v d
    using assms(1) [OF that] by (cases v) simp
qed (use assms(2) in blast)

end

interpretation pmem: event_log memory_event_store "\<lambda>d. d" "\<lambda>d d'. d' = d" "{}"
  by unfold_locales (simp_all add: pmem_readEvents_def pmem_appendEvent_def)

interpretation plog: event_log file_event_store lf_events log_file_change "{''disk''}"
  by unfold_locales
    (auto simp: log_readEvents_def log_appendEvent_def log_file_change_def split: option.splits)

end
