(* ===== verification/Proactive.thy ===== *)
theory Proactive
  imports EventLog
begin

text \<open>
  The proactive scheduler of Zarvis (\<open>packages/zarvis/services/zarvis-proactive\<close>):
  \<open>ZarvisProactiveRuntime\<close> of \<open>runtime.mjs\<close> over an event store, and the adapter of
  \<open>local-health-adapter.mjs\<close>. The state of the service is what a fold over its log of
  events yields. The calendar of a time zone (\<open>Intl.DateTimeFormat\<close>), the hash and the
  adapter are arguments. Members that are the same in every record of a kind (schema, owner,
  tenant) are left out.
\<close>

section \<open>Records and events\<close>

record policy =
  py_timezone :: string
  py_start :: js
  py_end :: js
  py_budget :: int
  py_cooldown :: int
  py_confidence :: rat
  py_updatedAt :: "int option"

definition DEFAULT_POLICY :: policy where
  "DEFAULT_POLICY =
     \<lparr>py_timezone = ''Asia/Bangkok'', py_start = JStr ''22:00'', py_end = JStr ''07:00'', py_budget = 5,
      py_cooldown = 60, py_confidence = 7 / 10, py_updatedAt = None\<rparr>"

record subscription =
  su_id :: string
  su_key :: string
  su_target :: string
  su_interval :: int
  su_notifyOn :: string
  su_cooldown :: "int option"
  su_missed :: string
  su_status :: string
  su_nextRunAt :: int
  su_evaluatedAt :: "int option"
  su_lastStatus :: "string option"
  su_createdAt :: int
  su_updatedAt :: int

record signal =
  sg_id :: string
  sg_subscription :: string
  sg_key :: string
  sg_status :: string
  sg_severity :: string
  sg_confidence :: rat
  sg_summary :: string
  sg_url :: string
  sg_evidence :: js
  sg_action :: js

record notification =
  nt_id :: string
  nt_subscription :: string
  nt_state :: string
  nt_fingerprint :: string
  nt_severity :: string
  nt_confidence :: rat
  nt_title :: string
  nt_summary :: string
  nt_explanation :: string
  nt_url :: string
  nt_evidence :: js
  nt_action :: js
  nt_approval :: bool
  nt_createdAt :: int

record evaluation =
  vn_subscription :: string
  vn_signal :: "signal option"
  vn_decision :: string
  vn_notification :: "string option"
  vn_at :: int

record feedback =
  fk_notification :: string
  fk_rating :: string
  fk_note :: "string option"
  fk_createdAt :: int

record handoff =
  hd_id :: string
  hd_notification :: string
  hd_request :: js
  hd_createdAt :: int

datatype proactive_payload =
    PolicyPayload policy
  | SubscriptionPayload subscription
  | NotificationPayload notification
  | FeedbackPayload feedback
  | HandoffPayload handoff
  | EvaluationPayload evaluation

record proactive_event =
  px_id :: string
  px_type :: string
  px_at :: int
  px_payload :: proactive_payload

record proactive_state =
  pt_policy :: policy
  pt_subscriptions :: "(string, subscription) jsmap"
  pt_notifications :: "(string, notification) jsmap"
  pt_feedback :: "(string, feedback) jsmap"
  pt_handoffs :: "(string, handoff) jsmap"

text \<open>
  The constructor's arguments: store, ids, the adapter (its targets and its check of one
  subscription), and the library: \<open>zonedParts\<close> as date and minute of a time in a zone, the
  names \<open>Intl\<close> accepts, SHA-256 of a JSON text, the text of a number that is no integer.
\<close>

record 's proactive_runtime =
  pr_store :: "('s, proactive_event) event_store"
  pr_uuid :: "nat \<Rightarrow> string"
  pr_targets :: "string list"
  pr_evaluate :: "subscription \<Rightarrow> int \<Rightarrow> (string, js) result"
  pr_zone :: "string \<Rightarrow> int \<Rightarrow> string \<times> nat"
  pr_zoneKnown :: "string \<Rightarrow> bool"
  pr_hash :: "js \<Rightarrow> string"
  pr_ratText :: "rat \<Rightarrow> string"

datatype proactive_error =
    ProactiveError string nat
  | ProactiveFault string

type_synonym ('s, 'a) proactive_result = "('s service, proactive_error, 'a) outcome"

section \<open>Validation\<close>

definition assertTrustedInput :: "js \<Rightarrow> (proactive_error, unit) result" where
  "assertTrustedInput input =
     (if \<not> is_plain_object input then Inl (ProactiveError ''invalid_payload'' 400)
      else if get_prop input ''untrusted_content'' = JBool True \<or> truthy (get_prop input ''policy_effect'')
          \<or> truthy (get_prop input ''tool_grants'')
      then Inl (ProactiveError ''confused_deputy_denied'' 403)
      else Inr ())"

definition validateTimezone :: "(string \<Rightarrow> bool) \<Rightarrow> js \<Rightarrow> (proactive_error, string) result" where
  "validateTimezone known v =
     (case v of
        JStr s \<Rightarrow>
          if 64 < length s \<or> \<not> known s then Inl (ProactiveError ''invalid_timezone'' 400) else Inr s
      | _ \<Rightarrow> Inl (ProactiveError ''invalid_timezone'' 400))"

text \<open>\<open>/^([01]\d|2[0-3]):[0-5]\d$/\<close>; the test turns its argument into a string, the value is kept.\<close>

definition matches_time :: "string \<Rightarrow> bool" where
  "matches_time s =
     (case s of
        [a, b, c, d, e] \<Rightarrow>
          ((a \<in> set ''01'' \<and> is_digit b) \<or> (a = CHR ''2'' \<and> b \<in> set ''0123''))
          \<and> c = CHR '':'' \<and> d \<in> set ''012345'' \<and> is_digit e
      | _ \<Rightarrow> False)"

definition validateTime :: "(rat \<Rightarrow> string) \<Rightarrow> js \<Rightarrow> (proactive_error, js) result" where
  "validateTime R v =
     (if matches_time (js_text_of R (coalesce v (JStr []))) then Inr v
      else Inl (ProactiveError ''invalid_quiet_hours'' 400))"

definition integer :: "js \<Rightarrow> int \<Rightarrow> int \<Rightarrow> string \<Rightarrow> (proactive_error, int) result" where
  "integer v lo hi c =
     (case v of
        JNum (Fin q) \<Rightarrow>
          if rat_is_int q \<and> of_int lo \<le> q \<and> q \<le> of_int hi then Inr \<lfloor>q\<rfloor> else Inl (ProactiveError c 400)
      | _ \<Rightarrow> Inl (ProactiveError c 400))"

definition bounded_number :: "js \<Rightarrow> rat \<Rightarrow> rat \<Rightarrow> string \<Rightarrow> (proactive_error, rat) result" where
  "bounded_number v lo hi c =
     (case v of
        JNum (Fin q) \<Rightarrow> if lo \<le> q \<and> q \<le> hi then Inr q else Inl (ProactiveError c 400)
      | _ \<Rightarrow> Inl (ProactiveError c 400))"

definition validatePolicy ::
  "(string \<Rightarrow> bool) \<Rightarrow> (rat \<Rightarrow> string) \<Rightarrow> js \<Rightarrow> policy \<Rightarrow> int \<Rightarrow> (proactive_error, policy) result" where
  "validatePolicy known R input cur now =
     bindR (assertTrustedInput input) (\<lambda>_.
     bindR (validateTimezone known (coalesce (get_prop input ''timezone'') (JStr (py_timezone cur)))) (\<lambda>tz.
     bindR (validateTime R (coalesce (get_prop input ''quiet_hours_start'') (py_start cur))) (\<lambda>s.
     bindR (validateTime R (coalesce (get_prop input ''quiet_hours_end'') (py_end cur))) (\<lambda>e.
     bindR (integer (coalesce (get_prop input ''daily_notification_budget'') (JNum (Fin (of_int (py_budget cur)))))
        0 20 ''invalid_notification_budget'') (\<lambda>b.
     bindR (integer (coalesce (get_prop input ''default_cooldown_minutes'') (JNum (Fin (of_int (py_cooldown cur)))))
        1 1440 ''invalid_cooldown'') (\<lambda>c.
     bindR (bounded_number (coalesce (get_prop input ''confidence_threshold'') (JNum (Fin (py_confidence cur))))
        0 1 ''invalid_confidence_threshold'') (\<lambda>t.
       Inr \<lparr>py_timezone = tz, py_start = s, py_end = e, py_budget = b, py_cooldown = c, py_confidence = t,
            py_updatedAt = Some now\<rparr>)))))))"

section \<open>Quiet hours\<close>

text \<open>\<open>value.split(':').map(Number)\<close>; a value that is no string has no \<open>split\<close>.\<close>

definition timeMinutes :: "js \<Rightarrow> (proactive_error, jsnum) result" where
  "timeMinutes v =
     (case v of
        JStr s \<Rightarrow>
          (case map string_to_number (split_on (CHR '':'') s) of
             Fin h # Fin m # _ \<Rightarrow> Inr (Fin (h * 60 + m))
           | _ \<Rightarrow> Inr NaN)
      | _ \<Rightarrow> Inl (ProactiveFault ''value.split is not a function''))"

definition num_le :: "jsnum \<Rightarrow> jsnum \<Rightarrow> bool" where
  "num_le a b \<longleftrightarrow> num_lt a b \<or> (a = b \<and> a \<noteq> NaN)"

definition inQuietHours :: "(string \<Rightarrow> int \<Rightarrow> string \<times> nat) \<Rightarrow> int \<Rightarrow> policy \<Rightarrow> (proactive_error, bool) result" where
  "inQuietHours Z now p =
     (let c = Fin (of_nat (snd (Z (py_timezone p) now)))
      in bindR (timeMinutes (py_start p)) (\<lambda>s.
         bindR (timeMinutes (py_end p)) (\<lambda>e.
           if num_le s e \<and> num_le e s then Inr False
           else if num_lt s e then Inr (num_le s c \<and> num_lt c e)
           else Inr (num_le s c \<or> num_lt c e))))"

section \<open>State and log\<close>

definition apply_proactive :: "proactive_state \<Rightarrow> proactive_event \<Rightarrow> proactive_state" where
  "apply_proactive s e =
     (case px_payload e of
        PolicyPayload p \<Rightarrow> s\<lparr>pt_policy := p\<rparr>
      | SubscriptionPayload u \<Rightarrow>
          if su_id u \<noteq> [] then s\<lparr>pt_subscriptions := map_set (pt_subscriptions s) (su_id u) u\<rparr> else s
      | NotificationPayload n \<Rightarrow>
          if nt_id n \<noteq> [] then s\<lparr>pt_notifications := map_set (pt_notifications s) (nt_id n) n\<rparr> else s
      | FeedbackPayload f \<Rightarrow>
          if fk_notification f \<noteq> [] then s\<lparr>pt_feedback := map_set (pt_feedback s) (fk_notification f) f\<rparr> else s
      | HandoffPayload h \<Rightarrow>
          if hd_notification h \<noteq> [] then s\<lparr>pt_handoffs := map_set (pt_handoffs s) (hd_notification h) h\<rparr> else s
      | EvaluationPayload _ \<Rightarrow> s)"

definition stateFromEvents :: "proactive_event list \<Rightarrow> proactive_state" where
  "stateFromEvents es =
     foldl apply_proactive
       \<lparr>pt_policy = DEFAULT_POLICY, pt_subscriptions = [], pt_notifications = [], pt_feedback = [], pt_handoffs = []\<rparr> es"

definition proactive_state_of :: "'s proactive_runtime \<Rightarrow> 's service \<Rightarrow> ('s, proactive_state) proactive_result" where
  "proactive_state_of A g =
     andThen (from_store ProactiveFault (eo_readEvents (pr_store A)) g) (\<lambda>g1 es. (g1, Inr (stateFromEvents es)))"

definition append_event ::
  "'s proactive_runtime \<Rightarrow> string \<Rightarrow> proactive_payload \<Rightarrow> 's service \<Rightarrow> ('s, unit) proactive_result" where
  "append_event A ty v g =
     andThen (new_id (pr_uuid A) g) (\<lambda>g1 i.
       on_store ProactiveFault
         (eo_appendEvent (pr_store A) \<lparr>px_id = i, px_type = ty, px_at = sv_now g, px_payload = v\<rparr>) g1)"

section \<open>Policy and subscriptions\<close>

definition getPolicy :: "'s proactive_runtime \<Rightarrow> 's service \<Rightarrow> ('s, policy) proactive_result" where
  "getPolicy A g = andThen (proactive_state_of A g) (\<lambda>g1 s. (g1, Inr (pt_policy s)))"

definition updatePolicy :: "'s proactive_runtime \<Rightarrow> js \<Rightarrow> 's service \<Rightarrow> ('s, policy) proactive_result" where
  "updatePolicy A input g =
     andThen (proactive_state_of A g) (\<lambda>g1 s.
     andThen (check (validatePolicy (pr_zoneKnown A) (pr_ratText A) input (pt_policy s) (sv_now g)) g1) (\<lambda>g2 p.
     andThen (append_event A ''zarvis.proactive.policy-updated.v1'' (PolicyPayload p) g2) (\<lambda>g3 _.
       (g3, Inr p))))"

definition one_of :: "string list \<Rightarrow> js \<Rightarrow> string \<Rightarrow> (proactive_error, string) result" where
  "one_of ws v c = (case v of JStr s \<Rightarrow> if s \<in> set ws then Inr s else Inl (ProactiveError c 400)
                    | _ \<Rightarrow> Inl (ProactiveError c 400))"

text \<open>The checks of \<open>createSubscription\<close>, in order: target, interval, mode, policy, cooldown.\<close>

definition subscription_input ::
  "string list \<Rightarrow> js \<Rightarrow> (proactive_error, string \<times> int \<times> string \<times> string \<times> int option) result" where
  "subscription_input targets input =
     bindR (assertTrustedInput input) (\<lambda>_.
     if get_prop input ''check'' \<noteq> JStr ''local.service.health'' then Inl (ProactiveError ''check_denied'' 403)
     else
     bindR (case get_prop input ''target'' of
              JStr t \<Rightarrow> if t \<in> set targets then Inr t else Inl (ProactiveError ''target_denied'' 403)
            | _ \<Rightarrow> Inl (ProactiveError ''target_denied'' 403)) (\<lambda>t.
     bindR (integer (get_prop input ''interval_minutes'') 1 1440 ''invalid_interval'') (\<lambda>n.
     bindR (one_of [''unhealthy'', ''status_change'', ''always'']
        (coalesce (get_prop input ''notify_on'') (JStr ''unhealthy'')) ''invalid_notify_on'') (\<lambda>o1.
     bindR (one_of [''skip'', ''run_once'']
        (coalesce (get_prop input ''missed_run_policy'') (JStr ''run_once'')) ''invalid_missed_run_policy'') (\<lambda>m.
     bindR (if is_nullish (get_prop input ''cooldown_minutes'') then Inr None
            else bindR (integer (get_prop input ''cooldown_minutes'') 1 1440 ''invalid_cooldown'') (\<lambda>c. Inr (Some c)))
        (\<lambda>c. Inr (t, n, o1, m, c)))))))"

definition new_subscription ::
  "string \<Rightarrow> string \<times> int \<times> string \<times> string \<times> int option \<Rightarrow> int \<Rightarrow> subscription" where
  "new_subscription i x now =
     (case x of (t, n, o1, m, c) \<Rightarrow>
        \<lparr>su_id = i, su_key = ''local.service.health:'' @ t, su_target = t, su_interval = n, su_notifyOn = o1,
         su_cooldown = c, su_missed = m, su_status = ''active'', su_nextRunAt = now, su_evaluatedAt = None,
         su_lastStatus = None, su_createdAt = now, su_updatedAt = now\<rparr>)"

definition createSubscription :: "'s proactive_runtime \<Rightarrow> js \<Rightarrow> 's service \<Rightarrow> ('s, subscription \<times> bool) proactive_result" where
  "createSubscription A input g =
     andThen (check (subscription_input (pr_targets A) input) g) (\<lambda>g1 x.
     andThen (proactive_state_of A g1) (\<lambda>g2 s.
     case find (\<lambda>u. su_key u = ''local.service.health:'' @ fst x \<and> su_status u = ''active'')
            (map_values (pt_subscriptions s)) of
       Some u \<Rightarrow> (g2, Inr (u, True))
     | None \<Rightarrow>
         andThen (new_id (pr_uuid A) g2) (\<lambda>g3 i.
         let u = new_subscription i x (sv_now g)
         in andThen (append_event A ''zarvis.proactive.subscription-created.v1'' (SubscriptionPayload u) g3) (\<lambda>g4 _.
            (g4, Inr (u, False))))))"

definition listSubscriptions :: "'s proactive_runtime \<Rightarrow> 's service \<Rightarrow> ('s, subscription list) proactive_result" where
  "listSubscriptions A g =
     andThen (proactive_state_of A g) (\<lambda>g1 s.
       (g1, Inr (sort_key (\<lambda>u. - su_createdAt u) (map_values (pt_subscriptions s)))))"

definition revokeSubscription :: "'s proactive_runtime \<Rightarrow> string \<Rightarrow> 's service \<Rightarrow> ('s, subscription \<times> bool) proactive_result" where
  "revokeSubscription A i g =
     andThen (proactive_state_of A g) (\<lambda>g1 s.
     case map_get (pt_subscriptions s) i of
       None \<Rightarrow> (g1, Inl (ProactiveError ''subscription_not_found'' 404))
     | Some u \<Rightarrow>
         if su_status u = ''revoked'' then (g1, Inr (u, True))
         else
           let r = u\<lparr>su_status := ''revoked'', su_updatedAt := sv_now g\<rparr>
           in andThen (append_event A ''zarvis.proactive.subscription-revoked.v1'' (SubscriptionPayload r) g1)
                (\<lambda>g2 _. (g2, Inr (r, False))))"

section \<open>Notifications, feedback, handoff\<close>

definition listNotifications ::
  "'s proactive_runtime \<Rightarrow> 's service \<Rightarrow> ('s, (notification \<times> feedback option \<times> handoff option) list) proactive_result" where
  "listNotifications A g =
     andThen (proactive_state_of A g) (\<lambda>g1 s.
       (g1, Inr (map (\<lambda>n. (n, map_get (pt_feedback s) (nt_id n), map_get (pt_handoffs s) (nt_id n)))
          (sort_key (\<lambda>n. - nt_createdAt n) (map_values (pt_notifications s))))))"

definition recordFeedback :: "'s proactive_runtime \<Rightarrow> string \<Rightarrow> js \<Rightarrow> 's service \<Rightarrow> ('s, feedback) proactive_result" where
  "recordFeedback A i input g =
     andThen (check (assertTrustedInput input) g) (\<lambda>g1 _.
     andThen (proactive_state_of A g1) (\<lambda>g2 s.
     if map_get (pt_notifications s) i = None then (g2, Inl (ProactiveError ''notification_not_found'' 404))
     else
     andThen (check (one_of [''useful'', ''irrelevant'', ''false_positive''] (get_prop input ''rating'') ''invalid_feedback'') g2)
       (\<lambda>g3 r.
        let f = \<lparr>fk_notification = i, fk_rating = r,
                 fk_note = (case get_prop input ''note'' of JStr n \<Rightarrow> Some (take 500 n) | _ \<Rightarrow> None),
                 fk_createdAt = sv_now g\<rparr>
        in andThen (append_event A ''zarvis.proactive.feedback-recorded.v1'' (FeedbackPayload f) g3) (\<lambda>g4 _.
           (g4, Inr f)))))"

definition createActionHandoff :: "'s proactive_runtime \<Rightarrow> string \<Rightarrow> 's service \<Rightarrow> ('s, handoff \<times> bool) proactive_result" where
  "createActionHandoff A i g =
     andThen (proactive_state_of A g) (\<lambda>g1 s.
     case map_get (pt_notifications s) i of
       None \<Rightarrow> (g1, Inl (ProactiveError ''notification_not_found'' 404))
     | Some n \<Rightarrow>
         if \<not> truthy (nt_action n) then (g1, Inl (ProactiveError ''no_action_proposed'' 409))
         else (case map_get (pt_handoffs s) i of
             Some h \<Rightarrow> (g1, Inr (h, True))
           | None \<Rightarrow>
               andThen (new_id (pr_uuid A) g1) (\<lambda>g2 x.
               let h = \<lparr>hd_id = x, hd_notification = i, hd_request = nt_action n, hd_createdAt = sv_now g\<rparr>
               in andThen (append_event A ''zarvis.proactive.action-handoff-created.v1'' (HandoffPayload h) g2) (\<lambda>g3 _.
                  (g3, Inr (h, False))))))"

section \<open>One tick\<close>

definition validateSignal :: "(rat \<Rightarrow> string) \<Rightarrow> js \<Rightarrow> string \<Rightarrow> string \<Rightarrow> (proactive_error, signal) result" where
  "validateSignal R raw sid i =
     (if \<not> is_plain_object raw then Inl (ProactiveError ''invalid_signal'' 502)
      else
        bindR (case get_prop raw ''status'' of
                 JStr s \<Rightarrow> if s \<in> {''healthy'', ''unhealthy''} then Inr s else Inl (ProactiveError ''invalid_signal'' 502)
               | _ \<Rightarrow> Inl (ProactiveError ''invalid_signal'' 502)) (\<lambda>st.
        bindR (bounded_number (get_prop raw ''confidence'') 0 1 ''invalid_signal'') (\<lambda>c.
        case get_prop raw ''summary'' of
          JStr m \<Rightarrow>
            if length m < 1 \<or> 500 < length m then Inl (ProactiveError ''invalid_signal'' 502)
            else Inr \<lparr>sg_id = i, sg_subscription = sid,
                     sg_key = take 128 (js_text_of R (get_prop raw ''signal_key'')), sg_status = st,
                     sg_severity = (case get_prop raw ''severity'' of
                        JStr v \<Rightarrow> if v \<in> {''info'', ''warning'', ''high''} then v else ''warning'' | _ \<Rightarrow> ''warning''),
                     sg_confidence = c, sg_summary = m, sg_url = take 512 (js_text_of R (get_prop raw ''source_url'')),
                     sg_evidence = coalesce (get_prop raw ''evidence'') (JObj []),
                     sg_action = (if truthy (get_prop raw ''proposed_action'') then get_prop raw ''proposed_action'' else JNull)\<rparr>
        | _ \<Rightarrow> Inl (ProactiveError ''invalid_signal'' 502))))"

definition shouldTrigger :: "subscription \<Rightarrow> signal \<Rightarrow> bool" where
  "shouldTrigger u s =
     (if su_notifyOn u = ''always'' then True
      else if su_notifyOn u = ''unhealthy'' then sg_status s = ''unhealthy''
      else su_lastStatus u \<noteq> None \<and> su_lastStatus u \<noteq> Some (sg_status s))"

definition fingerprint_of :: "(js \<Rightarrow> string) \<Rightarrow> subscription \<Rightarrow> signal \<Rightarrow> string" where
  "fingerprint_of H u s =
     digest H (JObj [(''subscription_id'', JStr (su_id u)), (''signal_key'', JStr (sg_key s)),
                     (''status'', JStr (sg_status s)), (''summary'', JStr (sg_summary s))])"

definition delivered :: "notification \<Rightarrow> bool" where
  "delivered n \<longleftrightarrow> nt_state n = ''delivered''"

definition delivered_on :: "(string \<Rightarrow> int \<Rightarrow> string \<times> nat) \<Rightarrow> string \<Rightarrow> string \<Rightarrow> notification list \<Rightarrow> nat" where
  "delivered_on Z tz date ns = length (filter (\<lambda>n. delivered n \<and> fst (Z tz (nt_createdAt n)) = date) ns)"

definition cooldown_of :: "policy \<Rightarrow> subscription \<Rightarrow> int" where
  "cooldown_of p u = or_else (su_cooldown u) (py_cooldown p)"

definition duplicate :: "notification list \<Rightarrow> string \<Rightarrow> int \<Rightarrow> bool" where
  "duplicate ns fp from = (\<exists>n\<in>set ns. delivered n \<and> nt_fingerprint n = fp \<and> from \<le> nt_createdAt n)"

text \<open>The chain of \<open>if (triggered \<and> decision === 'delivered' \<and> \<dots>)\<close>.\<close>

definition decide ::
  "'s proactive_runtime \<Rightarrow> policy \<Rightarrow> int \<Rightarrow> notification list \<Rightarrow> subscription \<Rightarrow> signal \<Rightarrow> (proactive_error, string) result" where
  "decide A p now ns u s =
     (if \<not> shouldTrigger u s then Inr ''not_triggered''
      else if sg_confidence s < py_confidence p then Inr ''suppressed_confidence''
      else
        bindR (inQuietHours (pr_zone A) now p) (\<lambda>q.
          if q then Inr ''suppressed_quiet_hours''
          else if py_budget p \<le> int (delivered_on (pr_zone A) (py_timezone p) (fst (pr_zone A (py_timezone p) now)) ns)
          then Inr ''suppressed_budget''
          else if duplicate ns (fingerprint_of (pr_hash A) u s) (now - cooldown_of p u * 60000)
          then Inr ''suppressed_cooldown''
          else Inr ''delivered''))"

definition new_notification ::
  "'s proactive_runtime \<Rightarrow> string \<Rightarrow> string \<Rightarrow> subscription \<Rightarrow> signal \<Rightarrow> int \<Rightarrow> notification" where
  "new_notification A i decision u s now =
     \<lparr>nt_id = i, nt_subscription = su_id u, nt_state = decision, nt_fingerprint = fingerprint_of (pr_hash A) u s,
      nt_severity = sg_severity s, nt_confidence = sg_confidence s,
      nt_title = su_target u @ (if sg_status s = ''unhealthy'' then '' needs attention'' else '' status changed''),
      nt_summary = sg_summary s,
      nt_explanation = ''Read-only local.service.health evaluated '' @ su_target u @ '' at '' @ to_iso now
        @ ''; status='' @ sg_status s @ ''; confidence='' @ num_text (pr_ratText A) (Fin (sg_confidence s)) @ ''.'',
      nt_url = sg_url s, nt_evidence = sg_evidence s, nt_action = sg_action s, nt_approval = (sg_action s \<noteq> JNull),
      nt_createdAt = now\<rparr>"

definition due :: "subscription \<Rightarrow> int \<Rightarrow> bool" where
  "due u now \<longleftrightarrow> su_status u = ''active'' \<and> su_nextRunAt u \<le> now"

definition missed :: "subscription \<Rightarrow> int \<Rightarrow> bool" where
  "missed u now \<longleftrightarrow> su_interval u * 60000 < now - su_nextRunAt u \<and> su_missed u = ''skip''"

definition rescheduled :: "subscription \<Rightarrow> int \<Rightarrow> subscription" where
  "rescheduled u now =
     u\<lparr>su_nextRunAt := now + su_interval u * 60000, su_evaluatedAt := Some now, su_updatedAt := now\<rparr>"

text \<open>The two events that end the evaluation of a subscription.\<close>

definition conclude ::
  "'s proactive_runtime \<Rightarrow> evaluation \<Rightarrow> subscription \<Rightarrow> 's service \<Rightarrow> ('s, unit) proactive_result" where
  "conclude A v u g =
     andThen (append_event A ''zarvis.proactive.evaluated.v1'' (EvaluationPayload v) g) (\<lambda>g1 _.
       append_event A ''zarvis.proactive.subscription-updated.v1'' (SubscriptionPayload u) g1)"

text \<open>From a valid signal to the two last events.\<close>

definition evaluate_signal ::
  "'s proactive_runtime \<Rightarrow> policy \<Rightarrow> notification list \<Rightarrow> subscription \<Rightarrow> signal \<Rightarrow> 's service
     \<Rightarrow> ('s, evaluation \<times> notification list) proactive_result" where
  "evaluate_signal A p ns u s g =
     (let now = sv_now g in
        andThen (new_id (pr_uuid A) g) (\<lambda>g1 _.
        andThen (check (decide A p now ns u s) g1) (\<lambda>g2 d.
        andThen
          (if shouldTrigger u s then
             andThen (new_id (pr_uuid A) g2) (\<lambda>g3 i.
             let n = new_notification A i d u s now
             in andThen (append_event A ''zarvis.proactive.notification-decided.v1'' (NotificationPayload n) g3)
                  (\<lambda>g4 _. (g4, Inr (Some n))))
           else (g2, Inr None)) (\<lambda>g5 n.
        let v = \<lparr>vn_subscription = su_id u, vn_signal = Some s, vn_decision = d,
                 vn_notification = map_option nt_id n, vn_at = now\<rparr>
        in andThen (conclude A v ((rescheduled u now)\<lparr>su_lastStatus := Some (sg_status s)\<rparr>) g5) (\<lambda>g6 _.
           (g6, Inr (v, case n of None \<Rightarrow> ns | Some x \<Rightarrow> ns @ [x])))))))"

definition evaluate_one ::
  "'s proactive_runtime \<Rightarrow> policy \<Rightarrow> notification list \<Rightarrow> subscription \<Rightarrow> 's service
     \<Rightarrow> ('s, evaluation \<times> notification list) proactive_result" where
  "evaluate_one A p ns u g =
     (let now = sv_now g in
      if missed u now then
        let v = \<lparr>vn_subscription = su_id u, vn_signal = None, vn_decision = ''missed_run_skipped'',
                 vn_notification = None, vn_at = now\<rparr>
        in andThen (conclude A v (rescheduled u now) g) (\<lambda>g1 _. (g1, Inr (v, ns)))
      else
        andThen (check (case pr_evaluate A u now of Inl m \<Rightarrow> Inl (ProactiveFault m) | Inr raw \<Rightarrow> Inr raw) g) (\<lambda>g1 raw.
        andThen (check (validateSignal (pr_ratText A) raw (su_id u) (pr_uuid A (sv_fresh g1))) g1) (\<lambda>g2 s.
          evaluate_signal A p ns u s g2)))"

fun tick_loop ::
  "'s proactive_runtime \<Rightarrow> policy \<Rightarrow> notification list \<Rightarrow> evaluation list \<Rightarrow> subscription list \<Rightarrow> 's service
     \<Rightarrow> ('s, evaluation list) proactive_result" where
  "tick_loop A p ns vs [] g = (g, Inr vs)"
| "tick_loop A p ns vs (u # us) g =
     (if \<not> due u (sv_now g) then tick_loop A p ns vs us g
      else andThen (evaluate_one A p ns u g) (\<lambda>g1 (v, ns1). tick_loop A p ns1 (vs @ [v]) us g1))"

definition proactive_tick :: "'s proactive_runtime \<Rightarrow> 's service \<Rightarrow> ('s, evaluation list) proactive_result" where
  "proactive_tick A g =
     andThen (proactive_state_of A g) (\<lambda>g1 s.
       tick_loop A (pt_policy s) (map_values (pt_notifications s)) [] (map_values (pt_subscriptions s)) g1)"

definition proactive_status :: "'s proactive_runtime \<Rightarrow> 's service \<Rightarrow> ('s, nat \<times> nat \<times> policy) proactive_result" where
  "proactive_status A g =
     andThen (proactive_state_of A g) (\<lambda>g1 s.
       (g1, Inr (length (filter (\<lambda>u. su_status u = ''active'') (map_values (pt_subscriptions s))),
                 length (pt_notifications s), pt_policy s)))"

section \<open>The health adapter\<close>

text \<open>
  What a request to an endpoint gives: nothing when it fails, else whether the status is in
  the two hundreds, the status, and the body when it is JSON.
\<close>

type_synonym health_fetch = "string \<Rightarrow> (bool \<times> nat \<times> js option) option"

definition attention :: "string \<Rightarrow> js" where
  "attention t =
     JObj [(''capability'', JStr ''sandbox.preference.set''), (''key'', JStr ''assistant.proactive_attention''),
           (''value'', JStr (''unhealthy:'' @ t))]"

definition health_evaluate :: "(string \<times> string) list \<Rightarrow> health_fetch \<Rightarrow> subscription \<Rightarrow> int \<Rightarrow> (string, js) result" where
  "health_evaluate registry F u now =
     (case map_of registry (su_target u) of
        None \<Rightarrow> Inl ''Target is not allowlisted''
      | Some url \<Rightarrow>
          (case F url of
             None \<Rightarrow>
               Inr (JObj [(''signal_key'', JStr (''health:'' @ su_target u)), (''status'', JStr ''unhealthy''),
                 (''severity'', JStr ''high''), (''confidence'', JNum (Fin 1)),
                 (''summary'', JStr (su_target u @ '' health check failed'')), (''source_url'', JStr url),
                 (''evidence'', JObj [(''reachable'', JBool False), (''http_status'', JNull), (''checked_at'', JStr (to_iso now))]),
                 (''proposed_action'', attention (su_target u))])
           | Some (ok, status, body) \<Rightarrow>
               (let b = (case body of Some v \<Rightarrow> v | None \<Rightarrow> JObj []);
                    healthy = (ok \<and> get_prop b ''status'' = JStr ''ok'')
                in Inr (JObj [(''signal_key'', JStr (''health:'' @ su_target u)),
                     (''status'', JStr (if healthy then ''healthy'' else ''unhealthy'')),
                     (''severity'', JStr (if healthy then ''info'' else ''high'')), (''confidence'', JNum (Fin 1)),
                     (''summary'', JStr (if healthy then su_target u @ '' is healthy''
                        else su_target u @ '' returned an unhealthy response'')), (''source_url'', JStr url),
                     (''evidence'', JObj [(''reachable'', JBool True), (''http_status'', JNum (Fin (of_nat status))),
                        (''checked_at'', JStr (to_iso now)), (''local_only'', JBool (get_prop b ''local_only'' = JBool True))]),
                     (''proposed_action'', if healthy then JNull else attention (su_target u))]))))"

section \<open>The service as a step relation\<close>

text \<open>
  One completed call of a route of \<open>server.mjs\<close> that writes, whatever the adapter answers and
  whatever targets it has at that moment; time passing; or a change of the store's environment.
\<close>

inductive ps_step :: "'s proactive_runtime \<Rightarrow> ('s \<Rightarrow> 's \<Rightarrow> bool) \<Rightarrow> 's service \<Rightarrow> 's service \<Rightarrow> bool" for A E where
  policy: "ps_step A E g (fst (updatePolicy A input g))"
| subscribe: "ps_step A E g (fst (createSubscription (A\<lparr>pr_targets := ts\<rparr>) input g))"
| revoke: "ps_step A E g (fst (revokeSubscription A i g))"
| tick: "ps_step A E g (fst (proactive_tick (A\<lparr>pr_evaluate := answer\<rparr>) g))"
| feedback: "ps_step A E g (fst (recordFeedback A i input g))"
| handoff: "ps_step A E g (fst (createActionHandoff A i g))"
| time_passes: "sv_now g \<le> t \<Longrightarrow> ps_step A E g (g\<lparr>sv_now := t\<rparr>)"
| environment: "E (sv_data g) d \<Longrightarrow> ps_step A E g (g\<lparr>sv_data := d\<rparr>)"

inductive ps_reachable :: "'s proactive_runtime \<Rightarrow> ('s \<Rightarrow> 's \<Rightarrow> bool) \<Rightarrow> 's \<Rightarrow> 's service \<Rightarrow> bool" for A E s0 where
  start: "ps_reachable A E s0 \<lparr>sv_now = t, sv_fresh = 0, sv_data = s0\<rparr>"
| step: "ps_reachable A E s0 g \<Longrightarrow> ps_step A E g g' \<Longrightarrow> ps_reachable A E s0 g'"

end
