(* ===== verification/ProactiveSpec.thy ===== *)
theory ProactiveSpec
  imports Proactive
begin

text \<open>
  What the scheduler promises, on the log alone: when an event may be appended, and what
  follows for a log all of whose events were: a delivered notification was allowed by the
  policy in force, a day has no more of them than the budget, a target has one active
  subscription. And the reference meaning of the quiet hours.
\<close>

section \<open>Fair events\<close>

abbreviation policy_of :: "proactive_event list \<Rightarrow> policy" where
  "policy_of l \<equiv> pt_policy (stateFromEvents l)"

abbreviation subs_of :: "proactive_event list \<Rightarrow> (string, subscription) jsmap" where
  "subs_of l \<equiv> pt_subscriptions (stateFromEvents l)"

abbreviation notes_of :: "proactive_event list \<Rightarrow> (string, notification) jsmap" where
  "notes_of l \<equiv> pt_notifications (stateFromEvents l)"

definition active_key :: "string \<Rightarrow> subscription \<Rightarrow> bool" where
  "active_key k u \<longleftrightarrow> su_key u = k \<and> su_status u = ''active''"

definition new_or_same :: "proactive_event list \<Rightarrow> subscription \<Rightarrow> bool" where
  "new_or_same l u \<longleftrightarrow>
     (case map_get (subs_of l) (su_id u) of
        None \<Rightarrow> \<forall>v\<in>set (map_values (subs_of l)). \<not> active_key (su_key u) v
      | Some v \<Rightarrow> su_key u = su_key v \<and> (su_status u = su_status v \<or> su_status u = ''revoked''))"

text \<open>A delivery at \<open>now\<close> is justified by the policy and the deliveries before it.\<close>

definition justified :: "(string \<Rightarrow> int \<Rightarrow> string \<times> nat) \<Rightarrow> proactive_event list \<Rightarrow> int \<Rightarrow> notification \<Rightarrow> bool" where
  "justified Z l now n \<longleftrightarrow>
     (let p = policy_of l; ns = map_values (notes_of l) in
      py_confidence p \<le> nt_confidence n \<and>
      inQuietHours Z now p = Inr False \<and>
      int (delivered_on Z (py_timezone p) (fst (Z (py_timezone p) now)) ns) < py_budget p \<and>
      (\<exists>u\<in>set (map_values (subs_of l)). su_id u = nt_subscription n \<and>
         \<not> duplicate ns (nt_fingerprint n) (now - cooldown_of p u * 60000)))"

definition fair :: "(string \<Rightarrow> int \<Rightarrow> string \<times> nat) \<Rightarrow> proactive_event list \<Rightarrow> int \<Rightarrow> proactive_payload \<Rightarrow> bool" where
  "fair Z l now v =
     (case v of
        PolicyPayload p \<Rightarrow> 0 \<le> py_budget p \<and> py_budget p \<le> 20
      | SubscriptionPayload u \<Rightarrow> su_id u \<noteq> [] \<and> 1 \<le> su_interval u \<and> new_or_same l u
      | NotificationPayload n \<Rightarrow>
          nt_id n \<noteq> [] \<and> map_get (notes_of l) (nt_id n) = None \<and> nt_createdAt n = now \<and>
          (delivered n \<longrightarrow> justified Z l now n)
      | HandoffPayload h \<Rightarrow> map_get (pt_handoffs (stateFromEvents l)) (hd_notification h) = None
      | _ \<Rightarrow> True)"

inductive fair_log :: "(string \<Rightarrow> int \<Rightarrow> string \<times> nat) \<Rightarrow> proactive_event list \<Rightarrow> bool" for Z where
  empty: "fair_log Z []"
| snoc: "fair_log Z l \<Longrightarrow> fair Z l (px_at e) (px_payload e) \<Longrightarrow> fair_log Z (l @ [e])"

inductive_cases fair_log_snocE: "fair_log Z (l @ [e])"

lemma stateFromEvents_Nil [simp]:
  "stateFromEvents [] =
     \<lparr>pt_policy = DEFAULT_POLICY, pt_subscriptions = [], pt_notifications = [], pt_feedback = [], pt_handoffs = []\<rparr>"
  by (simp add: stateFromEvents_def)

lemma stateFromEvents_snoc [simp]: "stateFromEvents (l @ [e]) = apply_proactive (stateFromEvents l) e"
  by (simp add: stateFromEvents_def)

lemma fair_log_prefix: "fair_log Z (l @ m) \<Longrightarrow> fair_log Z l"
  by (induction m rule: rev_induct) (auto simp: append_assoc [symmetric] simp del: append_assoc elim: fair_log_snocE)

lemma fair_log_nth:
  assumes "fair_log Z l" and "k < length l"
  shows "fair_log Z (take k l) \<and> fair Z (take k l) (px_at (l ! k)) (px_payload (l ! k))"
proof -
  have "fair_log Z (take k l @ [l ! k] @ drop (Suc k) l)" using assms by (simp add: id_take_nth_drop [symmetric])
  then have "fair_log Z ((take k l @ [l ! k]) @ drop (Suc k) l)" by simp
  then have "fair_log Z (take k l @ [l ! k])" by (rule fair_log_prefix)
  then show ?thesis by (rule fair_log_snocE) auto
qed

lemma state_maps_ok:
  "map_ok (subs_of l)" "map_ok (notes_of l)"
  by (induction l rule: rev_induct) (auto simp: apply_proactive_def split: proactive_payload.splits)

lemma subs_id: "map_get (subs_of l) i = Some u \<Longrightarrow> su_id u = i \<and> i \<noteq> []"
  by (induction l rule: rev_induct) (auto simp: apply_proactive_def split: proactive_payload.splits if_splits)

lemma notes_id: "map_get (notes_of l) i = Some n \<Longrightarrow> nt_id n = i \<and> i \<noteq> []"
  by (induction l rule: rev_induct) (auto simp: apply_proactive_def split: proactive_payload.splits if_splits)

lemma values_get:
  assumes "map_ok m" and "x \<in> set (map_values m)" and "\<And>i y. map_get m i = Some y \<Longrightarrow> f y = i"
  shows "map_get m (f x) = Some x"
proof -
  from assms(2) obtain k where "(k, x) \<in> set m" by (auto simp: map_values_def)
  then have "map_get m k = Some x" using map_get_iff [OF assms(1)] by blast
  with assms(3) show ?thesis by blast
qed

lemma subs_get: "u \<in> set (map_values (subs_of l)) \<Longrightarrow> map_get (subs_of l) (su_id u) = Some u"
  by (rule values_get [OF state_maps_ok(1)]) (use subs_id in auto)

section \<open>One active subscription per target\<close>

definition one_active :: "proactive_event list \<Rightarrow> bool" where
  "one_active l \<longleftrightarrow> (\<forall>i j u v. map_get (subs_of l) i = Some u \<longrightarrow> map_get (subs_of l) j = Some v \<longrightarrow>
     su_status u = ''active'' \<longrightarrow> su_status v = ''active'' \<longrightarrow> su_key u = su_key v \<longrightarrow> i = j)"

lemma fair_log_one_active: "fair_log Z l \<Longrightarrow> one_active l"
proof (induction rule: fair_log.induct)
  case (snoc l e)
  show ?case
  proof (cases "px_payload e")
    case (SubscriptionPayload u)
    have f: "su_id u \<noteq> []" "new_or_same l u" using snoc.hyps(2) SubscriptionPayload by (simp_all add: fair_def)
    have s: "map_get (subs_of (l @ [e])) i = (if i = su_id u then Some u else map_get (subs_of l) i)" for i
      using f(1) by (simp add: apply_proactive_def SubscriptionPayload)
    have other: "i = su_id u"
      if h: "map_get (subs_of l) i = Some v" "su_status v = ''active''" "su_status u = ''active''" "su_key v = su_key u" for i v
    proof (cases "map_get (subs_of l) (su_id u)")
      case None
      with f(2) h map_values_get [OF h(1)] show ?thesis by (auto simp: new_or_same_def active_key_def)
    next
      case (Some w)
      with f(2) h snoc.IH show ?thesis by (auto simp: new_or_same_def one_active_def)
    qed
    show ?thesis
      unfolding one_active_def s using snoc.IH other by (auto simp: one_active_def split: if_splits)
  qed (use snoc.IH in \<open>auto simp: one_active_def apply_proactive_def\<close>)
qed (simp add: one_active_def)

section \<open>The budget of a day\<close>

definition policies_of :: "proactive_event list \<Rightarrow> policy list" where
  "policies_of l = DEFAULT_POLICY # concat (map (\<lambda>e. case px_payload e of PolicyPayload p \<Rightarrow> [p] | _ \<Rightarrow> []) l)"

definition deliveries :: "(string \<Rightarrow> int \<Rightarrow> string \<times> nat) \<Rightarrow> string \<Rightarrow> string \<Rightarrow> proactive_event list \<Rightarrow> nat" where
  "deliveries Z tz date l =
     length (filter (\<lambda>e. case px_payload e of
        NotificationPayload n \<Rightarrow> delivered n \<and> fst (Z tz (px_at e)) = date | _ \<Rightarrow> False) l)"

lemma policy_in: "policy_of l \<in> set (policies_of l)"
  by (induction l rule: rev_induct) (auto simp: policies_of_def apply_proactive_def split: proactive_payload.splits)

lemma notes_values_snoc:
  "map_get m i = None \<Longrightarrow> map_values (map_set m i n) = map_values m @ [n]"
  by (induction m) (auto simp: map_get_def map_set_def map_values_def split: if_splits)

lemma deliveries_notes: "fair_log Z l \<Longrightarrow> deliveries Z tz date l = delivered_on Z tz date (map_values (notes_of l))"
proof (induction rule: fair_log.induct)
  case (snoc l e)
  then show ?case
    by (auto simp: deliveries_def delivered_on_def apply_proactive_def fair_def notes_values_snoc
        split: proactive_payload.splits)
qed (simp add: deliveries_def delivered_on_def map_values_def)

lemma fair_log_budget:
  assumes "fair_log Z l" and "\<forall>p\<in>set (policies_of l). py_timezone p = tz \<and> py_budget p \<le> B" and "0 \<le> B"
  shows "int (deliveries Z tz date l) \<le> B"
  using assms(1,2)
proof (induction rule: fair_log.induct)
  case empty
  show ?case using assms(3) by (simp add: deliveries_def)
next
  case (snoc l e)
  have pol: "\<forall>p\<in>set (policies_of l). py_timezone p = tz \<and> py_budget p \<le> B"
    using snoc.prems by (auto simp: policies_of_def)
  note IH = snoc.IH [OF pol]
  have same: ?case if "deliveries Z tz date (l @ [e]) = deliveries Z tz date l"
    using IH that by simp
  show ?case
  proof (cases "px_payload e")
    case (NotificationPayload n)
    show ?thesis
    proof (cases "delivered n \<and> fst (Z tz (px_at e)) = date")
      case True
      then have j: "justified Z l (px_at e) n" using snoc.hyps(2) NotificationPayload by (simp add: fair_def)
      have p: "py_timezone (policy_of l) = tz" "py_budget (policy_of l) \<le> B" using pol policy_in by blast+
      have "int (deliveries Z tz date l) < py_budget (policy_of l)"
        using j p(1) True by (simp add: justified_def Let_def deliveries_notes [OF snoc.hyps(1)])
      with p(2) True NotificationPayload show ?thesis by (simp add: deliveries_def)
    qed (rule same, use NotificationPayload in \<open>simp add: deliveries_def\<close>)
  qed (rule same, simp add: deliveries_def)+
qed

section \<open>The quiet hours on the circle of the day\<close>

text \<open>The minute of the day a text like \<open>22:30\<close> names.\<close>

definition digit_value :: "char \<Rightarrow> nat" where
  "digit_value c = code c - 48"

definition clock_minute :: "string \<Rightarrow> nat" where
  "clock_minute s =
     (case s of
        [a, b, c, d, e] \<Rightarrow> 600 * digit_value a + 60 * digit_value b + 10 * digit_value d + digit_value e
      | _ \<Rightarrow> 0)"

text \<open>The half-open interval from \<open>s\<close> to \<open>e\<close> on a clock of 1440 minutes.\<close>

definition on_circle :: "nat \<Rightarrow> nat \<Rightarrow> nat \<Rightarrow> bool" where
  "on_circle s e c \<longleftrightarrow> (int c - int s) mod 1440 < (int e - int s) mod 1440"

lemma on_circle_cases:
  assumes "s < 1440" and "e < 1440" and "c < 1440"
  shows "on_circle s e c \<longleftrightarrow> (if s = e then False else if s < e then s \<le> c \<and> c < e else s \<le> c \<or> c < e)"
proof -
  have m: "(int x - int s) mod 1440 = (if s \<le> x then int x - int s else int x - int s + 1440)" if "x < 1440" for x
  proof (cases "s \<le> x")
    case False
    have "(int x - int s) mod 1440 = (int x - int s + 1440) mod 1440" by simp
    also have "\<dots> = int x - int s + 1440" by (rule mod_pos_pos_trivial) (use False assms(1) in linarith)+
    finally show ?thesis using False by simp
  qed (use that in simp)
  show ?thesis unfolding on_circle_def m [OF assms(2)] m [OF assms(3)] using assms by auto
qed

lemma digit_number:
  assumes "is_digit a" and "is_digit b"
  shows "string_to_number [a, b] = Fin (of_nat (10 * digit_value a + digit_value b))"
proof -
  have ns: "\<not> is_space a" "\<not> is_space b" and sign: "a \<noteq> CHR ''-''" "a \<noteq> CHR ''+''"
    using assms by (auto simp: is_digit_def is_space_def code_def)
  have "js_trim [a, b] = [a, b]" by (simp add: js_trim_def ns)
  moreover have "radix_prefix [a, b] = None" by (simp add: radix_prefix_def)
  moreover have "drop_sign [a, b] = (False, [a, b])" using sign by (simp add: drop_sign_def)
  moreover have "unsigned_decimal [a, b] = Some (of_nat (10 * digit_value a + digit_value b))"
    using assms by (simp add: unsigned_decimal_def exponent_value_def scale10_def digit_value_def Let_def)
  moreover have "[a, b] \<noteq> ''Infinity''" by simp
  ultimately show ?thesis by (simp add: string_to_number_def Let_def)
qed

lemma clock_number:
  assumes "matches_time s"
  shows "timeMinutes (JStr s) = Inr (Fin (of_nat (clock_minute s)))" and "clock_minute s < 1440"
proof -
  from assms obtain a b c d e where s: "s = [a, b, c, d, e]"
      and h: "(a \<in> set ''01'' \<and> is_digit b) \<or> (a = CHR ''2'' \<and> b \<in> set ''0123'')"
      and c: "c = CHR '':''" and d: "d \<in> set ''012345''" and e: "is_digit e"
    by (auto simp: matches_time_def split: list.splits)
  have dg: "is_digit a" "is_digit b" "is_digit d" "is_digit e" using h d e by (auto simp: is_digit_def code_def)
  then have nc: "a \<noteq> c" "b \<noteq> c" "d \<noteq> c" "e \<noteq> c" by (auto simp: c is_digit_def code_def)
  then have "split_on c s = [[a, b], [d, e]]" by (simp add: s)
  then show "timeMinutes (JStr s) = Inr (Fin (of_nat (clock_minute s)))"
    using digit_number [OF dg(1,2)] digit_number [OF dg(3,4)]
    by (simp add: timeMinutes_def c [symmetric] clock_minute_def s)
  have "digit_value e \<le> 9" "digit_value b \<le> 9" using e dg(2) by (auto simp: digit_value_def is_digit_def)
  moreover have "digit_value d \<le> 5" using d by (auto simp: digit_value_def code_def)
  moreover have "digit_value a \<le> 1 \<or> (digit_value a = 2 \<and> digit_value b \<le> 3)"
    using h by (auto simp: digit_value_def code_def)
  ultimately show "clock_minute s < 1440" by (auto simp: clock_minute_def s)
qed

lemma quiet_hours_circle_aux:
  assumes "py_start p = JStr s" and "py_end p = JStr e" and "matches_time s" and "matches_time e"
    and "snd (Z (py_timezone p) now) < 1440"
  shows "inQuietHours Z now p = Inr (on_circle (clock_minute s) (clock_minute e) (snd (Z (py_timezone p) now)))"
  using assms(1,2) clock_number(1) [OF assms(3)] clock_number(1) [OF assms(4)]
    on_circle_cases [OF clock_number(2) [OF assms(3)] clock_number(2) [OF assms(4)] assms(5)]
  by (auto simp: inQuietHours_def num_le_def Let_def)

end
