(* ===== verification/ProactiveProperties.thy ===== *)
theory ProactiveProperties
  imports ProactiveSpec
begin

text \<open>
  Every method of the scheduler appends fair events only, over any store that keeps the
  contract of \<open>EventLog\<close>; a tick that returns leaves no subscription due.
\<close>

definition ids_in :: "(nat \<Rightarrow> string) \<Rightarrow> nat \<Rightarrow> proactive_event list \<Rightarrow> bool" where
  "ids_in U n l \<longleftrightarrow> (\<forall>e\<in>set l. case px_payload e of
      SubscriptionPayload u \<Rightarrow> su_id u \<in> U ` {..<n} | NotificationPayload x \<Rightarrow> nt_id x \<in> U ` {..<n} | _ \<Rightarrow> True)"

lemma ids_in_more: "ids_in U n l \<Longrightarrow> n \<le> m \<Longrightarrow> ids_in U m l"
  unfolding ids_in_def by (fastforce split: proactive_payload.splits)

lemma ids_in_state:
  assumes "ids_in U n l"
  shows "map_get (subs_of l) i = Some u \<Longrightarrow> i \<in> U ` {..<n}" and "map_get (notes_of l) i = Some x \<Longrightarrow> i \<in> U ` {..<n}"
  using assms
  by (induction l rule: rev_induct)
    (auto simp: ids_in_def apply_proactive_def split: proactive_payload.splits if_splits)

lemma other_adapter [simp]:
  "proactive_state_of (A\<lparr>pr_targets := ts\<rparr>) g = proactive_state_of A g"
  "proactive_state_of (A\<lparr>pr_evaluate := f\<rparr>) g = proactive_state_of A g"
  "append_event (A\<lparr>pr_targets := ts\<rparr>) ty v g = append_event A ty v g"
  "append_event (A\<lparr>pr_evaluate := f\<rparr>) ty v g = append_event A ty v g"
  by (simp_all add: proactive_state_of_def append_event_def)

lemma new_subscription_fields [simp]:
  "su_id (new_subscription i x now) = i" "su_key (new_subscription i x now) = ''local.service.health:'' @ fst x"
  "su_interval (new_subscription i x now) = fst (snd x)" "su_status (new_subscription i x now) = ''active''"
  by (cases x; simp add: new_subscription_def)+

lemma subscription_input_interval:
  "subscription_input ts input = Inr x \<Longrightarrow> 1 \<le> fst (snd x)"
  by (auto simp: subscription_input_def integer_def bindR_Inr_iff le_floor_iff split: js.splits jsnum.splits if_splits)

lemma fair_log_interval: "fair_log Z l \<Longrightarrow> map_get (subs_of l) i = Some u \<Longrightarrow> 1 \<le> su_interval u"
  by (induction arbitrary: i rule: fair_log.induct)
    (auto simp: apply_proactive_def fair_def split: proactive_payload.splits if_splits)

text \<open>Nothing is due.\<close>

definition settled :: "proactive_event list \<Rightarrow> int \<Rightarrow> bool" where
  "settled l now \<longleftrightarrow> (\<forall>i u. map_get (subs_of l) i = Some u \<longrightarrow> \<not> due u now)"

locale proactive_log = event_log P evs E errors
  for P :: "('s, proactive_event) event_store" and evs :: "'s \<Rightarrow> proactive_event list"
    and E :: "'s \<Rightarrow> 's \<Rightarrow> bool" and errors :: "string set"
begin

definition proper :: "'s proactive_runtime \<Rightarrow> bool" where
  "proper A \<longleftrightarrow> pr_store A = P \<and> inj (pr_uuid A) \<and> (\<forall>n. pr_uuid A n \<noteq> [])"

definition sound :: "'s proactive_runtime \<Rightarrow> 's service \<Rightarrow> 's service \<Rightarrow> bool" where
  "sound A g0 g \<longleftrightarrow> fair_log (pr_zone A) (evs (sv_data g)) \<and> ids_in (pr_uuid A) (sv_fresh g) (evs (sv_data g)) \<and>
     sv_now g = sv_now g0 \<and> sv_fresh g0 \<le> sv_fresh g \<and> (\<exists>m. evs (sv_data g) = evs (sv_data g0) @ m)"

abbreviation kept :: "'s proactive_runtime \<Rightarrow> 's service \<Rightarrow> ('s, 'b) proactive_result \<Rightarrow> bool" where
  "kept A g0 r \<equiv> post r (\<lambda>_. sound A g0) (sound A g0)"

lemma sound_refl: "fair_log (pr_zone A) (evs (sv_data g)) \<Longrightarrow> ids_in (pr_uuid A) (sv_fresh g) (evs (sv_data g)) \<Longrightarrow> sound A g g"
  by (simp add: sound_def)

lemma sound_fresh: "sound A g0 g \<Longrightarrow> sound A g0 (g\<lparr>sv_fresh := Suc (sv_fresh g)\<rparr>)"
  by (auto simp: sound_def intro: ids_in_more)

lemma sound_now: "sound A g0 g \<Longrightarrow> sv_now g = sv_now g0"
  by (simp add: sound_def)

lemma sound_same: "sound A g0 g \<Longrightarrow> evs d = evs (sv_data g) \<Longrightarrow> sound A g0 (g\<lparr>sv_data := d\<rparr>)"
  by (simp add: sound_def)

lemma sound_append:
  assumes "sound A g0 g" and "evs d = evs (sv_data g) @ [e]" and "fair (pr_zone A) (evs (sv_data g)) (px_at e) (px_payload e)"
    and "ids_in (pr_uuid A) (sv_fresh g) [e]"
  shows "sound A g0 (g\<lparr>sv_data := d\<rparr>)"
  using assms by (auto simp: sound_def ids_in_def intro: fair_log.snoc)

lemma unused_id:
  assumes "proper A" and "sound A g0 g" and "sv_fresh g \<le> n"
  shows "map_get (subs_of (evs (sv_data g))) (pr_uuid A n) = None" "map_get (notes_of (evs (sv_data g))) (pr_uuid A n) = None"
proof -
  have i: "pr_uuid A n \<notin> pr_uuid A ` {..<sv_fresh g}"
    using assms(1,3) by (metis imageE lessThan_iff linorder_not_le injD proper_def)
  have "ids_in (pr_uuid A) (sv_fresh g) (evs (sv_data g))" using assms(2) by (simp add: sound_def)
  with i show "map_get (subs_of (evs (sv_data g))) (pr_uuid A n) = None"
      "map_get (notes_of (evs (sv_data g))) (pr_uuid A n) = None"
    using ids_in_state by (metis option.exhaust)+
qed

section \<open>One rule per statement\<close>

lemma state_post:
  assumes "proper A" and "N (stateFromEvents (evs (sv_data g))) g" and "errors \<noteq> {} \<Longrightarrow> X g"
  shows "post (proactive_state_of A g) N X"
  unfolding proactive_state_of_def
  by (rule post_andThen) (use assms read_post [of _ g X] in \<open>simp add: proper_def\<close>)

lemma append_event_post:
  assumes "proper A" and "sound A g0 g" and "fair (pr_zone A) (evs (sv_data g)) (sv_now g) v"
    and "ids_in (pr_uuid A) (sv_fresh g) [\<lparr>px_id = [], px_type = [], px_at = 0, px_payload = v\<rparr>]"
    and N: "\<And>g' x. sound A g0 g' \<Longrightarrow> evs (sv_data g') = evs (sv_data g) @ [\<lparr>px_id = x, px_type = ty, px_at = sv_now g, px_payload = v\<rparr>] \<Longrightarrow>
        sv_fresh g' = Suc (sv_fresh g) \<Longrightarrow> N () g'"
    and X: "\<And>g'. errors \<noteq> {} \<Longrightarrow> sound A g0 g' \<Longrightarrow> X g'"
  shows "post (append_event A ty v g) N X"
  unfolding append_event_def
proof (intro post_andThen new_id_post)
  let ?g = "g\<lparr>sv_fresh := Suc (sv_fresh g)\<rparr>"
  let ?e = "\<lparr>px_id = pr_uuid A (sv_fresh g), px_type = ty, px_at = sv_now ?g, px_payload = v\<rparr>"
  have app: "sound A g0 (?g\<lparr>sv_data := d\<rparr>)" if "evs d = evs (sv_data g) @ [?e]" for d
    by (rule sound_append [OF sound_fresh [OF assms(2)], of d ?e])
      (use that assms(3) ids_in_more [OF assms(4), of "Suc (sv_fresh g)"] in \<open>auto simp: ids_in_def\<close>)
  have "post (on_store ProactiveFault (eo_appendEvent P ?e) ?g) N X"
  proof (rule append_post)
    show "N () (?g\<lparr>sv_data := d\<rparr>)" if "evs d = evs (sv_data ?g) @ [?e]" for d
      using that app [of d] N [of "?g\<lparr>sv_data := d\<rparr>"] by simp
    show "X (?g\<lparr>sv_data := d\<rparr>)" if "errors \<noteq> {}" "evs d = evs (sv_data ?g) \<or> evs d = evs (sv_data ?g) @ [?e]" for d
      using that app [of d] X [OF that(1)] sound_same [OF sound_fresh [OF assms(2)], of d] by auto
  qed
  then show "post (on_store ProactiveFault (eo_appendEvent (pr_store A) \<lparr>px_id = pr_uuid A (sv_fresh g), px_type = ty,
      px_at = sv_now g, px_payload = v\<rparr>) ?g) N X"
    using assms(1) by (simp add: proper_def)
qed

section \<open>The methods\<close>

lemma updatePolicy_kept:
  assumes "proper A" and "sound A g0 g"
  shows "kept A g0 (updatePolicy A input g)"
proof -
  have b: "0 \<le> py_budget p \<and> py_budget p \<le> 20" if "validatePolicy known R input cur now = Inr p" for known R cur now p
    using that by (auto simp: validatePolicy_def integer_def bindR_Inr_iff le_floor_iff floor_le_iff
        split: js.splits jsnum.splits if_splits)
  show ?thesis
    unfolding updatePolicy_def
    by (auto intro!: post_andThen state_post [OF assms(1)] check_post append_event_post [OF assms] assms(2) dest!: b
        simp: fair_def ids_in_def)
qed

lemma createSubscription_kept:
  assumes "proper A" and "sound A g0 g"
  shows "kept A g0 (createSubscription (A\<lparr>pr_targets := ts\<rparr>) input g)"
proof -
  have new: "kept A g0 (append_event A ty (SubscriptionPayload (new_subscription (pr_uuid A (sv_fresh g)) x (sv_now g)))
      (g\<lparr>sv_fresh := Suc (sv_fresh g)\<rparr>))"
    if "find (\<lambda>u. su_key u = ''local.service.health:'' @ fst x \<and> su_status u = ''active'')
          (map_values (subs_of (evs (sv_data g)))) = None" "1 \<le> fst (snd x)" for x ty
  proof (rule append_event_post [OF assms(1) sound_fresh [OF assms(2)]])
    show "fair (pr_zone A) (evs (sv_data (g\<lparr>sv_fresh := Suc (sv_fresh g)\<rparr>))) (sv_now (g\<lparr>sv_fresh := Suc (sv_fresh g)\<rparr>))
        (SubscriptionPayload (new_subscription (pr_uuid A (sv_fresh g)) x (sv_now g)))"
      using that unused_id(1) [OF assms order_refl] assms(1)
      by (auto simp: fair_def new_or_same_def active_key_def proper_def find_None_iff)
  qed (auto simp: ids_in_def)
  show ?thesis
    unfolding createSubscription_def
  proof (intro post_andThen check_post)
    fix x assume "subscription_input (pr_targets (A\<lparr>pr_targets := ts\<rparr>)) input = Inr x"
    then have x: "1 \<le> fst (snd x)" by (rule subscription_input_interval)
    show "post (proactive_state_of (A\<lparr>pr_targets := ts\<rparr>) g) (\<lambda>s g2. kept A g0
      (case find (\<lambda>u. su_key u = ''local.service.health:'' @ fst x \<and> su_status u = ''active'')
            (map_values (pt_subscriptions s)) of
         Some u \<Rightarrow> (g2, Inr (u, True))
       | None \<Rightarrow>
           andThen (new_id (pr_uuid (A\<lparr>pr_targets := ts\<rparr>)) g2) (\<lambda>g3 i.
           let u = new_subscription i x (sv_now g)
           in andThen (append_event (A\<lparr>pr_targets := ts\<rparr>) ''zarvis.proactive.subscription-created.v1'' (SubscriptionPayload u) g3)
              (\<lambda>g4 _. (g4, Inr (u, False)))))) (sound A g0)"
      unfolding other_adapter
      by (rule state_post [OF assms(1)])
        (use assms(2) new [OF _ x] in \<open>auto simp: new_id_def post_andThen_iff Let_def split: option.splits\<close>)
  qed (use assms(2) in simp)
qed

lemma revokeSubscription_kept:
  assumes "proper A" and "sound A g0 g"
  shows "kept A g0 (revokeSubscription A i g)"
proof -
  have rev: "kept A g0 (append_event A ty (SubscriptionPayload (u\<lparr>su_status := ''revoked'', su_updatedAt := t\<rparr>)) g)"
    if u: "map_get (subs_of (evs (sv_data g))) i = Some u" for u ty t
  proof (rule append_event_post [OF assms])
    have "fair_log (pr_zone A) (evs (sv_data g))" "ids_in (pr_uuid A) (sv_fresh g) (evs (sv_data g))"
      using assms(2) by (simp_all add: sound_def)
    with u subs_id [OF u] fair_log_interval ids_in_state(1) [OF _ u]
    show "fair (pr_zone A) (evs (sv_data g)) (sv_now g) (SubscriptionPayload (u\<lparr>su_status := ''revoked'', su_updatedAt := t\<rparr>))"
      "ids_in (pr_uuid A) (sv_fresh g) [\<lparr>px_id = [], px_type = [], px_at = 0,
         px_payload = SubscriptionPayload (u\<lparr>su_status := ''revoked'', su_updatedAt := t\<rparr>)\<rparr>]"
      by (auto simp: fair_def new_or_same_def ids_in_def)
  qed auto
  show ?thesis
    unfolding revokeSubscription_def
    by (intro post_andThen state_post [OF assms(1)])
      (use assms(2) rev in \<open>auto simp: post_andThen_iff Let_def split: option.splits\<close>)
qed

lemma recordFeedback_kept:
  assumes "proper A" and "sound A g0 g"
  shows "kept A g0 (recordFeedback A i input g)"
  unfolding recordFeedback_def
  by (auto intro!: post_andThen state_post [OF assms(1)] check_post append_event_post [OF assms]
      simp: assms(2) fair_def ids_in_def Let_def)

lemma createActionHandoff_kept:
  assumes "proper A" and "sound A g0 g"
  shows "kept A g0 (createActionHandoff A i g)"
  unfolding createActionHandoff_def
  by (auto intro!: post_andThen state_post [OF assms(1)] new_id_post append_event_post [OF assms(1) sound_fresh [OF assms(2)]]
      simp: assms(2) fair_def ids_in_def Let_def split: option.splits)

section \<open>One tick\<close>

lemma conclude_post:
  assumes "proper A" and "sound A g0 g" and u: "map_get (subs_of (evs (sv_data g))) (su_id w) = Some u"
    and w: "su_key w = su_key u" "su_status w = su_status u" "1 \<le> su_interval w"
    and N: "\<And>g'. sound A g0 g' \<Longrightarrow> policy_of (evs (sv_data g')) = policy_of (evs (sv_data g)) \<Longrightarrow>
        notes_of (evs (sv_data g')) = notes_of (evs (sv_data g)) \<Longrightarrow>
        subs_of (evs (sv_data g')) = map_set (subs_of (evs (sv_data g))) (su_id w) w \<Longrightarrow> N () g'"
    and X: "\<And>g'. sound A g0 g' \<Longrightarrow> X g'"
  shows "post (conclude A v w g) N X"
  unfolding conclude_def
proof (rule post_andThen, rule append_event_post [OF assms(1,2)])
  fix g1 x
  assume s1: "sound A g0 g1" and e1: "evs (sv_data g1) = evs (sv_data g) @
      [\<lparr>px_id = x, px_type = ''zarvis.proactive.evaluated.v1'', px_at = sv_now g, px_payload = EvaluationPayload v\<rparr>]"
  have st: "stateFromEvents (evs (sv_data g1)) = stateFromEvents (evs (sv_data g))"
    by (simp add: e1 apply_proactive_def)
  have id: "su_id w \<noteq> []" "su_id w \<in> pr_uuid A ` {..<sv_fresh g1}"
    using subs_id [OF u] ids_in_state(1) [of "pr_uuid A" "sv_fresh g1" "evs (sv_data g1)" "su_id w" u] s1 u
    by (auto simp: st sound_def)
  show "post (append_event A ''zarvis.proactive.subscription-updated.v1'' (SubscriptionPayload w) g1) N X"
  proof (rule append_event_post [OF assms(1) s1])
    show "fair (pr_zone A) (evs (sv_data g1)) (sv_now g1) (SubscriptionPayload w)"
      using id(1) w u by (simp add: fair_def new_or_same_def st)
    show "N () g2" if "sound A g0 g2" "evs (sv_data g2) = evs (sv_data g1) @
        [\<lparr>px_id = y, px_type = ''zarvis.proactive.subscription-updated.v1'', px_at = sv_now g1, px_payload = SubscriptionPayload w\<rparr>]"
      for g2 y
      by (rule N [OF that(1)]) (simp_all add: that(2) st apply_proactive_def id(1))
  qed (use id X in \<open>auto simp: ids_in_def\<close>)
qed (use X in \<open>auto simp: fair_def ids_in_def\<close>)

lemma decide_delivered:
  assumes "decide A p now ns u s = Inr ''delivered''" and "p = policy_of l" and "ns = map_values (notes_of l)"
    and "u \<in> set (map_values (subs_of l))"
  shows "justified (pr_zone A) l now (new_notification A i ''delivered'' u s now)"
  using assms
  by (auto simp: decide_def justified_def new_notification_def Let_def bindR_Inr_iff intro!: bexI [of _ u] split: if_splits)

text \<open>What is true between two turns of the loop.\<close>

definition at_turn :: "'s proactive_runtime \<Rightarrow> policy \<Rightarrow> notification list \<Rightarrow> 's service \<Rightarrow> 's service \<Rightarrow> bool" where
  "at_turn A p ns g0 g \<longleftrightarrow> sound A g0 g \<and> p = policy_of (evs (sv_data g)) \<and> ns = map_values (notes_of (evs (sv_data g)))"

lemma evaluate_one_post:
  assumes "proper A" and "at_turn A p ns g0 g" and u: "map_get (subs_of (evs (sv_data g))) (su_id u) = Some u"
  shows "post (evaluate_one A p ns u g)
    (\<lambda>(v, ns1) g1. at_turn A p ns1 g0 g1 \<and> (\<exists>w. su_id w = su_id u \<and> \<not> due w (sv_now g) \<and>
        subs_of (evs (sv_data g1)) = map_set (subs_of (evs (sv_data g))) (su_id u) w))
    (sound A g0)"
proof -
  have s: "sound A g0 g" and p: "p = policy_of (evs (sv_data g))" and ns: "ns = map_values (notes_of (evs (sv_data g)))"
    using assms(2) by (simp_all add: at_turn_def)
  have int: "1 \<le> su_interval u" using s fair_log_interval [OF _ u] unfolding sound_def by blast
  have fin: "post (conclude A v w g1) (\<lambda>_ g2. at_turn A p ns1 g0 g2 \<and>
        (\<exists>w. su_id w = su_id u \<and> \<not> due w (sv_now g) \<and>
          subs_of (evs (sv_data g2)) = map_set (subs_of (evs (sv_data g))) (su_id u) w)) (sound A g0)"
    if "sound A g0 g1" "subs_of (evs (sv_data g1)) = subs_of (evs (sv_data g))" "policy_of (evs (sv_data g1)) = p"
      "w = rescheduled u (sv_now g) \<or> w = (rescheduled u (sv_now g))\<lparr>su_lastStatus := x\<rparr>"
      "map_values (notes_of (evs (sv_data g1))) = ns1" for g1 v w x ns1
  proof (rule conclude_post [OF assms(1) that(1)])
    have w: "su_id w = su_id u" "\<not> due w (sv_now g)" using that(4) int by (auto simp: rescheduled_def due_def)
    show "map_get (subs_of (evs (sv_data g1))) (su_id w) = Some u" using u that(2) w by simp
    fix g2
    assume "sound A g0 g2" "policy_of (evs (sv_data g2)) = policy_of (evs (sv_data g1))"
      "notes_of (evs (sv_data g2)) = notes_of (evs (sv_data g1))"
      "subs_of (evs (sv_data g2)) = map_set (subs_of (evs (sv_data g1))) (su_id w) w"
    with that w show "at_turn A p ns1 g0 g2 \<and>
        (\<exists>w. su_id w = su_id u \<and> \<not> due w (sv_now g) \<and>
          subs_of (evs (sv_data g2)) = map_set (subs_of (evs (sv_data g))) (su_id u) w)"
      by (auto simp: at_turn_def)
  qed (use that(4) int in \<open>auto simp: rescheduled_def\<close>)
  let ?now = "sv_now g"
  have ran: "post (evaluate_signal A p ns u sg g) (\<lambda>(v, ns1) g1. at_turn A p ns1 g0 g1 \<and>
      (\<exists>w. su_id w = su_id u \<and> \<not> due w ?now \<and> subs_of (evs (sv_data g1)) = map_set (subs_of (evs (sv_data g))) (su_id u) w))
    (sound A g0)" for sg
    unfolding evaluate_signal_def Let_def
  proof (intro post_andThen new_id_post check_post)
    let ?g4 = "g\<lparr>sv_fresh := Suc (sv_fresh g)\<rparr>"
    fix d assume d: "decide A p ?now ns u sg = Inr d"
    have posted: "post (if shouldTrigger u sg then
             andThen (new_id (pr_uuid A) ?g4) (\<lambda>g5 i.
             andThen (append_event A ''zarvis.proactive.notification-decided.v1''
                (NotificationPayload (new_notification A i d u sg ?now)) g5)
                  (\<lambda>g6 _. (g6, Inr (Some (new_notification A i d u sg ?now)))))
           else (?g4, Inr None))
        (\<lambda>n g7. sound A g0 g7 \<and> subs_of (evs (sv_data g7)) = subs_of (evs (sv_data g)) \<and> policy_of (evs (sv_data g7)) = p \<and>
           map_values (notes_of (evs (sv_data g7))) = (case n of None \<Rightarrow> ns | Some x \<Rightarrow> ns @ [x])) (sound A g0)"
    proof (cases "shouldTrigger u sg")
      case True
      let ?n = "new_notification A (pr_uuid A (Suc (sv_fresh g))) d u sg ?now" and ?g5 = "?g4\<lparr>sv_fresh := Suc (Suc (sv_fresh g))\<rparr>"
      have id: "nt_id ?n = pr_uuid A (Suc (sv_fresh g))" "nt_createdAt ?n = ?now" "delivered ?n \<Longrightarrow> d = ''delivered''"
        by (simp_all add: new_notification_def delivered_def)
      note free = unused_id(2) [OF assms(1) s, of "Suc (sv_fresh g)"]
      have "u \<in> set (map_values (subs_of (evs (sv_data g))))" using u map_values_get by metis
      then have "delivered ?n \<Longrightarrow> justified (pr_zone A) (evs (sv_data g)) ?now ?n"
        using decide_delivered [OF _ p ns] d id(3) by metis
      with id free assms(1) have "fair (pr_zone A) (evs (sv_data ?g5)) (sv_now ?g5) (NotificationPayload ?n)"
        by (simp add: fair_def proper_def)
      then have "post (append_event A ''zarvis.proactive.notification-decided.v1'' (NotificationPayload ?n) ?g5)
          (\<lambda>_ g7. sound A g0 g7 \<and> subs_of (evs (sv_data g7)) = subs_of (evs (sv_data g)) \<and> policy_of (evs (sv_data g7)) = p \<and>
             map_values (notes_of (evs (sv_data g7))) = ns @ [?n]) (sound A g0)"
        using sound_fresh [OF sound_fresh [OF s]] id(1) assms(1) free
        by (intro append_event_post [OF assms(1)])
          (auto simp: ids_in_def apply_proactive_def p ns proper_def notes_values_snoc)
      with True show ?thesis by (simp add: new_id_def post_andThen_iff)
    qed (use s sound_fresh [OF s] p ns in simp)
    show "post (if shouldTrigger u sg then
             andThen (new_id (pr_uuid A) ?g4) (\<lambda>g5 i.
             andThen (append_event A ''zarvis.proactive.notification-decided.v1''
                (NotificationPayload (new_notification A i d u sg ?now)) g5)
                  (\<lambda>g6 _. (g6, Inr (Some (new_notification A i d u sg ?now)))))
           else (?g4, Inr None))
        (\<lambda>n g7. post (andThen (conclude A \<lparr>vn_subscription = su_id u, vn_signal = Some sg, vn_decision = d,
              vn_notification = map_option nt_id n, vn_at = ?now\<rparr>
            ((rescheduled u ?now)\<lparr>su_lastStatus := Some (sg_status sg)\<rparr>) g7)
          (\<lambda>g8 _. (g8, Inr (\<lparr>vn_subscription = su_id u, vn_signal = Some sg, vn_decision = d,
              vn_notification = map_option nt_id n, vn_at = ?now\<rparr>, case n of None \<Rightarrow> ns | Some x \<Rightarrow> ns @ [x]))))
            (\<lambda>(v, ns1) g1. at_turn A p ns1 g0 g1 \<and> (\<exists>w. su_id w = su_id u \<and> \<not> due w ?now \<and>
                subs_of (evs (sv_data g1)) = map_set (subs_of (evs (sv_data g))) (su_id u) w)) (sound A g0)) (sound A g0)"
      by (rule post_mono [OF posted], unfold post_andThen_iff post_simps prod.case, elim conjE)
        (rule fin [OF _ _ _ disjI2 [OF refl]], assumption+)
  qed (use sound_fresh [OF s] in simp_all)
  show ?thesis
    unfolding evaluate_one_def Let_def
    using s ran fin [OF s refl p [symmetric] _ ns [symmetric]]
    by (auto intro!: check_post simp: post_andThen_iff)
qed

lemma tick_loop_post:
  assumes "proper A" and "at_turn A p ns g0 g" and "distinct (map su_id us)"
    and "\<And>u. u \<in> set us \<Longrightarrow> map_get (subs_of (evs (sv_data g))) (su_id u) = Some u"
    and "\<And>i u. map_get (subs_of (evs (sv_data g))) i = Some u \<Longrightarrow> i \<notin> su_id ` set us \<Longrightarrow> \<not> due u (sv_now g0)"
  shows "post (tick_loop A p ns vs us g) (\<lambda>_ g'. sound A g0 g' \<and> settled (evs (sv_data g')) (sv_now g0)) (sound A g0)"
  using assms(2-)
proof (induction us arbitrary: ns vs g)
  case Nil
  then show ?case by (simp add: at_turn_def settled_def)
next
  case (Cons u us)
  have now: "sv_now g = sv_now g0" using Cons.prems(1) sound_now unfolding at_turn_def by blast
  have u: "map_get (subs_of (evs (sv_data g))) (su_id u) = Some u" using Cons.prems(3) by simp
  show ?case
  proof (cases "due u (sv_now g)")
    case False
    have "\<not> due v (sv_now g0)" if "map_get (subs_of (evs (sv_data g))) i = Some v" "i \<notin> su_id ` set us" for i v
      using that False u now Cons.prems(4) [of i v] by (cases "i = su_id u") auto
    with False Cons.prems show ?thesis by (simp add: Cons.IH)
  next
    case True
    have step: "post (tick_loop A p ns1 (vs @ [v]) us g1)
        (\<lambda>_ g'. sound A g0 g' \<and> settled (evs (sv_data g')) (sv_now g0)) (sound A g0)"
      if t: "at_turn A p ns1 g0 g1" and w: "su_id w = su_id u" "\<not> due w (sv_now g)"
        "subs_of (evs (sv_data g1)) = map_set (subs_of (evs (sv_data g))) (su_id u) w" for v ns1 g1 w
    proof (rule Cons.IH [OF t])
      show "map_get (subs_of (evs (sv_data g1))) (su_id x) = Some x" if "x \<in> set us" for x
      proof -
        have "su_id x \<in> su_id ` set us" using that by simp
        with Cons.prems(2) have "su_id x \<noteq> su_id u" by auto
        with that Cons.prems(3) show ?thesis by (simp add: w(3))
      qed
      show "\<not> due x (sv_now g0)" if "map_get (subs_of (evs (sv_data g1))) i = Some x" "i \<notin> su_id ` set us" for i x
        using that w(2) now Cons.prems(4) [of i x] by (auto simp: w(3) split: if_splits)
    qed (use Cons.prems(2) in simp)
    have "post (evaluate_one A p ns u g)
        (\<lambda>x g1. post ((\<lambda>(v, ns1). tick_loop A p ns1 (vs @ [v]) us g1) x)
          (\<lambda>_ g'. sound A g0 g' \<and> settled (evs (sv_data g')) (sv_now g0)) (sound A g0)) (sound A g0)"
      by (rule post_mono [OF evaluate_one_post [OF assms(1) Cons.prems(1) u]]) (use step in auto)
    with True show ?thesis by (simp add: post_andThen_iff)
  qed
qed

lemma tick_post:
  assumes "proper A" and "sound A g0 g"
  shows "post (proactive_tick A g) (\<lambda>_ g'. sound A g0 g' \<and> settled (evs (sv_data g')) (sv_now g0)) (sound A g0)"
  unfolding proactive_tick_def
proof (intro post_andThen state_post [OF assms(1)] tick_loop_post)
  show "distinct (map su_id (map_values (subs_of (evs (sv_data g)))))"
  proof -
    have "map su_id (map_values (subs_of l)) = map fst (subs_of l)" for l
      using subs_id map_get_iff [OF state_maps_ok(1)] by (fastforce simp: map_values_def)
    with state_maps_ok(1) show ?thesis by (metis map_ok_def)
  qed
  show "\<not> due u (sv_now g0)"
    if "map_get (subs_of (evs (sv_data g))) i = Some u" "i \<notin> su_id ` set (map_values (subs_of (evs (sv_data g))))" for i u
    using that subs_id [OF that(1)] map_values_get [OF that(1)] by force
qed (use assms subs_get in \<open>auto simp: at_turn_def\<close>)

lemma idle_tick:
  assumes "proper A" and "settled (evs (sv_data g)) (sv_now g)" and "\<not> isl (eo_readEvents P (sv_data g))"
  shows "proactive_tick A g = (g, Inr [])"
proof -
  have idle: "tick_loop A p ns vs us g = (g, Inr vs)" if "\<And>u. u \<in> set us \<Longrightarrow> \<not> due u (sv_now g)" for p ns vs us
    using that by (induction us) auto
  obtain l where "eo_readEvents P (sv_data g) = Inr l" using assms(3) by (cases "eo_readEvents P (sv_data g)") auto
  with events have "eo_readEvents (pr_store A) (sv_data g) = Inr (evs (sv_data g))" using assms(1) by (simp add: proper_def)
  then have "proactive_state_of A g = (g, Inr (stateFromEvents (evs (sv_data g))))"
    by (simp add: proactive_state_of_def from_store_def)
  then show ?thesis
    using idle assms(2) subs_get by (fastforce simp: proactive_tick_def settled_def)
qed

section \<open>Every run of the service\<close>

lemma other_answers [simp]: "proper (A\<lparr>pr_evaluate := f\<rparr>) = proper A" "sound (A\<lparr>pr_evaluate := f\<rparr>) = sound A"
  by (simp_all add: proper_def sound_def fun_eq_iff)

lemma step_sound:
  assumes "proper A" and "ps_step A E g g'"
    and "fair_log (pr_zone A) (evs (sv_data g))" and "ids_in (pr_uuid A) (sv_fresh g) (evs (sv_data g))"
  shows "fair_log (pr_zone A) (evs (sv_data g')) \<and> ids_in (pr_uuid A) (sv_fresh g') (evs (sv_data g'))"
proof -
  note r = sound_refl [OF assms(3,4)]
  have k: "sound A g (fst r)" if "kept A g r" for r :: "('s, 'c) proactive_result"
    using post_fst [OF that] .
  have t: "kept A g (proactive_tick (A\<lparr>pr_evaluate := f\<rparr>) g)" for f
    using post_mono [OF tick_post [of "A\<lparr>pr_evaluate := f\<rparr>" g g]] assms(1) r by simp
  note methods = updatePolicy_kept [OF assms(1) r, THEN k] createSubscription_kept [OF assms(1) r, THEN k]
    revokeSubscription_kept [OF assms(1) r, THEN k] t [THEN k] recordFeedback_kept [OF assms(1) r, THEN k]
    createActionHandoff_kept [OF assms(1) r, THEN k]
  from assms(2) have "sound A g g' \<or> (sv_fresh g' = sv_fresh g \<and> evs (sv_data g') = evs (sv_data g))"
  proof (cases rule: ps_step.cases)
    case (environment d)
    with env show ?thesis by simp
  qed (simp_all add: methods)
  then show ?thesis using assms(3,4) by (auto simp: sound_def)
qed

lemma reachable_sound:
  assumes "proper A" and "ps_reachable A E s0 g" and "evs s0 = []"
  shows "fair_log (pr_zone A) (evs (sv_data g)) \<and> ids_in (pr_uuid A) (sv_fresh g) (evs (sv_data g))"
  using assms(2)
proof (induction rule: ps_reachable.induct)
  case (start t)
  then show ?case using assms(3) by (simp add: ids_in_def fair_log.empty)
next
  case (step g g')
  with step_sound [OF assms(1) step.hyps(2)] show ?case by blast
qed

end

interpretation plog_runtime: proactive_log file_event_store lf_events log_file_change "{''disk''}"
  by unfold_locales

interpretation pmem_runtime: proactive_log memory_event_store "\<lambda>d. d" "\<lambda>d d'. d' = d" "{}"
  by unfold_locales

end
