(* ===== verification/ProactiveGuarantees.thy ===== *)
theory ProactiveGuarantees
  imports ProactiveProperties
begin

text \<open>
  What the scheduler guarantees on its file store, whatever append fails and whatever the
  adapter answers, with a concrete run; and two inputs that stop it.
\<close>

definition proactive_supply :: "(nat \<Rightarrow> string) \<Rightarrow> bool" where
  "proactive_supply U \<longleftrightarrow> inj U \<and> (\<forall>n. U n \<noteq> [])"

lemma disk_runtime_proper:
  "pr_store A = file_event_store \<Longrightarrow> proactive_supply (pr_uuid A) \<Longrightarrow> plog_runtime.proper A"
  by (simp add: plog_runtime.proper_def proactive_supply_def)

lemma disk_fair:
  assumes "pr_store A = file_event_store" and "proactive_supply (pr_uuid A)" and "ps_reachable A log_file_change empty_log g"
  shows "fair_log (pr_zone A) (lf_events (sv_data g))" and "ids_in (pr_uuid A) (sv_fresh g) (lf_events (sv_data g))"
  using plog_runtime.reachable_sound [OF disk_runtime_proper [OF assms(1,2)] assms(3)] by (simp_all add: empty_log_def)

section \<open>Deliveries\<close>

text \<open>
  C20: every notification the log shows as delivered was allowed when it was decided: its
  confidence reached the threshold of the policy then in force, the time was outside the quiet
  hours, the deliveries of that local day were below the budget, and none with the same
  fingerprint fell into the cooldown of its subscription.
\<close>

theorem deliveries_justified:
  assumes "pr_store A = file_event_store" and "proactive_supply (pr_uuid A)" and "ps_reachable A log_file_change empty_log g"
    and "k < length (lf_events (sv_data g))" and "px_payload (lf_events (sv_data g) ! k) = NotificationPayload n"
    and "delivered n"
  shows "justified (pr_zone A) (take k (lf_events (sv_data g))) (nt_createdAt n) n"
  using fair_log_nth [OF disk_fair(1) [OF assms(1-3)] assms(4)] assms(5,6) by (auto simp: fair_def)

text \<open>
  C21: as long as every policy that was in force has the time zone \<open>tz\<close> and a budget of at
  most \<open>B\<close>, no day of that zone sees more than \<open>B\<close> deliveries.
\<close>

theorem daily_budget:
  assumes "pr_store A = file_event_store" and "proactive_supply (pr_uuid A)" and "ps_reachable A log_file_change empty_log g"
    and "\<forall>p\<in>set (policies_of (lf_events (sv_data g))). py_timezone p = tz \<and> py_budget p \<le> B" and "0 \<le> B"
  shows "int (deliveries (pr_zone A) tz date (lf_events (sv_data g))) \<le> B"
  by (rule fair_log_budget [OF disk_fair(1) [OF assms(1-3)] assms(4,5)])

text \<open>
  For texts the validation accepts, the quiet hours are the half-open interval from the
  start to the end on the clock, also when it passes midnight, and empty when both agree.
\<close>

theorem quiet_hours_circle:
  assumes "py_start p = JStr s" and "py_end p = JStr e" and "matches_time s" and "matches_time e"
    and "snd (Z (py_timezone p) now) < 1440"
  shows "inQuietHours Z now p = Inr (on_circle (clock_minute s) (clock_minute e) (snd (Z (py_timezone p) now)))"
  by (rule quiet_hours_circle_aux) (fact assms)+

section \<open>Ticks\<close>

text \<open>
  C22: a tick that returns has served every subscription: none is due any more, and a second
  tick at the same time, whatever the adapter would answer, evaluates nothing and writes
  nothing.
\<close>

theorem tick_settles:
  assumes "pr_store A = file_event_store" and "proactive_supply (pr_uuid A)" and "ps_reachable A log_file_change empty_log g"
    and "proactive_tick A g = (g1, Inr vs)" and "lf_accessError (sv_data g1) = None"
  shows "settled (lf_events (sv_data g1)) (sv_now g) \<and> proactive_tick (A\<lparr>pr_evaluate := f\<rparr>) g1 = (g1, Inr [])"
proof -
  note P = disk_runtime_proper [OF assms(1,2)]
  have "plog_runtime.sound A g g" by (rule plog_runtime.sound_refl [OF disk_fair [OF assms(1-3)]])
  note t = plog_runtime.tick_post [OF P this, THEN post_Inr, OF assms(4)]
  moreover have "proactive_tick (A\<lparr>pr_evaluate := f\<rparr>) g1 = (g1, Inr [])"
    by (rule plog_runtime.idle_tick)
      (use t P assms(5) plog_runtime.sound_now in \<open>auto simp: log_readEvents_def\<close>)
  ultimately show ?thesis by blast
qed

text \<open>A target has at most one active subscription.\<close>

theorem one_active_subscription:
  assumes "pr_store A = file_event_store" and "proactive_supply (pr_uuid A)" and "ps_reachable A log_file_change empty_log g"
  shows "one_active (lf_events (sv_data g))"
  by (rule fair_log_one_active [OF disk_fair(1) [OF assms]])

section \<open>The health adapter\<close>

text \<open>Whatever the endpoint answers, the adapter's signal passes the validation with full confidence.\<close>

theorem health_signal_valid:
  assumes "health_evaluate registry F u now = Inr raw" and "length (su_target u) \<le> 64"
  shows "\<exists>s. validateSignal R raw (su_id u) i = Inr s \<and> sg_confidence s = 1 \<and>
    (sg_action s = JNull \<longleftrightarrow> sg_status s = ''healthy'')"
  using assms
  by (auto simp: health_evaluate_def validateSignal_def is_plain_object_def bounded_number_def truthy_def attention_def
      Let_def split: option.splits)

section \<open>What stops a tick\<close>

text \<open>A time given as an array of one text passes the validation, and asking for the quiet hours then throws.\<close>

theorem array_time_breaks_tick:
  assumes "known ''Asia/Bangkok''"
  shows "\<exists>p. validatePolicy known R (JObj [(''quiet_hours_start'', JArr [JStr ''22:00''])]) DEFAULT_POLICY now = Inr p \<and>
    inQuietHours Z t p = Inl (ProactiveFault ''value.split is not a function'')"
  using assms
  by (simp add: validatePolicy_def assertTrustedInput_def is_plain_object_def truthy_def coalesce_def is_nullish_def
      validateTimezone_def validateTime_def matches_time_def is_digit_def code_def integer_def bounded_number_def
      DEFAULT_POLICY_def rat_is_int_def inQuietHours_def timeMinutes_def Let_def)

text \<open>A subscription whose target left the registry ends every tick before the ones after it.\<close>

theorem lost_target_blocks_tick:
  assumes "due u (sv_now g)" and "\<not> missed u (sv_now g)" and "pr_evaluate A = health_evaluate registry F"
    and "map_of registry (su_target u) = None"
  shows "tick_loop A p ns vs (u # us) g = (g, Inl (ProactiveFault ''Target is not allowlisted''))"
  using assms by (simp add: evaluate_one_def health_evaluate_def Let_def)

section \<open>A concrete run\<close>

lemma marks_supply: "proactive_supply tally"
  by (simp add: proactive_supply_def inj_tally)

text \<open>It is always noon, and the one target is down.\<close>

definition noon_runtime :: "proactive_event log_file proactive_runtime" where
  "noon_runtime =
     \<lparr>pr_store = file_event_store, pr_uuid = tally, pr_targets = [''gw''],
      pr_evaluate = health_evaluate [(''gw'', ''url'')] (\<lambda>_. None), pr_zone = (\<lambda>_ _. (''day'', 720)),
      pr_zoneKnown = (\<lambda>_. True), pr_hash = (\<lambda>_. ''h''), pr_ratText = (\<lambda>_. [])\<rparr>"

definition noon_input :: js where
  "noon_input = JObj [(''check'', JStr ''local.service.health''), (''target'', JStr ''gw''),
     (''interval_minutes'', JNum (Fin 5))]"

definition noon_start :: "proactive_event log_file service" where
  "noon_start = \<lparr>sv_now = 0, sv_fresh = 0, sv_data = empty_log\<rparr>"

definition noon_subscribed :: "proactive_event log_file service" where
  "noon_subscribed = fst (createSubscription noon_runtime noon_input noon_start)"

definition noon_ticked :: "proactive_event log_file service" where
  "noon_ticked = fst (proactive_tick noon_runtime noon_subscribed)"

lemma noon_fields [simp]:
  "pr_store noon_runtime = file_event_store" "pr_uuid noon_runtime = tally" "pr_targets noon_runtime = [''gw'']"
  "pr_zone noon_runtime = (\<lambda>_ _. (''day'', 720))" "pr_hash noon_runtime = (\<lambda>_. ''h'')"
  by (simp_all add: noon_runtime_def)

lemma noon_reachable:
  "ps_reachable noon_runtime log_file_change empty_log noon_subscribed"
  "ps_reachable noon_runtime log_file_change empty_log noon_ticked"
proof -
  have a: "noon_runtime = noon_runtime\<lparr>pr_targets := pr_targets noon_runtime\<rparr>"
    "noon_runtime = noon_runtime\<lparr>pr_evaluate := pr_evaluate noon_runtime\<rparr>" by simp_all
  have "ps_reachable noon_runtime log_file_change empty_log noon_start"
    unfolding noon_start_def by (rule ps_reachable.start)
  then show s: "ps_reachable noon_runtime log_file_change empty_log noon_subscribed"
    unfolding noon_subscribed_def by (rule ps_reachable.step) (subst (2) a(1), rule ps_step.subscribe)
  then show "ps_reachable noon_runtime log_file_change empty_log noon_ticked"
    unfolding noon_ticked_def by (rule ps_reachable.step) (subst (2) a(2), rule ps_step.tick)
qed

lemma noon_input_valid: "subscription_input [''gw''] noon_input = Inr (''gw'', 5, ''unhealthy'', ''run_once'', None)"
proof -
  have "rat_is_int 5" "\<lfloor>5::rat\<rfloor> = 5" by (simp_all add: rat_is_int_def)
  then show ?thesis
    by (simp add: subscription_input_def noon_input_def assertTrustedInput_def is_plain_object_def truthy_def
        integer_def one_of_def coalesce_def is_nullish_def)
qed

definition gw_subscription :: subscription where
  "gw_subscription = new_subscription (tally 0) (''gw'', 5, ''unhealthy'', ''run_once'', None) 0"

lemma noon_subscribed_eq:
  "noon_subscribed = \<lparr>sv_now = 0, sv_fresh = 2, sv_data = empty_log\<lparr>lf_events :=
     [\<lparr>px_id = tally 1, px_type = ''zarvis.proactive.subscription-created.v1'', px_at = 0,
       px_payload = SubscriptionPayload gw_subscription\<rparr>]\<rparr>\<rparr>"
  by (simp add: noon_subscribed_def createSubscription_def noon_input_valid noon_start_def proactive_state_of_def
      from_store_def log_readEvents_def empty_log_def map_values_def new_id_def append_event_def on_store_def
      log_appendEvent_def gw_subscription_def Let_def numeral_eq_Suc)

definition gw_signal :: signal where
  "gw_signal = \<lparr>sg_id = tally 2, sg_subscription = tally 0, sg_key = ''health:gw'', sg_status = ''unhealthy'',
     sg_severity = ''high'', sg_confidence = 1, sg_summary = ''gw health check failed'', sg_url = ''url'',
     sg_evidence = JObj [(''reachable'', JBool False), (''http_status'', JNull), (''checked_at'', JStr (to_iso 0))],
     sg_action = attention ''gw''\<rparr>"

definition gw_notification :: notification where
  "gw_notification = new_notification noon_runtime (tally 3) ''delivered'' gw_subscription gw_signal 0"

definition gw_evaluation :: evaluation where
  "gw_evaluation = \<lparr>vn_subscription = tally 0, vn_signal = Some gw_signal, vn_decision = ''delivered'',
     vn_notification = Some (tally 3), vn_at = 0\<rparr>"

lemma noon_signal:
  "\<exists>raw. pr_evaluate noon_runtime gw_subscription 0 = Inr raw \<and>
     validateSignal (pr_ratText noon_runtime) raw (tally 0) (tally 2) = Inr gw_signal"
  by (simp add: noon_runtime_def health_evaluate_def gw_subscription_def new_subscription_def validateSignal_def
      is_plain_object_def bounded_number_def truthy_def attention_def gw_signal_def coalesce_def is_nullish_def)

lemma noon_decision: "decide noon_runtime DEFAULT_POLICY 0 [] gw_subscription gw_signal = Inr ''delivered''"
proof -
  have "inQuietHours (\<lambda>_ _. (''day'', 720)) 0 DEFAULT_POLICY
      = Inr (on_circle (clock_minute ''22:00'') (clock_minute ''07:00'') 720)"
    by (rule quiet_hours_circle_aux [THEN trans]) (simp_all add: DEFAULT_POLICY_def matches_time_def is_digit_def code_def)
  also have "\<dots> = Inr False" by (simp add: clock_minute_def digit_value_def code_def on_circle_def)
  finally show ?thesis
    by (simp add: decide_def shouldTrigger_def gw_subscription_def new_subscription_def gw_signal_def DEFAULT_POLICY_def
        delivered_on_def duplicate_def)
qed

definition noon_log :: "proactive_event list" where
  "noon_log =
     [\<lparr>px_id = tally 1, px_type = ''zarvis.proactive.subscription-created.v1'', px_at = 0,
       px_payload = SubscriptionPayload gw_subscription\<rparr>,
      \<lparr>px_id = tally 4, px_type = ''zarvis.proactive.notification-decided.v1'', px_at = 0,
       px_payload = NotificationPayload gw_notification\<rparr>,
      \<lparr>px_id = tally 5, px_type = ''zarvis.proactive.evaluated.v1'', px_at = 0, px_payload = EvaluationPayload gw_evaluation\<rparr>,
      \<lparr>px_id = tally 6, px_type = ''zarvis.proactive.subscription-updated.v1'', px_at = 0,
       px_payload = SubscriptionPayload ((rescheduled gw_subscription 0)\<lparr>su_lastStatus := Some ''unhealthy''\<rparr>)\<rparr>]"

lemma noon_tick:
  "proactive_tick noon_runtime noon_subscribed = (noon_ticked, Inr [gw_evaluation])"
  "noon_ticked = \<lparr>sv_now = 0, sv_fresh = 7, sv_data = empty_log\<lparr>lf_events := noon_log\<rparr>\<rparr>"
proof -
  obtain raw where raw: "pr_evaluate noon_runtime gw_subscription 0 = Inr raw"
      "validateSignal (pr_ratText noon_runtime) raw (tally 0) (tally 2) = Inr gw_signal"
    using noon_signal by blast
  have u: "due gw_subscription 0" "\<not> missed gw_subscription 0" "su_id gw_subscription = tally 0"
      "shouldTrigger gw_subscription gw_signal" "sg_status gw_signal = ''unhealthy''" "nt_id gw_notification = tally 3"
    by (simp_all add: gw_subscription_def new_subscription_def due_def missed_def shouldTrigger_def gw_signal_def
        gw_notification_def new_notification_def)
  have n: "new_notification noon_runtime (tally (Suc (Suc (Suc 0)))) ''delivered'' gw_subscription gw_signal 0 = gw_notification"
    by (simp add: gw_notification_def numeral_3_eq_3)
  have "proactive_tick noon_runtime noon_subscribed =
      (\<lparr>sv_now = 0, sv_fresh = 7, sv_data = empty_log\<lparr>lf_events := noon_log\<rparr>\<rparr>, Inr [gw_evaluation])"
    using raw u noon_decision
    by (simp add: proactive_tick_def noon_subscribed_eq proactive_state_of_def from_store_def log_readEvents_def
        empty_log_def stateFromEvents_def apply_proactive_def map_set_def map_values_def evaluate_one_def
        evaluate_signal_def conclude_def new_id_def append_event_def on_store_def log_appendEvent_def Let_def
        noon_log_def gw_evaluation_def n numeral_eq_Suc)
  then show "proactive_tick noon_runtime noon_subscribed = (noon_ticked, Inr [gw_evaluation])"
    "noon_ticked = \<lparr>sv_now = 0, sv_fresh = 7, sv_data = empty_log\<lparr>lf_events := noon_log\<rparr>\<rparr>"
    by (simp_all add: noon_ticked_def)
qed

lemma noon_basics: "pr_store noon_runtime = file_event_store" "proactive_supply (pr_uuid noon_runtime)"
  by (simp_all add: marks_supply)

theorem deliveries_justified_witness: "justified (\<lambda>_ _. (''day'', 720)) (take 1 noon_log) 0 gw_notification"
  using deliveries_justified [OF noon_basics noon_reachable(2), of 1 gw_notification]
  by (simp add: noon_tick(2) noon_log_def) (simp add: gw_notification_def new_notification_def delivered_def)

theorem daily_budget_witness:
  "int (deliveries (\<lambda>_ _. (''day'', 720)) ''Asia/Bangkok'' ''day'' noon_log) \<le> 5 \<and>
   deliveries (\<lambda>_ _. (''day'', 720)) ''Asia/Bangkok'' ''day'' noon_log = 1"
proof
  have "\<forall>p\<in>set (policies_of (lf_events (sv_data noon_ticked))). py_timezone p = ''Asia/Bangkok'' \<and> py_budget p \<le> 5"
    by (simp add: noon_tick(2) noon_log_def policies_of_def DEFAULT_POLICY_def)
  from daily_budget [OF noon_basics noon_reachable(2) this]
  show "int (deliveries (\<lambda>_ _. (''day'', 720)) ''Asia/Bangkok'' ''day'' noon_log) \<le> 5" by (simp add: noon_tick(2))
  show "deliveries (\<lambda>_ _. (''day'', 720)) ''Asia/Bangkok'' ''day'' noon_log = 1"
    by (simp add: deliveries_def noon_log_def delivered_def gw_notification_def new_notification_def)
qed

theorem tick_settles_witness:
  "settled noon_log 0 \<and> proactive_tick (noon_runtime\<lparr>pr_evaluate := \<lambda>_ _. Inl ''down''\<rparr>) noon_ticked = (noon_ticked, Inr [])"
  using tick_settles [OF noon_basics noon_reachable(1) noon_tick(1), of "\<lambda>_ _. Inl ''down''"]
  by (simp add: noon_tick(2) noon_subscribed_eq empty_log_def)

theorem quiet_hours_circle_witness:
  "inQuietHours (\<lambda>_ _. (''day'', 1380)) 0 DEFAULT_POLICY = Inr (on_circle (clock_minute ''22:00'') (clock_minute ''07:00'') 1380) \<and>
   on_circle (clock_minute ''22:00'') (clock_minute ''07:00'') 1380"
proof
  have m: "matches_time ''22:00''" "matches_time ''07:00''" by (simp_all add: matches_time_def is_digit_def code_def)
  have f: "py_start DEFAULT_POLICY = JStr ''22:00''" "py_end DEFAULT_POLICY = JStr ''07:00''" by (simp_all add: DEFAULT_POLICY_def)
  show "inQuietHours (\<lambda>_ _. (''day'', 1380)) 0 DEFAULT_POLICY = Inr (on_circle (clock_minute ''22:00'') (clock_minute ''07:00'') 1380)"
    using quiet_hours_circle [where Z = "\<lambda>_ _. (''day'', 1380)" and now = 0, OF f m] by simp
  show "on_circle (clock_minute ''22:00'') (clock_minute ''07:00'') 1380"
    by (simp add: clock_minute_def digit_value_def code_def on_circle_def)
qed

end
