(* ===== verification/Regex.thy ===== *)
theory Regex
  imports JsValue
begin

text \<open>
  The regular expressions the services write, with the meaning JavaScript gives them: a
  backtracking match that prefers the first alternative, and \<open>replace\<close> with the \<open>g\<close> flag.
  A position is the text before it, reversed, and the text after it, so that \<open>\b\<close> and a
  look behind can be asked. \<open>run r k x\<close> tries to match \<open>r\<close> at \<open>x\<close> and to go on with
  \<open>k\<close>. The relation \<open>matches\<close> is the declarative meaning; the engine is sound and complete
  for it.
\<close>

section \<open>Expressions\<close>

type_synonym position = "string \<times> string"

text \<open>A class of characters, repeated as often as possible or as rarely as possible.\<close>

datatype rx =
    Empty
  | Class "char \<Rightarrow> bool"
  | Star "char \<Rightarrow> bool"
  | LazyStar "char \<Rightarrow> bool"
  | Then rx rx
  | Or rx rx
  | Maybe rx
  | WordBoundary
  | NotBehind "char \<Rightarrow> bool"
  | NotAhead "char \<Rightarrow> bool"

definition word_char :: "char \<Rightarrow> bool" where
  "word_char c = (is_alnum c \<or> c = CHR ''_'')"

definition next_is :: "(char \<Rightarrow> bool) \<Rightarrow> string \<Rightarrow> bool" where
  "next_is p s = (case s of [] \<Rightarrow> False | c # _ \<Rightarrow> p c)"

definition at_boundary :: "position \<Rightarrow> bool" where
  "at_boundary x \<longleftrightarrow> next_is word_char (fst x) \<noteq> next_is word_char (snd x)"

section \<open>The engine\<close>

fun run_star :: "(char \<Rightarrow> bool) \<Rightarrow> (position \<Rightarrow> 'r option) \<Rightarrow> string \<Rightarrow> string \<Rightarrow> 'r option" where
  "run_star p k b [] = k (b, [])"
| "run_star p k b (c # a) =
     (if p c then (case run_star p k (c # b) a of None \<Rightarrow> k (b, c # a) | Some r \<Rightarrow> Some r) else k (b, c # a))"

fun run_lazy :: "(char \<Rightarrow> bool) \<Rightarrow> (position \<Rightarrow> 'r option) \<Rightarrow> string \<Rightarrow> string \<Rightarrow> 'r option" where
  "run_lazy p k b [] = k (b, [])"
| "run_lazy p k b (c # a) =
     (case k (b, c # a) of None \<Rightarrow> if p c then run_lazy p k (c # b) a else None | Some r \<Rightarrow> Some r)"

primrec run :: "rx \<Rightarrow> (position \<Rightarrow> 'r option) \<Rightarrow> position \<Rightarrow> 'r option" where
  "run Empty k x = k x"
| "run (Class p) k x = (case snd x of [] \<Rightarrow> None | c # a \<Rightarrow> if p c then k (c # fst x, a) else None)"
| "run (Star p) k x = run_star p k (fst x) (snd x)"
| "run (LazyStar p) k x = run_lazy p k (fst x) (snd x)"
| "run (Then r s) k x = run r (run s k) x"
| "run (Or r s) k x = (case run r k x of None \<Rightarrow> run s k x | Some y \<Rightarrow> Some y)"
| "run (Maybe r) k x = (case run r k x of None \<Rightarrow> k x | Some y \<Rightarrow> Some y)"
| "run WordBoundary k x = (if at_boundary x then k x else None)"
| "run (NotBehind p) k x = (if next_is p (fst x) then None else k x)"
| "run (NotAhead p) k x = (if next_is p (snd x) then None else k x)"

definition match_at :: "rx \<Rightarrow> position \<Rightarrow> position option" where
  "match_at r x = run r Some x"

text \<open>\<open>pattern.test(s)\<close>: some position of the text starts a match.\<close>

fun search :: "rx \<Rightarrow> string \<Rightarrow> string \<Rightarrow> bool" where
  "search r b [] = (match_at r (b, []) \<noteq> None)"
| "search r b (c # a) = (match_at r (b, c # a) \<noteq> None \<or> search r (c # b) a)"

definition rx_test :: "rx \<Rightarrow> string \<Rightarrow> bool" where
  "rx_test r s = search r [] s"

text \<open>
  \<open>s.replace(pattern, () => w)\<close> with the \<open>g\<close> flag, and the number of replacements: the
  leftmost match is replaced and the search goes on behind it, one character further when
  the match was empty.
\<close>

function gsub :: "rx \<Rightarrow> string \<Rightarrow> string \<Rightarrow> string \<Rightarrow> string \<times> nat" where
  "gsub r w b a =
     (case match_at r (b, a) of
        Some (b1, a1) \<Rightarrow>
          if length a1 < length a then (case gsub r w b1 a1 of (t, n) \<Rightarrow> (w @ t, Suc n))
          else (case a of [] \<Rightarrow> (w, 1)
                | c # a2 \<Rightarrow> (case gsub r w (c # b) a2 of (t, n) \<Rightarrow> (w @ c # t, Suc n)))
      | None \<Rightarrow>
          (case a of [] \<Rightarrow> ([], 0) | c # a2 \<Rightarrow> (case gsub r w (c # b) a2 of (t, n) \<Rightarrow> (c # t, n))))"
  by pat_completeness auto
termination by (relation "measure (\<lambda>(r, w, b, a). length a)") auto

declare gsub.simps [simp del]

definition rx_replace :: "rx \<Rightarrow> string \<Rightarrow> string \<Rightarrow> string \<times> nat" where
  "rx_replace r w s = gsub r w [] s"

text \<open>The texts of all matches, left to right: \<open>s.match(pattern)\<close> with the \<open>g\<close> flag.\<close>

function match_all :: "rx \<Rightarrow> string \<Rightarrow> string \<Rightarrow> string list" where
  "match_all r b a =
     (case match_at r (b, a) of
        Some (b1, a1) \<Rightarrow>
          if length a1 < length a then take (length a - length a1) a # match_all r b1 a1
          else (case a of [] \<Rightarrow> [[]] | c # a2 \<Rightarrow> [] # match_all r (c # b) a2)
      | None \<Rightarrow> (case a of [] \<Rightarrow> [] | c # a2 \<Rightarrow> match_all r (c # b) a2))"
  by pat_completeness auto
termination by (relation "measure (\<lambda>(r, b, a). length a)") auto

declare match_all.simps [simp del]

section \<open>Notations of patterns\<close>

definition upper_char :: "char \<Rightarrow> char" where
  "upper_char c = (if is_lower c then char_of (code c - 32) else c)"

text \<open>A literal text, also under the \<open>i\<close> flag; \<open>[p]{n,}\<close>; \<open>r{m,n}\<close> as \<open>r{m}\<close> and \<open>n - m\<close> optional ones.\<close>

primrec lit :: "string \<Rightarrow> rx" where
  "lit [] = Empty"
| "lit (c # s) = Then (Class (\<lambda>x. x = c)) (lit s)"

primrec lit_i :: "string \<Rightarrow> rx" where
  "lit_i [] = Empty"
| "lit_i (c # s) = Then (Class (\<lambda>x. upper_char x = upper_char c)) (lit_i s)"

primrec times :: "nat \<Rightarrow> rx \<Rightarrow> rx" where
  "times 0 r = Empty"
| "times (Suc n) r = Then r (times n r)"

primrec upto_times :: "nat \<Rightarrow> rx \<Rightarrow> rx" where
  "upto_times 0 r = Empty"
| "upto_times (Suc n) r = Maybe (Then r (upto_times n r))"

definition at_least :: "nat \<Rightarrow> (char \<Rightarrow> bool) \<Rightarrow> rx" where
  "at_least n p = Then (times n (Class p)) (Star p)"

primrec alternatives :: "rx \<Rightarrow> rx list \<Rightarrow> rx" where
  "alternatives r [] = r"
| "alternatives r (s # ss) = Or r (alternatives s ss)"

primrec rx_seq :: "rx list \<Rightarrow> rx" where
  "rx_seq [] = Empty"
| "rx_seq (r # rs) = Then r (rx_seq rs)"

section \<open>What a pattern means\<close>

inductive matches :: "rx \<Rightarrow> position \<Rightarrow> position \<Rightarrow> bool" where
  empty: "matches Empty x x"
| cls: "p c \<Longrightarrow> matches (Class p) (b, c # a) (c # b, a)"
| star: "list_all p u \<Longrightarrow> matches (Star p) (b, u @ a) (rev u @ b, a)"
| lazy: "list_all p u \<Longrightarrow> matches (LazyStar p) (b, u @ a) (rev u @ b, a)"
| thn: "matches r x y \<Longrightarrow> matches s y z \<Longrightarrow> matches (Then r s) x z"
| or_left: "matches r x y \<Longrightarrow> matches (Or r s) x y"
| or_right: "matches s x y \<Longrightarrow> matches (Or r s) x y"
| maybe_some: "matches r x y \<Longrightarrow> matches (Maybe r) x y"
| maybe_none: "matches (Maybe r) x x"
| boundary: "at_boundary x \<Longrightarrow> matches WordBoundary x x"
| behind: "\<not> next_is p (fst x) \<Longrightarrow> matches (NotBehind p) x x"
| ahead: "\<not> next_is p (snd x) \<Longrightarrow> matches (NotAhead p) x x"

inductive_simps matches_simps [simp]:
  "matches Empty x y" "matches (Class p) x y" "matches (Then r s) x y" "matches (Or r s) x y" "matches (Maybe r) x y"
  "matches WordBoundary x y" "matches (NotBehind p) x y" "matches (NotAhead p) x y" "matches (Star p) x y"
  "matches (LazyStar p) x y"

lemma split_Cons: "(\<exists>u v. c # a = u @ v \<and> Q u v) \<longleftrightarrow> Q [] (c # a) \<or> (\<exists>u v. a = u @ v \<and> Q (c # u) v)"
  by (auto simp: Cons_eq_append_conv)

lemma run_star_iff: "run_star p k b a \<noteq> None \<longleftrightarrow> (\<exists>u v. a = u @ v \<and> list_all p u \<and> k (rev u @ b, v) \<noteq> None)"
proof (induction a arbitrary: b)
  case (Cons c a)
  have "run_star p k b (c # a) \<noteq> None \<longleftrightarrow> k (b, c # a) \<noteq> None \<or> (p c \<and> run_star p k (c # b) a \<noteq> None)"
    by (auto split: option.splits)
  also have "\<dots> \<longleftrightarrow> (\<exists>u v. c # a = u @ v \<and> list_all p u \<and> k (rev u @ b, v) \<noteq> None)"
    unfolding Cons.IH split_Cons by auto
  finally show ?case .
qed simp

lemma run_lazy_iff: "run_lazy p k b a \<noteq> None \<longleftrightarrow> run_star p k b a \<noteq> None"
  by (induction p k b a rule: run_lazy.induct) (auto split: option.splits)

text \<open>The engine finds a match, with a continuation that accepts it, exactly when there is one.\<close>

lemma run_iff: "run r k x \<noteq> None \<longleftrightarrow> (\<exists>y. matches r x y \<and> k y \<noteq> None)"
proof (induction r arbitrary: k x)
  case (Class p)
  show ?case by (cases x; cases "snd x") auto
next
  case (Star p)
  show ?case by (cases x) (simp only: run.simps fst_conv snd_conv run_star_iff, auto)
next
  case (LazyStar p)
  show ?case by (cases x) (simp only: run.simps fst_conv snd_conv run_lazy_iff run_star_iff, auto)
next
  case (Then r s)
  have "run (Then r s) k x \<noteq> None \<longleftrightarrow> (\<exists>y. matches r x y \<and> run s k y \<noteq> None)"
    unfolding run.simps by (rule Then.IH(1))
  also have "\<dots> \<longleftrightarrow> (\<exists>y z. matches r x y \<and> matches s y z \<and> k z \<noteq> None)" unfolding Then.IH(2) by blast
  also have "\<dots> \<longleftrightarrow> (\<exists>z. matches (Then r s) x z \<and> k z \<noteq> None)" unfolding matches_simps(3) split_paired_Ex by blast
  finally show ?case .
next
  case (Or r s)
  have "run (Or r s) k x \<noteq> None \<longleftrightarrow> run r k x \<noteq> None \<or> run s k x \<noteq> None" by (simp split: option.splits)
  then show ?case unfolding Or.IH by auto
next
  case (Maybe r)
  have "run (Maybe r) k x \<noteq> None \<longleftrightarrow> run r k x \<noteq> None \<or> k x \<noteq> None" by (simp split: option.splits)
  then show ?case unfolding Maybe.IH matches_simps(5) by blast
qed auto

lemma match_at_iff: "match_at r x \<noteq> None \<longleftrightarrow> (\<exists>y. matches r x y)"
  by (simp only: match_at_def run_iff) simp

text \<open>\<open>test\<close> holds when the text has a part that matches, in its context.\<close>

definition occurs :: "rx \<Rightarrow> string \<Rightarrow> bool" where
  "occurs r s \<longleftrightarrow> (\<exists>u v y. s = u @ v \<and> matches r (rev u, v) y)"

lemma search_iff: "search r b a \<longleftrightarrow> (\<exists>u v y. a = u @ v \<and> matches r (rev u @ b, v) y)"
proof (induction r b a rule: search.induct)
  case (1 r b)
  show ?case by (simp only: search.simps match_at_iff) simp
next
  case (2 r b c a)
  have "search r b (c # a) \<longleftrightarrow> (\<exists>y. matches r (b, c # a) y) \<or> (\<exists>u v. a = u @ v \<and> (\<exists>y. matches r (rev u @ c # b, v) y))"
    by (simp only: search.simps match_at_iff 2) blast
  also have "\<dots> \<longleftrightarrow> (\<exists>u v. c # a = u @ v \<and> (\<exists>y. matches r (rev u @ b, v) y))"
    unfolding split_Cons by simp
  finally show ?case by blast
qed

lemma rx_test_iff: "rx_test r s \<longleftrightarrow> occurs r s"
  by (simp add: rx_test_def occurs_def search_iff)

text \<open>A text without a match is left as it is.\<close>

lemma gsub_id: "\<not> search r b a \<Longrightarrow> gsub r w b a = (a, 0)"
proof (induction a arbitrary: b)
  case (Cons c a)
  then have "match_at r (b, c # a) = None" "\<not> search r (c # b) a" by (cases "match_at r (b, c # a)"; auto)+
  with Cons.IH show ?case by (subst gsub.simps) simp
next
  case Nil
  then have "match_at r (b, []) = None" by (cases "match_at r (b, [])") auto
  then show ?case by (subst gsub.simps) simp
qed

lemma rx_replace_id: "\<not> rx_test r s \<Longrightarrow> rx_replace r w s = (s, 0)"
  by (simp add: rx_replace_def rx_test_def gsub_id)

end
