(* ===== verification/Secrets.thy ===== *)
theory Secrets
  imports Regex
begin

text \<open>
  What the memory service refuses to store and what the perception service redacts
  (\<open>SECRET_PATTERNS\<close> of \<open>packages/zarvis/services/zarvis-memory/runtime.mjs\<close>,
  \<open>redactUntrustedText\<close> of \<open>packages/zarvis/services/zarvis-perception/runtime.mjs\<close>): the
  patterns as expressions of \<open>Regex\<close>, one after the other as the code writes them.
\<close>

section \<open>Patterns\<close>

definition rx_bearer_char :: "char \<Rightarrow> bool" where
  "rx_bearer_char c = (is_alnum c \<or> c \<in> set ''._~+/=-'')"

definition rx_key_char :: "char \<Rightarrow> bool" where
  "rx_key_char c = (is_alnum c \<or> c \<in> set ''_-'')"

definition one_of_chars :: "string \<Rightarrow> rx" where
  "one_of_chars s = Class (\<lambda>c. c \<in> set s)"

text \<open>\<open>-----BEGIN (?:RSA |EC |OPENSSH )?PRIVATE KEY-----\<close>, and the same with \<open>END\<close>; \<open>i\<close>.\<close>

definition rx_key_line :: "string \<Rightarrow> rx" where
  "rx_key_line w =
     rx_seq [lit_i (''-----'' @ w @ '' ''), Maybe (alternatives (lit_i ''RSA '') [lit_i ''EC '', lit_i ''OPENSSH '']),
               lit_i ''PRIVATE KEY-----'']"

definition rx_private_key :: rx where
  "rx_private_key = rx_key_line ''BEGIN''"

definition rx_private_key_block :: rx where
  "rx_private_key_block = rx_seq [rx_key_line ''BEGIN'', LazyStar (\<lambda>_. True), rx_key_line ''END'']"

text \<open>\<open>\b(?:sk|pk)-[A-Za-z0-9_-]{16,}\b\<close>\<close>

definition rx_api_key :: rx where
  "rx_api_key =
     rx_seq [WordBoundary, Or (lit ''sk'') (lit ''pk''), lit ''-'', at_least 16 rx_key_char, WordBoundary]"

text \<open>\<open>\bgh[pousr]_[A-Za-z0-9]{20,}\b\<close> and \<open>\bgithub_pat_[A-Za-z0-9_]{20,}\b\<close>\<close>

definition rx_github_token :: rx where
  "rx_github_token =
     rx_seq [WordBoundary, lit ''gh'', one_of_chars ''pousr'', lit ''_'', at_least 20 is_alnum, WordBoundary]"

definition rx_github_pat :: rx where
  "rx_github_pat = rx_seq [WordBoundary, lit ''github_pat_'', at_least 20 word_char, WordBoundary]"

text \<open>\<open>\bAKIA[0-9A-Z]{16}\b\<close>\<close>

definition rx_aws_key :: rx where
  "rx_aws_key = rx_seq [WordBoundary, lit ''AKIA'', times 16 (Class (\<lambda>c. is_digit c \<or> is_upper c)), WordBoundary]"

text \<open>\<open>\bBearer\s+[A-Za-z0-9._~+/=-]{16,}\<close>, \<open>i\<close>\<close>

definition rx_bearer :: rx where
  "rx_bearer = rx_seq [WordBoundary, lit_i ''Bearer'', at_least 1 is_space, at_least 16 rx_bearer_char]"

text \<open>\<open>\b(?:password|passwd|secret|api[_-]?key|private[_-]?key)\s*[:=]\s*\S+\<close>, \<open>i\<close>\<close>

definition rx_joined_key :: "string \<Rightarrow> rx" where
  "rx_joined_key w = rx_seq [lit_i w, Maybe (one_of_chars ''_-''), lit_i ''key'']"

definition rx_assignment :: rx where
  "rx_assignment =
     rx_seq [WordBoundary,
       alternatives (lit_i ''password'') [lit_i ''passwd'', lit_i ''secret'', rx_joined_key ''api'', rx_joined_key ''private''],
       Star is_space, one_of_chars '':='', Star is_space, at_least 1 (\<lambda>c. \<not> is_space c)]"

text \<open>\<open>\b(?:\d[ -]*?){13,19}\b\<close>\<close>

definition rx_card_digit :: rx where
  "rx_card_digit = Then (Class is_digit) (LazyStar (\<lambda>c. c \<in> set '' -''))"

definition rx_card :: rx where
  "rx_card = rx_seq [WordBoundary, times 13 rx_card_digit, upto_times 6 rx_card_digit, WordBoundary]"

definition SECRET_PATTERNS :: "rx list" where
  "SECRET_PATTERNS =
     [rx_private_key, rx_api_key, rx_github_token, rx_github_pat, rx_aws_key, rx_bearer, rx_assignment, rx_card]"

definition holds_secret :: "string \<Rightarrow> bool" where
  "holds_secret s = list_ex (\<lambda>r. rx_test r s) SECRET_PATTERNS"

text \<open>What is refused, by the meaning of the patterns.\<close>

lemma holds_secret_iff: "holds_secret s \<longleftrightarrow> (\<exists>r\<in>set SECRET_PATTERNS. occurs r s)"
  by (simp only: holds_secret_def list_ex_iff rx_test_iff)

section \<open>Redaction\<close>

text \<open>\<open>\b[A-Z0-9._%+-]+@[A-Z0-9.-]+\.[A-Z]{2,}\b\<close>, \<open>i\<close>\<close>

definition rx_email :: rx where
  "rx_email =
     rx_seq [WordBoundary, at_least 1 (\<lambda>c. is_alnum c \<or> c \<in> set ''._%+-''), lit ''@'',
       at_least 1 (\<lambda>c. is_alnum c \<or> c \<in> set ''.-''), lit ''.'', at_least 2 (\<lambda>c. is_upper c \<or> is_lower c), WordBoundary]"

text \<open>\<open>(?<!\d)(?:\+?\d[\d ()-]{7,}\d)(?!\d)\<close>\<close>

definition rx_phone :: rx where
  "rx_phone =
     rx_seq [NotBehind is_digit, Maybe (lit ''+''), Class is_digit,
       at_least 7 (\<lambda>c. is_digit c \<or> c \<in> set '' ()-''), Class is_digit, NotAhead is_digit]"

definition redactions :: "(rx \<times> string) list" where
  "redactions =
     [(rx_private_key_block, ''[REDACTED_PRIVATE_KEY]''), (rx_api_key, ''[REDACTED_SECRET]''),
      (rx_github_token, ''[REDACTED_GITHUB_TOKEN]''), (rx_github_pat, ''[REDACTED_GITHUB_TOKEN]''),
      (rx_bearer, ''[REDACTED_BEARER_TOKEN]''), (rx_email, ''[REDACTED_EMAIL]''), (rx_phone, ''[REDACTED_PHONE]'')]"

definition rx_spaces :: rx where
  "rx_spaces = at_least 1 is_space"

definition optional_word :: "string \<Rightarrow> rx" where
  "optional_word w = Maybe (Then (lit_i w) rx_spaces)"

definition injectionPatterns :: "rx list" where
  "injectionPatterns =
     [rx_seq [lit_i ''ignore'', rx_spaces, optional_word ''all'', lit_i ''previous'', rx_spaces,
        Or (Then (lit_i ''instruction'') (Maybe (lit_i ''s''))) (Then (lit_i ''message'') (Maybe (lit_i ''s'')))],
      rx_seq [lit_i ''reveal'', rx_spaces, optional_word ''the'', Or (lit_i ''system'') (lit_i ''developer''), rx_spaces,
        Or (lit_i ''prompt'') (lit_i ''message'')],
      rx_seq [Or (lit_i ''system'') (lit_i ''developer''), rx_spaces, Or (lit_i ''prompt'') (lit_i ''message'')],
      rx_seq [alternatives (lit_i ''call'') [lit_i ''invoke'', lit_i ''run''], rx_spaces, optional_word ''a'', lit_i ''tool''],
      rx_seq [lit_i ''execute'', rx_spaces, optional_word ''this'', lit_i ''command''],
      rx_seq [lit_i ''grant'', rx_spaces, optional_word ''me'',
        alternatives (lit_i ''access'') [lit_i ''permission'', lit_i ''capability'']]]"

text \<open>One pattern after the other, each on what the ones before left, and the sum of the counts.\<close>

fun replace_each :: "(rx \<times> string) list \<Rightarrow> string \<Rightarrow> string \<times> nat" where
  "replace_each [] s = (s, 0)"
| "replace_each ((r, w) # rs) s =
     (case rx_replace r w s of (t, n) \<Rightarrow> (case replace_each rs t of (u, m) \<Rightarrow> (u, n + m)))"

definition redactUntrustedText :: "string \<Rightarrow> string \<times> nat \<times> nat" where
  "redactUntrustedText s =
     (case replace_each redactions s of (t, n) \<Rightarrow>
        (case replace_each (map (\<lambda>r. (r, ''[UNTRUSTED_INSTRUCTION]'')) injectionPatterns) t of (u, m) \<Rightarrow> (u, n, m)))"

text \<open>Text in which no pattern occurs comes out as it is.\<close>

lemma replace_each_id: "(\<And>r w. (r, w) \<in> set rs \<Longrightarrow> \<not> occurs r s) \<Longrightarrow> replace_each rs s = (s, 0)"
proof (induction rs)
  case (Cons p rs)
  obtain r w where p: "p = (r, w)" by (cases p)
  with Cons.prems have "rx_replace r w s = (s, 0)" by (intro rx_replace_id) (auto simp: rx_test_iff)
  moreover have "replace_each rs s = (s, 0)" by (rule Cons.IH) (use Cons.prems in auto)
  ultimately show ?case by (simp add: p)
qed simp

end
