(* ===== verification/Bytes.thy ===== *)
theory Bytes
  imports JsValue "HOL-Library.Word"
begin

text \<open>
  Bytes and their base64 text, as \<open>Buffer.from(text, 'base64')\<close> and
  \<open>buffer.toString('base64')\<close> convert them, with \<open>strictBase64\<close> of
  \<open>packages/zarvis/services/zarvis-perception/runtime.mjs\<close>, and the big-endian reads of a
  buffer. A byte is an \<open>8 word\<close>, a digit of base64 a \<open>6 word\<close>. The decoder accepts what
  the encoder never writes (a last digit with stray bits), which is why the code compares
  the text with the encoding of what it decoded.
\<close>

unbundle bit_operations_syntax

type_synonym byte = "8 word"
type_synonym sextet = "6 word"

section \<open>Digits\<close>

definition base64_alphabet :: string where
  "base64_alphabet = ''ABCDEFGHIJKLMNOPQRSTUVWXYZabcdefghijklmnopqrstuvwxyz0123456789+/''"

definition base64_char :: "sextet \<Rightarrow> char" where
  "base64_char d = base64_alphabet ! unat d"

definition sextet_of :: "char \<Rightarrow> sextet option" where
  "sextet_of c =
     (if is_upper c then Some (of_nat (code c - 65))
      else if is_lower c then Some (of_nat (code c - 71))
      else if is_digit c then Some (of_nat (code c + 4))
      else if c = CHR ''+'' then Some 62
      else if c = CHR ''/'' then Some 63 else None)"

lemma alphabet_nth:
  "n < 26 \<Longrightarrow> base64_alphabet ! n = char_of (n + 65)"
  "n < 26 \<Longrightarrow> base64_alphabet ! (n + 26) = char_of (n + 97)"
  "n < 10 \<Longrightarrow> base64_alphabet ! (n + 52) = char_of (n + 48)"
proof -
  have "list_all (\<lambda>n. base64_alphabet ! n = char_of (n + 65) \<and> base64_alphabet ! (n + 26) = char_of (n + 97)) [0..<26]"
    "list_all (\<lambda>n. base64_alphabet ! (n + 52) = char_of (n + 48)) [0..<10]"
    by code_simp+
  then show "n < 26 \<Longrightarrow> base64_alphabet ! n = char_of (n + 65)" "n < 26 \<Longrightarrow> base64_alphabet ! (n + 26) = char_of (n + 97)"
    "n < 10 \<Longrightarrow> base64_alphabet ! (n + 52) = char_of (n + 48)"
    by (auto simp only: list_all_iff set_upt atLeastLessThan_iff)
qed

lemma char_of_code [simp]: "char_of (code c) = c"
  by (simp add: code_def)

lemma code_char_of [simp]: "n < 256 \<Longrightarrow> code (char_of n) = n"
  by (simp add: code_def)

lemma sextet_cases:
  obtains n where "n < 26" "d = of_nat n" | n where "n < 26" "d = of_nat (n + 26)" | n where "n < 10" "d = of_nat (n + 52)"
  | "d = 62" | "d = (63 :: sextet)"
proof -
  have b: "unat d < 64" using unsigned_less [of d] by simp
  have d: "d = of_nat (unat d)" by simp
  consider "unat d < 26" | n where "unat d = n + 26" "n < 26" | n where "unat d = n + 52" "n < 10" | "unat d = 62" | "unat d = 63"
  proof -
    have "unat d < 26 \<or> (\<exists>n<26. unat d = n + 26) \<or> (\<exists>n<10. unat d = n + 52) \<or> unat d = 62 \<or> unat d = 63"
      using b by presburger
    then show thesis using that by blast
  qed
  then show thesis using that d by cases (metis of_nat_numeral)+
qed

lemma sextet_of_char [simp]: "sextet_of (base64_char d) = Some d"
proof (cases d rule: sextet_cases)
  case (1 n)
  then have "unat d = n" by (simp add: unat_of_nat take_bit_nat_eq_self)
  with 1 show ?thesis by (simp add: base64_char_def alphabet_nth sextet_of_def is_upper_def)
next
  case (2 n)
  then have "unat d = n + 26" by (simp only: unat_of_nat) (simp add: take_bit_nat_eq_self)
  with 2 show ?thesis by (simp add: base64_char_def alphabet_nth sextet_of_def is_upper_def is_lower_def)
next
  case (3 n)
  then have "unat d = n + 52" by (simp only: unat_of_nat) (simp add: take_bit_nat_eq_self)
  with 3 show ?thesis
    by (simp add: base64_char_def alphabet_nth sextet_of_def is_upper_def is_lower_def is_digit_def)
next
  case 4
  have "sextet_of (base64_char 62) = Some 62" by code_simp
  with 4 show ?thesis by simp
next
  case 5
  have "sextet_of (base64_char 63) = Some 63" by code_simp
  with 5 show ?thesis by simp
qed

lemma char_of_sextet: "sextet_of c = Some d \<Longrightarrow> base64_char d = c"
proof -
  assume h: "sextet_of c = Some d"
  consider "is_upper c" | "\<not> is_upper c" "is_lower c" | "\<not> is_upper c" "\<not> is_lower c" "is_digit c"
    | "c = CHR ''+''" | "c = CHR ''/''"
    using h by (auto simp: sextet_of_def split: if_splits)
  then show ?thesis
  proof cases
    case 1
    then have b: "65 \<le> code c" "code c \<le> 90" by (simp_all add: is_upper_def)
    with 1 h have "unat d = code c - 65"
      by (auto simp: sextet_of_def unat_of_nat take_bit_nat_eq_self simp del: of_nat_diff)
    with b alphabet_nth(1) [of "code c - 65"] show ?thesis by (simp add: base64_char_def)
  next
    case 2
    then have b: "97 \<le> code c" "code c \<le> 122" by (simp_all add: is_lower_def)
    with 2 h have "unat d = code c - 97 + 26"
      by (auto simp: sextet_of_def unat_of_nat take_bit_nat_eq_self simp del: of_nat_diff)
    with b alphabet_nth(2) [of "code c - 97"] show ?thesis by (simp add: base64_char_def)
  next
    case 3
    then have b: "48 \<le> code c" "code c \<le> 57" by (simp_all add: is_digit_def)
    with 3 h have "unat d = code c - 48 + 52"
      by (auto simp: sextet_of_def unat_of_nat take_bit_nat_eq_self simp del: of_nat_diff of_nat_add)
    with b alphabet_nth(3) [of "code c - 48"] show ?thesis by (simp add: base64_char_def)
  next
    case 4
    with h have "d = 62" by (simp add: sextet_of_def is_upper_def is_lower_def is_digit_def code_def)
    with 4 show ?thesis by (simp add: base64_char_def base64_alphabet_def)
  next
    case 5
    with h have "d = 63" by (simp add: sextet_of_def is_upper_def is_lower_def is_digit_def code_def)
    with 5 show ?thesis by (simp add: base64_char_def base64_alphabet_def)
  qed
qed

section \<open>Encoding and decoding\<close>

fun base64_encode :: "byte list \<Rightarrow> string" where
  "base64_encode [] = []"
| "base64_encode [a] =
     [base64_char (ucast (drop_bit 2 a)), base64_char (push_bit 4 (ucast a)), CHR ''='', CHR ''='']"
| "base64_encode [a, b] =
     [base64_char (ucast (drop_bit 2 a)), base64_char (push_bit 4 (ucast a) OR ucast (drop_bit 4 b)),
      base64_char (push_bit 2 (ucast b)), CHR ''='']"
| "base64_encode (a # b # c # rest) =
     base64_char (ucast (drop_bit 2 a)) # base64_char (push_bit 4 (ucast a) OR ucast (drop_bit 4 b))
     # base64_char (push_bit 2 (ucast b) OR ucast (drop_bit 6 c)) # base64_char (ucast c) # base64_encode rest"

fun bytes_of_sextets :: "sextet list \<Rightarrow> byte list" where
  "bytes_of_sextets (x # y # z # w # rest) =
     (push_bit 2 (ucast x) OR ucast (drop_bit 4 y)) # (push_bit 4 (ucast y) OR ucast (drop_bit 2 z))
     # (push_bit 6 (ucast z) OR ucast w) # bytes_of_sextets rest"
| "bytes_of_sextets [x, y, z] =
     [push_bit 2 (ucast x) OR ucast (drop_bit 4 y), push_bit 4 (ucast y) OR ucast (drop_bit 2 z)]"
| "bytes_of_sextets [x, y] = [push_bit 2 (ucast x) OR ucast (drop_bit 4 y)]"
| "bytes_of_sextets _ = []"

definition base64_decode :: "string \<Rightarrow> byte list" where
  "base64_decode s = bytes_of_sextets (List.map_filter sextet_of (takeWhile (\<lambda>c. c \<noteq> CHR ''='') s))"

lemma byte_eqI:
  fixes a b :: byte
  assumes "bit a 0 = bit b 0" "bit a 1 = bit b 1" "bit a 2 = bit b 2" "bit a 3 = bit b 3"
    "bit a 4 = bit b 4" "bit a 5 = bit b 5" "bit a 6 = bit b 6" "bit a 7 = bit b 7"
  shows "a = b"
proof (rule bit_word_eqI)
  fix n assume "n < LENGTH(8)"
  then have "n < 8" by simp
  then consider "n = 0" | "n = 1" | "n = 2" | "n = 3" | "n = 4" | "n = 5" | "n = 6" | "n = 7" by linarith
  then show "bit a n = bit b n" by cases (simp_all only: assms)
qed

lemma byte_high_bits: "8 \<le> n \<Longrightarrow> \<not> bit (b :: byte) n"
  using bit_imp_le_length [of b n] by auto

lemma regroup_bytes:
  "push_bit 2 (ucast (ucast (drop_bit 2 a) :: sextet)) OR ucast (drop_bit 4 (push_bit 4 (ucast a) :: sextet)) = (a :: byte)"
  "push_bit 2 (ucast (ucast (drop_bit 2 a) :: sextet))
     OR ucast (drop_bit 4 (push_bit 4 (ucast a) OR ucast (drop_bit 4 b) :: sextet)) = (a :: byte)"
  "push_bit 4 (ucast (push_bit 4 (ucast a) OR ucast (drop_bit 4 b) :: sextet))
     OR ucast (drop_bit 2 (push_bit 2 (ucast b) :: sextet)) = (b :: byte)"
  "push_bit 4 (ucast (push_bit 4 (ucast a) OR ucast (drop_bit 4 b) :: sextet))
     OR ucast (drop_bit 2 (push_bit 2 (ucast b) OR ucast (drop_bit 6 c) :: sextet)) = (b :: byte)"
  "push_bit 6 (ucast (push_bit 2 (ucast b) OR ucast (drop_bit 6 c) :: sextet)) OR ucast (ucast c :: sextet) = (c :: byte)"
  for a b c :: byte
  by (rule byte_eqI; simp add: bit_simps; simp add: byte_high_bits numeral_eq_Suc)+

lemma base64_char_not_pad [simp]: "base64_char d \<noteq> CHR ''=''"
proof
  assume "base64_char d = CHR ''=''"
  then have "sextet_of (CHR ''='') = Some d" using sextet_of_char [of d] by simp
  then show False by (simp add: sextet_of_def is_upper_def is_lower_def is_digit_def code_def)
qed

text \<open>The round trip.\<close>

lemma decode_encode: "base64_decode (base64_encode bs) = bs"
  unfolding base64_decode_def
  by (induction bs rule: base64_encode.induct) (simp_all add: List.map_filter_simps regroup_bytes del: drop_bit_or)

lemma length_base64_encode: "length (base64_encode bs) = 4 * ((length bs + 2) div 3)"
proof (induction bs rule: base64_encode.induct)
  case (4 a b c rest)
  have "(length (a # b # c # rest) + 2) div 3 = Suc ((length rest + 2) div 3)"
    using div_add_self1 [of 3 "length rest + 2"] by simp
  with 4 show ?case by simp
qed simp_all

section \<open>Canonical texts\<close>

text \<open>\<open>/^[A-Za-z0-9+/]*={0,2}$/\<close> and \<open>s.replace(/=+$/, '')\<close>.\<close>

definition matches_base64 :: "string \<Rightarrow> bool" where
  "matches_base64 s = (dropWhile (\<lambda>c. sextet_of c \<noteq> None) s \<in> {[], ''='', ''==''})"

definition strip_padding :: "string \<Rightarrow> string" where
  "strip_padding s = rev (dropWhile (\<lambda>c. c = CHR ''='') (rev s))"

lemma dropWhile_all_append: "list_all P xs \<Longrightarrow> dropWhile P (xs @ ys) = dropWhile P ys"
  by (induction xs) auto

lemma base64_shape:
  "\<exists>ds p. base64_encode bs = map base64_char ds @ p \<and> p \<in> {[], ''='', ''==''}"
proof (induction bs rule: base64_encode.induct)
  case (2 a)
  have "base64_encode [a] = map base64_char [ucast (drop_bit 2 a), push_bit 4 (ucast a)] @ ''==''" by simp
  then show ?case by blast
next
  case (3 a b)
  have "base64_encode [a, b] = map base64_char [ucast (drop_bit 2 a), push_bit 4 (ucast a) OR ucast (drop_bit 4 b),
      push_bit 2 (ucast b)] @ ''=''" by simp
  then show ?case by blast
next
  case (4 a b c rest)
  then obtain ds p where "base64_encode rest = map base64_char ds @ p" "p \<in> {[], ''='', ''==''}" by blast
  then have "base64_encode (a # b # c # rest) = map base64_char (ucast (drop_bit 2 a)
      # (push_bit 4 (ucast a) OR ucast (drop_bit 4 b)) # (push_bit 2 (ucast b) OR ucast (drop_bit 6 c)) # ucast c # ds) @ p"
    by simp
  with \<open>p \<in> _\<close> show ?case by blast
qed simp

lemma strip_digits:
  assumes "list_all (\<lambda>c. sextet_of c \<noteq> None) xs" and "p \<in> {[], ''='', ''==''}"
  shows "strip_padding (xs @ p) = xs"
proof -
  have pad: "sextet_of (CHR ''='') = None"
    by (simp add: sextet_of_def is_upper_def is_lower_def is_digit_def code_def)
  have "dropWhile (\<lambda>c. c = CHR ''='') (rev xs) = rev xs"
  proof (cases "rev xs")
    case (Cons c cs)
    then have "c \<in> set xs" by (metis list.set_intros(1) set_rev)
    with assms(1) pad have "c \<noteq> CHR ''=''" by (auto simp: list_all_iff)
    with Cons show ?thesis by simp
  qed simp
  with assms(2) show ?thesis by (auto simp: strip_padding_def)
qed

lemma encode_matches: "matches_base64 (base64_encode bs)"
proof -
  obtain ds p where d: "base64_encode bs = map base64_char ds @ p" "p \<in> {[], ''='', ''==''}" using base64_shape by blast
  have "sextet_of (CHR ''='') = None"
    by (simp add: sextet_of_def is_upper_def is_lower_def is_digit_def code_def)
  with d(2) have "dropWhile (\<lambda>c. sextet_of c \<noteq> None) p = p" by auto
  then have "dropWhile (\<lambda>c. sextet_of c \<noteq> None) (map base64_char ds @ p) = p"
    by (subst dropWhile_all_append) (simp_all add: list_all_iff)
  with d show ?thesis by (simp add: matches_base64_def)
qed

text \<open>The three checks accept exactly the texts the encoder writes.\<close>

lemma canonical_iff:
  "matches_base64 s \<and> length s mod 4 = 0 \<and> strip_padding s = strip_padding (base64_encode (base64_decode s))
     \<longleftrightarrow> s = base64_encode (base64_decode s)"
proof
  assume h: "matches_base64 s \<and> length s mod 4 = 0 \<and> strip_padding s = strip_padding (base64_encode (base64_decode s))"
  let ?P = "\<lambda>c. sextet_of c \<noteq> None"
  let ?e = "base64_encode (base64_decode s)"
  have s: "s = takeWhile ?P s @ dropWhile ?P s" by simp
  have p: "dropWhile ?P s \<in> {[], ''='', ''==''}" using h by (simp add: matches_base64_def)
  have "list_all ?P (takeWhile ?P s)" using set_takeWhileD by (fastforce simp: list_all_iff)
  note st = strip_digits [OF this p, folded s]
  obtain ds q where e: "?e = map base64_char ds @ q" "q \<in> {[], ''='', ''==''}" using base64_shape by blast
  have "list_all ?P (map base64_char ds)" by (simp add: list_all_iff)
  note se = strip_digits [OF this e(2), folded e(1)]
  have same: "takeWhile ?P s = map base64_char ds" using h st se by simp
  have "length ?e mod 4 = 0" by (simp add: length_base64_encode)
  moreover have "length ?e = length (takeWhile ?P s) + length q" by (simp only: e(1) same length_append)
  moreover have "length s = length (takeWhile ?P s) + length (dropWhile ?P s)" using s by (metis length_append)
  ultimately have "(length (takeWhile ?P s) + length q) mod 4 = (length (takeWhile ?P s) + length (dropWhile ?P s)) mod 4"
    using h by simp
  moreover have pad: "length x \<le> 2" "length x = length y \<Longrightarrow> x = y"
    if "x \<in> {[], ''='', ''==''}" "y \<in> {[], ''='', ''==''}" for x y :: string
    using that by auto
  ultimately have "length q = length (dropWhile ?P s)" using pad(1) [OF e(2) p] pad(1) [OF p e(2)] by presburger
  then have "q = dropWhile ?P s" by (rule pad(2) [OF e(2) p])
  with e(1) same s show "s = ?e" by metis
next
  assume s: "s = base64_encode (base64_decode s)"
  then have "length s mod 4 = 0" by (metis length_base64_encode mod_mult_self1_is_0)
  with s encode_matches show "matches_base64 s \<and> length s mod 4 = 0
      \<and> strip_padding s = strip_padding (base64_encode (base64_decode s))" by metis
qed

section \<open>Reading a buffer\<close>

text \<open>\<open>buffer[i]\<close> is undefined outside the buffer; the big-endian reads throw there.\<close>

definition byte_at :: "byte list \<Rightarrow> nat \<Rightarrow> byte option" where
  "byte_at b i = (if i < length b then Some (b ! i) else None)"

definition big_endian :: "byte list \<Rightarrow> nat" where
  "big_endian bs = foldl (\<lambda>n b. 256 * n + unat b) 0 bs"

definition readUInt16BE :: "byte list \<Rightarrow> nat \<Rightarrow> nat option" where
  "readUInt16BE b i = (if i + 2 \<le> length b then Some (big_endian (take 2 (drop i b))) else None)"

definition readUInt32BE :: "byte list \<Rightarrow> nat \<Rightarrow> nat option" where
  "readUInt32BE b i = (if i + 4 \<le> length b then Some (big_endian (take 4 (drop i b))) else None)"

text \<open>\<open>buffer.toString('latin1')\<close>, also of a part of it.\<close>

definition latin1 :: "byte list \<Rightarrow> string" where
  "latin1 b = map (\<lambda>x. char_of (unat x)) b"

text \<open>\<open>buffer.toString('ascii')\<close>, which drops the highest bit of every byte.\<close>

definition ascii :: "byte list \<Rightarrow> string" where
  "ascii b = map (\<lambda>x. char_of (unat x mod 128)) b"

text \<open>The bytes of a number, for the texts a reader is tried on.\<close>

fun u_bytes :: "nat \<Rightarrow> nat \<Rightarrow> byte list" where
  "u_bytes 0 n = []"
| "u_bytes (Suc k) n = u_bytes k (n div 256) @ [of_nat n]"

lemma length_u_bytes [simp]: "length (u_bytes k n) = k"
  by (induction k arbitrary: n) simp_all

lemma big_endian_u_bytes: "n < 256 ^ k \<Longrightarrow> big_endian (u_bytes k n) = n"
proof (induction k arbitrary: n)
  case (Suc k)
  have "n div 256 < 256 ^ k" using Suc.prems by (simp add: less_mult_imp_div_less mult.commute)
  note IH = Suc.IH [OF this]
  have "unat (of_nat n :: byte) = n mod 256" by (simp add: unat_of_nat take_bit_eq_mod)
  with IH show ?case by (simp add: big_endian_def)
qed (simp add: big_endian_def)

lemma read_u_bytes:
  "n < 65536 \<Longrightarrow> readUInt16BE (pre @ u_bytes 2 n @ tl1) (length pre) = Some n"
  "n < 4294967296 \<Longrightarrow> readUInt32BE (pre @ u_bytes 4 n @ tl1) (length pre) = Some n"
  by (simp_all add: readUInt16BE_def readUInt32BE_def big_endian_u_bytes)

end
