(* ===== verification/EncryptedJournal.thy ===== *)
theory EncryptedJournal
  imports Bytes EventLog
begin

text \<open>
  The encrypted journal of the memory and the perception service
  (\<open>packages/zarvis/services/zarvis-memory/crypto-store.mjs\<close>,
  \<open>packages/zarvis/services/zarvis-perception/crypto-store.mjs\<close>): one file with a sealed
  event per line, appended to, read as a whole, and compacted by writing a new file in its
  place. AES-256-GCM is symbolic: an envelope opens with the key and the additional data it
  was sealed with and with nothing else. Writes go through a chain of promises that goes on
  after a rejection, so they happen one after the other and a failed one has no successors.
  What fails is part of the state and may be changed by the environment, which may also
  leave lines in the file that no one sealed. A line is written whole or not at all.
\<close>

record 'e sealed_envelope =
  en_version :: string
  en_key :: "byte list"
  en_aad :: string
  en_nonce :: nat
  en_event :: 'e

text \<open>An empty line, a line that is no JSON, an envelope.\<close>

datatype 'e journal_line = Blank | Garbled | Sealed "'e sealed_envelope"

text \<open>The constants of a store; \<open>fm_bytes\<close> is the length of an event's line without its end.\<close>

record 'e journal_format =
  fm_version :: string
  fm_aad :: string
  fm_maxBytes :: nat
  fm_bytes :: "'e \<Rightarrow> nat"
  fm_eventTooLarge :: string
  fm_lineTooLarge :: string
  fm_badEnvelope :: string

record 'e journal =
  jo_key :: "byte list"
  jo_lines :: "'e journal_line list"
  jo_nonce :: nat
  jo_accessError :: "string option"
  jo_appendError :: "(string \<times> bool) option"
  jo_replaceError :: "string option"

definition memory_format :: "('e \<Rightarrow> nat) \<Rightarrow> 'e journal_format" where
  "memory_format bytes =
     \<lparr>fm_version = ''zarvis.memory.encrypted.v1'', fm_aad = ''z-platform:zarvis-memory:v1'',
      fm_maxBytes = 128 * 1024, fm_bytes = bytes,
      fm_eventTooLarge = ''Encrypted memory event exceeds 131072 bytes'',
      fm_lineTooLarge = ''Encrypted memory envelope exceeds the supported size'',
      fm_badEnvelope = ''Encrypted memory envelope is invalid''\<rparr>"

definition perception_format :: "('e \<Rightarrow> nat) \<Rightarrow> 'e journal_format" where
  "perception_format bytes =
     \<lparr>fm_version = ''zarvis.perception.encrypted.v1'', fm_aad = ''z-platform:zarvis-perception:v1'',
      fm_maxBytes = 512 * 1024, fm_bytes = bytes,
      fm_eventTooLarge = ''Encrypted perception event is too large'',
      fm_lineTooLarge = ''Encrypted perception envelope is too large'',
      fm_badEnvelope = ''Encrypted perception envelope is invalid''\<rparr>"

text \<open>\<open>parseMemoryMasterKey\<close> and \<open>parsePerceptionKey\<close>; \<open>name\<close> is the environment variable.\<close>

definition parse_master_key :: "string \<Rightarrow> js \<Rightarrow> (string, byte list) result" where
  "parse_master_key name v =
     (case v of
        JStr s \<Rightarrow>
          (let t = js_trim s in
           if \<not> matches_base64 t \<or> t = [] \<or> hd t = CHR ''='' then Inl (name @ '' must be valid base64'')
           else if length (base64_decode t) \<noteq> 32 then Inl (name @ '' must decode to exactly 32 bytes'')
           else Inr (base64_decode t))
      | _ \<Rightarrow> Inl (name @ '' must be valid base64''))"

section \<open>Lines\<close>

text \<open>\<open>encryptEvent\<close>: 12 fresh bytes, sealing, and the limit on the line with its end.\<close>

definition encrypt_event :: "'e journal_format \<Rightarrow> 'e \<Rightarrow> 'e journal \<Rightarrow> ('e journal, string, 'e journal_line) outcome" where
  "encrypt_event F e d =
     (let d1 = d\<lparr>jo_nonce := Suc (jo_nonce d)\<rparr> in
      if fm_maxBytes F < fm_bytes F e + 1 then (d1, Inl (fm_eventTooLarge F))
      else (d1, Inr (Sealed \<lparr>en_version = fm_version F, en_key = jo_key d, en_aad = fm_aad F,
                            en_nonce = jo_nonce d, en_event = e\<rparr>)))"

definition decrypt_envelope :: "'e journal_format \<Rightarrow> byte list \<Rightarrow> 'e sealed_envelope \<Rightarrow> (string, 'e) result" where
  "decrypt_envelope F k v =
     (if en_version v \<noteq> fm_version F then Inl (fm_badEnvelope F)
      else if en_key v \<noteq> k \<or> en_aad v \<noteq> fm_aad F then Inl ''Unsupported state or unable to authenticate data''
      else Inr (en_event v))"

fun read_lines :: "'e journal_format \<Rightarrow> byte list \<Rightarrow> 'e journal_line list \<Rightarrow> (string, 'e list) result" where
  "read_lines F k [] = Inr []"
| "read_lines F k (Blank # ls) = read_lines F k ls"
| "read_lines F k (Garbled # ls) = Inl ''Unexpected token in JSON''"
| "read_lines F k (Sealed v # ls) =
     (if fm_maxBytes F < fm_bytes F (en_event v) then Inl (fm_lineTooLarge F)
      else bindR (decrypt_envelope F k v) (\<lambda>e. bindR (read_lines F k ls) (\<lambda>es. Inr (e # es))))"

section \<open>The store\<close>

definition jo_readEvents :: "'e journal_format \<Rightarrow> 'e journal \<Rightarrow> (string, 'e list) result" where
  "jo_readEvents F d =
     (case jo_accessError d of Some m \<Rightarrow> Inl m | None \<Rightarrow> read_lines F (jo_key d) (jo_lines d))"

definition jo_append :: "'e journal_format \<Rightarrow> 'e \<Rightarrow> 'e journal \<Rightarrow> ('e journal, string, unit) outcome" where
  "jo_append F e d =
     andThen (encrypt_event F e d) (\<lambda>d1 l.
       case jo_accessError d1 of
         Some m \<Rightarrow> (d1, Inl m)
       | None \<Rightarrow>
           (case jo_appendError d1 of
              None \<Rightarrow> (d1\<lparr>jo_lines := jo_lines d1 @ [l]\<rparr>, Inr ())
            | Some (m, landed) \<Rightarrow> (if landed then d1\<lparr>jo_lines := jo_lines d1 @ [l]\<rparr> else d1, Inl m)))"

fun encrypt_all :: "'e journal_format \<Rightarrow> 'e list \<Rightarrow> 'e journal \<Rightarrow> ('e journal, string, 'e journal_line list) outcome" where
  "encrypt_all F [] d = (d, Inr [])"
| "encrypt_all F (e # es) d =
     andThen (encrypt_event F e d) (\<lambda>d1 l. andThen (encrypt_all F es d1) (\<lambda>d2 ls. (d2, Inr (l # ls))))"

text \<open>\<open>compact(predicate)\<close>: numbers of removed and kept events; \<open>atomicReplace\<close> renames a complete file.\<close>

definition jo_compact ::
  "'e journal_format \<Rightarrow> ('e \<Rightarrow> bool) \<Rightarrow> 'e journal \<Rightarrow> ('e journal, string, nat \<times> nat) outcome" where
  "jo_compact F p d =
     (case jo_readEvents F d of
        Inl m \<Rightarrow> (d, Inl m)
      | Inr es \<Rightarrow>
          andThen (encrypt_all F (filter p es) d) (\<lambda>d1 ls.
            case jo_replaceError d1 of
              Some m \<Rightarrow> (d1, Inl m)
            | None \<Rightarrow> (d1\<lparr>jo_lines := ls\<rparr>, Inr (length es - length (filter p es), length (filter p es)))))"

definition journal_store :: "'e journal_format \<Rightarrow> ('e journal, 'e) event_store" where
  "journal_store F = \<lparr>eo_readEvents = jo_readEvents F, eo_appendEvent = jo_append F\<rparr>"

definition empty_journal :: "byte list \<Rightarrow> 'e journal" where
  "empty_journal k =
     \<lparr>jo_key = k, jo_lines = [], jo_nonce = 0, jo_accessError = None, jo_appendError = None, jo_replaceError = None\<rparr>"

lemma journal_store_fields [simp]:
  "eo_readEvents (journal_store F) = jo_readEvents F" "eo_appendEvent (journal_store F) = jo_append F"
  by (simp_all add: journal_store_def)

text \<open>The events the file holds for the owner of the key.\<close>

definition opens :: "'e journal_format \<Rightarrow> byte list \<Rightarrow> 'e journal_line \<Rightarrow> 'e option" where
  "opens F k l = (case l of Sealed v \<Rightarrow> (case decrypt_envelope F k v of Inr e \<Rightarrow> Some e | Inl _ \<Rightarrow> None) | _ \<Rightarrow> None)"

definition journal_events :: "'e journal_format \<Rightarrow> 'e journal \<Rightarrow> 'e list" where
  "journal_events F d = List.map_filter (opens F (jo_key d)) (jo_lines d)"

definition journal_change :: "'e journal_format \<Rightarrow> 'e journal \<Rightarrow> 'e journal \<Rightarrow> bool" where
  "journal_change F d d' \<longleftrightarrow> journal_events F d' = journal_events F d"

lemma read_lines_opens: "read_lines F k ls = Inr es \<Longrightarrow> es = List.map_filter (opens F k) ls"
  by (induction F k ls arbitrary: es rule: read_lines.induct)
    (auto simp: List.map_filter_simps opens_def bindR_Inr_iff split: if_splits)

lemma encrypt_event_opens:
  "encrypt_event F e d = (d1, Inr l) \<Longrightarrow> opens F (jo_key d) l = Some e"
  by (auto simp: encrypt_event_def opens_def decrypt_envelope_def Let_def split: if_splits)

lemma encrypt_event_same: "fst (encrypt_event F e d) = d\<lparr>jo_nonce := Suc (jo_nonce d)\<rparr>"
  by (simp add: encrypt_event_def Let_def)

lemma map_filter_snoc: "List.map_filter f (xs @ [x]) = List.map_filter f xs @ (case f x of Some y \<Rightarrow> [y] | None \<Rightarrow> [])"
  by (induction xs) (auto simp: List.map_filter_simps split: option.splits)

lemma jo_append_post:
  "post (jo_append F e d) (\<lambda>_ d'. journal_events F d' = journal_events F d @ [e])
     (\<lambda>d'. journal_events F d' = journal_events F d \<or> journal_events F d' = journal_events F d @ [e])"
  using encrypt_event_opens [of F e d] encrypt_event_same [of F e d]
  by (cases "encrypt_event F e d"; cases "snd (encrypt_event F e d)")
    (auto simp: jo_append_def journal_events_def map_filter_snoc split: option.splits)

lemma encrypt_all_post:
  "post (encrypt_all F es d) (\<lambda>ls d'. List.map_filter (opens F (jo_key d)) ls = es \<and> (\<exists>n. d' = d\<lparr>jo_nonce := n\<rparr>))
     (\<lambda>d'. \<exists>n. d' = d\<lparr>jo_nonce := n\<rparr>)"
proof (induction es arbitrary: d)
  case (Cons e es)
  let ?d1 = "d\<lparr>jo_nonce := Suc (jo_nonce d)\<rparr>"
  show ?case
  proof (cases "encrypt_event F e d")
    case (Pair s r)
    with encrypt_event_same [of F e d] have s: "s = ?d1" by simp
    show ?thesis
    proof (cases r)
      case (Inr l)
      with Pair have "opens F (jo_key d) l = Some e" by (intro encrypt_event_opens) simp
      then show ?thesis
        using Cons.IH [of ?d1] by (auto simp: Pair Inr s post_andThen_iff List.map_filter_simps elim!: post_mono)
    qed (auto simp: Pair s)
  qed
next
  case Nil
  have "\<exists>n. d = d\<lparr>jo_nonce := n\<rparr>" by (rule exI [of _ "jo_nonce d"]) simp
  then show ?case by (simp add: List.map_filter_simps)
qed

lemma jo_compact_post:
  "post (jo_compact F p d)
     (\<lambda>n d'. journal_events F d' = filter p (journal_events F d) \<and>
        n = (length (journal_events F d) - length (journal_events F d'), length (journal_events F d')))
     (\<lambda>d'. journal_events F d' = journal_events F d)"
proof (cases "jo_readEvents F d")
  case (Inr es)
  then have es: "es = journal_events F d"
    by (auto simp: jo_readEvents_def journal_events_def dest: read_lines_opens split: option.splits)
  show ?thesis
    unfolding jo_compact_def Inr sum.case
    by (rule post_andThen, rule post_mono [OF encrypt_all_post])
      (auto simp: journal_events_def es split: option.splits)
qed (simp add: jo_compact_def)

section \<open>The contract of a journal\<close>

text \<open>The events of a history of reads, each with its time.\<close>

definition seen :: "(int \<times> 'e list) list \<Rightarrow> 'e set" where
  "seen H = (\<Union>(t, es)\<in>set H. set es)"

lemma seen_Cons [simp]: "seen ((t, es) # H) = set es \<union> seen H"
  by (simp add: seen_def)

lemma seen_member: "(t, es) \<in> set H \<Longrightarrow> set es \<subseteq> seen H"
  by (auto simp: seen_def)

text \<open>A log of events that can also be compacted.\<close>

locale journal_log = event_log P evs E errors
  for P :: "('s, 'e) event_store" and evs :: "'s \<Rightarrow> 'e list" and E :: "'s \<Rightarrow> 's \<Rightarrow> bool" and errors :: "string set" +
  fixes C :: "('e \<Rightarrow> bool) \<Rightarrow> 's \<Rightarrow> ('s, string, nat \<times> nat) outcome"
  assumes compact: "post (C p d)
     (\<lambda>n d'. evs d' = filter p (evs d) \<and> n = (length (evs d) - length (evs d'), length (evs d')))
     (\<lambda>d'. evs d' = evs d)"
begin

lemma compact_post:
  assumes "\<And>n d. evs d = filter p (evs (sv_data g)) \<Longrightarrow> n = (length (evs (sv_data g)) - length (evs d), length (evs d)) \<Longrightarrow>
      N n (g\<lparr>sv_data := d\<rparr>)"
    and "\<And>d. evs d = evs (sv_data g) \<Longrightarrow> X (g\<lparr>sv_data := d\<rparr>)"
  shows "post (on_store F (C p) g) N X"
  by (rule on_store_post, rule post_mono [OF compact]) (use assms in auto)

text \<open>
  From \<open>g0\<close> to \<open>g\<close> the log is the same; at most one event was appended, and it satisfies
  \<open>Q\<close>; or all events with a key in \<open>S\<close> were removed. Ids were only drawn.
\<close>

definition same :: "'s service \<Rightarrow> 's service \<Rightarrow> bool" where
  "same g0 g \<longleftrightarrow> sv_fresh g0 \<le> sv_fresh g \<and> sv_now g = sv_now g0 \<and> evs (sv_data g) = evs (sv_data g0)"

definition grown :: "('e \<Rightarrow> nat \<Rightarrow> bool) \<Rightarrow> 's service \<Rightarrow> 's service \<Rightarrow> bool" where
  "grown Q g0 g \<longleftrightarrow> sv_fresh g0 \<le> sv_fresh g \<and>
     (evs (sv_data g) = evs (sv_data g0) \<or> (\<exists>e. evs (sv_data g) = evs (sv_data g0) @ [e] \<and> Q e (sv_fresh g)))"

definition removed :: "('e \<Rightarrow> string) \<Rightarrow> string set \<Rightarrow> 's service \<Rightarrow> 's service \<Rightarrow> bool" where
  "removed K S g0 g \<longleftrightarrow> sv_fresh g0 \<le> sv_fresh g \<and>
     evs (sv_data g) = filter (\<lambda>e. K e \<notin> S) (evs (sv_data g0))"

lemma same_refl [simp]: "same g g"
  by (simp add: same_def)

lemma same_grown: "same g0 g \<Longrightarrow> grown Q g0 g"
  by (simp add: same_def grown_def)

lemma same_fresh: "same g0 g \<Longrightarrow> sv_fresh g \<le> n \<Longrightarrow> same g0 (g\<lparr>sv_fresh := n\<rparr>)"
  by (simp add: same_def)

lemma same_draw [simp]: "same g0 g \<Longrightarrow> same g0 (g\<lparr>sv_fresh := Suc (sv_fresh g)\<rparr>)"
  by (simp add: same_def)

lemma removed_self [simp]: "removed K {} g g"
  by (simp add: removed_def)

lemma same_removed: "same g0 g1 \<Longrightarrow> removed K S g1 g2 \<Longrightarrow> removed K S g0 g2"
  by (auto simp: same_def removed_def)

lemma append_grown:
  assumes "same g0 g" and "Q e (sv_fresh g)"
  shows "post (on_store F (eo_appendEvent P e) g) (\<lambda>_. grown Q g0) (grown Q g0)"
  by (rule append_post) (use assms in \<open>auto simp: same_def grown_def\<close>)

lemma read_same: "same g0 g \<Longrightarrow>
    post (from_store F (eo_readEvents P) g) (\<lambda>es g1. es = evs (sv_data g0) \<and> same g0 g1) (same g0)"
  by (rule read_post) (auto simp: same_def)

lemma compact_removed:
  "post (on_store F (C (\<lambda>e. K e \<notin> S)) g) (\<lambda>_. removed K S g) (removed K {} g)"
  by (rule compact_post) (auto simp: removed_def)

end

interpretation enc: journal_log "journal_store F" "journal_events F" "journal_change F" "{''disk''}" "jo_compact F"
  for F :: "'e journal_format"
proof unfold_locales
  show "eo_readEvents (journal_store F) d = Inr l \<Longrightarrow> l = journal_events F d" for d l
    by (auto simp: jo_readEvents_def journal_events_def dest: read_lines_opens split: option.splits)
qed (use jo_append_post jo_compact_post in \<open>auto simp: journal_change_def\<close>)

section \<open>What the key holder reads, and who does not\<close>

lemma read_lines_append: "read_lines F k (ls @ ms) =
    bindR (read_lines F k ls) (\<lambda>es. bindR (read_lines F k ms) (\<lambda>fs. Inr (es @ fs)))"
proof (induction F k ls rule: read_lines.induct)
  case (4 F k v ls)
  then show ?case
    by (cases "decrypt_envelope F k v"; cases "read_lines F k ls"; cases "read_lines F k ms") auto
qed (auto simp: bindR_def split: sum.splits)

text \<open>
  C25: an event that was appended is read back after all events before it, and the same file
  read with any other key is refused as a whole.
\<close>

theorem journal_roundtrip:
  assumes "jo_readEvents F d = Inr es" and "jo_append F e d = (d', Inr ())" and "k \<noteq> jo_key d"
  shows "jo_readEvents F d' = Inr (es @ [e]) \<and> isl (jo_readEvents F (d'\<lparr>jo_key := k\<rparr>))"
proof -
  let ?v = "\<lparr>en_version = fm_version F, en_key = jo_key d, en_aad = fm_aad F, en_nonce = jo_nonce d, en_event = e\<rparr>"
  have d': "d' = d\<lparr>jo_nonce := Suc (jo_nonce d), jo_lines := jo_lines d @ [Sealed ?v]\<rparr>"
    and size: "\<not> fm_maxBytes F < fm_bytes F e + 1" and ok: "jo_accessError d = None"
    using assms(2) by (auto simp: jo_append_def encrypt_event_def Let_def split: if_splits option.splits)
  have r: "read_lines F (jo_key d) (jo_lines d) = Inr es" using assms(1) ok by (simp add: jo_readEvents_def)
  have "read_lines F (jo_key d) [Sealed ?v] = Inr [e]" "isl (read_lines F k [Sealed ?v])"
    using size assms(3) by (simp_all add: decrypt_envelope_def)
  then show ?thesis
    using r ok
    by (cases "read_lines F k (jo_lines d)"; cases "read_lines F k [Sealed ?v]")
      (simp_all add: jo_readEvents_def d' read_lines_append)
qed

definition sample_journal :: "nat journal" where
  "sample_journal = empty_journal [1]"

theorem journal_roundtrip_witness:
  "jo_readEvents (memory_format (\<lambda>_. 0)) (fst (jo_append (memory_format (\<lambda>_. 0)) 7 sample_journal)) = Inr [7]"
  using journal_roundtrip [of "memory_format (\<lambda>_. 0)" sample_journal "[]" 7
      "fst (jo_append (memory_format (\<lambda>_. 0)) 7 sample_journal)" "[]"]
  by (simp add: sample_journal_def empty_journal_def jo_readEvents_def jo_append_def encrypt_event_def Let_def memory_format_def)

section \<open>Files for concrete runs\<close>

text \<open>A service whose file holds the given events with their nonces, all within the limit of the format.\<close>

definition sealed_line :: "'e journal_format \<Rightarrow> nat \<times> 'e \<Rightarrow> 'e journal_line" where
  "sealed_line F x = Sealed \<lparr>en_version = fm_version F, en_key = [], en_aad = fm_aad F, en_nonce = fst x, en_event = snd x\<rparr>"

definition sealed_service :: "'e journal_format \<Rightarrow> int \<Rightarrow> nat \<Rightarrow> nat \<Rightarrow> (nat \<times> 'e) list \<Rightarrow> 'e journal service" where
  "sealed_service F t n k es =
     \<lparr>sv_now = t, sv_fresh = n, sv_data = (empty_journal [])\<lparr>jo_lines := map (sealed_line F) es, jo_nonce := k\<rparr>\<rparr>"

definition small_events :: "'e journal_format \<Rightarrow> bool" where
  "small_events F \<longleftrightarrow> (\<forall>e. fm_bytes F e < fm_maxBytes F)"

lemma sealed_fields [simp]: "sv_now (sealed_service F t n k es) = t" "sv_fresh (sealed_service F t n k es) = n"
  "(sealed_service F t n k es)\<lparr>sv_fresh := i\<rparr> = sealed_service F t i k es"
  "(sealed_service F t n k es)\<lparr>sv_now := u\<rparr> = sealed_service F u n k es"
  by (simp_all add: sealed_service_def)

lemma sealed_start: "sealed_service F t 0 0 [] = \<lparr>sv_now = t, sv_fresh = 0, sv_data = empty_journal []\<rparr>"
  by (simp add: sealed_service_def empty_journal_def)

lemma sealed_opens [simp]: "opens F [] (sealed_line F x) = Some (snd x)"
  by (simp add: opens_def sealed_line_def decrypt_envelope_def)

lemma sealed_events [simp]: "journal_events F (sv_data (sealed_service F t n k es)) = map snd es"
  by (induction es) (simp_all add: sealed_service_def journal_events_def empty_journal_def List.map_filter_simps)

lemma sealed_append [simp]:
  "small_events F \<Longrightarrow> on_store W (jo_append F e) (sealed_service F t n k es) = (sealed_service F t n (Suc k) (es @ [(k, e)]), Inr ())"
  by (simp add: on_store_def jo_append_def encrypt_event_def Let_def sealed_service_def empty_journal_def sealed_line_def
      small_events_def Suc_le_eq not_less)

lemma sealed_read_lines: "small_events F \<Longrightarrow> read_lines F [] (map (sealed_line F) es) = Inr (map snd es)"
  by (induction es) (simp_all add: sealed_line_def decrypt_envelope_def small_events_def not_less less_imp_le)

lemma sealed_read [simp]:
  "small_events F \<Longrightarrow> jo_readEvents F (sv_data (sealed_service F t n k es)) = Inr (map snd es)"
  "small_events F \<Longrightarrow> from_store W (jo_readEvents F) (sealed_service F t n k es) = (sealed_service F t n k es, Inr (map snd es))"
  by (simp_all add: from_store_def jo_readEvents_def sealed_service_def empty_journal_def sealed_read_lines)

lemma sealed_compact:
  "small_events F \<Longrightarrow> filter p (map snd es) = [] \<Longrightarrow>
     on_store W (jo_compact F p) (sealed_service F t n k es) = (sealed_service F t n k [], Inr (length es, 0))"
  by (simp add: on_store_def jo_compact_def) (simp add: sealed_service_def empty_journal_def)

lemma small_formats [simp]: "small_events (memory_format (\<lambda>_. 0))" "small_events (perception_format (\<lambda>_. 0))"
  by (simp_all add: small_events_def memory_format_def perception_format_def)

end
