(* ===== verification/Memory.thy ===== *)
theory Memory
  imports Secrets EncryptedJournal "HOL-Library.Product_Lexorder"
begin

text \<open>
  The owner's long-term memory (\<open>packages/zarvis/services/zarvis-memory/runtime.mjs\<close>):
  \<open>ZarvisMemoryRuntime\<close> over an encrypted journal. A method that reads and then writes is
  written in two parts, the read and what follows it on the events that were read, because
  the server does not keep other requests from running in between. Members that are the same
  in every record of a kind (schema, owner, tenant) are left out.
\<close>

section \<open>Records and events\<close>

record provenance =
  pv_type :: string
  pv_id :: string
  pv_uri :: "string option"
  pv_capturedAt :: "string option"

record proposal =
  pp_id :: string
  pp_memory :: string
  pp_revision :: nat
  pp_content :: string
  pp_class :: string
  pp_reason :: string
  pp_confidence :: rat
  pp_days :: int
  pp_expiresAt :: int
  pp_provenance :: provenance
  pp_nonce :: string
  pp_approvalExpiresAt :: int
  pp_createdAt :: int
  pp_digest :: string

record memory_item =
  mm_id :: string
  mm_revision :: nat
  mm_content :: string
  mm_class :: string
  mm_reason :: string
  mm_confidence :: rat
  mm_days :: int
  mm_expiresAt :: int
  mm_provenance :: provenance
  mm_createdAt :: int
  mm_updatedAt :: int
  mm_confirmedAt :: int
  mm_proposal :: string

datatype memory_payload =
    Proposed proposal
  | Confirmed string memory_item
  | Deleted string

record memory_event =
  me_id :: string
  me_at :: int
  me_payload :: memory_payload

datatype memory_error =
    MemoryError string nat string
  | MemoryFault string

abbreviation bad_request :: "string \<Rightarrow> memory_error" where
  "bad_request m \<equiv> MemoryError m 400 ''invalid_memory_request''"

record 's memory_service =
  mr_store :: "('s, memory_event) event_store"
  mr_compact :: "(memory_event \<Rightarrow> bool) \<Rightarrow> 's \<Rightarrow> ('s, string, nat \<times> nat) outcome"
  mr_uuid :: "nat \<Rightarrow> string"
  mr_hash :: "js \<Rightarrow> string"

type_synonym ('s, 'a) memory_result = "('s service, memory_error, 'a) outcome"

section \<open>Validation\<close>

definition mr_requireString :: "js \<Rightarrow> string \<Rightarrow> nat \<Rightarrow> (memory_error, string) result" where
  "mr_requireString v field mx =
     (case v of
        JStr s \<Rightarrow>
          if js_trim s = [] \<or> mx < length (js_trim s) then Inl (bad_request (field @ '' is invalid'')) else Inr (js_trim s)
      | _ \<Rightarrow> Inl (bad_request (field @ '' is required'')))"

definition mr_optionalString :: "js \<Rightarrow> string \<Rightarrow> nat \<Rightarrow> (memory_error, string option) result" where
  "mr_optionalString v field mx =
     (if is_nullish v \<or> v = JStr [] then Inr None else bindR (mr_requireString v field mx) (\<lambda>s. Inr (Some s)))"

definition mr_requireId :: "string \<Rightarrow> string \<Rightarrow> (memory_error, string) result" where
  "mr_requireId v field =
     bindR (mr_requireString (JStr v) field 128) (\<lambda>s.
       if matches_id_pattern s then Inr s else Inl (bad_request (field @ '' is invalid'')))"

definition normalizeConfidence :: "js \<Rightarrow> (memory_error, rat) result" where
  "normalizeConfidence v =
     (case (if is_nullish v then Fin 1 else js_number v) of
        Fin q \<Rightarrow> if q < 0 \<or> 1 < q then Inl (bad_request ''confidence must be between 0 and 1'') else Inr q
      | _ \<Rightarrow> Inl (bad_request ''confidence must be between 0 and 1''))"

definition MEMORY_CLASSES :: "string list" where
  "MEMORY_CLASSES = [''working'', ''episodic'', ''semantic'', ''procedural'']"

text \<open>Default and greatest number of days a class keeps its memories.\<close>

definition RETENTION_LIMITS :: "string \<Rightarrow> int \<times> int" where
  "RETENTION_LIMITS c =
     (if c = ''working'' then (1, 7) else if c = ''episodic'' then (90, 365) else (365, 3650))"

definition normalizeClassification :: "js \<Rightarrow> (memory_error, string) result" where
  "normalizeClassification v =
     bindR (mr_requireString v ''classification'' 32) (\<lambda>s.
       if to_lower s \<in> set MEMORY_CLASSES then Inr (to_lower s) else Inl (bad_request ''classification is unsupported''))"

definition normalizeRetentionDays :: "js \<Rightarrow> string \<Rightarrow> (memory_error, int) result" where
  "normalizeRetentionDays v c =
     (let bad = Inl (bad_request (''retention_days for '' @ c @ '' must be between 1 and '' @ int_str (snd (RETENTION_LIMITS c))))
      in case (if is_nullish v then Fin (of_int (fst (RETENTION_LIMITS c))) else js_number v) of
           Fin q \<Rightarrow> if rat_is_int q \<and> 1 \<le> q \<and> q \<le> of_int (snd (RETENTION_LIMITS c)) then Inr \<lfloor>q\<rfloor> else bad
         | _ \<Rightarrow> bad)"

definition normalizeProvenance :: "js \<Rightarrow> (memory_error, provenance) result" where
  "normalizeProvenance v =
     (if \<not> is_plain_object v then Inl (bad_request ''provenance is required'')
      else
        bindR (mr_requireString (get_prop v ''source_type'') ''provenance.source_type'' 64) (\<lambda>t.
        if t \<notin> {''owner'', ''session'', ''task'', ''document'', ''integration''}
        then Inl (bad_request ''provenance.source_type is unsupported'')
        else
        bindR (mr_requireString (get_prop v ''source_id'') ''provenance.source_id'' 256) (\<lambda>i.
        bindR (mr_optionalString (get_prop v ''source_uri'') ''provenance.source_uri'' 1000) (\<lambda>u.
        bindR (mr_optionalString (get_prop v ''captured_at'') ''provenance.captured_at'' 64) (\<lambda>c.
          Inr \<lparr>pv_type = t, pv_id = i, pv_uri = u, pv_capturedAt = c\<rparr>)))))"

definition assertMemorySafe :: "string \<Rightarrow> (memory_error, unit) result" where
  "assertMemorySafe s =
     (if holds_secret s
      then Inl (MemoryError ''Raw secrets, private keys, credentials, or payment card data cannot be stored in memory''
                  422 ''sensitive_content_rejected'')
      else Inr ())"

section \<open>Digest and lifetimes\<close>

definition opt_js :: "string option \<Rightarrow> js" where
  "opt_js v = (case v of Some s \<Rightarrow> JStr s | None \<Rightarrow> JNull)"

definition canonicalProposal :: "proposal \<Rightarrow> js" where
  "canonicalProposal p =
     JObj [(''memory_id'', JStr (pp_memory p)), (''revision'', JNum (Fin (of_nat (pp_revision p)))),
       (''content'', JStr (pp_content p)), (''classification'', JStr (pp_class p)), (''reason'', JStr (pp_reason p)),
       (''confidence'', JNum (Fin (pp_confidence p))), (''retention_days'', JNum (Fin (of_int (pp_days p)))),
       (''expires_at'', JStr (to_iso (pp_expiresAt p))),
       (''provenance'', JObj [(''source_type'', JStr (pv_type (pp_provenance p))), (''source_id'', JStr (pv_id (pp_provenance p))),
          (''source_uri'', opt_js (pv_uri (pp_provenance p))), (''captured_at'', opt_js (pv_capturedAt (pp_provenance p)))])]"

definition proposalDigest :: "(js \<Rightarrow> string) \<Rightarrow> proposal \<Rightarrow> string" where
  "proposalDigest H p = H (canonicalProposal p)"

definition DAY_MS :: int where
  "DAY_MS = 24 * 60 * 60 * 1000"

definition PROPOSAL_TTL_MS :: int where
  "PROPOSAL_TTL_MS = 15 * 60 * 1000"

definition isExpired :: "memory_item \<Rightarrow> int \<Rightarrow> bool" where
  "isExpired m now \<longleftrightarrow> mm_expiresAt m \<le> now"

section \<open>State of the log\<close>

record memory_state =
  ms_proposals :: "(string, proposal) jsmap"
  ms_memories :: "(string, memory_item) jsmap"

definition apply_memory :: "memory_state \<Rightarrow> memory_event \<Rightarrow> memory_state" where
  "apply_memory s e =
     (case me_payload e of
        Proposed p \<Rightarrow> s\<lparr>ms_proposals := map_set (ms_proposals s) (pp_id p) p\<rparr>
      | Confirmed _ m \<Rightarrow> s\<lparr>ms_memories := map_set (ms_memories s) (mm_id m) m\<rparr>
      | Deleted i \<Rightarrow> s\<lparr>ms_memories := map_delete (ms_memories s) i\<rparr>)"

definition latestState :: "memory_event list \<Rightarrow> memory_state" where
  "latestState es = foldl apply_memory \<lparr>ms_proposals = [], ms_memories = []\<rparr> es"

section \<open>Proposals\<close>

definition schema_checked :: "js \<Rightarrow> (memory_error, unit) result" where
  "schema_checked input =
     (if is_nullish input then Inl (MemoryFault ''Cannot read properties of null'')
      else if truthy (get_prop input ''schema_version'') \<and>
        get_prop input ''schema_version'' \<noteq> JStr ''zarvis.memory.proposal-requested.v1''
      then Inl (bad_request ''schema_version is unsupported'')
      else Inr ())"

text \<open>The checks before the object literal: class, content, secrets, retention.\<close>

definition proposal_input :: "js \<Rightarrow> (memory_error, string \<times> string \<times> int) result" where
  "proposal_input input =
     bindR (normalizeClassification (get_prop input ''classification'')) (\<lambda>c.
     bindR (mr_requireString (get_prop input ''content'') ''content'' 4000) (\<lambda>t.
     bindR (assertMemorySafe t) (\<lambda>_.
     bindR (normalizeRetentionDays (get_prop input ''retention_days'') c) (\<lambda>d. Inr (c, t, d)))))"

text \<open>\<open>append\<close>, with the ids drawn before in the order of the members.\<close>

definition mr_append :: "'s memory_service \<Rightarrow> memory_event \<Rightarrow> 's service \<Rightarrow> ('s, unit) memory_result" where
  "mr_append A e g = on_store MemoryFault (eo_appendEvent (mr_store A) e) g"

definition the_id :: "'s memory_service \<Rightarrow> string option \<Rightarrow> 's service \<Rightarrow> ('s, string) memory_result" where
  "the_id A i g = (case i of Some s \<Rightarrow> (g, Inr s) | None \<Rightarrow> new_id (mr_uuid A) g)"

definition build_proposal ::
  "(js \<Rightarrow> string) \<Rightarrow> string \<Rightarrow> string \<Rightarrow> nat \<Rightarrow> string \<times> string \<times> int \<Rightarrow> string \<Rightarrow> rat \<Rightarrow> provenance \<Rightarrow> string \<Rightarrow> int \<Rightarrow> proposal" where
  "build_proposal H i m r x reason conf v n now =
     (case x of (c, t, d) \<Rightarrow>
        let p = \<lparr>pp_id = i, pp_memory = m, pp_revision = r, pp_content = t, pp_class = c, pp_reason = reason,
                 pp_confidence = conf, pp_days = d, pp_expiresAt = now + d * DAY_MS, pp_provenance = v, pp_nonce = n,
                 pp_approvalExpiresAt = now + PROPOSAL_TTL_MS, pp_createdAt = now, pp_digest = []\<rparr>
        in p\<lparr>pp_digest := proposalDigest H p\<rparr>)"

definition createProposal ::
  "'s memory_service \<Rightarrow> js \<Rightarrow> string option \<Rightarrow> nat option \<Rightarrow> 's service \<Rightarrow> ('s, proposal) memory_result" where
  "createProposal A input memoryId revision g =
     andThen (check (schema_checked input) g) (\<lambda>g1 _.
     andThen (check (proposal_input input) g1) (\<lambda>g2 x.
     andThen (new_id (mr_uuid A) g2) (\<lambda>g3 e.
     andThen (new_id (mr_uuid A) g3) (\<lambda>g4 i.
     andThen (the_id A memoryId g4) (\<lambda>g5 m.
     andThen (check (mr_requireString (get_prop input ''reason'') ''reason'' 1000) g5) (\<lambda>g6 reason.
     andThen (check (normalizeConfidence (get_prop input ''confidence'')) g6) (\<lambda>g7 conf.
     andThen (check (normalizeProvenance (get_prop input ''provenance'')) g7) (\<lambda>g8 v.
     andThen (new_id (mr_uuid A) g8) (\<lambda>g9 n.
       let p = build_proposal (mr_hash A) i m (or_else revision 1) x reason conf v n (sv_now g)
       in andThen (mr_append A \<lparr>me_id = e, me_at = sv_now g, me_payload = Proposed p\<rparr> g9) (\<lambda>g10 _. (g10, Inr p)))))))))))"

section \<open>Confirmation\<close>

definition confirmation_of :: "string \<Rightarrow> memory_event \<Rightarrow> bool" where
  "confirmation_of i e = (case me_payload e of Confirmed j _ \<Rightarrow> j = i | _ \<Rightarrow> False)"

definition confirm_check :: "proposal \<Rightarrow> js \<Rightarrow> memory_item option \<Rightarrow> int \<Rightarrow> (memory_error, unit) result" where
  "confirm_check p input previous now =
     (if pp_approvalExpiresAt p < now then Inl (MemoryError ''Memory proposal approval has expired'' 409 ''proposal_expired'')
      else if is_nullish input then Inl (MemoryFault ''Cannot read properties of null'')
      else if get_prop input ''approval_digest'' \<noteq> JStr (pp_digest p)
      then Inl (MemoryError ''Approval digest does not match the exact memory proposal'' 409 ''approval_mismatch'')
      else if get_prop input ''approval_nonce'' \<noteq> JStr (pp_nonce p)
      then Inl (MemoryError ''Approval nonce is invalid'' 409 ''approval_mismatch'')
      else (case previous of
              Some m \<Rightarrow> if pp_revision p \<le> mm_revision m
                        then Inl (MemoryError ''Memory proposal revision is stale'' 409 ''stale_revision'') else Inr ()
            | None \<Rightarrow> Inr ()))"

definition new_memory :: "proposal \<Rightarrow> memory_item option \<Rightarrow> int \<Rightarrow> memory_item" where
  "new_memory p previous now =
     \<lparr>mm_id = pp_memory p, mm_revision = pp_revision p, mm_content = pp_content p, mm_class = pp_class p,
      mm_reason = pp_reason p, mm_confidence = pp_confidence p, mm_days = pp_days p, mm_expiresAt = pp_expiresAt p,
      mm_provenance = pp_provenance p,
      mm_createdAt = (case previous of Some m \<Rightarrow> mm_createdAt m | None \<Rightarrow> now), mm_updatedAt = now,
      mm_confirmedAt = now, mm_proposal = pp_id p\<rparr>"

text \<open>What follows the read of the events \<open>es\<close>; the memory, and whether it was confirmed before.\<close>

definition confirm_with ::
  "'s memory_service \<Rightarrow> string \<Rightarrow> js \<Rightarrow> memory_event list \<Rightarrow> 's service \<Rightarrow> ('s, memory_item \<times> bool) memory_result" where
  "confirm_with A i input es g =
     (let st = latestState es in
      case map_get (ms_proposals st) i of
        None \<Rightarrow> (g, Inl (MemoryError ''Memory proposal was not found'' 404 ''proposal_not_found''))
      | Some p \<Rightarrow>
          (case find_last (confirmation_of i) es of
             Some e \<Rightarrow> (case me_payload e of Confirmed _ m \<Rightarrow> (g, Inr (m, True)) | _ \<Rightarrow> (g, Inl (MemoryFault [])))
           | None \<Rightarrow>
               let previous = map_get (ms_memories st) (pp_memory p); m = new_memory p previous (sv_now g)
               in andThen (check (confirm_check p input previous (sv_now g)) g) (\<lambda>g1 _.
                  andThen (new_id (mr_uuid A) g1) (\<lambda>g2 e.
                  andThen (mr_append A \<lparr>me_id = e, me_at = sv_now g, me_payload = Confirmed i m\<rparr> g2) (\<lambda>g3 _.
                    (g3, Inr (m, False)))))))"

definition mr_read :: "'s memory_service \<Rightarrow> 's service \<Rightarrow> ('s, memory_event list) memory_result" where
  "mr_read A g = from_store MemoryFault (eo_readEvents (mr_store A)) g"

definition confirmProposal ::
  "'s memory_service \<Rightarrow> string \<Rightarrow> js \<Rightarrow> 's service \<Rightarrow> ('s, memory_item \<times> bool) memory_result" where
  "confirmProposal A i input g =
     andThen (check (mr_requireId i ''proposal_id'') g) (\<lambda>g1 _.
     andThen (mr_read A g1) (\<lambda>g2 es. confirm_with A i input es g2))"

section \<open>Reading\<close>

definition not_found :: memory_error where
  "not_found = MemoryError ''Memory was not found'' 404 ''memory_not_found''"

definition memory_in :: "string \<Rightarrow> memory_event list \<Rightarrow> (memory_error, memory_item) result" where
  "memory_in i es = (case map_get (ms_memories (latestState es)) i of None \<Rightarrow> Inl not_found | Some m \<Rightarrow> Inr m)"

definition getMemory :: "'s memory_service \<Rightarrow> string \<Rightarrow> 's service \<Rightarrow> ('s, memory_item) memory_result" where
  "getMemory A i g =
     andThen (check (mr_requireId i ''memory_id'') g) (\<lambda>g1 _.
     andThen (mr_read A g1) (\<lambda>g2 es. check (memory_in i es) g2))"

definition proposeCorrection :: "'s memory_service \<Rightarrow> string \<Rightarrow> js \<Rightarrow> 's service \<Rightarrow> ('s, proposal) memory_result" where
  "proposeCorrection A i input g =
     andThen (getMemory A i g) (\<lambda>g1 m. createProposal A input (Some (mm_id m)) (Some (mm_revision m + 1)) g1)"

text \<open>\<open>/[\p{L}\p{N}_-]+/gu\<close> on the lower case text; a set, so without repetitions.\<close>

definition token_char :: "char \<Rightarrow> bool" where
  "token_char c =
     (is_alnum c \<or> c \<in> set ''_-'' \<or> code c \<in> {170, 178, 179, 181, 185, 186, 188, 189, 190}
      \<or> (192 \<le> code c \<and> code c \<noteq> 215 \<and> code c \<noteq> 247))"

definition tokenize :: "string \<Rightarrow> string list" where
  "tokenize s = remdups (match_all (at_least 1 token_char) [] (to_lower s))"

definition haystack :: "memory_item \<Rightarrow> string list" where
  "haystack m =
     tokenize (join_with '' '' [mm_content m, mm_class m, mm_reason m, pv_type (mm_provenance m), pv_id (mm_provenance m)])"

definition lexicalScore :: "memory_item \<Rightarrow> string list \<Rightarrow> rat" where
  "lexicalScore m q =
     (if q = [] then 1 else of_nat (length (filter (\<lambda>t. t \<in> set (haystack m)) q)) / of_nat (length q))"

text \<open>\<open>(a, b) => b.score - a.score || localeCompare(b.updated_at, a.updated_at)\<close>\<close>

definition rank :: "memory_item \<times> rat \<Rightarrow> rat \<times> int" where
  "rank x = (- snd x, - mm_updatedAt (fst x))"

definition ranked :: "memory_event list \<Rightarrow> string list \<Rightarrow> string option \<Rightarrow> bool \<Rightarrow> int \<Rightarrow> (memory_item \<times> rat) list" where
  "ranked es q c expired now =
     sort_key rank
       (filter (\<lambda>x. q = [] \<or> 0 < snd x)
         (map (\<lambda>m. (m, lexicalScore m q))
           (filter (\<lambda>m. c = None \<or> c = Some (mm_class m))
             (filter (\<lambda>m. expired \<or> \<not> isExpired m now) (map_values (ms_memories (latestState es)))))))"

definition listMemories ::
  "'s memory_service \<Rightarrow> string \<Rightarrow> js \<Rightarrow> bool \<Rightarrow> 's service \<Rightarrow> ('s, (memory_item \<times> rat) list) memory_result" where
  "listMemories A query classification expired g =
     andThen (mr_read A g) (\<lambda>g1 es.
     andThen (check (if truthy classification
                     then bindR (normalizeClassification classification) (\<lambda>c. Inr (Some c)) else Inr None) g1) (\<lambda>g2 c.
       (g2, Inr (ranked es (tokenize query) c expired (sv_now g)))))"

definition exportMemories :: "'s memory_service \<Rightarrow> 's service \<Rightarrow> ('s, int \<times> memory_item list) memory_result" where
  "exportMemories A g =
     andThen (listMemories A [] JNull False g) (\<lambda>g1 ms. (g1, Inr (sv_now g1, map fst ms)))"

section \<open>Removal\<close>

text \<open>\<open>event.memory_id\<close>, and \<open>event.memory?.memory_id\<close>.\<close>

definition memory_of :: "memory_event \<Rightarrow> string" where
  "memory_of e = (case me_payload e of Proposed p \<Rightarrow> pp_memory p | Confirmed _ m \<Rightarrow> mm_id m | Deleted i \<Rightarrow> i)"

definition delete_with :: "'s memory_service \<Rightarrow> memory_item \<Rightarrow> 's service \<Rightarrow> ('s, nat) memory_result" where
  "delete_with A m g =
     andThen (on_store MemoryFault (mr_compact A (\<lambda>e. memory_of e \<noteq> mm_id m)) g) (\<lambda>g1 n. (g1, Inr (fst n)))"

definition deleteMemory :: "'s memory_service \<Rightarrow> string \<Rightarrow> 's service \<Rightarrow> ('s, nat) memory_result" where
  "deleteMemory A i g = andThen (getMemory A i g) (\<lambda>g1 m. delete_with A m g1)"

definition expired_ids :: "memory_event list \<Rightarrow> int \<Rightarrow> string list" where
  "expired_ids es now = map mm_id (filter (\<lambda>m. isExpired m now) (map_values (ms_memories (latestState es))))"

text \<open>After the read, with the time taken before it: the memories purged and the events removed.\<close>

definition purge_with ::
  "'s memory_service \<Rightarrow> int \<Rightarrow> memory_event list \<Rightarrow> 's service \<Rightarrow> ('s, nat \<times> nat) memory_result" where
  "purge_with A now es g =
     (let ids = remdups (expired_ids es now) in
      if ids = [] then (g, Inr (0, 0))
      else andThen (on_store MemoryFault (mr_compact A (\<lambda>e. memory_of e \<notin> set ids)) g)
             (\<lambda>g1 n. (g1, Inr (length ids, fst n))))"

definition purgeExpired :: "'s memory_service \<Rightarrow> 's service \<Rightarrow> ('s, nat \<times> nat) memory_result" where
  "purgeExpired A g = andThen (mr_read A g) (\<lambda>g1 es. purge_with A (sv_now g) es g1)"

section \<open>The service as a step relation\<close>

text \<open>
  The requests of \<open>server.mjs\<close> one after the other, each complete before the next begins;
  time passing; a change of the store's environment.
\<close>

inductive ms_step :: "'s memory_service \<Rightarrow> ('s \<Rightarrow> 's \<Rightarrow> bool) \<Rightarrow> 's service \<Rightarrow> 's service \<Rightarrow> bool" for A E where
  propose: "ms_step A E g (fst (createProposal A input None None g))"
| correct: "ms_step A E g (fst (proposeCorrection A i input g))"
| confirm: "ms_step A E g (fst (confirmProposal A i input g))"
| delete: "ms_step A E g (fst (deleteMemory A i g))"
| purge: "ms_step A E g (fst (purgeExpired A g))"
| time_passes: "sv_now g \<le> t \<Longrightarrow> ms_step A E g (g\<lparr>sv_now := t\<rparr>)"
| environment: "E (sv_data g) d \<Longrightarrow> ms_step A E g (g\<lparr>sv_data := d\<rparr>)"

inductive ms_reachable :: "'s memory_service \<Rightarrow> ('s \<Rightarrow> 's \<Rightarrow> bool) \<Rightarrow> 's \<Rightarrow> 's service \<Rightarrow> bool" for A E s0 where
  start: "ms_reachable A E s0 \<lparr>sv_now = t, sv_fresh = 0, sv_data = s0\<rparr>"
| step: "ms_reachable A E s0 g \<Longrightarrow> ms_step A E g g' \<Longrightarrow> ms_reachable A E s0 g'"

text \<open>
  Overlapping requests: what a request does after its read is a step of its own, on any list
  of events that was read at some time before, with the time of that read.
\<close>

type_synonym 's overlapped = "'s service \<times> (int \<times> memory_event list) list"

inductive mo_step :: "'s memory_service \<Rightarrow> ('s \<Rightarrow> 's \<Rightarrow> bool) \<Rightarrow> 's overlapped \<Rightarrow> 's overlapped \<Rightarrow> bool" for A E where
  read: "eo_readEvents (mr_store A) (sv_data g) = Inr es \<Longrightarrow> mo_step A E (g, H) (g, (sv_now g, es) # H)"
| propose: "mo_step A E (g, H) (fst (createProposal A input None None g), H)"
| correct: "(t, es) \<in> set H \<Longrightarrow> memory_in i es = Inr m \<Longrightarrow>
    mo_step A E (g, H) (fst (createProposal A input (Some (mm_id m)) (Some (mm_revision m + 1)) g), H)"
| confirm: "(t, es) \<in> set H \<Longrightarrow> mo_step A E (g, H) (fst (confirm_with A i input es g), H)"
| delete: "(t, es) \<in> set H \<Longrightarrow> memory_in i es = Inr m \<Longrightarrow> mo_step A E (g, H) (fst (delete_with A m g), H)"
| purge: "(t, es) \<in> set H \<Longrightarrow> mo_step A E (g, H) (fst (purge_with A t es g), H)"
| time_passes: "sv_now g \<le> t \<Longrightarrow> mo_step A E (g, H) (g\<lparr>sv_now := t\<rparr>, H)"
| environment: "E (sv_data g) d \<Longrightarrow> mo_step A E (g, H) (g\<lparr>sv_data := d\<rparr>, H)"

inductive mo_reachable :: "'s memory_service \<Rightarrow> ('s \<Rightarrow> 's \<Rightarrow> bool) \<Rightarrow> 's \<Rightarrow> 's overlapped \<Rightarrow> bool" for A E s0 where
  start: "mo_reachable A E s0 (\<lparr>sv_now = t, sv_fresh = 0, sv_data = s0\<rparr>, [])"
| step: "mo_reachable A E s0 x \<Longrightarrow> mo_step A E x y \<Longrightarrow> mo_reachable A E s0 y"

end
