(* ===== verification/MemorySpec.thy ===== *)
theory MemorySpec
  imports Memory
begin

text \<open>
  What the memory promises, on its log alone: what stands behind every event, the order of
  the confirmations, and how the state of a log changes when events are removed.
\<close>

section \<open>What stands behind an event\<close>

definition proposal_ok :: "(js \<Rightarrow> string) \<Rightarrow> proposal \<Rightarrow> bool" where
  "proposal_ok H p \<longleftrightarrow>
     pp_content p \<noteq> [] \<and> length (pp_content p) \<le> 4000 \<and> \<not> (\<exists>r\<in>set SECRET_PATTERNS. occurs r (pp_content p)) \<and>
     pp_class p \<in> set MEMORY_CLASSES \<and> 1 \<le> pp_days p \<and> pp_days p \<le> snd (RETENTION_LIMITS (pp_class p)) \<and>
     pp_expiresAt p = pp_createdAt p + pp_days p * DAY_MS \<and>
     pp_approvalExpiresAt p = pp_createdAt p + PROPOSAL_TTL_MS \<and>
     0 \<le> pp_confidence p \<and> pp_confidence p \<le> 1 \<and> pp_digest p = proposalDigest H p"

text \<open>A memory has the members of the proposal it was confirmed from.\<close>

definition copies :: "memory_item \<Rightarrow> proposal \<Rightarrow> bool" where
  "copies m p \<longleftrightarrow>
     mm_id m = pp_memory p \<and> mm_revision m = pp_revision p \<and> mm_content m = pp_content p \<and> mm_class m = pp_class p \<and>
     mm_reason m = pp_reason p \<and> mm_confidence m = pp_confidence p \<and> mm_days m = pp_days p \<and>
     mm_expiresAt m = pp_expiresAt p \<and> mm_provenance m = pp_provenance p \<and> mm_proposal m = pp_id p"

definition backed :: "(js \<Rightarrow> string) \<Rightarrow> memory_event set \<Rightarrow> memory_event \<Rightarrow> bool" where
  "backed H L e \<longleftrightarrow>
     (case me_payload e of
        Proposed p \<Rightarrow> proposal_ok H p
      | Confirmed i m \<Rightarrow>
          (\<exists>e0\<in>L. \<exists>p. me_payload e0 = Proposed p \<and> pp_id p = i \<and> copies m p \<and>
             mm_confirmedAt m = me_at e \<and> me_at e \<le> pp_approvalExpiresAt p)
      | Deleted _ \<Rightarrow> False)"

lemma backed_mono: "backed H L e \<Longrightarrow> L \<subseteq> M \<Longrightarrow> backed H M e"
  by (auto simp: backed_def split: memory_payload.splits)

lemma latestState_Nil [simp]: "latestState [] = \<lparr>ms_proposals = [], ms_memories = []\<rparr>"
  by (simp add: latestState_def)

lemma latestState_snoc [simp]: "latestState (l @ [e]) = apply_memory (latestState l) e"
  by (simp add: latestState_def)

abbreviation memories :: "memory_event list \<Rightarrow> (string, memory_item) jsmap" where
  "memories l \<equiv> ms_memories (latestState l)"

lemma memories_ok: "map_ok (memories l)"
  by (induction l rule: rev_induct) (auto simp: apply_memory_def split: memory_payload.splits)

lemma memories_from: "map_get (memories l) i = Some m \<Longrightarrow> mm_id m = i \<and> (\<exists>e\<in>set l. \<exists>j. me_payload e = Confirmed j m)"
  by (induction l rule: rev_induct) (auto simp: apply_memory_def split: memory_payload.splits if_splits)

lemma proposals_from:
  "map_get (ms_proposals (latestState l)) i = Some p \<Longrightarrow> pp_id p = i \<and> (\<exists>e\<in>set l. me_payload e = Proposed p)"
  by (induction l rule: rev_induct) (auto simp: apply_memory_def split: memory_payload.splits if_splits)

lemma memory_in_Inr [result_simps]: "memory_in i l = Inr m \<longleftrightarrow> map_get (memories l) i = Some m"
  by (auto simp: memory_in_def split: option.splits)

lemma new_memory_copies: "copies (new_memory p q now) p"
  by (simp add: copies_def new_memory_def)

lemma new_memory_confirmed [simp]: "mm_confirmedAt (new_memory p q now) = now" "mm_id (new_memory p q now) = pp_memory p"
  by (simp_all add: new_memory_def)

lemma requireString_text: "mr_requireString v f n = Inr s \<Longrightarrow> s \<noteq> [] \<and> length s \<le> n"
  by (cases v) (auto simp: mr_requireString_def split: if_splits)

lemma proposal_input_ok:
  "proposal_input input = Inr (c, t, d) \<Longrightarrow>
     t \<noteq> [] \<and> length t \<le> 4000 \<and> \<not> holds_secret t \<and> c \<in> set MEMORY_CLASSES \<and> 1 \<le> d \<and> d \<le> snd (RETENTION_LIMITS c)"
  by (auto simp: proposal_input_def bindR_Inr_iff normalizeClassification_def assertMemorySafe_def normalizeRetentionDays_def
      Let_def le_floor_iff floor_le_iff dest: requireString_text split: if_splits jsnum.splits)

lemma build_proposal_ok:
  assumes "proposal_input input = Inr x" and "normalizeConfidence w = Inr conf"
  shows "proposal_ok H (build_proposal H i m r x reason conf v n now)"
  using assms
  by (cases x)
    (auto simp: proposal_ok_def build_proposal_def Let_def holds_secret_iff proposalDigest_def canonicalProposal_def
      normalizeConfidence_def dest: proposal_input_ok split: if_splits jsnum.splits)

lemma build_proposal_ids:
  "pp_id (build_proposal H i m r x reason conf v n now) = i"
  "pp_memory (build_proposal H i m r x reason conf v n now) = m"
  "pp_revision (build_proposal H i m r x reason conf v n now) = r"
  by (cases x; simp add: build_proposal_def Let_def)+

section \<open>The order of confirmations\<close>

text \<open>Of two confirmations: different proposals, and a greater revision for the same memory.\<close>

definition later_confirmation :: "memory_event \<Rightarrow> memory_event \<Rightarrow> bool" where
  "later_confirmation e e' \<longleftrightarrow>
     (case (me_payload e, me_payload e') of
        (Confirmed i m, Confirmed j n) \<Rightarrow> i \<noteq> j \<and> (mm_id m = mm_id n \<longrightarrow> mm_revision m < mm_revision n)
      | _ \<Rightarrow> True)"

definition in_order :: "memory_event list \<Rightarrow> bool" where
  "in_order l \<longleftrightarrow> sorted_wrt later_confirmation l \<and> (\<forall>e\<in>set l. \<forall>i. me_payload e \<noteq> Deleted i)"

lemma in_order_filter: "in_order l \<Longrightarrow> in_order (filter p l)"
  by (auto simp: in_order_def sorted_wrt_filter)

lemma in_order_snoc:
  "in_order (l @ [e]) \<longleftrightarrow> in_order l \<and> (\<forall>i. me_payload e \<noteq> Deleted i) \<and> (\<forall>e0\<in>set l. later_confirmation e0 e)"
  by (auto simp: in_order_def sorted_wrt_append)

lemma latest_revision:
  assumes "in_order l" and "e \<in> set l" and "me_payload e = Confirmed i m"
  shows "\<exists>n. map_get (memories l) (mm_id m) = Some n \<and> mm_revision m \<le> mm_revision n"
  using assms
proof (induction l rule: rev_induct)
  case (snoc e1 l)
  show ?case
  proof (cases "e = e1")
    case True
    with snoc.prems show ?thesis by (simp add: apply_memory_def)
  next
    case False
    with snoc obtain n where n: "map_get (memories l) (mm_id m) = Some n" "mm_revision m \<le> mm_revision n"
      by (auto simp: in_order_snoc)
    show ?thesis
    proof (cases "me_payload e1")
      case (Confirmed j k)
      with snoc.prems False have "mm_id m = mm_id k \<longrightarrow> mm_revision m < mm_revision k"
        by (auto simp: in_order_snoc later_confirmation_def)
      with n Confirmed show ?thesis by (auto simp: apply_memory_def)
    next
      case (Deleted j)
      with snoc.prems show ?thesis by (auto simp: in_order_snoc)
    qed (use n in \<open>simp add: apply_memory_def\<close>)
  qed
qed simp

lemma confirmation_in_order:
  assumes "in_order l" and "find_last (confirmation_of i) l = None"
    and "\<And>m. map_get (memories l) (pp_memory p) = Some m \<Longrightarrow> mm_revision m < pp_revision p"
    and "me_payload e = Confirmed i (new_memory p q now)"
  shows "in_order (l @ [e])"
proof -
  have "later_confirmation e0 e" if e0: "e0 \<in> set l" for e0
  proof (cases "me_payload e0")
    case (Confirmed j m)
    have "j \<noteq> i" using assms(2) e0 Confirmed by (auto simp: find_last_def find_None_all confirmation_of_def)
    moreover have "mm_revision m < pp_revision p" if "mm_id m = pp_memory p"
      using latest_revision [OF assms(1) e0 Confirmed] assms(3) that by fastforce
    ultimately show ?thesis by (simp add: later_confirmation_def assms(4) Confirmed new_memory_def)
  qed (simp_all add: later_confirmation_def)
  with assms(1,4) show ?thesis by (simp add: in_order_snoc)
qed

section \<open>Removing events\<close>

text \<open>Removing all events of some memories removes these memories and changes no other.\<close>

lemma memories_filter:
  "map_get (memories (filter (\<lambda>e. memory_of e \<notin> S) l)) i = (if i \<in> S then None else map_get (memories l) i)"
  by (induction l rule: rev_induct) (auto simp: apply_memory_def memory_of_def split: memory_payload.splits)

lemma expired_ids_iff: "i \<in> set (expired_ids l now) \<longleftrightarrow> (\<exists>m. map_get (memories l) i = Some m \<and> isExpired m now)"
proof
  assume "i \<in> set (expired_ids l now)"
  then obtain m k where m: "mm_id m = i" "isExpired m now" "(k, m) \<in> set (memories l)"
    by (auto simp: expired_ids_def map_values_def)
  then have "map_get (memories l) k = Some m" using map_get_iff [OF memories_ok] by blast
  with m memories_from show "\<exists>m. map_get (memories l) i = Some m \<and> isExpired m now" by metis
next
  assume "\<exists>m. map_get (memories l) i = Some m \<and> isExpired m now"
  then obtain m where m: "map_get (memories l) i = Some m" "isExpired m now" by blast
  with memories_from have "mm_id m = i" by blast
  with m map_values_get [OF m(1)] show "i \<in> set (expired_ids l now)" by (force simp: expired_ids_def)
qed

end
