(* ===== verification/MemoryProperties.thy ===== *)
theory MemoryProperties
  imports MemorySpec
begin

text \<open>
  What every method of the memory does to the log, over any journal that keeps the contract
  of \<open>EncryptedJournal\<close>: it appends at most one event, or removes the events of some
  memories. From that, the invariants of both step relations: with overlapping requests
  every event is backed; with requests one after the other the confirmations are in order
  and an id that was removed does not come back.
\<close>

definition ids_used :: "(nat \<Rightarrow> string) \<Rightarrow> nat \<Rightarrow> memory_event list \<Rightarrow> bool" where
  "ids_used U n l \<longleftrightarrow> (\<forall>e\<in>set l. memory_of e \<in> U ` {..<n})"

lemma ids_used_more: "ids_used U n l \<Longrightarrow> n \<le> m \<Longrightarrow> ids_used U m l"
  unfolding ids_used_def by fastforce

locale memory_log = journal_log P evs E errors C
  for P :: "('s, memory_event) event_store" and evs :: "'s \<Rightarrow> memory_event list" and E :: "'s \<Rightarrow> 's \<Rightarrow> bool"
    and errors :: "string set" and C :: "(memory_event \<Rightarrow> bool) \<Rightarrow> 's \<Rightarrow> ('s, string, nat \<times> nat) outcome"
begin

definition proper :: "'s memory_service \<Rightarrow> bool" where
  "proper A \<longleftrightarrow> mr_store A = P \<and> mr_compact A = C \<and> inj (mr_uuid A)"

lemma proper_fields: "proper A \<Longrightarrow> mr_store A = P" "proper A \<Longrightarrow> mr_compact A = C"
  by (simp_all add: proper_def)

lemma mr_append_grown:
  assumes "proper A" and "same g0 g" and "Q e (sv_fresh g)"
  shows "post (mr_append A e g) (\<lambda>_. grown Q g0) (grown Q g0)"
  unfolding mr_append_def proper_fields [OF assms(1)] by (rule append_grown) (fact assms)+

lemma mr_read_same:
  assumes "proper A" and "same g0 g"
  shows "post (mr_read A g) (\<lambda>es g1. es = evs (sv_data g0) \<and> same g0 g1) (same g0)"
  unfolding mr_read_def proper_fields [OF assms(1)] by (rule read_same [OF assms(2)])

lemma create_grown:
  assumes "proper A" and "\<And>e p n. me_payload e = Proposed p \<Longrightarrow> proposal_ok (mr_hash A) p \<Longrightarrow>
      (case m of Some i \<Rightarrow> pp_memory p = i | None \<Rightarrow> pp_memory p \<in> mr_uuid A ` {sv_fresh g0..<n}) \<Longrightarrow>
      sv_fresh g0 \<le> n \<Longrightarrow> Q e n"
    and "same g0 g"
  shows "post (createProposal A input m r g) (\<lambda>_. grown Q g0) (grown Q g0)"
proof -
  let ?n = "Suc (Suc (sv_fresh g))"
  note s = same_grown [OF assms(3)]
  have appended: "post (mr_append A \<lparr>me_id = e, me_at = t, me_payload =
        Proposed (build_proposal (mr_hash A) i j q x reason conf v n t)\<rparr> g1) (\<lambda>_. grown Q g0) (grown Q g0)"
    if "same g0 g1" "proposal_input input = Inr x" "normalizeConfidence w = Inr conf"
      "case m of Some i \<Rightarrow> j = i | None \<Rightarrow> j \<in> mr_uuid A ` {sv_fresh g0..<sv_fresh g1}"
    for e t i j q x reason conf v n g1 w
  proof (rule mr_append_grown [OF assms(1) that(1)])
    let ?p = "build_proposal (mr_hash A) i j q x reason conf v n t"
    show "Q \<lparr>me_id = e, me_at = t, me_payload = Proposed ?p\<rparr> (sv_fresh g1)"
    proof (rule assms(2) [of _ ?p])
      show "case m of Some i \<Rightarrow> pp_memory ?p = i | None \<Rightarrow> pp_memory ?p \<in> mr_uuid A ` {sv_fresh g0..<sv_fresh g1}"
        using that(4) by (cases m) (simp_all add: build_proposal_ids)
      show "sv_fresh g0 \<le> sv_fresh g1" using that(1) by (simp add: same_def)
    qed (simp_all add: build_proposal_ok [OF that(2,3)])
  qed
  have s2: "same g0 (g\<lparr>sv_fresh := n\<rparr>)" if "sv_fresh g \<le> n" for n using assms(3) that by (auto simp: same_def)
  have m: "post (the_id A m (g\<lparr>sv_fresh := ?n\<rparr>))
      (\<lambda>j g1. same g0 g1 \<and> (case m of Some i \<Rightarrow> j = i | None \<Rightarrow> j \<in> mr_uuid A ` {sv_fresh g0..<sv_fresh g1})) (grown Q g0)"
    using s2 assms(3) by (auto simp: the_id_def new_id_def same_def split: option.splits)
  have up: "case m of Some i \<Rightarrow> v = i | None \<Rightarrow> v \<in> mr_uuid A ` {sv_fresh g0..<sv_fresh (s\<lparr>sv_fresh := Suc (sv_fresh s)\<rparr>)}"
    if "case m of Some i \<Rightarrow> v = i | None \<Rightarrow> v \<in> mr_uuid A ` {sv_fresh g0..<sv_fresh s}" for v and s :: "'s service"
    using that by (auto split: option.splits)
  show ?thesis
    unfolding createProposal_def Let_def
    using s2 up
    by (auto intro!: post_andThen check_post new_id_post s post_mono [OF m] post_mono [OF appended] same_grown)
qed

lemma confirm_grown:
  assumes "proper A" and "same g0 g"
    and "\<And>e n p q. me_payload e = Confirmed i (new_memory p q (sv_now g)) \<Longrightarrow> me_at e = sv_now g \<Longrightarrow>
      map_get (ms_proposals (latestState es)) i = Some p \<Longrightarrow> find_last (confirmation_of i) es = None \<Longrightarrow>
      confirm_check p input (map_get (memories es) (pp_memory p)) (sv_now g) = Inr () \<Longrightarrow> sv_fresh g0 \<le> n \<Longrightarrow> Q e n"
  shows "post (confirm_with A i input es g) (\<lambda>_. grown Q g0) (grown Q g0)"
proof -
  have s: "same g0 (g\<lparr>sv_fresh := n\<rparr>)" if "sv_fresh g \<le> n" for n using assms(2) that by (auto simp: same_def)
  show ?thesis
    unfolding confirm_with_def Let_def
    using s assms(2) same_grown [OF assms(2), of Q]
    by (auto intro!: post_andThen check_post new_id_post same_grown mr_append_grown [OF assms(1)] assms(3)
        simp: same_def split: option.splits memory_payload.splits)
qed

text \<open>A removal keeps exactly the events of the other memories, or all of them.\<close>

lemma delete_removed:
  assumes "proper A"
  shows "post (delete_with A m g) (\<lambda>_. removed memory_of {mm_id m} g) (removed memory_of {} g)"
  using compact_removed [of MemoryFault memory_of "{mm_id m}" g]
  unfolding delete_with_def proper_fields [OF assms] by (auto simp: post_andThen_iff)

lemma purge_removed:
  assumes "proper A"
  shows "post (purge_with A t es g) (\<lambda>_. removed memory_of (set (expired_ids es t)) g) (removed memory_of {} g)"
  using compact_removed [of MemoryFault memory_of "set (expired_ids es t)" g]
  unfolding purge_with_def proper_fields [OF assms] Let_def by (auto simp: post_andThen_iff)

section \<open>Overlapping requests\<close>

definition all_backed :: "'s memory_service \<Rightarrow> 's overlapped \<Rightarrow> bool" where
  "all_backed A x \<longleftrightarrow> (\<forall>e\<in>set (evs (sv_data (fst x))) \<union> seen (snd x). backed (mr_hash A) (seen (snd x)) e)"

lemma grown_backed:
  assumes "all_backed A (g, H)" and "grown (\<lambda>e n. backed (mr_hash A) (seen H) e) g g'"
  shows "all_backed A (g', H)"
  using assms by (auto simp: all_backed_def grown_def)

lemma removed_backed: "all_backed A (g, H) \<Longrightarrow> removed memory_of S g g' \<Longrightarrow> all_backed A (g', H)"
  by (auto simp: all_backed_def removed_def)

lemma step_backed:
  assumes "proper A" and "mo_step A E x y" and "all_backed A x"
  shows "all_backed A y"
proof -
  have propose: "all_backed A (fst (createProposal A input m r g), H)" if "all_backed A (g, H)" for input m r g H
    using grown_backed [OF that] post_fst [OF create_grown [OF assms(1) _ same_refl, where Q = "\<lambda>e n. backed (mr_hash A) (seen H) e"]]
    by (simp add: backed_def)
  from assms(2,3) show ?thesis
  proof (cases rule: mo_step.cases)
    case (read g es H)
    then have "es = evs (sv_data g)" using events assms(1) by (simp add: proper_def)
    with assms(3) read show ?thesis by (auto simp: all_backed_def intro: backed_mono)
  next
    case (confirm t es H g i input)
    have "grown (\<lambda>e n. backed (mr_hash A) (seen H) e) g (fst (confirm_with A i input es g))"
    proof (rule post_fst [OF confirm_grown [OF assms(1) same_refl]])
      fix e :: memory_event and n p q
      assume e: "me_payload e = Confirmed i (new_memory p q (sv_now g))" "me_at e = sv_now g"
        and p: "map_get (ms_proposals (latestState es)) i = Some p"
        and c: "confirm_check p input (map_get (memories es) (pp_memory p)) (sv_now g) = Inr ()"
      obtain e0 where "e0 \<in> set es" "me_payload e0 = Proposed p" "pp_id p = i" using proposals_from [OF p] by blast
      moreover have "set es \<subseteq> seen H" using confirm seen_member by blast
      moreover have "sv_now g \<le> pp_approvalExpiresAt p" using c by (auto simp: confirm_check_def split: if_splits)
      ultimately show "backed (mr_hash A) (seen H) e"
        using e new_memory_copies [of p q "sv_now g"] by (auto simp: backed_def new_memory_confirmed)
    qed
    with grown_backed assms(3) confirm show ?thesis by simp
  next
    case (delete t es H i m g)
    have "\<exists>S. removed memory_of S g (fst (delete_with A m g))"
      by (rule post_fst [OF post_mono [OF delete_removed [OF assms(1)]]]) auto
    with removed_backed assms(3) delete show ?thesis by blast
  next
    case (purge t es H g)
    have "\<exists>S. removed memory_of S g (fst (purge_with A t es g))"
      by (rule post_fst [OF post_mono [OF purge_removed [OF assms(1)]]]) auto
    with removed_backed assms(3) purge show ?thesis by blast
  next
    case (environment g d H)
    with env assms(3) show ?thesis by (simp add: all_backed_def)
  qed (use propose assms(3) in \<open>simp_all add: all_backed_def\<close>)
qed

lemma reachable_backed:
  assumes "proper A" and "mo_reachable A E s0 x" and "evs s0 = []"
  shows "all_backed A x"
  using assms(2)
proof (induction rule: mo_reachable.induct)
  case (start t)
  then show ?case using assms(3) by (simp add: all_backed_def seen_def)
qed (rule step_backed [OF assms(1)])

section \<open>One request after the other\<close>

definition orderly :: "'s memory_service \<Rightarrow> 's service \<Rightarrow> bool" where
  "orderly A g \<longleftrightarrow> in_order (evs (sv_data g)) \<and> ids_used (mr_uuid A) (sv_fresh g) (evs (sv_data g))"

lemma grown_orderly:
  assumes "orderly A g" and "grown (\<lambda>e n. in_order (evs (sv_data g) @ [e]) \<and> memory_of e \<in> mr_uuid A ` {..<n}) g g'"
  shows "orderly A g'"
  using assms ids_used_more [of "mr_uuid A" "sv_fresh g" "evs (sv_data g)" "sv_fresh g'"]
  by (auto simp: orderly_def grown_def ids_used_def)

lemma removed_orderly: "orderly A g \<Longrightarrow> removed memory_of S g g' \<Longrightarrow> orderly A g'"
  using ids_used_more [of "mr_uuid A" "sv_fresh g" "evs (sv_data g)" "sv_fresh g'"]
  by (auto simp: orderly_def removed_def in_order_filter ids_used_def)

text \<open>What a request may do to the log, for any condition \<open>Q\<close> that its new event satisfies.\<close>

lemma step_cases:
  assumes "proper A" and "ms_step A E g g'"
    and propose: "\<And>e p n. me_payload e = Proposed p \<Longrightarrow>
      pp_memory p \<in> mr_uuid A ` {sv_fresh g..<n} \<or> map_get (memories (evs (sv_data g))) (pp_memory p) \<noteq> None \<Longrightarrow>
      sv_fresh g \<le> n \<Longrightarrow> Q e n"
    and confirm: "\<And>e n i p q. me_payload e = Confirmed i (new_memory p q (sv_now g)) \<Longrightarrow>
      map_get (ms_proposals (latestState (evs (sv_data g)))) i = Some p \<Longrightarrow>
      find_last (confirmation_of i) (evs (sv_data g)) = None \<Longrightarrow>
      (\<And>m. map_get (memories (evs (sv_data g))) (pp_memory p) = Some m \<Longrightarrow> mm_revision m < pp_revision p) \<Longrightarrow>
      sv_fresh g \<le> n \<Longrightarrow> Q e n"
  shows "grown Q g g' \<or> (\<exists>S. removed memory_of S g g')"
proof -
  let ?ok = "\<lambda>g'. grown Q g g' \<or> (\<exists>S. removed memory_of S g g')"
  have idle: "?ok g1" if "same g g1" for g1 using same_grown [OF that] by blast
  have here: "post (check r g1) (\<lambda>v g2. r = Inr v \<and> same g g2) ?ok" if "same g g1"
    for r :: "(memory_error, 'c) result" and g1
    using idle [OF that] that by (cases r) auto
  have log: "post (mr_read A g1) (\<lambda>es g2. es = evs (sv_data g) \<and> same g g2) ?ok" if "same g g1" for g1
    by (rule post_mono [OF mr_read_same [OF assms(1) that]]) (use idle in auto)
  have current: "post (getMemory A i g) (\<lambda>m g1. map_get (memories (evs (sv_data g))) i = Some m \<and> same g g1) ?ok" for i
    unfolding getMemory_def
    by (auto intro!: post_andThen post_mono [OF here] post_mono [OF log] simp: memory_in_Inr)
  have propose_ok: "post (createProposal A input m r g1) (\<lambda>_. ?ok) ?ok"
    if "same g g1" "m = None \<or> (\<exists>i. m = Some i \<and> map_get (memories (evs (sv_data g))) i \<noteq> None)" for input m r g1
    by (rule post_mono [OF create_grown [OF assms(1) _ that(1), where Q = Q]])
      (use that(2) propose in \<open>auto split: option.splits\<close>)
  have confirm_ok: "post (confirm_with A i input (evs (sv_data g)) g1) (\<lambda>_. ?ok) ?ok" if "same g g1" for i input g1
  proof (rule post_mono [OF confirm_grown [OF assms(1) that, where Q = Q]])
    fix e :: memory_event and n p q
    assume "me_payload e = Confirmed i (new_memory p q (sv_now g1))"
      "map_get (ms_proposals (latestState (evs (sv_data g)))) i = Some p"
      "find_last (confirmation_of i) (evs (sv_data g)) = None"
      "confirm_check p input (map_get (memories (evs (sv_data g))) (pp_memory p)) (sv_now g1) = Inr ()" "sv_fresh g \<le> n"
    with that show "Q e n"
      by (intro confirm [of e i p q]) (auto simp: same_def confirm_check_def split: if_splits option.splits)
  qed auto
  from assms(2) show ?thesis
  proof (cases rule: ms_step.cases)
    case (propose input)
    with post_fst [OF propose_ok [OF same_refl]] show ?thesis by simp
  next
    case (correct i input)
    have "post (proposeCorrection A i input g) (\<lambda>_. ?ok) ?ok"
      unfolding proposeCorrection_def
      by (rule post_andThen, rule post_mono [OF current]) (use memories_from in \<open>auto intro!: propose_ok\<close>)
    with correct post_fst show ?thesis by blast
  next
    case (confirm i input)
    have "post (confirmProposal A i input g) (\<lambda>_. ?ok) ?ok"
      unfolding confirmProposal_def
      by (auto intro!: post_andThen post_mono [OF here] post_mono [OF log] confirm_ok)
    with confirm post_fst show ?thesis by blast
  next
    case (delete i)
    have "post (deleteMemory A i g) (\<lambda>_. ?ok) ?ok"
      unfolding deleteMemory_def
      by (rule post_andThen, rule post_mono [OF current]) (auto intro!: post_mono [OF delete_removed [OF assms(1)]] dest: same_removed)
    with delete post_fst show ?thesis by blast
  next
    case purge
    have "post (purgeExpired A g) (\<lambda>_. ?ok) ?ok"
      unfolding purgeExpired_def
      by (rule post_andThen, rule post_mono [OF log [OF same_refl]]) (auto intro!: post_mono [OF purge_removed [OF assms(1)]] dest: same_removed)
    with purge post_fst show ?thesis by blast
  next
    case (time_passes t)
    then show ?thesis by (simp add: grown_def)
  next
    case (environment d)
    with env show ?thesis by (simp add: grown_def)
  qed
qed

lemma step_orderly:
  assumes "proper A" and "ms_step A E g g'" and "orderly A g"
  shows "orderly A g'"
proof -
  let ?l = "evs (sv_data g)"
  have used: "x \<in> mr_uuid A ` {..<n}" if "e \<in> set ?l" "memory_of e = x" "sv_fresh g \<le> n" for e x n
    using assms(3) that by (fastforce simp: orderly_def ids_used_def)
  have "grown (\<lambda>e n. in_order (?l @ [e]) \<and> memory_of e \<in> mr_uuid A ` {..<n}) g g' \<or> (\<exists>S. removed memory_of S g g')"
  proof (rule step_cases [OF assms(1,2)])
    fix e :: memory_event and p n
    assume e: "me_payload e = Proposed p" and n: "sv_fresh g \<le> n"
      and i: "pp_memory p \<in> mr_uuid A ` {sv_fresh g..<n} \<or> map_get (memories ?l) (pp_memory p) \<noteq> None"
    have "pp_memory p \<in> mr_uuid A ` {..<n}"
      using i memories_from used n by (fastforce simp: memory_of_def)
    with e assms(3) show "in_order (?l @ [e]) \<and> memory_of e \<in> mr_uuid A ` {..<n}"
      by (auto simp: orderly_def in_order_snoc later_confirmation_def memory_of_def split: memory_payload.splits)
  next
    fix e :: memory_event and n i p q
    assume e: "me_payload e = Confirmed i (new_memory p q (sv_now g))" and n: "sv_fresh g \<le> n"
      and p: "map_get (ms_proposals (latestState ?l)) i = Some p"
      and none: "find_last (confirmation_of i) ?l = None"
      and r: "\<And>m. map_get (memories ?l) (pp_memory p) = Some m \<Longrightarrow> mm_revision m < pp_revision p"
    have "pp_memory p \<in> mr_uuid A ` {..<n}"
      using proposals_from [OF p] used n by (fastforce simp: memory_of_def)
    moreover have "in_order (?l @ [e])"
      by (rule confirmation_in_order [OF _ none r e]) (use assms(3) in \<open>simp_all add: orderly_def\<close>)
    ultimately show "in_order (?l @ [e]) \<and> memory_of e \<in> mr_uuid A ` {..<n}" by (simp add: memory_of_def e)
  qed
  with grown_orderly removed_orderly assms(3) show ?thesis by blast
qed

lemma reachable_orderly:
  assumes "proper A" and "ms_reachable A E s0 g" and "evs s0 = []"
  shows "orderly A g"
  using assms(2)
proof (induction rule: ms_reachable.induct)
  case (start t)
  then show ?case using assms(3) by (simp add: orderly_def in_order_def ids_used_def)
next
  case (step g g')
  with step_orderly [OF assms(1)] show ?case by blast
qed

text \<open>An id that was drawn and that no event mentions is never mentioned again.\<close>

definition gone :: "'s memory_service \<Rightarrow> string \<Rightarrow> 's service \<Rightarrow> bool" where
  "gone A x g \<longleftrightarrow> x \<in> mr_uuid A ` {..<sv_fresh g} \<and> (\<forall>e\<in>set (evs (sv_data g)). memory_of e \<noteq> x)"

lemma step_gone:
  assumes "proper A" and "ms_step A E g g'" and "gone A x g"
  shows "gone A x g'"
proof -
  let ?l = "evs (sv_data g)"
  have other: "x \<notin> mr_uuid A ` {sv_fresh g..<n}" for n
    using assms(1,3) by (auto simp: proper_def gone_def dest: injD)
  have "grown (\<lambda>e n. memory_of e \<noteq> x) g g' \<or> (\<exists>S. removed memory_of S g g')"
  proof (rule step_cases [OF assms(1,2)])
    fix e :: memory_event and p n
    assume "me_payload e = Proposed p"
      "pp_memory p \<in> mr_uuid A ` {sv_fresh g..<n} \<or> map_get (memories ?l) (pp_memory p) \<noteq> None"
    with other memories_from assms(3) show "memory_of e \<noteq> x" by (fastforce simp: memory_of_def gone_def)
  next
    fix e :: memory_event and n i p q
    assume "me_payload e = Confirmed i (new_memory p q (sv_now g))" "map_get (ms_proposals (latestState ?l)) i = Some p"
    with proposals_from assms(3) show "memory_of e \<noteq> x" by (fastforce simp: memory_of_def gone_def)
  qed
  moreover have "x \<in> mr_uuid A ` {..<sv_fresh g'}" if "sv_fresh g \<le> sv_fresh g'"
    using assms(3) that by (fastforce simp: gone_def)
  ultimately show ?thesis using assms(3) by (auto simp: gone_def grown_def removed_def)
qed

lemma run_gone:
  assumes "proper A" and "(ms_step A E)\<^sup>*\<^sup>* g g'" and "gone A x g"
  shows "gone A x g'"
  using assms(2) by (induction rule: rtranclp_induct) (use assms(3) step_gone [OF assms(1)] in auto)

lemma delete_gone:
  assumes "proper A" and "orderly A g" and "deleteMemory A i g = (g', Inr n)"
  shows "gone A i g'"
proof -
  obtain g1 m where g1: "getMemory A i g = (g1, Inr m)" "delete_with A m g1 = (g', Inr n)"
    using assms(3) by (auto simp: deleteMemory_def andThen_Inr_iff)
  then obtain g2 es where r: "mr_read A g = (g2, Inr es)" "g1 = g2" "map_get (memories es) i = Some m"
    by (auto simp: getMemory_def andThen_Inr_iff check_def memory_in_Inr)
  from post_Inr [OF mr_read_same [OF assms(1) same_refl] r(1)] have es: "es = evs (sv_data g)" "same g g2" by auto
  have m: "mm_id m = i" "\<exists>e\<in>set es. memory_of e = i"
    using memories_from [OF r(3)] by (auto simp: memory_of_def intro!: bexI)
  from post_Inr [OF delete_removed [OF assms(1)] g1(2)] have "removed memory_of {mm_id m} g1 g'" .
  then have g': "sv_fresh g \<le> sv_fresh g'" "evs (sv_data g') = filter (\<lambda>e. memory_of e \<noteq> i) (evs (sv_data g))"
    using es r(2) m(1) by (auto simp: removed_def same_def)
  have "i \<in> mr_uuid A ` {..<sv_fresh g}" using m(2) es(1) assms(2) by (auto simp: orderly_def ids_used_def)
  with g' show ?thesis by (auto simp: gone_def)
qed

lemma purge_exact_log:
  assumes "proper A" and "purgeExpired A g = (g', Inr n)"
  shows "evs (sv_data g') = filter (\<lambda>e. memory_of e \<notin> set (expired_ids (evs (sv_data g)) (sv_now g))) (evs (sv_data g))"
proof -
  obtain g1 es where r: "mr_read A g = (g1, Inr es)" "purge_with A (sv_now g) es g1 = (g', Inr n)"
    using assms(2) by (auto simp: purgeExpired_def andThen_Inr_iff)
  from post_Inr [OF mr_read_same [OF assms(1) same_refl] r(1)] have "es = evs (sv_data g)" "same g g1" by auto
  with post_Inr [OF purge_removed [OF assms(1)] r(2)] show ?thesis by (simp add: removed_def same_def)
qed

end

interpretation enc_memory: memory_log "journal_store F" "journal_events F" "journal_change F" "{''disk''}" "jo_compact F"
  for F :: "memory_event journal_format"
  by unfold_locales

end
