(* ===== verification/MemoryGuarantees.thy ===== *)
theory MemoryGuarantees
  imports MemoryProperties
begin

text \<open>
  What the memory guarantees on its encrypted journal, whatever write fails: for requests that
  overlap, and, where the code needs it, for requests one after the other; with a concrete
  run, and three things the service does not do.
\<close>

definition on_journal :: "memory_event journal_format \<Rightarrow> memory_event journal memory_service \<Rightarrow> bool" where
  "on_journal F A \<longleftrightarrow> mr_store A = journal_store F \<and> mr_compact A = jo_compact F \<and> inj (mr_uuid A)"

lemma journal_proper: "on_journal F A \<Longrightarrow> enc_memory.proper F A"
  by (simp add: on_journal_def enc_memory.proper_def)

lemma empty_journal_events [simp]: "journal_events F (empty_journal k) = []"
  by (simp add: journal_events_def empty_journal_def List.map_filter_simps)

abbreviation stored :: "memory_event journal_format \<Rightarrow> memory_event journal service \<Rightarrow> memory_event list" where
  "stored F g \<equiv> journal_events F (sv_data g)"

section \<open>Consent\<close>


text \<open>
  A confirmation that is no replay appends exactly one event, and only for a proposal of
  the journal whose digest and nonce the request carried, before its deadline and with a
  revision above the one it replaces.
\<close>

theorem confirmation_needs_proof:
  assumes "on_journal F A" and "confirmProposal A i input g = (g', Inr (m, False))"
  shows "\<exists>p e. map_get (ms_proposals (latestState (stored F g))) i = Some p \<and>
    get_prop input ''approval_digest'' = JStr (pp_digest p) \<and> get_prop input ''approval_nonce'' = JStr (pp_nonce p) \<and>
    sv_now g \<le> pp_approvalExpiresAt p \<and>
    (case map_get (memories (stored F g)) (pp_memory p) of None \<Rightarrow> True | Some n \<Rightarrow> mm_revision n < pp_revision p) \<and>
    stored F g' = stored F g @ [\<lparr>me_id = e, me_at = sv_now g, me_payload = Confirmed i m\<rparr>]"
proof -
  note P = journal_proper [OF assms(1)]
  obtain g1 es where r: "mr_read A g = (g1, Inr es)" "confirm_with A i input es g1 = (g', Inr (m, False))"
    using assms(2) by (auto simp: confirmProposal_def andThen_Inr_iff check_def)
  from post_Inr [OF enc_memory.mr_read_same [OF P enc.same_refl] r(1)]
  have es: "es = stored F g" "sv_now g1 = sv_now g" "stored F g1 = stored F g" by (auto simp: enc.same_def)
  from r(2) obtain p g2 e where p: "map_get (ms_proposals (latestState es)) i = Some p"
      "confirm_check p input (map_get (memories es) (pp_memory p)) (sv_now g1) = Inr ()"
      "mr_append A \<lparr>me_id = e, me_at = sv_now g1, me_payload = Confirmed i m\<rparr> g2 = (g', Inr ())"
      "stored F g2 = stored F g1"
    by (auto simp: confirm_with_def Let_def andThen_Inr_iff check_def new_id_def split: option.splits memory_payload.splits)
  have "post (mr_append A \<lparr>me_id = e, me_at = sv_now g1, me_payload = Confirmed i m\<rparr> g2)
      (\<lambda>_ g3. stored F g3 = stored F g2 @ [\<lparr>me_id = e, me_at = sv_now g1, me_payload = Confirmed i m\<rparr>]) (\<lambda>_. True)"
    unfolding mr_append_def enc_memory.proper_fields [OF P] by (rule enc.append_post) simp_all
  from post_Inr [OF this p(3)]
  have a: "stored F g' = stored F g2 @ [\<lparr>me_id = e, me_at = sv_now g1, me_payload = Confirmed i m\<rparr>]" .
  show ?thesis
    by (rule exI [of _ p], rule exI [of _ e])
      (use p es a in \<open>auto simp: confirm_check_def split: if_splits option.splits\<close>)
qed

section \<open>Requests one after the other\<close>

text \<open>
  When requests do not overlap, a proposal is confirmed at most once, and of two
  confirmations for the same memory the later one has the greater revision.
\<close>

theorem confirmations_in_order:
  assumes "on_journal F A" and "ms_reachable A (journal_change F) (empty_journal k) g"
    and "a < b" and "b < length (stored F g)"
    and "me_payload (stored F g ! a) = Confirmed i m" and "me_payload (stored F g ! b) = Confirmed j n"
  shows "i \<noteq> j \<and> (mm_id m = mm_id n \<longrightarrow> mm_revision m < mm_revision n)"
proof -
  have "enc_memory.orderly F A g"
    by (rule enc_memory.reachable_orderly [OF journal_proper [OF assms(1)] assms(2)]) simp
  then have "sorted_wrt later_confirmation (stored F g)" by (simp add: enc_memory.orderly_def in_order_def)
  then have "later_confirmation (stored F g ! a) (stored F g ! b)"
    using assms(3,4) by (rule sorted_wrt_nth_less)
  then show ?thesis by (simp add: later_confirmation_def assms(5,6))
qed

text \<open>
  C24: a deletion that returns has removed every proposal and every revision of the memory, and
  no later sequence of requests brings its id back.
\<close>

theorem deleted_for_good:
  assumes "on_journal F A" and "ms_reachable A (journal_change F) (empty_journal k) g"
    and "deleteMemory A i g = (g1, Inr n)" and "(ms_step A (journal_change F))\<^sup>*\<^sup>* g1 g2"
  shows "\<not> (\<exists>e\<in>set (stored F g2). memory_of e = i)"
proof -
  note P = journal_proper [OF assms(1)]
  have "enc_memory.orderly F A g" by (rule enc_memory.reachable_orderly [OF P assms(2)]) simp
  with enc_memory.run_gone [OF P assms(4) enc_memory.delete_gone [OF P _ assms(3)]]
  show ?thesis by (auto simp: enc_memory.gone_def)
qed

text \<open>
  A purge that returns removes exactly the memories that have expired, at their last
  instant included, with all their events, and leaves every other memory as it was.
\<close>

theorem purge_exact:
  assumes "on_journal F A" and "purgeExpired A g = (g', Inr n)"
  shows "map_get (memories (stored F g')) i =
    (case map_get (memories (stored F g)) i of
       Some m \<Rightarrow> if isExpired m (sv_now g) then None else Some m | None \<Rightarrow> None)"
  unfolding enc_memory.purge_exact_log [OF journal_proper [OF assms(1)] assms(2)] memories_filter
  by (auto simp: expired_ids_iff split: option.splits)

section \<open>Retrieval\<close>

text \<open>
  Retrieval returns every memory of the log that has not expired, has the class asked for
  and shares a word with the query, with its score, the best first, and no other.
\<close>

theorem retrieval_exact:
  "(\<forall>m s. (m, s) \<in> set (ranked es q c False now) \<longleftrightarrow>
      (\<exists>i. map_get (memories es) i = Some m) \<and> now < mm_expiresAt m \<and> (c = None \<or> c = Some (mm_class m)) \<and>
      s = lexicalScore m q \<and> (q = [] \<or> 0 < s)) \<and>
   sorted_wrt (\<lambda>x y. snd y \<le> snd x) (ranked es q c False now) \<and> 0 \<le> lexicalScore m q \<and> lexicalScore m q \<le> 1"
proof (intro conjI allI)
  have shown: "m \<in> set (map_values (memories es)) \<longleftrightarrow> (\<exists>i. map_get (memories es) i = Some m)" for m
    by (simp only: map_get_iff [OF memories_ok] map_values_def set_map) force
  show "(m, s) \<in> set (ranked es q c False now) \<longleftrightarrow>
      (\<exists>i. map_get (memories es) i = Some m) \<and> now < mm_expiresAt m \<and> (c = None \<or> c = Some (mm_class m)) \<and>
      s = lexicalScore m q \<and> (q = [] \<or> 0 < s)" for m s
    by (auto simp: ranked_def shown isExpired_def)
  have "sorted (map rank (ranked es q c False now))" by (simp add: ranked_def)
  then show "sorted_wrt (\<lambda>x y. snd y \<le> snd x) (ranked es q c False now)"
    by (auto simp: sorted_map rank_def less_eq_prod_def elim: sorted_wrt_mono_rel [rotated])
  show "0 \<le> lexicalScore m q" by (simp add: lexicalScore_def)
  have "length (filter (\<lambda>t. t \<in> set (haystack m)) q) \<le> length q" by (rule length_filter_le)
  then show "lexicalScore m q \<le> 1" by (simp add: lexicalScore_def divide_le_eq)
qed

section \<open>What the service does not do\<close>

text \<open>A proposal for a new memory that was never confirmed outlives every purge, with its text.\<close>

theorem unconfirmed_never_purged:
  assumes "on_journal F A" and "purgeExpired A g = (g', Inr n)"
    and "e \<in> set (stored F g)" and "map_get (memories (stored F g)) (memory_of e) = None"
  shows "e \<in> set (stored F g')"
  using enc_memory.purge_exact_log [OF journal_proper [OF assms(1)] assms(2)] assms(3,4)
  by (auto simp: expired_ids_iff)

text \<open>A memory that has expired is hidden from retrieval, and still returned by its id.\<close>

theorem expired_still_readable:
  assumes "on_journal F A" and "jo_readEvents F (sv_data g) = Inr (stored F g)" and "mr_requireId i ''memory_id'' = Inr i"
    and "map_get (memories (stored F g)) i = Some m" and "isExpired m (sv_now g)"
  shows "getMemory A i g = (g, Inr m) \<and> (m, s) \<notin> set (ranked (stored F g) q c False (sv_now g))"
  using assms
  by (auto simp: getMemory_def check_def mr_read_def from_store_def on_journal_def memory_in_def ranked_def)

section \<open>A concrete run\<close>

definition tea_format :: "memory_event journal_format" where
  "tea_format = memory_format (\<lambda>_. 0)"

definition tea_runtime :: "memory_event journal memory_service" where
  "tea_runtime =
     \<lparr>mr_store = journal_store tea_format, mr_compact = jo_compact tea_format, mr_uuid = tally, mr_hash = (\<lambda>_. ''h'')\<rparr>"

definition tea_input :: js where
  "tea_input =
     JObj [(''classification'', JStr ''semantic''), (''content'', JStr ''tea''), (''reason'', JStr ''r''),
       (''provenance'', JObj [(''source_type'', JStr ''owner''), (''source_id'', JStr ''o'')])]"

definition tea_proof :: "nat \<Rightarrow> js" where
  "tea_proof n = JObj [(''approval_digest'', JStr ''h''), (''approval_nonce'', JStr (tally n))]"

abbreviation tea_state :: "int \<Rightarrow> nat \<Rightarrow> nat \<Rightarrow> (nat \<times> memory_event) list \<Rightarrow> memory_event journal service" where
  "tea_state \<equiv> sealed_service tea_format"

lemma tea_small [simp]: "small_events tea_format"
  by (simp add: tea_format_def)

lemma tea_fields [simp]:
  "mr_store tea_runtime = journal_store tea_format" "mr_compact tea_runtime = jo_compact tea_format"
  "mr_uuid tea_runtime = tally" "mr_hash tea_runtime = (\<lambda>_. ''h'')" "on_journal tea_format tea_runtime"
  by (simp_all add: tea_runtime_def on_journal_def inj_tally)

lemma tea_journal [simp]:
  "mr_append tea_runtime e (tea_state t n k es) = (tea_state t n (Suc k) (es @ [(k, e)]), Inr ())"
  "mr_read tea_runtime (tea_state t n k es) = (tea_state t n k es, Inr (map snd es))"
  by (simp_all add: mr_append_def mr_read_def)

definition tea_provenance :: provenance where
  "tea_provenance = \<lparr>pv_type = ''owner'', pv_id = ''o'', pv_uri = None, pv_capturedAt = None\<rparr>"

lemma tea_valid:
  "proposal_input tea_input = Inr (''semantic'', ''tea'', 365)" "schema_checked tea_input = Inr ()"
  "mr_requireString (get_prop tea_input ''reason'') ''reason'' 1000 = Inr ''r''"
  "normalizeConfidence (get_prop tea_input ''confidence'') = Inr 1"
  "normalizeProvenance (get_prop tea_input ''provenance'') = Inr tea_provenance"
  by code_simp+

text \<open>A proposal for the memory \<open>m\<close> with revision \<open>r\<close>, made with \<open>n\<close> ids drawn.\<close>

definition tea_proposal :: "string \<Rightarrow> nat \<Rightarrow> nat \<Rightarrow> string \<Rightarrow> proposal" where
  "tea_proposal i r n m = build_proposal (\<lambda>_. ''h'') i m r (''semantic'', ''tea'', 365) ''r'' 1 tea_provenance (tally n) 0"

lemma tea_create:
  "createProposal tea_runtime tea_input None None (tea_state 0 n k es) =
     (tea_state 0 (Suc (Suc (Suc (Suc n)))) (Suc k) (es @ [(k, \<lparr>me_id = tally n, me_at = 0,
        me_payload = Proposed (tea_proposal (tally (Suc n)) 1 (Suc (Suc (Suc n))) (tally (Suc (Suc n))))\<rparr>)]),
      Inr (tea_proposal (tally (Suc n)) 1 (Suc (Suc (Suc n))) (tally (Suc (Suc n)))))"
  "createProposal tea_runtime tea_input (Some m) (Some r) (tea_state 0 n k es) =
     (tea_state 0 (Suc (Suc (Suc n))) (Suc k) (es @ [(k, \<lparr>me_id = tally n, me_at = 0,
        me_payload = Proposed (tea_proposal (tally (Suc n)) r (Suc (Suc n)) m)\<rparr>)]),
      Inr (tea_proposal (tally (Suc n)) r (Suc (Suc n)) m))"
  by (simp_all add: createProposal_def tea_valid new_id_def the_id_def Let_def tea_proposal_def)

lemma tea_ids: "mr_requireId (tally (Suc 0)) f = Inr (tally (Suc 0))" "mr_requireId (tally 2) f = Inr (tally 2)"
  "mr_requireId (tally 6) f = Inr (tally 6)"
  by (simp_all add: mr_requireId_def mr_requireString_def tally_def js_trim_def is_space_def code_def matches_id_pattern_def
      id_char_def is_alnum_def is_lower_def eval_nat_numeral)

definition tea_first :: proposal where
  "tea_first = tea_proposal (tally (Suc 0)) 1 3 (tally 2)"

definition tea_second :: proposal where
  "tea_second = tea_proposal (tally 6) 2 7 (tally 2)"

definition tea_memory :: memory_item where
  "tea_memory = new_memory tea_first None 0"

definition tea_corrected :: memory_item where
  "tea_corrected = new_memory tea_second (Some tea_memory) 0"

definition tea_log :: "(nat \<times> memory_event) list" where
  "tea_log =
     [(0, \<lparr>me_id = tally 0, me_at = 0, me_payload = Proposed tea_first\<rparr>),
      (1, \<lparr>me_id = tally 4, me_at = 0, me_payload = Confirmed (tally (Suc 0)) tea_memory\<rparr>),
      (2, \<lparr>me_id = tally 5, me_at = 0, me_payload = Proposed tea_second\<rparr>),
      (3, \<lparr>me_id = tally 8, me_at = 0, me_payload = Confirmed (tally 6) tea_corrected\<rparr>)]"

lemma tea_members [simp]:
  "pp_id tea_first = tally (Suc 0)" "pp_memory tea_first = tally 2" "pp_revision tea_first = 1" "pp_digest tea_first = ''h''"
  "pp_nonce tea_first = tally 3" "pp_approvalExpiresAt tea_first = PROPOSAL_TTL_MS"
  "pp_id tea_second = tally 6" "pp_memory tea_second = tally 2" "pp_revision tea_second = 2" "pp_digest tea_second = ''h''"
  "pp_nonce tea_second = tally 7" "pp_approvalExpiresAt tea_second = PROPOSAL_TTL_MS"
  "mm_id tea_memory = tally 2" "mm_revision tea_memory = 1" "mm_id tea_corrected = tally 2" "mm_revision tea_corrected = 2"
  by (simp_all add: tea_first_def tea_second_def tea_memory_def tea_corrected_def tea_proposal_def build_proposal_def
      new_memory_def Let_def proposalDigest_def)

lemma tea_proof_members [simp]: "\<not> is_nullish (tea_proof n)" "get_prop (tea_proof n) ''approval_digest'' = JStr ''h''"
  "get_prop (tea_proof n) ''approval_nonce'' = JStr (tally n)"
  by (simp_all add: tea_proof_def is_nullish_def)

lemma tea_steps:
  "createProposal tea_runtime tea_input None None (tea_state 0 0 0 []) = (tea_state 0 4 1 (take 1 tea_log), Inr tea_first)"
  "confirmProposal tea_runtime (tally (Suc 0)) (tea_proof 3) (tea_state 0 4 1 (take 1 tea_log)) =
     (tea_state 0 5 2 (take 2 tea_log), Inr (tea_memory, False))"
  "proposeCorrection tea_runtime (tally 2) tea_input (tea_state 0 5 2 (take 2 tea_log)) =
     (tea_state 0 8 3 (take 3 tea_log), Inr tea_second)"
  "confirmProposal tea_runtime (tally 6) (tea_proof 7) (tea_state 0 8 3 (take 3 tea_log)) =
     (tea_state 0 9 4 tea_log, Inr (tea_corrected, False))"
proof -
  show "createProposal tea_runtime tea_input None None (tea_state 0 0 0 []) = (tea_state 0 4 1 (take 1 tea_log), Inr tea_first)"
    by (simp add: tea_create tea_log_def tea_first_def numeral_eq_Suc)
  show "confirmProposal tea_runtime (tally (Suc 0)) (tea_proof 3) (tea_state 0 4 1 (take 1 tea_log)) =
     (tea_state 0 5 2 (take 2 tea_log), Inr (tea_memory, False))"
    by (simp add: confirmProposal_def tea_ids tea_log_def confirm_with_def apply_memory_def latestState_def map_set_def
        map_get_def find_last_def confirmation_of_def confirm_check_def new_id_def Let_def PROPOSAL_TTL_MS_def tea_memory_def;
        simp add: numeral_eq_Suc)
  show "proposeCorrection tea_runtime (tally 2) tea_input (tea_state 0 5 2 (take 2 tea_log)) =
     (tea_state 0 8 3 (take 3 tea_log), Inr tea_second)"
    by (simp add: proposeCorrection_def getMemory_def tea_ids tea_log_def latestState_def apply_memory_def map_set_def
        memory_in_def map_get_def tea_create tea_second_def; simp add: numeral_eq_Suc)
  show "confirmProposal tea_runtime (tally 6) (tea_proof 7) (tea_state 0 8 3 (take 3 tea_log)) =
     (tea_state 0 9 4 tea_log, Inr (tea_corrected, False))"
    by (simp add: confirmProposal_def tea_ids tea_log_def confirm_with_def apply_memory_def latestState_def map_set_def
        map_get_def find_last_def confirmation_of_def confirm_check_def new_id_def Let_def PROPOSAL_TTL_MS_def tea_corrected_def;
        simp add: numeral_eq_Suc)
qed

lemma tea_reachable:
  "ms_reachable tea_runtime (journal_change tea_format) (empty_journal []) (tea_state 0 9 4 tea_log)"
proof -
  let ?R = "ms_reachable tea_runtime (journal_change tea_format) (empty_journal [])"
  note steps = tea_steps [THEN arg_cong [where f = fst], unfolded fst_conv, symmetric]
  have "?R (tea_state 0 0 0 [])" unfolding sealed_start by (rule ms_reachable.start)
  then have "?R (tea_state 0 4 1 (take 1 tea_log))"
    unfolding steps(1) by (rule ms_reachable.step) (rule ms_step.propose)
  then have "?R (tea_state 0 5 2 (take 2 tea_log))"
    unfolding steps(2) by (rule ms_reachable.step) (rule ms_step.confirm)
  then have "?R (tea_state 0 8 3 (take 3 tea_log))"
    unfolding steps(3) by (rule ms_reachable.step) (rule ms_step.correct)
  then show ?thesis
    unfolding steps(4) by (rule ms_reachable.step) (rule ms_step.confirm)
qed

text \<open>The same calls as overlapping requests, with the log read once before the first confirmation.\<close>

definition tea_read_log :: "memory_event list" where
  "tea_read_log = map snd (take 1 tea_log)"

lemma tea_confirm_with:
  "confirm_with tea_runtime (tally (Suc 0)) (tea_proof 3) tea_read_log (tea_state 0 n k es) =
     (tea_state 0 (Suc n) (Suc k) (es @ [(k, \<lparr>me_id = tally n, me_at = 0,
        me_payload = Confirmed (tally (Suc 0)) tea_memory\<rparr>)]), Inr (tea_memory, False))"
  by (simp add: tea_read_log_def tea_log_def confirm_with_def apply_memory_def latestState_def map_set_def
      map_get_def find_last_def confirmation_of_def confirm_check_def new_id_def Let_def PROPOSAL_TTL_MS_def tea_memory_def)

lemma tea_overlapped:
  "mo_reachable tea_runtime (journal_change tea_format) (empty_journal [])
     (tea_state 0 4 1 (take 1 tea_log), [(0, tea_read_log)])"
  "mo_reachable tea_runtime (journal_change tea_format) (empty_journal [])
     (tea_state 0 5 2 (take 2 tea_log), [(0, tea_read_log)])"
proof -
  let ?R = "mo_reachable tea_runtime (journal_change tea_format) (empty_journal [])"
  have "?R (tea_state 0 0 0 [], [])" unfolding sealed_start by (rule mo_reachable.start)
  then have "?R (tea_state 0 4 1 (take 1 tea_log), [])"
    unfolding tea_steps(1) [THEN arg_cong [where f = fst], unfolded fst_conv, symmetric]
    by (rule mo_reachable.step) (rule mo_step.propose)
  then have "?R (tea_state 0 4 1 (take 1 tea_log), [(sv_now (tea_state 0 4 1 (take 1 tea_log)), tea_read_log)])"
    by (rule mo_reachable.step) (rule mo_step.read, simp add: tea_read_log_def)
  then show r: "?R (tea_state 0 4 1 (take 1 tea_log), [(0, tea_read_log)])" by simp
  have c: "tea_state 0 5 2 (take 2 tea_log) =
      fst (confirm_with tea_runtime (tally (Suc 0)) (tea_proof 3) tea_read_log (tea_state 0 4 1 (take 1 tea_log)))"
    unfolding tea_confirm_with by (simp add: tea_log_def; simp add: numeral_eq_Suc)
  show "?R (tea_state 0 5 2 (take 2 tea_log), [(0, tea_read_log)])"
    unfolding c by (rule mo_reachable.step [OF r]) (rule mo_step.confirm [where t = 0], simp)
qed

lemma tea_memories: "map_get (memories (map snd (take 2 tea_log))) (tally 2) = Some tea_memory"
  by (simp add: tea_log_def latestState_def apply_memory_def map_set_def map_get_def)


theorem confirmation_needs_proof_witness:
  "get_prop (tea_proof 3) ''approval_nonce'' = JStr (pp_nonce tea_first) \<and> tea_memory = new_memory tea_first None 0"
proof -
  from confirmation_needs_proof [OF tea_fields(5) tea_steps(2)]
  obtain p where "map_get (ms_proposals (latestState (map snd (take 1 tea_log)))) (tally (Suc 0)) = Some p"
      "get_prop (tea_proof 3) ''approval_nonce'' = JStr (pp_nonce p)"
    by auto
  then show ?thesis
    by (simp add: tea_log_def latestState_def apply_memory_def map_set_def map_get_def tea_memory_def)
qed

theorem confirmations_in_order_witness:
  "tally (Suc 0) \<noteq> tally 6 \<and> mm_revision tea_memory < mm_revision tea_corrected"
  using confirmations_in_order [OF tea_fields(5) tea_reachable, of 1 3]
  by (simp add: tea_log_def)

lemma tea_delete:
  "deleteMemory tea_runtime (tally 2) (tea_state 0 9 4 tea_log) = (tea_state 0 9 4 [], Inr 4)"
  by (simp add: deleteMemory_def getMemory_def tea_ids tea_log_def latestState_def apply_memory_def map_set_def
      memory_in_def map_get_def delete_with_def sealed_compact memory_of_def)

theorem deleted_for_good_witness:
  "\<not> (\<exists>e\<in>set (stored tea_format (tea_state 0 9 4 [])). memory_of e = tally 2)"
  by (rule deleted_for_good [OF tea_fields(5) tea_reachable tea_delete rtranclp.rtrancl_refl])

text \<open>A year later the memory has expired.\<close>

definition tea_year :: int where
  "tea_year = 365 * DAY_MS"

lemma tea_expired: "isExpired tea_corrected tea_year"
  by (simp add: isExpired_def tea_corrected_def new_memory_def tea_second_def tea_proposal_def build_proposal_def
      tea_year_def Let_def)

lemma tea_purge:
  "purgeExpired tea_runtime (tea_state tea_year 9 4 tea_log) = (tea_state tea_year 9 4 [], Inr (1, 4))"
  by (simp add: purgeExpired_def purge_with_def expired_ids_def tea_log_def latestState_def apply_memory_def map_set_def
      map_values_def tea_expired sealed_compact memory_of_def Let_def)

theorem purge_exact_witness:
  "map_get (memories (stored tea_format (tea_state tea_year 9 4 []))) (tally 2) = None \<and> isExpired tea_corrected tea_year"
proof -
  have "map_get (memories (map snd tea_log)) (tally 2) = Some tea_corrected"
    by (simp add: tea_log_def latestState_def apply_memory_def map_set_def map_get_def)
  with purge_exact [OF tea_fields(5) tea_purge, of "tally 2"] tea_expired show ?thesis by simp
qed

section \<open>Overlapping requests\<close>

text \<open>
  A second submission of a confirmation that read the log before the memory was deleted and
  goes on after the deletion stores the memory again: the owner deleted it, and it is back.
\<close>

theorem deleted_memory_returns:
  "\<exists>g H g1.
     mo_reachable tea_runtime (journal_change tea_format) (empty_journal []) (g, H) \<and>
     map_get (memories (stored tea_format g)) (tally 2) = Some tea_memory \<and>
     delete_with tea_runtime tea_memory g = (g1, Inr 2) \<and> stored tea_format g1 = [] \<and>
     (0, tea_read_log) \<in> set H \<and>
     map_get (memories (stored tea_format
        (fst (confirm_with tea_runtime (tally (Suc 0)) (tea_proof 3) tea_read_log g1)))) (tally 2) = Some tea_memory"
proof (intro exI conjI)
  show "mo_reachable tea_runtime (journal_change tea_format) (empty_journal []) (tea_state 0 5 2 (take 2 tea_log), [(0, tea_read_log)])"
    by (rule tea_overlapped(2))
  show "delete_with tea_runtime tea_memory (tea_state 0 5 2 (take 2 tea_log)) = (tea_state 0 5 2 [], Inr 2)"
    by (simp add: delete_with_def sealed_compact memory_of_def tea_log_def)
  show "map_get (memories (stored tea_format (tea_state 0 5 2 (take 2 tea_log)))) (tally 2) = Some tea_memory"
    by (simp add: tea_memories)
qed (simp_all add: tea_confirm_with latestState_def apply_memory_def map_set_def map_get_def)

end
