(* ===== verification/Media.thy ===== *)
theory Media
  imports Bytes
begin

text \<open>
  The media readers of the perception service
  (\<open>packages/zarvis/services/zarvis-perception/runtime.mjs\<close>): base64 input and the headers
  of PNG and JPEG files. \<open>jpeg_scan\<close> is the marker loop of \<open>parseJpeg\<close> as the code has
  it, with nothing that bounds it from outside: that it returns is a theorem.
\<close>

section \<open>Errors and checks\<close>

text \<open>\<open>PerceptionValidationError\<close> (message, status, code), and any other exception.\<close>

datatype perception_error =
    PerceptionError string nat string
  | PerceptionFault string

abbreviation invalid :: "string \<Rightarrow> perception_error" where
  "invalid m \<equiv> PerceptionError m 400 ''invalid_perception_request''"

definition pc_requireString :: "js \<Rightarrow> string \<Rightarrow> nat \<Rightarrow> (perception_error, string) result" where
  "pc_requireString v field mx =
     (case v of
        JStr s \<Rightarrow>
          if js_trim s = [] \<or> mx < length (js_trim s) then Inl (invalid (field @ '' is invalid'')) else Inr (js_trim s)
      | _ \<Rightarrow> Inl (invalid (field @ '' is required'')))"

definition pc_optionalString :: "js \<Rightarrow> string \<Rightarrow> nat \<Rightarrow> (perception_error, string option) result" where
  "pc_optionalString v field mx =
     (if is_nullish v \<or> v = JStr [] then Inr None else bindR (pc_requireString v field mx) (\<lambda>s. Inr (Some s)))"

definition MAX_MEDIA_BYTES :: nat where
  "MAX_MEDIA_BYTES = 5 * 1024 * 1024"

text \<open>\<open>Math.ceil(MAX_MEDIA_BYTES * 4 / 3) + 16\<close>\<close>

definition MAX_BASE64_CHARS :: nat where
  "MAX_BASE64_CHARS = (MAX_MEDIA_BYTES * 4 + 2) div 3 + 16"

definition strictBase64 :: "js \<Rightarrow> (perception_error, byte list) result" where
  "strictBase64 v =
     bindR (pc_requireString v ''content_base64'' MAX_BASE64_CHARS) (\<lambda>s.
     if \<not> matches_base64 s \<or> length s mod 4 \<noteq> 0 then Inl (invalid ''content_base64 must be canonical base64'')
     else
       let b = base64_decode s in
       if strip_padding s \<noteq> strip_padding (base64_encode b) then Inl (invalid ''content_base64 must be canonical base64'')
       else if length b < 1 \<or> MAX_MEDIA_BYTES < length b
       then Inl (PerceptionError (''Media must contain between 1 and '' @ nat_str MAX_MEDIA_BYTES @ '' bytes'') 413 ''media_size_invalid'')
       else Inr b)"

section \<open>Images\<close>

datatype analysis =
    ImageMetadata string nat nat string
  | RedactedText string string nat

definition PNG_SIGNATURE :: "byte list" where
  "PNG_SIGNATURE = [0x89, 0x50, 0x4e, 0x47, 0x0d, 0x0a, 0x1a, 0x0a]"

definition bad_size :: "nat \<Rightarrow> nat \<Rightarrow> bool" where
  "bad_size w h \<longleftrightarrow> w = 0 \<or> h = 0 \<or> 16384 < w \<or> 16384 < h"

definition image_metadata :: "string \<Rightarrow> string \<Rightarrow> nat \<Rightarrow> nat \<Rightarrow> analysis" where
  "image_metadata fmt label w h =
     ImageMetadata fmt w h (label @ '' image '' @ nat_str w @ [char_of (215::nat)] @ nat_str h)"

definition range_error :: perception_error where
  "range_error = PerceptionFault ''The value of offset is out of range''"

definition parsePng :: "byte list \<Rightarrow> (perception_error, analysis) result" where
  "parsePng b =
     (if length b < 24 \<or> take 8 b \<noteq> PNG_SIGNATURE \<or> ascii (take 4 (drop 12 b)) \<noteq> ''IHDR''
      then Inl (invalid ''PNG signature or IHDR is invalid'')
      else (case (readUInt32BE b 16, readUInt32BE b 20) of
          (Some w, Some h) \<Rightarrow>
            if bad_size w h then Inl (invalid ''PNG dimensions are invalid'') else Inr (image_metadata ''png'' ''PNG'' w h)
        | _ \<Rightarrow> Inl range_error))"

definition sofMarkers :: "byte set" where
  "sofMarkers = {0xc0, 0xc1, 0xc2, 0xc3, 0xc5, 0xc6, 0xc7, 0xc9, 0xca, 0xcb, 0xcd, 0xce, 0xcf}"

definition standalone :: "byte \<Rightarrow> bool" where
  "standalone m \<longleftrightarrow> m \<in> {0xd8, 0xd9, 0x01} \<or> (0xd0 \<le> m \<and> m \<le> 0xd7)"

text \<open>\<open>while (buffer[offset] === 0xff) offset += 1\<close>\<close>

definition skip_fill :: "byte list \<Rightarrow> nat \<Rightarrow> nat" where
  "skip_fill b i = i + length (takeWhile (\<lambda>x. x = 0xff) (drop i b))"

definition unresolved :: perception_error where
  "unresolved = invalid ''JPEG dimensions could not be resolved''"

definition frame_size :: "byte list \<Rightarrow> nat \<Rightarrow> (perception_error, nat \<times> nat) result" where
  "frame_size b i =
     (case (readUInt16BE b (i + 3), readUInt16BE b (i + 5)) of
        (Some h, Some w) \<Rightarrow> if bad_size w h then Inl (invalid ''JPEG dimensions are invalid'') else Inr (w, h)
      | _ \<Rightarrow> Inl range_error)"

text \<open>
  The loop. After the fill bytes stands the marker; past the end of the buffer it is
  undefined, and the check of the length that follows leaves the loop.
\<close>

partial_function (option) jpeg_scan :: "byte list \<Rightarrow> nat \<Rightarrow> (perception_error, nat \<times> nat) result option" where
  "jpeg_scan b i =
     (if \<not> i + 4 \<le> length b then Some (Inl unresolved)
      else if b ! i \<noteq> 0xff then jpeg_scan b (i + 1)
      else let j = skip_fill b i in
        case byte_at b j of
          None \<Rightarrow> Some (Inl unresolved)
        | Some m \<Rightarrow>
            if standalone m then jpeg_scan b (j + 1)
            else if length b < j + 3 then Some (Inl unresolved)
            else (case readUInt16BE b (j + 1) of
                None \<Rightarrow> Some (Inl range_error)
              | Some n \<Rightarrow>
                  if n < 2 \<or> length b < j + 1 + n then Some (Inl unresolved)
                  else if m \<in> sofMarkers \<and> 7 \<le> n then Some (frame_size b (j + 1))
                  else jpeg_scan b (j + 1 + n)))"

definition parseJpeg :: "byte list \<Rightarrow> (perception_error, analysis) result option" where
  "parseJpeg b =
     (if length b < 4 \<or> b ! 0 \<noteq> 0xff \<or> b ! 1 \<noteq> 0xd8 then Some (Inl (invalid ''JPEG signature is invalid''))
      else map_option (\<lambda>r. bindR r (\<lambda>(w, h). Inr (image_metadata ''jpeg'' ''JPEG'' w h))) (jpeg_scan b 2))"

section \<open>The loop returns\<close>

lemma skip_fill_le: "i \<le> skip_fill b i"
  by (simp add: skip_fill_def)

lemma jpeg_scan_total: "\<exists>r. jpeg_scan b i = Some r"
proof (induction "length b - i" arbitrary: i rule: less_induct)
  case less
  have next1: "\<exists>r. jpeg_scan b k = Some r" if "i < k" "i + 4 \<le> length b" for k
    using that less.hyps [of k] by simp
  note s = skip_fill_le [of i b]
  show ?case
    by (subst jpeg_scan.simps) (use s in \<open>auto intro!: next1 simp: Let_def split: option.splits\<close>)
qed

text \<open>What it returns is a frame within the bounds, or an error that is not a read out of range.\<close>

lemma jpeg_scan_sound:
  "jpeg_scan b i = Some r \<Longrightarrow> (case r of Inr (w, h) \<Rightarrow> \<not> bad_size w h | Inl e \<Rightarrow> e \<noteq> range_error)"
proof (induction "length b - i" arbitrary: i rule: less_induct)
  case less
  have next1: "case r of Inr (w, h) \<Rightarrow> \<not> bad_size w h | Inl e \<Rightarrow> e \<noteq> range_error"
    if "jpeg_scan b k = Some r" "i < k" "i + 4 \<le> length b" for k
    using that less.hyps [of k] by simp
  have frame: "case frame_size b j of Inr (w, h) \<Rightarrow> \<not> bad_size w h | Inl e \<Rightarrow> e \<noteq> range_error"
    if "j + n \<le> length b" "7 \<le> n" for j n
    using that by (auto simp: frame_size_def readUInt16BE_def range_error_def)
  have u: "unresolved \<noteq> range_error" by (simp add: unresolved_def range_error_def)
  have len: "readUInt16BE b (j + 1) \<noteq> None" if "\<not> length b < j + 3" for j
    using that by (simp add: readUInt16BE_def)
  note s = skip_fill_le [of i b]
  from less.prems show ?case
    apply (subst (asm) jpeg_scan.simps)
    using s u by (auto simp: Let_def dest!: len dest: next1 intro!: frame split: if_splits option.splits)
qed
section \<open>Round trips\<close>

text \<open>\<open>strictBase64\<close> accepts exactly the encodings of one to five million bytes, and returns the bytes.\<close>

lemma requireString_Inr [result_simps]:
  "pc_requireString v field mx = Inr a \<longleftrightarrow> (\<exists>s. v = JStr s \<and> a = js_trim s \<and> a \<noteq> [] \<and> length a \<le> mx)"
  by (cases v) (auto simp: pc_requireString_def)

lemma strictBase64_exact:
  "strictBase64 v = Inr b \<longleftrightarrow>
     (\<exists>s. v = JStr s \<and> js_trim s = base64_encode b \<and> 1 \<le> length b \<and> length b \<le> MAX_MEDIA_BYTES)"
proof
  assume "strictBase64 v = Inr b"
  then obtain s where v: "v = JStr s" and
      r: "(if \<not> matches_base64 (js_trim s) \<or> length (js_trim s) mod 4 \<noteq> 0 then Inl (invalid ''content_base64 must be canonical base64'')
         else let b = base64_decode (js_trim s) in
           if strip_padding (js_trim s) \<noteq> strip_padding (base64_encode b) then Inl (invalid ''content_base64 must be canonical base64'')
           else if length b < 1 \<or> MAX_MEDIA_BYTES < length b
           then Inl (PerceptionError (''Media must contain between 1 and '' @ nat_str MAX_MEDIA_BYTES @ '' bytes'') 413 ''media_size_invalid'')
           else Inr b) = Inr b"
    unfolding strictBase64_def bindR_Inr_iff requireString_Inr by blast
  from r have s: "matches_base64 (js_trim s)" "length (js_trim s) mod 4 = 0"
      "strip_padding (js_trim s) = strip_padding (base64_encode (base64_decode (js_trim s)))"
      "b = base64_decode (js_trim s)" "1 \<le> length b" "length b \<le> MAX_MEDIA_BYTES"
    by (auto simp: Let_def Suc_le_eq split: if_splits)
  with v canonical_iff [of "js_trim s"] show "\<exists>s. v = JStr s \<and> js_trim s = base64_encode b \<and> 1 \<le> length b \<and> length b \<le> MAX_MEDIA_BYTES"
    by blast
next
  assume "\<exists>s. v = JStr s \<and> js_trim s = base64_encode b \<and> 1 \<le> length b \<and> length b \<le> MAX_MEDIA_BYTES"
  then obtain s where s: "v = JStr s" "js_trim s = base64_encode b" "1 \<le> length b" "length b \<le> MAX_MEDIA_BYTES" by blast
  have d: "base64_decode (js_trim s) = b" using s(2) decode_encode by simp
  have c: "matches_base64 (js_trim s)" "length (js_trim s) mod 4 = 0"
      "strip_padding (js_trim s) = strip_padding (base64_encode b)"
    using canonical_iff [of "js_trim s"] s(2) d by simp_all
  have l: "length (js_trim s) = 4 * ((length b + 2) div 3)" using s(2) length_base64_encode by simp
  have "length (js_trim s) \<le> MAX_BASE64_CHARS" "js_trim s \<noteq> []"
    using s(3,4) l by (auto simp: MAX_BASE64_CHARS_def MAX_MEDIA_BYTES_def)
  then have "pc_requireString v ''content_base64'' MAX_BASE64_CHARS = Inr (js_trim s)"
    using s(1) by (simp add: pc_requireString_def)
  then show "strictBase64 v = Inr b" using c d s(3,4) by (cases b) (simp_all add: strictBase64_def Let_def)
qed

text \<open>A file as an encoder lays it out: the header chunk of PNG; a segment of JPEG.\<close>

definition png_file :: "nat \<Rightarrow> nat \<Rightarrow> byte list \<Rightarrow> byte list" where
  "png_file w h more =
     PNG_SIGNATURE @ u_bytes 4 13 @ [0x49, 0x48, 0x44, 0x52] @ u_bytes 4 w @ u_bytes 4 h @ more"

lemma parsePng_file:
  assumes "w < 4294967296" and "h < 4294967296"
  shows "parsePng (png_file w h more) =
    (if bad_size w h then Inl (invalid ''PNG dimensions are invalid'') else Inr (image_metadata ''png'' ''PNG'' w h))"
proof -
  let ?pre = "PNG_SIGNATURE @ u_bytes 4 13 @ [0x49, 0x48, 0x44, 0x52]"
  have l: "length ?pre = 16" "length (?pre @ u_bytes 4 w) = 20" by (simp_all add: PNG_SIGNATURE_def)
  have f: "png_file w h more = ?pre @ u_bytes 4 w @ (u_bytes 4 h @ more)"
    "png_file w h more = (?pre @ u_bytes 4 w) @ u_bytes 4 h @ more" by (simp_all add: png_file_def)
  have "readUInt32BE (png_file w h more) 16 = Some w" "readUInt32BE (png_file w h more) 20 = Some h"
    using read_u_bytes(2) [OF assms(1), of ?pre "u_bytes 4 h @ more", folded f(1), unfolded l]
      read_u_bytes(2) [OF assms(2), of "?pre @ u_bytes 4 w" more, folded f(2), unfolded l] by blast+
  moreover have "ascii [0x49, 0x48, 0x44, 0x52] = ''IHDR''" by code_simp
  then have "ascii (take 4 (drop 12 (png_file w h more))) = ''IHDR''" by (simp add: png_file_def PNG_SIGNATURE_def)
  moreover have "take 8 (png_file w h more) = PNG_SIGNATURE" "\<not> length (png_file w h more) < 24"
    by (simp_all add: png_file_def PNG_SIGNATURE_def)
  ultimately show ?thesis by (simp add: parsePng_def)
qed

definition jpeg_segment :: "byte \<times> byte list \<Rightarrow> byte list" where
  "jpeg_segment s = [0xff, fst s] @ u_bytes 2 (length (snd s) + 2) @ snd s"

definition plain_segment :: "byte \<times> byte list \<Rightarrow> bool" where
  "plain_segment s \<longleftrightarrow> fst s \<noteq> 0xff \<and> \<not> standalone (fst s) \<and> fst s \<notin> sofMarkers \<and> length (snd s) + 2 < 65536"

definition jpeg_frame :: "byte \<Rightarrow> nat \<Rightarrow> nat \<Rightarrow> byte list \<Rightarrow> byte list" where
  "jpeg_frame m w h components = jpeg_segment (m, [8] @ u_bytes 2 h @ u_bytes 2 w @ components)"

definition jpeg_file :: "(byte \<times> byte list) list \<Rightarrow> byte \<Rightarrow> nat \<Rightarrow> nat \<Rightarrow> byte list \<Rightarrow> byte list \<Rightarrow> byte list" where
  "jpeg_file segments m w h components more =
     [0xff, 0xd8] @ concat (map jpeg_segment segments) @ jpeg_frame m w h components @ more"

lemma sof_marker: "m \<in> sofMarkers \<Longrightarrow> m \<noteq> 0xff \<and> \<not> standalone m"
  by (auto simp: sofMarkers_def standalone_def)

lemma skip_fill_one: "m \<noteq> 0xff \<Longrightarrow> skip_fill (pre @ 0xff # m # more) (length pre) = Suc (length pre)"
  by (simp add: skip_fill_def)

text \<open>One turn of the loop at the start of a segment.\<close>

lemma jpeg_scan_segment:
  assumes "m \<noteq> 0xff" and "\<not> standalone m" and "length p + 2 < 65536"
  shows "jpeg_scan (pre @ jpeg_segment (m, p) @ more) (length pre) =
    (if m \<in> sofMarkers \<and> 5 \<le> length p then Some (frame_size (pre @ jpeg_segment (m, p) @ more) (length pre + 2))
     else jpeg_scan (pre @ jpeg_segment (m, p) @ more) (length (pre @ jpeg_segment (m, p))))"
proof -
  let ?b = "pre @ jpeg_segment (m, p) @ more"
  have b: "?b = pre @ 0xff # m # (u_bytes 2 (length p + 2) @ p @ more)" by (simp add: jpeg_segment_def)
  have "?b = (pre @ [0xff, m]) @ u_bytes 2 (length p + 2) @ (p @ more)" by (simp add: jpeg_segment_def)
  with read_u_bytes(1) [OF assms(3), of "pre @ [0xff, m]" "p @ more"]
  have n: "readUInt16BE ?b (length pre + 2) = Some (length p + 2)" by simp
  have l: "length ?b = length pre + 4 + length p + length more" by (simp add: jpeg_segment_def)
  have a: "?b ! length pre = 0xff" "skip_fill ?b (length pre) = length pre + 1" "byte_at ?b (length pre + 1) = Some m"
    using skip_fill_one [OF assms(1)] unfolding b by (simp_all add: byte_at_def nth_append)
  have e: "length (pre @ jpeg_segment (m, p)) = length pre + 2 + (length p + 2)" by (simp add: jpeg_segment_def)
  show ?thesis
    unfolding e by (subst jpeg_scan.simps) (use assms a n l in \<open>simp add: Let_def\<close>)
qed

lemma parseJpeg_file:
  assumes "list_all plain_segment segments" and "m \<in> sofMarkers" and "w < 65536" and "h < 65536"
    and "length components + 7 < 65536"
  shows "parseJpeg (jpeg_file segments m w h components more) =
    Some (if bad_size w h then Inl (invalid ''JPEG dimensions are invalid'') else Inr (image_metadata ''jpeg'' ''JPEG'' w h))"
proof -
  let ?p = "[8] @ u_bytes 2 h @ u_bytes 2 w @ components"
  have frame: "jpeg_scan (pre @ jpeg_frame m w h components @ more) (length pre) =
      Some (if bad_size w h then Inl (invalid ''JPEG dimensions are invalid'') else Inr (w, h))" for pre
  proof -
    let ?b = "pre @ jpeg_frame m w h components @ more"
    let ?head = "pre @ [0xff, m] @ u_bytes 2 (length ?p + 2) @ [8]"
    have f: "?b = ?head @ u_bytes 2 h @ (u_bytes 2 w @ components @ more)"
      "?b = (?head @ u_bytes 2 h) @ u_bytes 2 w @ (components @ more)"
      by (simp_all add: jpeg_frame_def jpeg_segment_def)
    have l: "length ?head = length pre + 2 + 3" "length (?head @ u_bytes 2 h) = length pre + 2 + 5" by simp_all
    have "readUInt16BE ?b (length pre + 2 + 3) = Some h" "readUInt16BE ?b (length pre + 2 + 5) = Some w"
      using read_u_bytes(1) [OF assms(4), of ?head "u_bytes 2 w @ components @ more", folded f(1), unfolded l]
        read_u_bytes(1) [OF assms(3), of "?head @ u_bytes 2 h" "components @ more", folded f(2), unfolded l] by blast+
    then have "frame_size ?b (length pre + 2) = (if bad_size w h then Inl (invalid ''JPEG dimensions are invalid'') else Inr (w, h))"
      by (simp add: frame_size_def)
    with jpeg_scan_segment [of m ?p pre more] sof_marker [OF assms(2)] assms(2,5) show ?thesis
      by (simp add: jpeg_frame_def)
  qed
  have "jpeg_scan (pre @ concat (map jpeg_segment segments) @ jpeg_frame m w h components @ more) (length pre) =
      Some (if bad_size w h then Inl (invalid ''JPEG dimensions are invalid'') else Inr (w, h))" for pre
    using assms(1)
  proof (induction segments arbitrary: pre)
    case (Cons s segments)
    obtain k q where s: "s = (k, q)" by (cases s)
    have "plain_segment s" using Cons.prems by simp
    with s have k: "k \<noteq> 0xff" "\<not> standalone k" "k \<notin> sofMarkers" "length q + 2 < 65536" by (simp_all add: plain_segment_def)
    from Cons.IH [of "pre @ jpeg_segment s"] Cons.prems
      jpeg_scan_segment [OF k(1,2,4), of pre "concat (map jpeg_segment segments) @ jpeg_frame m w h components @ more"] k(3)
    show ?case by (simp add: s)
  qed (simp add: frame)
  from this [of "[0xff, 0xd8]"] have "jpeg_scan (jpeg_file segments m w h components more) 2 =
      Some (if bad_size w h then Inl (invalid ''JPEG dimensions are invalid'') else Inr (w, h))"
    by (simp add: jpeg_file_def numeral_2_eq_2)
  then show ?thesis by (simp add: parseJpeg_def jpeg_file_def jpeg_frame_def jpeg_segment_def)
qed

end
