(* ===== verification/Perception.thy ===== *)
theory Perception
  imports Media Secrets EncryptedJournal
begin

text \<open>
  Consent-based perception (\<open>packages/zarvis/services/zarvis-perception/runtime.mjs\<close>):
  \<open>ZarvisPerceptionRuntime\<close> over an encrypted journal. The state of a session is what a fold
  over the log yields. As in \<open>Memory\<close>, a method is written as its read and what follows,
  because requests overlap. The decoder of UTF-8 and the two uses of SHA-256 are arguments.
  Members that are the same in every record (schema, owner, the security block that says no
  tool is granted) are left out.
\<close>

section \<open>Records and events\<close>

record media_result =
  md_id :: string
  md_session :: string
  md_modality :: string
  md_mediaType :: string
  md_analysis :: analysis
  md_redactions :: nat
  md_injections :: nat
  md_source :: string
  md_bytes :: nat
  md_sha256 :: string
  md_capturedAt :: "string option"
  md_analyzedAt :: int
  md_expiresAt :: int

record media_session =
  pn_id :: string
  pn_purpose :: string
  pn_modalities :: "string list"
  pn_minutes :: int
  pn_retentionExpiresAt :: int
  pn_status :: string
  pn_nonce :: string
  pn_consentExpiresAt :: int
  pn_createdAt :: int
  pn_digest :: string
  pn_activatedAt :: "int option"
  pn_activeExpiresAt :: "int option"
  pn_stoppedAt :: "int option"
  pn_results :: "media_result list"

datatype media_payload =
    SessionProposed media_session
  | SessionActivated string int
  | MediaAnalyzed media_result
  | SessionStopped string

record media_event =
  pe_id :: string
  pe_at :: int
  pe_payload :: media_payload

record 's perception_runtime =
  pc_store :: "('s, media_event) event_store"
  pc_compact :: "(media_event \<Rightarrow> bool) \<Rightarrow> 's \<Rightarrow> ('s, string, nat \<times> nat) outcome"
  pc_uuid :: "nat \<Rightarrow> string"
  pc_hash :: "js \<Rightarrow> string"
  pc_sha256 :: "byte list \<Rightarrow> string"
  pc_utf8 :: "byte list \<Rightarrow> string option"

type_synonym ('s, 'a) perception_result = "('s service, perception_error, 'a) outcome"

section \<open>Validation\<close>

definition pc_requireId :: "string \<Rightarrow> string \<Rightarrow> (perception_error, string) result" where
  "pc_requireId v field =
     bindR (pc_requireString (JStr v) field 128) (\<lambda>s.
       if matches_id_pattern s then Inr s else Inl (invalid (field @ '' is invalid'')))"

definition MODALITIES :: "string list" where
  "MODALITIES = [''image'', ''document'', ''screen'', ''camera'']"

definition MEDIA_TYPES :: "string list" where
  "MEDIA_TYPES = [''text/plain'', ''application/pdf'', ''image/png'', ''image/jpeg'']"

text \<open>The loop of \<open>normalizeModalities\<close>; \<open>kept\<close> are the values so far.\<close>

fun unique_modalities :: "string list \<Rightarrow> js list \<Rightarrow> (perception_error, string list) result" where
  "unique_modalities kept [] = Inr kept"
| "unique_modalities kept (v # vs) =
     bindR (pc_requireString v ''modality'' 32) (\<lambda>s.
       let m = to_lower s in
       if m \<notin> set MODALITIES then Inl (invalid (''Unsupported modality: '' @ m))
       else unique_modalities (if m \<in> set kept then kept else kept @ [m]) vs)"

definition normalizeModalities :: "js \<Rightarrow> (perception_error, string list) result" where
  "normalizeModalities v =
     (case v of
        JArr vs \<Rightarrow>
          if length vs < 1 \<or> 4 < length vs then Inl (invalid ''modalities must contain between 1 and 4 values'')
          else unique_modalities [] vs
      | _ \<Rightarrow> Inl (invalid ''modalities must contain between 1 and 4 values''))"

definition normalizeRetention :: "js \<Rightarrow> (perception_error, int) result" where
  "normalizeRetention v =
     (let bad = Inl (invalid ''retention_minutes must be between 1 and 1440'')
      in case (if is_nullish v then Fin 60 else js_number v) of
           Fin q \<Rightarrow> if rat_is_int q \<and> 1 \<le> q \<and> q \<le> 1440 then Inr \<lfloor>q\<rfloor> else bad
         | _ \<Rightarrow> bad)"

definition assertModalityMediaType :: "string \<Rightarrow> string \<Rightarrow> (perception_error, unit) result" where
  "assertModalityMediaType m t =
     (if t \<notin> set MEDIA_TYPES then Inl (invalid (''Unsupported media_type: '' @ t))
      else if m \<in> {''screen'', ''camera'', ''image''} \<and> t \<notin> {''image/png'', ''image/jpeg''}
      then Inl (invalid (m @ '' requires image/png or image/jpeg''))
      else if m = ''document'' \<and> t \<notin> {''text/plain'', ''application/pdf''}
      then Inl (invalid ''document requires text/plain or application/pdf'')
      else Inr ())"

definition canonicalConsent :: "media_session \<Rightarrow> js" where
  "canonicalConsent s =
     JObj [(''session_id'', JStr (pn_id s)), (''purpose'', JStr (pn_purpose s)),
       (''modalities'', JArr (map JStr (pn_modalities s))), (''retention_minutes'', JNum (Fin (of_int (pn_minutes s)))),
       (''retention_expires_at'', JStr (to_iso (pn_retentionExpiresAt s)))]"

definition consentDigest :: "(js \<Rightarrow> string) \<Rightarrow> media_session \<Rightarrow> string" where
  "consentDigest H s = H (canonicalConsent s)"

definition CONSENT_TTL_MS :: int where
  "CONSENT_TTL_MS = 10 * 60 * 1000"

definition ACTIVE_SESSION_TTL_MS :: int where
  "ACTIVE_SESSION_TTL_MS = 15 * 60 * 1000"

section \<open>Analysis\<close>

definition MAX_TEXT_CHARS :: nat where
  "MAX_TEXT_CHARS = 20000"

definition decodeUtf8 :: "(byte list \<Rightarrow> string option) \<Rightarrow> byte list \<Rightarrow> (perception_error, string) result" where
  "decodeUtf8 D b =
     (case D b of Some s \<Rightarrow> Inr (take MAX_TEXT_CHARS s)
      | None \<Rightarrow> Inl (invalid ''text/plain content must be valid UTF-8''))"

text \<open>\<open>/\(([^()]*)\)/g\<close> with its group; \<open>/[\x20-\x7E]{4,}/g\<close>; \<open>/\\[nrtbf]/g\<close>.\<close>

definition rx_parenthesized :: rx where
  "rx_parenthesized = rx_seq [lit ''('', Star (\<lambda>c. c \<notin> set ''()''), lit '')'']"

definition rx_printable :: rx where
  "rx_printable = at_least 4 (\<lambda>c. 32 \<le> code c \<and> code c \<le> 126)"

definition rx_escape :: rx where
  "rx_escape = rx_seq [Class (\<lambda>c. code c = 92), one_of_chars ''nrtbf'']"

definition extractPdfText :: "byte list \<Rightarrow> (perception_error, string) result" where
  "extractPdfText b =
     (if ascii (take 5 b) \<noteq> ''%PDF-'' then Inl (invalid ''PDF signature is invalid'')
      else
        let source = latin1 b;
            parenthesized = map (\<lambda>m. butlast (tl m)) (match_all rx_parenthesized [] source);
            printable = match_all rx_printable [] source
        in Inr (take MAX_TEXT_CHARS (fst (rx_replace rx_escape '' '' (join_with '' '' (parenthesized @ printable))))))"

definition textSummary :: "string \<Rightarrow> analysis" where
  "textSummary s =
     (let compact = js_trim (fst (rx_replace rx_spaces '' '' s));
          words = (if compact = [] then 0 else length (split_on (CHR '' '') compact))
      in RedactedText (if take 280 compact = [] then ''No readable text was found.'' else take 280 compact)
           (take 1000 compact) words)"

text \<open>The analysis and the two counts. \<open>None\<close> is a loop that does not return; there is none.\<close>

definition analyzeBuffer ::
  "(byte list \<Rightarrow> string option) \<Rightarrow> byte list \<Rightarrow> string \<Rightarrow> (perception_error, analysis \<times> nat \<times> nat) result option" where
  "analyzeBuffer D b t =
     (if t = ''image/png'' then Some (bindR (parsePng b) (\<lambda>a. Inr (a, 0, 0)))
      else if t = ''image/jpeg'' then map_option (\<lambda>r. bindR r (\<lambda>a. Inr (a, 0, 0))) (parseJpeg b)
      else Some (bindR (if t = ''application/pdf'' then extractPdfText b else decodeUtf8 D b) (\<lambda>s.
             case redactUntrustedText s of (u, n, m) \<Rightarrow> Inr (textSummary u, n, m))))"

section \<open>State of the log\<close>

definition update_session ::
  "(string, media_session) jsmap \<Rightarrow> string \<Rightarrow> (media_session \<Rightarrow> media_session) \<Rightarrow> (string, media_session) jsmap" where
  "update_session m i f = (case map_get m i of Some s \<Rightarrow> map_set m i (f s) | None \<Rightarrow> m)"

definition apply_media :: "(string, media_session) jsmap \<Rightarrow> media_event \<Rightarrow> (string, media_session) jsmap" where
  "apply_media m e =
     (case pe_payload e of
        SessionProposed s \<Rightarrow> map_set m (pn_id s) (s\<lparr>pn_results := []\<rparr>)
      | SessionActivated i t \<Rightarrow>
          update_session m i (\<lambda>s. s\<lparr>pn_status := ''active'', pn_activatedAt := Some (pe_at e), pn_activeExpiresAt := Some t\<rparr>)
      | MediaAnalyzed r \<Rightarrow> update_session m (md_session r) (\<lambda>s. s\<lparr>pn_results := pn_results s @ [r]\<rparr>)
      | SessionStopped i \<Rightarrow> update_session m i (\<lambda>s. s\<lparr>pn_status := ''stopped'', pn_stoppedAt := Some (pe_at e)\<rparr>))"

definition sessionState :: "media_event list \<Rightarrow> (string, media_session) jsmap" where
  "sessionState es = foldl apply_media [] es"

section \<open>Sessions\<close>

definition pc_append :: "'s perception_runtime \<Rightarrow> media_payload \<Rightarrow> int \<Rightarrow> 's service \<Rightarrow> ('s, unit) perception_result" where
  "pc_append A v t g =
     andThen (new_id (pc_uuid A) g) (\<lambda>g1 i.
       on_store PerceptionFault (eo_appendEvent (pc_store A) \<lparr>pe_id = i, pe_at = t, pe_payload = v\<rparr>) g1)"

definition pc_read :: "'s perception_runtime \<Rightarrow> 's service \<Rightarrow> ('s, media_event list) perception_result" where
  "pc_read A g = from_store PerceptionFault (eo_readEvents (pc_store A)) g"

definition build_session ::
  "(js \<Rightarrow> string) \<Rightarrow> string \<Rightarrow> string \<Rightarrow> string list \<Rightarrow> int \<Rightarrow> string \<Rightarrow> int \<Rightarrow> media_session" where
  "build_session H i purpose ms minutes n now =
     (let s = \<lparr>pn_id = i, pn_purpose = purpose, pn_modalities = ms, pn_minutes = minutes,
               pn_retentionExpiresAt = now + minutes * 60 * 1000, pn_status = ''pending_consent'', pn_nonce = n,
               pn_consentExpiresAt = now + CONSENT_TTL_MS, pn_createdAt = now, pn_digest = [], pn_activatedAt = None,
               pn_activeExpiresAt = None, pn_stoppedAt = None, pn_results = []\<rparr>
      in s\<lparr>pn_digest := consentDigest H s\<rparr>)"

definition pc_createSession :: "'s perception_runtime \<Rightarrow> js \<Rightarrow> 's service \<Rightarrow> ('s, media_session) perception_result" where
  "pc_createSession A input g =
     andThen (check (if is_nullish input then Inl (PerceptionFault ''Cannot read properties of null'')
                     else normalizeRetention (get_prop input ''retention_minutes'')) g) (\<lambda>g1 minutes.
     andThen (new_id (pc_uuid A) g1) (\<lambda>g2 i.
     andThen (check (pc_requireString (get_prop input ''purpose'') ''purpose'' 1000) g2) (\<lambda>g3 purpose.
     andThen (check (normalizeModalities (get_prop input ''modalities'')) g3) (\<lambda>g4 ms.
     andThen (new_id (pc_uuid A) g4) (\<lambda>g5 n.
       let s = build_session (pc_hash A) i purpose ms minutes n (sv_now g)
       in andThen (pc_append A (SessionProposed s) (sv_now g) g5) (\<lambda>g6 _. (g6, Inr s)))))))"

definition session_in :: "string \<Rightarrow> media_event list \<Rightarrow> (perception_error, media_session) result" where
  "session_in i es =
     (case map_get (sessionState es) i of
        None \<Rightarrow> Inl (PerceptionError ''Perception session was not found'' 404 ''session_not_found'')
      | Some s \<Rightarrow> Inr s)"

definition pc_getSession :: "'s perception_runtime \<Rightarrow> string \<Rightarrow> 's service \<Rightarrow> ('s, media_session) perception_result" where
  "pc_getSession A i g =
     andThen (check (pc_requireId i ''session_id'') g) (\<lambda>g1 _.
     andThen (pc_read A g1) (\<lambda>g2 es. check (session_in i es) g2))"

definition listSessions :: "'s perception_runtime \<Rightarrow> 's service \<Rightarrow> ('s, media_session list) perception_result" where
  "listSessions A g =
     andThen (pc_read A g) (\<lambda>g1 es. (g1, Inr (sort_key (\<lambda>s. - pn_createdAt s) (map_values (sessionState es)))))"

section \<open>Consent\<close>

definition consent_check :: "media_session \<Rightarrow> js \<Rightarrow> int \<Rightarrow> (perception_error, unit) result" where
  "consent_check s input now =
     (if pn_status s \<noteq> ''pending_consent''
      then Inl (PerceptionError ''Perception session is not awaiting consent'' 409 ''invalid_session_state'')
      else if pn_consentExpiresAt s < now
      then Inl (PerceptionError ''Perception consent has expired'' 409 ''consent_expired'')
      else if is_nullish input then Inl (PerceptionFault ''Cannot read properties of null'')
      else if get_prop input ''consent_digest'' \<noteq> JStr (pn_digest s) \<or> get_prop input ''consent_nonce'' \<noteq> JStr (pn_nonce s)
      then Inl (PerceptionError ''Consent proof does not match the exact perception session'' 409 ''consent_mismatch'')
      else Inr ())"

text \<open>What follows the read of the session \<open>s\<close>, up to the second read.\<close>

definition activate_with :: "'s perception_runtime \<Rightarrow> media_session \<Rightarrow> js \<Rightarrow> 's service \<Rightarrow> ('s, unit) perception_result" where
  "activate_with A s input g =
     andThen (check (consent_check s input (sv_now g)) g) (\<lambda>g1 _.
       pc_append A (SessionActivated (pn_id s) (sv_now g + ACTIVE_SESSION_TTL_MS)) (sv_now g) g1)"

definition activateSession ::
  "'s perception_runtime \<Rightarrow> string \<Rightarrow> js \<Rightarrow> 's service \<Rightarrow> ('s, media_session) perception_result" where
  "activateSession A i input g =
     andThen (pc_getSession A i g) (\<lambda>g1 s.
     andThen (activate_with A s input g1) (\<lambda>g2 _. pc_getSession A (pn_id s) g2))"

definition stop_with :: "'s perception_runtime \<Rightarrow> media_session \<Rightarrow> 's service \<Rightarrow> ('s, bool) perception_result" where
  "stop_with A s g =
     (if pn_status s = ''stopped'' then (g, Inr False)
      else andThen (pc_append A (SessionStopped (pn_id s)) (sv_now g) g) (\<lambda>g1 _. (g1, Inr True)))"

definition stopSession :: "'s perception_runtime \<Rightarrow> string \<Rightarrow> 's service \<Rightarrow> ('s, media_session) perception_result" where
  "stopSession A i g =
     andThen (pc_getSession A i g) (\<lambda>g1 s.
     andThen (stop_with A s g1) (\<lambda>g2 appended. if appended then pc_getSession A (pn_id s) g2 else (g2, Inr s)))"

section \<open>Media\<close>

definition media_check :: "media_session \<Rightarrow> int \<Rightarrow> (perception_error, unit) result" where
  "media_check s now =
     (if pn_status s \<noteq> ''active'' then Inl (PerceptionError ''Perception session must be active'' 409 ''session_not_active'')
      else if (case pn_activeExpiresAt s of Some t \<Rightarrow> t < now | None \<Rightarrow> False) \<or> pn_retentionExpiresAt s < now
      then Inl (PerceptionError ''Perception session has expired'' 409 ''session_expired'')
      else Inr ())"

text \<open>Modality, media type, bytes and analysis of an input; the checks in their order.\<close>

definition media_input ::
  "'s perception_runtime \<Rightarrow> media_session \<Rightarrow> js
     \<Rightarrow> (perception_error, string \<times> string \<times> byte list \<times> analysis \<times> nat \<times> nat) result" where
  "media_input A s input =
     (if is_nullish input then Inl (PerceptionFault ''Cannot read properties of null'')
      else
     bindR (pc_requireString (get_prop input ''source_modality'') ''source_modality'' 32) (\<lambda>m.
     if to_lower m \<notin> set (pn_modalities s)
     then Inl (PerceptionError ''Source modality was not included in owner consent'' 403 ''modality_not_consented'')
     else
     bindR (pc_requireString (get_prop input ''media_type'') ''media_type'' 64) (\<lambda>t.
     bindR (assertModalityMediaType (to_lower m) (to_lower t)) (\<lambda>_.
     bindR (strictBase64 (get_prop input ''content_base64'')) (\<lambda>b.
     case analyzeBuffer (pc_utf8 A) b (to_lower t) of
       None \<Rightarrow> Inl (PerceptionFault ''no result'')
     | Some r \<Rightarrow> bindR r (\<lambda>a. Inr (to_lower m, to_lower t, b, a)))))))"

definition analyze_with ::
  "'s perception_runtime \<Rightarrow> media_session \<Rightarrow> js \<Rightarrow> 's service \<Rightarrow> ('s, media_result) perception_result" where
  "analyze_with A s input g =
     andThen (check (media_check s (sv_now g)) g) (\<lambda>g1 _.
     andThen (check (media_input A s input) g1) (\<lambda>g2 x.
     case x of (m, t, b, a, n, k) \<Rightarrow>
     andThen (new_id (pc_uuid A) g2) (\<lambda>g3 i.
     andThen (check (pc_requireString (get_prop input ''source_name'') ''source_name'' 256) g3) (\<lambda>g4 name.
     andThen (check (pc_optionalString (get_prop input ''captured_at'') ''captured_at'' 64) g4) (\<lambda>g5 c.
       let r = \<lparr>md_id = i, md_session = pn_id s, md_modality = m, md_mediaType = t, md_analysis = a, md_redactions = n,
                md_injections = k, md_source = name, md_bytes = length b, md_sha256 = pc_sha256 A b, md_capturedAt = c,
                md_analyzedAt = sv_now g, md_expiresAt = pn_retentionExpiresAt s\<rparr>
       in andThen (pc_append A (MediaAnalyzed r) (sv_now g) g5) (\<lambda>g6 _. (g6, Inr r)))))))"

definition analyzeMedia :: "'s perception_runtime \<Rightarrow> string \<Rightarrow> js \<Rightarrow> 's service \<Rightarrow> ('s, media_result) perception_result" where
  "analyzeMedia A i input g = andThen (pc_getSession A i g) (\<lambda>g1 s. analyze_with A s input g1)"

section \<open>Removal\<close>

text \<open>\<open>event.session?.session_id ?? event.session_id ?? event.result?.session_id\<close>\<close>

definition session_of :: "media_event \<Rightarrow> string" where
  "session_of e =
     (case pe_payload e of SessionProposed s \<Rightarrow> pn_id s | SessionActivated i _ \<Rightarrow> i | MediaAnalyzed r \<Rightarrow> md_session r
      | SessionStopped i \<Rightarrow> i)"

definition discard_with :: "'s perception_runtime \<Rightarrow> media_session \<Rightarrow> 's service \<Rightarrow> ('s, nat) perception_result" where
  "discard_with A s g =
     andThen (on_store PerceptionFault (pc_compact A (\<lambda>e. session_of e \<noteq> pn_id s)) g) (\<lambda>g1 n. (g1, Inr (fst n)))"

definition deleteSession :: "'s perception_runtime \<Rightarrow> string \<Rightarrow> 's service \<Rightarrow> ('s, nat) perception_result" where
  "deleteSession A i g = andThen (pc_getSession A i g) (\<lambda>g1 s. discard_with A s g1)"

definition expired_sessions :: "media_event list \<Rightarrow> int \<Rightarrow> string list" where
  "expired_sessions es now = map pn_id (filter (\<lambda>s. pn_retentionExpiresAt s \<le> now) (map_values (sessionState es)))"

definition pc_purge_with ::
  "'s perception_runtime \<Rightarrow> int \<Rightarrow> media_event list \<Rightarrow> 's service \<Rightarrow> ('s, nat \<times> nat) perception_result" where
  "pc_purge_with A now es g =
     (let ids = remdups (expired_sessions es now) in
      if ids = [] then (g, Inr (0, 0))
      else andThen (on_store PerceptionFault (pc_compact A (\<lambda>e. session_of e \<notin> set ids)) g)
             (\<lambda>g1 n. (g1, Inr (length ids, fst n))))"

definition pc_purgeExpired :: "'s perception_runtime \<Rightarrow> 's service \<Rightarrow> ('s, nat \<times> nat) perception_result" where
  "pc_purgeExpired A g = andThen (pc_read A g) (\<lambda>g1 es. pc_purge_with A (sv_now g) es g1)"

section \<open>The service as a step relation\<close>

text \<open>The writing requests of \<open>server.mjs\<close> one after the other, time, and the store's environment.\<close>

inductive pn_step :: "'s perception_runtime \<Rightarrow> ('s \<Rightarrow> 's \<Rightarrow> bool) \<Rightarrow> 's service \<Rightarrow> 's service \<Rightarrow> bool" for A E where
  create: "pn_step A E g (fst (pc_createSession A input g))"
| activate: "pn_step A E g (fst (activateSession A i input g))"
| stop: "pn_step A E g (fst (stopSession A i g))"
| analyze: "pn_step A E g (fst (analyzeMedia A i input g))"
| delete: "pn_step A E g (fst (deleteSession A i g))"
| purge: "pn_step A E g (fst (pc_purgeExpired A g))"
| time_passes: "sv_now g \<le> t \<Longrightarrow> pn_step A E g (g\<lparr>sv_now := t\<rparr>)"
| environment: "E (sv_data g) d \<Longrightarrow> pn_step A E g (g\<lparr>sv_data := d\<rparr>)"

inductive pn_reachable :: "'s perception_runtime \<Rightarrow> ('s \<Rightarrow> 's \<Rightarrow> bool) \<Rightarrow> 's \<Rightarrow> 's service \<Rightarrow> bool" for A E s0 where
  start: "pn_reachable A E s0 \<lparr>sv_now = t, sv_fresh = 0, sv_data = s0\<rparr>"
| step: "pn_reachable A E s0 g \<Longrightarrow> pn_step A E g g' \<Longrightarrow> pn_reachable A E s0 g'"

text \<open>Overlapping requests: what follows a read works on a log that was read at some time before.\<close>

type_synonym 's media_overlap = "'s service \<times> (int \<times> media_event list) list"

inductive po_step :: "'s perception_runtime \<Rightarrow> ('s \<Rightarrow> 's \<Rightarrow> bool) \<Rightarrow> 's media_overlap \<Rightarrow> 's media_overlap \<Rightarrow> bool" for A E where
  read: "eo_readEvents (pc_store A) (sv_data g) = Inr es \<Longrightarrow> po_step A E (g, H) (g, (sv_now g, es) # H)"
| create: "po_step A E (g, H) (fst (pc_createSession A input g), H)"
| activate: "(t, es) \<in> set H \<Longrightarrow> session_in i es = Inr s \<Longrightarrow> po_step A E (g, H) (fst (activate_with A s input g), H)"
| stop: "(t, es) \<in> set H \<Longrightarrow> session_in i es = Inr s \<Longrightarrow> po_step A E (g, H) (fst (stop_with A s g), H)"
| analyze: "(t, es) \<in> set H \<Longrightarrow> session_in i es = Inr s \<Longrightarrow> po_step A E (g, H) (fst (analyze_with A s input g), H)"
| delete: "(t, es) \<in> set H \<Longrightarrow> session_in i es = Inr s \<Longrightarrow> po_step A E (g, H) (fst (discard_with A s g), H)"
| purge: "(t, es) \<in> set H \<Longrightarrow> po_step A E (g, H) (fst (pc_purge_with A t es g), H)"
| time_passes: "sv_now g \<le> t \<Longrightarrow> po_step A E (g, H) (g\<lparr>sv_now := t\<rparr>, H)"
| environment: "E (sv_data g) d \<Longrightarrow> po_step A E (g, H) (g\<lparr>sv_data := d\<rparr>, H)"

inductive po_reachable :: "'s perception_runtime \<Rightarrow> ('s \<Rightarrow> 's \<Rightarrow> bool) \<Rightarrow> 's \<Rightarrow> 's media_overlap \<Rightarrow> bool" for A E s0 where
  start: "po_reachable A E s0 (\<lparr>sv_now = t, sv_fresh = 0, sv_data = s0\<rparr>, [])"
| step: "po_reachable A E s0 x \<Longrightarrow> po_step A E x y \<Longrightarrow> po_reachable A E s0 y"

end
