(* ===== verification/PerceptionSpec.thy ===== *)
theory PerceptionSpec
  imports Perception
begin

text \<open>
  What the perception service promises, on its log alone: what stands behind every event, the
  life of a session as an order of its events, and what a log looks like when some sessions
  are removed.
\<close>

section \<open>What stands behind an event\<close>

definition terms_ok :: "(js \<Rightarrow> string) \<Rightarrow> media_session \<Rightarrow> bool" where
  "terms_ok H s \<longleftrightarrow>
     pn_purpose s \<noteq> [] \<and> length (pn_purpose s) \<le> 1000 \<and> pn_modalities s \<noteq> [] \<and> distinct (pn_modalities s) \<and>
     set (pn_modalities s) \<subseteq> set MODALITIES \<and> 1 \<le> pn_minutes s \<and> pn_minutes s \<le> 1440 \<and>
     pn_retentionExpiresAt s = pn_createdAt s + pn_minutes s * 60 * 1000 \<and>
     pn_consentExpiresAt s = pn_createdAt s + CONSENT_TTL_MS \<and> pn_digest s = consentDigest H s \<and>
     pn_status s = ''pending_consent'' \<and> pn_activeExpiresAt s = None"

text \<open>The terms the owner saw: what the fold never changes.\<close>

definition same_terms :: "media_session \<Rightarrow> media_session \<Rightarrow> bool" where
  "same_terms s s0 \<longleftrightarrow>
     pn_id s = pn_id s0 \<and> pn_purpose s = pn_purpose s0 \<and> pn_modalities s = pn_modalities s0 \<and>
     pn_retentionExpiresAt s = pn_retentionExpiresAt s0 \<and> pn_consentExpiresAt s = pn_consentExpiresAt s0 \<and>
     pn_digest s = pn_digest s0 \<and> pn_nonce s = pn_nonce s0"

definition proposed_in :: "media_event set \<Rightarrow> media_session \<Rightarrow> bool" where
  "proposed_in L s \<longleftrightarrow> (\<exists>e\<in>L. pe_payload e = SessionProposed s)"

text \<open>
  An analysis: of a modality in the terms, before the session's retention ended, and after an
  activation that came in time and whose fifteen minutes were not over.
\<close>

definition consented :: "media_event set \<Rightarrow> media_result \<Rightarrow> bool" where
  "consented L r \<longleftrightarrow>
     (\<exists>s. proposed_in L s \<and> pn_id s = md_session r \<and> md_modality r \<in> set (pn_modalities s) \<and>
        md_analyzedAt r \<le> pn_retentionExpiresAt s \<and> md_expiresAt r = pn_retentionExpiresAt s) \<and>
     (\<exists>e\<in>L. \<exists>t s. pe_payload e = SessionActivated (md_session r) t \<and> proposed_in L s \<and> pn_id s = md_session r \<and>
        pe_at e \<le> pn_consentExpiresAt s \<and> md_analyzedAt r \<le> pe_at e + ACTIVE_SESSION_TTL_MS)"

definition vouched :: "(js \<Rightarrow> string) \<Rightarrow> media_event set \<Rightarrow> media_event \<Rightarrow> bool" where
  "vouched H L e \<longleftrightarrow>
     (case pe_payload e of
        SessionProposed s \<Rightarrow> terms_ok H s
      | SessionActivated i t \<Rightarrow>
          t = pe_at e + ACTIVE_SESSION_TTL_MS \<and> (\<exists>s. proposed_in L s \<and> pn_id s = i \<and> pe_at e \<le> pn_consentExpiresAt s)
      | MediaAnalyzed r \<Rightarrow> md_analyzedAt r = pe_at e \<and> consented L r
      | SessionStopped _ \<Rightarrow> True)"

lemma proposed_in_mono: "proposed_in L s \<Longrightarrow> L \<subseteq> M \<Longrightarrow> proposed_in M s"
  by (auto simp: proposed_in_def)

lemma consented_mono: "consented L r \<Longrightarrow> L \<subseteq> M \<Longrightarrow> consented M r"
  unfolding consented_def by (meson proposed_in_mono subsetD)

lemma vouched_mono: "vouched H L e \<Longrightarrow> L \<subseteq> M \<Longrightarrow> vouched H M e"
  unfolding vouched_def by (auto split: media_payload.splits intro: consented_mono proposed_in_mono)

lemma sessionState_Nil [simp]: "sessionState [] = []"
  by (simp add: sessionState_def)

lemma sessionState_snoc [simp]: "sessionState (l @ [e]) = apply_media (sessionState l) e"
  by (simp add: sessionState_def)

lemma map_get_update_session [simp]:
  "map_get (update_session m i f) j = (if i = j then map_option f (map_get m i) else map_get m j)"
  by (auto simp: update_session_def split: option.splits)

lemma sessions_ok: "map_ok (sessionState l)"
  by (induction l rule: rev_induct) (auto simp: apply_media_def update_session_def split: media_payload.splits option.splits)

lemma session_terms:
  "map_get (sessionState l) i = Some s \<Longrightarrow> \<exists>s0. proposed_in (set l) s0 \<and> same_terms s s0 \<and> pn_id s = i"
proof (induction l arbitrary: s rule: rev_induct)
  case (snoc e l)
  have more: "\<exists>s0. proposed_in (set (l @ [e])) s0 \<and> same_terms s1 s0 \<and> pn_id s1 = i"
    if "map_get (sessionState l) i = Some s1" for s1
    using snoc.IH [OF that] proposed_in_mono [of "set l" _ "set (l @ [e])"] by auto
  show ?case
  proof (cases "pe_payload e")
    case (SessionProposed s1)
    then have "proposed_in (set (l @ [e])) s1" by (auto simp: proposed_in_def)
    with snoc.prems more SessionProposed show ?thesis
      by (auto simp: apply_media_def same_terms_def split: if_splits)
  qed (use snoc.prems more in \<open>force simp: apply_media_def same_terms_def split: if_splits\<close>)+
qed simp

definition pending_proposals :: "media_event list \<Rightarrow> bool" where
  "pending_proposals l \<longleftrightarrow> (\<forall>e\<in>set l. \<forall>s. pe_payload e = SessionProposed s \<longrightarrow> pn_status s = ''pending_consent'')"

lemma pending_proposals_snoc [simp]:
  "pending_proposals (l @ [e]) \<longleftrightarrow> pending_proposals l \<and> (\<forall>s. pe_payload e = SessionProposed s \<longrightarrow> pn_status s = ''pending_consent'')"
  by (auto simp: pending_proposals_def)

lemma session_active:
  "pending_proposals l \<Longrightarrow> map_get (sessionState l) i = Some s \<Longrightarrow> pn_status s = ''active'' \<Longrightarrow>
     \<exists>e\<in>set l. \<exists>t. pe_payload e = SessionActivated i t \<and> pn_activeExpiresAt s = Some t"
proof (induction l arbitrary: s rule: rev_induct)
  case (snoc e l)
  then have l: "pending_proposals l" by simp
  show ?case
    by (cases "pe_payload e")
      (use snoc.prems snoc.IH [OF l] in \<open>fastforce simp: apply_media_def split: if_splits\<close>)+
qed simp

lemma pc_requireString_text: "pc_requireString v f n = Inr s \<Longrightarrow> s \<noteq> [] \<and> length s \<le> n"
  by (auto simp: requireString_Inr)

lemma unique_modalities_ok:
  "unique_modalities kept vs = Inr ms \<Longrightarrow> distinct kept \<Longrightarrow> set kept \<subseteq> set MODALITIES \<Longrightarrow>
     distinct ms \<and> set ms \<subseteq> set MODALITIES \<and> (kept \<noteq> [] \<or> vs \<noteq> [] \<longrightarrow> ms \<noteq> [])"
proof (induction kept vs arbitrary: ms rule: unique_modalities.induct)
  case (2 kept v vs)
  from 2(2) obtain a where a: "pc_requireString v ''modality'' 32 = Inr a" "to_lower a \<in> set MODALITIES"
      "unique_modalities (if to_lower a \<in> set kept then kept else kept @ [to_lower a]) vs = Inr ms"
    by (auto simp: bindR_Inr_iff Let_def split: if_splits)
  have "distinct ms \<and> set ms \<subseteq> set MODALITIES \<and>
      ((if to_lower a \<in> set kept then kept else kept @ [to_lower a]) \<noteq> [] \<or> vs \<noteq> [] \<longrightarrow> ms \<noteq> [])"
    by (rule 2(1) [OF refl _ a(3)]) (use 2(3,4) a(2) in auto)
  moreover have "(if to_lower a \<in> set kept then kept else kept @ [to_lower a]) \<noteq> []" by auto
  ultimately show ?case by blast
qed simp

lemma normalizeModalities_ok:
  "normalizeModalities v = Inr ms \<Longrightarrow> ms \<noteq> [] \<and> distinct ms \<and> set ms \<subseteq> set MODALITIES"
  using unique_modalities_ok [of "[]"] by (fastforce simp: normalizeModalities_def split: js.splits if_splits)

lemma normalizeRetention_ok: "normalizeRetention v = Inr n \<Longrightarrow> 1 \<le> n \<and> n \<le> 1440"
  by (auto simp: normalizeRetention_def Let_def le_floor_iff floor_le_iff split: if_splits jsnum.splits)

lemma build_session_ok:
  assumes "normalizeRetention w = Inr n" and "pc_requireString v f 1000 = Inr p" and "normalizeModalities u = Inr ms"
  shows "terms_ok H (build_session H i p ms n x now)"
  using normalizeRetention_ok [OF assms(1)] pc_requireString_text [OF assms(2)] normalizeModalities_ok [OF assms(3)]
  by (auto simp: terms_ok_def build_session_def Let_def consentDigest_def canonicalConsent_def)

lemma build_session_id [simp]: "pn_id (build_session H i p ms n x now) = i"
  by (simp add: build_session_def Let_def)

lemma session_in_Inr: "session_in i es = Inr s \<Longrightarrow> map_get (sessionState es) (pn_id s) = Some s \<and> pn_id s = i"
  using session_terms [of es i s] by (auto simp: session_in_def split: option.splits)

section \<open>The life of a session\<close>

text \<open>Of two events: a proposal is the first of its session, an activation is the first and a stop the last.\<close>

definition life_order :: "media_event \<Rightarrow> media_event \<Rightarrow> bool" where
  "life_order e e' \<longleftrightarrow>
     (case pe_payload e' of
        SessionProposed s \<Rightarrow> session_of e \<noteq> pn_id s
      | SessionActivated i _ \<Rightarrow> pe_payload e \<noteq> SessionStopped i \<and> (\<forall>t. pe_payload e \<noteq> SessionActivated i t)
      | MediaAnalyzed r \<Rightarrow> pe_payload e \<noteq> SessionStopped (md_session r)
      | SessionStopped i \<Rightarrow> pe_payload e \<noteq> SessionStopped i)"

definition stopped_in :: "media_event list \<Rightarrow> string \<Rightarrow> bool" where
  "stopped_in l i \<longleftrightarrow> (\<exists>e\<in>set l. pe_payload e = SessionStopped i)"

definition activated_in :: "media_event list \<Rightarrow> string \<Rightarrow> bool" where
  "activated_in l i \<longleftrightarrow> (\<exists>e\<in>set l. \<exists>t. pe_payload e = SessionActivated i t)"

definition life_status :: "media_event list \<Rightarrow> string \<Rightarrow> string" where
  "life_status l i =
     (if stopped_in l i then ''stopped'' else if activated_in l i then ''active'' else ''pending_consent'')"

text \<open>In a log in order, the fold's status of a session is the one its events tell.\<close>

lemma session_status:
  "sorted_wrt life_order l \<Longrightarrow> pending_proposals l \<Longrightarrow> map_get (sessionState l) i = Some s \<Longrightarrow> pn_status s = life_status l i"
proof (induction l arbitrary: s rule: rev_induct)
  case (snoc e l)
  have l: "sorted_wrt life_order l" "pending_proposals l" "\<forall>e0\<in>set l. life_order e0 e"
    using snoc.prems(1,2) by (auto simp: sorted_wrt_append)
  note IH = snoc.IH [OF l(1,2)]
  show ?case
  proof (cases "pe_payload e")
    case (SessionProposed s1)
    with l(3) have "\<forall>e0\<in>set l. session_of e0 \<noteq> pn_id s1" by (simp add: life_order_def)
    then have "\<not> stopped_in l (pn_id s1)" "\<not> activated_in l (pn_id s1)"
      by (auto simp: stopped_in_def activated_in_def session_of_def)
    moreover have "pn_status s1 = ''pending_consent''" using snoc.prems(2) SessionProposed by simp
    ultimately show ?thesis
      using snoc.prems(3) IH SessionProposed
      by (auto simp: apply_media_def life_status_def stopped_in_def activated_in_def split: if_splits)
  next
    case (SessionActivated j t)
    with l(3) have "\<not> stopped_in l j" by (auto simp: life_order_def stopped_in_def)
    then show ?thesis
      using snoc.prems(3) IH SessionActivated
      by (auto simp: apply_media_def life_status_def stopped_in_def activated_in_def split: if_splits)
  qed (use snoc.prems(3) IH in
      \<open>auto simp: apply_media_def life_status_def stopped_in_def activated_in_def split: if_splits\<close>)
qed simp

section \<open>Every event has its session\<close>

definition housed :: "media_event list \<Rightarrow> bool" where
  "housed l \<longleftrightarrow> (\<forall>e\<in>set l. \<exists>s. map_get (sessionState l) (session_of e) = Some s \<and>
     (case pe_payload e of MediaAnalyzed r \<Rightarrow> md_expiresAt r = pn_retentionExpiresAt s | _ \<Rightarrow> True))"

lemma housed_snoc:
  assumes "housed l" and "case pe_payload e of
      SessionProposed s \<Rightarrow> \<forall>e0\<in>set l. session_of e0 \<noteq> pn_id s
    | SessionActivated i _ \<Rightarrow> map_get (sessionState l) i \<noteq> None
    | MediaAnalyzed r \<Rightarrow> (\<exists>s. map_get (sessionState l) (md_session r) = Some s \<and> md_expiresAt r = pn_retentionExpiresAt s)
    | SessionStopped i \<Rightarrow> map_get (sessionState l) i \<noteq> None"
  shows "housed (l @ [e])"
proof -
  have old: "\<exists>s. map_get (sessionState (l @ [e])) (session_of e0) = Some s \<and>
     (case pe_payload e0 of MediaAnalyzed r \<Rightarrow> md_expiresAt r = pn_retentionExpiresAt s | _ \<Rightarrow> True)"
    if "e0 \<in> set l" for e0
    using assms that
    by (cases "pe_payload e"; force simp: housed_def apply_media_def split: if_splits media_payload.splits)
  have "\<exists>s. map_get (sessionState (l @ [e])) (session_of e) = Some s \<and>
     (case pe_payload e of MediaAnalyzed r \<Rightarrow> md_expiresAt r = pn_retentionExpiresAt s | _ \<Rightarrow> True)"
    using assms(2) by (auto simp: apply_media_def session_of_def split: media_payload.splits)
  with old show ?thesis by (auto simp: housed_def)
qed

lemma sessions_filter:
  "map_get (sessionState (filter (\<lambda>e. session_of e \<notin> S) l)) i = (if i \<in> S then None else map_get (sessionState l) i)"
  by (induction l rule: rev_induct) (auto simp: apply_media_def session_of_def split: media_payload.splits)

lemma housed_filter: "housed l \<Longrightarrow> housed (filter (\<lambda>e. session_of e \<notin> S) l)"
  by (auto simp: housed_def sessions_filter)

lemma expired_sessions_iff:
  "i \<in> set (expired_sessions l now) \<longleftrightarrow> (\<exists>s. map_get (sessionState l) i = Some s \<and> pn_retentionExpiresAt s \<le> now)"
proof
  assume "i \<in> set (expired_sessions l now)"
  then obtain s k where s: "pn_id s = i" "pn_retentionExpiresAt s \<le> now" "(k, s) \<in> set (sessionState l)"
    by (auto simp: expired_sessions_def map_values_def)
  then have "map_get (sessionState l) k = Some s" using map_get_iff [OF sessions_ok] by blast
  with s session_terms show "\<exists>s. map_get (sessionState l) i = Some s \<and> pn_retentionExpiresAt s \<le> now" by metis
next
  assume "\<exists>s. map_get (sessionState l) i = Some s \<and> pn_retentionExpiresAt s \<le> now"
  then obtain s where s: "map_get (sessionState l) i = Some s" "pn_retentionExpiresAt s \<le> now" by blast
  with session_terms have "pn_id s = i" by blast
  with s map_values_get [OF s(1)] show "i \<in> set (expired_sessions l now)" by (force simp: expired_sessions_def)
qed

end
