(* ===== verification/PerceptionProperties.thy ===== *)
theory PerceptionProperties
  imports PerceptionSpec
begin

text \<open>
  What every method of the perception service does to the log, over any journal that keeps the
  contract of \<open>EncryptedJournal\<close>, and the invariants of both step relations: with overlapping
  requests every event is vouched for; with requests one after the other every session goes
  through its life in order and every event has its session.
\<close>

definition sessions_used :: "(nat \<Rightarrow> string) \<Rightarrow> nat \<Rightarrow> media_event list \<Rightarrow> bool" where
  "sessions_used U n l \<longleftrightarrow> (\<forall>e\<in>set l. session_of e \<in> U ` {..<n})"

lemma sessions_used_more: "sessions_used U n l \<Longrightarrow> n \<le> m \<Longrightarrow> sessions_used U m l"
  unfolding sessions_used_def by fastforce

text \<open>A read changes nothing.\<close>

lemma pc_getSession_state [simp]: "fst (pc_getSession A i g) = g"
  by (auto simp: pc_getSession_def pc_read_def from_store_def andThen_def check_def split: sum.splits)

locale media_log = journal_log P evs E errors C
  for P :: "('s, media_event) event_store" and evs :: "'s \<Rightarrow> media_event list" and E :: "'s \<Rightarrow> 's \<Rightarrow> bool"
    and errors :: "string set" and C :: "(media_event \<Rightarrow> bool) \<Rightarrow> 's \<Rightarrow> ('s, string, nat \<times> nat) outcome"
begin

definition proper :: "'s perception_runtime \<Rightarrow> bool" where
  "proper A \<longleftrightarrow> pc_store A = P \<and> pc_compact A = C \<and> inj (pc_uuid A)"

lemma proper_fields: "proper A \<Longrightarrow> pc_store A = P" "proper A \<Longrightarrow> pc_compact A = C"
  by (simp_all add: proper_def)

lemma pc_append_grown:
  assumes "proper A" and "same g0 g" and "\<And>e n. pe_payload e = v \<Longrightarrow> pe_at e = t \<Longrightarrow> sv_fresh g \<le> n \<Longrightarrow> Q e n"
  shows "post (pc_append A v t g) (\<lambda>_. grown Q g0) (grown Q g0)"
  unfolding pc_append_def proper_fields [OF assms(1)]
  by (rule post_andThen, rule new_id_post, rule append_grown) (use assms(2,3) in simp_all)

lemma pc_read_same:
  assumes "proper A" and "same g0 g"
  shows "post (pc_read A g) (\<lambda>es g1. es = evs (sv_data g0) \<and> same g0 g1) (same g0)"
  unfolding pc_read_def proper_fields [OF assms(1)] by (rule read_same [OF assms(2)])

lemma create_grown:
  assumes "proper A" and "\<And>e s n. pe_payload e = SessionProposed s \<Longrightarrow> terms_ok (pc_hash A) s \<Longrightarrow>
      pn_id s \<in> pc_uuid A ` {sv_fresh g..<n} \<Longrightarrow> sv_fresh g \<le> n \<Longrightarrow> Q e n"
  shows "post (pc_createSession A input g) (\<lambda>_. grown Q g) (grown Q g)"
proof -
  let ?n = "Suc (sv_fresh g)"
  have s: "same g (g\<lparr>sv_fresh := n\<rparr>)" if "sv_fresh g \<le> n" for n using that by (simp add: same_def)
  have appended: "post (pc_append A (SessionProposed (build_session (pc_hash A) (pc_uuid A (sv_fresh g)) p ms m x t)) t
        (g\<lparr>sv_fresh := Suc ?n\<rparr>)) (\<lambda>_. grown Q g) (grown Q g)"
    if "normalizeRetention w = Inr m" "pc_requireString v ''purpose'' 1000 = Inr p" "normalizeModalities u = Inr ms"
    for p ms m x t w v u
  proof (rule pc_append_grown [OF assms(1) s], simp)
    fix e :: media_event and n
    assume "pe_payload e = SessionProposed (build_session (pc_hash A) (pc_uuid A (sv_fresh g)) p ms m x t)"
      "sv_fresh (g\<lparr>sv_fresh := Suc ?n\<rparr>) \<le> n"
    then show "Q e n" by (intro assms(2) [OF _ build_session_ok [OF that]]) auto
  qed
  show ?thesis
    unfolding pc_createSession_def Let_def
    using s
    by (auto intro!: post_andThen check_post new_id_post post_mono [OF appended] same_grown split: if_splits)
qed

lemma activate_grown:
  assumes "proper A" and "same g0 g"
    and "\<And>e n. pe_payload e = SessionActivated (pn_id s) (sv_now g + ACTIVE_SESSION_TTL_MS) \<Longrightarrow> pe_at e = sv_now g \<Longrightarrow>
      consent_check s input (sv_now g) = Inr () \<Longrightarrow> sv_fresh g \<le> n \<Longrightarrow> Q e n"
  shows "post (activate_with A s input g) (\<lambda>_. grown Q g0) (grown Q g0)"
  unfolding activate_with_def
  using same_grown [OF assms(2)]
  by (auto intro!: post_andThen check_post pc_append_grown [OF assms(1,2)] assms(3))

lemma stop_grown:
  assumes "proper A" and "same g0 g"
    and "\<And>e n. pe_payload e = SessionStopped (pn_id s) \<Longrightarrow> pn_status s \<noteq> ''stopped'' \<Longrightarrow> sv_fresh g \<le> n \<Longrightarrow> Q e n"
  shows "post (stop_with A s g) (\<lambda>_. grown Q g0) (grown Q g0)"
  unfolding stop_with_def
  using same_grown [OF assms(2)]
  by (auto intro!: post_andThen pc_append_grown [OF assms(1,2)] assms(3))

lemma media_input_modality: "media_input A s input = Inr (m, x) \<Longrightarrow> m \<in> set (pn_modalities s)"
  by (auto simp: media_input_def bindR_Inr_iff split: if_splits option.splits)

lemma analyze_grown:
  assumes "proper A" and "same g0 g"
    and "\<And>e n r. pe_payload e = MediaAnalyzed r \<Longrightarrow> pe_at e = sv_now g \<Longrightarrow> md_session r = pn_id s \<Longrightarrow>
      md_modality r \<in> set (pn_modalities s) \<Longrightarrow> md_analyzedAt r = sv_now g \<Longrightarrow> md_expiresAt r = pn_retentionExpiresAt s \<Longrightarrow>
      media_check s (sv_now g) = Inr () \<Longrightarrow> sv_fresh g \<le> n \<Longrightarrow> Q e n"
  shows "post (analyze_with A s input g) (\<lambda>_. grown Q g0) (grown Q g0)"
proof -
  have appended: "post (pc_append A (MediaAnalyzed r) (sv_now g) (g\<lparr>sv_fresh := Suc (sv_fresh g)\<rparr>)) (\<lambda>_. grown Q g0) (grown Q g0)"
    if "media_check s (sv_now g) = Inr ()" "md_session r = pn_id s" "md_modality r \<in> set (pn_modalities s)"
      "md_analyzedAt r = sv_now g" "md_expiresAt r = pn_retentionExpiresAt s" for r
    by (rule pc_append_grown [OF assms(1)]) (use assms(2) that in \<open>auto intro!: assms(3)\<close>)
  show ?thesis
    unfolding analyze_with_def Let_def
    using assms(2) same_grown [OF assms(2)]
    by (auto intro!: post_andThen check_post new_id_post post_mono [OF appended] same_grown dest: media_input_modality)
qed

lemma discard_removed:
  assumes "proper A"
  shows "post (discard_with A s g) (\<lambda>_. removed session_of {pn_id s} g) (removed session_of {} g)"
  using compact_removed [of PerceptionFault session_of "{pn_id s}" g]
  unfolding discard_with_def proper_fields [OF assms] by (auto simp: post_andThen_iff)

lemma purge_removed:
  assumes "proper A"
  shows "post (pc_purge_with A t es g) (\<lambda>_. removed session_of (set (expired_sessions es t)) g) (removed session_of {} g)"
  using compact_removed [of PerceptionFault session_of "set (expired_sessions es t)" g]
  unfolding pc_purge_with_def proper_fields [OF assms] Let_def by (auto simp: post_andThen_iff)

section \<open>Overlapping requests\<close>

definition all_vouched :: "'s perception_runtime \<Rightarrow> 's media_overlap \<Rightarrow> bool" where
  "all_vouched A x \<longleftrightarrow> (\<forall>e\<in>set (evs (sv_data (fst x))) \<union> seen (snd x). vouched (pc_hash A) (seen (snd x)) e)"

lemma grown_vouched:
  "all_vouched A (g, H) \<Longrightarrow> grown (\<lambda>e n. vouched (pc_hash A) (seen H) e) g g' \<Longrightarrow> all_vouched A (g', H)"
  by (auto simp: all_vouched_def grown_def)

lemma removed_vouched: "all_vouched A (g, H) \<Longrightarrow> removed session_of S g g' \<Longrightarrow> all_vouched A (g', H)"
  by (auto simp: all_vouched_def removed_def)

text \<open>What a session of an earlier read tells.\<close>

lemma earlier_session:
  assumes "all_vouched A (g, H)" and "(t, es) \<in> set H" and "session_in i es = Inr s"
  shows "\<exists>s0. proposed_in (seen H) s0 \<and> same_terms s s0" and "pending_proposals es"
    and "map_get (sessionState es) i = Some s" and "pn_id s = i"
proof -
  show m: "map_get (sessionState es) i = Some s" using assms(3) by (simp add: session_in_def split: option.splits)
  from session_terms [OF m] proposed_in_mono [OF _ seen_member [OF assms(2)]]
  show "\<exists>s0. proposed_in (seen H) s0 \<and> same_terms s s0" "pn_id s = i" by blast+
  show "pending_proposals es"
    unfolding pending_proposals_def
  proof (intro ballI allI impI)
    fix e s1 assume e: "e \<in> set es" "pe_payload e = SessionProposed s1"
    then have "e \<in> seen H" using seen_member [OF assms(2)] by blast
    with assms(1) have "vouched (pc_hash A) (seen H) e" by (simp add: all_vouched_def)
    with e(2) show "pn_status s1 = ''pending_consent''" by (simp add: vouched_def terms_ok_def)
  qed
qed

lemma analysis_consented:
  assumes v: "all_vouched A (g, H)" and "(t, es) \<in> set H" and "session_in i es = Inr s"
    and "media_check s now = Inr ()" and r: "md_session r = pn_id s" "md_modality r \<in> set (pn_modalities s)"
    "md_analyzedAt r = now" "md_expiresAt r = pn_retentionExpiresAt s"
  shows "consented (seen H) r"
proof -
  note s = earlier_session [OF assms(1-3)]
  have now: "pn_status s = ''active''" "now \<le> pn_retentionExpiresAt s" "\<And>u. pn_activeExpiresAt s = Some u \<Longrightarrow> now \<le> u"
    using assms(4) by (auto simp: media_check_def split: if_splits)
  obtain e u where e: "e \<in> set es" "pe_payload e = SessionActivated i u" "pn_activeExpiresAt s = Some u"
    using session_active [OF s(2,3) now(1)] by blast
  have "e \<in> seen H" using e(1) seen_member [OF assms(2)] by blast
  then have "vouched (pc_hash A) (seen H) e" using v by (simp add: all_vouched_def)
  with e(2) have u: "u = pe_at e + ACTIVE_SESSION_TTL_MS"
      "\<exists>s1. proposed_in (seen H) s1 \<and> pn_id s1 = i \<and> pe_at e \<le> pn_consentExpiresAt s1"
    by (auto simp: vouched_def)
  have "now \<le> pe_at e + ACTIVE_SESSION_TTL_MS" using now(3) [OF e(3)] u(1) by simp
  with u(2) e(2) \<open>e \<in> seen H\<close> s(1,4) now(2) r show ?thesis
    unfolding consented_def same_terms_def by metis
qed

lemma step_vouched:
  assumes "proper A" and "po_step A E x y" and "all_vouched A x"
  shows "all_vouched A y"
  using assms(2,3)
proof (cases rule: po_step.cases)
  case (read g es H)
  then have "es = evs (sv_data g)" using events assms(1) by (simp add: proper_def)
  with assms(3) read show ?thesis by (auto simp: all_vouched_def intro: vouched_mono)
next
  case (create g H input)
  have "grown (\<lambda>e n. vouched (pc_hash A) (seen H) e) g (fst (pc_createSession A input g))"
    by (rule post_fst [OF create_grown [OF assms(1)]]) (simp add: vouched_def)
  with grown_vouched assms(3) create show ?thesis by simp
next
  case (activate t es H i s g input)
  note s = earlier_session [OF assms(3) [unfolded activate(1)] activate(3,4)]
  have "grown (\<lambda>e n. vouched (pc_hash A) (seen H) e) g (fst (activate_with A s input g))"
  proof (rule post_fst [OF activate_grown [OF assms(1) same_refl]])
    fix e :: media_event and n
    assume "pe_payload e = SessionActivated (pn_id s) (sv_now g + ACTIVE_SESSION_TTL_MS)" "pe_at e = sv_now g"
      "consent_check s input (sv_now g) = Inr ()"
    with s show "vouched (pc_hash A) (seen H) e"
      by (auto simp: vouched_def consent_check_def same_terms_def split: if_splits)
  qed
  with grown_vouched assms(3) activate show ?thesis by simp
next
  case (stop t es H i s g)
  have "grown (\<lambda>e n. vouched (pc_hash A) (seen H) e) g (fst (stop_with A s g))"
    by (rule post_fst [OF stop_grown [OF assms(1) same_refl]]) (simp add: vouched_def)
  with grown_vouched assms(3) stop show ?thesis by simp
next
  case (analyze t es H i s g input)
  note c = analysis_consented [OF assms(3) [unfolded analyze(1)] analyze(3,4)]
  have "grown (\<lambda>e n. vouched (pc_hash A) (seen H) e) g (fst (analyze_with A s input g))"
    by (rule post_fst [OF analyze_grown [OF assms(1) same_refl]]) (simp add: vouched_def c)
  with grown_vouched assms(3) analyze show ?thesis by simp
next
  case (delete t es H i s g)
  have "\<exists>S. removed session_of S g (fst (discard_with A s g))"
    by (rule post_fst [OF post_mono [OF discard_removed [OF assms(1)]]]) auto
  with removed_vouched assms(3) delete show ?thesis by blast
next
  case (purge t es H g)
  have "\<exists>S. removed session_of S g (fst (pc_purge_with A t es g))"
    by (rule post_fst [OF post_mono [OF purge_removed [OF assms(1)]]]) auto
  with removed_vouched assms(3) purge show ?thesis by blast
next
  case (environment g d H)
  with env assms(3) show ?thesis by (simp add: all_vouched_def)
qed (simp add: all_vouched_def)

lemma reachable_vouched:
  assumes "proper A" and "po_reachable A E s0 x" and "evs s0 = []"
  shows "all_vouched A x"
  using assms(2)
proof (induction rule: po_reachable.induct)
  case (start t)
  then show ?case using assms(3) by (simp add: all_vouched_def seen_def)
qed (rule step_vouched [OF assms(1)])

section \<open>One request after the other\<close>

definition lively :: "'s perception_runtime \<Rightarrow> nat \<Rightarrow> media_event list \<Rightarrow> bool" where
  "lively A n l \<longleftrightarrow> sorted_wrt life_order l \<and> pending_proposals l \<and> housed l \<and> sessions_used (pc_uuid A) n l"

text \<open>An event of a session of the log, in a status that allows it.\<close>

definition allowed_for :: "media_session \<Rightarrow> media_event \<Rightarrow> bool" where
  "allowed_for s e \<longleftrightarrow>
     (case pe_payload e of
        SessionProposed _ \<Rightarrow> False
      | SessionActivated _ _ \<Rightarrow> pn_status s = ''pending_consent''
      | MediaAnalyzed r \<Rightarrow> pn_status s = ''active'' \<and> md_expiresAt r = pn_retentionExpiresAt s
      | SessionStopped _ \<Rightarrow> pn_status s \<noteq> ''stopped'')"

lemma lively_filter: "lively A n l \<Longrightarrow> n \<le> m \<Longrightarrow> lively A m (filter (\<lambda>e. session_of e \<notin> S) l)"
  using sessions_used_more [of "pc_uuid A" n l m]
  by (auto simp: lively_def sorted_wrt_filter housed_filter pending_proposals_def sessions_used_def)

lemma lively_new:
  assumes "proper A" and "lively A n l" and "pe_payload e = SessionProposed s" and "terms_ok H s"
    and "pn_id s \<in> pc_uuid A ` {n..<m}" and "n \<le> m"
  shows "lively A m (l @ [e])"
proof -
  have fresh: "session_of e0 \<noteq> pn_id s" if "e0 \<in> set l" for e0
    using assms(1,2,5) that by (force simp: proper_def lively_def sessions_used_def dest: injD)
  have "housed (l @ [e])" by (rule housed_snoc) (use assms(2,3) fresh in \<open>simp_all add: lively_def\<close>)
  moreover have "sessions_used (pc_uuid A) m (l @ [e])"
    using sessions_used_more [of "pc_uuid A" n l m] assms(2,3,5,6) by (auto simp: lively_def sessions_used_def session_of_def)
  ultimately show ?thesis
    using assms(2-4) fresh by (auto simp: lively_def sorted_wrt_append life_order_def terms_ok_def)
qed

lemma lively_more:
  assumes "lively A n l" and "map_get (sessionState l) (session_of e) = Some s" and "allowed_for s e" and "n \<le> m"
  shows "lively A m (l @ [e])"
proof -
  have st: "pn_status s = life_status l (session_of e)"
    by (rule session_status) (use assms(1,2) in \<open>simp_all add: lively_def\<close>)
  have "life_order e0 e" if "e0 \<in> set l" for e0
    using assms(3) that st
    by (auto simp: life_order_def allowed_for_def life_status_def stopped_in_def activated_in_def session_of_def
        split: media_payload.splits if_splits)
  moreover have "housed (l @ [e])"
    by (rule housed_snoc)
      (use assms(1-3) in \<open>auto simp: lively_def allowed_for_def session_of_def split: media_payload.splits\<close>)
  moreover have "session_of e \<in> pc_uuid A ` {..<m}"
  proof -
    obtain s0 where "proposed_in (set l) s0" "same_terms s s0" "pn_id s = session_of e"
      using session_terms [OF assms(2)] by blast
    then obtain e0 where l: "e0 \<in> set l" and e0: "session_of e0 = session_of e"
      by (auto simp: proposed_in_def same_terms_def session_of_def)
    have "session_of e0 \<in> pc_uuid A ` {..<n}" using assms(1) l by (simp add: lively_def sessions_used_def)
    then have "session_of e \<in> pc_uuid A ` {..<n}" by (simp only: e0)
    with assms(4) show ?thesis by (auto intro: less_le_trans)
  qed
  ultimately show ?thesis
    using assms(1,3) sessions_used_more [of "pc_uuid A" n l m] assms(4)
    by (auto simp: lively_def sorted_wrt_append sessions_used_def allowed_for_def)
qed

lemma step_cases:
  assumes "proper A" and "pn_step A E g g'"
    and new: "\<And>e s n. pe_payload e = SessionProposed s \<Longrightarrow> terms_ok (pc_hash A) s \<Longrightarrow>
      pn_id s \<in> pc_uuid A ` {sv_fresh g..<n} \<Longrightarrow> sv_fresh g \<le> n \<Longrightarrow> Q e n"
    and more: "\<And>e s n. map_get (sessionState (evs (sv_data g))) (session_of e) = Some s \<Longrightarrow> allowed_for s e \<Longrightarrow>
      sv_fresh g \<le> n \<Longrightarrow> Q e n"
  shows "grown Q g g' \<or> (\<exists>S. removed session_of S g g')"
proof -
  let ?ok = "\<lambda>g'. grown Q g g' \<or> (\<exists>S. removed session_of S g g')"
  let ?in = "\<lambda>s. map_get (sessionState (evs (sv_data g))) (pn_id s) = Some s"
  have idle: "?ok g1" if "same g g1" for g1 using same_grown [OF that] by blast
  have current: "post (pc_getSession A i g) (\<lambda>s g1. ?in s \<and> g1 = g) (\<lambda>g1. g1 = g)" for i
  proof -
    have "post (pc_getSession A i g) (\<lambda>s g1. ?in s) (\<lambda>_. True)"
      unfolding pc_getSession_def
      by (auto intro!: post_andThen check_post post_mono [OF pc_read_same [OF assms(1) same_refl]]
          dest: session_in_Inr)
    moreover have "fst (pc_getSession A i g) = g" by simp
    ultimately show ?thesis by (cases "pc_getSession A i g"; cases "snd (pc_getSession A i g)") auto
  qed
  have again: "post (pc_getSession A i g1) (\<lambda>_. ?ok) ?ok" if "?ok g1" for i g1
  proof -
    have "fst (pc_getSession A i g1) = g1" by simp
    with that show ?thesis by (cases "pc_getSession A i g1"; cases "snd (pc_getSession A i g1)") auto
  qed
  have activate: "post (activate_with A s input g) (\<lambda>_. grown Q g) (grown Q g)" if "?in s" for s input
    by (rule activate_grown [OF assms(1) same_refl], rule more [of _ s])
      (use that in \<open>auto simp: session_of_def allowed_for_def consent_check_def split: if_splits\<close>)
  have stop: "post (stop_with A s g) (\<lambda>_. grown Q g) (grown Q g)" if "?in s" for s
    by (rule stop_grown [OF assms(1) same_refl], rule more [of _ s])
      (use that in \<open>auto simp: session_of_def allowed_for_def\<close>)
  have analyze: "post (analyze_with A s input g) (\<lambda>_. grown Q g) (grown Q g)" if "?in s" for s input
    by (rule analyze_grown [OF assms(1) same_refl], rule more [of _ s])
      (use that in \<open>auto simp: session_of_def allowed_for_def media_check_def split: if_splits\<close>)
  from assms(2) show ?thesis
  proof (cases rule: pn_step.cases)
    case (create input)
    with post_fst [OF create_grown [OF assms(1) new]] show ?thesis by simp
  next
    case (activate i input)
    have "post (activateSession A i input g) (\<lambda>_. ?ok) ?ok"
      unfolding activateSession_def
      by (rule post_andThen, rule post_mono [OF current], rule post_andThen, elim conjE, hypsubst,
          rule post_mono [OF \<open>\<And>s input. ?in s \<Longrightarrow> post (activate_with A s input g) (\<lambda>_. grown Q g) (grown Q g)\<close>])
        (use again same_grown [OF same_refl] in auto)
    with activate post_fst show ?thesis by blast
  next
    case (stop i)
    have "post (stopSession A i g) (\<lambda>_. ?ok) ?ok"
      unfolding stopSession_def
      by (rule post_andThen, rule post_mono [OF current], rule post_andThen, elim conjE, hypsubst,
          rule post_mono [OF \<open>\<And>s. ?in s \<Longrightarrow> post (stop_with A s g) (\<lambda>_. grown Q g) (grown Q g)\<close>])
        (use again same_grown [OF same_refl] in auto)
    with stop post_fst show ?thesis by blast
  next
    case (analyze i input)
    have "post (analyzeMedia A i input g) (\<lambda>_. ?ok) ?ok"
      unfolding analyzeMedia_def
      by (rule post_andThen, rule post_mono [OF current], elim conjE, hypsubst,
          rule post_mono [OF \<open>\<And>s input. ?in s \<Longrightarrow> post (analyze_with A s input g) (\<lambda>_. grown Q g) (grown Q g)\<close>])
        (use same_grown [OF same_refl] in auto)
    with analyze post_fst show ?thesis by blast
  next
    case (delete i)
    have "post (deleteSession A i g) (\<lambda>_. ?ok) ?ok"
      unfolding deleteSession_def
      by (rule post_andThen, rule post_mono [OF current], elim conjE, hypsubst,
          rule post_mono [OF discard_removed [OF assms(1)]])
        (use same_grown [OF same_refl] in auto)
    with delete post_fst show ?thesis by blast
  next
    case purge
    have "post (pc_purgeExpired A g) (\<lambda>_. ?ok) ?ok"
      unfolding pc_purgeExpired_def
      by (rule post_andThen, rule post_mono [OF pc_read_same [OF assms(1) same_refl]])
        (auto intro!: post_mono [OF purge_removed [OF assms(1)]] dest: same_removed simp: idle same_grown)
    with purge post_fst show ?thesis by blast
  next
    case (time_passes t)
    then show ?thesis by (simp add: grown_def)
  next
    case (environment d)
    with env show ?thesis by (simp add: grown_def)
  qed
qed

lemma step_lively:
  assumes "proper A" and "pn_step A E g g'" and "lively A (sv_fresh g) (evs (sv_data g))"
  shows "lively A (sv_fresh g') (evs (sv_data g'))"
proof -
  have "grown (\<lambda>e n. lively A n (evs (sv_data g) @ [e])) g g' \<or> (\<exists>S. removed session_of S g g')"
    by (rule step_cases [OF assms(1,2)]) (use lively_new [OF assms(1,3)] lively_more [OF assms(3)] in blast)+
  then show ?thesis
  proof
    assume "grown (\<lambda>e n. lively A n (evs (sv_data g) @ [e])) g g'"
    with assms(3) sessions_used_more [of "pc_uuid A" "sv_fresh g" "evs (sv_data g)" "sv_fresh g'"]
    show ?thesis by (auto simp: grown_def lively_def)
  next
    assume "\<exists>S. removed session_of S g g'"
    with lively_filter [OF assms(3)] show ?thesis by (auto simp: removed_def)
  qed
qed

lemma reachable_lively:
  assumes "proper A" and "pn_reachable A E s0 g" and "evs s0 = []"
  shows "lively A (sv_fresh g) (evs (sv_data g))"
  using assms(2)
proof (induction rule: pn_reachable.induct)
  case (start t)
  then show ?case using assms(3) by (simp add: lively_def pending_proposals_def housed_def sessions_used_def)
next
  case (step g g')
  with step_lively [OF assms(1)] show ?case by blast
qed

lemma purge_log:
  assumes "proper A" and "pc_purgeExpired A g = (g', Inr n)"
  shows "evs (sv_data g') = filter (\<lambda>e. session_of e \<notin> set (expired_sessions (evs (sv_data g)) (sv_now g))) (evs (sv_data g))"
proof -
  obtain g1 es where r: "pc_read A g = (g1, Inr es)" "pc_purge_with A (sv_now g) es g1 = (g', Inr n)"
    using assms(2) by (auto simp: pc_purgeExpired_def andThen_Inr_iff)
  from post_Inr [OF pc_read_same [OF assms(1) same_refl] r(1)] have "es = evs (sv_data g)" "same g g1" by auto
  with post_Inr [OF purge_removed [OF assms(1)] r(2)] show ?thesis by (simp add: removed_def same_def)
qed

end

interpretation enc_media: media_log "journal_store F" "journal_events F" "journal_change F" "{''disk''}" "jo_compact F"
  for F :: "media_event journal_format"
  by unfold_locales

end
