(* ===== verification/PerceptionGuarantees.thy ===== *)
theory PerceptionGuarantees
  imports PerceptionProperties
begin

text \<open>
  What the perception service guarantees on its encrypted journal, whatever write fails; what
  its readers of media accept; with a concrete run, and two things it gets wrong.
\<close>

definition on_media_journal :: "media_event journal_format \<Rightarrow> media_event journal perception_runtime \<Rightarrow> bool" where
  "on_media_journal F A \<longleftrightarrow> pc_store A = journal_store F \<and> pc_compact A = jo_compact F \<and> inj (pc_uuid A)"

lemma media_proper: "on_media_journal F A \<Longrightarrow> enc_media.proper F A"
  by (simp add: on_media_journal_def enc_media.proper_def)

lemma empty_media_journal [simp]: "journal_events F (empty_journal k) = []"
  by (simp add: journal_events_def empty_journal_def List.map_filter_simps)

abbreviation media_log_of :: "media_event journal_format \<Rightarrow> media_event journal service \<Rightarrow> media_event list" where
  "media_log_of F g \<equiv> journal_events F (sv_data g)"

section \<open>Consent\<close>


text \<open>
  C0: an activation that returns appended exactly the activation event, for a session that was
  waiting for consent, before its deadline and with the digest and the nonce of its terms.
\<close>

theorem activation_needs_consent:
  assumes "on_media_journal F A" and "activateSession A i input g = (g', Inr s1)"
  shows "\<exists>s e. map_get (sessionState (media_log_of F g)) i = Some s \<and> pn_status s = ''pending_consent'' \<and>
    get_prop input ''consent_digest'' = JStr (pn_digest s) \<and> get_prop input ''consent_nonce'' = JStr (pn_nonce s) \<and>
    sv_now g \<le> pn_consentExpiresAt s \<and>
    media_log_of F g' = media_log_of F g @
      [\<lparr>pe_id = e, pe_at = sv_now g, pe_payload = SessionActivated i (sv_now g + ACTIVE_SESSION_TTL_MS)\<rparr>]"
proof -
  note P = media_proper [OF assms(1)]
  obtain g1 s g2 where r: "pc_getSession A i g = (g1, Inr s)" "activate_with A s input g1 = (g2, Inr ())"
      "pc_getSession A (pn_id s) g2 = (g', Inr s1)"
    using assms(2) by (auto simp: activateSession_def andThen_Inr_iff)
  have g: "g1 = g" "g' = g2" using r(1,3) pc_getSession_state [of A i g] pc_getSession_state [of A "pn_id s" g2] by simp_all
  have "post (pc_getSession A i g) (\<lambda>s _. session_in i (media_log_of F g) = Inr s) (\<lambda>_. True)"
    unfolding pc_getSession_def
    by (auto intro!: post_andThen check_post post_mono [OF enc_media.pc_read_same [OF P enc.same_refl]])
  from post_Inr [OF this r(1)] have s: "map_get (sessionState (media_log_of F g)) i = Some s" "pn_id s = i"
    using session_in_Inr by fastforce+
  let ?v = "SessionActivated (pn_id s) (sv_now g + ACTIVE_SESSION_TTL_MS)"
  have c: "consent_check s input (sv_now g) = Inr ()" "pc_append A ?v (sv_now g) g = (g2, Inr ())"
    using r(2) by (auto simp: activate_with_def andThen_Inr_iff check_def g(1))
  have "post (pc_append A ?v (sv_now g) g)
      (\<lambda>_ g3. \<exists>e. media_log_of F g3 = media_log_of F g @ [\<lparr>pe_id = e, pe_at = sv_now g, pe_payload = ?v\<rparr>]) (\<lambda>_. True)"
    unfolding pc_append_def enc_media.proper_fields [OF P]
    by (rule post_andThen, rule new_id_post, rule enc.append_post) auto
  from post_Inr [OF this c(2)] obtain e where
    "media_log_of F g2 = media_log_of F g @ [\<lparr>pe_id = e, pe_at = sv_now g, pe_payload = ?v\<rparr>]" by blast
  with s c(1) g(2) show ?thesis by (auto simp: consent_check_def split: if_splits)
qed

section \<open>Requests one after the other\<close>

text \<open>
  When requests do not overlap, a session is proposed before anything else happens to it,
  activated at most once, and never activated or used after it was stopped.
\<close>

theorem session_life:
  assumes "on_media_journal F A" and "pn_reachable A (journal_change F) (empty_journal k) g"
  shows "sorted_wrt life_order (media_log_of F g)"
  using enc_media.reachable_lively [OF media_proper [OF assms(1)] assms(2)] by (simp add: enc_media.lively_def)

text \<open>
  C27: when requests do not overlap, no analysis outlives its retention: after a purge that
  returns, the journal holds none that has expired.
\<close>

theorem nothing_outlives_retention:
  assumes "on_media_journal F A" and "pn_reachable A (journal_change F) (empty_journal k) g"
    and "pc_purgeExpired A g = (g', Inr n)"
  shows "\<not> (\<exists>e\<in>set (media_log_of F g'). \<exists>r. pe_payload e = MediaAnalyzed r \<and> md_expiresAt r \<le> sv_now g)"
proof -
  note P = media_proper [OF assms(1)]
  have "housed (media_log_of F g)"
    using enc_media.reachable_lively [OF P assms(2)] by (simp add: enc_media.lively_def)
  moreover note enc_media.purge_log [OF P assms(3)]
  ultimately show ?thesis
    by (fastforce simp: housed_def expired_sessions_iff session_of_def)
qed

section \<open>Media\<close>

text \<open>
  C28: base64 input is accepted exactly when, without the blanks around it, it is the text an
  encoder writes for one to five million bytes, and those bytes are what is analysed.
\<close>

theorem base64_exact:
  "strictBase64 v = Inr b \<longleftrightarrow>
     (\<exists>s. v = JStr s \<and> js_trim s = base64_encode b \<and> 1 \<le> length b \<and> length b \<le> MAX_MEDIA_BYTES)"
  by (rule strictBase64_exact)


text \<open>
  On a file as an encoder lays it out, any segments before the frame header, the reader
  returns the sides the header names, or refuses them when they are out of bounds.
\<close>

theorem parseJpeg_roundtrip:
  assumes "list_all plain_segment segments" and "m \<in> sofMarkers" and "w < 65536" and "h < 65536"
    and "length components + 7 < 65536"
  shows "parseJpeg (jpeg_file segments m w h components trailer) =
    Some (if bad_size w h then Inl (invalid ''JPEG dimensions are invalid'') else Inr (image_metadata ''jpeg'' ''JPEG'' w h))"
  by (rule parseJpeg_file) (fact assms)+

theorem parseJpeg_roundtrip_witness:
  "parseJpeg (jpeg_file [(0xe0, [1, 2])] 0xc0 2 1 [] []) = Some (Inr (image_metadata ''jpeg'' ''JPEG'' 2 1))"
  using parseJpeg_roundtrip [of "[(0xe0, [1, 2])]" "0xc0" 2 1 "[]" "[]"]
  by (simp add: plain_segment_def standalone_def sofMarkers_def bad_size_def)

section \<open>Redaction\<close>

text \<open>
  A GitHub token right behind a telephone number is no token to the pattern, which wants a word
  boundary; the telephone number is redacted after the tokens, and then the token stands alone.
\<close>

lemma redaction_uncovers_token:
  defines "s \<equiv> ''123456789ghp_AAAAAAAAAAAAAAAAAAAA''"
  shows "\<not> occurs rx_github_token s" and "rx_replace rx_phone ''[REDACTED_PHONE]'' s = (''[REDACTED_PHONE]ghp_AAAAAAAAAAAAAAAAAAAA'', 1)"
    and "occurs rx_github_token ''[REDACTED_PHONE]ghp_AAAAAAAAAAAAAAAAAAAA''"
  unfolding s_def rx_test_iff [symmetric]
  by code_simp+

section \<open>A concrete run\<close>

definition scan_format :: "media_event journal_format" where
  "scan_format = perception_format (\<lambda>_. 0)"

definition scan_runtime :: "media_event journal perception_runtime" where
  "scan_runtime =
     \<lparr>pc_store = journal_store scan_format, pc_compact = jo_compact scan_format, pc_uuid = (\<lambda>n. tally (Suc n)), pc_hash = (\<lambda>_. ''h''),
      pc_sha256 = (\<lambda>_. ''s''), pc_utf8 = (\<lambda>b. Some (latin1 b))\<rparr>"

definition scan_session_input :: js where
  "scan_session_input = JObj [(''purpose'', JStr ''p''), (''modalities'', JArr [JStr ''document'']), (''retention_minutes'', JNum (Fin 1))]"

definition scan_consent :: js where
  "scan_consent = JObj [(''consent_digest'', JStr ''h''), (''consent_nonce'', JStr (tally (Suc (Suc 0))))]"

definition scan_media :: js where
  "scan_media =
     JObj [(''source_modality'', JStr ''document''), (''media_type'', JStr ''text/plain''), (''content_base64'', JStr ''eA==''),
       (''source_name'', JStr ''n'')]"

abbreviation scan_state :: "int \<Rightarrow> nat \<Rightarrow> nat \<Rightarrow> (nat \<times> media_event) list \<Rightarrow> media_event journal service" where
  "scan_state \<equiv> sealed_service scan_format"

lemma scan_small [simp]: "small_events scan_format"
  by (simp add: scan_format_def)

lemma scan_fields [simp]:
  "pc_store scan_runtime = journal_store scan_format" "pc_compact scan_runtime = jo_compact scan_format"
  "pc_uuid scan_runtime = (\<lambda>n. tally (Suc n))" "pc_hash scan_runtime = (\<lambda>_. ''h'')" "pc_sha256 scan_runtime = (\<lambda>_. ''s'')"
  "pc_utf8 scan_runtime = (\<lambda>b. Some (latin1 b))" "on_media_journal scan_format scan_runtime"
  using inj_tally by (simp_all add: scan_runtime_def on_media_journal_def inj_def)

lemma scan_journal [simp]:
  "pc_append scan_runtime v u (scan_state t n k es) =
     (scan_state t (Suc n) (Suc k) (es @ [(k, \<lparr>pe_id = tally (Suc n), pe_at = u, pe_payload = v\<rparr>)]), Inr ())"
  "pc_read scan_runtime (scan_state t n k es) = (scan_state t n k es, Inr (map snd es))"
  by (simp_all add: pc_append_def pc_read_def new_id_def)

definition scan_session :: media_session where
  "scan_session = build_session (\<lambda>_. ''h'') (tally (Suc 0)) ''p'' [''document''] 1 (tally (Suc (Suc 0))) 0"

definition scan_result :: media_result where
  "scan_result =
     \<lparr>md_id = tally 5, md_session = tally (Suc 0), md_modality = ''document'', md_mediaType = ''text/plain'',
      md_analysis = RedactedText ''x'' ''x'' 1, md_redactions = 0, md_injections = 0, md_source = ''n'', md_bytes = 1,
      md_sha256 = ''s'', md_capturedAt = None, md_analyzedAt = 0, md_expiresAt = pn_retentionExpiresAt scan_session\<rparr>"

definition scan_log :: "(nat \<times> media_event) list" where
  "scan_log =
     [(0, \<lparr>pe_id = tally 3, pe_at = 0, pe_payload = SessionProposed scan_session\<rparr>),
      (1, \<lparr>pe_id = tally 4, pe_at = 0, pe_payload = SessionActivated (tally (Suc 0)) ACTIVE_SESSION_TTL_MS\<rparr>),
      (2, \<lparr>pe_id = tally 6, pe_at = 0, pe_payload = MediaAnalyzed scan_result\<rparr>)]"

lemma scan_valid:
  "normalizeRetention (get_prop scan_session_input ''retention_minutes'') = Inr 1"
  "pc_requireString (get_prop scan_session_input ''purpose'') ''purpose'' 1000 = Inr ''p''"
  "normalizeModalities (get_prop scan_session_input ''modalities'') = Inr [''document'']"
  "is_nullish scan_session_input = False" "is_nullish scan_media = False"
  "pc_requireString (get_prop scan_media ''source_name'') ''source_name'' 256 = Inr ''n''"
  "pc_requireString (get_prop scan_media ''source_modality'') ''source_modality'' 32 = Inr ''document''"
  "pc_requireString (get_prop scan_media ''media_type'') ''media_type'' 64 = Inr ''text/plain''"
  "assertModalityMediaType ''document'' ''text/plain'' = Inr ()"
  "to_lower ''document'' = ''document''" "to_lower ''text/plain'' = ''text/plain''"
  "pc_optionalString (get_prop scan_media ''captured_at'') ''captured_at'' 64 = Inr None"
  by code_simp+

lemma scan_bytes: "strictBase64 (get_prop scan_media ''content_base64'') = Inr [0x78]"
proof -
  have "js_trim ''eA=='' = base64_encode [0x78]" by code_simp
  then show ?thesis by (simp add: strictBase64_exact scan_media_def MAX_MEDIA_BYTES_def)
qed

lemma scan_analysis: "analyzeBuffer (\<lambda>b. Some (latin1 b)) [0x78] ''text/plain'' = Some (Inr (RedactedText ''x'' ''x'' 1, 0, 0))"
proof -
  have "latin1 [0x78] = ''x''" "redactUntrustedText ''x'' = (''x'', 0, 0)"
    "js_trim (fst (rx_replace rx_spaces '' '' ''x'')) = ''x''" "split_on (CHR '' '') ''x'' = [''x'']"
    by code_simp+
  then show ?thesis by (simp add: analyzeBuffer_def decodeUtf8_def MAX_TEXT_CHARS_def textSummary_def Let_def)
qed

lemma scan_members [simp]:
  "pn_id scan_session = tally (Suc 0)" "pn_status scan_session = ''pending_consent''" "pn_digest scan_session = ''h''"
  "pn_nonce scan_session = tally (Suc (Suc 0))" "pn_consentExpiresAt scan_session = CONSENT_TTL_MS"
  "pn_modalities scan_session = [''document'']" "pn_retentionExpiresAt scan_session = 60000"
  "pn_activeExpiresAt scan_session = None" "pn_results scan_session = []" "md_session scan_result = tally (Suc 0)"
  "md_expiresAt scan_result = 60000" "md_analyzedAt scan_result = 0"
  by (simp_all add: scan_session_def scan_result_def build_session_def Let_def consentDigest_def)

lemma scan_consent_members [simp]: "\<not> is_nullish scan_consent" "get_prop scan_consent ''consent_digest'' = JStr ''h''"
  "get_prop scan_consent ''consent_nonce'' = JStr (tally (Suc (Suc 0)))"
  by (simp_all add: scan_consent_def is_nullish_def)

lemma scan_id [simp]: "pc_requireId (tally (Suc 0)) f = Inr (tally (Suc 0))"
  by (simp add: pc_requireId_def pc_requireString_def tally_def js_trim_def is_space_def code_def matches_id_pattern_def
      id_char_def is_alnum_def is_lower_def eval_nat_numeral)

definition scan_active :: media_session where
  "scan_active = scan_session\<lparr>pn_status := ''active'', pn_activatedAt := Some 0, pn_activeExpiresAt := Some ACTIVE_SESSION_TTL_MS\<rparr>"

lemma scan_active_members [simp]: "pn_id scan_active = tally (Suc 0)" "pn_status scan_active = ''active''"
  "pn_activeExpiresAt scan_active = Some ACTIVE_SESSION_TTL_MS" "pn_modalities scan_active = [''document'']"
  "pn_retentionExpiresAt scan_active = 60000"
  by (simp_all add: scan_active_def)

lemma scan_fold:
  "session_in (tally (Suc 0)) (map snd (take 1 scan_log)) = Inr scan_session"
  "session_in (tally (Suc 0)) (map snd (take 2 scan_log)) = Inr scan_active"
  "map_get (sessionState (map snd (take 1 scan_log))) (tally (Suc 0)) = Some scan_session"
  by (simp_all add: session_in_def scan_log_def sessionState_def apply_media_def map_set_def map_get_def update_session_def
      scan_active_def take_Suc_Cons numeral_2_eq_2)

lemma scan_get:
  "pc_getSession scan_runtime (tally (Suc 0)) (scan_state t n k (take 1 scan_log)) = (scan_state t n k (take 1 scan_log), Inr scan_session)"
  "pc_getSession scan_runtime (tally (Suc 0)) (scan_state t n k (take 2 scan_log)) = (scan_state t n k (take 2 scan_log), Inr scan_active)"
  by (simp_all add: pc_getSession_def scan_fold del: One_nat_def)

lemma scan_analyzed:
  "analyze_with scan_runtime scan_active scan_media (scan_state 0 4 k es) =
     (scan_state 0 6 (Suc k) (es @ [(k, \<lparr>pe_id = tally 6, pe_at = 0, pe_payload = MediaAnalyzed scan_result\<rparr>)]),
      Inr scan_result)"
  by (simp add: analyze_with_def media_check_def ACTIVE_SESSION_TTL_MS_def media_input_def scan_valid scan_bytes scan_analysis
      new_id_def Let_def; simp add: numeral_eq_Suc scan_result_def)

lemma scan_steps:
  "pc_createSession scan_runtime scan_session_input (scan_state 0 0 0 []) = (scan_state 0 3 1 (take 1 scan_log), Inr scan_session)"
  "activate_with scan_runtime scan_session scan_consent (scan_state 0 3 1 (take 1 scan_log)) = (scan_state 0 4 2 (take 2 scan_log), Inr ())"
  "activateSession scan_runtime (tally (Suc 0)) scan_consent (scan_state 0 3 1 (take 1 scan_log)) =
     (scan_state 0 4 2 (take 2 scan_log), Inr scan_active)"
  "analyze_with scan_runtime scan_active scan_media (scan_state 0 4 2 (take 2 scan_log)) = (scan_state 0 6 3 scan_log, Inr scan_result)"
  "analyzeMedia scan_runtime (tally (Suc 0)) scan_media (scan_state 0 4 2 (take 2 scan_log)) = (scan_state 0 6 3 scan_log, Inr scan_result)"
proof -
  show "pc_createSession scan_runtime scan_session_input (scan_state 0 0 0 []) = (scan_state 0 3 1 (take 1 scan_log), Inr scan_session)"
    by (simp add: pc_createSession_def scan_valid new_id_def Let_def scan_log_def; simp add: numeral_eq_Suc scan_session_def)
  show a: "activate_with scan_runtime scan_session scan_consent (scan_state 0 3 1 (take 1 scan_log)) = (scan_state 0 4 2 (take 2 scan_log), Inr ())"
    by (simp add: activate_with_def consent_check_def CONSENT_TTL_MS_def scan_log_def; simp add: numeral_eq_Suc)
  then show "activateSession scan_runtime (tally (Suc 0)) scan_consent (scan_state 0 3 1 (take 1 scan_log)) =
     (scan_state 0 4 2 (take 2 scan_log), Inr scan_active)"
    by (simp add: activateSession_def scan_get del: One_nat_def)
  show b: "analyze_with scan_runtime scan_active scan_media (scan_state 0 4 2 (take 2 scan_log)) = (scan_state 0 6 3 scan_log, Inr scan_result)"
    unfolding scan_analyzed by (simp add: scan_log_def; simp add: numeral_eq_Suc)
  then show "analyzeMedia scan_runtime (tally (Suc 0)) scan_media (scan_state 0 4 2 (take 2 scan_log)) = (scan_state 0 6 3 scan_log, Inr scan_result)"
    by (simp add: analyzeMedia_def scan_get)
qed

lemma scan_reachable: "pn_reachable scan_runtime (journal_change scan_format) (empty_journal []) (scan_state 0 6 3 scan_log)"
proof -
  let ?R = "pn_reachable scan_runtime (journal_change scan_format) (empty_journal [])"
  note steps = scan_steps [THEN arg_cong [where f = fst], unfolded fst_conv, symmetric]
  have "?R (scan_state 0 0 0 [])" unfolding sealed_start by (rule pn_reachable.start)
  then have "?R (scan_state 0 3 1 (take 1 scan_log))" unfolding steps(1) by (rule pn_reachable.step) (rule pn_step.create)
  then have "?R (scan_state 0 4 2 (take 2 scan_log))" unfolding steps(3) by (rule pn_reachable.step) (rule pn_step.activate)
  then show ?thesis unfolding steps(5) by (rule pn_reachable.step) (rule pn_step.analyze)
qed

text \<open>The same requests, overlapping: the log is read once before the analysis.\<close>

lemma scan_overlapped:
  "po_reachable scan_runtime (journal_change scan_format) (empty_journal []) (scan_state 0 4 2 (take 2 scan_log), [(0, map snd (take 2 scan_log)), (0, map snd (take 1 scan_log))])"
  "po_reachable scan_runtime (journal_change scan_format) (empty_journal []) (scan_state 0 6 3 scan_log, [(0, map snd (take 2 scan_log)), (0, map snd (take 1 scan_log))])"
proof -
  let ?R = "po_reachable scan_runtime (journal_change scan_format) (empty_journal [])"
  note steps = scan_steps [THEN arg_cong [where f = fst], unfolded fst_conv, symmetric]
  have "?R (scan_state 0 0 0 [], [])" unfolding sealed_start by (rule po_reachable.start)
  then have "?R (scan_state 0 3 1 (take 1 scan_log), [])" unfolding steps(1) by (rule po_reachable.step) (rule po_step.create)
  then have "?R (scan_state 0 3 1 (take 1 scan_log), [(sv_now (scan_state 0 3 1 (take 1 scan_log)), map snd (take 1 scan_log))])"
    by (rule po_reachable.step) (rule po_step.read, simp)
  then have "?R (scan_state 0 4 2 (take 2 scan_log), [(0, map snd (take 1 scan_log))])"
    unfolding steps(2) sealed_fields by (rule po_reachable.step) (rule po_step.activate [where t = 0, OF _ scan_fold(1)], simp)
  then have "?R (scan_state 0 4 2 (take 2 scan_log), [(sv_now (scan_state 0 4 2 (take 2 scan_log)), map snd (take 2 scan_log)), (0, map snd (take 1 scan_log))])"
    by (rule po_reachable.step) (rule po_step.read, simp)
  then show r: "?R (scan_state 0 4 2 (take 2 scan_log), [(0, map snd (take 2 scan_log)), (0, map snd (take 1 scan_log))])" by simp
  then show "?R (scan_state 0 6 3 scan_log, [(0, map snd (take 2 scan_log)), (0, map snd (take 1 scan_log))])"
    unfolding steps(4) by (rule po_reachable.step) (rule po_step.analyze [where t = 0, OF _ scan_fold(2)], simp)
qed


theorem activation_needs_consent_witness:
  "get_prop scan_consent ''consent_nonce'' = JStr (pn_nonce scan_session)"
proof -
  from activation_needs_consent [OF scan_fields(7) scan_steps(3)]
  obtain s where "map_get (sessionState (map snd (take 1 scan_log))) (tally (Suc 0)) = Some s"
    "get_prop scan_consent ''consent_nonce'' = JStr (pn_nonce s)" by auto
  with scan_fold(3) show ?thesis by simp
qed

theorem session_life_witness: "sorted_wrt life_order (map snd scan_log)"
  using session_life [OF scan_fields(7) scan_reachable] by simp

text \<open>A minute later the session's retention has ended.\<close>

lemma scan_minute: "pn_reachable scan_runtime (journal_change scan_format) (empty_journal []) (scan_state 60000 6 3 scan_log)"
  using pn_reachable.step [OF scan_reachable pn_step.time_passes [where t = 60000]] by simp

lemma scan_purge: "pc_purgeExpired scan_runtime (scan_state 60000 6 3 scan_log) = (scan_state 60000 6 3 [], Inr (1, 3))"
  by (simp add: pc_purgeExpired_def pc_purge_with_def expired_sessions_def scan_log_def sessionState_def apply_media_def
      map_set_def map_get_def update_session_def map_values_def sealed_compact session_of_def Let_def)

theorem nothing_outlives_retention_witness:
  "\<not> (\<exists>e\<in>set (media_log_of scan_format (scan_state 60000 6 3 [])). \<exists>r. pe_payload e = MediaAnalyzed r \<and> md_expiresAt r \<le> 60000)"
  using nothing_outlives_retention [OF scan_fields(7) scan_minute scan_purge] by simp

section \<open>Overlapping requests\<close>

text \<open>
  An analysis that read its session before the session was deleted, and goes on after the
  deletion, leaves a result that belongs to no session: it is not shown, it holds the text
  of the deleted session, and no purge removes it, however late.
\<close>

lemma orphan_result_stays:
  "\<exists>g H g1 g2.
     po_reachable scan_runtime (journal_change scan_format) (empty_journal []) (g, H) \<and>
     discard_with scan_runtime scan_active g = (g1, Inr 2) \<and> media_log_of scan_format g1 = [] \<and>
     (0, map snd (take 2 scan_log)) \<in> set H \<and> session_in (tally (Suc 0)) (map snd (take 2 scan_log)) = Inr scan_active \<and>
     analyze_with scan_runtime scan_active scan_media g1 = (g2, Inr scan_result) \<and>
     map pe_payload (media_log_of scan_format g2) = [MediaAnalyzed scan_result] \<and>
     (\<forall>t. pc_purgeExpired scan_runtime (g2\<lparr>sv_now := t\<rparr>) = (g2\<lparr>sv_now := t\<rparr>, Inr (0, 0)))"
proof (intro exI conjI)
  show "po_reachable scan_runtime (journal_change scan_format) (empty_journal [])
      (scan_state 0 4 2 (take 2 scan_log), [(0, map snd (take 2 scan_log)), (0, map snd (take 1 scan_log))])"
    by (rule scan_overlapped(1))
  show "discard_with scan_runtime scan_active (scan_state 0 4 2 (take 2 scan_log)) = (scan_state 0 4 2 [], Inr 2)"
    by (simp add: discard_with_def sealed_compact session_of_def scan_log_def)
  show "analyze_with scan_runtime scan_active scan_media (scan_state 0 4 2 []) =
      (scan_state 0 6 3 [(2, \<lparr>pe_id = tally 6, pe_at = 0, pe_payload = MediaAnalyzed scan_result\<rparr>)], Inr scan_result)"
    unfolding scan_analyzed by simp
qed (simp_all add: scan_fold pc_purgeExpired_def pc_purge_with_def expired_sessions_def sessionState_def apply_media_def
    update_session_def map_get_def map_values_def Let_def)

text \<open>
  The signature of a PDF file is compared as ASCII text, for which the highest bit of every
  byte is dropped: a file that does not start with \<open>%PDF-\<close> is read as one that does.
\<close>

lemma pdf_signature_loose: "ascii [0xa5, 0xd0, 0xc4, 0xc6, 0xad] = ''%PDF-''"
  by code_simp

end
