(* ===== verification/JsSort.thy ===== *)
theory JsSort
  imports Prelude "HOL-Library.Multiset"
begin

text \<open>
  \<open>Array.prototype.sort\<close> with a comparator. It is stable, so for a comparator that is a total
  preorder its result is determined, and an insertion sort computes it.
\<close>

fun insert_by :: "('a \<Rightarrow> 'a \<Rightarrow> int) \<Rightarrow> 'a \<Rightarrow> 'a list \<Rightarrow> 'a list" where
  "insert_by c x [] = [x]"
| "insert_by c x (y # ys) = (if c x y \<le> 0 then x # y # ys else y # insert_by c x ys)"

definition sort_by :: "('a \<Rightarrow> 'a \<Rightarrow> int) \<Rightarrow> 'a list \<Rightarrow> 'a list" where
  "sort_by c xs = foldr (insert_by c) xs []"

lemma sort_by_simps [simp]: "sort_by c [] = []" "sort_by c (x # xs) = insert_by c x (sort_by c xs)"
  by (simp_all add: sort_by_def)

lemma mset_insert_by [simp]: "mset (insert_by c x xs) = add_mset x (mset xs)"
  by (induction xs) auto

lemma mset_sort_by [simp]: "mset (sort_by c xs) = mset xs"
  by (induction xs) auto

lemma set_sort_by [simp]: "set (sort_by c xs) = set xs"
  by (rule mset_eq_setD) simp

lemma length_sort_by [simp]: "length (sort_by c xs) = length xs"
  by (rule mset_eq_length) simp

lemma sort_by_Nil_iff [simp]: "sort_by c xs = [] \<longleftrightarrow> xs = []"
  by (metis length_0_conv length_sort_by)

text \<open>A comparator is a contract of its own: the laws \<open>sort\<close> asks of its argument.\<close>

locale comparator =
  fixes c :: "'a \<Rightarrow> 'a \<Rightarrow> int"
  assumes total: "0 < c x y \<Longrightarrow> c y x \<le> 0"
    and trans: "c x y \<le> 0 \<Longrightarrow> c y z \<le> 0 \<Longrightarrow> c x z \<le> 0"
begin

lemma sorted_insert_by: "sorted_wrt (\<lambda>x y. c x y \<le> 0) xs \<Longrightarrow> sorted_wrt (\<lambda>x y. c x y \<le> 0) (insert_by c x xs)"
proof (induction xs)
  case (Cons y ys)
  have s: "set (insert_by c x ys) = insert x (set ys)" using mset_insert_by [of c x ys] by (metis set_mset_add_mset_insert set_mset_mset)
  show ?case
  proof (cases "c x y \<le> 0")
    case True
    with Cons.prems show ?thesis by (auto intro: trans)
  next
    case False
    then have "c y x \<le> 0" by (simp add: total)
    with False Cons show ?thesis by (simp add: s)
  qed
qed simp

lemma sorted_sort_by: "sorted_wrt (\<lambda>x y. c x y \<le> 0) (sort_by c xs)"
  by (induction xs) (auto intro: sorted_insert_by)

lemma refl: "c x x \<le> 0"
  using total [of x x] by linarith

lemma hd_sort_by: "y \<in> set xs \<Longrightarrow> c (hd (sort_by c xs)) y \<le> 0"
proof -
  assume y: "y \<in> set xs"
  then have "y \<in> set (sort_by c xs)" by simp
  then obtain z zs where z: "sort_by c xs = z # zs" by (cases "sort_by c xs") auto
  with sorted_sort_by [of xs] have "\<forall>w\<in>set zs. c z w \<le> 0" by simp
  moreover have "y \<in> insert z (set zs)" using y set_sort_by [of c xs] z by simp
  ultimately show ?thesis using refl z by auto
qed

end

end
