(* ===== verification/SkillCatalog.thy ===== *)
theory SkillCatalog
  imports JsValue JsSort
begin

text \<open>
  The skill catalog (\<open>packages/zarvis/services/zarvis-orchestrator/src/skill-catalog.mjs\<close>) and
  \<open>executeSkill\<close> of \<open>orchestrator.mjs\<close>. A manifest is a record of the members the code reads,
  an optional member being one that may be absent. The three maps of a catalog are insertion
  ordered. \<open>L\<close> is \<open>localeCompare\<close> with numeric collation, which belongs to the run time.
\<close>

section \<open>Manifests and errors\<close>

record manifest =
  sm_id :: string
  sm_version :: string
  sm_name :: string
  sm_domain :: string
  sm_mutability :: string
  sm_tools :: "string list option"
  sm_approval :: "string option"
  sm_enabled :: "bool option"
  sm_source :: "string option"
  sm_updatePolicy :: "string option"

record lifecycle =
  li_enabled :: bool
  li_source :: string
  li_updatePolicy :: string

record catalog =
  sk_skills :: "(string, manifest) jsmap"
  sk_lifecycle :: "(string, lifecycle) jsmap"
  sk_active :: "(string, string) jsmap"

datatype skill_error =
    PlainError string
  | DuplicateSkillError string
  | SkillNotFoundError string
  | SkillDisabledError string
  | SkillVersionError string
  | CapabilityExpansionError string
  | ToolNotAllowedError string
  | ApprovalRequiredError string

section \<open>Semantic versions\<close>

record semver =
  vr_major :: nat
  vr_minor :: nat
  vr_patch :: nat
  vr_prerelease :: "string option"

text \<open>\<open>/^(\d+)\.(\d+)\.(\d+)(?:-([0-9A-Za-z.-]+))?$/\<close>, read from left to right.\<close>

definition take_number :: "string \<Rightarrow> (nat \<times> string) option" where
  "take_number s =
     (if takeWhile is_digit s = [] then None
      else Some (digits_value 0 (takeWhile is_digit s), dropWhile is_digit s))"

definition after_char :: "char \<Rightarrow> string \<Rightarrow> string option" where
  "after_char c s = (case s of [] \<Rightarrow> None | x # t \<Rightarrow> if x = c then Some t else None)"

definition prerelease_char :: "char \<Rightarrow> bool" where
  "prerelease_char c = (is_alnum c \<or> c \<in> set ''.-'')"

definition match_version :: "string \<Rightarrow> semver option" where
  "match_version s =
     Option.bind (take_number s) (\<lambda>(a, s1).
     Option.bind (after_char (CHR ''.'') s1) (\<lambda>s2.
     Option.bind (take_number s2) (\<lambda>(b, s3).
     Option.bind (after_char (CHR ''.'') s3) (\<lambda>s4.
     Option.bind (take_number s4) (\<lambda>(c, s5).
       if s5 = [] then Some \<lparr>vr_major = a, vr_minor = b, vr_patch = c, vr_prerelease = None\<rparr>
       else Option.bind (after_char (CHR ''-'') s5) (\<lambda>p.
         if p \<noteq> [] \<and> list_all prerelease_char p
         then Some \<lparr>vr_major = a, vr_minor = b, vr_patch = c, vr_prerelease = Some p\<rparr> else None))))))"

definition parseSemanticVersion :: "string \<Rightarrow> (skill_error, semver) result" where
  "parseSemanticVersion v =
     (case match_version v of
        None \<Rightarrow> Inl (SkillVersionError (''Invalid semantic version: '' @ v))
      | Some x \<Rightarrow> Inr x)"

definition version_order :: "(string \<Rightarrow> string \<Rightarrow> int) \<Rightarrow> semver \<Rightarrow> semver \<Rightarrow> int" where
  "version_order L a b =
     (if vr_major a \<noteq> vr_major b then int (vr_major a) - int (vr_major b)
      else if vr_minor a \<noteq> vr_minor b then int (vr_minor a) - int (vr_minor b)
      else if vr_patch a \<noteq> vr_patch b then int (vr_patch a) - int (vr_patch b)
      else case (vr_prerelease a, vr_prerelease b) of
             (None, None) \<Rightarrow> 0
           | (None, Some _) \<Rightarrow> 1
           | (Some _, None) \<Rightarrow> - 1
           | (Some p, Some q) \<Rightarrow> if p = q then 0 else L p q)"

definition compareSemanticVersions :: "(string \<Rightarrow> string \<Rightarrow> int) \<Rightarrow> string \<Rightarrow> string \<Rightarrow> (skill_error, int) result" where
  "compareSemanticVersions L v w =
     bindR (parseSemanticVersion v) (\<lambda>a. bindR (parseSemanticVersion w) (\<lambda>b. Inr (version_order L a b)))"

section \<open>Lifecycle and authority\<close>

definition normalizedLifecycle :: "manifest \<Rightarrow> lifecycle" where
  "normalizedLifecycle m =
     \<lparr>li_enabled = (sm_enabled m \<noteq> Some False), li_source = or_else (sm_source m) ''local'',
      li_updatePolicy = or_else (sm_updatePolicy m) ''manual''\<rparr>"

text \<open>\<open>rule && rule !== 'none'\<close>\<close>

definition requires_approval :: "manifest \<Rightarrow> bool" where
  "requires_approval m = (sm_approval m \<notin> {None, Some [], Some ''none''})"

definition assertAutoUpdateDoesNotBroadenAuthority :: "manifest \<Rightarrow> manifest \<Rightarrow> (skill_error, unit) result" where
  "assertAutoUpdateDoesNotBroadenAuthority p n =
     (let expanded = filter (\<lambda>t. t \<notin> set (or_else (sm_tools p) [])) (or_else (sm_tools n) [])
      in if expanded \<noteq> []
         then Inl (CapabilityExpansionError (''Automatic update cannot add capabilities: '' @ join_with '', '' expanded))
         else if sm_mutability p \<noteq> ''write'' \<and> sm_mutability n = ''write''
         then Inl (CapabilityExpansionError ''Automatic update cannot escalate mutability to write'')
         else if requires_approval p \<and> \<not> requires_approval n
         then Inl (CapabilityExpansionError ''Automatic update cannot weaken approval requirements'')
         else Inr ())"

section \<open>The catalog\<close>

definition empty_catalog :: catalog where
  "empty_catalog = \<lparr>sk_skills = [], sk_lifecycle = [], sk_active = []\<rparr>"

definition getKey :: "string \<Rightarrow> string \<Rightarrow> string" where
  "getKey i v = i @ ''@'' @ v"

definition manifest_key :: "manifest \<Rightarrow> string" where
  "manifest_key m = getKey (sm_id m) (sm_version m)"

definition versionsFor :: "catalog \<Rightarrow> string \<Rightarrow> manifest list" where
  "versionsFor c i = filter (\<lambda>m. sm_id m = i) (map_values (sk_skills c))"

text \<open>\<open>state?.enabled !== false\<close>\<close>

definition not_disabled :: "catalog \<Rightarrow> manifest \<Rightarrow> bool" where
  "not_disabled c m = (case map_get (sk_lifecycle c) (manifest_key m) of None \<Rightarrow> True | Some s \<Rightarrow> li_enabled s)"

text \<open>A version that sorts first in descending order; the comparator is called for two or more.\<close>

definition with_version :: "manifest \<Rightarrow> (skill_error, semver \<times> manifest) result" where
  "with_version m = bindR (parseSemanticVersion (sm_version m)) (\<lambda>v. Inr (v, m))"

definition newest :: "(string \<Rightarrow> string \<Rightarrow> int) \<Rightarrow> manifest list \<Rightarrow> (skill_error, manifest option) result" where
  "newest L ms =
     (case ms of
        [] \<Rightarrow> Inr None
      | [m] \<Rightarrow> Inr (Some m)
      | _ \<Rightarrow> bindR (mapR with_version ms) (\<lambda>ps.
               Inr (Some (snd (hd (sort_by (\<lambda>x y. version_order L (fst y) (fst x)) ps))))))"

definition latestEnabled :: "(string \<Rightarrow> string \<Rightarrow> int) \<Rightarrow> catalog \<Rightarrow> string \<Rightarrow> (skill_error, manifest option) result" where
  "latestEnabled L c i = newest L (filter (not_disabled c) (versionsFor c i))"

text \<open>The active version moves to \<open>v\<close> when there is none, or an older one.\<close>

definition activate_newer ::
  "(string \<Rightarrow> string \<Rightarrow> int) \<Rightarrow> string \<Rightarrow> string \<Rightarrow> catalog \<Rightarrow> (catalog, skill_error, unit) outcome" where
  "activate_newer L i v c =
     (case map_get (sk_active c) i of
        Some w \<Rightarrow>
          if w = [] then (c\<lparr>sk_active := map_set (sk_active c) i v\<rparr>, Inr ())
          else (case compareSemanticVersions L v w of
                  Inl e \<Rightarrow> (c, Inl e)
                | Inr n \<Rightarrow> (if 0 < n then c\<lparr>sk_active := map_set (sk_active c) i v\<rparr> else c, Inr ()))
      | None \<Rightarrow> (c\<lparr>sk_active := map_set (sk_active c) i v\<rparr>, Inr ()))"

definition register :: "(string \<Rightarrow> string \<Rightarrow> int) \<Rightarrow> manifest \<Rightarrow> catalog \<Rightarrow> (catalog, skill_error, manifest) outcome" where
  "register L m c =
     (if sm_id m = [] \<or> sm_version m = [] then (c, Inl (PlainError ''Invalid manifest''))
      else case parseSemanticVersion (sm_version m) of
        Inl e \<Rightarrow> (c, Inl e)
      | Inr _ \<Rightarrow>
          if map_get (sk_skills c) (manifest_key m) \<noteq> None
          then (c, Inl (DuplicateSkillError (''Skill '' @ manifest_key m @ '' already registered'')))
          else
            let s = normalizedLifecycle m;
                c1 = c\<lparr>sk_skills := map_set (sk_skills c) (manifest_key m) m,
                       sk_lifecycle := map_set (sk_lifecycle c) (manifest_key m) s\<rparr>
            in if li_enabled s then andThen (activate_newer L (sm_id m) (sm_version m) c1) (\<lambda>c2 _. (c2, Inr m))
               else (c1, Inr m))"

definition install :: "(string \<Rightarrow> string \<Rightarrow> int) \<Rightarrow> manifest \<Rightarrow> catalog \<Rightarrow> (catalog, skill_error, manifest) outcome" where
  "install L m c = register L m c"

definition get_skill :: "catalog \<Rightarrow> string \<Rightarrow> string \<Rightarrow> (skill_error, manifest) result" where
  "get_skill c i v =
     (case map_get (sk_skills c) (getKey i v) of
        None \<Rightarrow> Inl (SkillNotFoundError (''Skill '' @ getKey i v @ '' not found''))
      | Some m \<Rightarrow> Inr m)"

definition enabled_at :: "catalog \<Rightarrow> string \<Rightarrow> bool" where
  "enabled_at c k = (case map_get (sk_lifecycle c) k of None \<Rightarrow> False | Some s \<Rightarrow> li_enabled s)"

definition resolveVersion :: "catalog \<Rightarrow> string \<Rightarrow> string \<Rightarrow> (skill_error, manifest) result" where
  "resolveVersion c i v =
     bindR (get_skill c i v) (\<lambda>m.
       if \<not> enabled_at c (getKey i v) then Inl (SkillDisabledError (''Skill '' @ i @ ''@'' @ v @ '' is disabled''))
       else Inr m)"

definition resolve_latest :: "(string \<Rightarrow> string \<Rightarrow> int) \<Rightarrow> string \<Rightarrow> catalog \<Rightarrow> (catalog, skill_error, manifest) outcome" where
  "resolve_latest L i c =
     (case latestEnabled L c i of
        Inl e \<Rightarrow> (c, Inl e)
      | Inr None \<Rightarrow>
          (c, Inl (if versionsFor c i \<noteq> [] then SkillDisabledError (''All versions of skill '' @ i @ '' are disabled'')
                   else SkillNotFoundError (''Skill '' @ i @ '' not found'')))
      | Inr (Some m) \<Rightarrow> (c\<lparr>sk_active := map_set (sk_active c) i (sm_version m)\<rparr>, Inr m))"

definition resolve :: "(string \<Rightarrow> string \<Rightarrow> int) \<Rightarrow> string \<Rightarrow> catalog \<Rightarrow> (catalog, skill_error, manifest) outcome" where
  "resolve L i c =
     (case map_get (sk_active c) i of
        Some v \<Rightarrow> if v \<noteq> [] \<and> enabled_at c (getKey i v) then (c, get_skill c i v) else resolve_latest L i c
      | None \<Rightarrow> resolve_latest L i c)"

section \<open>Listing\<close>

record skill_entry =
  ke_id :: string
  ke_version :: string
  ke_domain :: string
  ke_mutability :: string
  ke_name :: string
  ke_enabled :: bool
  ke_source :: string
  ke_updatePolicy :: string
  ke_active :: bool

definition life_of :: "catalog \<Rightarrow> manifest \<Rightarrow> lifecycle" where
  "life_of c m = or_else (map_get (sk_lifecycle c) (manifest_key m)) (normalizedLifecycle m)"

definition entry_of :: "catalog \<Rightarrow> manifest \<Rightarrow> skill_entry" where
  "entry_of c m =
     \<lparr>ke_id = sm_id m, ke_version = sm_version m, ke_domain = sm_domain m, ke_mutability = sm_mutability m,
      ke_name = sm_name m, ke_enabled = li_enabled (life_of c m), ke_source = li_source (life_of c m),
      ke_updatePolicy = li_updatePolicy (life_of c m), ke_active = (map_get (sk_active c) (sm_id m) = Some (sm_version m))\<rparr>"

definition id_order :: "string \<Rightarrow> string \<Rightarrow> int" where
  "id_order a b = (if a < b then - 1 else if b < a then 1 else 0)"

definition entry_order :: "(string \<Rightarrow> string \<Rightarrow> int) \<Rightarrow> semver \<times> skill_entry \<Rightarrow> semver \<times> skill_entry \<Rightarrow> int" where
  "entry_order L x y =
     (if id_order (ke_id (snd x)) (ke_id (snd y)) \<noteq> 0 then id_order (ke_id (snd x)) (ke_id (snd y))
      else version_order L (fst x) (fst y))"

text \<open>Versions are parsed only where the comparator is called; every registered one is valid.\<close>

definition list_skills :: "(string \<Rightarrow> string \<Rightarrow> int) \<Rightarrow> catalog \<Rightarrow> (skill_error, skill_entry list) result" where
  "list_skills L c =
     bindR (mapR with_version (map_values (sk_skills c))) (\<lambda>ps.
       Inr (map snd (sort_by (entry_order L) (map (\<lambda>(v, m). (v, entry_of c m)) ps))))"

definition findByDomain :: "catalog \<Rightarrow> string \<Rightarrow> manifest list" where
  "findByDomain c d = filter (\<lambda>m. sm_domain m = d) (map_values (sk_skills c))"

section \<open>Changes of the lifecycle\<close>

definition setEnabled ::
  "(string \<Rightarrow> string \<Rightarrow> int) \<Rightarrow> string \<Rightarrow> string \<Rightarrow> bool \<Rightarrow> catalog \<Rightarrow> (catalog, skill_error, skill_entry option) outcome" where
  "setEnabled L i v on c =
     (case get_skill c i v of
        Inl e \<Rightarrow> (c, Inl e)
      | Inr m \<Rightarrow>
          let s = or_else (map_get (sk_lifecycle c) (getKey i v)) (normalizedLifecycle m);
              c1 = c\<lparr>sk_lifecycle := map_set (sk_lifecycle c) (getKey i v) (s\<lparr>li_enabled := on\<rparr>)\<rparr>
          in andThen
               (if on then activate_newer L i v c1
                else if map_get (sk_active c1) i = Some v then
                  (case latestEnabled L c1 i of
                     Inl e \<Rightarrow> (c1, Inl e)
                   | Inr (Some f) \<Rightarrow> (c1\<lparr>sk_active := map_set (sk_active c1) i (sm_version f)\<rparr>, Inr ())
                   | Inr None \<Rightarrow> (c1\<lparr>sk_active := map_delete (sk_active c1) i\<rparr>, Inr ()))
                else (c1, Inr ()))
               (\<lambda>c2 _. (c2, bindR (list_skills L c2) (\<lambda>es. Inr (find (\<lambda>e. ke_id e = i \<and> ke_version e = v) es)))))"

definition rollback :: "string \<Rightarrow> string \<Rightarrow> catalog \<Rightarrow> (catalog, skill_error, manifest) outcome" where
  "rollback i v c =
     (case resolveVersion c i v of
        Inl e \<Rightarrow> (c, Inl e)
      | Inr m \<Rightarrow> (c\<lparr>sk_active := map_set (sk_active c) i v\<rparr>, Inr m))"

definition updateSystemSkill :: "(string \<Rightarrow> string \<Rightarrow> int) \<Rightarrow> manifest \<Rightarrow> catalog \<Rightarrow> (catalog, skill_error, manifest) outcome" where
  "updateSystemSkill L m c =
     (let s = normalizedLifecycle m
      in if li_source s \<noteq> ''system'' \<or> li_updatePolicy s \<noteq> ''auto''
         then (c, Inl (SkillVersionError ''Automatic updates require source=system and update_policy=auto''))
         else case latestEnabled L c (sm_id m) of
           Inl e \<Rightarrow> (c, Inl e)
         | Inr None \<Rightarrow> register L m c
         | Inr (Some p) \<Rightarrow>
             (case compareSemanticVersions L (sm_version m) (sm_version p) of
                Inl e \<Rightarrow> (c, Inl e)
              | Inr n \<Rightarrow>
                  if n \<le> 0
                  then (c, Inl (SkillVersionError (''Automatic update '' @ manifest_key m @ '' must be newer than '' @ sm_version p)))
                  else (case assertAutoUpdateDoesNotBroadenAuthority p m of
                          Inl e \<Rightarrow> (c, Inl e)
                        | Inr _ \<Rightarrow> register L m c)))"

section \<open>Policy\<close>

definition assertToolAllowed :: "manifest \<Rightarrow> string \<Rightarrow> (skill_error, unit) result" where
  "assertToolAllowed m t =
     (if (case sm_tools m of None \<Rightarrow> True | Some ts \<Rightarrow> t \<notin> set ts)
      then Inl (ToolNotAllowedError (''Tool '' @ t @ '' not in capability_allowlist'')) else Inr ())"

text \<open>\<open>!approvalToken || approvalToken.trim() === ''\<close>; a token that is no text has no \<open>trim\<close>.\<close>

definition assertApprovalValid :: "manifest \<Rightarrow> js \<Rightarrow> (skill_error, unit) result" where
  "assertApprovalValid m token =
     (if sm_mutability m = ''write'' \<and> sm_approval m \<noteq> Some ''none'' then
        if \<not> truthy token then Inl (ApprovalRequiredError ''Valid approval token required for write skill'')
        else case token of
               JStr s \<Rightarrow>
                 if js_trim s = [] then Inl (ApprovalRequiredError ''Valid approval token required for write skill'') else Inr ()
             | _ \<Rightarrow> Inl (PlainError ''approvalToken.trim is not a function'')
      else Inr ())"

section \<open>Execution\<close>

text \<open>
  The orchestrator as far as \<open>executeSkill\<close> uses it, over a world \<open>'w\<close> that the handler of the
  caller acts on; a handler that throws yields the code and the message of its error.
\<close>

record 'w skill_host =
  kh_catalog :: catalog
  kh_world :: 'w
  kh_fresh :: nat
  kh_now :: int

type_synonym 'w skill_handler = "js \<Rightarrow> 'w \<Rightarrow> 'w \<times> ((js \<times> js), js) result"

record skill_result =
  kr_invocation :: string
  kr_skill :: string
  kr_version :: string
  kr_tenant :: js
  kr_outcome :: "((js \<times> js), js) result"
  kr_key :: js
  kr_at :: int

definition chosen_skill ::
  "(string \<Rightarrow> string \<Rightarrow> int) \<Rightarrow> string \<Rightarrow> string option \<Rightarrow> catalog \<Rightarrow> (catalog, skill_error, manifest) outcome" where
  "chosen_skill L i v c =
     (case v of
        None \<Rightarrow> resolve L i c
      | Some w \<Rightarrow> if w = [] then resolve L i c else (c, resolveVersion c i w))"

definition executeSkill ::
  "(string \<Rightarrow> string \<Rightarrow> int) \<Rightarrow> (nat \<Rightarrow> string) \<Rightarrow> string \<Rightarrow> string option \<Rightarrow> js \<Rightarrow> js \<Rightarrow> js \<Rightarrow> js \<Rightarrow> 'w skill_handler
     \<Rightarrow> 'w skill_host \<Rightarrow> ('w skill_host, skill_error, skill_result) outcome" where
  "executeSkill L U i v input tenant token key handler h =
     (case chosen_skill L i v (kh_catalog h) of
        (c, Inl e) \<Rightarrow> (h\<lparr>kh_catalog := c\<rparr>, Inl e)
      | (c, Inr m) \<Rightarrow>
          (case assertApprovalValid m token of
             Inl e \<Rightarrow> (h\<lparr>kh_catalog := c\<rparr>, Inl e)
           | Inr _ \<Rightarrow>
               let (w, r) = handler input (kh_world h);
                   outcome = (case r of
                     Inr x \<Rightarrow> Inr x
                   | Inl (kind, message) \<Rightarrow>
                       Inl (coalesce kind (JStr ''skill_execution_failed''), coalesce message (JStr ''Skill execution error'')))
               in (h\<lparr>kh_catalog := c, kh_world := w, kh_fresh := Suc (kh_fresh h)\<rparr>,
                   Inr \<lparr>kr_invocation = U (kh_fresh h), kr_skill = sm_id m, kr_version = sm_version m, kr_tenant = tenant,
                        kr_outcome = outcome, kr_key = key, kr_at = kh_now h\<rparr>)))"

section \<open>The catalog as a step relation\<close>

text \<open>
  Ids follow the pattern of the manifest schema, so they hold no \<open>@\<close>; nothing else is asked
  of a request. \<open>P\<close> limits the requests further.
\<close>

definition plain_id :: "string \<Rightarrow> bool" where
  "plain_id i \<longleftrightarrow> CHR ''@'' \<notin> set i"

datatype skill_request =
    Register manifest
  | SetEnabled string string bool
  | Rollback string string
  | Update manifest
  | Resolve string

fun id_of :: "skill_request \<Rightarrow> string" where
  "id_of (Register m) = sm_id m"
| "id_of (SetEnabled i v on) = i"
| "id_of (Rollback i v) = i"
| "id_of (Update m) = sm_id m"
| "id_of (Resolve i) = i"

fun serve_skill :: "(string \<Rightarrow> string \<Rightarrow> int) \<Rightarrow> skill_request \<Rightarrow> catalog \<Rightarrow> catalog" where
  "serve_skill L (Register m) c = fst (register L m c)"
| "serve_skill L (SetEnabled i v on) c = fst (setEnabled L i v on c)"
| "serve_skill L (Rollback i v) c = fst (rollback i v c)"
| "serve_skill L (Update m) c = fst (updateSystemSkill L m c)"
| "serve_skill L (Resolve i) c = fst (resolve L i c)"

inductive sk_reachable :: "(string \<Rightarrow> string \<Rightarrow> int) \<Rightarrow> (skill_request \<Rightarrow> bool) \<Rightarrow> catalog \<Rightarrow> bool" for L P where
  start: "sk_reachable L P empty_catalog"
| step: "sk_reachable L P c \<Longrightarrow> plain_id (id_of q) \<Longrightarrow> P q \<Longrightarrow> sk_reachable L P (serve_skill L q c)"

end
