(* ===== verification/SkillProperties.thy ===== *)
theory SkillProperties
  imports SkillCatalog "HOL-Library.Product_Lexorder"
begin

text \<open>
  What every request to the skill catalog keeps: the three maps agree, the active version of an id
  is registered and enabled, and an id has an active version as soon as it has an enabled one.
\<close>

section \<open>Versions\<close>

definition numbers :: "semver \<Rightarrow> nat \<times> nat \<times> nat" where
  "numbers v = (vr_major v, vr_minor v, vr_patch v)"

text \<open>A prerelease comes before its release.\<close>

definition prerelease_le :: "(string \<Rightarrow> string \<Rightarrow> int) \<Rightarrow> string option \<Rightarrow> string option \<Rightarrow> bool" where
  "prerelease_le L a b \<longleftrightarrow> b = None \<or> (\<exists>p q. a = Some p \<and> b = Some q \<and> (p = q \<or> L p q \<le> 0))"

lemma version_order_le:
  "version_order L v w \<le> 0 \<longleftrightarrow>
     numbers v < numbers w \<or> numbers v = numbers w \<and> prerelease_le L (vr_prerelease v) (vr_prerelease w)"
  by (auto simp: version_order_def numbers_def prerelease_le_def split: option.splits)

lemma version_comparator:
  assumes "comparator L" shows "comparator (version_order L)"
proof
  note total = comparator.total [OF assms] and trans = comparator.trans [OF assms]
  have le: "prerelease_le L a b \<or> prerelease_le L b a" for a b
    using total by (cases a; cases b) (force simp: prerelease_le_def)+
  show "version_order L w v \<le> 0" if "0 < version_order L v w" for v w
    using that le version_order_le [of L v w] version_order_le [of L w v] by (metis linorder_neqE not_le)
  have tr: "prerelease_le L a c" if "prerelease_le L a b" "prerelease_le L b c" for a b c
    using that trans by (auto simp: prerelease_le_def)
  show "version_order L u w \<le> 0" if "version_order L u v \<le> 0" "version_order L v w \<le> 0" for u v w
    using that tr [of "vr_prerelease u" "vr_prerelease v" "vr_prerelease w"] less_trans [of "numbers u" "numbers v" "numbers w"]
    unfolding version_order_le by (elim disjE conjE) simp_all
qed

lemma id_comparator: "comparator id_order"
  by standard (auto simp: id_order_def split: if_splits)

interpretation ids: comparator id_order
  by (rule id_comparator)

lemma entry_order_le:
  "entry_order L x y \<le> 0 \<longleftrightarrow>
     ke_id (snd x) < ke_id (snd y) \<or> ke_id (snd x) = ke_id (snd y) \<and> version_order L (fst x) (fst y) \<le> 0"
  by (auto simp: entry_order_def id_order_def)

lemma entry_comparator:
  assumes "comparator L" shows "comparator (entry_order L)"
proof
  note v = version_comparator [OF assms]
  show "entry_order L y x \<le> 0" if "0 < entry_order L x y" for x y
    using that comparator.total [OF v] by (auto simp: entry_order_def id_order_def split: if_splits)
  show "entry_order L x z \<le> 0" if "entry_order L x y \<le> 0" "entry_order L y z \<le> 0" for x y z
    using that comparator.trans [OF v, of "fst x" "fst y" "fst z"]
      less_trans [of "ke_id (snd x)" "ke_id (snd y)" "ke_id (snd z)"]
    unfolding entry_order_le by (elim disjE conjE) simp_all
qed

section \<open>Keys\<close>

lemma getKey_eq [simp]: "plain_id i \<Longrightarrow> plain_id j \<Longrightarrow> getKey i v = getKey j w \<longleftrightarrow> i = j \<and> v = w"
proof (induction i arbitrary: j)
  case Nil
  then show ?case by (cases j) (auto simp: getKey_def plain_id_def)
next
  case (Cons a i)
  then show ?case by (cases j) (auto simp: getKey_def plain_id_def)
qed

section \<open>The invariant\<close>

definition enabled_skill :: "catalog \<Rightarrow> manifest \<Rightarrow> bool" where
  "enabled_skill c m \<longleftrightarrow> map_get (sk_skills c) (manifest_key m) = Some m \<and> enabled_at c (manifest_key m)"

definition sound_entry :: "string \<times> manifest \<Rightarrow> bool" where
  "sound_entry e \<longleftrightarrow>
     fst e = manifest_key (snd e) \<and> plain_id (sm_id (snd e)) \<and> sm_id (snd e) \<noteq> [] \<and> sm_version (snd e) \<noteq> [] \<and>
     match_version (sm_version (snd e)) \<noteq> None"

definition sound_active :: "catalog \<Rightarrow> bool" where
  "sound_active c \<longleftrightarrow>
     (\<forall>i v. map_get (sk_active c) i = Some v \<longrightarrow> (\<exists>m. enabled_skill c m \<and> sm_id m = i \<and> sm_version m = v)) \<and>
     (\<forall>m. enabled_skill c m \<longrightarrow> map_get (sk_active c) (sm_id m) \<noteq> None)"

definition sound_maps :: "catalog \<Rightarrow> bool" where
  "sound_maps c \<longleftrightarrow>
     map_ok (sk_skills c) \<and> (\<forall>e\<in>set (sk_skills c). sound_entry e) \<and>
     (\<forall>k. map_get (sk_lifecycle c) k \<noteq> None \<longleftrightarrow> map_get (sk_skills c) k \<noteq> None)"

definition sound_catalog :: "catalog \<Rightarrow> bool" where
  "sound_catalog c \<longleftrightarrow> sound_maps c \<and> sound_active c"

lemma sound_empty: "sound_catalog empty_catalog"
  by (simp add: sound_catalog_def sound_maps_def sound_active_def empty_catalog_def enabled_skill_def)

lemma sound_get:
  "sound_maps c \<Longrightarrow> map_get (sk_skills c) k = Some m \<Longrightarrow>
     k = manifest_key m \<and> plain_id (sm_id m) \<and> sm_id m \<noteq> [] \<and> sm_version m \<noteq> [] \<and> match_version (sm_version m) \<noteq> None"
  using map_get_in by (fastforce simp: sound_maps_def sound_entry_def)

lemma sound_values:
  assumes c: "sound_maps c"
  shows "m \<in> set (map_values (sk_skills c)) \<longleftrightarrow> map_get (sk_skills c) (manifest_key m) = Some m"
proof
  assume "m \<in> set (map_values (sk_skills c))"
  then obtain k where k: "(k, m) \<in> set (sk_skills c)" by (auto simp: map_values_def)
  with c have "map_get (sk_skills c) k = Some m" by (simp add: sound_maps_def map_get_iff)
  with sound_get [OF c] show "map_get (sk_skills c) (manifest_key m) = Some m" by blast
qed (rule map_values_get)

lemma sound_find: "sound_maps c \<Longrightarrow> plain_id i \<Longrightarrow> map_get (sk_skills c) (getKey i v) = Some m \<Longrightarrow> sm_id m = i \<and> sm_version m = v"
  using sound_get [of c "getKey i v" m] by (auto simp: manifest_key_def)


section \<open>The newest enabled version\<close>

definition the_version :: "manifest \<Rightarrow> semver" where
  "the_version m = the (match_version (sm_version m))"

definition not_newer :: "(string \<Rightarrow> string \<Rightarrow> int) \<Rightarrow> manifest \<Rightarrow> manifest \<Rightarrow> bool" where
  "not_newer L m p \<longleftrightarrow> version_order L (the_version m) (the_version p) \<le> 0"

lemma with_version_valid: "match_version (sm_version m) \<noteq> None \<Longrightarrow> with_version m = Inr (the_version m, m)"
  by (auto simp: with_version_def parseSemanticVersion_def the_version_def)

lemma with_versions_valid:
  "(\<And>m. m \<in> set ms \<Longrightarrow> match_version (sm_version m) \<noteq> None) \<Longrightarrow>
     mapR with_version ms = Inr (map (\<lambda>m. (the_version m, m)) ms)"
  by (induction ms) (simp_all add: with_version_valid)

lemma newest_spec:
  assumes L: "comparator L" and v: "\<And>m. m \<in> set ms \<Longrightarrow> match_version (sm_version m) \<noteq> None"
  shows "\<exists>r. newest L ms = Inr r \<and>
    (case r of None \<Rightarrow> ms = [] | Some m \<Rightarrow> m \<in> set ms \<and> (\<forall>n\<in>set ms. not_newer L n m))"
proof -
  let ?ps = "map (\<lambda>m. (the_version m, m)) ms"
  let ?c = "\<lambda>x y. version_order L (fst y) (fst (x :: semver \<times> manifest))"
  note V = version_comparator [OF L]
  have C: "comparator ?c"
    by standard (use comparator.total [OF V] comparator.trans [OF V] in blast)+
  have m: "snd (hd (sort_by ?c ?ps)) \<in> set ms \<and> (\<forall>n\<in>set ms. not_newer L n (snd (hd (sort_by ?c ?ps))))" if "ms \<noteq> []"
  proof -
    have "sort_by ?c ?ps \<noteq> []" using that by simp
    then have h: "hd (sort_by ?c ?ps) \<in> set ?ps" using hd_in_set [of "sort_by ?c ?ps"] unfolding set_sort_by by blast
    then have "fst (hd (sort_by ?c ?ps)) = the_version (snd (hd (sort_by ?c ?ps)))" by auto
    moreover have "?c (hd (sort_by ?c ?ps)) (the_version n, n) \<le> 0" if "n \<in> set ms" for n
      using that by (intro comparator.hd_sort_by [OF C]) simp
    ultimately show ?thesis using h by (auto simp: not_newer_def)
  qed
  have r: "not_newer L n n" for n by (simp add: not_newer_def comparator.refl [OF V])
  show ?thesis
  proof (cases ms)
    case (Cons a as)
    show ?thesis
    proof (cases as)
      case Nil
      with Cons r show ?thesis by (simp add: newest_def)
    next
      case (Cons b bs)
      with \<open>ms = a # as\<close> have "newest L ms = bindR (mapR with_version ms) (\<lambda>ps. Inr (Some (snd (hd (sort_by ?c ps)))))"
        by (simp add: newest_def del: mapR.simps)
      then have "newest L ms = Inr (Some (snd (hd (sort_by ?c ?ps))))"
        by (simp only: with_versions_valid [OF v] bindR_simps)
      with m \<open>ms = a # as\<close> show ?thesis by auto
    qed
  qed (simp add: newest_def)
qed

lemma enabled_versions:
  assumes "sound_maps c"
  shows "m \<in> set (filter (not_disabled c) (versionsFor c i)) \<longleftrightarrow> enabled_skill c m \<and> sm_id m = i"
proof -
  have "not_disabled c m \<longleftrightarrow> enabled_at c (manifest_key m)" if "map_get (sk_skills c) (manifest_key m) = Some m"
    using assms that by (auto simp: sound_maps_def not_disabled_def enabled_at_def split: option.splits)
  then show ?thesis using sound_values [OF assms, of m] by (auto simp: versionsFor_def enabled_skill_def)
qed

lemma latestEnabled_spec:
  assumes "comparator L" and c: "sound_maps c"
  shows "\<exists>r. latestEnabled L c i = Inr r \<and>
    (case r of None \<Rightarrow> \<not> (\<exists>m. enabled_skill c m \<and> sm_id m = i)
     | Some m \<Rightarrow> enabled_skill c m \<and> sm_id m = i \<and> (\<forall>n. enabled_skill c n \<and> sm_id n = i \<longrightarrow> not_newer L n m))"
proof -
  note m = enabled_versions [OF c, of _ i]
  have "match_version (sm_version m) \<noteq> None" if "m \<in> set (filter (not_disabled c) (versionsFor c i))" for m
    using that sound_get [OF c] unfolding m enabled_skill_def by blast
  from newest_spec [OF assms(1), of "filter (not_disabled c) (versionsFor c i)", OF this]
  obtain r where r: "latestEnabled L c i = Inr r"
    "case r of None \<Rightarrow> filter (not_disabled c) (versionsFor c i) = []
     | Some p \<Rightarrow> p \<in> set (filter (not_disabled c) (versionsFor c i)) \<and>
         (\<forall>n\<in>set (filter (not_disabled c) (versionsFor c i)). not_newer L n p)"
    unfolding latestEnabled_def by blast
  show ?thesis
  proof (cases r)
    case None
    with r(2) have "set (filter (not_disabled c) (versionsFor c i)) = {}" by simp
    then have "\<not> (\<exists>m. enabled_skill c m \<and> sm_id m = i)" by (simp flip: m)
    with r(1) None show ?thesis by simp
  next
    case (Some p)
    with r(2) have "p \<in> set (filter (not_disabled c) (versionsFor c i))"
      "\<forall>n. n \<in> set (filter (not_disabled c) (versionsFor c i)) \<longrightarrow> not_newer L n p" by auto
    with r(1) Some show ?thesis unfolding m by simp
  qed
qed

lemma latestEnabled_cases:
  assumes "comparator L" and "sound_maps c"
  obtains (none) "latestEnabled L c i = Inr None" "\<not> (\<exists>m. enabled_skill c m \<and> sm_id m = i)"
  | (some) m where "latestEnabled L c i = Inr (Some m)" "enabled_skill c m" "sm_id m = i"
      "\<And>n. enabled_skill c n \<Longrightarrow> sm_id n = i \<Longrightarrow> not_newer L n m"
proof -
  obtain r where r: "latestEnabled L c i = Inr r"
    "case r of None \<Rightarrow> \<not> (\<exists>m. enabled_skill c m \<and> sm_id m = i)
     | Some m \<Rightarrow> enabled_skill c m \<and> sm_id m = i \<and> (\<forall>n. enabled_skill c n \<and> sm_id n = i \<longrightarrow> not_newer L n m)"
    using latestEnabled_spec [OF assms, of i] by blast
  show ?thesis
  proof (cases r)
    case None
    with r show ?thesis by (intro none) simp_all
  next
    case (Some m)
    with r show ?thesis by (intro some [of m]) simp_all
  qed
qed

section \<open>What every request keeps\<close>

lemma activate_newer_spec:
  assumes "comparator L" and "match_version v \<noteq> None" and "\<And>w. map_get (sk_active c) i = Some w \<Longrightarrow> match_version w \<noteq> None"
  shows "activate_newer L i v c =
    (if (case map_get (sk_active c) i of None \<Rightarrow> True
         | Some w \<Rightarrow> w = [] \<or> 0 < version_order L (the (match_version v)) (the (match_version w)))
     then c\<lparr>sk_active := map_set (sk_active c) i v\<rparr> else c, Inr ())"
  using assms(2) assms(3)
  by (cases "map_get (sk_active c) i") (auto simp: activate_newer_def compareSemanticVersions_def parseSemanticVersion_def)

lemma active_valid:
  "sound_active c \<Longrightarrow> map_get (sk_active c) i = Some v \<Longrightarrow> \<exists>m. enabled_skill c m \<and> sm_id m = i \<and> sm_version m = v"
  by (simp add: sound_active_def)

lemma active_missing: "sound_active c \<Longrightarrow> map_get (sk_active c) (sm_id m) = None \<Longrightarrow> \<not> enabled_skill c m"
  by (auto simp: sound_active_def)

lemma enabled_in_map: "enabled_skill c m \<Longrightarrow> map_get (sk_skills c) (manifest_key m) = Some m"
  by (simp add: enabled_skill_def)

lemma sound_active_transfer:
  "sound_active c \<Longrightarrow> sk_active d = sk_active c \<Longrightarrow> (\<And>n. enabled_skill d n \<Longrightarrow> enabled_skill c n) \<Longrightarrow>
     (\<And>n. enabled_skill c n \<Longrightarrow> map_get (sk_active c) (sm_id n) = Some (sm_version n) \<Longrightarrow> enabled_skill d n) \<Longrightarrow>
     sound_active d"
  unfolding sound_active_def by metis

text \<open>The catalog after a version has been made active, for a catalog that was sound but for that version.\<close>

definition active_but :: "string \<Rightarrow> catalog \<Rightarrow> bool" where
  "active_but i c \<longleftrightarrow>
     (\<forall>j v. j \<noteq> i \<longrightarrow> map_get (sk_active c) j = Some v \<longrightarrow>
        (\<exists>m. enabled_skill c m \<and> sm_id m = j \<and> sm_version m = v)) \<and>
     (\<forall>m. enabled_skill c m \<longrightarrow> sm_id m \<noteq> i \<longrightarrow> map_get (sk_active c) (sm_id m) \<noteq> None)"

lemma enabled_update_active [simp]: "enabled_skill (c\<lparr>sk_active := a\<rparr>) m = enabled_skill c m"
  by (simp add: enabled_skill_def enabled_at_def)

lemma sound_active_set:
  "active_but i c \<Longrightarrow> enabled_skill c m \<Longrightarrow> sm_id m = i \<Longrightarrow> sm_version m = v \<Longrightarrow>
     sound_active (c\<lparr>sk_active := map_set (sk_active c) i v\<rparr>)"
  by (auto simp: sound_active_def active_but_def)

lemma sound_active_delete:
  "active_but i c \<Longrightarrow> \<not> (\<exists>m. enabled_skill c m \<and> sm_id m = i) \<Longrightarrow>
     sound_active (c\<lparr>sk_active := map_delete (sk_active c) i\<rparr>)"
  by (auto simp: sound_active_def active_but_def)

lemma active_but_set [simp]: "active_but i (c\<lparr>sk_active := map_set (sk_active c) i v\<rparr>) = active_but i c"
  by (simp add: active_but_def)

lemma sound_maps_active [simp]: "sound_maps (c\<lparr>sk_active := a\<rparr>) = sound_maps c"
  by (simp add: sound_maps_def)

text \<open>A new version of \<open>i\<close>, or a new state of one, touches no other id.\<close>

definition with_skill :: "manifest \<Rightarrow> lifecycle \<Rightarrow> catalog \<Rightarrow> catalog" where
  "with_skill m s c =
     c\<lparr>sk_skills := map_set (sk_skills c) (manifest_key m) m, sk_lifecycle := map_set (sk_lifecycle c) (manifest_key m) s\<rparr>"

lemma manifest_key_eq: "plain_id (sm_id m) \<Longrightarrow> plain_id (sm_id n) \<Longrightarrow>
    manifest_key m = manifest_key n \<longleftrightarrow> sm_id m = sm_id n \<and> sm_version m = sm_version n"
  by (simp add: manifest_key_def)

lemma enabled_with_skill:
  "enabled_skill (with_skill m s c) n \<longleftrightarrow>
     (if manifest_key n = manifest_key m then n = m \<and> li_enabled s else enabled_skill c n)"
  by (auto simp: enabled_skill_def with_skill_def enabled_at_def)

lemma active_with_skill [simp]: "sk_active (with_skill m s c) = sk_active c"
  by (simp add: with_skill_def)

lemma sound_maps_with_skill:
  "sound_maps c \<Longrightarrow> plain_id (sm_id m) \<Longrightarrow> sm_id m \<noteq> [] \<Longrightarrow> sm_version m \<noteq> [] \<Longrightarrow> match_version (sm_version m) \<noteq> None \<Longrightarrow>
     sound_maps (with_skill m s c)"
  using set_map_set_subset [of "sk_skills c" "manifest_key m" m]
  by (auto simp: sound_maps_def with_skill_def sound_entry_def dest!: subsetD)

lemma active_but_with_skill:
  assumes "sound_catalog c" and "plain_id (sm_id m)"
  shows "active_but (sm_id m) (with_skill m s c)"
proof -
  have e: "enabled_skill (with_skill m s c) n \<longleftrightarrow> enabled_skill c n" if "sm_id n \<noteq> sm_id m" for n
  proof (cases "manifest_key n = manifest_key m")
    case True
    have "\<not> enabled_skill c n"
    proof
      assume "enabled_skill c n"
      with sound_get [OF _ enabled_in_map] assms(1) have "plain_id (sm_id n)" unfolding sound_catalog_def by blast
      with that True assms(2) show False by (simp add: manifest_key_eq)
    qed
    with True that show ?thesis by (auto simp: enabled_with_skill)
  qed (simp add: enabled_with_skill)
  have a: "sk_active (with_skill m s c) = sk_active c" by (simp add: with_skill_def)
  show ?thesis
    using assms(1) e unfolding active_but_def a sound_catalog_def sound_active_def by metis
qed

lemma enabled_valid: "sound_maps c \<Longrightarrow> enabled_skill c m \<Longrightarrow> match_version (sm_version m) \<noteq> None \<and> sm_version m \<noteq> [] \<and> plain_id (sm_id m)"
  using sound_get [OF _ enabled_in_map] by blast

lemma activate_sound:
  assumes L: "comparator L" and c: "sound_maps c" "active_but i c" and m: "enabled_skill c m" "sm_id m = i" "sm_version m = v"
    and old: "\<And>w. map_get (sk_active c) i = Some w \<Longrightarrow> \<exists>n. enabled_skill c n \<and> sm_id n = i \<and> sm_version n = w"
  shows "\<exists>a. activate_newer L i v c = (c\<lparr>sk_active := a\<rparr>, Inr ()) \<and> sound_catalog (c\<lparr>sk_active := a\<rparr>) \<and>
    (\<forall>j. j \<noteq> i \<longrightarrow> map_get a j = map_get (sk_active c) j) \<and>
    (case map_get (sk_active c) i of
       None \<Rightarrow> map_get a i = Some v
     | Some w \<Rightarrow> map_get a i =
         Some (if 0 < version_order L (the (match_version v)) (the (match_version w)) then v else w))"
proof (cases "map_get (sk_active c) i")
  case None
  then have "activate_newer L i v c = (c\<lparr>sk_active := map_set (sk_active c) i v\<rparr>, Inr ())"
    by (simp add: activate_newer_def)
  with None c(1) sound_active_set [OF c(2) m] show ?thesis by (auto simp: sound_catalog_def)
next
  case (Some w)
  with old obtain n where n: "enabled_skill c n" "sm_id n = i" "sm_version n = w" by blast
  have v: "match_version v \<noteq> None" "match_version w \<noteq> None" "w \<noteq> []"
    using enabled_valid [OF c(1) m(1)] enabled_valid [OF c(1) n(1)] m(3) n(3) by auto
  show ?thesis
  proof (cases "0 < version_order L (the (match_version v)) (the (match_version w))")
    case True
    with Some v have "activate_newer L i v c = (c\<lparr>sk_active := map_set (sk_active c) i v\<rparr>, Inr ())"
      by (auto simp: activate_newer_def compareSemanticVersions_def parseSemanticVersion_def)
    with True Some c(1) sound_active_set [OF c(2) m] show ?thesis by (auto simp: sound_catalog_def)
  next
    case False
    with Some v have r: "activate_newer L i v c = (c, Inr ())"
      by (auto simp: activate_newer_def compareSemanticVersions_def parseSemanticVersion_def)
    have "sound_active c"
      using c(2) Some n unfolding active_but_def sound_active_def by (metis option.distinct(1) option.inject)
    with r False Some c(1) show ?thesis by (intro exI [of _ "sk_active c"]) (simp add: sound_catalog_def)
  qed
qed

lemma register_spec:
  assumes L: "comparator L" and c: "sound_catalog c" and p: "plain_id (sm_id m)"
    and r: "register L m c = (c', x)"
  shows "sound_catalog c' \<and>
    (case x of Inl _ \<Rightarrow> c' = c
     | Inr n \<Rightarrow> n = m \<and> map_get (sk_skills c) (manifest_key m) = None \<and>
         (\<exists>a. c' = (with_skill m (normalizedLifecycle m) c)\<lparr>sk_active := a\<rparr>))"
proof -
  let ?s = "normalizedLifecycle m" and ?c = "with_skill m (normalizedLifecycle m) c"
  have maps: "sound_maps c" "sound_active c" using c by (simp_all add: sound_catalog_def)
  show ?thesis
  proof (cases "sm_id m = [] \<or> sm_version m = [] \<or> match_version (sm_version m) = None \<or> map_get (sk_skills c) (manifest_key m) \<noteq> None")
    case True
    with r c show ?thesis
      by (auto simp: register_def parseSemanticVersion_def Let_def split: if_splits option.splits)
  next
    case False
    then have new: "map_get (sk_skills c) (manifest_key m) = None" by blast
    have c1: "sound_maps ?c" using sound_maps_with_skill [OF maps(1) p] False by blast
    have keep: "enabled_skill ?c n" if "enabled_skill c n" for n
      using that new enabled_in_map [OF that] by (auto simp: enabled_with_skill)
    have r': "register L m c = (if li_enabled ?s then andThen (activate_newer L (sm_id m) (sm_version m) ?c) (\<lambda>c2 _. (c2, Inr m)) else (?c, Inr m))"
      using False by (auto simp: register_def parseSemanticVersion_def with_skill_def Let_def)
    show ?thesis
    proof (cases "li_enabled ?s")
      case True
      have old: "\<exists>n. enabled_skill ?c n \<and> sm_id n = sm_id m \<and> sm_version n = w" if "map_get (sk_active ?c) (sm_id m) = Some w" for w
        using active_valid [OF maps(2)] that keep unfolding active_with_skill by blast
      obtain a where a: "activate_newer L (sm_id m) (sm_version m) ?c = (?c\<lparr>sk_active := a\<rparr>, Inr ())"
          "sound_catalog (?c\<lparr>sk_active := a\<rparr>)"
        using activate_sound [OF L c1 active_but_with_skill [OF c p] _ refl refl old] True by (auto simp: enabled_with_skill)
      with r r' True have "c' = ?c\<lparr>sk_active := a\<rparr>" "x = Inr m" by simp_all
      with a(2) new show ?thesis by (simp only: sum.case) blast
    next
      case False
      have "sound_active ?c"
        by (rule sound_active_transfer [OF maps(2)]) (use keep False in \<open>auto simp: enabled_with_skill split: if_splits\<close>)
      with r r' False new c1 show ?thesis
        by (auto simp: sound_catalog_def intro!: exI [of _ "sk_active ?c"])
    qed
  qed
qed

lemma list_skills_total: "sound_maps c \<Longrightarrow> \<exists>es. list_skills L c = Inr es"
  using with_versions_valid [of "map_values (sk_skills c)"] sound_values sound_get
  by (fastforce simp: list_skills_def)

lemma setEnabled_found:
  assumes c: "sound_catalog c" and p: "plain_id i" and g: "get_skill c i v = Inr m"
  obtains s where "sm_id m = i" "sm_version m = v" "getKey i v = manifest_key m" "map_get (sk_skills c) (manifest_key m) = Some m"
    "or_else (map_get (sk_lifecycle c) (getKey i v)) (normalizedLifecycle m) = s"
    "\<And>on. c\<lparr>sk_lifecycle := map_set (sk_lifecycle c) (getKey i v) (s\<lparr>li_enabled := on\<rparr>)\<rparr> = with_skill m (s\<lparr>li_enabled := on\<rparr>) c"
proof -
  have maps: "sound_maps c" using c by (simp add: sound_catalog_def)
  from g have r: "map_get (sk_skills c) (getKey i v) = Some m" by (simp add: get_skill_def split: option.splits)
  with sound_find [OF maps p] have m: "sm_id m = i" "sm_version m = v" by blast+
  then have k: "getKey i v = manifest_key m" by (simp add: manifest_key_def)
  show ?thesis
    by (rule that [OF m k _ refl]) (use r k in \<open>simp_all add: with_skill_def map_set_same\<close>)
qed

lemma setEnabled_sound:
  assumes L: "comparator L" and c: "sound_catalog c" and p: "plain_id i"
  shows "sound_catalog (fst (setEnabled L i v on c))"
proof (cases "get_skill c i v")
  case (Inl e)
  with c show ?thesis by (simp add: setEnabled_def)
next
  case (Inr m)
  obtain s where m: "sm_id m = i" "sm_version m = v" and k: "getKey i v = manifest_key m"
    and g: "map_get (sk_skills c) (manifest_key m) = Some m"
    and s: "or_else (map_get (sk_lifecycle c) (getKey i v)) (normalizedLifecycle m) = s"
    and c1: "\<And>on. c\<lparr>sk_lifecycle := map_set (sk_lifecycle c) (getKey i v) (s\<lparr>li_enabled := on\<rparr>)\<rparr> = with_skill m (s\<lparr>li_enabled := on\<rparr>) c"
    using setEnabled_found [OF c p Inr] by metis
  let ?c = "with_skill m (s\<lparr>li_enabled := on\<rparr>) c"
  have maps: "sound_maps c" "sound_active c" using c by (simp_all add: sound_catalog_def)
  have "sound_maps ?c" using sound_get [OF maps(1) g] by (intro sound_maps_with_skill [OF maps(1)]) blast+
  moreover have b: "active_but i ?c" using active_but_with_skill [OF c, of m] p m by simp
  have a: "sk_active ?c = sk_active c" by (simp add: with_skill_def)
  have other: "enabled_skill ?c n" if "enabled_skill c n" "n \<noteq> m" for n
    using that g enabled_in_map [OF that(1)] by (auto simp: enabled_with_skill)
  note goal = setEnabled_def Inr s c1 Let_def
  show ?thesis
  proof (cases on)
    case True
    then have me: "enabled_skill ?c m" by (simp add: enabled_with_skill)
    have "\<exists>n. enabled_skill ?c n \<and> sm_id n = i \<and> sm_version n = w" if "map_get (sk_active ?c) i = Some w" for w
      using active_valid [OF maps(2)] that other True me unfolding a by metis
    from activate_sound [OF L \<open>sound_maps ?c\<close> b me m this]
    obtain x where "activate_newer L i v ?c = (?c\<lparr>sk_active := x\<rparr>, Inr ())" "sound_catalog (?c\<lparr>sk_active := x\<rparr>)"
      by blast
    with True show ?thesis by (simp add: goal)
  next
    case False
    show ?thesis
    proof (cases "map_get (sk_active c) i = Some v")
      case True
      show ?thesis
        using L \<open>sound_maps ?c\<close>
      proof (cases rule: latestEnabled_cases [where i = i])
        case none
        with sound_active_delete [OF b] True False \<open>sound_maps ?c\<close> show ?thesis by (simp add: goal a sound_catalog_def)
      next
        case (some f)
        from sound_active_set [OF b some(2,3) refl] some(1) True False \<open>sound_maps ?c\<close> show ?thesis
          by (simp add: goal a sound_catalog_def)
      qed
    next
      case old: False
      have "sound_active ?c"
      proof (rule sound_active_transfer [OF maps(2) a])
        show "enabled_skill c n" if "enabled_skill ?c n" for n
          using that False by (simp add: enabled_with_skill split: if_splits)
        show "enabled_skill ?c n" if "enabled_skill c n" "map_get (sk_active c) (sm_id n) = Some (sm_version n)" for n
          using other [OF that(1)] that(2) old m by blast
      qed
      with False old \<open>sound_maps ?c\<close> show ?thesis by (simp add: goal a sound_catalog_def)
    qed
  qed
qed

lemma rollback_spec:
  assumes c: "sound_catalog c" and p: "plain_id i" and r: "rollback i v c = (c', x)"
  shows "sound_catalog c' \<and>
    (case x of Inl _ \<Rightarrow> c' = c
     | Inr m \<Rightarrow> enabled_skill c m \<and> sm_id m = i \<and> sm_version m = v \<and> c' = c\<lparr>sk_active := map_set (sk_active c) i v\<rparr>)"
proof (cases "resolveVersion c i v")
  case (Inl e)
  with r have "c' = c" "x = Inl e" by (simp_all add: rollback_def)
  with c show ?thesis by simp
next
  case (Inr m)
  have maps: "sound_maps c" "sound_active c" using c by (simp_all add: sound_catalog_def)
  from Inr have g: "map_get (sk_skills c) (getKey i v) = Some m" "enabled_at c (getKey i v)"
    by (auto simp: resolveVersion_def get_skill_def bindR_Inr_iff split: option.splits if_splits)
  with sound_find [OF maps(1) p] have m: "sm_id m = i" "sm_version m = v" by blast+
  with g have e: "enabled_skill c m" by (simp add: enabled_skill_def manifest_key_def)
  have "active_but i c" using maps(2) by (auto simp: sound_active_def active_but_def)
  from sound_active_set [OF this e m] have "sound_catalog (c\<lparr>sk_active := map_set (sk_active c) i v\<rparr>)"
    using maps(1) by (simp add: sound_catalog_def)
  moreover from Inr r have "c' = c\<lparr>sk_active := map_set (sk_active c) i v\<rparr>" "x = Inr m" by (simp_all add: rollback_def)
  ultimately show ?thesis using m e by simp
qed

text \<open>In a sound catalog the fallback of \<open>resolve\<close> never finds a version.\<close>

lemma resolve_spec:
  assumes L: "comparator L" and c: "sound_catalog c" and p: "plain_id i"
  shows "resolve L i c =
    (c, case map_get (sk_active c) i of
          Some v \<Rightarrow> get_skill c i v
        | None \<Rightarrow> Inl (if versionsFor c i \<noteq> [] then SkillDisabledError (''All versions of skill '' @ i @ '' are disabled'')
                      else SkillNotFoundError (''Skill '' @ i @ '' not found'')))"
proof -
  have maps: "sound_maps c" "sound_active c" using c by (simp_all add: sound_catalog_def)
  show ?thesis
  proof (cases "map_get (sk_active c) i")
    case None
    with maps(2) have "\<not> (\<exists>m. enabled_skill c m \<and> sm_id m = i)" by (auto simp: sound_active_def)
    with L maps(1) have "latestEnabled L c i = Inr None" by (cases rule: latestEnabled_cases [where i = i]) blast+
    with None show ?thesis by (simp add: resolve_def resolve_latest_def)
  next
    case (Some v)
    with active_valid [OF maps(2)] obtain m where m: "enabled_skill c m" "sm_id m = i" "sm_version m = v" by blast
    with enabled_valid [OF maps(1) m(1)] have "v \<noteq> []" "enabled_at c (getKey i v)"
      by (auto simp: enabled_skill_def manifest_key_def)
    with Some show ?thesis by (simp add: resolve_def)
  qed
qed

lemma resolve_state [simp]: "comparator L \<Longrightarrow> sound_catalog c \<Longrightarrow> plain_id i \<Longrightarrow> fst (resolve L i c) = c"
  by (simp add: resolve_spec)

text \<open>What an automatic update that returns has checked.\<close>

definition within_authority :: "manifest \<Rightarrow> manifest \<Rightarrow> bool" where
  "within_authority p m \<longleftrightarrow>
     set (or_else (sm_tools m) []) \<subseteq> set (or_else (sm_tools p) []) \<and>
     (sm_mutability m = ''write'' \<longrightarrow> sm_mutability p = ''write'') \<and> (requires_approval p \<longrightarrow> requires_approval m)"

lemma within_refl [simp]: "within_authority m m"
  by (simp add: within_authority_def)

lemma within_trans: "within_authority p m \<Longrightarrow> within_authority m n \<Longrightarrow> within_authority p n"
  by (auto simp: within_authority_def)

lemma update_spec:
  assumes L: "comparator L" and c: "sound_catalog c" and p: "plain_id (sm_id m)"
    and r: "updateSystemSkill L m c = (c', x)"
  shows "sound_catalog c' \<and>
    (case x of Inl _ \<Rightarrow> c' = c
     | Inr n \<Rightarrow> n = m \<and> map_get (sk_skills c) (manifest_key m) = None \<and>
         (\<exists>a. c' = (with_skill m (normalizedLifecycle m) c)\<lparr>sk_active := a\<rparr>) \<and>
         (case latestEnabled L c (sm_id m) of
            Inr (Some q) \<Rightarrow> within_authority q m \<and> 0 < version_order L (the_version m) (the_version q)
          | _ \<Rightarrow> True))"
proof -
  have maps: "sound_maps c" using c by (simp add: sound_catalog_def)
  have reg: ?thesis if "updateSystemSkill L m c = register L m c"
      and "case latestEnabled L c (sm_id m) of
            Inr (Some q) \<Rightarrow> within_authority q m \<and> 0 < version_order L (the_version m) (the_version q)
          | _ \<Rightarrow> True"
    using register_spec [OF L c p that(1) [symmetric, unfolded r]] that(2) c by (cases x) auto
  have rej: ?thesis if "updateSystemSkill L m c = (c, Inl e)" for e
    using that r c by auto
  let ?s = "normalizedLifecycle m"
  show ?thesis
  proof (cases "li_source ?s \<noteq> ''system'' \<or> li_updatePolicy ?s \<noteq> ''auto''")
    case True
    then show ?thesis by (intro rej) (simp add: updateSystemSkill_def)
  next
    case auto: False
    show ?thesis
    using L maps
  proof (cases rule: latestEnabled_cases [where i = "sm_id m"])
    case none
    with auto show ?thesis by (intro reg) (simp_all add: updateSystemSkill_def)
  next
    case (some q)
    then have "match_version (sm_version q) \<noteq> None" using enabled_valid [OF maps] by simp
    then obtain w where w: "match_version (sm_version q) = Some w" by blast
    note step = updateSystemSkill_def compareSemanticVersions_def parseSemanticVersion_def
    show ?thesis
    proof (cases "match_version (sm_version m)")
      case None
      with some auto show ?thesis by (intro rej) (simp add: step)
    next
      case (Some v)
      show ?thesis
      proof (cases "version_order L v w \<le> 0")
        case True
        with some auto Some w show ?thesis by (intro rej) (simp add: step)
      next
        case newer: False
        show ?thesis
        proof (cases "assertAutoUpdateDoesNotBroadenAuthority q m")
          case (Inl e)
          with some auto Some w newer show ?thesis by (intro rej) (simp add: step)
        next
          case (Inr u)
          then have "within_authority q m"
            by (auto simp: assertAutoUpdateDoesNotBroadenAuthority_def within_authority_def filter_empty_conv split: if_splits)
          with Inr some auto Some w newer show ?thesis by (intro reg) (simp_all add: step the_version_def)
        qed
      qed
    qed
  qed
  qed
qed

lemma serve_sound:
  assumes "comparator L" and "sound_catalog c" and "plain_id (id_of q)"
  shows "sound_catalog (serve_skill L q c)"
proof (cases q)
  case (Register m)
  with assms register_spec [of L c m] show ?thesis by (metis fst_conv id_of.simps(1) prod.collapse serve_skill.simps(1))
next
  case (Rollback i v)
  with assms rollback_spec [of c i v] show ?thesis by (metis fst_conv id_of.simps(3) prod.collapse serve_skill.simps(3))
next
  case (Update m)
  with assms update_spec [of L c m] show ?thesis by (metis fst_conv id_of.simps(4) prod.collapse serve_skill.simps(4))
qed (use assms setEnabled_sound in simp_all)

lemma catalog_sound: "sk_reachable L P c \<Longrightarrow> comparator L \<Longrightarrow> sound_catalog c"
  by (induction rule: sk_reachable.induct) (simp_all add: sound_empty serve_sound)

end
