(* ===== verification/SkillGuarantees.thy ===== *)
theory SkillGuarantees
  imports SkillProperties
begin

text \<open>
  What the skill catalog guarantees: which manifest a skill resolves to, that automatic updates do
  not widen what a skill may do, and what stands before the run of a handler; with a concrete
  catalog and three things the catalog does not refuse.
\<close>

section \<open>Resolution\<close>

text \<open>
  C30: in every catalog that requests can produce, an id with an enabled version resolves to an
  enabled, registered manifest of that id; an id without one is refused, as unknown exactly when
  no version of it is registered; and resolving changes nothing.
\<close>

theorem resolve_exact:
  assumes "comparator L" and "sk_reachable L P c" and "plain_id i"
  shows "\<exists>r. resolve L i c = (c, r) \<and>
    (case r of
       Inr m \<Rightarrow> enabled_skill c m \<and> sm_id m = i
     | Inl e \<Rightarrow> \<not> (\<exists>m. enabled_skill c m \<and> sm_id m = i) \<and>
         e = (if versionsFor c i \<noteq> [] then SkillDisabledError (''All versions of skill '' @ i @ '' are disabled'')
              else SkillNotFoundError (''Skill '' @ i @ '' not found'')))"
proof -
  have c: "sound_catalog c" by (rule catalog_sound [OF assms(2,1)])
  then have a: "sound_active c" by (simp add: sound_catalog_def)
  show ?thesis
  proof (cases "map_get (sk_active c) i")
    case None
    then have "\<not> (\<exists>m. enabled_skill c m \<and> sm_id m = i)" using active_missing [OF a] by blast
    with None resolve_spec [OF assms(1) c assms(3)] show ?thesis by simp
  next
    case (Some v)
    with active_valid [OF a] obtain m where m: "enabled_skill c m" "sm_id m = i" "sm_version m = v" by blast
    then have "get_skill c i v = Inr m"
      using enabled_in_map [OF m(1)] by (simp add: get_skill_def manifest_key_def)
    with m Some resolve_spec [OF assms(1) c assms(3)] show ?thesis by simp
  qed
qed

section \<open>Automatic updates\<close>

definition enabled_list :: "catalog \<Rightarrow> string \<Rightarrow> manifest list" where
  "enabled_list c i = filter (not_disabled c) (versionsFor c i)"

lemma enabled_list_new:
  assumes c: "sound_catalog c" and new: "map_get (sk_skills c) (manifest_key m) = None"
  shows "enabled_list ((with_skill m s c)\<lparr>sk_active := a\<rparr>) i =
    enabled_list c i @ (if sm_id m = i \<and> li_enabled s then [m] else [])"
proof -
  let ?c = "(with_skill m s c)\<lparr>sk_active := a\<rparr>"
  have maps: "sound_maps c" using c by (simp add: sound_catalog_def)
  have v: "versionsFor ?c i = versionsFor c i @ (if sm_id m = i then [m] else [])"
    by (simp add: versionsFor_def with_skill_def map_set_new [OF new [unfolded map_get_None_iff]] map_values_def)
  have "not_disabled ?c n = not_disabled c n" if "n \<in> set (versionsFor c i)" for n
  proof -
    have "manifest_key n \<noteq> manifest_key m" using that new sound_values [OF maps, of n] by (auto simp: versionsFor_def)
    then show ?thesis by (simp add: not_disabled_def with_skill_def)
  qed
  then have "filter (not_disabled ?c) (versionsFor c i) = filter (not_disabled c) (versionsFor c i)"
    by (rule filter_cong [OF refl])
  moreover have "not_disabled ?c m = li_enabled s" by (simp add: not_disabled_def with_skill_def)
  ultimately show ?thesis by (simp add: enabled_list_def v)
qed

fun only_updates :: "skill_request \<Rightarrow> bool" where
  "only_updates (Update m) = plain_id (sm_id m)"
| "only_updates (Resolve i) = plain_id i"
| "only_updates _ = False"

lemma update_keeps_within:
  assumes L: "comparator L" and c: "sound_catalog c" and p: "latestEnabled L c i = Inr (Some p)" and q: "only_updates q"
  obtains p1 where "latestEnabled L (serve_skill L q c) i = Inr (Some p1)" "within_authority p p1"
    "\<And>m. enabled_skill (serve_skill L q c) m \<Longrightarrow> sm_id m = i \<Longrightarrow> enabled_skill c m \<or> within_authority p m"
proof (cases q)
  case (Update m)
  have pm: "plain_id (sm_id m)" using q Update by simp
  obtain d x where r: "updateSystemSkill L m c = (d, x)" by fastforce
  note u = update_spec [OF L c pm r]
  have d: "serve_skill L q c = d" using Update r by simp
  show ?thesis
  proof (cases x)
    case (Inl e)
    with u d p show ?thesis by (intro that [of p]) auto
  next
    case (Inr n)
    let ?s = "normalizedLifecycle m"
    obtain a where new: "map_get (sk_skills c) (manifest_key m) = None" and da: "d = (with_skill m ?s c)\<lparr>sk_active := a\<rparr>"
      using u Inr by auto
    have ds: "sound_catalog d" using u by blast
    note el = enabled_list_new [OF c new, where s = ?s and a = a and i = i, folded da]
    have en: "enabled_skill d n \<longleftrightarrow> (if manifest_key n = manifest_key m then n = m \<and> li_enabled ?s else enabled_skill c n)" for n
      by (simp add: da enabled_with_skill)
    show ?thesis
    proof (cases "sm_id m = i \<and> li_enabled ?s")
      case True
      then have w: "within_authority p m" "0 < version_order L (the_version m) (the_version p)" using u Inr p by auto
      obtain p1 where p1: "latestEnabled L d i = Inr (Some p1)" "enabled_skill d p1" "sm_id p1 = i"
          "\<And>n. enabled_skill d n \<Longrightarrow> sm_id n = i \<Longrightarrow> not_newer L n p1"
        using latestEnabled_cases [OF L, of d i] ds en True unfolding sound_catalog_def by metis
      have "p1 = m"
      proof (rule ccontr)
        assume "p1 \<noteq> m"
        with p1(2) en have "enabled_skill c p1" by metis
        then have "not_newer L p1 p" using p p1(3) latestEnabled_cases [OF L, of c i] c
          unfolding sound_catalog_def by (metis Inr_inject option.inject option.distinct(1))
        moreover have "not_newer L m p1" using p1(4) en True by simp
        ultimately show False
          using w(2) comparator.trans [OF version_comparator [OF L]] unfolding not_newer_def by (meson not_le)
      qed
      with p1(1) w(1) en d show ?thesis by (intro that [of m]) (auto split: if_splits)
    next
      case False
      with el have "latestEnabled L d i = latestEnabled L c i" by (simp add: latestEnabled_def flip: enabled_list_def)
      with p d en False show ?thesis by (intro that [of p]) (auto split: if_splits)
    qed
  qed
next
  case (Resolve j)
  with q L c p show ?thesis by (intro that [of p]) simp_all
qed (use q in simp_all)


section \<open>Newest first\<close>

text \<open>Without a rollback the active version of an id is one that no enabled version is newer than.\<close>

definition newest_active :: "(string \<Rightarrow> string \<Rightarrow> int) \<Rightarrow> catalog \<Rightarrow> bool" where
  "newest_active L c \<longleftrightarrow>
     (\<forall>m n. enabled_skill c m \<and> map_get (sk_active c) (sm_id m) = Some (sm_version m) \<and> enabled_skill c n \<and> sm_id n = sm_id m
        \<longrightarrow> not_newer L n m)"

lemma one_per_key: "sound_maps c \<Longrightarrow> enabled_skill c m \<Longrightarrow> enabled_skill c n \<Longrightarrow> sm_id m = sm_id n \<Longrightarrow> sm_version m = sm_version n \<Longrightarrow> m = n"
  by (simp add: enabled_skill_def manifest_key_def)

text \<open>A version \<open>m\<close> that has just become enabled, and the active version of its id chosen anew.\<close>

lemma newest_after_enabling:
  assumes L: "comparator L" and c: "sound_maps c" "sound_active c" "newest_active L c" and d: "sound_catalog d"
    and en: "\<And>n. enabled_skill d n \<longleftrightarrow> enabled_skill c n \<or> n = m"
    and a: "\<And>j. j \<noteq> sm_id m \<Longrightarrow> map_get (sk_active d) j = map_get (sk_active c) j"
    and b: "case map_get (sk_active c) (sm_id m) of
       None \<Rightarrow> map_get (sk_active d) (sm_id m) = Some (sm_version m)
     | Some w \<Rightarrow> map_get (sk_active d) (sm_id m) =
         Some (if 0 < version_order L (the (match_version (sm_version m))) (the (match_version w)) then sm_version m else w)"
  shows "newest_active L d"
  unfolding newest_active_def
proof (intro allI impI, elim conjE)
  note V = version_comparator [OF L]
  have dm: "sound_maps d" using d by (simp add: sound_catalog_def)
  fix p n assume p: "enabled_skill d p" "map_get (sk_active d) (sm_id p) = Some (sm_version p)" and n: "enabled_skill d n" "sm_id n = sm_id p"
  show "not_newer L n p"
  proof (cases "sm_id p = sm_id m")
    case False
    with p n en a c(3) show ?thesis unfolding newest_active_def by metis
  next
    case i: True
    show ?thesis
    proof (cases "map_get (sk_active c) (sm_id m)")
      case None
      then have "\<not> enabled_skill c p" "\<not> enabled_skill c n" using active_missing [OF c(2)] i n(2) by metis+
      with p(1) n(1) en have "p = m" "n = m" by blast+
      then show ?thesis by (simp add: not_newer_def comparator.refl [OF V])
    next
      case (Some w)
      obtain o1 where o1: "enabled_skill c o1" "sm_id o1 = sm_id m" "sm_version o1 = w"
        using active_valid [OF c(2) Some] by blast
      have old: "not_newer L k o1" if "enabled_skill c k" "sm_id k = sm_id m" for k
        using c(3) o1 Some that unfolding newest_active_def by metis
      have v: "the_version o1 = the (match_version w)" by (simp add: the_version_def o1(3))
      show ?thesis
      proof (cases "0 < version_order L (the_version m) (the_version o1)")
        case True
        with Some b v p(2) i have "sm_version p = sm_version m" by (simp add: the_version_def)
        then have "p = m" using one_per_key [OF dm p(1), of m] en i by blast
        moreover have "not_newer L o1 m" using True comparator.total [OF V] by (simp add: not_newer_def)
        ultimately show ?thesis
          using old en n i comparator.trans [OF V] comparator.refl [OF V] unfolding not_newer_def by metis
      next
        case False
        with Some b v p(2) i o1(3) have "sm_version p = sm_version o1" by (simp add: the_version_def)
        then have "p = o1" using one_per_key [OF dm p(1), of o1] en o1 i by simp
        with False old en n i show ?thesis by (auto simp: not_newer_def not_less)
      qed
    qed
  qed
qed

lemma newest_fewer:
  assumes "newest_active L c" and "\<And>n. enabled_skill d n \<Longrightarrow> enabled_skill c n"
    and "\<And>m. enabled_skill d m \<Longrightarrow> map_get (sk_active d) (sm_id m) = Some (sm_version m) \<Longrightarrow>
      map_get (sk_active c) (sm_id m) = Some (sm_version m) \<or> (\<forall>n. enabled_skill d n \<longrightarrow> sm_id n = sm_id m \<longrightarrow> not_newer L n m)"
  shows "newest_active L d"
  using assms unfolding newest_active_def by metis

lemma newest_register:
  assumes L: "comparator L" and c: "sound_catalog c" "newest_active L c" and p: "plain_id (sm_id m)"
  shows "newest_active L (fst (register L m c))"
proof -
  obtain d x where r: "register L m c = (d, x)" by fastforce
  have maps: "sound_maps c" "sound_active c" using c(1) by (simp_all add: sound_catalog_def)
  note s = register_spec [OF L c(1) p r]
  show ?thesis
  proof (cases x)
    case (Inl e)
    with s r c(2) show ?thesis by simp
  next
    case (Inr n)
    let ?s = "normalizedLifecycle m" let ?c = "with_skill m ?s c"
    have new: "map_get (sk_skills c) (manifest_key m) = None" using s Inr by simp
    have ok: "\<not> (sm_id m = [] \<or> sm_version m = [])" "match_version (sm_version m) \<noteq> None"
      using r Inr by (auto simp: register_def parseSemanticVersion_def split: if_splits option.splits)
    have c1: "sound_maps ?c" using sound_maps_with_skill [OF maps(1) p] ok by blast
    have en: "enabled_skill ?c k \<longleftrightarrow> enabled_skill c k \<or> (li_enabled ?s \<and> k = m)" for k
      using new enabled_in_map [of c k] by (auto simp: enabled_with_skill)
    show ?thesis
    proof (cases "li_enabled ?s")
      case True
      have old: "\<exists>k. enabled_skill ?c k \<and> sm_id k = sm_id m \<and> sm_version k = w" if "map_get (sk_active ?c) (sm_id m) = Some w" for w
        using active_valid [OF maps(2)] that en unfolding active_with_skill by blast
      obtain a where a: "activate_newer L (sm_id m) (sm_version m) ?c = (?c\<lparr>sk_active := a\<rparr>, Inr ())"
          "sound_catalog (?c\<lparr>sk_active := a\<rparr>)" "\<forall>j. j \<noteq> sm_id m \<longrightarrow> map_get a j = map_get (sk_active ?c) j"
          "case map_get (sk_active ?c) (sm_id m) of
             None \<Rightarrow> map_get a (sm_id m) = Some (sm_version m)
           | Some w \<Rightarrow> map_get a (sm_id m) =
               Some (if 0 < version_order L (the (match_version (sm_version m))) (the (match_version w)) then sm_version m else w)"
        using activate_sound [OF L c1 active_but_with_skill [OF c(1) p] _ refl refl old] True en by blast
      have "newest_active L (?c\<lparr>sk_active := a\<rparr>)"
        by (rule newest_after_enabling [OF L maps c(2) a(2), of m]) (use a(3,4) en True in \<open>simp_all split: option.splits\<close>)
      moreover have "register L m c = (?c\<lparr>sk_active := a\<rparr>, Inr m)"
        using a(1) True ok new by (auto simp: register_def parseSemanticVersion_def with_skill_def Let_def)
      ultimately show ?thesis by simp
    next
      case False
      then have "newest_active L ?c" using c(2) en unfolding newest_active_def active_with_skill by blast
      moreover have "register L m c = (?c, Inr m)"
        using False ok new by (auto simp: register_def parseSemanticVersion_def with_skill_def Let_def)
      ultimately show ?thesis by simp
    qed
  qed
qed

lemma newest_setEnabled:
  assumes L: "comparator L" and c: "sound_catalog c" "newest_active L c" and p: "plain_id i"
  shows "newest_active L (fst (setEnabled L i v on c))"
proof (cases "get_skill c i v")
  case (Inl e)
  with c show ?thesis by (simp add: setEnabled_def)
next
  case (Inr m)
  obtain s where m: "sm_id m = i" "sm_version m = v" and k: "getKey i v = manifest_key m"
    and g: "map_get (sk_skills c) (manifest_key m) = Some m"
    and s: "or_else (map_get (sk_lifecycle c) (getKey i v)) (normalizedLifecycle m) = s"
    and c1: "\<And>on. c\<lparr>sk_lifecycle := map_set (sk_lifecycle c) (getKey i v) (s\<lparr>li_enabled := on\<rparr>)\<rparr> = with_skill m (s\<lparr>li_enabled := on\<rparr>) c"
    using setEnabled_found [OF c(1) p Inr] by metis
  let ?c = "with_skill m (s\<lparr>li_enabled := on\<rparr>) c"
  have maps: "sound_maps c" "sound_active c" using c(1) by (simp_all add: sound_catalog_def)
  have d: "sound_maps ?c" using sound_get [OF maps(1) g] by (intro sound_maps_with_skill [OF maps(1)]) blast+
  have en: "enabled_skill ?c n \<longleftrightarrow> (enabled_skill c n \<and> n \<noteq> m) \<or> (on \<and> n = m)" for n
    using g enabled_in_map [of c n] by (auto simp: enabled_with_skill)
  have fin: "fst (setEnabled L i v on c) = fst (if on then activate_newer L i v ?c
                else if map_get (sk_active ?c) i = Some v then
                  (case latestEnabled L ?c i of
                     Inl e \<Rightarrow> (?c, Inl e)
                   | Inr (Some f) \<Rightarrow> (?c\<lparr>sk_active := map_set (sk_active ?c) i (sm_version f)\<rparr>, Inr ())
                   | Inr None \<Rightarrow> (?c\<lparr>sk_active := map_delete (sk_active ?c) i\<rparr>, Inr ()))
                else (?c, Inr ()))"
    unfolding setEnabled_def Inr sum.case Let_def s c1 by (simp add: andThen_def split: prod.splits sum.splits)
  show ?thesis
  proof (cases on)
    case True
    have "\<exists>n. enabled_skill ?c n \<and> sm_id n = i \<and> sm_version n = w" if "map_get (sk_active ?c) i = Some w" for w
      using active_valid [OF maps(2)] that en True unfolding active_with_skill by metis
    from activate_sound [OF L d active_but_with_skill [OF c(1), of m, unfolded m, OF p] _ m this]
    obtain a where a: "activate_newer L i v ?c = (?c\<lparr>sk_active := a\<rparr>, Inr ())"
        "sound_catalog (?c\<lparr>sk_active := a\<rparr>)" "\<forall>j. j \<noteq> i \<longrightarrow> map_get a j = map_get (sk_active ?c) j"
        "case map_get (sk_active ?c) i of
           None \<Rightarrow> map_get a i = Some v
         | Some w \<Rightarrow> map_get a i = Some (if 0 < version_order L (the (match_version v)) (the (match_version w)) then v else w)"
      using en True by blast
    have "newest_active L (?c\<lparr>sk_active := a\<rparr>)"
      by (rule newest_after_enabling [OF L maps c(2) a(2), of m]) (use a(3,4) en True m in \<open>auto split: option.splits\<close>)
    with True a(1) fin show ?thesis by simp
  next
    case off: False
    show ?thesis
    proof (cases "map_get (sk_active c) i = Some v")
      case True
      show ?thesis
        using L d
      proof (cases rule: latestEnabled_cases [where i = i])
        case none
        with fin off True have "fst (setEnabled L i v on c) = ?c\<lparr>sk_active := map_delete (sk_active c) i\<rparr>" by simp
        moreover have "newest_active L (?c\<lparr>sk_active := map_delete (sk_active c) i\<rparr>)"
          by (rule newest_fewer [OF c(2)]) (use en off in \<open>auto split: if_splits\<close>)
        ultimately show ?thesis by simp
      next
        case (some f)
        with fin off True have "fst (setEnabled L i v on c) = ?c\<lparr>sk_active := map_set (sk_active c) i (sm_version f)\<rparr>" by simp
        moreover have "newest_active L (?c\<lparr>sk_active := map_set (sk_active c) i (sm_version f)\<rparr>)"
        proof (rule newest_fewer [OF c(2)])
          show "enabled_skill c n" if "enabled_skill (?c\<lparr>sk_active := map_set (sk_active c) i (sm_version f)\<rparr>) n" for n
            using that en off by simp
          fix n assume n: "enabled_skill (?c\<lparr>sk_active := map_set (sk_active c) i (sm_version f)\<rparr>) n"
            "map_get (sk_active (?c\<lparr>sk_active := map_set (sk_active c) i (sm_version f)\<rparr>)) (sm_id n) = Some (sm_version n)"
          show "map_get (sk_active c) (sm_id n) = Some (sm_version n) \<or>
              (\<forall>k. enabled_skill (?c\<lparr>sk_active := map_set (sk_active c) i (sm_version f)\<rparr>) k \<longrightarrow> sm_id k = sm_id n \<longrightarrow> not_newer L k n)"
          proof (cases "sm_id n = i")
            case i: True
            with n have "n = f" using one_per_key [OF d, of n f] some(2,3) by simp
            with some(4) i show ?thesis by simp
          qed (use n in simp)
        qed
        ultimately show ?thesis by simp
      qed
    next
      case False
      with fin off have "fst (setEnabled L i v on c) = ?c" by simp
      moreover have "newest_active L ?c"
        by (rule newest_fewer [OF c(2)]) (use en off in \<open>auto\<close>)
      ultimately show ?thesis by simp
    qed
  qed
qed

definition no_rollback :: "skill_request \<Rightarrow> bool" where
  "no_rollback q \<longleftrightarrow> (\<forall>i v. q \<noteq> Rollback i v)"

lemma newest_update:
  assumes "comparator L" and "sound_catalog c" "newest_active L c" and "plain_id (sm_id m)"
  shows "newest_active L (fst (updateSystemSkill L m c))"
  using newest_register [OF assms] assms(3)
  by (auto simp: updateSystemSkill_def Let_def split: sum.splits option.splits)

lemma reachable_newest:
  "sk_reachable L no_rollback c \<Longrightarrow> comparator L \<Longrightarrow> newest_active L c"
proof (induction rule: sk_reachable.induct)
  case start
  then show ?case by (simp add: newest_active_def empty_catalog_def)
next
  case (step c q)
  note c = catalog_sound [OF step.hyps(1) step.prems] step.IH [OF step.prems]
  show ?case
    using step.hyps(2,3) step.prems c
    by (cases q) (simp_all add: newest_register newest_setEnabled newest_update no_rollback_def)
qed

text \<open>
  Without a rollback a skill always resolves to a version that no enabled version of it is
  newer than, however versions are registered, updated, disabled and enabled again.
\<close>

theorem newest_resolved:
  assumes "comparator L" and "sk_reachable L no_rollback c" and "plain_id i"
    and "resolve L i c = (c', Inr m)" and "enabled_skill c n" and "sm_id n = i"
  shows "not_newer L n m"
proof -
  have c: "sound_catalog c" by (rule catalog_sound [OF assms(2,1)])
  then have maps: "sound_maps c" "sound_active c" by (simp_all add: sound_catalog_def)
  from assms(4) resolve_spec [OF assms(1) c assms(3)] obtain v where v: "map_get (sk_active c) i = Some v" "get_skill c i v = Inr m"
    by (auto split: option.splits)
  with active_valid [OF maps(2)] obtain k where k: "enabled_skill c k" "sm_id k = i" "sm_version k = v" by blast
  with v have "m = k" using enabled_in_map [OF k(1)] by (simp add: get_skill_def manifest_key_def)
  with reachable_newest [OF assms(2,1)] k v(1) assms(5,6) show ?thesis unfolding newest_active_def by blast
qed

section \<open>Execution\<close>

lemma chosen_enabled:
  assumes "comparator L" and "sound_catalog c" and "plain_id i" and "chosen_skill L i v c = (c', Inr m)"
  shows "c' = c \<and> enabled_skill c m \<and> sm_id m = i"
proof -
  have maps: "sound_maps c" "sound_active c" using assms(2) by (simp_all add: sound_catalog_def)
  have got: "enabled_skill c m \<and> sm_id m = i" if "map_get (sk_skills c) (getKey i w) = Some m" "enabled_at c (getKey i w)" for w
    using that sound_find [OF maps(1) assms(3) that(1)] by (simp add: enabled_skill_def manifest_key_def)
  have resolved: ?thesis if "resolve L i c = (c', Inr m)"
  proof -
    from that resolve_spec [OF assms(1,2,3)] obtain w where w: "c' = c" "map_get (sk_active c) i = Some w" "get_skill c i w = Inr m"
      by (auto split: option.splits)
    with active_valid [OF maps(2)] obtain k where k: "enabled_skill c k" "sm_id k = i" "sm_version k = w" by blast
    with w show ?thesis using enabled_in_map [OF k(1)] by (simp add: get_skill_def manifest_key_def)
  qed
  show ?thesis
    using assms(4) resolved got
    by (auto simp: chosen_skill_def resolveVersion_def get_skill_def bindR_Inr_iff split: option.splits if_splits)
qed

text \<open>
  C32: the handler of a skill acts on the world only when a version of the skill was registered
  and enabled, and, when that version writes and does not waive approval, only with an approval
  token that is a text with more than blanks; the result then names this version.
\<close>

theorem execution_gated:
  assumes "comparator L" and "sk_reachable L P (kh_catalog h)" and "plain_id i"
    and "executeSkill L U i v input tenant token key handler h = (h', r)" and "kh_world h' \<noteq> kh_world h"
  shows "\<exists>m x. enabled_skill (kh_catalog h) m \<and> sm_id m = i \<and> assertApprovalValid m token = Inr () \<and>
    (sm_mutability m \<noteq> ''write'' \<or> sm_approval m = Some ''none'' \<or> (\<exists>s. token = JStr s \<and> js_trim s \<noteq> [])) \<and>
    r = Inr x \<and> kr_skill x = i \<and> kr_version x = sm_version m"
proof -
  obtain c q where q: "chosen_skill L i v (kh_catalog h) = (c, q)" by fastforce
  show ?thesis
  proof (cases q)
    case (Inl e)
    with q assms(4,5) show ?thesis by (auto simp: executeSkill_def)
  next
    case (Inr m)
    note m = chosen_enabled [OF assms(1) catalog_sound [OF assms(2,1)] assms(3) q [unfolded Inr]]
    have a: "assertApprovalValid m token = Inr ()" using q Inr assms(4,5)
      by (cases "assertApprovalValid m token") (auto simp: executeSkill_def)
    then have "sm_mutability m \<noteq> ''write'' \<or> sm_approval m = Some ''none'' \<or> (\<exists>s. token = JStr s \<and> js_trim s \<noteq> [])"
      by (auto simp: assertApprovalValid_def split: if_splits js.splits)
    moreover obtain x where "r = Inr x" "kr_skill x = sm_id m" "kr_version x = sm_version m"
      using q Inr a assms(4) by (auto simp: executeSkill_def Let_def split: prod.splits)
    ultimately show ?thesis using m a by blast
  qed
qed

section \<open>A concrete catalog\<close>

definition summary_skill :: "string \<Rightarrow> string list \<Rightarrow> manifest" where
  "summary_skill v tools =
     \<lparr>sm_id = ''s'', sm_version = v, sm_name = ''n'', sm_domain = ''memory'', sm_mutability = ''read'', sm_tools = Some tools,
      sm_approval = None, sm_enabled = None, sm_source = Some ''system'', sm_updatePolicy = Some ''auto''\<rparr>"

definition old_summary :: manifest where
  "old_summary = summary_skill ''1.0.0'' [''a'', ''b'']"

definition new_summary :: manifest where
  "new_summary = summary_skill ''1.10.0'' [''a'']"

definition first_catalog :: catalog where
  "first_catalog = serve_skill id_order (Register old_summary) empty_catalog"

definition second_catalog :: catalog where
  "second_catalog = serve_skill id_order (Update new_summary) first_catalog"

lemma summary_plain [simp]: "plain_id ''s''" "sm_id old_summary = ''s''" "sm_id new_summary = ''s''"
  by (simp_all add: plain_id_def old_summary_def new_summary_def summary_skill_def)

lemma catalogs:
  "first_catalog = \<lparr>sk_skills = [(''s@1.0.0'', old_summary)], sk_lifecycle = [(''s@1.0.0'', normalizedLifecycle old_summary)],
     sk_active = [(''s'', ''1.0.0'')]\<rparr>"
  "second_catalog = \<lparr>sk_skills = [(''s@1.0.0'', old_summary), (''s@1.10.0'', new_summary)],
     sk_lifecycle = [(''s@1.0.0'', normalizedLifecycle old_summary), (''s@1.10.0'', normalizedLifecycle new_summary)],
     sk_active = [(''s'', ''1.10.0'')]\<rparr>"
  by code_simp+

lemma first_reachable: "sk_reachable id_order no_rollback first_catalog"
  unfolding first_catalog_def
  by (rule sk_reachable.step [OF sk_reachable.start]) (simp_all add: no_rollback_def)

lemma second_reachable: "sk_reachable id_order no_rollback second_catalog"
  unfolding second_catalog_def
  by (rule sk_reachable.step [OF first_reachable]) (simp_all add: no_rollback_def)

lemma summaries_enabled:
  "enabled_skill first_catalog old_summary" "\<not> enabled_skill first_catalog new_summary"
  "enabled_skill second_catalog old_summary" "enabled_skill second_catalog new_summary"
  by code_simp+

lemma summary_resolved:
  "resolve id_order ''s'' second_catalog = (second_catalog, Inr new_summary)"
  "latestEnabled id_order first_catalog ''s'' = Inr (Some old_summary)"
  by code_simp+

theorem resolve_exact_witness: "enabled_skill second_catalog new_summary"
  using resolve_exact [OF id_comparator second_reachable summary_plain(1)] summary_resolved(1) by simp


theorem newest_resolved_witness: "not_newer id_order old_summary new_summary"
  by (rule newest_resolved [OF id_comparator second_reachable summary_plain(1) summary_resolved(1) summaries_enabled(3) summary_plain(2)])

definition counting :: "nat skill_handler" where
  "counting input n = (Suc n, Inr input)"

definition host :: "nat skill_host" where
  "host = \<lparr>kh_catalog = second_catalog, kh_world = 0, kh_fresh = 0, kh_now = 0\<rparr>"

theorem execution_gated_witness:
  "\<exists>m. enabled_skill second_catalog m \<and> sm_id m = ''s'' \<and> assertApprovalValid m JNull = Inr ()"
proof -
  obtain h r where run: "executeSkill id_order (\<lambda>_. ''i'') ''s'' None JNull JNull JNull JNull counting host = (h, r)" by fastforce
  then have "kh_world h = 1"
    by (auto simp: executeSkill_def chosen_skill_def host_def summary_resolved(1) counting_def assertApprovalValid_def
        new_summary_def summary_skill_def)
  with execution_gated [OF id_comparator _ summary_plain(1) run, of no_rollback] second_reachable show ?thesis
    by (auto simp: host_def)
qed

section \<open>What is not refused\<close>

text \<open>
  An automatic update looks at enabled versions only. When the owner has disabled every version
  of a skill, the next update is registered without any check, is enabled, and may have any tool.
\<close>

definition shell_summary :: manifest where
  "shell_summary = (summary_skill ''0.9.0'' [''shell''])\<lparr>sm_mutability := ''write'', sm_approval := Some ''none''\<rparr>"

lemma disabled_skill_comes_back:
  "let c = serve_skill id_order (SetEnabled ''s'' ''1.0.0'' False) first_catalog;
       (c1, r) = updateSystemSkill id_order shell_summary c
   in isl (snd (resolve id_order ''s'' c)) \<and> r = Inr shell_summary \<and>
      snd (resolve id_order ''s'' c1) = Inr shell_summary \<and> \<not> within_authority old_summary shell_summary"
  by code_simp

text \<open>
  A version that writes and names no approval rule needs a token to run, but for the update check
  it needs no approval, so an update may set the rule to \<open>none\<close>.
\<close>

lemma approval_waived_by_update:
  assumes "sm_mutability p = ''write''" and "sm_approval p = None" and "sm_tools p = sm_tools m"
    and "sm_mutability m = ''write''" and "sm_approval m = Some ''none''"
  shows "assertAutoUpdateDoesNotBroadenAuthority p m = Inr () \<and> isl (assertApprovalValid p JNull) \<and>
    assertApprovalValid m JNull = Inr ()"
  using assms
  by (simp add: assertAutoUpdateDoesNotBroadenAuthority_def requires_approval_def assertApprovalValid_def truthy_def)

text \<open>
  The manifest schema allows neither \<open>source\<close> nor \<open>update_policy\<close>: a manifest that follows it is
  never accepted as an automatic update.
\<close>

lemma schema_manifest_never_updates:
  "sm_source m = None \<Longrightarrow> sm_updatePolicy m = None \<Longrightarrow> isl (snd (updateSystemSkill L m c))"
  by (simp add: updateSystemSkill_def normalizedLifecycle_def)

end
