(* ===== verification/Workflow.thy ===== *)
theory Workflow
  imports JsValue "HOL-Library.Product_Lexorder"
begin

text \<open>
  The tables of the workflow engine and \<open>packages/zeto/src/repositories/workflowRepository.js\<close>:
  definitions, runs, the steps of a run and the spans that trace them. A table is the list of
  its rows in insertion order; \<open>now()\<close> is the clock of the database and
  \<open>gen_random_uuid()\<close> draws from the supply \<open>U\<close>. A constraint of the schema that a statement can
  violate is a branch of the operation that issues it. Columns no statement reads
  (\<open>updated_at\<close>) and the audit triggers are left out.
\<close>

section \<open>Exceptions\<close>

text \<open>What a handler of an exception can see of it: \<open>error.code\<close>, its text and \<open>error.retryable\<close>.\<close>

record thrown =
  th_code :: js
  th_message :: string
  th_retryable :: js

definition Error :: "string \<Rightarrow> thrown" where
  "Error m = \<lparr>th_code = JUndef, th_message = m, th_retryable = JUndef\<rparr>"

text \<open>An error of the database has its SQLSTATE as code; the text PostgreSQL gives it is not modelled.\<close>

definition sql_error :: "string \<Rightarrow> thrown" where
  "sql_error state = \<lparr>th_code = JStr state, th_message = [], th_retryable = JUndef\<rparr>"

abbreviation unique_violation :: thrown where "unique_violation \<equiv> sql_error ''23505''"
abbreviation check_violation :: thrown where "check_violation \<equiv> sql_error ''23514''"
abbreviation out_of_range :: thrown where "out_of_range \<equiv> sql_error ''22003''"

section \<open>Rows and tables\<close>

datatype step_status = StQueued | StRunning | StRetryWait | StSucceeded | StFailed | StCancelled | StBlocked
datatype run_status = RnQueued | RnRunning | RnPaused | RnSucceeded | RnFailed | RnCancelled
datatype span_status = SpRunning | SpSucceeded | SpFailed | SpBlocked

record step_spec =
  sx_key :: string
  sx_owner :: string
  sx_timeoutMs :: "int option"
  sx_maxAttempts :: "int option"

record workflow_row =
  wd_id :: string
  wd_brand :: string
  wd_name :: string
  wd_steps :: "step_spec list"
  wd_version :: int
  wd_active :: bool

record wf_run =
  wr_id :: string
  wr_workflow :: string
  wr_status :: run_status
  wr_input :: js
  wr_output :: js
  wr_cost :: rat
  wr_startedAt :: int
  wr_finishedAt :: "int option"
  wr_createdAt :: int
  wr_commandKey :: string
  wr_traceId :: js

record wf_step =
  wt_id :: string
  wt_run :: string
  wt_key :: string
  wt_owner :: string
  wt_status :: step_status
  wt_attempt :: int
  wt_input :: js
  wt_output :: js
  wt_error :: "js option"
  wt_timeoutMs :: int
  wt_maxAttempts :: int
  wt_availableAt :: int
  wt_worker :: "string option"
  wt_heartbeatAt :: "int option"
  wt_cost :: rat
  wt_idempotencyKey :: string
  wt_order :: nat

record wf_span =
  wp_id :: string
  wp_traceId :: js
  wp_run :: string
  wp_step :: string
  wp_name :: string
  wp_status :: span_status
  wp_startedAt :: int
  wp_finishedAt :: "int option"
  wp_attributes :: js
  wp_error :: "js option"

record wf_db =
  db_now :: int
  db_fresh :: nat
  db_workflows :: "workflow_row list"
  db_runs :: "wf_run list"
  db_steps :: "wf_step list"
  db_spans :: "wf_span list"

type_synonym 'a wf_result = "(wf_db, thrown, 'a) outcome"

definition empty_db :: "int \<Rightarrow> wf_db" where
  "empty_db now = \<lparr>db_now = now, db_fresh = 0, db_workflows = [], db_runs = [], db_steps = [], db_spans = []\<rparr>"

section \<open>Values of columns\<close>

text \<open>A parameter with the default \<open>{}\<close>, as it is written to a \<open>jsonb\<close> column.\<close>

definition stored :: "js \<Rightarrow> js" where
  "stored v = (if v = JUndef then JObj [] else json_image v)"

text \<open>\<open>a || b\<close> on \<open>jsonb\<close>: the union of two objects, else the concatenation of arrays.\<close>

definition jsonb_elements :: "js \<Rightarrow> js list" where
  "jsonb_elements v = (case v of JArr xs \<Rightarrow> xs | _ \<Rightarrow> [v])"

definition jsonb_concat :: "js \<Rightarrow> js \<Rightarrow> js" where
  "jsonb_concat a b =
     (case (a, b) of
        (JObj x, JObj y) \<Rightarrow> JObj (spread x y)
      | _ \<Rightarrow> JArr (jsonb_elements a @ jsonb_elements b))"

text \<open>\<open>numeric(14,6)\<close>: six decimals, rounded, and at most eight digits before them.\<close>

definition micros :: "rat \<Rightarrow> int" where
  "micros q = \<lfloor>q * 1000000 + 1 / 2\<rfloor>"

definition numeric_14_6 :: "rat \<Rightarrow> (thrown, rat) result" where
  "numeric_14_6 q = (if micros q < 10 ^ 14 then Inr (of_int (micros q) / 1000000) else Inl out_of_range)"

text \<open>\<open>v || d\<close> on a number that may be missing\<close>

definition number_or :: "int option \<Rightarrow> int \<Rightarrow> int" where
  "number_or v d = (case v of Some z \<Rightarrow> if z = 0 then d else z | None \<Rightarrow> d)"

section \<open>Definitions and runs\<close>

fun distinct_specs :: "string list \<Rightarrow> step_spec list \<Rightarrow> bool" where
  "distinct_specs seen [] = True"
| "distinct_specs seen (x # xs) =
     (sx_key x \<noteq> [] \<and> sx_owner x \<noteq> [] \<and> sx_key x \<notin> set seen \<and> distinct_specs (sx_key x # seen) xs)"

definition new_workflow :: "string \<Rightarrow> string \<Rightarrow> string \<Rightarrow> step_spec list \<Rightarrow> workflow_row" where
  "new_workflow i brand name specs =
     \<lparr>wd_id = i, wd_brand = brand, wd_name = name, wd_steps = specs, wd_version = 1, wd_active = True\<rparr>"

definition createDefinition ::
  "(nat \<Rightarrow> string) \<Rightarrow> string \<Rightarrow> string \<Rightarrow> step_spec list \<Rightarrow> wf_db \<Rightarrow> workflow_row wf_result" where
  "createDefinition U brand name specs d =
     (if specs = [] then (d, Inl (Error ''Workflow requires at least one step''))
      else if \<not> distinct_specs [] specs then (d, Inl (Error ''Workflow step keys and owners must be unique''))
      else
        let w = new_workflow (U (db_fresh d)) brand name specs; d1 = d\<lparr>db_fresh := Suc (db_fresh d)\<rparr>
        in if list_ex (\<lambda>x. wd_id x = wd_id w \<or>
                (wd_brand x = brand \<and> wd_name x = name \<and> wd_version x = 1)) (db_workflows d)
           then (d1, Inl unique_violation)
           else (d1\<lparr>db_workflows := db_workflows d @ [w]\<rparr>, Inr w))"

definition new_run :: "string \<Rightarrow> int \<Rightarrow> string \<Rightarrow> js \<Rightarrow> string \<Rightarrow> js \<Rightarrow> wf_run" where
  "new_run i now wid input key trace =
     \<lparr>wr_id = i, wr_workflow = wid, wr_status = RnRunning, wr_input = json_image input, wr_output = JObj [],
      wr_cost = 0, wr_startedAt = now, wr_finishedAt = None, wr_createdAt = now,
      wr_commandKey = key, wr_traceId = trace\<rparr>"

definition new_step :: "string \<Rightarrow> int \<Rightarrow> string \<Rightarrow> js \<Rightarrow> nat \<Rightarrow> step_spec \<Rightarrow> wf_step" where
  "new_step i now rid input n x =
     \<lparr>wt_id = i, wt_run = rid, wt_key = sx_key x, wt_owner = sx_owner x, wt_status = StQueued, wt_attempt = 0,
      wt_input = (if n = 0 then json_image input else JObj []), wt_output = JObj [], wt_error = None,
      wt_timeoutMs = number_or (sx_timeoutMs x) 120000, wt_maxAttempts = number_or (sx_maxAttempts x) 3,
      wt_availableAt = now, wt_worker = None, wt_heartbeatAt = None, wt_cost = 0,
      wt_idempotencyKey = rid @ '':'' @ sx_key x, wt_order = n\<rparr>"

text \<open>The CHECK and the UNIQUE constraints of \<open>workflow_steps\<close>, and its 32 bit integers.\<close>

definition step_conflict :: "wf_step \<Rightarrow> wf_step \<Rightarrow> bool" where
  "step_conflict s x \<longleftrightarrow>
     wt_id x = wt_id s \<or> wt_idempotencyKey x = wt_idempotencyKey s \<or>
     (wt_run x = wt_run s \<and> (wt_key x = wt_key s \<or> wt_order x = wt_order s))"

definition int4 :: "int \<Rightarrow> bool" where
  "int4 z \<longleftrightarrow> - (2 ^ 31) \<le> z \<and> z < 2 ^ 31"

definition insert_step :: "wf_step \<Rightarrow> wf_db \<Rightarrow> unit wf_result" where
  "insert_step s d =
     (if \<not> int4 (wt_timeoutMs s) \<or> \<not> int4 (wt_maxAttempts s) then (d, Inl out_of_range)
      else if wt_maxAttempts s < 1 \<or> 20 < wt_maxAttempts s then (d, Inl check_violation)
      else if list_ex (step_conflict s) (db_steps d) then (d, Inl unique_violation)
      else (d\<lparr>db_steps := db_steps d @ [s]\<rparr>, Inr ()))"

fun insert_steps :: "(nat \<Rightarrow> string) \<Rightarrow> string \<Rightarrow> js \<Rightarrow> nat \<Rightarrow> step_spec list \<Rightarrow> wf_db \<Rightarrow> unit wf_result" where
  "insert_steps U rid input n [] d = (d, Inr ())"
| "insert_steps U rid input n (x # xs) d =
     andThen (insert_step (new_step (U (db_fresh d)) (db_now d) rid input n x) (d\<lparr>db_fresh := Suc (db_fresh d)\<rparr>))
       (\<lambda>d1 _. insert_steps U rid input (Suc n) xs d1)"

text \<open>
  \<open>start\<close>: the trace id of the input, or sixteen random bytes; a command key that was used
  gives the run it started.
\<close>

definition insert_run :: "(nat \<Rightarrow> string) \<Rightarrow> string \<Rightarrow> js \<Rightarrow> string \<Rightarrow> wf_db \<Rightarrow> wf_run wf_result" where
  "insert_run U wid input key d =
     (let n = db_fresh d;
          trace = js_or (get_prop input ''traceId'') (JStr (U (Suc n)));
          r = new_run (U n) (db_now d) wid input key trace; d1 = d\<lparr>db_fresh := n + 2\<rparr>
      in if list_ex (\<lambda>x. wr_id x = wr_id r) (db_runs d) then (d1, Inl unique_violation)
         else (d1\<lparr>db_runs := db_runs d @ [r]\<rparr>, Inr r))"

definition start_run :: "(nat \<Rightarrow> string) \<Rightarrow> string \<Rightarrow> js \<Rightarrow> string \<Rightarrow> wf_db \<Rightarrow> wf_run wf_result" where
  "start_run U wid input key d =
     (if key = [] then (d, Inl (Error ''Workflow run command key is required''))
      else transaction (\<lambda>d.
        case find (\<lambda>w. wd_id w = wid \<and> wd_active w) (db_workflows d) of
          None \<Rightarrow> (d, Inl (Error ''Active workflow not found''))
        | Some w \<Rightarrow>
            (case find (\<lambda>r. wr_commandKey r = key) (db_runs d) of
               Some r \<Rightarrow>
                 if wr_workflow r \<noteq> wid then (d, Inl (Error ''Workflow command key reused for another workflow''))
                 else (d, Inr r)
             | None \<Rightarrow>
                 andThen (insert_run U wid input key d) (\<lambda>d1 r.
                 andThen (insert_steps U (wr_id r) input 0 (wd_steps w) d1) (\<lambda>d2 _. (d2, Inr r))))) d)"

section \<open>Steps\<close>

definition steps_of :: "wf_db \<Rightarrow> string \<Rightarrow> wf_step list" where
  "steps_of d rid = filter (\<lambda>s. wt_run s = rid) (db_steps d)"

text \<open>
  \<open>claimNext\<close>: the first step that is queued or waits for a retry, is due, and has no earlier
  step left to do. Its artifact is the output of the step before it when it is tried first.
\<close>

definition claimable :: "wf_db \<Rightarrow> wf_step \<Rightarrow> bool" where
  "claimable d s \<longleftrightarrow>
     (wt_status s = StQueued \<or> wt_status s = StRetryWait) \<and> wt_availableAt s \<le> db_now d \<and>
     \<not> list_ex (\<lambda>b. wt_order b < wt_order s \<and> wt_status b \<noteq> StSucceeded) (steps_of d (wt_run s))"

definition previous_output :: "wf_db \<Rightarrow> wf_step \<Rightarrow> js option" where
  "previous_output d s =
     (case rev (sort_key wt_order (filter (\<lambda>p. wt_order p < wt_order s) (steps_of d (wt_run s)))) of
        [] \<Rightarrow> None
      | p # _ \<Rightarrow> Some (wt_output p))"

definition artifact :: "wf_db \<Rightarrow> wf_step \<Rightarrow> js" where
  "artifact d s = (if 0 < wt_attempt s then wt_input s else or_else (previous_output d s) (wt_input s))"

definition claimed :: "int \<Rightarrow> string \<Rightarrow> js \<Rightarrow> wf_step \<Rightarrow> wf_step" where
  "claimed now worker a s =
     s\<lparr>wt_status := StRunning, wt_worker := Some worker, wt_heartbeatAt := Some now,
       wt_attempt := wt_attempt s + 1, wt_input := a\<rparr>"

definition claimNext :: "string \<Rightarrow> string \<Rightarrow> wf_db \<Rightarrow> wf_db \<times> wf_step option" where
  "claimNext rid worker d =
     (case sort_key wt_order (filter (claimable d) (steps_of d rid)) of
        [] \<Rightarrow> (d, None)
      | s # _ \<Rightarrow>
          let f = claimed (db_now d) worker (artifact d s)
          in (d\<lparr>db_steps := update_where (\<lambda>x. wt_id x = wt_id s) f (db_steps d)\<rparr>, Some (f s)))"

text \<open>\<open>WHERE id = $1 AND worker_id = $2 AND status = 'running'\<close>\<close>

definition owned :: "string \<Rightarrow> string \<Rightarrow> wf_step \<Rightarrow> bool" where
  "owned sid worker s \<longleftrightarrow> wt_id s = sid \<and> wt_worker s = Some worker \<and> wt_status s = StRunning"

definition update_steps :: "(wf_step \<Rightarrow> bool) \<Rightarrow> (wf_step \<Rightarrow> wf_step) \<Rightarrow> string \<Rightarrow> wf_db \<Rightarrow> wf_step wf_result" where
  "update_steps p f message d =
     (case find p (db_steps d) of
        None \<Rightarrow> (d, Inl (Error message))
      | Some s \<Rightarrow> (d\<lparr>db_steps := update_where p f (db_steps d)\<rparr>, Inr (f s)))"

definition ownedUpdate :: "string \<Rightarrow> string \<Rightarrow> (wf_step \<Rightarrow> wf_step) \<Rightarrow> wf_db \<Rightarrow> wf_step wf_result" where
  "ownedUpdate sid worker f = update_steps (owned sid worker) f ''Workflow step is not owned by this worker''"

definition heartbeat_step :: "string \<Rightarrow> string \<Rightarrow> wf_db \<Rightarrow> wf_step wf_result" where
  "heartbeat_step sid worker d = ownedUpdate sid worker (\<lambda>s. s\<lparr>wt_heartbeatAt := Some (db_now d)\<rparr>) d"

definition valid_cost :: "jsnum \<Rightarrow> bool" where
  "valid_cost cost = (case cost of Fin q \<Rightarrow> 0 \<le> q | _ \<Rightarrow> False)"

definition run_cost :: "wf_db \<Rightarrow> string \<Rightarrow> rat" where
  "run_cost d rid = sum_list (map wt_cost (steps_of d rid))"

definition succeeded :: "int \<Rightarrow> js \<Rightarrow> rat \<Rightarrow> wf_step \<Rightarrow> wf_step" where
  "succeeded now output cost s =
     s\<lparr>wt_status := StSucceeded, wt_output := stored output, wt_cost := cost, wt_worker := None,
       wt_heartbeatAt := Some now\<rparr>"

definition settle_run :: "int \<Rightarrow> rat \<Rightarrow> bool \<Rightarrow> js \<Rightarrow> wf_run \<Rightarrow> wf_run" where
  "settle_run now cost finished output r =
     (if finished
      then r\<lparr>wr_cost := cost, wr_status := RnSucceeded, wr_output := stored output, wr_finishedAt := Some now\<rparr>
      else r\<lparr>wr_cost := cost, wr_status := RnRunning\<rparr>)"

definition succeed_step :: "string \<Rightarrow> string \<Rightarrow> js \<Rightarrow> jsnum \<Rightarrow> wf_db \<Rightarrow> wf_step wf_result" where
  "succeed_step sid worker output cost d =
     (case cost of
        Fin q \<Rightarrow>
          if q < 0 then (d, Inl (Error ''Invalid step cost''))
          else transaction (\<lambda>d.
            case numeric_14_6 q of
              Inl e \<Rightarrow> (d, Inl e)
            | Inr c \<Rightarrow>
                andThen (ownedUpdate sid worker (succeeded (db_now d) output c) d) (\<lambda>d1 s.
                  let finished = list_all (\<lambda>x. wt_status x = StSucceeded) (steps_of d1 (wt_run s))
                  in case numeric_14_6 (run_cost d1 (wt_run s)) of
                       Inl e \<Rightarrow> (d1, Inl e)
                     | Inr tot \<Rightarrow>
                         (d1\<lparr>db_runs := update_where (\<lambda>r. wr_id r = wt_run s)
                              (settle_run (db_now d1) tot finished output) (db_runs d1)\<rparr>, Inr s))) d
      | _ \<Rightarrow> (d, Inl (Error ''Invalid step cost'')))"

definition failed :: "int \<Rightarrow> js \<Rightarrow> int \<Rightarrow> bool \<Rightarrow> wf_step \<Rightarrow> wf_step" where
  "failed now err delay terminal s =
     s\<lparr>wt_status := (if terminal \<or> wt_maxAttempts s \<le> wt_attempt s then StFailed else StRetryWait),
       wt_error := Some (json_image (or_object err)), wt_availableAt := now + delay, wt_worker := None\<rparr>"

definition end_run :: "int \<Rightarrow> run_status \<Rightarrow> wf_run \<Rightarrow> wf_run" where
  "end_run now st r = r\<lparr>wr_status := st, wr_finishedAt := Some now\<rparr>"

definition fail_step :: "string \<Rightarrow> string \<Rightarrow> js \<Rightarrow> int \<Rightarrow> bool \<Rightarrow> wf_db \<Rightarrow> wf_step wf_result" where
  "fail_step sid worker err delay terminal =
     transaction (\<lambda>d.
       andThen (ownedUpdate sid worker (failed (db_now d) err delay terminal) d) (\<lambda>d1 s.
         (if wt_status s = StFailed
          then d1\<lparr>db_runs := update_where (\<lambda>r. wr_id r = wt_run s) (end_run (db_now d1) RnFailed) (db_runs d1)\<rparr>
          else d1, Inr s)))"

definition block_step :: "string \<Rightarrow> string \<Rightarrow> js \<Rightarrow> js \<Rightarrow> wf_db \<Rightarrow> wf_step wf_result" where
  "block_step sid worker output reason d =
     ownedUpdate sid worker (\<lambda>s. s\<lparr>wt_status := StBlocked, wt_output := stored output,
       wt_error := Some (stored reason), wt_worker := None, wt_heartbeatAt := Some (db_now d)\<rparr>) d"

definition resumeBlocked :: "string \<Rightarrow> string \<Rightarrow> js \<Rightarrow> wf_db \<Rightarrow> wf_step wf_result" where
  "resumeBlocked rid key input d =
     update_steps (\<lambda>s. wt_run s = rid \<and> wt_key s = key \<and> wt_status s = StBlocked)
       (\<lambda>s. s\<lparr>wt_status := StQueued, wt_input := jsonb_concat (wt_output s) (stored input),
              wt_error := None, wt_availableAt := db_now d\<rparr>)
       ''Blocked workflow step not found'' d"

section \<open>Spans\<close>

definition startSpan :: "(nat \<Rightarrow> string) \<Rightarrow> wf_run \<Rightarrow> wf_step \<Rightarrow> js \<Rightarrow> wf_db \<Rightarrow> wf_span wf_result" where
  "startSpan U r s attributes d =
     (let p = \<lparr>wp_id = U (db_fresh d), wp_traceId = wr_traceId r, wp_run = wr_id r, wp_step = wt_id s,
               wp_name = wt_key s, wp_status = SpRunning, wp_startedAt = db_now d, wp_finishedAt = None,
               wp_attributes = json_image attributes, wp_error = None\<rparr>;
          d1 = d\<lparr>db_fresh := Suc (db_fresh d)\<rparr>
      in if list_ex (\<lambda>x. wp_id x = wp_id p) (db_spans d) then (d1, Inl unique_violation)
         else (d1\<lparr>db_spans := db_spans d @ [p]\<rparr>, Inr p))"

definition finishSpan :: "string \<Rightarrow> span_status \<Rightarrow> js \<Rightarrow> js \<Rightarrow> wf_db \<Rightarrow> wf_span wf_result" where
  "finishSpan spanId st attributes err d =
     (if st = SpRunning then (d, Inl (Error ''Invalid terminal span status''))
      else
        let p = (\<lambda>x. wp_id x = spanId \<and> wp_status x = SpRunning);
            f = (\<lambda>x. x\<lparr>wp_status := st, wp_attributes := jsonb_concat (wp_attributes x) (stored attributes),
                       wp_error := Some (json_image err), wp_finishedAt := Some (db_now d)\<rparr>)
        in case find p (db_spans d) of
             None \<Rightarrow> (d, Inl (Error ''Running workflow span not found''))
           | Some x \<Rightarrow> (d\<lparr>db_spans := update_where p f (db_spans d)\<rparr>, Inr (f x)))"

section \<open>Runs\<close>

definition cancel_run :: "string \<Rightarrow> wf_db \<Rightarrow> wf_run wf_result" where
  "cancel_run rid =
     transaction (\<lambda>d.
       let p = (\<lambda>r. wr_id r = rid \<and> wr_status r \<in> {RnQueued, RnRunning, RnPaused});
           f = end_run (db_now d) RnCancelled
       in case find p (db_runs d) of
            None \<Rightarrow> (d, Inl (Error ''Workflow run cannot be cancelled''))
          | Some r \<Rightarrow>
              (d\<lparr>db_runs := update_where p f (db_runs d),
                 db_steps := update_where (\<lambda>s. wt_run s = rid \<and> wt_status s \<in> {StQueued, StRunning, StRetryWait, StBlocked})
                   (\<lambda>s. s\<lparr>wt_status := StCancelled, wt_worker := None\<rparr>) (db_steps d)\<rparr>, Inr (f r)))"

definition stuck :: "int \<Rightarrow> wf_step \<Rightarrow> bool" where
  "stuck staleBefore s \<longleftrightarrow>
     wt_status s = StRunning \<and> (case wt_heartbeatAt s of Some h \<Rightarrow> h < staleBefore | None \<Rightarrow> False)"

definition WORKER_TIMEOUT :: js where
  "WORKER_TIMEOUT = JObj [(''code'', JStr ''WORKER_TIMEOUT'')]"

definition requeued :: "int \<Rightarrow> wf_step \<Rightarrow> wf_step" where
  "requeued now s =
     s\<lparr>wt_status := (if wt_attempt s < wt_maxAttempts s then StRetryWait else StFailed),
       wt_error := Some WORKER_TIMEOUT, wt_availableAt := now, wt_worker := None\<rparr>"

definition has_failed_step :: "wf_db \<Rightarrow> wf_run \<Rightarrow> bool" where
  "has_failed_step d r \<longleftrightarrow> wr_status r = RnRunning \<and> list_ex (\<lambda>s. wt_status s = StFailed) (steps_of d (wr_id r))"

definition requeueStuck :: "int \<Rightarrow> wf_db \<Rightarrow> wf_db \<times> wf_step list" where
  "requeueStuck staleBefore d =
     (let d1 = d\<lparr>db_steps := update_where (stuck staleBefore) (requeued (db_now d)) (db_steps d)\<rparr>
      in (d1\<lparr>db_runs := update_where (has_failed_step d1) (end_run (db_now d) RnFailed) (db_runs d)\<rparr>,
          map (requeued (db_now d)) (filter (stuck staleBefore) (db_steps d))))"

definition getRun :: "string \<Rightarrow> wf_db \<Rightarrow> (wf_run \<times> wf_step list \<times> wf_span list) option" where
  "getRun rid d =
     map_option (\<lambda>r. (r, sort_key wt_order (steps_of d rid),
         sort_key (\<lambda>p. (wp_startedAt p, wp_id p)) (filter (\<lambda>p. wp_run p = rid) (db_spans d))))
       (find (\<lambda>r. wr_id r = rid) (db_runs d))"

record run_summary =
  rm_run :: wf_run
  rm_workflow_name :: string
  rm_step_count :: nat
  rm_succeeded_steps :: nat
  rm_blocked_steps :: nat

definition run_summary_of :: "wf_db \<Rightarrow> workflow_row \<Rightarrow> wf_run \<Rightarrow> run_summary" where
  "run_summary_of d w r =
     (let ss = steps_of d (wr_id r)
      in \<lparr>rm_run = r, rm_workflow_name = wd_name w, rm_step_count = length ss,
          rm_succeeded_steps = length (filter (\<lambda>s. wt_status s = StSucceeded) ss),
          rm_blocked_steps = length (filter (\<lambda>s. wt_status s = StBlocked) ss)\<rparr>)"

definition listRuns :: "string \<Rightarrow> int \<Rightarrow> wf_db \<Rightarrow> run_summary list" where
  "listRuns brand limit d =
     take (nat (min (max limit 1) 100))
       (rev (sort_key (\<lambda>m. (wr_createdAt (rm_run m), wr_id (rm_run m)))
         (concat (map (\<lambda>r. map (\<lambda>w. run_summary_of d w r)
            (filter (\<lambda>w. wd_id w = wr_workflow r \<and> wd_brand w = brand) (db_workflows d))) (db_runs d)))))"

end
