(* ===== verification/WorkflowRunner.thy ===== *)
theory WorkflowRunner
  imports Workflow
begin

text \<open>
  \<open>FactoryWorkflowRunner\<close> of \<open>packages/zeto/src/domain/factoryWorkflow.js\<close> and the system it
  runs in. A runner is a loop whose body awaits the repository five times; between two awaits
  any other request may be served, so a runner is modelled by the point it has reached
  (\<open>phase\<close>) and one move of it is the code up to the next await. A handler is a function of
  the clock, the run, the step and the tables \<open>'x\<close> it works on; it is one move.
\<close>

type_synonym 'x handler = "int \<Rightarrow> wf_run \<Rightarrow> wf_step \<Rightarrow> ('x \<Rightarrow> ('x, thrown, js) outcome)"
type_synonym 'x handlers = "string \<Rightarrow> 'x handler option"

record 'x factory =
  fa_db :: wf_db
  fa_ext :: 'x

section \<open>One move of a runner\<close>

text \<open>What is left to do with a step: block it, finish it with an output, or fail it.\<close>

datatype verdict = VBlock js js | VSucceed js | VFail thrown

datatype phase =
    AtHead string
  | AtClaim wf_run
  | AtTrace wf_run wf_step
  | AtHandler wf_run wf_step string
  | AtCommit wf_run wf_step string verdict
  | AtClose wf_run wf_step string verdict
  | Returned string
  | Crashed thrown

definition verdict_of :: "(thrown, js) result \<Rightarrow> verdict" where
  "verdict_of r =
     (case r of
        Inl e \<Rightarrow> VFail e
      | Inr out \<Rightarrow>
          if truthy (get_prop out ''blocked'') then VBlock (get_prop out ''output'') (get_prop out ''reason'')
          else VSucceed out)"

definition retryable :: "thrown \<Rightarrow> bool" where
  "retryable e \<longleftrightarrow> th_retryable e \<noteq> JBool False"

definition detail :: "thrown \<Rightarrow> js" where
  "detail e = JObj [(''code'', js_or (th_code e) (JStr ''STEP_FAILED'')), (''message'', JStr (th_message e)),
                    (''retryable'', JBool (retryable e))]"

text \<open>\<open>Number(output?.stepCost || 0)\<close>\<close>

definition step_cost :: "js \<Rightarrow> jsnum" where
  "step_cost out = js_number (js_or (get_prop out ''stepCost'') (JNum (Fin 0)))"

definition ENDED :: "run_status list" where
  "ENDED = [RnSucceeded, RnFailed, RnCancelled]"

definition look :: "string \<Rightarrow> 'x factory \<Rightarrow> phase" where
  "look rid w =
     (case find (\<lambda>r. wr_id r = rid) (db_runs (fa_db w)) of
        None \<Rightarrow> Crashed (Error ''Workflow run not found'')
      | Some r \<Rightarrow> if wr_status r \<in> set ENDED then Returned rid else AtClaim r)"

definition claim :: "string \<Rightarrow> wf_run \<Rightarrow> 'x factory \<Rightarrow> 'x factory \<times> phase" where
  "claim worker r w =
     (case claimNext (wr_id r) worker (fa_db w) of
        (d, None) \<Rightarrow> (w\<lparr>fa_db := d\<rparr>, Returned (wr_id r))
      | (d, Some s) \<Rightarrow> (w\<lparr>fa_db := d\<rparr>, AtTrace r s))"

text \<open>The span is opened outside of the \<open>try\<close>.\<close>

definition trace_step :: "(nat \<Rightarrow> string) \<Rightarrow> wf_run \<Rightarrow> wf_step \<Rightarrow> 'x factory \<Rightarrow> 'x factory \<times> phase" where
  "trace_step U r s w =
     (case startSpan U r s (JObj [(''attempt'', JNum (Fin (of_int (wt_attempt s))))]) (fa_db w) of
        (d, Inl e) \<Rightarrow> (w\<lparr>fa_db := d\<rparr>, Crashed e)
      | (d, Inr p) \<Rightarrow> (w\<lparr>fa_db := d\<rparr>, AtHandler r s (wp_id p)))"

definition handle :: "'x handlers \<Rightarrow> wf_run \<Rightarrow> wf_step \<Rightarrow> string \<Rightarrow> 'x factory \<Rightarrow> 'x factory \<times> phase" where
  "handle H r s spid w =
     (case H (wt_key s) of
        None \<Rightarrow> (w, AtCommit r s spid (VFail (Error (''No handler for '' @ wt_key s))))
      | Some h \<Rightarrow>
          (case h (db_now (fa_db w)) r s (fa_ext w) of
             (x, res) \<Rightarrow> (w\<lparr>fa_ext := x\<rparr>, AtCommit r s spid (verdict_of res))))"

text \<open>A throw while a verdict is written goes to the \<open>catch\<close>; a throw of the \<open>catch\<close> leaves the loop.\<close>

definition commit :: "string \<Rightarrow> wf_run \<Rightarrow> wf_step \<Rightarrow> string \<Rightarrow> verdict \<Rightarrow> 'x factory \<Rightarrow> 'x factory \<times> phase" where
  "commit worker r s spid v w =
     (case v of
        VBlock out reason \<Rightarrow>
          (case block_step (wt_id s) worker out reason (fa_db w) of
             (d, Inl e) \<Rightarrow> (w\<lparr>fa_db := d\<rparr>, AtCommit r s spid (VFail e))
           | (d, Inr _) \<Rightarrow> (w\<lparr>fa_db := d\<rparr>, AtClose r s spid v))
      | VSucceed out \<Rightarrow>
          (case succeed_step (wt_id s) worker out (step_cost out) (fa_db w) of
             (d, Inl e) \<Rightarrow> (w\<lparr>fa_db := d\<rparr>, AtCommit r s spid (VFail e))
           | (d, Inr _) \<Rightarrow> (w\<lparr>fa_db := d\<rparr>, AtClose r s spid v))
      | VFail e \<Rightarrow>
          (case fail_step (wt_id s) worker (detail e) (if retryable e then 1000 else 0) (\<not> retryable e) (fa_db w) of
             (d, Inl e') \<Rightarrow> (w\<lparr>fa_db := d\<rparr>, Crashed e')
           | (d, Inr _) \<Rightarrow> (w\<lparr>fa_db := d\<rparr>, AtClose r s spid v)))"

definition close :: "wf_run \<Rightarrow> wf_step \<Rightarrow> string \<Rightarrow> verdict \<Rightarrow> 'x factory \<Rightarrow> 'x factory \<times> phase" where
  "close r s spid v w =
     (case v of
        VBlock out reason \<Rightarrow>
          (case finishSpan spid SpBlocked (JObj [(''code'', get_prop reason ''code'')]) JNull (fa_db w) of
             (d, Inl e) \<Rightarrow> (w\<lparr>fa_db := d\<rparr>, AtCommit r s spid (VFail e))
           | (d, Inr _) \<Rightarrow> (w\<lparr>fa_db := d\<rparr>, Returned (wr_id r)))
      | VSucceed out \<Rightarrow>
          (case finishSpan spid SpSucceeded JUndef JNull (fa_db w) of
             (d, Inl e) \<Rightarrow> (w\<lparr>fa_db := d\<rparr>, AtCommit r s spid (VFail e))
           | (d, Inr _) \<Rightarrow> (w\<lparr>fa_db := d\<rparr>, AtHead (wr_id r)))
      | VFail e \<Rightarrow>
          (case finishSpan spid SpFailed JUndef (detail e) (fa_db w) of
             (d, Inl e') \<Rightarrow> (w\<lparr>fa_db := d\<rparr>, Crashed e')
           | (d, Inr _) \<Rightarrow> (w\<lparr>fa_db := d\<rparr>, if retryable e then AtHead (wr_id r) else Returned (wr_id r))))"

definition runner_move ::
  "(nat \<Rightarrow> string) \<Rightarrow> 'x handlers \<Rightarrow> string \<Rightarrow> phase \<Rightarrow> 'x factory \<Rightarrow> 'x factory \<times> phase" where
  "runner_move U H worker p w =
     (case p of
        AtHead rid \<Rightarrow> (w, look rid w)
      | AtClaim r \<Rightarrow> claim worker r w
      | AtTrace r s \<Rightarrow> trace_step U r s w
      | AtHandler r s spid \<Rightarrow> handle H r s spid w
      | AtCommit r s spid v \<Rightarrow> commit worker r s spid v w
      | AtClose r s spid v \<Rightarrow> close r s spid v w
      | Returned rid \<Rightarrow> (w, p)
      | Crashed e \<Rightarrow> (w, p))"

definition done_phase :: "phase \<Rightarrow> bool" where
  "done_phase p \<longleftrightarrow> (case p of Returned _ \<Rightarrow> True | Crashed _ \<Rightarrow> True | _ \<Rightarrow> False)"

text \<open>\<open>run(runId)\<close> with no other request in between: the loop, as long as fuel lasts.\<close>

fun run_alone ::
  "(nat \<Rightarrow> string) \<Rightarrow> 'x handlers \<Rightarrow> string \<Rightarrow> nat \<Rightarrow> phase \<Rightarrow> 'x factory \<Rightarrow> ('x factory \<times> phase) option" where
  "run_alone U H worker n p w =
     (if done_phase p then Some (w, p)
      else case n of
        0 \<Rightarrow> None
      | Suc m \<Rightarrow> (case runner_move U H worker p w of (w', p') \<Rightarrow> run_alone U H worker m p' w'))"

declare run_alone.simps [simp del]

section \<open>The system\<close>

text \<open>
  What may happen: a definition is created, a run is started (with a runner when the factory
  service starts it), a blocked step is resumed by an approval (which starts a runner), a run is
  cancelled, stuck steps are queued again, a step reports a heartbeat, time passes, a runner
  moves. The routes accept objects only as input of a run.
\<close>

datatype wf_event =
    Define string string "step_spec list"
  | Start string "(string \<times> js) list" string bool
  | Resume string string "(string \<times> js) list"
  | Cancel string
  | Requeue int
  | Beat string
  | Wait int
  | Move nat

record 'x system =
  sy_world :: "'x factory"
  sy_runners :: "phase list"

definition with_db :: "wf_db \<Rightarrow> 'x system \<Rightarrow> 'x system" where
  "with_db d s = s\<lparr>sy_world := (sy_world s)\<lparr>fa_db := d\<rparr>\<rparr>"

abbreviation sy_db :: "'x system \<Rightarrow> wf_db" where
  "sy_db s \<equiv> fa_db (sy_world s)"

definition spawn :: "string \<Rightarrow> 'x system \<Rightarrow> 'x system" where
  "spawn rid s = s\<lparr>sy_runners := sy_runners s @ [AtHead rid]\<rparr>"

definition serve ::
  "(nat \<Rightarrow> string) \<Rightarrow> 'x handlers \<Rightarrow> string \<Rightarrow> wf_event \<Rightarrow> 'x system \<Rightarrow> 'x system" where
  "serve U H worker e s =
     (case e of
        Define brand name specs \<Rightarrow> with_db (fst (createDefinition U brand name specs (sy_db s))) s
      | Start wid body key run \<Rightarrow>
          (case start_run U wid (JObj body) key (sy_db s) of
             (d, Inl _) \<Rightarrow> with_db d s
           | (d, Inr r) \<Rightarrow> if run then spawn (wr_id r) (with_db d s) else with_db d s)
      | Resume rid key body \<Rightarrow>
          (case resumeBlocked rid key (JObj body) (sy_db s) of
             (d, Inl _) \<Rightarrow> with_db d s
           | (d, Inr _) \<Rightarrow> spawn rid (with_db d s))
      | Cancel rid \<Rightarrow> with_db (fst (cancel_run rid (sy_db s))) s
      | Requeue staleBefore \<Rightarrow> with_db (fst (requeueStuck staleBefore (sy_db s))) s
      | Beat sid \<Rightarrow> with_db (fst (heartbeat_step sid worker (sy_db s))) s
      | Wait ms \<Rightarrow> with_db ((sy_db s)\<lparr>db_now := db_now (sy_db s) + \<bar>ms\<bar>\<rparr>) s
      | Move i \<Rightarrow>
          if i < length (sy_runners s)
          then (case runner_move U H worker (sy_runners s ! i) (sy_world s) of
                  (w, p) \<Rightarrow> \<lparr>sy_world = w, sy_runners = (sy_runners s)[i := p]\<rparr>)
          else s)"

definition boot :: "int \<Rightarrow> 'x \<Rightarrow> 'x system" where
  "boot now x = \<lparr>sy_world = \<lparr>fa_db = empty_db now, fa_ext = x\<rparr>, sy_runners = []\<rparr>"

text \<open>The states after the events \<open>es\<close>, the last one first, from empty tables.\<close>

inductive history ::
  "(nat \<Rightarrow> string) \<Rightarrow> 'x handlers \<Rightarrow> string \<Rightarrow> 'x \<Rightarrow> wf_event list \<Rightarrow> 'x system \<Rightarrow> bool"
  for U H worker x0 where
  init: "history U H worker x0 [] (boot now x0)"
| step: "history U H worker x0 es s \<Longrightarrow> history U H worker x0 (e # es) (serve U H worker e s)"

inductive_cases history_cases: "history U H worker x0 (e # es) s"

end
