(* ===== verification/WorkflowProperties.thy ===== *)
theory WorkflowProperties
  imports WorkflowRunner
begin

text \<open>
  The invariant of the workflow tables (\<open>wf_ok\<close>): the steps of a run form a pipeline, and
  status and cost of a run are what its steps say. Every operation of the repository and so
  every event of the system keeps it; \<open>*_cases\<close> say what an operation can have done.
\<close>

section \<open>A run as a pipeline\<close>

text \<open>
  The steps of a run in order: those before the current one have succeeded, those after it
  were never tried, and they are cancelled exactly when the current one is.
\<close>

definition untried :: "wf_step \<Rightarrow> bool" where
  "untried s \<longleftrightarrow> wt_attempt s = 0 \<and> (wt_status s = StQueued \<or> wt_status s = StCancelled)"

definition same_fate :: "wf_step \<Rightarrow> wf_step \<Rightarrow> bool" where
  "same_fate s t \<longleftrightarrow> untried t \<and> (wt_status t = StCancelled \<longleftrightarrow> wt_status s = StCancelled)"

fun pipeline :: "wf_step list \<Rightarrow> bool" where
  "pipeline [] = True"
| "pipeline (s # ss) = (if wt_status s = StSucceeded then pipeline ss else list_all (same_fate s) ss)"

text \<open>What the steps say of their run.\<close>

fun pipeline_status :: "wf_step list \<Rightarrow> run_status" where
  "pipeline_status [] = RnSucceeded"
| "pipeline_status (s # ss) =
     (case wt_status s of
        StSucceeded \<Rightarrow> pipeline_status ss
      | StFailed \<Rightarrow> RnFailed
      | StCancelled \<Rightarrow> RnCancelled
      | _ \<Rightarrow> RnRunning)"

definition whole_micros :: "rat \<Rightarrow> bool" where
  "whole_micros q \<longleftrightarrow> of_int (micros q) = q * 1000000"

definition step_ok :: "wf_step \<Rightarrow> bool" where
  "step_ok s \<longleftrightarrow>
     0 \<le> wt_attempt s \<and> (wt_attempt s = 0 \<longrightarrow> untried s) \<and>
     (wt_worker s \<noteq> None \<longleftrightarrow> wt_status s = StRunning) \<and>
     (wt_status s = StRetryWait \<longrightarrow> wt_attempt s < wt_maxAttempts s) \<and>
     (wt_status s \<noteq> StSucceeded \<longrightarrow> wt_cost s = 0) \<and> 0 \<le> wt_cost s \<and> whole_micros (wt_cost s) \<and>
     1 \<le> wt_maxAttempts s \<and> wt_maxAttempts s \<le> 20"

definition line_ok :: "wf_step list \<Rightarrow> bool" where
  "line_ok L \<longleftrightarrow>
     L \<noteq> [] \<and> pipeline L \<and> list_all step_ok L \<and> map wt_order L = [0..<length L] \<and> distinct (map wt_key L)"

definition run_ok :: "wf_step list \<Rightarrow> wf_run \<Rightarrow> bool" where
  "run_ok L r \<longleftrightarrow> line_ok L \<and> wr_status r = pipeline_status L \<and> wr_cost r = sum_list (map wt_cost L)"

definition wf_ok :: "wf_db \<Rightarrow> bool" where
  "wf_ok d \<longleftrightarrow>
     distinct (map wr_id (db_runs d)) \<and> distinct (map wr_commandKey (db_runs d)) \<and>
     distinct (map wt_id (db_steps d)) \<and>
     (\<forall>s\<in>set (db_steps d). wt_run s \<in> wr_id ` set (db_runs d)) \<and>
     (\<forall>r\<in>set (db_runs d). run_ok (steps_of d (wr_id r)) r) \<and>
     (\<forall>w\<in>set (db_workflows d). wd_steps w \<noteq> [] \<and> distinct (map sx_key (wd_steps w)))"

abbreviation all_succeeded :: "wf_step list \<Rightarrow> bool" where
  "all_succeeded \<equiv> list_all (\<lambda>s. wt_status s = StSucceeded)"

lemma pipeline_append [simp]: "all_succeeded as \<Longrightarrow> pipeline (as @ ss) = pipeline ss"
  by (induction as) simp_all

lemma pipeline_status_append [simp]: "all_succeeded as \<Longrightarrow> pipeline_status (as @ ss) = pipeline_status ss"
  by (induction as) simp_all

lemma pipeline_untried: "list_all untried ss \<Longrightarrow> list_all (\<lambda>s. wt_status s \<noteq> StCancelled) ss \<Longrightarrow> pipeline ss"
  by (cases ss) (auto simp: list_all_iff same_fate_def untried_def)

lemma pipeline_succeeded_iff: "pipeline_status ss = RnSucceeded \<longleftrightarrow> all_succeeded ss"
  by (induction ss) (simp_all split: step_status.split)

text \<open>Where a step that was tried stands.\<close>

lemma pipeline_split:
  assumes "pipeline L" and "s \<in> set L" and "wt_status s \<noteq> StSucceeded" and "\<not> untried s"
  obtains as bs where "L = as @ s # bs" and "all_succeeded as" and "list_all (same_fate s) bs"
proof -
  have "\<exists>as bs. L = as @ s # bs \<and> all_succeeded as \<and> list_all (same_fate s) bs"
    using assms
  proof (induction L)
    case (Cons t L)
    show ?case
    proof (cases "wt_status t = StSucceeded")
      case True
      with Cons obtain as bs where "L = as @ s # bs" "all_succeeded as" "list_all (same_fate s) bs" by auto
      with True have "t # L = (t # as) @ s # bs \<and> all_succeeded (t # as) \<and> list_all (same_fate s) bs" by simp
      then show ?thesis by blast
    next
      case False
      with Cons.prems have "s = t" by (auto simp: list_all_iff same_fate_def)
      with False Cons.prems(1) have "t # L = [] @ s # L \<and> all_succeeded [] \<and> list_all (same_fate s) L" by simp
      then show ?thesis by blast
    qed
  qed simp
  then show ?thesis using that by blast
qed

text \<open>The same for a step whose predecessors have all succeeded.\<close>

lemma order_split:
  assumes "map wt_order L = [0..<length L]" and "s \<in> set L"
    and "\<forall>b\<in>set L. wt_order b < wt_order s \<longrightarrow> wt_status b = StSucceeded"
  obtains as bs where "L = as @ s # bs" and "all_succeeded as" and "length as = wt_order s"
proof -
  from assms(2) obtain as bs where L: "L = as @ s # bs" by (auto simp: in_set_conv_decomp)
  have n: "wt_order (L ! i) = i" if "i < length L" for i
    using assms(1) that by (metis add_0 length_map nth_map nth_upt)
  have s: "wt_order s = length as" using n [of "length as"] by (simp add: L nth_append)
  have "wt_status (as ! i) = StSucceeded" if "i < length as" for i
  proof -
    have "L ! i = as ! i" using that by (simp add: L nth_append)
    with n [of i] that s have "wt_order (as ! i) < wt_order s" by (simp add: L)
    with that assms(3) show ?thesis by (simp add: L)
  qed
  then have "all_succeeded as" by (simp add: list_all_length)
  with L s show ?thesis using that by simp
qed

text \<open>The current step is replaced by another state of it.\<close>

definition same_place :: "wf_step \<Rightarrow> wf_step \<Rightarrow> bool" where
  "same_place s t \<longleftrightarrow> wt_id t = wt_id s \<and> wt_run t = wt_run s \<and> wt_key t = wt_key s \<and> wt_order t = wt_order s"

lemma line_replace:
  assumes "line_ok (as @ s # bs)" and "all_succeeded as" and "wt_status s \<noteq> StSucceeded"
    and "wt_status s \<noteq> StCancelled" and "wt_status t \<noteq> StCancelled" and "step_ok t" and "same_place s t"
  shows "line_ok (as @ t # bs)"
    and "pipeline_status (as @ t # bs) =
      (case wt_status t of StSucceeded \<Rightarrow> if bs = [] then RnSucceeded else RnRunning
       | StFailed \<Rightarrow> RnFailed | _ \<Rightarrow> RnRunning)"
    and "all_succeeded (as @ t # bs) \<longleftrightarrow> wt_status t = StSucceeded \<and> bs = []"
proof -
  from assms have bs: "list_all untried bs" "list_all (\<lambda>s. wt_status s \<noteq> StCancelled) bs"
    by (simp_all add: line_ok_def list_all_iff same_fate_def)
  have "list_all (same_fate t) bs" using bs assms(5) by (simp add: list_all_iff same_fate_def)
  with bs have "pipeline (t # bs)" by (simp add: pipeline_untried)
  moreover have "map wt_order (as @ t # bs) = map wt_order (as @ s # bs)"
    and "map wt_key (as @ t # bs) = map wt_key (as @ s # bs)" using assms(7) by (simp_all add: same_place_def)
  ultimately show "line_ok (as @ t # bs)" using assms(1,2,6) unfolding line_ok_def by simp
  show "pipeline_status (as @ t # bs) =
      (case wt_status t of StSucceeded \<Rightarrow> if bs = [] then RnSucceeded else RnRunning
       | StFailed \<Rightarrow> RnFailed | _ \<Rightarrow> RnRunning)"
    using bs assms(2,5) by (cases bs) (auto simp: untried_def split: step_status.split)
  show "all_succeeded (as @ t # bs) \<longleftrightarrow> wt_status t = StSucceeded \<and> bs = []"
    using bs assms(2) by (cases bs) (auto simp: untried_def)
qed

text \<open>Amounts with six decimals add up without rounding.\<close>

lemma whole_micros_of_int: "whole_micros (of_int z / 1000000)"
proof -
  have "\<lfloor>1 / 2 :: rat\<rfloor> = 0" by (rule floor_unique) simp_all
  then show ?thesis by (simp add: whole_micros_def micros_def)
qed

lemma whole_micros_zero [simp]: "whole_micros 0"
  using whole_micros_of_int [of 0] by simp

lemma whole_micros_iff: "whole_micros q \<longleftrightarrow> (\<exists>z. q = of_int z / 1000000)"
proof
  assume "whole_micros q"
  then have "q = of_int (micros q) / 1000000" by (simp add: whole_micros_def)
  then show "\<exists>z. q = of_int z / 1000000" ..
qed (use whole_micros_of_int in blast)

lemma whole_micros_add: "whole_micros a \<Longrightarrow> whole_micros b \<Longrightarrow> whole_micros (a + b)"
  unfolding whole_micros_iff by (metis add_divide_distrib of_int_add)

lemma whole_micros_sum: "list_all (\<lambda>s. whole_micros (wt_cost s)) L \<Longrightarrow> whole_micros (sum_list (map wt_cost L))"
  by (induction L) (simp_all add: whole_micros_add)

lemma numeric_whole: "whole_micros q \<Longrightarrow> numeric_14_6 q = Inr c \<Longrightarrow> c = q"
  by (auto simp: numeric_14_6_def whole_micros_def split: if_splits)

lemma numeric_14_6_Inr: "numeric_14_6 q = Inr c \<Longrightarrow> whole_micros c \<and> (0 \<le> q \<longrightarrow> 0 \<le> c)"
proof -
  assume "numeric_14_6 q = Inr c"
  then have c: "c = of_int (micros q) / 1000000" by (simp add: numeric_14_6_def split: if_splits)
  have "0 \<le> micros q" if "0 \<le> q"
    using that by (simp add: micros_def)
  then show ?thesis by (simp add: c whole_micros_of_int)
qed

section \<open>Changing one step of a run\<close>

definition active :: "wf_step \<Rightarrow> bool" where
  "active s \<longleftrightarrow> wt_status s = StQueued \<or> wt_status s = StRunning \<or> wt_status s = StRetryWait \<or> wt_status s = StBlocked"

lemma update_where_cong:
  "(\<And>x. x \<in> set rows \<Longrightarrow> p x = q x) \<Longrightarrow> (\<And>x. x \<in> set rows \<Longrightarrow> p x \<Longrightarrow> f x = g x) \<Longrightarrow>
   update_where p f rows = update_where q g rows"
  by (simp add: update_where_def)

lemma update_where_none: "(\<And>x. x \<in> set rows \<Longrightarrow> \<not> p x) \<Longrightarrow> update_where p f rows = rows"
  by (induction rows) (simp_all add: update_where_def)

lemma filter_update_where:
  "(\<And>x. p x \<Longrightarrow> q (f x) = q x) \<Longrightarrow> filter q (update_where p f rows) = update_where p f (filter q rows)"
  by (induction rows) (auto simp: update_where_def)

lemma update_where_append [simp]: "update_where p f (xs @ ys) = update_where p f xs @ update_where p f ys"
  "update_where p f (x # xs) = (if p x then f x else x) # update_where p f xs"
  "update_where p f [] = []"
  by (simp_all add: update_where_def)

lemma steps_of_update:
  assumes "\<And>x. p x \<Longrightarrow> wt_run (f x) = wt_run x"
  shows "steps_of (d\<lparr>db_steps := update_where p f (db_steps d)\<rparr>) rid = update_where p f (steps_of d rid)"
  using assms by (simp add: steps_of_def filter_update_where)

lemma steps_of_indep [simp]:
  "steps_of (d\<lparr>db_runs := x\<rparr>) rid = steps_of d rid" "steps_of (d\<lparr>db_spans := y\<rparr>) rid = steps_of d rid"
  "steps_of (d\<lparr>db_fresh := n\<rparr>) rid = steps_of d rid" "steps_of (d\<lparr>db_now := t\<rparr>) rid = steps_of d rid"
  "steps_of (d\<lparr>db_workflows := z\<rparr>) rid = steps_of d rid"
  by (simp_all add: steps_of_def)

lemma in_steps_of [simp]: "s \<in> set (steps_of d rid) \<longleftrightarrow> s \<in> set (db_steps d) \<and> wt_run s = rid"
  by (auto simp: steps_of_def)

lemma unique_step:
  "wf_ok d \<Longrightarrow> x \<in> set (db_steps d) \<Longrightarrow> y \<in> set (db_steps d) \<Longrightarrow> wt_id x = wt_id y \<Longrightarrow> x = y"
  unfolding wf_ok_def distinct_map by (metis inj_onD)

lemma unique_run:
  "wf_ok d \<Longrightarrow> x \<in> set (db_runs d) \<Longrightarrow> y \<in> set (db_runs d) \<Longrightarrow> wr_id x = wr_id y \<Longrightarrow> x = y"
  unfolding wf_ok_def distinct_map by (metis inj_onD)

lemma run_of_step:
  assumes "wf_ok d" and "s \<in> set (db_steps d)"
  obtains r where "r \<in> set (db_runs d)" and "wr_id r = wt_run s" and "run_ok (steps_of d (wt_run s)) r"
  using assms unfolding wf_ok_def by (metis image_iff)

text \<open>A step that is due or was tried splits its run.\<close>

definition stands :: "wf_db \<Rightarrow> wf_step \<Rightarrow> bool" where
  "stands d s \<longleftrightarrow> \<not> untried s \<or> (\<forall>b\<in>set (steps_of d (wt_run s)). wt_order b < wt_order s \<longrightarrow> wt_status b = StSucceeded)"

lemma stands_split:
  assumes "wf_ok d" and "s \<in> set (db_steps d)" and "wt_status s \<noteq> StSucceeded" and "stands d s"
  obtains as bs where "steps_of d (wt_run s) = as @ s # bs" and "all_succeeded as"
proof -
  obtain r where r: "run_ok (steps_of d (wt_run s)) r" using run_of_step assms(1,2) by blast
  then have L: "pipeline (steps_of d (wt_run s))" "map wt_order (steps_of d (wt_run s)) = [0..<length (steps_of d (wt_run s))]"
    by (simp_all add: run_ok_def line_ok_def)
  have s: "s \<in> set (steps_of d (wt_run s))" using assms(2) by simp
  show ?thesis
  proof (cases "untried s")
    case True
    with assms(4) have "\<forall>b\<in>set (steps_of d (wt_run s)). wt_order b < wt_order s \<longrightarrow> wt_status b = StSucceeded"
      by (simp add: stands_def)
    then show ?thesis using order_split [OF L(2) s] that by blast
  next
    case False
    then show ?thesis using pipeline_split [OF L(1) s assms(3)] that by blast
  qed
qed

lemma replaced_steps:
  assumes ok: "wf_ok d" and s: "s \<in> set (db_steps d)" and split: "steps_of d (wt_run s) = as @ s # bs"
    and t: "same_place s t" and d': "db_steps d' = update_where (\<lambda>x. wt_id x = wt_id s) (\<lambda>_. t) (db_steps d)"
  shows "steps_of d' rid = (if rid = wt_run s then as @ t # bs else steps_of d rid)"
proof -
  let ?p = "\<lambda>x. wt_id x = wt_id s"
  have mem: "x = s" if "x \<in> set (db_steps d)" "?p x" for x using unique_step [OF ok that(1) s] that(2) by simp
  have "update_where ?p (\<lambda>_. t) (db_steps d) = update_where ?p (\<lambda>x. t\<lparr>wt_run := wt_run x\<rparr>) (db_steps d)"
  proof (rule update_where_cong)
    fix x assume "x \<in> set (db_steps d)" "?p x"
    then have "x = s" by (rule mem)
    then have "wt_run x = wt_run t" using t by (simp add: same_place_def)
    then show "t = t\<lparr>wt_run := wt_run x\<rparr>" by simp
  qed simp
  then have st: "steps_of d' rid = update_where ?p (\<lambda>x. t\<lparr>wt_run := wt_run x\<rparr>) (steps_of d rid)"
    by (simp add: steps_of_def d' filter_update_where)
  show ?thesis
  proof (cases "rid = wt_run s")
    case True
    have "distinct (map wt_id (steps_of d (wt_run s)))"
      using ok by (simp add: wf_ok_def steps_of_def distinct_map_filter)
    then have "x \<in> set as \<union> set bs \<Longrightarrow> \<not> ?p x" for x using split by (force simp: image_iff)
    then have "update_where ?p (\<lambda>x. t\<lparr>wt_run := wt_run x\<rparr>) as = as"
      and "update_where ?p (\<lambda>x. t\<lparr>wt_run := wt_run x\<rparr>) bs = bs" by (auto intro!: update_where_none)
    moreover have "wt_run s = wt_run t" using t by (simp add: same_place_def)
    then have "t\<lparr>wt_run := wt_run s\<rparr> = t" by simp
    ultimately show ?thesis by (simp add: st [unfolded True] split True)
  next
    case False
    then have "update_where ?p (\<lambda>x. t\<lparr>wt_run := wt_run x\<rparr>) (steps_of d rid) = steps_of d rid"
      by (intro update_where_none) (use mem in auto)
    with False show ?thesis by (simp add: st)
  qed
qed

lemma run_status_active:
  "line_ok (as @ s # bs) \<Longrightarrow> all_succeeded as \<Longrightarrow> active s \<Longrightarrow> pipeline_status (as @ s # bs) = RnRunning"
  by (auto simp: active_def)

lemma wf_ok_replace:
  assumes ok: "wf_ok d" and s: "s \<in> set (db_steps d)"
    and split: "steps_of d (wt_run s) = as @ s # bs" and t: "same_place s t"
    and steps: "db_steps d' = update_where (\<lambda>x. wt_id x = wt_id s) (\<lambda>_. t) (db_steps d)"
    and runs: "db_runs d' = update_where (\<lambda>r. wr_id r = wt_run s) g (db_runs d)"
    and wd: "db_workflows d' = db_workflows d"
    and g: "\<And>r. wr_id (g r) = wr_id r \<and> wr_commandKey (g r) = wr_commandKey r"
    and r: "\<And>r. run_ok (as @ s # bs) r \<Longrightarrow> run_ok (as @ t # bs) (g r)"
  shows "wf_ok d'"
proof -
  note new = replaced_steps [OF ok s split t steps]
  have ids: "map wr_id (db_runs d') = map wr_id (db_runs d)" "map wr_commandKey (db_runs d') = map wr_commandKey (db_runs d)"
    unfolding runs by (rule map_update_where; simp add: g)+
  have sids: "map wt_id (db_steps d') = map wt_id (db_steps d)"
    unfolding steps by (rule map_update_where) (use t in \<open>simp add: same_place_def\<close>)
  have ids': "wr_id ` set (db_runs d') = wr_id ` set (db_runs d)" using ids(1) by (metis list.set_map)
  have "run_ok (steps_of d' (wr_id r')) r'" if r': "r' \<in> set (db_runs d')" for r'
  proof -
    from r' obtain r0 where r0: "r0 \<in> set (db_runs d)" "r' = (if wr_id r0 = wt_run s then g r0 else r0)"
      unfolding runs set_update_where by auto
    have rk: "run_ok (steps_of d (wr_id r0)) r0" using ok r0(1) by (simp add: wf_ok_def)
    show ?thesis
    proof (cases "wr_id r0 = wt_run s")
      case True
      with rk split r g new [of "wt_run s"] r0(2) show ?thesis by simp
    next
      case False
      with r0 rk new show ?thesis by simp
    qed
  qed
  moreover have "wt_run x \<in> wr_id ` set (db_runs d')" if "x \<in> set (db_steps d')" for x
    using that ok t s unfolding steps set_update_where ids' by (auto simp: wf_ok_def same_place_def split: if_splits)
  ultimately show ?thesis using ok unfolding wf_ok_def ids sids wd by blast
qed

text \<open>The step stays active: the run is not touched.\<close>

lemma wf_ok_replace_active:
  assumes ok: "wf_ok d" and s: "s \<in> set (db_steps d)" and act: "active s" and st: "stands d s"
    and t: "step_ok t" "same_place s t" "active t"
    and steps: "db_steps d' = update_where (\<lambda>x. wt_id x = wt_id s) (\<lambda>_. t) (db_steps d)"
    and runs: "db_runs d' = db_runs d" and wd: "db_workflows d' = db_workflows d"
  shows "wf_ok d'"
proof -
  have ns: "wt_status s \<noteq> StSucceeded" "wt_status s \<noteq> StCancelled" and nt: "wt_status t \<noteq> StCancelled"
    using act t(3) by (auto simp: active_def)
  obtain as bs where split: "steps_of d (wt_run s) = as @ s # bs" "all_succeeded as"
    using stands_split [OF ok s ns(1) st] .
  show ?thesis
  proof (rule wf_ok_replace [OF ok s split(1) t(2) steps _ wd])
    show "db_runs d' = update_where (\<lambda>r. wr_id r = wt_run s) (\<lambda>r. r) (db_runs d)"
      by (simp add: runs update_where_def)
    fix r assume r: "run_ok (as @ s # bs) r"
    then have line: "line_ok (as @ s # bs)" by (simp add: run_ok_def)
    have "step_ok s" using line by (simp add: line_ok_def)
    with t(1,3) ns have c: "wt_cost s = 0" "wt_cost t = 0" by (auto simp: step_ok_def active_def)
    have "pipeline_status (as @ t # bs) = RnRunning" using split(2) t(3) by (auto simp: active_def)
    with r line_replace(1) [OF line split(2) ns nt t(1,2)] run_status_active [OF line split(2) act] c
    show "run_ok (as @ t # bs) r" by (simp add: run_ok_def)
  qed simp
qed

section \<open>Every operation of the repository keeps the invariant\<close>

lemma update_steps_cases:
  assumes "update_steps p f m d = (d', res)"
    and "\<And>x y. x \<in> set (db_steps d) \<Longrightarrow> y \<in> set (db_steps d) \<Longrightarrow> p x \<Longrightarrow> p y \<Longrightarrow> wt_id x = wt_id y"
    and "wf_ok d"
  obtains (none) "d' = d" and "res = Inl (Error m)" and "\<And>x. x \<in> set (db_steps d) \<Longrightarrow> \<not> p x"
  | (one) s where "s \<in> set (db_steps d)" and "p s" and "res = Inr (f s)"
      and "d' = d\<lparr>db_steps := update_where (\<lambda>x. wt_id x = wt_id s) (\<lambda>_. f s) (db_steps d)\<rparr>"
proof (cases "find p (db_steps d)")
  case None
  with assms(1) have "d' = d" "res = Inl (Error m)" by (simp_all add: update_steps_def)
  moreover have "\<not> p x" if "x \<in> set (db_steps d)" for x using None that find_None_all by metis
  ultimately show ?thesis using none by blast
next
  case (Some s)
  then have s: "s \<in> set (db_steps d)" "p s" by (auto dest: find_Some_in)
  have eq: "p x \<longleftrightarrow> wt_id x = wt_id s" if "x \<in> set (db_steps d)" for x
    using assms(2) [OF that s(1)] s unique_step [OF assms(3) that s(1)] by blast
  have "f x = f s" if "x \<in> set (db_steps d)" "p x" for x
    using unique_step [OF assms(3) that(1) s(1)] eq [OF that(1)] that(2) by simp
  then have "update_where p f (db_steps d) = update_where (\<lambda>x. wt_id x = wt_id s) (\<lambda>_. f s) (db_steps d)"
    using eq by (intro update_where_cong) simp_all
  with assms(1) Some have "res = Inr (f s)"
    "d' = d\<lparr>db_steps := update_where (\<lambda>x. wt_id x = wt_id s) (\<lambda>_. f s) (db_steps d)\<rparr>"
    by (simp_all add: update_steps_def)
  with s show ?thesis using one by blast
qed

lemma ownedUpdate_cases:
  assumes "ownedUpdate sid worker f d = (d', res)" and "wf_ok d"
  obtains (none) "d' = d" and "res = Inl (Error ''Workflow step is not owned by this worker'')"
      and "\<And>x. x \<in> set (db_steps d) \<Longrightarrow> \<not> owned sid worker x"
  | (one) s where "s \<in> set (db_steps d)" and "owned sid worker s" and "res = Inr (f s)"
      and "d' = d\<lparr>db_steps := update_where (\<lambda>x. wt_id x = wt_id s) (\<lambda>_. f s) (db_steps d)\<rparr>"
  using update_steps_cases [OF assms(1) [unfolded ownedUpdate_def] _ assms(2)] by (auto simp: owned_def)

lemma step_ok_of: "wf_ok d \<Longrightarrow> s \<in> set (db_steps d) \<Longrightarrow> step_ok s"
  by (erule (1) run_of_step) (auto simp: run_ok_def line_ok_def list_all_iff)

lemma owned_stands: "wf_ok d \<Longrightarrow> s \<in> set (db_steps d) \<Longrightarrow> wt_status s \<notin> {StQueued, StCancelled} \<Longrightarrow> stands d s"
  by (auto simp: stands_def untried_def)

lemma createDefinition_ok:
  assumes "wf_ok d" shows "wf_ok (fst (createDefinition U brand name specs d))"
proof -
  have ds: "distinct_specs seen xs \<Longrightarrow> distinct (map sx_key xs) \<and> set (map sx_key xs) \<inter> set seen = {}" for seen xs
  proof (induction xs arbitrary: seen)
    case (Cons x xs)
    from Cons.prems Cons.IH [of "sx_key x # seen"] show ?case by auto
  qed simp
  have i: "wf_ok (d\<lparr>db_fresh := n\<rparr>)" for n using assms by (simp add: wf_ok_def)
  show ?thesis
    using assms i ds [of "[]" specs]
    by (auto simp: createDefinition_def new_workflow_def Let_def) (auto simp: wf_ok_def)
qed

lemma claimNext_cases:
  assumes "claimNext rid worker d = (d', res)" and "wf_ok d"
  obtains (none) "d' = d" and "res = None" and "\<And>s. s \<in> set (steps_of d rid) \<Longrightarrow> \<not> claimable d s"
  | (one) s t where "s \<in> set (db_steps d)" and "wt_run s = rid" and "claimable d s" and "res = Some t"
      and "t = claimed (db_now d) worker (artifact d s) s"
      and "d' = d\<lparr>db_steps := update_where (\<lambda>x. wt_id x = wt_id s) (\<lambda>_. t) (db_steps d)\<rparr>"
proof (cases "sort_key wt_order (filter (claimable d) (steps_of d rid))")
  case Nil
  then have "filter (claimable d) (steps_of d rid) = []" by (metis set_empty set_sort)
  then have "\<And>s. s \<in> set (steps_of d rid) \<Longrightarrow> \<not> claimable d s" by (simp only: filter_empty_conv) blast
  with Nil assms(1) show ?thesis using none by (simp add: claimNext_def)
next
  case (Cons s ss)
  then have "s \<in> set (filter (claimable d) (steps_of d rid))" by (metis list.set_intros(1) set_sort)
  then have s: "s \<in> set (db_steps d)" "wt_run s = rid" "claimable d s" by auto
  let ?t = "claimed (db_now d) worker (artifact d s) s"
  have "update_where (\<lambda>x. wt_id x = wt_id s) (claimed (db_now d) worker (artifact d s)) (db_steps d)
      = update_where (\<lambda>x. wt_id x = wt_id s) (\<lambda>_. ?t) (db_steps d)"
    by (rule update_where_cong) (auto dest: unique_step [OF assms(2) _ s(1)])
  with Cons assms(1) have "res = Some ?t"
    "d' = d\<lparr>db_steps := update_where (\<lambda>x. wt_id x = wt_id s) (\<lambda>_. ?t) (db_steps d)\<rparr>"
    by (simp_all add: claimNext_def Let_def)
  with s show ?thesis using one by blast
qed

lemma claimNext_ok:
  assumes "wf_ok d" shows "wf_ok (fst (claimNext rid worker d))"
proof (cases "claimNext rid worker d")
  case (Pair d' res)
  from this assms show ?thesis
  proof (cases rule: claimNext_cases)
    case (one s t)
    note so = step_ok_of [OF assms one(1)]
    show ?thesis unfolding Pair fst_conv
    proof (rule wf_ok_replace_active [OF assms one(1)])
      show "active s" "active t" using one by (auto simp: active_def claimable_def claimed_def)
      show "stands d s" using one(3) by (auto simp: stands_def claimable_def list_ex_iff)
      show "step_ok t" using so one(3) by (auto simp: one step_ok_def claimed_def claimable_def)
      show "same_place s t" by (simp add: one same_place_def claimed_def)
    qed (simp_all add: one)
  qed (use assms in \<open>simp add: Pair\<close>)
qed

text \<open>A running step that is updated to a state that keeps its run going.\<close>

lemma ownedUpdate_ok:
  assumes "wf_ok d"
    and "\<And>s. step_ok s \<Longrightarrow> wt_status s = StRunning \<Longrightarrow> 0 < wt_attempt s \<Longrightarrow> step_ok (f s) \<and> same_place s (f s) \<and> active (f s)"
  shows "wf_ok (fst (ownedUpdate sid worker f d))"
proof (cases "ownedUpdate sid worker f d")
  case (Pair d' res)
  from this assms(1) show ?thesis
  proof (cases rule: ownedUpdate_cases)
    case (one s)
    have r: "wt_status s = StRunning" using one(2) by (simp add: owned_def)
    note so = step_ok_of [OF assms(1) one(1)]
    have a: "0 < wt_attempt s" using so r by (auto simp: step_ok_def untried_def)
    note f = assms(2) [OF so r a]
    show ?thesis unfolding Pair fst_conv
      by (rule wf_ok_replace_active [OF assms(1) one(1)])
        (use f r in \<open>auto simp: one(4) active_def intro: owned_stands [OF assms(1) one(1)]\<close>)
  qed (use assms in \<open>simp add: Pair\<close>)
qed

lemma heartbeat_ok: "wf_ok d \<Longrightarrow> wf_ok (fst (heartbeat_step sid worker d))"
  unfolding heartbeat_step_def
  by (erule ownedUpdate_ok) (auto simp: step_ok_def same_place_def active_def untried_def)

lemma block_ok: "wf_ok d \<Longrightarrow> wf_ok (fst (block_step sid worker out reason d))"
  unfolding block_step_def
  by (erule ownedUpdate_ok) (auto simp: step_ok_def same_place_def active_def untried_def)

lemma resume_unique:
  assumes "wf_ok d" and "x \<in> set (db_steps d)" and "y \<in> set (db_steps d)"
    and "wt_run x = wt_run y" and "wt_key x = wt_key y"
  shows "wt_id x = wt_id y"
proof -
  obtain r where "run_ok (steps_of d (wt_run y)) r" using run_of_step assms(1,3) by blast
  then have "distinct (map wt_key (steps_of d (wt_run y)))" by (simp add: run_ok_def line_ok_def)
  moreover have "x \<in> set (steps_of d (wt_run y))" "y \<in> set (steps_of d (wt_run y))" using assms by simp_all
  ultimately have "x = y" using assms(5) unfolding distinct_map by (blast dest: inj_onD)
  then show ?thesis by simp
qed

lemma resume_cases:
  assumes "resumeBlocked rid key input d = (d', res)" and "wf_ok d"
  obtains (none) "d' = d" and "res = Inl (Error ''Blocked workflow step not found'')"
  | (one) s t where "s \<in> set (db_steps d)" and "wt_run s = rid" and "wt_key s = key" and "wt_status s = StBlocked"
      and "res = Inr t"
      and "t = s\<lparr>wt_status := StQueued, wt_input := jsonb_concat (wt_output s) (stored input),
              wt_error := None, wt_availableAt := db_now d\<rparr>"
      and "d' = d\<lparr>db_steps := update_where (\<lambda>x. wt_id x = wt_id s) (\<lambda>_. t) (db_steps d)\<rparr>"
  by (rule update_steps_cases [OF assms(1) [unfolded resumeBlocked_def] _ assms(2)])
    (auto intro: resume_unique [OF assms(2)])

lemma resume_ok:
  assumes "wf_ok d" shows "wf_ok (fst (resumeBlocked rid key input d))"
proof (cases "resumeBlocked rid key input d")
  case (Pair d' res)
  from this assms show ?thesis
  proof (cases rule: resume_cases)
    case (one s t)
    note so = step_ok_of [OF assms one(1)]
    show ?thesis unfolding Pair fst_conv
      by (rule wf_ok_replace_active [OF assms one(1)])
        (use so one(4) in \<open>auto simp: one(6,7) step_ok_def same_place_def active_def untried_def
           intro: owned_stands [OF assms one(1)]\<close>)
  qed (use assms in \<open>simp add: Pair\<close>)
qed

lemma wf_ok_spans [simp]: "wf_ok (d\<lparr>db_spans := x\<rparr>) = wf_ok d" "wf_ok (d\<lparr>db_fresh := n\<rparr>) = wf_ok d"
  "wf_ok (d\<lparr>db_now := t\<rparr>) = wf_ok d"
  by (simp_all add: wf_ok_def)

lemma startSpan_ok: "wf_ok d \<Longrightarrow> wf_ok (fst (startSpan U r s a d))"
  by (simp add: startSpan_def Let_def)

lemma finishSpan_ok: "wf_ok d \<Longrightarrow> wf_ok (fst (finishSpan i st a e d))"
  by (simp add: finishSpan_def Let_def split: option.split)

lemma transaction_cases:
  assumes "transaction f s = (s', res)"
  obtains (rollback) e where "s' = s" and "res = Inl e" | (commit) v where "f s = (s', Inr v)" and "res = Inr v"
  using assms by (auto simp: transaction_def split: prod.splits sum.splits)

lemma succeed_cases:
  assumes "succeed_step sid worker out cost d = (d', res)" and ok: "wf_ok d"
  obtains (none) e where "d' = d" and "res = Inl e"
  | (one) s c t d1 tot where "s \<in> set (db_steps d)" and "owned sid worker s" and "whole_micros c" and "0 \<le> c"
      and "t = succeeded (db_now d) out c s" and "res = Inr t"
      and "d1 = d\<lparr>db_steps := update_where (\<lambda>x. wt_id x = wt_id s) (\<lambda>_. t) (db_steps d)\<rparr>"
      and "numeric_14_6 (run_cost d1 (wt_run s)) = Inr tot"
      and "d' = d1\<lparr>db_runs := update_where (\<lambda>r. wr_id r = wt_run s)
             (settle_run (db_now d) tot (all_succeeded (steps_of d1 (wt_run s))) out) (db_runs d)\<rparr>"
proof (cases "\<exists>e. d' = d \<and> res = Inl e")
  case True
  then show ?thesis using none by blast
next
  case False
  let ?f = "\<lambda>q d. case numeric_14_6 q of Inl e \<Rightarrow> (d, Inl e)
            | Inr c \<Rightarrow>
                andThen (ownedUpdate sid worker (succeeded (db_now d) out c) d) (\<lambda>d1 s.
                  let finished = all_succeeded (steps_of d1 (wt_run s))
                  in case numeric_14_6 (run_cost d1 (wt_run s)) of
                       Inl e \<Rightarrow> (d1, Inl e)
                     | Inr tot \<Rightarrow>
                         (d1\<lparr>db_runs := update_where (\<lambda>r. wr_id r = wt_run s)
                              (settle_run (db_now d1) tot finished out) (db_runs d1)\<rparr>, Inr s))"
  from False assms(1) obtain q where q: "cost = Fin q" "0 \<le> q" "transaction (?f q) d = (d', res)"
    by (auto simp: succeed_step_def split: jsnum.splits if_splits)
  from q(3) False obtain v where v: "?f q d = (d', Inr v)" "res = Inr v"
    by (cases rule: transaction_cases) auto
  from v(1) obtain c where c: "numeric_14_6 q = Inr c" by (auto split: sum.splits)
  with v(1) obtain d1 t where o1: "ownedUpdate sid worker (succeeded (db_now d) out c) d = (d1, Inr t)"
    and rest: "(let finished = all_succeeded (steps_of d1 (wt_run t))
                  in case numeric_14_6 (run_cost d1 (wt_run t)) of
                       Inl e \<Rightarrow> (d1, Inl e)
                     | Inr tot \<Rightarrow>
                         (d1\<lparr>db_runs := update_where (\<lambda>r. wr_id r = wt_run t)
                              (settle_run (db_now d1) tot finished out) (db_runs d1)\<rparr>, Inr t)) = (d', Inr v)"
    by (auto simp: andThen_Inr_iff)
  from o1 ok show ?thesis
  proof (cases rule: ownedUpdate_cases)
    case (one s)
    then have t: "t = succeeded (db_now d) out c s" "wt_run t = wt_run s" "v = t"
      using rest by (auto simp: succeeded_def Let_def split: sum.splits)
    obtain tot where tot: "numeric_14_6 (run_cost d1 (wt_run t)) = Inr tot"
      using rest by (auto simp: Let_def split: sum.splits)
    note c6 = numeric_14_6_Inr [OF c]
    have d': "d' = d1\<lparr>db_runs := update_where (\<lambda>r. wr_id r = wt_run t)
        (settle_run (db_now d1) tot (all_succeeded (steps_of d1 (wt_run t))) out) (db_runs d1)\<rparr>"
      using rest unfolding Let_def tot by (simp only: sum.case prod.inject)
    have d1: "d1 = d\<lparr>db_steps := update_where (\<lambda>x. wt_id x = wt_id s) (\<lambda>_. t) (db_steps d)\<rparr>"
      using one(4) by (simp only: t(1))
    have "db_now d1 = db_now d" "db_runs d1 = db_runs d" by (simp_all add: d1)
    with d' t(2) have "d' = d1\<lparr>db_runs := update_where (\<lambda>r. wr_id r = wt_run s)
        (settle_run (db_now d) tot (all_succeeded (steps_of d1 (wt_run s))) out) (db_runs d)\<rparr>" by simp
    with that(2) [OF one(1,2) _ _ t(1) _ d1] c6 q(2) v(2) t tot show ?thesis by metis
  qed simp
qed

lemma succeed_ok:
  assumes ok: "wf_ok d" shows "wf_ok (fst (succeed_step sid worker out cost d))"
proof (cases "succeed_step sid worker out cost d")
  case (Pair d' res)
  from this ok show ?thesis
  proof (cases rule: succeed_cases)
    case (one s c t d1 tot)
    have run: "wt_status s = StRunning" using one(2) by (simp add: owned_def)
    note so = step_ok_of [OF ok one(1)]
    have st: "stands d s" using owned_stands [OF ok one(1)] run by simp
    have ns: "wt_status s \<noteq> StSucceeded" "wt_status s \<noteq> StCancelled" using run by simp_all
    obtain as bs where split: "steps_of d (wt_run s) = as @ s # bs" "all_succeeded as"
      using stands_split [OF ok one(1) ns(1) st] .
    have place: "same_place s t" by (simp add: one(5) same_place_def succeeded_def)
    have t: "step_ok t" "wt_status t = StSucceeded" "wt_cost t = c"
      using so run one(3,4) by (auto simp: one(5) succeeded_def step_ok_def untried_def)
    have d1: "steps_of d1 (wt_run s) = as @ t # bs"
      using replaced_steps [OF ok one(1) split(1) place, of d1] by (simp add: one(7))
    obtain r0 where r0: "run_ok (steps_of d (wt_run s)) r0" using run_of_step [OF ok one(1)] by blast
    with split have line: "line_ok (as @ s # bs)" by (simp add: run_ok_def)
    have nt: "wt_status t \<noteq> StCancelled" using t(2) by simp
    note lr = line_replace [OF line split(2) ns nt t(1) place]
    have "step_ok s" by (rule so)
    then have s0: "wt_cost s = 0" using run by (simp add: step_ok_def)
    have "whole_micros (run_cost d1 (wt_run s))"
      unfolding run_cost_def using lr(1)
      by (intro whole_micros_sum) (auto simp: d1 line_ok_def step_ok_def list_all_iff)
    from numeric_whole [OF this one(8)] have tot: "tot = sum_list (map wt_cost as) + c + sum_list (map wt_cost bs)"
      by (simp add: run_cost_def d1 t(3))
    let ?g = "settle_run (db_now d) tot (all_succeeded (steps_of d1 (wt_run s))) out"
    have fin: "all_succeeded (steps_of d1 (wt_run s)) \<longleftrightarrow> bs = []" using lr(3) t(2) by (simp add: d1)
    have wf1: "db_workflows d' = db_workflows d" "db_runs d' = update_where (\<lambda>r. wr_id r = wt_run s) ?g (db_runs d)"
      "db_steps d' = update_where (\<lambda>x. wt_id x = wt_id s) (\<lambda>_. t) (db_steps d)"
      by (simp_all add: one(9) one(7))
    have sd': "steps_of d' (wt_run s) = as @ t # bs"
      using replaced_steps [OF ok one(1) split(1) place wf1(3)] by simp
    show ?thesis unfolding Pair fst_conv
    proof (rule wf_ok_replace [OF ok one(1) split(1) place wf1(3,2,1)])
      show "wr_id (?g r) = wr_id r \<and> wr_commandKey (?g r) = wr_commandKey r" for r by (simp add: settle_run_def)
      show "run_ok (as @ t # bs) (?g r)" if "run_ok (as @ s # bs) r" for r
        using that lr(1,2) t(2,3) by (simp add: run_ok_def settle_run_def fin tot)
    qed
  qed (use ok in \<open>simp add: Pair\<close>)
qed

lemma fail_cases:
  assumes "fail_step sid worker err delay terminal d = (d', res)" and ok: "wf_ok d"
  obtains (none) "d' = d" and "res = Inl (Error ''Workflow step is not owned by this worker'')"
      and "\<And>x. x \<in> set (db_steps d) \<Longrightarrow> \<not> owned sid worker x"
  | (one) s t where "s \<in> set (db_steps d)" and "owned sid worker s"
      and "t = failed (db_now d) err delay terminal s" and "res = Inr t"
      and "d' = d\<lparr>db_steps := update_where (\<lambda>x. wt_id x = wt_id s) (\<lambda>_. t) (db_steps d),
             db_runs := update_where (\<lambda>r. wr_id r = wt_run s)
               (\<lambda>r. if wt_status t = StFailed then end_run (db_now d) RnFailed r else r) (db_runs d)\<rparr>"
proof (cases "ownedUpdate sid worker (failed (db_now d) err delay terminal) d")
  case (Pair d1 res1)
  from this ok show ?thesis
  proof (cases rule: ownedUpdate_cases)
    case none
    with assms(1) Pair have "d' = d" "res = Inl (Error ''Workflow step is not owned by this worker'')"
      by (auto simp: fail_step_def transaction_def)
    with none that(1) show ?thesis by blast
  next
    case (one s)
    let ?t = "failed (db_now d) err delay terminal s"
    have "update_where p (\<lambda>r. r) rows = rows" for p and rows :: "wf_run list" by (simp add: update_where_def)
    then have "d' = d\<lparr>db_steps := update_where (\<lambda>x. wt_id x = wt_id s) (\<lambda>_. ?t) (db_steps d),
             db_runs := update_where (\<lambda>r. wr_id r = wt_run s)
               (\<lambda>r. if wt_status ?t = StFailed then end_run (db_now d) RnFailed r else r) (db_runs d)\<rparr> \<and> res = Inr ?t"
      using assms(1) Pair one(3,4) by (auto simp: fail_step_def transaction_def failed_def)
    with that(2) [OF one(1,2) HOL.refl] show ?thesis by blast
  qed
qed

lemma fail_ok:
  assumes ok: "wf_ok d" shows "wf_ok (fst (fail_step sid worker err delay terminal d))"
proof (cases "fail_step sid worker err delay terminal d")
  case (Pair d' res)
  from this ok show ?thesis
  proof (cases rule: fail_cases)
    case (one s t)
    have run: "wt_status s = StRunning" using one(2) by (simp add: owned_def)
    then have ns: "wt_status s \<noteq> StSucceeded" "wt_status s \<noteq> StCancelled" by simp_all
    note so = step_ok_of [OF ok one(1)]
    obtain as bs where split: "steps_of d (wt_run s) = as @ s # bs" "all_succeeded as"
      using stands_split [OF ok one(1) ns(1)] owned_stands [OF ok one(1)] run by auto
    have t: "same_place s t" "step_ok t" "wt_status t \<noteq> StCancelled" "wt_status t \<noteq> StSucceeded" "wt_cost t = wt_cost s"
      using so run by (auto simp: one(3) failed_def same_place_def step_ok_def untried_def)
    show ?thesis unfolding Pair fst_conv
    proof (rule wf_ok_replace [OF ok one(1) split(1) t(1)])
      fix r assume r: "run_ok (as @ s # bs) r"
      then have line: "line_ok (as @ s # bs)" by (simp add: run_ok_def)
      note lr = line_replace(1,2) [OF line split(2) ns t(3,2,1)]
      have "wt_status t = StFailed \<or> wt_status t = StRetryWait" by (simp add: one(3) failed_def)
      with lr r t(5) run_status_active [OF line split(2)] run
      show "run_ok (as @ t # bs) (if wt_status t = StFailed then end_run (db_now d) RnFailed r else r)"
        by (auto simp: run_ok_def end_run_def active_def)
    qed (simp_all add: one(5) end_run_def)
  qed (use ok in \<open>simp add: Pair\<close>)
qed

text \<open>A statement that changes steps of several runs at once.\<close>

lemma wf_ok_update:
  assumes ok: "wf_ok d" and f: "\<And>x. same_place x (f x)"
    and steps: "db_steps d' = update_where p f (db_steps d)" and runs: "db_runs d' = update_where q g (db_runs d)"
    and wd: "db_workflows d' = db_workflows d"
    and g: "\<And>r. wr_id (g r) = wr_id r \<and> wr_commandKey (g r) = wr_commandKey r"
    and r: "\<And>r. r \<in> set (db_runs d) \<Longrightarrow> run_ok (steps_of d (wr_id r)) r \<Longrightarrow>
        run_ok (update_where p f (steps_of d (wr_id r))) (if q r then g r else r)"
  shows "wf_ok d'"
proof -
  have ids: "map wr_id (db_runs d') = map wr_id (db_runs d)" "map wr_commandKey (db_runs d') = map wr_commandKey (db_runs d)"
    unfolding runs by (rule map_update_where; simp add: g)+
  have sids: "map wt_id (db_steps d') = map wt_id (db_steps d)" "map wt_run (db_steps d') = map wt_run (db_steps d)"
    unfolding steps by (rule map_update_where; use f in \<open>simp add: same_place_def\<close>)+
  have ids': "wr_id ` set (db_runs d') = wr_id ` set (db_runs d)" using ids(1) by (metis list.set_map)
  have sids': "wt_run ` set (db_steps d') = wt_run ` set (db_steps d)" using sids(2) by (metis list.set_map)
  have new: "steps_of d' rid = update_where p f (steps_of d rid)" for rid
    using f by (simp add: steps_of_def steps same_place_def filter_update_where)
  have "run_ok (steps_of d' (wr_id r')) r'" if "r' \<in> set (db_runs d')" for r'
  proof -
    from that obtain r0 where r0: "r0 \<in> set (db_runs d)" "r' = (if q r0 then g r0 else r0)"
      unfolding runs set_update_where by auto
    then have "wr_id r' = wr_id r0" using g by simp
    moreover have "run_ok (steps_of d (wr_id r0)) r0" using ok r0(1) by (simp add: wf_ok_def)
    ultimately show ?thesis using r [OF r0(1)] r0(2) by (simp add: new)
  qed
  moreover have "\<forall>s\<in>set (db_steps d'). wt_run s \<in> wr_id ` set (db_runs d')"
  proof
    fix s assume "s \<in> set (db_steps d')"
    then have "wt_run s \<in> wt_run ` set (db_steps d)" using sids' by blast
    then obtain x where "x \<in> set (db_steps d)" "wt_run s = wt_run x" by blast
    with ok show "wt_run s \<in> wr_id ` set (db_runs d')" by (simp add: ids' wf_ok_def)
  qed
  ultimately show ?thesis using ok unfolding wf_ok_def ids sids(1) wd by blast
qed

lemma pipeline_status_running:
  "pipeline_status L = RnRunning \<Longrightarrow> pipeline L \<Longrightarrow>
   \<exists>as s bs. L = as @ s # bs \<and> all_succeeded as \<and> active s \<and> list_all (same_fate s) bs"
proof (induction L)
  case (Cons t L)
  show ?case
  proof (cases "wt_status t = StSucceeded")
    case True
    with Cons obtain as s bs where "L = as @ s # bs" "all_succeeded as" "active s" "list_all (same_fate s) bs" by auto
    with True have "t # L = (t # as) @ s # bs \<and> all_succeeded (t # as) \<and> active s \<and> list_all (same_fate s) bs" by simp
    then show ?thesis by blast
  next
    case False
    with Cons.prems have "t # L = [] @ t # L \<and> all_succeeded [] \<and> active t \<and> list_all (same_fate t) L"
      by (auto simp: active_def split: step_status.splits)
    then show ?thesis by blast
  qed
qed simp

lemma pipeline_status_range: "pipeline_status L \<in> {RnRunning, RnSucceeded, RnFailed, RnCancelled}"
  by (induction L) (auto split: step_status.split)

lemma cancel_ok:
  assumes ok: "wf_ok d" shows "wf_ok (fst (cancel_run rid d))"
proof -
  let ?q = "\<lambda>r. wr_id r = rid \<and> wr_status r \<in> {RnQueued, RnRunning, RnPaused}"
  let ?p = "\<lambda>s. wt_run s = rid \<and> wt_status s \<in> {StQueued, StRunning, StRetryWait, StBlocked}"
  let ?f = "\<lambda>s. s\<lparr>wt_status := StCancelled, wt_worker := None\<rparr>"
  show ?thesis
  proof (cases "find ?q (db_runs d)")
    case None
    with ok show ?thesis by (simp add: cancel_run_def transaction_def Let_def)
  next
    case (Some r0)
    then have r0: "r0 \<in> set (db_runs d)" "?q r0" by (auto dest: find_Some_in)
    let ?d = "d\<lparr>db_runs := update_where ?q (end_run (db_now d) RnCancelled) (db_runs d),
                 db_steps := update_where ?p ?f (db_steps d)\<rparr>"
    have "wf_ok ?d"
    proof (rule wf_ok_update [OF ok, where f = ?f and p = ?p and q = ?q and g = "end_run (db_now d) RnCancelled"])
      fix r assume r: "r \<in> set (db_runs d)" "run_ok (steps_of d (wr_id r)) r"
      show "run_ok (update_where ?p ?f (steps_of d (wr_id r))) (if ?q r then end_run (db_now d) RnCancelled r else r)"
      proof (cases "wr_id r = rid")
        case False
        then have "update_where ?p ?f (steps_of d (wr_id r)) = steps_of d (wr_id r)" by (intro update_where_none) auto
        with False r show ?thesis by simp
      next
        case True
        with unique_run [OF ok r(1) r0(1)] r0(2) have q: "?q r" by simp
        have line: "line_ok (steps_of d rid)" "wr_status r = pipeline_status (steps_of d rid)"
          "wr_cost r = sum_list (map wt_cost (steps_of d rid))"
          using r(2) True by (simp_all add: run_ok_def)
        with q pipeline_status_range [of "steps_of d rid"] have "pipeline_status (steps_of d rid) = RnRunning" by auto
        with line(1) obtain as s bs where L: "steps_of d rid = as @ s # bs" "all_succeeded as" "active s" "list_all (same_fate s) bs"
          using pipeline_status_running unfolding line_ok_def by blast
        have mem: "wt_run x = rid" if "x \<in> set as \<union> {s} \<union> set bs" for x
        proof -
          have "x \<in> set (steps_of d rid)" using that by (simp add: L(1))
          then show ?thesis by simp
        qed
        have as: "update_where ?p ?f as = as" using L(2) by (intro update_where_none) (auto simp: list_all_iff)
        have ab: "active x" if "x \<in> set bs" for x
          using that L(3,4) by (auto simp: list_all_iff same_fate_def untried_def active_def)
        have pa: "?p x" if "x \<in> set bs \<union> {s}" for x
        proof -
          have "active x" using that ab L(3) by blast
          moreover have "wt_run x = rid" using that mem by blast
          ultimately show ?thesis by (auto simp: active_def)
        qed
        have bs: "update_where ?p ?f bs = map ?f bs" unfolding update_where_def
        proof (rule map_cong)
          fix x assume "x \<in> set bs"
          then have "?p x" using pa by blast
          then show "(if ?p x then ?f x else x) = ?f x" by (rule if_P)
        qed simp
        have s: "?p s" using pa by blast
        have new: "update_where ?p ?f (steps_of d rid) = as @ ?f s # map ?f bs" using as bs s by (simp add: L(1))
        have "step_ok (?f x)" if "step_ok x" "active x" for x
          using that by (auto simp: step_ok_def active_def untried_def)
        then have so: "list_all step_ok (as @ ?f s # map ?f bs)"
          using line(1) L(3) ab by (auto simp: line_ok_def L(1) list_all_iff)
        have "map wt_order (as @ ?f s # map ?f bs) = map wt_order (as @ s # bs)"
          "map wt_key (as @ ?f s # map ?f bs) = map wt_key (as @ s # bs)"
          "map wt_cost (as @ ?f s # map ?f bs) = map wt_cost (as @ s # bs)" by simp_all
        moreover have "pipeline (as @ ?f s # map ?f bs)"
          using L(2,4) by (auto simp: list_all_iff same_fate_def untried_def)
        moreover have "pipeline_status (as @ ?f s # map ?f bs) = RnCancelled" using L(2) by simp
        ultimately have "run_ok (as @ ?f s # map ?f bs) (end_run (db_now d) RnCancelled r)"
          using line so unfolding run_ok_def line_ok_def L(1) by (simp add: end_run_def comp_def)
        with new q True show ?thesis by simp
      qed
    qed (simp_all add: same_place_def end_run_def)
    with Some show ?thesis by (simp add: cancel_run_def transaction_def Let_def)
  qed
qed

lemma requeue_ok:
  assumes ok: "wf_ok d" shows "wf_ok (fst (requeueStuck staleBefore d))"
proof -
  let ?f = "requeued (db_now d)"
  let ?d1 = "d\<lparr>db_steps := update_where (stuck staleBefore) ?f (db_steps d)\<rparr>"
  have place: "same_place x (?f x)" for x by (simp add: same_place_def requeued_def)
  have steps: "steps_of ?d1 rid = update_where (stuck staleBefore) ?f (steps_of d rid)" for rid
    using place by (simp add: steps_of_update same_place_def)
  show ?thesis unfolding requeueStuck_def Let_def fst_conv
  proof (rule wf_ok_update [OF ok place, where p = "stuck staleBefore" and q = "has_failed_step ?d1" and g = "end_run (db_now d) RnFailed"])
    fix r assume r: "r \<in> set (db_runs d)" "run_ok (steps_of d (wr_id r)) r"
    let ?L = "steps_of d (wr_id r)"
    have line: "line_ok ?L" "wr_status r = pipeline_status ?L" using r(2) by (simp_all add: run_ok_def)
    show "run_ok (update_where (stuck staleBefore) ?f ?L) (if has_failed_step ?d1 r then end_run (db_now d) RnFailed r else r)"
    proof (cases "\<exists>s\<in>set ?L. stuck staleBefore s")
      case False
      then have same: "update_where (stuck staleBefore) ?f ?L = ?L" by (intro update_where_none) auto
      have "\<not> has_failed_step ?d1 r"
      proof
        assume "has_failed_step ?d1 r"
        then have h: "pipeline_status ?L = RnRunning" "\<exists>s\<in>set ?L. wt_status s = StFailed"
          using line(2) by (auto simp: has_failed_step_def steps same list_ex_iff simp del: in_steps_of)
        from h(1) line(1) obtain as s bs where "?L = as @ s # bs" "all_succeeded as" "active s" "list_all (same_fate s) bs"
          using pipeline_status_running unfolding line_ok_def by blast
        with h(2) show False by (auto simp: list_all_iff active_def same_fate_def untried_def)
      qed
      with same r(2) show ?thesis by simp
    next
      case True
      then obtain s where s: "s \<in> set ?L" "stuck staleBefore s" by blast
      then have run: "wt_status s = StRunning" by (simp add: stuck_def)
      then have ns: "wt_status s \<noteq> StSucceeded" "wt_status s \<noteq> StCancelled" "\<not> untried s" by (auto simp: untried_def)
      obtain as bs where L: "?L = as @ s # bs" "all_succeeded as" "list_all (same_fate s) bs"
        using pipeline_split [OF _ s(1) ns(1,3)] line(1) by (auto simp: line_ok_def)
      have "update_where (stuck staleBefore) ?f as = as" "update_where (stuck staleBefore) ?f bs = bs"
        using L(2,3) by (auto intro!: update_where_none simp: list_all_iff same_fate_def untried_def stuck_def)
      with s(2) have new: "update_where (stuck staleBefore) ?f ?L = as @ ?f s # bs" by (simp add: L(1))
      have so: "step_ok s" using line(1) by (simp add: line_ok_def L(1))
      then have t: "step_ok (?f s)" "wt_status (?f s) \<noteq> StCancelled" "wt_cost (?f s) = wt_cost s"
        using run by (auto simp: step_ok_def requeued_def untried_def)
      have line': "line_ok (as @ s # bs)" using line(1) by (simp add: L(1))
      note lr = line_replace(1,2) [OF line' L(2) ns(1,2) t(2,1) place]
      have running: "wr_status r = RnRunning" using line(2) run L(2) by (simp add: L(1))
      have "has_failed_step ?d1 r \<longleftrightarrow> wt_status (?f s) = StFailed"
        unfolding has_failed_step_def steps new using running L(2,3)
        by (auto simp: list_ex_iff list_all_iff same_fate_def untried_def)
      moreover have "wt_status (?f s) = StFailed \<or> wt_status (?f s) = StRetryWait" by (simp add: requeued_def)
      ultimately show ?thesis using lr r(2) t(3) running unfolding new by (auto simp: run_ok_def L(1) end_run_def)
    qed
  qed (simp_all add: end_run_def)
qed

text \<open>The steps a run starts with.\<close>

definition fresh_step :: "string \<Rightarrow> js \<Rightarrow> wf_step \<Rightarrow> bool" where
  "fresh_step rid input s \<longleftrightarrow>
     wt_run s = rid \<and> wt_status s = StQueued \<and> wt_attempt s = 0 \<and> wt_worker s = None \<and> wt_cost s = 0 \<and>
     1 \<le> wt_maxAttempts s \<and> wt_maxAttempts s \<le> 20 \<and> wt_output s = JObj [] \<and> wt_error s = None \<and>
     wt_input s = (if wt_order s = 0 then json_image input else JObj [])"

lemma insert_step_Inr:
  assumes "insert_step s d = (d', Inr u)"
  shows "d' = d\<lparr>db_steps := db_steps d @ [s]\<rparr>" and "1 \<le> wt_maxAttempts s" and "wt_maxAttempts s \<le> 20"
    and "\<And>x. x \<in> set (db_steps d) \<Longrightarrow> wt_id x \<noteq> wt_id s"
  using assms by (auto simp: insert_step_def list_ex_iff step_conflict_def split: if_splits)

lemma insert_steps_Inr:
  assumes "insert_steps U rid input n xs d = (d', Inr u)" and "distinct (map wt_id (db_steps d))"
  obtains ns m where "d' = d\<lparr>db_steps := db_steps d @ ns, db_fresh := m\<rparr>" and "db_fresh d \<le> m" and "list_all (fresh_step rid input) ns"
    and "map wt_order ns = [n..<n + length xs]" and "map wt_key ns = map sx_key xs"
    and "distinct (map wt_id (db_steps d @ ns))"
proof -
  have "\<exists>ns m. d' = d\<lparr>db_steps := db_steps d @ ns, db_fresh := m\<rparr> \<and> db_fresh d \<le> m \<and> list_all (fresh_step rid input) ns \<and>
      map wt_order ns = [n..<n + length xs] \<and> map wt_key ns = map sx_key xs \<and> distinct (map wt_id (db_steps d @ ns))"
    using assms
  proof (induction xs arbitrary: n d)
    case Nil
    then have "d' = d\<lparr>db_steps := db_steps d @ [], db_fresh := db_fresh d\<rparr>" by simp
    with Nil show ?case by fastforce
  next
    case (Cons x xs)
    let ?s = "new_step (U (db_fresh d)) (db_now d) rid input n x"
    let ?d0 = "d\<lparr>db_fresh := Suc (db_fresh d)\<rparr>"
    from Cons.prems(1) obtain d1 where one: "insert_step ?s ?d0 = (d1, Inr ())"
      and rest: "insert_steps U rid input (Suc n) xs d1 = (d', Inr u)"
      by (auto simp: andThen_Inr_iff)
    note i = insert_step_Inr [OF one]
    have "wt_id ?s \<notin> wt_id ` set (db_steps d)"
    proof
      assume "wt_id ?s \<in> wt_id ` set (db_steps d)"
      then obtain y where "y \<in> set (db_steps d)" "wt_id y = wt_id ?s" by (metis imageE)
      with i(4) [of y] show False by simp
    qed
    with Cons.prems(2) have "distinct (map wt_id (db_steps d1))" by (simp add: i(1))
    from Cons.IH [OF rest this] obtain ns m where ns: "d' = d1\<lparr>db_steps := db_steps d1 @ ns, db_fresh := m\<rparr>" "db_fresh d1 \<le> m"
      "list_all (fresh_step rid input) ns" "map wt_order ns = [Suc n..<Suc n + length xs]"
      "map wt_key ns = map sx_key xs" "distinct (map wt_id (db_steps d1 @ ns))" by blast
    have "fresh_step rid input ?s" using i(2,3) by (simp add: fresh_step_def new_step_def)
    moreover have "wt_order ?s = n" "wt_key ?s = sx_key x" by (simp_all add: new_step_def)
    moreover have "[n..<n + length (x # xs)] = n # [Suc n..<Suc n + length xs]" by (simp add: upt_conv_Cons del: upt_Suc)
    ultimately have "d' = d\<lparr>db_steps := db_steps d @ (?s # ns), db_fresh := m\<rparr> \<and> db_fresh d \<le> m \<and> list_all (fresh_step rid input) (?s # ns) \<and>
      map wt_order (?s # ns) = [n..<n + length (x # xs)] \<and> map wt_key (?s # ns) = map sx_key (x # xs) \<and>
      distinct (map wt_id (db_steps d @ (?s # ns)))"
      using ns by (simp add: i(1))
    then show ?case by blast
  qed
  then show ?thesis using that by blast
qed

lemma start_cases:
  assumes "start_run U wid input key d = (d', res)" and ok: "wf_ok d"
  obtains (none) e where "d' = d" and "res = Inl e"
  | (old) r where "r \<in> set (db_runs d)" and "wr_commandKey r = key" and "wr_workflow r = wid" and "d' = d" and "res = Inr r"
  | (new) w r ns m where "w \<in> set (db_workflows d)" and "wd_id w = wid" and "wd_active w" and "key \<noteq> []"
      and "key \<notin> wr_commandKey ` set (db_runs d)" and "wr_id r \<notin> wr_id ` set (db_runs d)" and "res = Inr r"
      and "r = new_run (wr_id r) (db_now d) wid input key (wr_traceId r)"
      and "d' = d\<lparr>db_runs := db_runs d @ [r], db_steps := db_steps d @ ns, db_fresh := m\<rparr>" and "db_fresh d \<le> m"
      and "list_all (fresh_step (wr_id r) input) ns" and "map wt_order ns = [0..<length (wd_steps w)]"
      and "map wt_key ns = map sx_key (wd_steps w)" and "distinct (map wt_id (db_steps d @ ns))"
proof (cases "\<exists>e. d' = d \<and> res = Inl e")
  case True
  then show ?thesis using none by blast
next
  case False
  let ?g = "\<lambda>d. case find (\<lambda>w. wd_id w = wid \<and> wd_active w) (db_workflows d) of
          None \<Rightarrow> (d, Inl (Error ''Active workflow not found''))
        | Some w \<Rightarrow>
            (case find (\<lambda>r. wr_commandKey r = key) (db_runs d) of
               Some r \<Rightarrow>
                 if wr_workflow r \<noteq> wid then (d, Inl (Error ''Workflow command key reused for another workflow''))
                 else (d, Inr r)
             | None \<Rightarrow>
                 andThen (insert_run U wid input key d) (\<lambda>d1 r.
                 andThen (insert_steps U (wr_id r) input 0 (wd_steps w) d1) (\<lambda>d2 _. (d2, Inr r))))"
  from False assms(1) have k: "key \<noteq> []" "transaction ?g d = (d', res)"
    by (auto simp: start_run_def split: if_splits)
  from k(2) False obtain v where v: "?g d = (d', Inr v)" "res = Inr v" by (cases rule: transaction_cases) auto
  from v(1) obtain w where "find (\<lambda>w. wd_id w = wid \<and> wd_active w) (db_workflows d) = Some w"
    by (auto split: option.splits)
  note w = this find_Some_in [OF this]
  show ?thesis
  proof (cases "find (\<lambda>r. wr_commandKey r = key) (db_runs d)")
    case (Some r)
    with v w show ?thesis by (intro old [of r]) (auto dest: find_Some_in split: if_splits)
  next
    case None
    then have nk: "key \<notin> wr_commandKey ` set (db_runs d)" by (auto simp: find_None_all)
    from v(1) w(1) None obtain d1 where o1: "insert_run U wid input key d = (d1, Inr v)"
      and o2: "\<exists>u. insert_steps U (wr_id v) input 0 (wd_steps w) d1 = (d', Inr u)"
      by (auto simp: andThen_Inr_iff)
    from o1 have r: "v = new_run (wr_id v) (db_now d) wid input key (wr_traceId v)"
      "wr_id v \<notin> wr_id ` set (db_runs d)"
      "d1 = d\<lparr>db_fresh := db_fresh d + 2, db_runs := db_runs d @ [v]\<rparr>"
      by (auto simp: insert_run_def Let_def new_run_def list_ex_iff split: if_splits)
    have "distinct (map wt_id (db_steps d1))" using ok by (simp add: r(3) wf_ok_def)
    with o2 obtain ns m where ns: "d' = d1\<lparr>db_steps := db_steps d1 @ ns, db_fresh := m\<rparr>" "db_fresh d1 \<le> m"
      "list_all (fresh_step (wr_id v) input) ns" "map wt_order ns = [0..<0 + length (wd_steps w)]"
      "map wt_key ns = map sx_key (wd_steps w)" "distinct (map wt_id (db_steps d1 @ ns))"
      using insert_steps_Inr by metis
    show ?thesis
      by (rule new [where w = w and r = v and ns = ns and m = m]) (use w k nk r ns v(2) in auto)
  qed
qed

lemma start_ok:
  assumes ok: "wf_ok d" shows "wf_ok (fst (start_run U wid input key d))"
proof (cases "start_run U wid input key d")
  case (Pair d' res)
  from this ok show ?thesis
  proof (cases rule: start_cases)
    case (new w r ns m)
    have old: "steps_of d' (wr_id x) = steps_of d (wr_id x)" if "x \<in> set (db_runs d)" for x
    proof -
      have "wr_id x \<noteq> wr_id r" using new(6) that by (metis imageI)
      then have "filter (\<lambda>s. wt_run s = wr_id x) ns = []"
        using new(11) by (auto simp: filter_empty_conv list_all_iff fresh_step_def)
      then show ?thesis by (simp add: steps_of_def new(9))
    qed
    have "wt_run s \<noteq> wr_id r" if "s \<in> set (db_steps d)" for s
      using ok new(6) that unfolding wf_ok_def by metis
    then have "filter (\<lambda>s. wt_run s = wr_id r) (db_steps d) = []" by (simp add: filter_empty_conv)
    moreover have "filter (\<lambda>s. wt_run s = wr_id r) ns = ns"
      using new(11) by (auto simp: list_all_iff fresh_step_def intro: filter_all_id)
    ultimately have mine: "steps_of d' (wr_id r) = ns" by (simp add: steps_of_def new(9))
    have len: "length ns = length (wd_steps w)" using new(13) by (metis length_map)
    have wd: "wd_steps w \<noteq> []" "distinct (map sx_key (wd_steps w))" using ok new(1) by (auto simp: wf_ok_def)
    have ne: "ns \<noteq> []" using wd(1) len by auto
    have "list_all untried ns" "list_all (\<lambda>s. wt_status s \<noteq> StCancelled) ns"
      using new(11) by (auto simp: list_all_iff fresh_step_def untried_def)
    then have p: "pipeline ns" by (rule pipeline_untried)
    have st: "pipeline_status ns = RnRunning" using ne new(11) by (cases ns) (auto simp: fresh_step_def)
    have so: "list_all step_ok ns" using new(11) by (auto simp: list_all_iff fresh_step_def step_ok_def untried_def)
    have cost: "sum_list (map wt_cost ns) = 0"
      using new(11) by (intro sum_list_nonneg_eq_0_iff [THEN iffD2]) (auto simp: list_all_iff fresh_step_def)
    have "wr_status r = RnRunning" "wr_cost r = 0" by (subst new(8), simp add: new_run_def)+
    with ne p st so cost wd(2) new(12,13) len have "run_ok ns r" by (simp add: run_ok_def line_ok_def)
    then have runs: "\<forall>x\<in>set (db_runs d'). run_ok (steps_of d' (wr_id x)) x"
      using ok old mine by (auto simp: new(9) wf_ok_def)
    have "wr_commandKey r = key" by (subst new(8), simp add: new_run_def)
    then have "distinct (map wr_id (db_runs d'))" "distinct (map wr_commandKey (db_runs d'))"
      using ok new(5,6) by (auto simp: new(9) wf_ok_def)
    moreover have "\<forall>s\<in>set (db_steps d'). wt_run s \<in> wr_id ` set (db_runs d')"
      using ok new(11) by (auto simp: new(9) wf_ok_def list_all_iff fresh_step_def)
    ultimately show ?thesis using ok runs new(14) unfolding Pair fst_conv by (simp add: wf_ok_def new(9))
  qed (use ok in \<open>simp_all add: Pair\<close>)
qed

section \<open>Every move of the system\<close>

lemma commit_db_cases: "wf_ok (fa_db w) \<Longrightarrow> wf_ok (fa_db (fst (commit worker r s spid v w)))"
  using block_ok [of "fa_db w" "wt_id s" worker] succeed_ok [of "fa_db w" "wt_id s" worker] fail_ok [of "fa_db w" "wt_id s" worker]
  by (auto simp: commit_def split: verdict.split prod.split sum.split) (metis fst_conv)+

lemma close_db: "wf_ok (fa_db w) \<Longrightarrow> wf_ok (fa_db (fst (close r s spid v w)))"
  using finishSpan_ok [of "fa_db w" spid]
  by (auto simp: close_def split: verdict.split prod.split sum.split) (metis fst_conv)+

lemma runner_move_ok: "wf_ok (fa_db w) \<Longrightarrow> wf_ok (fa_db (fst (runner_move U H worker p w)))"
proof (cases p)
  case (AtClaim r)
  assume "wf_ok (fa_db w)"
  then show ?thesis using claimNext_ok [of "fa_db w" "wr_id r" worker]
    by (auto simp: AtClaim runner_move_def claim_def split: prod.split option.split)
next
  case (AtTrace r s)
  assume "wf_ok (fa_db w)"
  then show ?thesis using startSpan_ok [of "fa_db w" U r s]
    by (auto simp: AtTrace runner_move_def trace_step_def split: prod.split sum.split) (metis fst_conv)+
qed (simp_all add: runner_move_def handle_def commit_db_cases close_db split: option.split prod.split)

lemma serve_ok: "wf_ok (sy_db s) \<Longrightarrow> wf_ok (sy_db (serve U H worker e s))"
proof (cases e)
  case (Start wid body key run)
  assume "wf_ok (sy_db s)"
  then show ?thesis using start_ok [of "sy_db s" U wid "JObj body" key]
    by (auto simp: Start serve_def with_db_def spawn_def split: prod.split sum.split)
next
  case (Resume rid key body)
  assume "wf_ok (sy_db s)"
  then show ?thesis using resume_ok [of "sy_db s" rid key "JObj body"]
    by (auto simp: Resume serve_def with_db_def spawn_def split: prod.split sum.split)
next
  case (Move i)
  assume "wf_ok (sy_db s)"
  then show ?thesis using runner_move_ok [of "sy_world s" U H worker "sy_runners s ! i"]
    by (auto simp: Move serve_def split: prod.split)
qed (simp_all add: serve_def with_db_def createDefinition_ok cancel_ok requeue_ok heartbeat_ok)

theorem history_ok: "history U H worker x0 es s \<Longrightarrow> wf_ok (sy_db s)"
proof (induction rule: history.induct)
  case (init now)
  show ?case by (simp add: boot_def empty_db_def wf_ok_def)
next
  case (step es s e)
  then show ?case by (simp add: serve_ok)
qed


end
