(* ===== verification/WorkflowGuarantees.thy ===== *)
theory WorkflowGuarantees
  imports WorkflowProperties
begin

text \<open>
  What the workflow engine promises for every history of requests and every interleaving of
  runners: how a row can change (\<open>step_change\<close>, \<open>evolves\<close>), status and cost of a run, the
  number of attempts, and that a runner that is left alone returns.
\<close>

section \<open>How the rows change\<close>

text \<open>
  What one event can do to a row of the steps: \<open>d\<close> is the database before it, \<open>p\<close> the phase
  of the runner that moves.
\<close>

inductive step_change :: "wf_db \<Rightarrow> wf_event \<Rightarrow> phase option \<Rightarrow> wf_step \<Rightarrow> wf_step \<Rightarrow> bool"
  for d e p t where
  same: "step_change d e p t t"
| taken: "claimable d t \<Longrightarrow> p = Some (AtClaim r) \<Longrightarrow> wr_id r = wt_run t \<Longrightarrow>
    step_change d e p t (claimed (db_now d) worker (artifact d t) t)"
| beat: "wt_status t = StRunning \<Longrightarrow> step_change d e p t (t\<lparr>wt_heartbeatAt := h\<rparr>)"
| finished: "wt_status t = StRunning \<Longrightarrow> p = Some (AtCommit r s spid (VSucceed out)) \<Longrightarrow> wt_id s = wt_id t \<Longrightarrow>
    step_change d e p t (succeeded now out c t)"
| stopped: "wt_status t = StRunning \<Longrightarrow> p = Some (AtCommit r s spid (VBlock out reason)) \<Longrightarrow> wt_id s = wt_id t \<Longrightarrow>
    step_change d e p t (t\<lparr>wt_status := StBlocked, wt_output := stored out, wt_error := Some (stored reason),
       wt_worker := None, wt_heartbeatAt := Some now\<rparr>)"
| lost: "wt_status t = StRunning \<Longrightarrow> step_change d e p t (failed now err delay terminal t)"
| resumed: "wt_status t = StBlocked \<Longrightarrow> e = Resume (wt_run t) (wt_key t) body \<Longrightarrow>
    step_change d e p t (t\<lparr>wt_status := StQueued, wt_input := jsonb_concat (wt_output t) (stored (JObj body)),
              wt_error := None, wt_availableAt := now\<rparr>)"
| ended: "active t \<Longrightarrow> step_change d e p t (t\<lparr>wt_status := StCancelled, wt_worker := None\<rparr>)"
| given_up: "stuck b t \<Longrightarrow> step_change d e p t (requeued now t)"

definition same_run :: "wf_run \<Rightarrow> wf_run \<Rightarrow> bool" where
  "same_run r r' \<longleftrightarrow> wr_id r' = wr_id r \<and> wr_workflow r' = wr_workflow r \<and> wr_input r' = wr_input r \<and>
     wr_commandKey r' = wr_commandKey r \<and> wr_traceId r' = wr_traceId r"

definition begins :: "wf_db \<Rightarrow> wf_event \<Rightarrow> wf_run \<Rightarrow> bool" where
  "begins d e r \<longleftrightarrow> wr_id r \<notin> wr_id ` set (db_runs d) \<and>
     (\<exists>body key run. e = Start (wr_workflow r) body key run \<and> wr_input r = json_image (JObj body) \<and> wr_commandKey r = key)"

definition evolves :: "wf_db \<Rightarrow> wf_event \<Rightarrow> phase option \<Rightarrow> wf_db \<Rightarrow> bool" where
  "evolves d e p d' \<longleftrightarrow>
     (\<forall>t'\<in>set (db_steps d'). (\<exists>t\<in>set (db_steps d). step_change d e p t t') \<or>
        (\<exists>r\<in>set (db_runs d'). begins d e r \<and> fresh_step (wr_id r) (wr_input r) t')) \<and>
     (\<forall>t\<in>set (db_steps d). \<exists>t'\<in>set (db_steps d'). step_change d e p t t') \<and>
     (\<forall>r'\<in>set (db_runs d'). (\<exists>r\<in>set (db_runs d). same_run r r') \<or> begins d e r') \<and>
     (\<forall>r\<in>set (db_runs d). \<exists>r'\<in>set (db_runs d'). same_run r r')"

lemma same_run_refl [simp]: "same_run r r"
  by (simp add: same_run_def)

lemma evolves_same: "db_steps d' = db_steps d \<Longrightarrow> db_runs d' = db_runs d \<Longrightarrow> evolves d e p d'"
  unfolding evolves_def by (simp only:) (blast intro: step_change.same same_run_refl)

text \<open>An update of some rows.\<close>

lemma evolves_update:
  assumes "db_steps d' = update_where P f (db_steps d)" and "db_runs d' = update_where Q g (db_runs d)"
    and "\<And>t. t \<in> set (db_steps d) \<Longrightarrow> P t \<Longrightarrow> step_change d e p t (f t)" and "\<And>r. same_run r (g r)"
  shows "evolves d e p d'"
proof -
  have st: "step_change d e p t (if P t then f t else t)" if "t \<in> set (db_steps d)" for t
    using assms(3) that by (simp add: step_change.same)
  have rn: "same_run r (if Q r then g r else r)" for r using assms(4) by simp
  show ?thesis unfolding evolves_def assms(1,2) set_update_where using st rn by blast
qed

lemma evolves_one:
  assumes "wf_ok d" and s: "s \<in> set (db_steps d)" and "db_steps d' = update_where (\<lambda>x. wt_id x = wt_id s) (\<lambda>_. t) (db_steps d)"
    and "db_runs d' = update_where Q g (db_runs d)" and t: "step_change d e p s t" and "\<And>r. same_run r (g r)"
  shows "evolves d e p d'"
  by (rule evolves_update [OF assms(3,4) _ assms(6)]) (auto dest!: unique_step [OF assms(1) _ s] simp: t)

lemma runs_unchanged: "db_runs d' = db_runs d \<Longrightarrow> db_runs d' = update_where (\<lambda>_. False) (\<lambda>r. r) (db_runs d)"
  by (simp add: update_where_def)

lemma start_evolves:
  assumes "start_run U wid (JObj body) key d = (d', res)" and "wf_ok d"
  shows "evolves d (Start wid body key run) p d'"
  using assms
proof (cases rule: start_cases)
  case (new w r ns m)
  have w: "wr_workflow r = wid" "wr_input r = json_image (JObj body)" "wr_commandKey r = key"
    by (subst new(8), simp add: new_run_def)+
  with new(6) have b: "begins d (Start wid body key run) r" by (auto simp: begins_def)
  have "fresh_step (wr_id r) (wr_input r) t" if "t \<in> set ns" for t
    using new(11) that w(2) by (auto simp: list_all_iff fresh_step_def json_image_idem simp del: json_image.simps)
  then have fr: "\<forall>t\<in>set ns. fresh_step (wr_id r) (wr_input r) t" by blast
  have sets: "set (db_steps d') = set (db_steps d) \<union> set ns" "set (db_runs d') = insert r (set (db_runs d))"
    by (simp_all add: new(9))
  show ?thesis unfolding evolves_def sets
  proof (intro conjI ballI)
    fix t assume "t \<in> set (db_steps d)"
    then show "Bex (set (db_steps d) \<union> set ns) (step_change d (Start wid body key run) p t)"
      by (blast intro: step_change.same)
  next
    fix t assume "t \<in> set (db_steps d) \<union> set ns"
    then show "(\<exists>u\<in>set (db_steps d). step_change d (Start wid body key run) p u t) \<or>
        (\<exists>x\<in>insert r (set (db_runs d)). begins d (Start wid body key run) x \<and> fresh_step (wr_id x) (wr_input x) t)"
      using fr b by (blast intro: step_change.same)
  next
    fix x assume "x \<in> insert r (set (db_runs d))"
    then show "(\<exists>y\<in>set (db_runs d). same_run y x) \<or> begins d (Start wid body key run) x"
      using b same_run_refl by blast
  next
    fix x assume "x \<in> set (db_runs d)"
    then show "Bex (insert r (set (db_runs d))) (same_run x)" using same_run_refl by blast
  qed
qed (auto intro: evolves_same)

lemma owned_running: "owned sid worker s \<Longrightarrow> wt_status s = StRunning \<and> wt_id s = sid"
  by (simp add: owned_def)

lemma commit_evolves:
  assumes ok: "wf_ok (fa_db w)"
  shows "evolves (fa_db w) e (Some (AtCommit r s spid v)) (fa_db (fst (commit worker r s spid v w)))"
proof -
  let ?d = "fa_db w"
  show ?thesis
  proof (cases v)
    case (VBlock out reason)
    obtain d' res where c: "block_step (wt_id s) worker out reason ?d = (d', res)" by fastforce
    have "evolves ?d e (Some (AtCommit r s spid v)) d'"
      using c [unfolded block_step_def] ok
    proof (cases rule: ownedUpdate_cases)
      case (one t)
      let ?u = "t\<lparr>wt_status := StBlocked, wt_output := stored out, wt_error := Some (stored reason),
        wt_worker := None, wt_heartbeatAt := Some (db_now ?d)\<rparr>"
      have "step_change ?d e (Some (AtCommit r s spid v)) t ?u"
        by (rule step_change.stopped [where s = s]) (use one VBlock in \<open>auto dest: owned_running\<close>)
      from evolves_one [OF ok one(1) _ runs_unchanged this] show ?thesis by (auto simp: one(4))
    qed (auto intro: evolves_same)
    with c VBlock show ?thesis by (auto simp: commit_def split: sum.split)
  next
    case (VSucceed out)
    obtain d' res where c: "succeed_step (wt_id s) worker out (step_cost out) ?d = (d', res)" by fastforce
    have "evolves ?d e (Some (AtCommit r s spid v)) d'"
      using c ok
    proof (cases rule: succeed_cases)
      case (one t a u d1 tot)
      have "step_change ?d e (Some (AtCommit r s spid v)) t u"
        unfolding one(5) by (rule step_change.finished [where s = s]) (use one VSucceed in \<open>auto dest: owned_running\<close>)
      from evolves_one [OF ok one(1) _ _ this] show ?thesis by (auto simp: one(9) one(7) same_run_def settle_run_def)
    qed (auto intro: evolves_same)
    with c VSucceed show ?thesis by (auto simp: commit_def split: sum.split)
  next
    case (VFail x)
    obtain d' res where c: "fail_step (wt_id s) worker (detail x) (if retryable x then 1000 else 0) (\<not> retryable x) ?d = (d', res)"
      by fastforce
    have "evolves ?d e (Some (AtCommit r s spid v)) d'"
      using c ok
    proof (cases rule: fail_cases)
      case (one t u)
      have "step_change ?d e (Some (AtCommit r s spid v)) t u"
        unfolding one(3) by (rule step_change.lost) (use one in \<open>auto dest: owned_running\<close>)
      from evolves_one [OF ok one(1) _ _ this] show ?thesis by (auto simp: one(5) same_run_def end_run_def)
    qed (auto intro: evolves_same)
    with c VFail show ?thesis by (auto simp: commit_def split: sum.split)
  qed
qed

lemma close_tables: "db_steps (fa_db (fst (close r s spid v w))) = db_steps (fa_db w) \<and>
    db_runs (fa_db (fst (close r s spid v w))) = db_runs (fa_db w)"
proof -
  have "db_steps (fst (finishSpan i st a x d)) = db_steps d \<and> db_runs (fst (finishSpan i st a x d)) = db_runs d" for i st a x d
    by (simp add: finishSpan_def Let_def split: option.split)
  then show ?thesis by (auto simp: close_def split: verdict.split prod.split sum.split) (metis fst_conv)+
qed

lemma move_evolves:
  assumes ok: "wf_ok (fa_db w)"
  shows "evolves (fa_db w) e (Some p) (fa_db (fst (runner_move U H worker p w)))"
proof (cases p)
  case (AtClaim r)
  obtain d' res where c: "claimNext (wr_id r) worker (fa_db w) = (d', res)" by fastforce
  have "evolves (fa_db w) e (Some p) d'"
    using c ok
  proof (cases rule: claimNext_cases)
    case (one s t)
    have "step_change (fa_db w) e (Some p) s t"
      unfolding one(5) by (rule step_change.taken) (use one AtClaim in auto)
    from evolves_one [OF ok one(1) _ runs_unchanged this] show ?thesis by (auto simp: one(6))
  qed (auto intro: evolves_same)
  with c AtClaim show ?thesis by (simp add: runner_move_def claim_def split: option.split)
next
  case (AtTrace r s)
  have "db_steps (fst (startSpan U r s a d)) = db_steps d \<and> db_runs (fst (startSpan U r s a d)) = db_runs d" for a d
    by (simp add: startSpan_def Let_def)
  then have "db_steps (fa_db (fst (trace_step U r s w))) = db_steps (fa_db w) \<and> db_runs (fa_db (fst (trace_step U r s w))) = db_runs (fa_db w)"
    by (auto simp: trace_step_def split: prod.split sum.split) (metis fst_conv)+
  then show ?thesis by (auto simp: AtTrace runner_move_def intro: evolves_same)
next
  case (AtCommit r s spid v)
  then show ?thesis using commit_evolves [OF ok] by (simp add: runner_move_def)
qed (auto simp: runner_move_def handle_def close_tables intro!: evolves_same split: option.split prod.split)

definition moving :: "'x system \<Rightarrow> wf_event \<Rightarrow> phase option" where
  "moving s e = (case e of Move i \<Rightarrow> if i < length (sy_runners s) then Some (sy_runners s ! i) else None | _ \<Rightarrow> None)"

lemma serve_evolves:
  assumes ok: "wf_ok (sy_db s)"
  shows "evolves (sy_db s) e (moving s e) (sy_db (serve U H worker e s))"
proof (cases e)
  case (Define brand name specs)
  show ?thesis
    by (rule evolves_same) (auto simp: Define serve_def with_db_def createDefinition_def Let_def)
next
  case (Start wid body key run)
  obtain d' res where c: "start_run U wid (JObj body) key (sy_db s) = (d', res)" by fastforce
  then show ?thesis using start_evolves [OF c ok]
    by (simp add: Start serve_def with_db_def spawn_def split: sum.split)
next
  case (Resume rid key body)
  obtain d' res where c: "resumeBlocked rid key (JObj body) (sy_db s) = (d', res)" by fastforce
  have "evolves (sy_db s) e (moving s e) d'"
    using c ok
  proof (cases rule: resume_cases)
    case (one t u)
    have "step_change (sy_db s) e (moving s e) t u"
      unfolding one(6) by (rule step_change.resumed) (use one Resume in auto)
    from evolves_one [OF ok one(1) _ runs_unchanged this] show ?thesis by (auto simp: one(7))
  qed (auto intro: evolves_same)
  with c Resume show ?thesis by (simp add: serve_def with_db_def spawn_def split: sum.split)
next
  case (Cancel rid)
  let ?q = "\<lambda>r. wr_id r = rid \<and> wr_status r \<in> {RnQueued, RnRunning, RnPaused}"
  have "evolves d e p (fst (cancel_run rid d))" for d p
  proof (cases "find ?q (db_runs d)")
    case None
    then show ?thesis by (auto simp: cancel_run_def transaction_def Let_def intro: evolves_same)
  next
    case (Some r)
    show ?thesis
      by (rule evolves_update [where f = "\<lambda>s. s\<lparr>wt_status := StCancelled, wt_worker := None\<rparr>"
            and P = "\<lambda>s. wt_run s = rid \<and> wt_status s \<in> {StQueued, StRunning, StRetryWait, StBlocked}"
            and Q = ?q and g = "end_run (db_now d) RnCancelled"])
        (use Some in \<open>auto simp: cancel_run_def transaction_def Let_def active_def same_run_def end_run_def
           intro: step_change.ended\<close>)
  qed
  then show ?thesis by (simp add: Cancel serve_def with_db_def)
next
  case (Requeue staleBefore)
  have "evolves d e p (fst (requeueStuck staleBefore d))" for d p
    unfolding requeueStuck_def Let_def fst_conv
    by (rule evolves_update [where f = "requeued (db_now d)" and P = "stuck staleBefore" and g = "end_run (db_now d) RnFailed"])
      (auto simp: same_run_def end_run_def intro: step_change.given_up)
  then show ?thesis by (simp add: Requeue serve_def with_db_def)
next
  case (Beat sid)
  obtain d' res where c: "heartbeat_step sid worker (sy_db s) = (d', res)" by fastforce
  have "evolves (sy_db s) e (moving s e) d'"
    using c [unfolded heartbeat_step_def] ok
  proof (cases rule: ownedUpdate_cases)
    case (one t)
    have "step_change (sy_db s) e (moving s e) t (t\<lparr>wt_heartbeatAt := Some (db_now (sy_db s))\<rparr>)"
      by (rule step_change.beat) (use one in \<open>auto dest: owned_running\<close>)
    from evolves_one [OF ok one(1) _ runs_unchanged this] show ?thesis by (auto simp: one(4))
  qed (auto intro: evolves_same)
  with c Beat show ?thesis by (simp add: serve_def with_db_def)
next
  case (Wait ms)
  show ?thesis by (rule evolves_same) (simp_all add: Wait serve_def with_db_def)
next
  case (Move i)
  then show ?thesis using move_evolves [OF ok, of e "sy_runners s ! i" U H worker]
    by (auto simp: serve_def moving_def intro: evolves_same split: prod.split)
qed

section \<open>What never changes about a step\<close>

lemma evolves_step:
  "evolves d e p d' \<Longrightarrow> t' \<in> set (db_steps d') \<Longrightarrow>
   (\<exists>t\<in>set (db_steps d). step_change d e p t t') \<or> (\<exists>r\<in>set (db_runs d'). begins d e r \<and> fresh_step (wr_id r) (wr_input r) t')"
  by (simp add: evolves_def)

lemma evolves_step_on: "evolves d e p d' \<Longrightarrow> t \<in> set (db_steps d) \<Longrightarrow> \<exists>t'\<in>set (db_steps d'). step_change d e p t t'"
  by (simp add: evolves_def)

lemma evolves_run: "evolves d e p d' \<Longrightarrow> r' \<in> set (db_runs d') \<Longrightarrow> (\<exists>r\<in>set (db_runs d). same_run r r') \<or> begins d e r'"
  by (simp add: evolves_def)

lemma evolves_run_on: "evolves d e p d' \<Longrightarrow> r \<in> set (db_runs d) \<Longrightarrow> \<exists>r'\<in>set (db_runs d'). same_run r r'"
  by (simp add: evolves_def)

lemma step_change_place:
  "step_change d e p t t' \<Longrightarrow> same_place t t' \<and> wt_maxAttempts t' = wt_maxAttempts t \<and> wt_attempt t \<le> wt_attempt t'"
  by (cases rule: step_change.cases) (auto simp: same_place_def claimed_def succeeded_def failed_def requeued_def)

lemma step_change_succeeded: "step_change d e p t t' \<Longrightarrow> wt_status t = StSucceeded \<Longrightarrow> t' = t \<or> wt_status t' = StSucceeded \<and> wt_output t' = wt_output t"
  by (cases rule: step_change.cases) (auto simp: claimable_def stuck_def active_def)

section \<open>How often a step is tried\<close>

text \<open>The approvals of a step among the events.\<close>

definition resumes :: "wf_event list \<Rightarrow> string \<Rightarrow> string \<Rightarrow> nat" where
  "resumes es rid key =
     length (filter (\<lambda>e. case e of Resume r k _ \<Rightarrow> r = rid \<and> k = key | _ \<Rightarrow> False) es)"

definition tries_ok :: "wf_event list \<Rightarrow> wf_step \<Rightarrow> bool" where
  "tries_ok es t \<longleftrightarrow>
     wt_attempt t \<le> wt_maxAttempts t + int (resumes es (wt_run t) (wt_key t)) \<and>
     (wt_status t = StQueued \<or> wt_status t = StRetryWait \<longrightarrow>
        wt_attempt t < wt_maxAttempts t + int (resumes es (wt_run t) (wt_key t)))"

lemma resumes_mono: "resumes es rid key \<le> resumes (e # es) rid key"
  by (simp add: resumes_def)

lemma tries_ok_step:
  assumes "step_change d e p t t'" and "tries_ok es t"
  shows "tries_ok (e # es) t'"
  using assms(1)
proof cases
  case (resumed body now)
  then show ?thesis using assms(2) by (simp add: tries_ok_def resumes_def)
qed (use assms(2) resumes_mono [of es "wt_run t" "wt_key t" e] in
     \<open>auto simp: tries_ok_def claimed_def succeeded_def failed_def requeued_def claimable_def stuck_def\<close>)

lemma history_tries: "history U H worker x0 es s \<Longrightarrow> \<forall>t\<in>set (db_steps (sy_db s)). tries_ok es t"
proof (induction rule: history.induct)
  case (init now)
  show ?case by (simp add: boot_def empty_db_def)
next
  case (step es s e)
  show ?case
  proof
    fix t' assume t': "t' \<in> set (db_steps (sy_db (serve U H worker e s)))"
    from evolves_step [OF serve_evolves [OF history_ok [OF step.hyps(1)]] t']
    consider t where "t \<in> set (db_steps (sy_db s))" "step_change (sy_db s) e (moving s e) t t'"
      | r where "fresh_step (wr_id (r :: wf_run)) (wr_input r) t'" by blast
    then show "tries_ok (e # es) t'"
    proof cases
      case (1 t)
      with step.IH show ?thesis using tries_ok_step by blast
    next
      case (2 r)
      then show ?thesis by (simp add: tries_ok_def fresh_step_def)
    qed
  qed
qed


section \<open>Status and cost of a run\<close>

lemma pipeline_earlier:
  "pipeline L \<Longrightarrow> sorted_wrt (\<lambda>x y. wt_order x < wt_order y) L \<Longrightarrow> b \<in> set L \<Longrightarrow> t \<in> set L \<Longrightarrow>
   0 < wt_attempt t \<Longrightarrow> wt_order b < wt_order t \<Longrightarrow> wt_status b = StSucceeded"
proof (induction L)
  case (Cons x L)
  show ?case
  proof (cases "wt_status x = StSucceeded")
    case True
    show ?thesis
    proof (cases "b = x")
      case False
      with Cons.prems have "b \<in> set L" by simp
      moreover have "t \<noteq> x" using Cons.prems \<open>b \<in> set L\<close> by auto
      ultimately show ?thesis using Cons True by simp
    qed (use True in simp)
  next
    case False
    with Cons.prems(1) have "\<forall>y\<in>set L. wt_attempt y = 0" by (simp add: list_all_iff same_fate_def untried_def)
    with Cons.prems(4,5) have "t = x" by auto
    with Cons.prems(2,3,6) show ?thesis by auto
  qed
qed simp

lemma line_sorted: "line_ok L \<Longrightarrow> sorted_wrt (\<lambda>x y. wt_order x < wt_order y) L"
proof -
  assume "line_ok L"
  then have "map wt_order L = [0..<length L]" by (simp add: line_ok_def)
  then have "sorted_wrt (<) (map wt_order L)" by (simp only: sorted_wrt_upt)
  then show ?thesis by (simp add: sorted_wrt_map)
qed

lemma earlier_succeeded:
  assumes "wf_ok d" and "t \<in> set (db_steps d)" and "0 < wt_attempt t" and "b \<in> set (db_steps d)"
    and "wt_run b = wt_run t" and "wt_order b < wt_order t"
  shows "wt_status b = StSucceeded"
proof -
  obtain r where "run_ok (steps_of d (wt_run t)) r" using run_of_step [OF assms(1,2)] by blast
  then have line: "line_ok (steps_of d (wt_run t))" by (simp add: run_ok_def)
  then have "pipeline (steps_of d (wt_run t))" by (simp add: line_ok_def)
  from pipeline_earlier [OF this line_sorted [OF line]] show ?thesis using assms by simp
qed

text \<open>
  C33: Whatever is requested in whatever order, the status of a run is what its steps say, its cost is the sum of
  theirs, and a step is tried only when every step before it has succeeded.
\<close>

theorem run_agrees_with_steps:
  assumes "history U H worker x0 es s" and "r \<in> set (db_runs (sy_db s))"
  shows "wr_status r = pipeline_status (steps_of (sy_db s) (wr_id r)) \<and>
    wr_cost r = run_cost (sy_db s) (wr_id r) \<and>
    (\<forall>b\<in>set (steps_of (sy_db s) (wr_id r)). \<forall>t\<in>set (steps_of (sy_db s) (wr_id r)).
       wt_order b < wt_order t \<and> 0 < wt_attempt t \<longrightarrow> wt_status b = StSucceeded)"
proof -
  note ok = history_ok [OF assms(1)]
  then have "run_ok (steps_of (sy_db s) (wr_id r)) r" using assms(2) by (simp add: wf_ok_def)
  moreover have "wt_status b = StSucceeded" if "b \<in> set (steps_of (sy_db s) (wr_id r))"
    "t \<in> set (steps_of (sy_db s) (wr_id r))" "wt_order b < wt_order t" "0 < wt_attempt t" for b t
    by (rule earlier_succeeded [OF ok]) (use that in auto)
  ultimately show ?thesis by (simp add: run_ok_def run_cost_def)
qed

section \<open>Fresh spans\<close>

definition drawn :: "(nat \<Rightarrow> string) \<Rightarrow> wf_db \<Rightarrow> bool" where
  "drawn U d \<longleftrightarrow> wp_id ` set (db_spans d) \<subseteq> U ` {..<db_fresh d}"

lemma spans_drawn_mono: "drawn U d \<Longrightarrow> db_spans d' = db_spans d \<Longrightarrow> db_fresh d \<le> db_fresh d' \<Longrightarrow> drawn U d'"
  unfolding drawn_def by (metis image_mono lessThan_subset_iff order_trans)

lemma steps_drawn:
  "drawn U d \<Longrightarrow> drawn U (fst (update_steps p f m d))" "drawn U d \<Longrightarrow> drawn U (fst (ownedUpdate sid worker f d))"
  by (auto simp: drawn_def update_steps_def ownedUpdate_def split: option.split)

lemma createDefinition_drawn: "drawn U d \<Longrightarrow> drawn U (fst (createDefinition U brand name specs d))"
  by (erule spans_drawn_mono) (auto simp: createDefinition_def Let_def)

lemma start_drawn:
  assumes "drawn U d" and "wf_ok d" shows "drawn U (fst (start_run U wid input key d))"
proof (cases "start_run U wid input key d")
  case (Pair d' res)
  from this assms(2) show ?thesis
    by (cases rule: start_cases) (use assms(1) in \<open>auto simp: Pair intro: spans_drawn_mono\<close>)
qed

lemma claim_drawn: "drawn U d \<Longrightarrow> drawn U (fst (claimNext rid worker d))"
  by (erule spans_drawn_mono) (auto simp: claimNext_def Let_def split: list.split)

lemma fail_drawn: "drawn U d \<Longrightarrow> drawn U (fst (fail_step sid worker err delay terminal d))"
  by (erule spans_drawn_mono)
    (auto simp: fail_step_def ownedUpdate_def update_steps_def transaction_def andThen_def split: option.split)

lemma succeed_drawn: "drawn U d \<Longrightarrow> wf_ok d \<Longrightarrow> drawn U (fst (succeed_step sid worker out cost d))"
proof (cases "succeed_step sid worker out cost d")
  case (Pair d' res)
  assume a: "drawn U d" "wf_ok d"
  from Pair a(2) show ?thesis
    by (cases rule: succeed_cases) (use a(1) in \<open>auto simp: Pair intro: spans_drawn_mono\<close>)
qed

lemma finishSpan_drawn: "drawn U d \<Longrightarrow> drawn U (fst (finishSpan i st a x d))"
  by (auto simp: drawn_def finishSpan_def Let_def update_where_def split: option.split)

lemma startSpan_drawn: "drawn U d \<Longrightarrow> drawn U (fst (startSpan U r s a d))"
  by (auto simp: drawn_def startSpan_def Let_def intro: less_SucI)

lemma commit_drawn: "drawn U (fa_db w) \<Longrightarrow> wf_ok (fa_db w) \<Longrightarrow> drawn U (fa_db (fst (commit worker r s spid v w)))"
  using steps_drawn(2) [of U "fa_db w" "wt_id s" worker] succeed_drawn [of U "fa_db w" "wt_id s" worker]
    fail_drawn [of U "fa_db w" "wt_id s" worker]
  by (auto simp: commit_def block_step_def split: verdict.split prod.split sum.split) (metis fst_conv)+

lemma close_drawn: "drawn U (fa_db w) \<Longrightarrow> drawn U (fa_db (fst (close r s spid v w)))"
  using finishSpan_drawn [of U "fa_db w" spid]
  by (auto simp: close_def split: verdict.split prod.split sum.split) (metis fst_conv)+

lemma runner_move_drawn:
  "drawn U (fa_db w) \<Longrightarrow> wf_ok (fa_db w) \<Longrightarrow> drawn U (fa_db (fst (runner_move U H worker p w)))"
proof (cases p)
  case (AtClaim r)
  assume "drawn U (fa_db w)"
  then show ?thesis using claim_drawn [of U "fa_db w" "wr_id r" worker]
    by (auto simp: AtClaim runner_move_def claim_def split: prod.split option.split)
next
  case (AtTrace r s)
  assume "drawn U (fa_db w)"
  then show ?thesis using startSpan_drawn [of U "fa_db w" r s]
    by (auto simp: AtTrace runner_move_def trace_step_def split: prod.split sum.split) (metis fst_conv)+
qed (simp_all add: runner_move_def handle_def commit_drawn close_drawn split: option.split prod.split)

lemma serve_drawn: "drawn U (sy_db s) \<Longrightarrow> wf_ok (sy_db s) \<Longrightarrow> drawn U (sy_db (serve U H worker e s))"
proof (cases e)
  case (Start wid body key run)
  assume "drawn U (sy_db s)" "wf_ok (sy_db s)"
  then show ?thesis using start_drawn [of U "sy_db s" wid "JObj body" key]
    by (auto simp: Start serve_def with_db_def spawn_def split: prod.split sum.split)
next
  case (Resume rid key body)
  assume "drawn U (sy_db s)"
  then have "drawn U (fst (resumeBlocked rid key (JObj body) (sy_db s)))"
    by (simp add: resumeBlocked_def steps_drawn)
  then show ?thesis by (auto simp: Resume serve_def with_db_def spawn_def split: prod.split sum.split)
next
  case (Cancel rid)
  assume "drawn U (sy_db s)"
  then show ?thesis
    by (auto simp: Cancel serve_def with_db_def cancel_run_def transaction_def Let_def drawn_def split: option.split)
next
  case (Requeue b)
  assume "drawn U (sy_db s)"
  then show ?thesis by (simp add: Requeue serve_def with_db_def requeueStuck_def Let_def drawn_def)
next
  case (Wait ms)
  assume "drawn U (sy_db s)"
  then show ?thesis by (simp add: Wait serve_def with_db_def drawn_def)
next
  case (Move i)
  assume "drawn U (sy_db s)" "wf_ok (sy_db s)"
  then show ?thesis using runner_move_drawn [of U "sy_world s" H worker "sy_runners s ! i"]
    by (auto simp: Move serve_def split: prod.split)
qed (simp_all add: serve_def with_db_def createDefinition_drawn heartbeat_step_def steps_drawn)

lemma history_drawn: "history U H worker x0 es s \<Longrightarrow> drawn U (sy_db s)"
proof (induction rule: history.induct)
  case (init now)
  show ?case by (simp add: boot_def empty_db_def drawn_def)
next
  case (step es s e)
  then show ?case by (simp add: serve_drawn history_ok)
qed

section \<open>A runner left alone returns\<close>

definition settled_run :: "wf_db \<Rightarrow> string \<Rightarrow> bool" where
  "settled_run d rid \<longleftrightarrow> (\<forall>x\<in>set (steps_of d rid). \<not> claimable d x)"

definition due :: "int \<Rightarrow> wf_step \<Rightarrow> bool" where
  "due now s \<longleftrightarrow> wt_status s \<noteq> StSucceeded \<and> wt_status s \<noteq> StFailed \<and> \<not> (wt_status s = StRetryWait \<and> now < wt_availableAt s)"

definition pending :: "wf_db \<Rightarrow> string \<Rightarrow> nat" where
  "pending d rid = length (filter (due (db_now d)) (steps_of d rid))"

lemma line_of: "wf_ok d \<Longrightarrow> t \<in> set (db_steps d) \<Longrightarrow> line_ok (steps_of d (wt_run t))"
  by (erule (1) run_of_step) (simp add: run_ok_def)

lemma same_order:
  assumes "line_ok L" and "x \<in> set L" and "t \<in> set L" and "wt_order x = wt_order t"
  shows "x = t"
proof -
  have "distinct (map wt_order L)" using assms(1) by (simp add: line_ok_def)
  then show ?thesis using assms(2-4) unfolding distinct_map by (blast dest: inj_onD)
qed

lemma settled_at:
  assumes ok: "wf_ok d" and t: "t \<in> set (db_steps d)" "0 < wt_attempt t" "wt_status t \<notin> {StSucceeded, StQueued, StRetryWait}"
  shows "settled_run d (wt_run t)"
  unfolding settled_run_def
proof
  fix x assume x: "x \<in> set (steps_of d (wt_run t))"
  consider "wt_order t < wt_order x" | "wt_order x < wt_order t" | "wt_order x = wt_order t" by linarith
  then show "\<not> claimable d x"
  proof cases
    case 1
    with x t show ?thesis by (auto simp: claimable_def list_ex_iff)
  next
    case 2
    then have "wt_status x = StSucceeded" using earlier_succeeded [OF ok t(1,2), of x] x by simp
    then show ?thesis by (simp add: claimable_def)
  next
    case 3
    then have "x = t" using same_order [OF line_of [OF ok t(1)] x] t(1) by simp
    then show ?thesis using t(3) by (simp add: claimable_def)
  qed
qed

lemma pipeline_status_failed: "pipeline_status L = RnFailed \<Longrightarrow> \<exists>t\<in>set L. wt_status t = StFailed"
  by (induction L) (auto split: step_status.splits)

lemma pipeline_status_cancelled:
  "pipeline L \<Longrightarrow> pipeline_status L = RnCancelled \<Longrightarrow> \<forall>t\<in>set L. wt_status t = StSucceeded \<or> wt_status t = StCancelled"
  by (induction L) (auto simp: list_all_iff same_fate_def split: step_status.splits if_splits)

lemma settled_terminal:
  assumes ok: "wf_ok d" and r: "r \<in> set (db_runs d)" "wr_status r \<in> set ENDED"
  shows "settled_run d (wr_id r)"
proof -
  let ?L = "steps_of d (wr_id r)"
  have run: "line_ok ?L" "wr_status r = pipeline_status ?L" using ok r(1) by (auto simp: wf_ok_def run_ok_def)
  then have p: "pipeline ?L" by (simp add: line_ok_def)
  show ?thesis
  proof (cases "pipeline_status ?L")
    case RnSucceeded
    then show ?thesis by (auto simp: pipeline_succeeded_iff list_all_iff settled_run_def claimable_def)
  next
    case RnFailed
    then obtain t where t: "t \<in> set ?L" "wt_status t = StFailed" using pipeline_status_failed by blast
    then have "step_ok t" using step_ok_of [OF ok] by simp
    with t(2) have "0 < wt_attempt t" by (auto simp: step_ok_def untried_def)
    with settled_at [OF ok, of t] t show ?thesis by auto
  next
    case RnCancelled
    with pipeline_status_cancelled [OF p] show ?thesis by (auto simp: settled_run_def claimable_def)
  qed (use run r(2) in \<open>auto simp: ENDED_def\<close>)
qed

text \<open>Several moves of one runner.\<close>

definition moves ::
  "(nat \<Rightarrow> string) \<Rightarrow> 'x handlers \<Rightarrow> string \<Rightarrow> nat \<Rightarrow> 'x factory \<times> phase \<Rightarrow> 'x factory \<times> phase" where
  "moves U H worker n = (\<lambda>(w, p). runner_move U H worker p w) ^^ n"

lemma moves_simps [simp]:
  "moves U H worker 0 z = z"
  "moves U H worker (Suc n) (w, p) = moves U H worker n (runner_move U H worker p w)"
  by (simp_all add: moves_def funpow_swap1)

lemma moves_add: "moves U H worker (m + n) z = moves U H worker n (moves U H worker m z)"
proof -
  have "m + n = n + m" by simp
  then show ?thesis by (simp only: moves_def funpow_add o_apply)
qed

lemma moves_done: "done_phase p \<Longrightarrow> moves U H worker n (w, p) = (w, p)"
  by (induction n) (auto simp: runner_move_def done_phase_def split: phase.splits)

lemma run_alone_moves:
  "done_phase (snd (moves U H worker n (w, p))) \<Longrightarrow> run_alone U H worker n p w = Some (moves U H worker n (w, p))"
proof (induction n arbitrary: w p)
  case 0
  then show ?case by (simp add: run_alone.simps)
next
  case (Suc n)
  show ?case
  proof (cases "done_phase p")
    case True
    then show ?thesis using moves_done [OF True, of U H worker "Suc n" w] by (simp add: run_alone.simps)
  next
    case False
    obtain w' p' where m: "runner_move U H worker p w = (w', p')" by fastforce
    with Suc.prems have "run_alone U H worker n p' w' = Some (moves U H worker n (w', p'))" by (intro Suc.IH) simp
    with False m show ?thesis by (simp add: run_alone.simps [of U H worker "Suc n"])
  qed
qed

text \<open>The last two awaits of a round: the verdict is written and the span is closed.\<close>

definition open_span :: "string \<Rightarrow> wf_db \<Rightarrow> bool" where
  "open_span spid d \<longleftrightarrow> (\<exists>p\<in>set (db_spans d). wp_id p = spid \<and> wp_status p = SpRunning)"

lemma finish_open:
  assumes "open_span spid d" and "st \<noteq> SpRunning"
  obtains x d' where "finishSpan spid st a e d = (d', Inr x)" and "db_steps d' = db_steps d" and "db_runs d' = db_runs d"
    and "db_now d' = db_now d"
proof -
  have "find (\<lambda>x. wp_id x = spid \<and> wp_status x = SpRunning) (db_spans d) \<noteq> None"
    using assms(1) unfolding open_span_def find_None_all by blast
  then obtain x where "find (\<lambda>x. wp_id x = spid \<and> wp_status x = SpRunning) (db_spans d) = Some x" by blast
  then show ?thesis using assms(2) that by (simp add: finishSpan_def Let_def)
qed

lemma pending_less:
  assumes ok: "wf_ok d" and s: "s \<in> set (db_steps d)" and d': "db_steps d' = update_where (\<lambda>x. wt_id x = wt_id s) (\<lambda>_. t) (db_steps d)"
    and "db_now d' = db_now d" and place: "same_place s t" and act: "wt_status s = StRunning" and "\<not> due (db_now d) t"
  shows "pending d' (wt_run s) < pending d (wt_run s)"
proof -
  have "stands d s" using owned_stands [OF ok s] act by simp
  moreover have "wt_status s \<noteq> StSucceeded" using act by simp
  ultimately obtain as bs where split: "steps_of d (wt_run s) = as @ s # bs" using stands_split [OF ok s] by metis
  from replaced_steps [OF ok s split place d', of "wt_run s"] show ?thesis
    using assms(4,7) act by (simp add: pending_def split due_def)
qed

lemma round_fails:
  assumes ok: "wf_ok (fa_db w)" and s: "s \<in> set (db_steps (fa_db w))" "owned (wt_id s) worker s" "wt_run s = wr_id r"
    and sp: "open_span spid (fa_db w)" and ids: "wt_id s0 = wt_id s"
  obtains w' where "moves U H worker 2 (w, AtCommit r s0 spid (VFail e)) = (w', Returned (wr_id r))" and "settled_run (fa_db w') (wr_id r)"
  | w' where "moves U H worker 2 (w, AtCommit r s0 spid (VFail e)) = (w', AtHead (wr_id r))"
      and "pending (fa_db w') (wr_id r) < pending (fa_db w) (wr_id r)"
proof -
  let ?d = "fa_db w"
  have run: "wt_status s = StRunning" using s(2) by (simp add: owned_def)
  have att: "0 < wt_attempt s" using step_ok_of [OF ok s(1)] run by (auto simp: step_ok_def untried_def)
  obtain d1 res where f: "fail_step (wt_id s0) worker (detail e) (if retryable e then 1000 else 0) (\<not> retryable e) ?d = (d1, res)"
    by fastforce
  from f ok obtain t where t: "t = failed (db_now ?d) (detail e) (if retryable e then 1000 else 0) (\<not> retryable e) s"
    "res = Inr t" "d1 = ?d\<lparr>db_steps := update_where (\<lambda>x. wt_id x = wt_id s) (\<lambda>_. t) (db_steps ?d),
             db_runs := update_where (\<lambda>r. wr_id r = wt_run s)
               (\<lambda>r. if wt_status t = StFailed then end_run (db_now ?d) RnFailed r else r) (db_runs ?d)\<rparr>"
  proof (cases rule: fail_cases)
    case none
    then show ?thesis using s(1,2) ids by simp
  next
    case (one s' t)
    then have "s' = s" using unique_step [OF ok one(1) s(1)] ids by (simp add: owned_def)
    with one that show ?thesis by blast
  qed
  have place: "same_place s t" by (simp add: t(1) failed_def same_place_def)
  have "open_span spid d1" using sp by (simp add: open_span_def t(3))
  then obtain x d2 where fin: "finishSpan spid SpFailed JUndef (detail e) d1 = (d2, Inr x)" "db_steps d2 = db_steps d1"
    "db_runs d2 = db_runs d1" "db_now d2 = db_now d1" using finish_open by blast
  have two: "moves U H worker 2 (w, AtCommit r s0 spid (VFail e)) =
      (w\<lparr>fa_db := d2\<rparr>, if retryable e then AtHead (wr_id r) else Returned (wr_id r))"
    using f t(2) fin(1) by (simp add: numeral_2_eq_2 runner_move_def commit_def close_def)
  have ok2: "wf_ok d2" using fail_ok [OF ok, of "wt_id s0" worker "detail e"] f fin finishSpan_ok [of d1 spid SpFailed JUndef "detail e"]
    by (metis fst_conv)
  have stp: "db_steps d2 = update_where (\<lambda>x. wt_id x = wt_id s) (\<lambda>_. t) (db_steps ?d)" by (simp add: fin(2) t(3))
  show ?thesis
  proof (cases "retryable e")
    case True
    have "\<not> due (db_now ?d) t" using True by (simp add: t(1) failed_def due_def)
    then have "pending d2 (wt_run s) < pending ?d (wt_run s)"
      by (intro pending_less [OF ok s(1) stp _ place run]) (simp_all add: fin(4) t(3))
    with two True that(2) s(3) show ?thesis by simp
  next
    case False
    then have st: "wt_status t = StFailed" by (simp add: t(1) failed_def)
    have "t \<in> set (db_steps d2)" using s(1) by (auto simp: stp set_update_where)
    moreover have "0 < wt_attempt t" using att by (simp add: t(1) failed_def)
    ultimately have "settled_run d2 (wt_run t)" using st by (intro settled_at [OF ok2]) simp_all
    moreover have "wt_run t = wr_id r" using place s(3) by (simp add: same_place_def)
    ultimately show ?thesis using two False that(1) by simp
  qed
qed

lemma startSpan_fresh:
  assumes "U (db_fresh d) \<notin> wp_id ` set (db_spans d)"
  obtains sp where "startSpan U r s a d = (d\<lparr>db_fresh := Suc (db_fresh d), db_spans := db_spans d @ [sp]\<rparr>, Inr sp)"
    and "wp_status sp = SpRunning"
proof -
  have "\<not> list_ex (\<lambda>x. wp_id x = U (db_fresh d)) (db_spans d)" 
  proof
    assume "list_ex (\<lambda>x. wp_id x = U (db_fresh d)) (db_spans d)"
    then obtain x where "x \<in> set (db_spans d)" "wp_id x = U (db_fresh d)" by (auto simp: list_ex_iff)
    with assms show False by (metis imageI)
  qed
  then show ?thesis using that by (simp add: startSpan_def Let_def)
qed

lemma handler_move:
  obtains w' v where "runner_move U H worker (AtHandler r s spid) w = (w', AtCommit r s spid v)" and "fa_db w' = fa_db w"
proof (cases "H (wt_key s)")
  case None
  then show ?thesis using that by (simp add: runner_move_def handle_def)
next
  case (Some h)
  obtain x res where "h (db_now (fa_db w)) r s (fa_ext w) = (x, res)" by fastforce
  with Some show ?thesis using that by (simp add: runner_move_def handle_def)
qed

lemma round_commits:
  assumes ok: "wf_ok (fa_db w)" and s: "s \<in> set (db_steps (fa_db w))" "owned (wt_id s) worker s" "wt_run s = wr_id r"
    and sp: "open_span spid (fa_db w)" and ids: "wt_id s0 = wt_id s"
  obtains n w' where "n \<le> 3" and "moves U H worker n (w, AtCommit r s0 spid v) = (w', Returned (wr_id r))"
      and "settled_run (fa_db w') (wr_id r)"
  | n w' where "n \<le> 3" and "moves U H worker n (w, AtCommit r s0 spid v) = (w', AtHead (wr_id r))"
      and "pending (fa_db w') (wr_id r) < pending (fa_db w) (wr_id r)"
proof -
  let ?d = "fa_db w"
  have run: "wt_status s = StRunning" using s(2) by (simp add: owned_def)
  have att: "0 < wt_attempt s" using step_ok_of [OF ok s(1)] run by (auto simp: step_ok_def untried_def)
  show ?thesis
  proof (cases v)
    case (VFail e)
    from round_fails [OF ok s sp ids, of U H e] show ?thesis
    proof cases
      case (1 w')
      then show ?thesis using that(1) [of 2] by (simp add: VFail)
    next
      case (2 w')
      then show ?thesis using that(2) [of 2] by (simp add: VFail)
    qed
  next
    case (VBlock out reason)
    obtain d1 res where f: "block_step (wt_id s0) worker out reason ?d = (d1, res)" by fastforce
    from f [unfolded block_step_def] ok obtain t where t: "t = s\<lparr>wt_status := StBlocked, wt_output := stored out,
       wt_error := Some (stored reason), wt_worker := None, wt_heartbeatAt := Some (db_now ?d)\<rparr>" "res = Inr t"
      "d1 = ?d\<lparr>db_steps := update_where (\<lambda>x. wt_id x = wt_id s) (\<lambda>_. t) (db_steps ?d)\<rparr>"
    proof (cases rule: ownedUpdate_cases)
      case none
      then show ?thesis using s(1,2) ids by simp
    next
      case (one s')
      then have "s' = s" using unique_step [OF ok one(1) s(1)] ids by (simp add: owned_def)
      with one that show ?thesis by blast
    qed
    have "open_span spid d1" using sp by (simp add: open_span_def t(3))
    then obtain x d2 where fin: "finishSpan spid SpBlocked (JObj [(''code'', get_prop reason ''code'')]) JNull d1 = (d2, Inr x)"
      "db_steps d2 = db_steps d1" using finish_open by blast
    have two: "moves U H worker 2 (w, AtCommit r s0 spid v) = (w\<lparr>fa_db := d2\<rparr>, Returned (wr_id r))"
      using f t(2) fin(1) by (simp add: VBlock numeral_2_eq_2 runner_move_def commit_def close_def)
    have ok2: "wf_ok d2" using block_ok [OF ok] f finishSpan_ok fin(1) by (metis fst_conv)
    have "t \<in> set (db_steps d2)" using s(1) by (auto simp: fin(2) t(3) set_update_where)
    moreover have "0 < wt_attempt t" "wt_status t = StBlocked" "wt_run t = wr_id r" using att s(3) by (simp_all add: t(1))
    ultimately have "settled_run d2 (wr_id r)" using settled_at [OF ok2, of t] by simp
    with two that(1) [of 2] show ?thesis by simp
  next
    case (VSucceed out)
    obtain d1 res where f: "succeed_step (wt_id s0) worker out (step_cost out) ?d = (d1, res)" by fastforce
    from f ok show ?thesis
    proof (cases rule: succeed_cases)
      case (none e)
      have one: "moves U H worker 1 (w, AtCommit r s0 spid v) = (w, AtCommit r s0 spid (VFail e))"
        using f none by (simp add: VSucceed runner_move_def commit_def)
      have three: "moves U H worker 3 (w, AtCommit r s0 spid v) = moves U H worker 2 (w, AtCommit r s0 spid (VFail e))"
      proof -
        have e: "(3::nat) = 1 + 2" by simp
        show ?thesis by (simp only: e moves_add one)
      qed
      from round_fails [OF ok s sp ids, of U H e] show ?thesis
      proof cases
        case (1 w')
        with three that(1) [of 3] show ?thesis by simp
      next
        case (2 w')
        with three that(2) [of 3] show ?thesis by simp
      qed
    next
      case (one s' c t d0 tot)
      then have s': "s' = s" using unique_step [OF ok one(1) s(1)] ids by (simp add: owned_def)
      have d1: "db_steps d1 = update_where (\<lambda>x. wt_id x = wt_id s) (\<lambda>_. t) (db_steps ?d)" "db_now d1 = db_now ?d"
        "db_spans d1 = db_spans ?d" by (simp_all add: one(9) one(7) s')
      have "open_span spid d1" using sp by (simp add: open_span_def d1)
      then obtain x d2 where fin: "finishSpan spid SpSucceeded JUndef JNull d1 = (d2, Inr x)"
        "db_steps d2 = db_steps d1" "db_now d2 = db_now d1" using finish_open by blast
      have two: "moves U H worker 2 (w, AtCommit r s0 spid v) = (w\<lparr>fa_db := d2\<rparr>, AtHead (wr_id r))"
        using f one(6) fin(1) by (simp add: VSucceed numeral_2_eq_2 runner_move_def commit_def close_def)
      have "pending d2 (wt_run s) < pending ?d (wt_run s)"
        by (rule pending_less [OF ok s(1) _ _ _ run, where t = t]) (simp_all add: fin d1 one(5) s' succeeded_def same_place_def due_def)
      with two that(2) [of 2] s(3) show ?thesis by simp
    qed
  qed
qed

lemma one_round:
  assumes ok: "wf_ok (fa_db w)" and dr: "drawn U (fa_db w)" "inj U" and r: "r \<in> set (db_runs (fa_db w))"
  obtains n w' where "n \<le> 7" and "moves U H worker n (w, AtHead (wr_id r)) = (w', Returned (wr_id r))"
      and "settled_run (fa_db w') (wr_id r)" and "n \<le> 2 \<or> 0 < pending (fa_db w) (wr_id r)"
  | n w' where "n \<le> 7" and "moves U H worker n (w, AtHead (wr_id r)) = (w', AtHead (wr_id r))"
      and "pending (fa_db w') (wr_id r) < pending (fa_db w) (wr_id r)"
proof -
  let ?d = "fa_db w"
  have "find (\<lambda>x. wr_id x = wr_id r) (db_runs ?d) \<noteq> None" using r unfolding find_None_all by blast
  then obtain r1 where f1: "find (\<lambda>x. wr_id x = wr_id r) (db_runs ?d) = Some r1" by blast
  note f = f1 find_Some_in [OF f1]
  show ?thesis
  proof (cases "wr_status r1 \<in> set ENDED")
    case True
    then have "moves U H worker 1 (w, AtHead (wr_id r)) = (w, Returned (wr_id r))" using f by (simp add: runner_move_def look_def)
    moreover have "settled_run ?d (wr_id r)" using settled_terminal [OF ok _ True] f by auto
    ultimately show ?thesis using that(1) [of 1] by simp
  next
    case False
    then have m1: "runner_move U H worker (AtHead (wr_id r)) w = (w, AtClaim r1)" using f by (simp add: runner_move_def look_def)
    obtain d1 res where c: "claimNext (wr_id r1) worker ?d = (d1, res)" by fastforce
    from c ok show ?thesis
    proof (cases rule: claimNext_cases)
      case none
      have "moves U H worker 2 (w, AtHead (wr_id r)) = (w, Returned (wr_id r))"
        using m1 c none(1,2) f by (simp add: numeral_2_eq_2 runner_move_def [of U H worker "AtClaim r1"] claim_def)
      moreover have "settled_run ?d (wr_id r)" using none(3) f by (auto simp: settled_run_def)
      ultimately show ?thesis using that(1) [of 2] by simp
    next
      case (one s t)
      let ?w1 = "w\<lparr>fa_db := d1\<rparr>"
      have m2: "runner_move U H worker (AtClaim r1) w = (?w1, AtTrace r1 t)"
        using c one(4) by (simp add: runner_move_def claim_def)
      have t: "wt_run t = wr_id r1" "owned (wt_id t) worker t" "t \<in> set (db_steps d1)" "wt_id t = wt_id s"
        using one(1,2) by (auto simp: one(5,6) claimed_def owned_def set_update_where)
      have ok1: "wf_ok d1" using claimNext_ok [OF ok, of "wr_id r1" worker] c by simp
      have dr1: "db_spans d1 = db_spans ?d" "db_fresh d1 = db_fresh ?d" by (simp_all add: one(6))
      have "U (db_fresh d1) \<notin> wp_id ` set (db_spans d1)"
      proof
        assume "U (db_fresh d1) \<in> wp_id ` set (db_spans d1)"
        then have "U (db_fresh ?d) \<in> U ` {..<db_fresh ?d}" using dr(1) unfolding drawn_def dr1 by blast
        then show False using dr(2) by (auto dest: injD)
      qed
      then obtain sp where sp: "startSpan U r1 t (JObj [(''attempt'', JNum (Fin (of_int (wt_attempt t))))]) d1 =
          (d1\<lparr>db_fresh := Suc (db_fresh d1), db_spans := db_spans d1 @ [sp]\<rparr>, Inr sp)" "wp_status sp = SpRunning"
        by (rule startSpan_fresh)
      let ?d2 = "d1\<lparr>db_fresh := Suc (db_fresh d1), db_spans := db_spans d1 @ [sp]\<rparr>"
      let ?w2 = "w\<lparr>fa_db := ?d2\<rparr>"
      have m3: "runner_move U H worker (AtTrace r1 t) ?w1 = (?w2, AtHandler r1 t (wp_id sp))"
        using sp(1) by (simp add: runner_move_def trace_step_def)
      obtain w3 v where m4: "runner_move U H worker (AtHandler r1 t (wp_id sp)) ?w2 = (w3, AtCommit r1 t (wp_id sp) v)"
        and w3: "fa_db w3 = fa_db ?w2" by (rule handler_move)
      have four: "moves U H worker 4 (w, AtHead (wr_id r)) = (w3, AtCommit r1 t (wp_id sp) v)"
        using m1 m2 m3 m4 by (simp add: eval_nat_numeral)
      have ok3: "wf_ok (fa_db w3)" "t \<in> set (db_steps (fa_db w3))" "open_span (wp_id sp) (fa_db w3)"
        using ok1 t(3) sp(2) by (auto simp: w3 open_span_def)
      have dues: "due (db_now ?d) s" using one(3) by (auto simp: due_def claimable_def)
      have st: "stands ?d s" using one(3) by (auto simp: stands_def claimable_def list_ex_iff)
      have ns: "wt_status s \<noteq> StSucceeded" using one(3) by (auto simp: claimable_def)
      obtain as bs where split: "steps_of ?d (wt_run s) = as @ s # bs" using stands_split [OF ok one(1) ns st] by metis
      have pos: "0 < pending ?d (wr_id r)" using dues split one(2) f by (simp add: pending_def)
      have "pending (fa_db w3) (wr_id r) \<le> pending ?d (wr_id r)"
      proof -
        have place: "same_place s t" by (simp add: one(5) same_place_def claimed_def)
        from replaced_steps [OF ok one(1) split place, of "fa_db w3" "wr_id r"] one(2) f
        have "steps_of (fa_db w3) (wr_id r) = as @ t # bs" by (simp add: w3 one(6))
        with split one(2) f dues show ?thesis by (simp add: pending_def w3 one(6))
      qed
      note le = this
      from round_commits [OF ok3(1,2) t(2,1) ok3(3) HOL.refl, of U H v] show ?thesis
      proof cases
        case (1 n w')
        with four moves_add [of U H worker 4 n "(w, AtHead (wr_id r))"] pos f that(1) [of "4 + n"] show ?thesis by simp
      next
        case (2 n w')
        with four moves_add [of U H worker 4 n "(w, AtHead (wr_id r))"] le f that(2) [of "4 + n"] show ?thesis by simp
      qed
    qed
  qed
qed

lemma moves_keep:
  assumes "wf_ok (fa_db w)" and "drawn U (fa_db w)" and "rid \<in> wr_id ` set (db_runs (fa_db w))"
    and "moves U H worker n (w, p) = (w', p')"
  shows "wf_ok (fa_db w') \<and> drawn U (fa_db w') \<and> rid \<in> wr_id ` set (db_runs (fa_db w'))"
  using assms
proof (induction n arbitrary: w p)
  case (Suc n)
  obtain w1 p1 where m: "runner_move U H worker p w = (w1, p1)" by fastforce
  have "wf_ok (fa_db w1)" "drawn U (fa_db w1)"
    using runner_move_ok [OF Suc.prems(1), of U H worker p] runner_move_drawn [OF Suc.prems(2,1), of H worker p] m by simp_all
  moreover have "rid \<in> wr_id ` set (db_runs (fa_db w1))"
  proof -
    from Suc.prems(3) obtain r where r: "r \<in> set (db_runs (fa_db w))" "wr_id r = rid" by blast
    have "evolves (fa_db w) (Wait 0) (Some p) (fa_db w1)" using move_evolves [OF Suc.prems(1), of "Wait 0" p U H worker] m by simp
    then obtain r' where "r' \<in> set (db_runs (fa_db w1))" "same_run r r'" using evolves_run_on [OF _ r(1)] by blast
    with r(2) have "rid = wr_id r'" by (simp add: same_run_def)
    with \<open>r' \<in> _\<close> show ?thesis by blast
  qed
  ultimately show ?case using Suc.IH [of w1 p1] Suc.prems(4) m by simp
qed simp

lemma runner_returns:
  assumes "wf_ok (fa_db w)" and "drawn U (fa_db w)" and "inj U" and "rid \<in> wr_id ` set (db_runs (fa_db w))"
    and "pending (fa_db w) rid \<le> m"
  shows "\<exists>w'. moves U H worker (7 * m + 2) (w, AtHead rid) = (w', Returned rid) \<and> settled_run (fa_db w') rid"
  using assms
proof (induction m arbitrary: w rule: less_induct)
  case (less m)
  from less.prems(4) obtain r where r: "r \<in> set (db_runs (fa_db w))" "wr_id r = rid" by blast
  from one_round [OF less.prems(1,2,3) r(1), of H worker] show ?case
  proof cases
    case (1 n w')
    have "n \<le> 7 * m + 2" using 1(1,4) less.prems(5) r(2) by auto
    then have e: "7 * m + 2 = n + (7 * m + 2 - n)" by simp
    have "moves U H worker (7 * m + 2) (w, AtHead rid) = moves U H worker (7 * m + 2 - n) (w', Returned rid)"
      by (subst e, subst moves_add) (use 1(2) r(2) in simp)
    also have "\<dots> = (w', Returned rid)" by (rule moves_done) (simp add: done_phase_def)
    finally show ?thesis using 1(3) r(2) by blast
  next
    case (2 n w')
    note keep = moves_keep [OF less.prems(1,2,4) 2(2) [unfolded r(2)]]
    have lt: "pending (fa_db w') rid < m" using 2(3) less.prems(5) r(2) by simp
    with less.IH [OF lt, of w'] keep less.prems(3) obtain w'' where
      w'': "moves U H worker (7 * pending (fa_db w') rid + 2) (w', AtHead rid) = (w'', Returned rid)"
      "settled_run (fa_db w'') rid" by blast
    let ?k = "7 * pending (fa_db w') rid + 2"
    have "n + ?k \<le> 7 * m + 2" using 2(1) lt by simp
    then have e: "7 * m + 2 = (n + ?k) + (7 * m + 2 - (n + ?k))" by simp
    have "moves U H worker (n + ?k) (w, AtHead rid) = (w'', Returned rid)"
      by (subst moves_add) (use 2(2) r(2) w''(1) in simp)
    then have "moves U H worker (7 * m + 2) (w, AtHead rid) = moves U H worker (7 * m + 2 - (n + ?k)) (w'', Returned rid)"
      by (subst e, subst moves_add) simp
    also have "\<dots> = (w'', Returned rid)" by (rule moves_done) (simp add: done_phase_def)
    finally show ?thesis using w''(2) by blast
  qed
qed


text \<open>A command key that was used starts nothing: the run it started is returned.\<close>

lemma start_once:
  assumes "history U H worker x0 es s" and r: "r \<in> set (db_runs (sy_db s))" "wr_commandKey r \<noteq> []"
    and w: "w \<in> set (db_workflows (sy_db s))" "wd_id w = wr_workflow r" "wd_active w"
  shows "start_run U (wr_workflow r) input (wr_commandKey r) (sy_db s) = (sy_db s, Inr r)"
proof -
  have "distinct (map wr_commandKey (db_runs (sy_db s)))" using history_ok [OF assms(1)] by (simp add: wf_ok_def)
  then have u: "x = r" if "x \<in> set (db_runs (sy_db s))" "wr_commandKey x = wr_commandKey r" for x
    using that r(1) unfolding distinct_map by (metis inj_onD)
  have "find (\<lambda>x. wr_commandKey x = wr_commandKey r) (db_runs (sy_db s)) \<noteq> None" using r(1) unfolding find_None_all by blast
  then obtain x where "find (\<lambda>x. wr_commandKey x = wr_commandKey r) (db_runs (sy_db s)) = Some x" by blast
  moreover from find_Some_in [OF this] u have "x = r" by blast
  moreover have "find (\<lambda>x. wd_id x = wr_workflow r \<and> wd_active x) (db_workflows (sy_db s)) \<noteq> None"
    using w unfolding find_None_all by blast
  ultimately show ?thesis using r(2) by (auto simp: start_run_def transaction_def)
qed

section \<open>Witnesses\<close>

text \<open>A workflow of two steps whose second handler fails once; its first step has been claimed.\<close>

definition demo_handlers :: "nat handlers" where
  "demo_handlers key =
     (if key = ''a'' then Some (\<lambda>now r s x. (x, Inr (JObj [(''from'', JStr ''a'')])))
      else if key = ''b'' then Some (\<lambda>now r s x. (Suc x, if x = 0 then Inl (Error ''down'') else Inr (JObj [])))
      else None)"

definition demo_id :: "nat \<Rightarrow> string" where
  "demo_id n = replicate n (CHR ''x'')"

lemma inj_demo_id: "inj demo_id"
proof (rule injI)
  fix m n assume "demo_id m = demo_id n"
  then have "length (demo_id m) = length (demo_id n)" by simp
  then show "m = n" by (simp add: demo_id_def)
qed

definition demo_start :: "wf_event list" where
  "demo_start =
     [Start [] [] ''k'' True,
      Define ''brand'' ''two'' [\<lparr>sx_key = ''a'', sx_owner = ''o'', sx_timeoutMs = None, sx_maxAttempts = None\<rparr>,
                              \<lparr>sx_key = ''b'', sx_owner = ''o'', sx_timeoutMs = None, sx_maxAttempts = Some 2\<rparr>]]"

definition demo_events :: "wf_event list" where
  "demo_events = [Move 0, Move 0] @ demo_start"

definition after :: "wf_event list \<Rightarrow> nat system" where
  "after es = foldr (serve demo_id demo_handlers ''w'') es (boot 0 0)"

lemma after_history: "history demo_id demo_handlers ''w'' 0 es (after es)"
  by (induction es) (auto simp: after_def intro: history.intros)

definition demo_run :: "wf_event list \<Rightarrow> wf_run" where
  "demo_run es = hd (db_runs (sy_db (after es)))"

lemma demo_run_in: "demo_run demo_start \<in> set (db_runs (sy_db (after demo_start)))"
  "demo_run demo_events \<in> set (db_runs (sy_db (after demo_events)))"
proof -
  have "db_runs (sy_db (after demo_start)) \<noteq> []" by code_simp
  then show "demo_run demo_start \<in> set (db_runs (sy_db (after demo_start)))" by (simp add: demo_run_def)
  have "db_runs (sy_db (after demo_events)) \<noteq> []" by code_simp
  then show "demo_run demo_events \<in> set (db_runs (sy_db (after demo_events)))" by (simp add: demo_run_def)
qed

lemma demo_steps: "map wt_status (db_steps (sy_db (after demo_events))) = [StRunning, StQueued]"
  by code_simp


theorem run_agrees_with_steps_witness:
  "wr_status (demo_run demo_events) = pipeline_status (steps_of (sy_db (after demo_events)) (wr_id (demo_run demo_events))) \<and>
   wr_status (demo_run demo_events) = RnRunning"
proof
  show "wr_status (demo_run demo_events) = pipeline_status (steps_of (sy_db (after demo_events)) (wr_id (demo_run demo_events)))"
    using run_agrees_with_steps [OF after_history demo_run_in(2)] by blast
  show "wr_status (demo_run demo_events) = RnRunning" by code_simp
qed


end
