(* ===== verification/FactoryDomain.thy ===== *)
theory FactoryDomain
  imports WorkflowRunner
begin

text \<open>
  The rules of the content factory: \<open>packages/zeto/src/domain/\<close> \<open>qaScorer.js\<close>,
  \<open>autopilotPolicy.js\<close>, \<open>promptCompiler.js\<close>, \<open>assetPackFactory.js\<close>, \<open>calendar.js\<close>,
  \<open>monitoring.js\<close>, and the handlers of \<open>factoryWorkflow.js\<close> built on them. An artifact is a
  JavaScript value that came out of a JSON column. The time zone library, SHA-256 and the text
  of a number that is no integer are parameters.
\<close>

section \<open>What the code does not contain\<close>

text \<open>A luxon \<open>DateTime\<close> as far as it is read; \<open>dt_utc\<close> is \<open>toUTC().toISO()\<close> of it.\<close>

record date_time =
  dt_year :: int
  dt_month :: int
  dt_day :: int
  dt_hour :: int
  dt_minute :: int
  dt_second :: int
  dt_utc :: string

text \<open>
  \<open>fe_hash v\<close> is the SHA-256 of \<open>JSON.stringify(v)\<close>; \<open>fe_fromISO\<close> is \<open>None\<close> for a date that is not
  valid; \<open>fe_kill\<close> is the kill switch at a time; \<open>fe_uuid\<close>, \<open>fe_numeric\<close> and \<open>fe_text\<close> are what
  PostgreSQL reads a query parameter as in a column of type \<open>uuid\<close>, \<open>numeric(5,2)\<close> and \<open>text\<close>
  (\<open>None\<close>, or the SQLSTATE: it rejects it).
\<close>

record factory_env =
  fe_hash :: "js \<Rightarrow> string"
  fe_decimal :: "rat \<Rightarrow> string"
  fe_isValidZone :: "js \<Rightarrow> bool"
  fe_fromISO :: "js \<Rightarrow> js \<Rightarrow> date_time option"
  fe_kill :: "int \<Rightarrow> bool"
  fe_uuid :: "string \<Rightarrow> string option"
  fe_numeric :: "js \<Rightarrow> (string, jsnum) result"
  fe_text :: "js \<Rightarrow> string"

type_synonym 'a thrower = "(thrown, 'a) result"

section \<open>Reading and spreading values\<close>

text \<open>An error of the engine; its text is not modelled.\<close>

definition type_error :: thrown where
  "type_error = Error []"

definition read_prop :: "js \<Rightarrow> string \<Rightarrow> js thrower" where
  "read_prop v k = (if is_nullish v then Inl type_error else Inr (get_prop v k))"

text \<open>\<open>v.a.b.c\<close>\<close>

fun read_path :: "js \<Rightarrow> string list \<Rightarrow> js thrower" where
  "read_path v [] = Inr v"
| "read_path v (k # ks) = bindR (read_prop v k) (\<lambda>x. read_path x ks)"

text \<open>\<open>{...v}\<close>, \<open>v.length\<close> and \<open>[...v]\<close>\<close>

definition indexed :: "js list \<Rightarrow> (string \<times> js) list" where
  "indexed xs = zip (map nat_str [0..<length xs]) xs"

definition members :: "js \<Rightarrow> (string \<times> js) list" where
  "members v =
     (case v of
        JObj fs \<Rightarrow> fs
      | JArr xs \<Rightarrow> indexed xs
      | JStr s \<Rightarrow> indexed (map (\<lambda>c. JStr [c]) s)
      | _ \<Rightarrow> [])"

definition js_length :: "js \<Rightarrow> js" where
  "js_length v =
     (case v of
        JArr xs \<Rightarrow> JNum (Fin (of_nat (length xs)))
      | JStr s \<Rightarrow> JNum (Fin (of_nat (length s)))
      | _ \<Rightarrow> get_prop v ''length'')"

definition iterated :: "js \<Rightarrow> js list thrower" where
  "iterated v =
     (case v of
        JArr xs \<Rightarrow> Inr xs
      | JStr s \<Rightarrow> Inr (map (\<lambda>c. JStr [c]) s)
      | _ \<Rightarrow> Inl type_error)"

text \<open>The receiver of a method of arrays.\<close>

definition as_array :: "js \<Rightarrow> js list thrower" where
  "as_array v = (case v of JArr xs \<Rightarrow> Inr xs | _ \<Rightarrow> Inl type_error)"

definition carry :: "js \<Rightarrow> (string \<times> js) list \<Rightarrow> js" where
  "carry input patch = JObj (spread (members input) patch)"

definition is_finite_js :: "js \<Rightarrow> bool" where
  "is_finite_js v = (case v of JNum n \<Rightarrow> is_finite_num n | _ \<Rightarrow> False)"

definition is_integer_js :: "js \<Rightarrow> bool" where
  "is_integer_js v = (case v of JNum n \<Rightarrow> is_integer_num n | _ \<Rightarrow> False)"

section \<open>Quality gate\<close>

definition DIMENSIONS :: "string list" where
  "DIMENSIONS =
     [''brand_palette'', ''font_policy'', ''logo_rule'', ''claim_substantiation'', ''platform_policy'',
      ''copyright_clearance'', ''text_length'', ''safe_margins'', ''alt_text'', ''hashtag_risk'',
      ''sentiment_risk'', ''cta_presence'']"

record qa_item =
  qi_dimension :: string
  qi_passed :: bool
  qi_points :: rat
  qi_reason :: js
  qi_remediation :: js

record qa_result =
  qa_score :: int
  qa_route :: string
  qa_breakdown :: "qa_item list"
  qa_reasons :: "js list"
  qa_remediation :: "js list"

definition qa_check :: "js \<Rightarrow> string \<Rightarrow> qa_item" where
  "qa_check checks dimension =
     (let c = get_prop checks dimension; ok = (get_prop c ''passed'' = JBool True)
      in \<lparr>qi_dimension = dimension, qi_passed = ok,
          qi_points = (if ok then 100 / of_nat (length DIMENSIONS) else 0),
          qi_reason = js_or (get_prop c ''reason'') JNull,
          qi_remediation = js_or (get_prop c ''remediation'') JNull\<rparr>)"

text \<open>\<open>Math.round\<close>\<close>

definition js_round :: "rat \<Rightarrow> int" where
  "js_round q = \<lfloor>q + 1 / 2\<rfloor>"

definition evaluateArtifact :: "js \<Rightarrow> bool \<Rightarrow> qa_result thrower" where
  "evaluateArtifact checks autoPilot =
     (if \<not> truthy checks \<or> list_ex (\<lambda>k. \<not> truthy (get_prop checks k)) DIMENSIONS
      then Inl (Error ''All 12 QA dimensions are required'')
      else
        let breakdown = map (qa_check checks) DIMENSIONS;
            score = js_round (foldl (\<lambda>t i. t + qi_points i) 0 breakdown);
            bad = filter (\<lambda>i. \<not> qi_passed i) breakdown
        in Inr \<lparr>qa_score = score,
                qa_route = (if score < 70 then ''block''
                            else if 90 \<le> score \<and> autoPilot then ''auto_pass'' else ''human_review''),
                qa_breakdown = breakdown,
                qa_reasons = filter truthy (map qi_reason bad),
                qa_remediation = filter truthy (map qi_remediation bad)\<rparr>)"

definition int_js :: "int \<Rightarrow> js" where
  "int_js z = JNum (Fin (of_int z))"

definition qa_item_js :: "qa_item \<Rightarrow> js" where
  "qa_item_js i =
     JObj [(''dimension'', JStr (qi_dimension i)), (''passed'', JBool (qi_passed i)),
           (''points'', JNum (Fin (qi_points i))), (''reason'', qi_reason i),
           (''remediation'', qi_remediation i)]"

definition qa_js :: "qa_result \<Rightarrow> js" where
  "qa_js q =
     JObj [(''score'', int_js (qa_score q)), (''route'', JStr (qa_route q)),
           (''breakdown'', JArr (map qa_item_js (qa_breakdown q))),
           (''reasons'', JArr (qa_reasons q)), (''remediation'', JArr (qa_remediation q))]"

section \<open>Autopilot\<close>

definition over :: "js \<Rightarrow> js \<Rightarrow> bool" where
  "over a b \<longleftrightarrow> num_lt (js_number b) (js_number a)"

definition evaluateAutopilot :: "js \<Rightarrow> bool \<times> string list" where
  "evaluateAutopilot c =
     (let p = get_prop c;
          gate = (\<lambda>bad reason. if bad then [reason] else [])
      in if \<not> truthy (p ''autoPilot'') then (False, [''human_approval_required''])
         else
           let reasons =
             gate (truthy (p ''killSwitch'')) ''emergency_kill_switch_active'' @
             gate (\<not> is_finite_js (p ''qaScore'') \<or> num_lt (js_number (p ''qaScore'')) (Fin 90))
               ''qa_score_below_auto_pass_threshold'' @
             gate (\<not> truthy (p ''platformPermitted'')) ''platform_permission_missing'' @
             gate (\<not> is_finite_js (p ''estimatedCost'') \<or> \<not> is_finite_js (p ''remainingBudget'') \<or>
                   over (p ''estimatedCost'') (p ''remainingBudget'')) ''budget_cap_exceeded'' @
             gate (\<not> is_integer_js (p ''postsInWindow'') \<or> \<not> is_integer_js (p ''postingFrequencyCap'') \<or>
                   \<not> over (p ''postingFrequencyCap'') (p ''postsInWindow'')) ''posting_frequency_cap_reached'' @
             gate (\<not> truthy (p ''claimsSubstantiated'')) ''claim_substantiation_required'' @
             gate (\<not> truthy (p ''copyrightCleared'')) ''copyright_clearance_required''
           in (reasons = [], reasons))"

section \<open>Prompts\<close>

definition MODES :: "string list" where
  "MODES = [''PRODUCTION'', ''OPS'', ''OPTIMIZE'']"

definition REQUIRED_BRAND_FIELDS :: "string list" where
  "REQUIRED_BRAND_FIELDS =
     [''brand'', ''niche'', ''voice'', ''colors'', ''fonts'', ''platforms'', ''goals'', ''timezone'',
      ''budget_per_asset'', ''stack'', ''image_model'', ''video_model'', ''audio_model'']"

record prompt_spec =
  ps_module :: string
  ps_mode :: string
  ps_brand :: js
  ps_role :: string
  ps_inputs :: js
  ps_template :: string
  ps_constraints :: "js list"
  ps_output :: js
  ps_selfCheck :: js
  ps_approvalRequired :: js

text \<open>The text of what every object inherits under a name.\<close>

definition inherited_text :: "string \<Rightarrow> string" where
  "inherited_text k =
     (if k = ''__proto__'' then ''[object Object]''
      else ''function '' @ (if k = ''constructor'' then ''Object'' else k) @ ''() { [native code] }'')"

definition placeholder_text :: "(rat \<Rightarrow> string) \<Rightarrow> (string \<times> js) list \<Rightarrow> string \<Rightarrow> string" where
  "placeholder_text R env k =
     (case literal_lookup env k of
        Own (JArr xs) \<Rightarrow> join_with '', '' (map (\<lambda>x. if is_nullish x then [] else js_text_of R x) xs)
      | Own v \<Rightarrow> if is_nullish v then ''{'' @ k @ ''}'' else js_text_of R v
      | Inherited \<Rightarrow> inherited_text k
      | Absent \<Rightarrow> ''{'' @ k @ ''}'')"

text \<open>\<open>replace(/\{([A-Za-z0-9_]+)\}/g, \<dots>)\<close> and \<open>match(/\{[^}]+\}/g)\<close>\<close>

definition placeholder_char :: "char \<Rightarrow> bool" where
  "placeholder_char c \<longleftrightarrow> is_alnum c \<or> c = CHR ''_''"

definition braced :: "(char \<Rightarrow> bool) \<Rightarrow> string \<Rightarrow> (string \<times> string) option" where
  "braced p s =
     (case s of
        c # t \<Rightarrow>
          if c = CHR ''{'' \<and> takeWhile p t \<noteq> [] \<and> take 1 (dropWhile p t) = ''}''
          then Some (takeWhile p t, drop 1 (dropWhile p t)) else None
      | [] \<Rightarrow> None)"

lemma braced_shorter: "braced p s = Some (k, t) \<Longrightarrow> length t < length s"
proof -
  assume "braced p s = Some (k, t)"
  then obtain c u where "s = c # u" and t: "t = drop 1 (dropWhile p u)"
    by (auto simp: braced_def split: list.splits if_splits)
  moreover have "length (drop 1 (dropWhile p u)) \<le> length u" using length_dropWhile_le [of p u] by simp
  ultimately show ?thesis by simp
qed

function substituted :: "(rat \<Rightarrow> string) \<Rightarrow> (string \<times> js) list \<Rightarrow> string \<Rightarrow> string" where
  "substituted R env s =
     (case braced placeholder_char s of
        Some (k, t) \<Rightarrow> placeholder_text R env k @ substituted R env t
      | None \<Rightarrow> (case s of [] \<Rightarrow> [] | c # t \<Rightarrow> c # substituted R env t))"
  by pat_completeness auto
termination by (relation "measure (\<lambda>(R, env, s). length s)") (auto dest: braced_shorter)

declare substituted.simps [simp del]

function unresolved_in :: "string \<Rightarrow> string list" where
  "unresolved_in s =
     (case braced (\<lambda>c. c \<noteq> CHR ''}'') s of
        Some (k, t) \<Rightarrow> (''{'' @ k @ ''}'') # unresolved_in t
      | None \<Rightarrow> (case s of [] \<Rightarrow> [] | c # t \<Rightarrow> unresolved_in t))"
  by pat_completeness auto
termination by (relation "measure length") (auto dest: braced_shorter)

declare unresolved_in.simps [simp del]

definition brand_policy :: "js \<Rightarrow> js" where
  "brand_policy b =
     JObj [(''brand'', get_prop b ''brand''), (''niche'', get_prop b ''niche''), (''voice'', get_prop b ''voice''),
           (''colors'', get_prop b ''colors''), (''palette'', js_or (get_prop b ''palette'') (JArr [])),
           (''fonts'', get_prop b ''fonts''), (''goals'', get_prop b ''goals''),
           (''budget_per_asset'', get_prop b ''budget_per_asset'')]"

definition pmaster :: "prompt_spec \<Rightarrow> js" where
  "pmaster p =
     JObj [(''role'', JStr (ps_role p)), (''inputs'', ps_inputs p),
           (''modes'', JObj [(''active'', JStr (ps_mode p)), (''supported'', JArr (map JStr MODES))]),
           (''constraints'', JArr (ps_constraints p @ [JObj [(''brand_policy'', brand_policy (ps_brand p))]])),
           (''output'', ps_output p), (''self_check'', ps_selfCheck p)]"

definition compilePrompt :: "(rat \<Rightarrow> string) \<Rightarrow> prompt_spec \<Rightarrow> js thrower" where
  "compilePrompt R p =
     (let missing = filter (\<lambda>f. is_nullish (get_prop (ps_brand p) f)) REQUIRED_BRAND_FIELDS
      in if ps_mode p \<notin> set MODES then Inl (Error (''Invalid lifecycle mode: '' @ ps_mode p))
         else if missing \<noteq> [] then Inl (Error (''Missing brand fields: '' @ join_with '', '' missing))
         else
           let prompt = substituted R (spread (members (ps_brand p)) (members (ps_inputs p))) (ps_template p);
               left = unresolved_in prompt
           in if left \<noteq> [] then Inl (Error (''Unresolved placeholder: '' @ join_with '', '' left))
              else Inr (JObj
                [(''module'', JStr (ps_module p)), (''mode'', JStr (ps_mode p)), (''prompt'', JStr prompt),
                 (''pmaster'', pmaster p), (''brand_policy'', brand_policy (ps_brand p)),
                 (''approval'', JObj [(''required'', JBool
                    (if ps_approvalRequired p = JUndef
                     then get_prop (ps_brand p) ''approval_required'' \<noteq> JBool False
                     else ps_approvalRequired p = JBool True))])]))"

section \<open>Asset packs\<close>

definition ASPECT_RATIOS :: "string list" where
  "ASPECT_RATIOS = [''1:1'', ''4:5'', ''9:16'', ''16:9'']"

definition CAPTION_LIMITS :: "(string \<times> nat) list" where
  "CAPTION_LIMITS =
     [(''facebook'', 63206), (''instagram'', 2200), (''tiktok'', 2200), (''youtube'', 5000),
      (''x'', 280), (''linkedin'', 3000)]"

record draft_asset =
  da_id :: string
  da_type :: string
  da_prompt_hash :: string
  da_tags :: "js list"
  da_seed :: js
  da_lufs :: js
  da_aspect_ratio :: js
  da_spec :: js
  da_provenance :: "(string \<times> js) list"

record draft_caption =
  dc_id :: string
  dc_asset_id :: string
  dc_platform :: js
  dc_body :: string
  dc_hook :: js
  dc_cta :: js
  dc_hashtags :: "js list"
  dc_alt_text :: string
  dc_seo_description :: string

record asset_pack =
  pk_id :: string
  pk_brand :: js
  pk_idea :: js
  pk_assets :: "draft_asset list"
  pk_captions :: "draft_caption list"
  pk_created_at :: string

definition baseAsset :: "string \<Rightarrow> string \<Rightarrow> string \<Rightarrow> draft_asset" where
  "baseAsset i type h =
     \<lparr>da_id = i, da_type = type, da_prompt_hash = h, da_tags = [], da_seed = JUndef, da_lufs = JUndef,
      da_aspect_ratio = JUndef, da_spec = JUndef, da_provenance = []\<rparr>"

definition outside :: "rat \<Rightarrow> rat \<Rightarrow> js \<Rightarrow> bool" where
  "outside lo hi v \<longleftrightarrow> (case v of JNum (Fin q) \<Rightarrow> q < lo \<or> hi < q | _ \<Rightarrow> True)"

text \<open>The callback of \<open>shots.some\<close>, from left to right, with the end of the shot before.\<close>

definition bad_shot :: "rat option \<Rightarrow> js \<Rightarrow> js \<Rightarrow> bool" where
  "bad_shot prev from until \<longleftrightarrow>
     (case (from, until) of
        (JNum (Fin a), JNum (Fin b)) \<Rightarrow>
          a < 0 \<or> b \<le> a \<or> (case prev of Some e \<Rightarrow> a < e | None \<Rightarrow> False)
      | _ \<Rightarrow> True)"

fun bad_timeline :: "rat option \<Rightarrow> js list \<Rightarrow> bool thrower" where
  "bad_timeline prev [] = Inr False"
| "bad_timeline prev (shot # rest) =
     (if is_nullish shot then Inl type_error
      else if bad_shot prev (get_prop shot ''start'') (get_prop shot ''end'') then Inr True
      else bad_timeline (case get_prop shot ''end'' of JNum (Fin b) \<Rightarrow> Some b | _ \<Rightarrow> None) rest)"

definition invalid_shots :: "js \<Rightarrow> bool thrower" where
  "invalid_shots v = (case v of JArr (s # ss) \<Rightarrow> bad_timeline None (s # ss) | _ \<Rightarrow> Inr True)"

definition guard :: "bool \<Rightarrow> string \<Rightarrow> unit thrower" where
  "guard bad message = (if bad then Inl (Error message) else Inr ())"

definition check_media :: "js \<Rightarrow> unit thrower" where
  "check_media input =
     bindR (read_path input [''image'', ''aspectRatio'']) (\<lambda>ratio.
     bindR (guard (ratio \<notin> JStr ` set ASPECT_RATIOS) ''Unsupported image aspect ratio'') (\<lambda>_.
     bindR (read_path input [''audio'', ''license'']) (\<lambda>license.
     bindR (guard (license \<noteq> JStr ''generated'') ''Only generated audio is allowed'') (\<lambda>_.
     bindR (read_path input [''audio'', ''lufs'']) (\<lambda>lufs.
     bindR (guard (outside (- 24) (- 6) lufs) ''Audio LUFS must be between -24 and -6'') (\<lambda>_.
     bindR (read_path input [''audio'', ''bpm'']) (\<lambda>bpm.
     bindR (guard (outside 30 300 bpm) ''Audio BPM must be between 30 and 300'') (\<lambda>_.
     bindR (read_path input [''video'', ''shots'']) (\<lambda>shots.
     bindR (invalid_shots shots) (\<lambda>bad.
     bindR (guard bad ''Invalid video shot timeline'') (\<lambda>_.
     bindR (read_path input [''caption'', ''hook'']) (\<lambda>hook.
     bindR (read_path input [''caption'', ''cta'']) (\<lambda>cta.
       guard (\<not> truthy hook \<or> \<not> truthy cta) ''Caption hook and CTA are required'')))))))))))))"

text \<open>The three assets that need no caption. \<open>check_media\<close> has read every member used here.\<close>

definition newline :: string where
  "newline = [char_of (10 :: nat)]"

definition media_assets :: "factory_env \<Rightarrow> (nat \<Rightarrow> string) \<Rightarrow> nat \<Rightarrow> js \<Rightarrow> draft_asset list" where
  "media_assets E U n input =
     (let image = get_prop input ''image''; video = get_prop input ''video''; audio = get_prop input ''audio'';
          text = js_text_of (fe_decimal E)
      in [(baseAsset (U n) ''image'' (fe_hash E image))
            \<lparr>da_seed := get_prop image ''seed'', da_aspect_ratio := get_prop image ''aspectRatio'',
             da_spec := JObj [(''prompt'', get_prop image ''prompt''),
                              (''negative_prompt'', get_prop image ''negativePrompt'')],
             da_provenance := [(''palette'', get_prop input ''palette''), (''seed'', get_prop image ''seed'')]\<rparr>,
          (baseAsset (U (n + 1)) ''video'' (fe_hash E video))
            \<lparr>da_aspect_ratio := JStr ''9:16'',
             da_spec := carry video [(''captions_required'', JBool True), (''cta_required'', JBool True)],
             da_provenance := [(''template'', get_prop video ''template'')]\<rparr>,
          (baseAsset (U (n + 2)) ''audio'' (fe_hash E audio))
            \<lparr>da_lufs := get_prop audio ''lufs'',
             da_tags := [get_prop audio ''mood'', JStr (text (get_prop audio ''bpm'') @ ''bpm''),
                         get_prop audio ''useCase''],
             da_spec := audio,
             da_provenance := [(''license'', get_prop audio ''license''), (''generated'', JBool True)]\<rparr>])"

definition caption_text :: "factory_env \<Rightarrow> js \<Rightarrow> js list \<Rightarrow> string" where
  "caption_text E caption hashtags =
     (let text = js_text_of (fe_decimal E)
      in js_trim (text (get_prop caption ''hook'') @ newline @ newline @ text (get_prop caption ''body'') @
           newline @ newline @ text (get_prop caption ''cta'') @ newline @
           join_with '' '' (map (\<lambda>x. if is_nullish x then [] else text x) hashtags)))"

definition too_long :: "string \<Rightarrow> nat prop_lookup \<Rightarrow> bool" where
  "too_long body limit = (case limit of Own n \<Rightarrow> n < length body | _ \<Rightarrow> False)"

fun platform_captions ::
  "factory_env \<Rightarrow> (nat \<Rightarrow> string) \<Rightarrow> nat \<Rightarrow> js \<Rightarrow> string \<Rightarrow> js list \<Rightarrow> string \<Rightarrow> js list \<Rightarrow> draft_caption list thrower" where
  "platform_captions E U n input assetId hashtags body [] = Inr []"
| "platform_captions E U n input assetId hashtags body (p # ps) =
     (let text = js_text_of (fe_decimal E); name = text p; limit = literal_lookup CAPTION_LIMITS name;
          caption = get_prop input ''caption''; idea = get_prop input ''idea''
      in bindR (guard (limit = Absent) (''Unsupported caption platform: '' @ name)) (\<lambda>_.
         bindR (guard (too_long body limit) (name @ '' caption exceeds character limit'')) (\<lambda>_.
         bindR (platform_captions E U (Suc n) input assetId hashtags body ps) (\<lambda>rest.
           Inr (\<lparr>dc_id = U n, dc_asset_id = assetId, dc_platform = p, dc_body = body,
                 dc_hook = get_prop caption ''hook'', dc_cta = get_prop caption ''cta'', dc_hashtags = hashtags,
                 dc_alt_text = text (get_prop idea ''title'') @ '': '' @
                   text (get_prop (get_prop input ''image'') ''prompt''),
                 dc_seo_description = text (get_prop idea ''title'') @ '' for '' @ text (get_prop idea ''persona'')\<rparr>
               # rest)))))"

text \<open>The ids are drawn from the supply \<open>U\<close>, from place \<open>n\<close> on.\<close>

definition createDraftAssetPack :: "factory_env \<Rightarrow> (nat \<Rightarrow> string) \<Rightarrow> nat \<Rightarrow> int \<Rightarrow> js \<Rightarrow> asset_pack thrower" where
  "createDraftAssetPack E U n now input =
     bindR (check_media input) (\<lambda>_.
     bindR (read_path input [''caption'', ''hashtags'']) (\<lambda>tags.
     bindR (as_array tags) (\<lambda>hashtags.
     bindR (read_path input [''idea'', ''title'']) (\<lambda>title.
     bindR (read_prop input ''platforms'') (\<lambda>ps.
     bindR (as_array ps) (\<lambda>platforms.
       let caption = get_prop input ''caption'';
           asset = (baseAsset (U (n + 3)) ''caption'' (fe_hash E caption))
             \<lparr>da_spec := caption, da_provenance := [(''source_idea'', title)]\<rparr>
       in bindR (platform_captions E U (n + 4) input (U (n + 3)) hashtags (caption_text E caption hashtags) platforms)
            (\<lambda>captions.
              Inr \<lparr>pk_id = U (n + 4 + length platforms), pk_brand = get_prop input ''brand'',
                   pk_idea = carry (get_prop input ''idea'') [(''status'', JStr ''selected''), (''version'', int_js 1)],
                   pk_assets = media_assets E U n input @ [asset], pk_captions = captions,
                   pk_created_at = to_iso now\<rparr>)))))))"

definition draft_asset_js :: "draft_asset \<Rightarrow> js" where
  "draft_asset_js a =
     JObj ([(''id'', JStr (da_id a)), (''type'', JStr (da_type a)), (''prompt_hash'', JStr (da_prompt_hash a)),
            (''tags'', JArr (da_tags a)), (''score'', int_js 0), (''status'', JStr ''draft''), (''version'', int_js 1)] @
           (if da_type a = ''image'' then [(''seed'', da_seed a), (''brand_delta_e'', JNull)] else []) @
           (if da_type a = ''audio'' then [(''lufs'', da_lufs a)] else []) @
           (if da_aspect_ratio a \<noteq> JUndef then [(''aspect_ratio'', da_aspect_ratio a)] else []) @
           [(''spec'', da_spec a), (''provenance'', JObj (da_provenance a))])"

definition draft_caption_js :: "draft_caption \<Rightarrow> js" where
  "draft_caption_js c =
     JObj [(''id'', JStr (dc_id c)), (''asset_id'', JStr (dc_asset_id c)), (''platform'', dc_platform c),
           (''body'', JStr (dc_body c)), (''hook'', dc_hook c), (''cta'', dc_cta c),
           (''hashtags'', JArr (dc_hashtags c)), (''alt_text'', JStr (dc_alt_text c)),
           (''seo_description'', JStr (dc_seo_description c)), (''version'', int_js 1)]"

definition asset_pack_js :: "asset_pack \<Rightarrow> js" where
  "asset_pack_js p =
     JObj [(''id'', JStr (pk_id p)), (''brand'', pk_brand p), (''idea'', pk_idea p),
           (''assets'', JArr (map draft_asset_js (pk_assets p))),
           (''captions'', JArr (map draft_caption_js (pk_captions p))),
           (''approval_required'', JBool True), (''created_at'', JStr (pk_created_at p))]"

section \<open>Slots\<close>

definition same_wall_clock :: "date_time \<Rightarrow> date_time \<Rightarrow> bool" where
  "same_wall_clock a b \<longleftrightarrow>
     dt_year a = dt_year b \<and> dt_month a = dt_month b \<and> dt_day a = dt_day b \<and>
     dt_hour a = dt_hour b \<and> dt_minute a = dt_minute b \<and> dt_second a = dt_second b"

definition localSlotToUtc :: "factory_env \<Rightarrow> js \<Rightarrow> js \<Rightarrow> string thrower" where
  "localSlotToUtc E localIso timezone =
     (if \<not> fe_isValidZone E timezone
      then Inl (Error (''Invalid timezone: '' @ js_text_of (fe_decimal E) timezone))
      else case (fe_fromISO E localIso (JStr ''UTC''), fe_fromISO E localIso timezone) of
        (Some requested, Some zoned) \<Rightarrow>
          if \<not> same_wall_clock zoned requested
          then Inl (Error ''Invalid local time in timezone (possible daylight-saving gap)'')
          else Inr (dt_utc zoned)
      | _ \<Rightarrow> Inl (Error ''Invalid local time''))"

section \<open>Mentions and alerts\<close>

definition begins_with :: "string \<Rightarrow> string \<Rightarrow> bool" where
  "begins_with s w \<longleftrightarrow> take (length w) s = w"

text \<open>\<open>/a|b|c/.test(s)\<close> and \<open>s.match(/a|b|c/g).length\<close> for literal alternatives.\<close>

fun mentions_any :: "string list \<Rightarrow> string \<Rightarrow> bool" where
  "mentions_any ws [] = False"
| "mentions_any ws (c # s) = (list_ex (begins_with (c # s)) ws \<or> mentions_any ws s)"

function matches_of :: "string list \<Rightarrow> string \<Rightarrow> nat" where
  "matches_of ws s =
     (case s of
        [] \<Rightarrow> 0
      | c # t \<Rightarrow>
          (case find (begins_with s) ws of
             Some w \<Rightarrow> Suc (matches_of ws (drop (length w - 1) t))
           | None \<Rightarrow> matches_of ws t))"
  by pat_completeness auto
termination by (relation "measure (length \<circ> snd)") auto

declare matches_of.simps [simp del]

definition SPAM :: "string list" where
  "SPAM = [''http://'', ''https://'', ''free crypto'', ''buy now'', ''click here'']"

definition COMPLAINT :: "string list" where
  "COMPLAINT =
     [''broken'', ''refund'', ''complaint'', ''angry'', ''terrible'', ''doesnt work'',
      ''doesn'' @ CHR 0x27 # ''t work'', ''not working'']"

definition LEAD :: "string list" where
  "LEAD = [''our business'', ''pricing'', ''demo'', ''hire'', ''purchase'', ''your team help'']"

definition QUESTION :: "string list" where
  "QUESTION = [''?'', ''how '', ''what '', ''when '', ''where '', ''can i'', ''could i'']"

definition PRAISE :: "string list" where
  "PRAISE = [''amazing'', ''thank'', ''great'', ''love'', ''excellent'', ''helpful'']"

definition NEGATIVE :: "string list" where
  "NEGATIVE = [''broken'', ''refund'', ''angry'', ''terrible'', ''bad'', ''failed'', ''not working'']"

definition classification :: "string \<Rightarrow> string" where
  "classification s =
     (if mentions_any SPAM s then ''spam''
      else if mentions_any COMPLAINT s then ''complaint''
      else if mentions_any LEAD s then ''lead''
      else if mentions_any QUESTION s then ''question''
      else if mentions_any PRAISE s then ''praise''
      else ''question'')"

definition sentiment :: "string \<Rightarrow> int" where
  "sentiment s = max 0 (min 100 (50 + int (matches_of PRAISE s) * 15 - int (matches_of NEGATIVE s) * 20))"

definition REPLY_DRAFT :: string where
  "REPLY_DRAFT =
     ''We are sorry this happened. Please share the relevant details privately so our team can investigate promptly.''"

definition analyzeMention :: "(rat \<Rightarrow> string) \<Rightarrow> js \<Rightarrow> js thrower" where
  "analyzeMention R mention =
     bindR (read_prop mention ''body'') (\<lambda>b.
       let s = to_lower (js_text_of R (js_or b (JStr []))); c = classification s; m = sentiment s
       in Inr (carry mention
            ([(''classification'', JStr c), (''sentiment'', int_js m)] @
             (if c = ''complaint''
              then [(''replyDraft'', JStr REPLY_DRAFT),
                    (''escalation'', JObj [(''severity'', JStr (if m < 30 then ''critical'' else ''warning'')),
                                           (''slaMinutes'', int_js (if m < 30 then 30 else 120))])]
              else if c = ''lead''
              then [(''escalation'', JObj [(''severity'', JStr ''info''), (''slaMinutes'', int_js 240),
                                           (''handoff'', JStr ''sales'')])]
              else []))))"

text \<open>\<open>a \<ge> b\<close>, \<open>2 * a\<close> and \<open>a - b\<close> on numbers\<close>

definition num_ge :: "jsnum \<Rightarrow> jsnum \<Rightarrow> bool" where
  "num_ge a b \<longleftrightarrow> a \<noteq> NaN \<and> b \<noteq> NaN \<and> \<not> num_lt a b"

definition num_twice :: "jsnum \<Rightarrow> jsnum" where
  "num_twice a = (case a of Fin q \<Rightarrow> Fin (2 * q) | _ \<Rightarrow> a)"

definition num_minus :: "jsnum \<Rightarrow> jsnum \<Rightarrow> jsnum" where
  "num_minus a b =
     (case (a, b) of
        (Fin p, Fin q) \<Rightarrow> Fin (p - q)
      | (PosInf, Fin _) \<Rightarrow> PosInf
      | (PosInf, NegInf) \<Rightarrow> PosInf
      | (NegInf, Fin _) \<Rightarrow> NegInf
      | (NegInf, PosInf) \<Rightarrow> NegInf
      | (Fin _, PosInf) \<Rightarrow> NegInf
      | (Fin _, NegInf) \<Rightarrow> PosInf
      | _ \<Rightarrow> NaN)"

definition alert_rules :: "js \<Rightarrow> (string \<times> bool \<times> string) list" where
  "alert_rules snapshot =
     (let n = (\<lambda>k. js_number (get_prop snapshot k)); positive = (\<lambda>k. num_lt (Fin 0) (n k))
      in [(''volume_spike'', positive ''baselineVolume'' \<and>
             num_ge (n ''volume'') (num_twice (n ''baselineVolume'')), ''warning''),
          (''sentiment_deterioration'',
             num_ge (num_minus (n ''baselineSentiment'') (n ''sentiment'')) (Fin 20), ''critical''),
          (''viral_negative_content'', num_ge (n ''viralNegativeReach'') (Fin 10000), ''critical''),
          (''competitor_pricing_mention'', positive ''competitorPricingMentions'', ''info''),
          (''creator_influencer_mention'', positive ''influencerMentions'', ''info''),
          (''overdue_critical_reply'', positive ''overdueCriticalReplies'', ''critical'')])"

definition evaluateAlerts :: "(rat \<Rightarrow> string) \<Rightarrow> js \<Rightarrow> js list" where
  "evaluateAlerts R snapshot =
     map (\<lambda>(type, _, severity).
            JObj [(''type'', JStr type), (''severity'', JStr severity),
                  (''dedupeKey'', JStr (js_text_of R (get_prop snapshot ''brandId'') @ '':'' @ type @ '':'' @
                                        js_text_of R (get_prop snapshot ''period''))),
                  (''status'', JStr ''open''), (''evidence'', snapshot)])
       (filter (\<lambda>(_, firing, _). firing) (alert_rules snapshot))"

section \<open>The steps of the factory and their handlers\<close>

definition FACTORY_STEPS :: "step_spec list" where
  "FACTORY_STEPS =
     map (\<lambda>(key, owner, n). \<lparr>sx_key = key, sx_owner = owner, sx_timeoutMs = None, sx_maxAttempts = Some n\<rparr>)
       [(''M01_STRATEGY'', ''strategy'', 3), (''M02_IMAGE'', ''creative'', 3), (''M03_VIDEO'', ''creative'', 3),
        (''M04_AUDIO'', ''creative'', 3), (''M05_CAPTION'', ''editorial'', 3), (''M10_QA'', ''brand-safety'', 2),
        (''APPROVAL'', ''human-or-policy'', 1), (''M06_PUBLISH'', ''publishing'', 5),
        (''M07_MONITOR'', ''community'', 3), (''M08_REPORT'', ''analytics'', 3)]"

text \<open>\<open>[...input.completedModules, m]\<close>\<close>

definition completed :: "js \<Rightarrow> string \<Rightarrow> js thrower" where
  "completed v m = bindR (iterated v) (\<lambda>xs. Inr (JArr (xs @ [JStr m])))"

definition m01_prompt :: "js \<Rightarrow> js \<Rightarrow> prompt_spec" where
  "m01_prompt brand idea =
     \<lparr>ps_module = ''M01'', ps_mode = ''PRODUCTION'', ps_brand = brand, ps_role = ''Content strategy lead'',
      ps_inputs = idea, ps_template = ''Create a production content pack for {brand} about {title}.'',
      ps_constraints = [JStr ''Use only substantiated claims''],
      ps_output = JObj [(''type'', JStr ''scored_idea'')],
      ps_selfCheck = JArr [JStr ''brand_fit'', JStr ''audience_value''], ps_approvalRequired = JUndef\<rparr>"

definition M01_STRATEGY :: "factory_env \<Rightarrow> js \<Rightarrow> js thrower" where
  "M01_STRATEGY E input =
     bindR (read_prop input ''idea'') (\<lambda>idea.
     bindR (guard (\<not> truthy (get_prop idea ''title'') \<or> \<not> is_finite_js (get_prop idea ''score''))
              ''M01 requires a scored idea with a title'') (\<lambda>_.
     bindR (compilePrompt (fe_decimal E) (m01_prompt (get_prop input ''brand'') idea)) (\<lambda>prompt.
       Inr (carry input [(''idea'', carry idea [(''status'', JStr ''selected'')]), (''compiledPrompt'', prompt)]))))"

definition M02_IMAGE :: "js \<Rightarrow> js thrower" where
  "M02_IMAGE input =
     bindR (read_prop input ''image'') (\<lambda>image.
     bindR (guard (\<not> truthy (get_prop image ''prompt'')) ''M02 requires an image prompt'') (\<lambda>_.
     bindR (completed (js_or (get_prop input ''completedModules'') (JArr [])) ''M02'') (\<lambda>ms.
       Inr (carry input [(''completedModules'', ms)]))))"

definition M03_VIDEO :: "js \<Rightarrow> js thrower" where
  "M03_VIDEO input =
     bindR (read_prop input ''video'') (\<lambda>video.
     bindR (guard (\<not> truthy (js_length (get_prop video ''shots''))) ''M03 requires a video shot list'') (\<lambda>_.
     bindR (completed (get_prop input ''completedModules'') ''M03'') (\<lambda>ms.
       Inr (carry input [(''completedModules'', ms)]))))"

definition M04_AUDIO :: "js \<Rightarrow> js thrower" where
  "M04_AUDIO input =
     bindR (read_prop input ''audio'') (\<lambda>audio.
     bindR (guard (get_prop audio ''license'' \<noteq> JStr ''generated'') ''M04 requires generated audio provenance'') (\<lambda>_.
     bindR (completed (get_prop input ''completedModules'') ''M04'') (\<lambda>ms.
       Inr (carry input [(''completedModules'', ms)]))))"

definition M05_CAPTION :: "factory_env \<Rightarrow> (nat \<Rightarrow> string) \<Rightarrow> nat \<Rightarrow> int \<Rightarrow> js \<Rightarrow> (asset_pack \<times> js) thrower" where
  "M05_CAPTION E U n now input =
     bindR (createDraftAssetPack E U n now input) (\<lambda>pack.
     bindR (completed (get_prop input ''completedModules'') ''M05'') (\<lambda>ms.
       Inr (pack, carry input [(''completedModules'', ms), (''assetPack'', asset_pack_js pack)])))"

definition is_true :: "js \<Rightarrow> js" where
  "is_true v = JBool (v = JBool True)"

definition autopilot_context :: "js \<Rightarrow> qa_result \<Rightarrow> js" where
  "autopilot_context input qa =
     JObj [(''autoPilot'', is_true (get_prop input ''autoPilot'')),
           (''killSwitch'', is_true (get_prop input ''killSwitch'')),
           (''qaScore'', int_js (qa_score qa)),
           (''platformPermitted'', is_true (get_prop input ''platformPermitted'')),
           (''estimatedCost'', JNum (js_number (get_prop input ''estimatedCost''))),
           (''remainingBudget'', JNum (js_number (get_prop input ''remainingBudget''))),
           (''postsInWindow'', get_prop input ''postsInWindow''),
           (''postingFrequencyCap'', get_prop input ''postingFrequencyCap''),
           (''claimsSubstantiated'', is_true (get_prop input ''claimsSubstantiated'')),
           (''copyrightCleared'', is_true (get_prop input ''copyrightCleared''))]"

definition autopilot_js :: "bool \<times> string list \<Rightarrow> js" where
  "autopilot_js a = JObj [(''allowed'', JBool (fst a)), (''reasons'', JArr (map JStr (snd a)))]"

definition M10_QA :: "js \<Rightarrow> (qa_result \<times> js) thrower" where
  "M10_QA input =
     bindR (read_prop input ''qaChecks'') (\<lambda>checks.
     bindR (evaluateArtifact checks (get_prop input ''autoPilot'' = JBool True)) (\<lambda>qa.
     bindR (completed (get_prop input ''completedModules'') ''M10'') (\<lambda>ms.
       Inr (qa, carry input [(''qa'', qa_js qa),
                             (''autopilot'', autopilot_js (evaluateAutopilot (autopilot_context input qa))),
                             (''completedModules'', ms)]))))"

definition approved_input :: "js \<Rightarrow> bool" where
  "approved_input input \<longleftrightarrow>
     get_prop input ''approvalDecision'' = JStr ''approved'' \<or>
     get_prop input ''approvalDecision'' = JStr ''overridden'' \<or>
     get_prop (get_prop input ''autopilot'') ''allowed'' = JBool True"

definition APPROVAL :: "int \<Rightarrow> js \<Rightarrow> js thrower" where
  "APPROVAL now input =
     bindR (read_prop input ''approvalDecision'') (\<lambda>decision.
       if \<not> approved_input input
       then Inr (JObj [(''blocked'', JBool True),
                       (''reason'', JObj [(''code'', JStr ''HUMAN_APPROVAL_REQUIRED''), (''qa'', get_prop input ''qa'')]),
                       (''output'', input)])
       else Inr (carry input [(''approval'',
              JObj [(''decision'', js_or decision (JStr ''approved_by_policy'')), (''approvedAt'', JStr (to_iso now))])]))"

definition kill_switch_active :: thrown where
  "kill_switch_active =
     \<lparr>th_code = JStr ''KILL_SWITCH_ACTIVE'', th_message = ''Emergency publishing kill switch is active'',
      th_retryable = JBool False\<rparr>"

text \<open>The part of \<open>M06_PUBLISH\<close> before and after its call of \<open>publish\<close>.\<close>

definition publish_slot :: "factory_env \<Rightarrow> int \<Rightarrow> js \<Rightarrow> string option thrower" where
  "publish_slot E now input =
     (if fe_kill E now then Inl kill_switch_active
      else bindR (read_prop input ''slot'') (\<lambda>slot.
        if \<not> truthy slot then Inr None
        else bindR (read_path input [''brand'', ''timezone'']) (\<lambda>tz.
          bindR (localSlotToUtc E slot tz) (\<lambda>utc. Inr (Some utc)))))"

definition published_output :: "js \<Rightarrow> js \<Rightarrow> js thrower" where
  "published_output input publication =
     bindR (completed (get_prop input ''completedModules'') ''M06'') (\<lambda>ms.
       Inr (carry input [(''publication'', publication), (''completedModules'', ms)]))"

definition M07_MONITOR :: "factory_env \<Rightarrow> js \<Rightarrow> js thrower" where
  "M07_MONITOR E input =
     bindR (read_prop input ''mentions'') (\<lambda>v.
     bindR (as_array (js_or v (JArr []))) (\<lambda>raw.
     bindR (mapR (analyzeMention (fe_decimal E)) raw) (\<lambda>mentions.
       let snapshot = get_prop input ''alertSnapshot'';
           alerts = (if truthy snapshot then evaluateAlerts (fe_decimal E) snapshot else [])
       in bindR (completed (get_prop input ''completedModules'') ''M07'') (\<lambda>ms.
         Inr (carry input [(''monitoring'', JObj [(''mentions'', JArr mentions), (''alerts'', JArr alerts)]),
                           (''completedModules'', ms)])))))"

definition M08_REPORT :: "int \<Rightarrow> js \<Rightarrow> js thrower" where
  "M08_REPORT now input =
     bindR (read_path input [''brand'', ''brand'']) (\<lambda>brand.
     bindR (read_path input [''qa'', ''score'']) (\<lambda>score.
     bindR (read_path input [''monitoring'', ''alerts'']) (\<lambda>alerts.
     bindR (if is_nullish alerts then Inl type_error else Inr (js_length alerts)) (\<lambda>count.
     bindR (completed (get_prop input ''completedModules'') ''M08'') (\<lambda>ms.
       Inr (carry input
         [(''report'', JObj [(''brand'', brand), (''publication'', get_prop input ''publication''), (''qaScore'', score),
                             (''alertCount'', count), (''generatedAt'', JStr (to_iso now))]),
          (''completedModules'', ms)]))))))"

end
