(* ===== verification/FactoryStore.thy ===== *)
theory FactoryStore
  imports FactoryDomain
begin

text \<open>
  The tables of the content factory and the code that writes them:
  \<open>packages/zeto/src/repositories/factoryRepository.js\<close> (ideas, asset packs, quality checks,
  approvals), \<open>publicationRepository.js\<close> (the queued posts) and \<open>providerRegistry.js\<close> with what the
  providers of \<open>src/providers\<close> say they can publish. A constraint a statement can violate is a
  branch of it, in the order PostgreSQL checks them. Brands and users are given.
\<close>

section \<open>Tables\<close>

datatype asset_status = AsDraft | AsReview | AsApproved | AsBlocked
datatype decision = DePending | DeApproved | DeRejected | DeOverridden

record idea_row =
  ie_id :: string
  ie_brand :: string
  ie_title :: string
  ie_brief :: string
  ie_score :: "jsnum option"
  ie_provenance :: js

record asset_row =
  as_id :: string
  as_brand :: string
  as_idea :: "string option"
  as_type :: string
  as_prompt_hash :: string
  as_seed :: "string option"
  as_lufs :: js
  as_aspect_ratio :: "string option"
  as_tags :: js
  as_score :: "jsnum option"
  as_status :: asset_status
  as_version :: int
  as_provenance :: js

record caption_row =
  ca_id :: string
  ca_brand :: string
  ca_asset :: string
  ca_platform :: string
  ca_body :: string
  ca_hook :: "string option"
  ca_cta :: "string option"
  ca_hashtags :: js
  ca_alt_text :: string
  ca_seo_description :: string
  ca_version :: int

record approval_row =
  ap_id :: string
  ap_asset :: string
  ap_actor :: "string option"
  ap_decision :: decision
  ap_score :: "jsnum option"
  ap_breakdown :: js
  ap_reasons :: js
  ap_remediation :: js
  ap_createdAt :: int

record post_row =
  po_id :: string
  po_brand :: string
  po_assets :: "js list"
  po_caption :: string
  po_hashtags :: js
  po_platform :: string
  po_slot :: "string option"
  po_createdAt :: int

record publication_row =
  pu_id :: string
  pu_post :: string
  pu_provider :: string
  pu_key :: string
  pu_createdAt :: int

record idempotency_row =
  ik_key :: string
  ik_scope :: string
  ik_hash :: string
  ik_resource :: "string option"
  ik_response :: "js option"

record audit_row =
  au_actor :: "string option"
  au_resource :: string
  au_request :: string
  au_after :: js

record fx_db =
  fx_fresh :: nat
  fx_brands :: "string list"
  fx_users :: "string list"
  fx_ideas :: "idea_row list"
  fx_assets :: "asset_row list"
  fx_captions :: "caption_row list"
  fx_approvals :: "approval_row list"
  fx_posts :: "post_row list"
  fx_publications :: "publication_row list"
  fx_keys :: "idempotency_row list"
  fx_audit :: "audit_row list"

type_synonym 'a fx_result = "(fx_db, thrown, 'a) outcome"

section \<open>Parameters of statements\<close>

abbreviation not_null_violation :: thrown where "not_null_violation \<equiv> sql_error ''23502''"
abbreviation foreign_key_violation :: thrown where "foreign_key_violation \<equiv> sql_error ''23503''"
abbreviation invalid_text :: thrown where "invalid_text \<equiv> sql_error ''22P02''"

text \<open>The text of a value that is neither a string nor absent is no uuid.\<close>

definition uuid_param :: "factory_env \<Rightarrow> js \<Rightarrow> string option thrower" where
  "uuid_param E v =
     (if is_nullish v then Inr None
      else case v of
        JStr s \<Rightarrow> (case fe_uuid E s of None \<Rightarrow> Inl invalid_text | Some u \<Rightarrow> Inr (Some u))
      | _ \<Rightarrow> Inl invalid_text)"

definition text_param :: "factory_env \<Rightarrow> js \<Rightarrow> string option" where
  "text_param E v = (if is_nullish v then None else case v of JStr s \<Rightarrow> Some s | _ \<Rightarrow> Some (fe_text E v))"

definition numeric_param :: "factory_env \<Rightarrow> js \<Rightarrow> jsnum option thrower" where
  "numeric_param E v =
     (if is_nullish v then Inr None
      else case fe_numeric E v of Inl state \<Rightarrow> Inl (sql_error state) | Inr n \<Rightarrow> Inr (Some n))"

text \<open>\<open>JSON.stringify(v)\<close> as a parameter: \<open>undefined\<close> has no text.\<close>

definition json_param :: "js \<Rightarrow> js option" where
  "json_param v = (if v = JUndef then None else Some (json_image v))"

definition required :: "'a option \<Rightarrow> 'a thrower" where
  "required v = (case v of None \<Rightarrow> Inl not_null_violation | Some x \<Rightarrow> Inr x)"

definition score_ok :: "jsnum option \<Rightarrow> bool" where
  "score_ok n = (case n of None \<Rightarrow> True | Some (Fin q) \<Rightarrow> 0 \<le> q \<and> q \<le> 100 | _ \<Rightarrow> False)"

text \<open>An operation that only computes.\<close>

definition lift :: "'a thrower \<Rightarrow> 's \<Rightarrow> ('s, thrown, 'a) outcome" where
  "lift r s = (s, r)"

section \<open>Ideas and asset packs\<close>

definition idea_provenance :: "string \<Rightarrow> js \<Rightarrow> js" where
  "idea_provenance rid idea =
     json_image (JObj (spread [(''workflowRunId'', JStr rid)]
       (members (js_or (get_prop idea ''provenance'') (JObj [])))))"

text \<open>\<open>provenance->>'workflowRunId' = $2\<close>; the text of a value that is no string is no id.\<close>

definition idea_of_run :: "string option \<Rightarrow> string \<Rightarrow> idea_row \<Rightarrow> bool" where
  "idea_of_run brand rid i \<longleftrightarrow>
     brand = Some (ie_brand i) \<and> get_prop (ie_provenance i) ''workflowRunId'' = JStr rid"

definition insert_idea :: "idea_row \<Rightarrow> fx_db \<Rightarrow> unit fx_result" where
  "insert_idea i d =
     (if \<not> score_ok (ie_score i) then (d, Inl check_violation)
      else if list_ex (\<lambda>x. ie_id x = ie_id i) (fx_ideas d) then (d, Inl unique_violation)
      else if ie_brand i \<notin> set (fx_brands d) then (d, Inl foreign_key_violation)
      else (d\<lparr>fx_ideas := fx_ideas d @ [i]\<rparr>, Inr ()))"

definition persistIdea ::
  "factory_env \<Rightarrow> (nat \<Rightarrow> string) \<Rightarrow> string \<Rightarrow> js \<Rightarrow> js \<Rightarrow> fx_db \<Rightarrow> idea_row fx_result" where
  "persistIdea E U rid brandId idea d =
     andThen (lift (uuid_param E brandId) d) (\<lambda>d b.
       case find (idea_of_run b rid) (fx_ideas d) of
         Some i \<Rightarrow> (d, Inr i)
       | None \<Rightarrow>
           andThen (lift (numeric_param E (get_prop idea ''score'')) d) (\<lambda>d n.
           andThen (lift (required b) d) (\<lambda>d brand.
           andThen (lift (required (text_param E (get_prop idea ''title''))) d) (\<lambda>d title.
             let i = \<lparr>ie_id = U (fx_fresh d), ie_brand = brand, ie_title = title,
                      ie_brief = or_else (text_param E (js_or (get_prop idea ''brief'') (JStr []))) [],
                      ie_score = n, ie_provenance = idea_provenance rid idea\<rparr>
             in andThen (insert_idea i (d\<lparr>fx_fresh := Suc (fx_fresh d)\<rparr>)) (\<lambda>d _. (d, Inr i))))))"

text \<open>An insert that a unique constraint may turn into nothing.\<close>

definition insert_asset :: "asset_row \<Rightarrow> fx_db \<Rightarrow> unit fx_result" where
  "insert_asset a d =
     (if list_ex (\<lambda>x. as_brand x = as_brand a \<and> as_prompt_hash x = as_prompt_hash a \<and> as_version x = as_version a)
           (fx_assets d) then (d, Inr ())
      else if list_ex (\<lambda>x. as_id x = as_id a) (fx_assets d) then (d, Inl unique_violation)
      else if as_brand a \<notin> set (fx_brands d) \<or>
              (case as_idea a of Some i \<Rightarrow> i \<notin> ie_id ` set (fx_ideas d) | None \<Rightarrow> False)
      then (d, Inl foreign_key_violation)
      else (d\<lparr>fx_assets := fx_assets d @ [a]\<rparr>, Inr ()))"

definition insert_caption :: "caption_row \<Rightarrow> fx_db \<Rightarrow> unit fx_result" where
  "insert_caption c d =
     (if list_ex (\<lambda>x. ca_asset x = ca_asset c \<and> ca_platform x = ca_platform c \<and> ca_version x = ca_version c)
           (fx_captions d) then (d, Inr ())
      else if list_ex (\<lambda>x. ca_id x = ca_id c) (fx_captions d) then (d, Inl unique_violation)
      else if ca_brand c \<notin> set (fx_brands d) \<or> ca_asset c \<notin> as_id ` set (fx_assets d)
      then (d, Inl foreign_key_violation)
      else (d\<lparr>fx_captions := fx_captions d @ [c]\<rparr>, Inr ()))"

definition asset_provenance :: "draft_asset \<Rightarrow> js" where
  "asset_provenance a =
     json_image (JObj (spread (da_provenance a) [(''spec'', js_or (da_spec a) (JObj []))]))"

definition persist_asset :: "factory_env \<Rightarrow> js \<Rightarrow> js \<Rightarrow> draft_asset \<Rightarrow> fx_db \<Rightarrow> unit fx_result" where
  "persist_asset E brandId ideaId a d =
     andThen (lift (uuid_param E brandId) d) (\<lambda>d b.
     andThen (lift (uuid_param E ideaId) d) (\<lambda>d idea.
     andThen (lift (required b) d) (\<lambda>d brand.
       insert_asset
         \<lparr>as_id = da_id a, as_brand = brand, as_idea = idea, as_type = da_type a, as_prompt_hash = da_prompt_hash a,
          as_seed = text_param E (js_or (da_seed a) JNull), as_lufs = da_lufs a,
          as_aspect_ratio = text_param E (js_or (da_aspect_ratio a) JNull),
          as_tags = json_image (JArr (da_tags a)), as_score = Some (Fin 0), as_status = AsDraft, as_version = 1,
          as_provenance = asset_provenance a\<rparr> d)))"

definition persist_caption :: "factory_env \<Rightarrow> js \<Rightarrow> draft_caption \<Rightarrow> fx_db \<Rightarrow> unit fx_result" where
  "persist_caption E brandId c d =
     andThen (lift (uuid_param E brandId) d) (\<lambda>d b.
     andThen (lift (required b) d) (\<lambda>d brand.
     andThen (lift (required (text_param E (dc_platform c))) d) (\<lambda>d platform.
       insert_caption
         \<lparr>ca_id = dc_id c, ca_brand = brand, ca_asset = dc_asset_id c, ca_platform = platform, ca_body = dc_body c,
          ca_hook = text_param E (dc_hook c), ca_cta = text_param E (dc_cta c),
          ca_hashtags = json_image (JArr (dc_hashtags c)), ca_alt_text = dc_alt_text c,
          ca_seo_description = dc_seo_description c, ca_version = 1\<rparr> d)))"

text \<open>A statement for every element, in order.\<close>

fun for_each :: "('a \<Rightarrow> 's \<Rightarrow> ('s, 'e, unit) outcome) \<Rightarrow> 'a list \<Rightarrow> 's \<Rightarrow> ('s, 'e, unit) outcome" where
  "for_each f [] s = (s, Inr ())"
| "for_each f (x # xs) s = andThen (f x s) (\<lambda>s _. for_each f xs s)"

definition persistAssetPack :: "factory_env \<Rightarrow> js \<Rightarrow> js \<Rightarrow> asset_pack \<Rightarrow> fx_db \<Rightarrow> unit fx_result" where
  "persistAssetPack E brandId ideaId pack =
     transaction (\<lambda>d.
       andThen (for_each (persist_asset E brandId ideaId) (pk_assets pack) d) (\<lambda>d _.
         for_each (persist_caption E brandId) (pk_captions pack) d))"

section \<open>Quality checks and approvals\<close>

definition insert_approval :: "approval_row \<Rightarrow> fx_db \<Rightarrow> unit fx_result" where
  "insert_approval g d =
     (if list_ex (\<lambda>x. ap_id x = ap_id g) (fx_approvals d) then (d, Inl unique_violation)
      else if ap_asset g \<notin> as_id ` set (fx_assets d) \<or>
              (case ap_actor g of Some u \<Rightarrow> u \<notin> set (fx_users d) | None \<Rightarrow> False)
      then (d, Inl foreign_key_violation)
      else (d\<lparr>fx_approvals := fx_approvals d @ [g]\<rparr>, Inr ()))"

definition add_approval ::
  "factory_env \<Rightarrow> (nat \<Rightarrow> string) \<Rightarrow> int \<Rightarrow> string option \<Rightarrow> string option \<Rightarrow> decision \<Rightarrow> jsnum option \<Rightarrow> js \<Rightarrow> fx_db \<Rightarrow> unit fx_result" where
  "add_approval E U now asset actor decision score qa d =
     andThen (lift (required asset) d) (\<lambda>d asset.
     andThen (lift (required (json_param (get_prop qa ''breakdown''))) d) (\<lambda>d breakdown.
     andThen (lift (required (json_param (get_prop qa ''reasons''))) d) (\<lambda>d reasons.
     andThen (lift (required (json_param (get_prop qa ''remediation''))) d) (\<lambda>d remediation.
       insert_approval
         \<lparr>ap_id = U (fx_fresh d), ap_asset = asset, ap_actor = actor, ap_decision = decision, ap_score = score,
          ap_breakdown = breakdown, ap_reasons = reasons, ap_remediation = remediation, ap_createdAt = now\<rparr>
         (d\<lparr>fx_fresh := Suc (fx_fresh d)\<rparr>)))))"

definition qa_decision :: "qa_result \<Rightarrow> decision" where
  "qa_decision qa = (if qa_route qa = ''block'' then DeRejected else DePending)"

definition qa_status :: "qa_result \<Rightarrow> asset_status" where
  "qa_status qa = (if qa_route qa = ''block'' then AsBlocked else AsReview)"

definition score_asset :: "string option \<Rightarrow> jsnum option \<Rightarrow> asset_status \<Rightarrow> fx_db \<Rightarrow> unit fx_result" where
  "score_asset asset score st d =
     (if asset \<in> Some ` as_id ` set (fx_assets d) \<and> \<not> score_ok score then (d, Inl check_violation)
      else (d\<lparr>fx_assets := update_where (\<lambda>a. Some (as_id a) = asset) (\<lambda>a. a\<lparr>as_score := score, as_status := st\<rparr>)
                (fx_assets d)\<rparr>, Inr ()))"

definition persist_qa_of :: "factory_env \<Rightarrow> (nat \<Rightarrow> string) \<Rightarrow> int \<Rightarrow> qa_result \<Rightarrow> js \<Rightarrow> fx_db \<Rightarrow> unit fx_result" where
  "persist_qa_of E U now qa assetId d =
     andThen (lift (uuid_param E assetId) d) (\<lambda>d asset.
     andThen (lift (numeric_param E (int_js (qa_score qa))) d) (\<lambda>d score.
     andThen
       (if list_ex (\<lambda>g. asset = Some (ap_asset g) \<and> ap_decision g = qa_decision qa \<and> score \<noteq> None \<and> ap_score g = score)
             (fx_approvals d)
        then (d, Inr ())
        else add_approval E U now asset None (qa_decision qa) score (qa_js qa) d)
       (\<lambda>d _. score_asset asset score (qa_status qa) d)))"

definition persistQa :: "factory_env \<Rightarrow> (nat \<Rightarrow> string) \<Rightarrow> int \<Rightarrow> js list \<Rightarrow> qa_result \<Rightarrow> fx_db \<Rightarrow> unit fx_result" where
  "persistQa E U now assetIds qa = transaction (for_each (persist_qa_of E U now qa) assetIds)"

definition approve_asset :: "factory_env \<Rightarrow> (nat \<Rightarrow> string) \<Rightarrow> int \<Rightarrow> js \<Rightarrow> js \<Rightarrow> decision \<Rightarrow> js \<Rightarrow> fx_db \<Rightarrow> unit fx_result" where
  "approve_asset E U now actorId qa decision assetId d =
     andThen (lift (read_prop qa ''score'') d) (\<lambda>d s.
     andThen (lift (uuid_param E assetId) d) (\<lambda>d asset.
     andThen (lift (uuid_param E actorId) d) (\<lambda>d actor.
     andThen (lift (numeric_param E s) d) (\<lambda>d score.
     andThen (add_approval E U now asset actor decision score qa d) (\<lambda>d _.
       (d\<lparr>fx_assets := update_where (\<lambda>a. Some (as_id a) = asset) (\<lambda>a. a\<lparr>as_status := AsApproved\<rparr>) (fx_assets d)\<rparr>,
        Inr ()))))))"

definition factory_decision :: "string \<Rightarrow> decision option" where
  "factory_decision s =
     (if s = ''approved'' then Some DeApproved else if s = ''overridden'' then Some DeOverridden else None)"

definition approve_assets ::
  "factory_env \<Rightarrow> (nat \<Rightarrow> string) \<Rightarrow> int \<Rightarrow> js list \<Rightarrow> js \<Rightarrow> js \<Rightarrow> string \<Rightarrow> fx_db \<Rightarrow> unit fx_result" where
  "approve_assets E U now assetIds actorId qa decision d =
     (case factory_decision decision of
        None \<Rightarrow> (d, Inl (Error ''Invalid factory approval decision''))
      | Some dec \<Rightarrow> transaction (for_each (approve_asset E U now actorId qa dec) assetIds) d)"

section \<open>Providers\<close>

definition CAPABILITIES :: "(string \<times> (string \<times> bool) list) list" where
  "CAPABILITIES =
     (let caps = (\<lambda>text image video del. [(''text'', text), (''image'', image), (''video'', video), (''delete'', del), (''metrics'', True)])
      in [(''facebook'', caps True True True True), (''instagram'', caps False True True False),
          (''youtube'', caps False False True True), (''tiktok'', caps False False True False),
          (''x'', caps True True True True), (''linkedin'', caps True True False True)])"

definition provider_key :: "factory_env \<Rightarrow> js \<Rightarrow> string" where
  "provider_key E name = to_lower (js_text_of (fe_decimal E) (js_or name (JStr [])))"

definition provider_get :: "factory_env \<Rightarrow> js \<Rightarrow> (string \<times> bool) list thrower" where
  "provider_get E name =
     (let key = provider_key E name
      in case map_of CAPABILITIES key of
           Some caps \<Rightarrow> Inr caps
         | None \<Rightarrow> Inl (Error (''Unknown publishing provider: '' @ (if key = [] then ''<empty>'' else key))))"

definition capable :: "(string \<times> bool) list \<Rightarrow> string \<Rightarrow> bool" where
  "capable caps kind = (case literal_lookup caps kind of Own b \<Rightarrow> b | Inherited \<Rightarrow> True | Absent \<Rightarrow> False)"

definition unsupported :: "factory_env \<Rightarrow> js \<Rightarrow> string \<Rightarrow> thrown" where
  "unsupported E platform kind =
     Error (js_text_of (fe_decimal E) platform @ '' does not support '' @ kind @ '' publications'')"

definition validatePublication :: "factory_env \<Rightarrow> js \<Rightarrow> js \<Rightarrow> unit thrower" where
  "validatePublication E name kind =
     bindR (provider_get E name) (\<lambda>caps.
       let k = js_text_of (fe_decimal E) (js_or kind (JStr ''text''))
       in if capable caps k then Inr () else Inl (unsupported E name k))"

section \<open>Publications\<close>

record publication_command =
  pc_brandId :: js
  pc_assetIds :: "js list"
  pc_platform :: js
  pc_kind :: js
  pc_caption :: js
  pc_hashtags :: js
  pc_slot :: "string option"

definition slot_js :: "string option \<Rightarrow> js" where
  "slot_js s = (case s of None \<Rightarrow> JNull | Some t \<Rightarrow> JStr t)"

definition command_js :: "publication_command \<Rightarrow> js" where
  "command_js c =
     JObj [(''brandId'', pc_brandId c), (''assetIds'', JArr (pc_assetIds c)), (''platform'', pc_platform c),
           (''kind'', pc_kind c), (''caption'', pc_caption c), (''hashtags'', pc_hashtags c), (''slot'', slot_js (pc_slot c))]"

definition SCOPE :: string where
  "SCOPE = ''publications.create''"

definition the_ids :: "factory_env \<Rightarrow> js list \<Rightarrow> string list thrower" where
  "the_ids E vs =
     bindR (mapR (uuid_param E) vs) (\<lambda>us. Inr (map the (filter (\<lambda>u. u \<noteq> None) us)))"

text \<open>\<open>DISTINCT ON (asset_id) \<dots> ORDER BY asset_id, created_at DESC, id DESC\<close>\<close>

definition current_approval :: "fx_db \<Rightarrow> string \<Rightarrow> approval_row option" where
  "current_approval d a =
     (case rev (sort_key (\<lambda>g. (ap_createdAt g, ap_id g)) (filter (\<lambda>g. ap_asset g = a) (fx_approvals d))) of
        [] \<Rightarrow> None
      | g # _ \<Rightarrow> Some g)"

definition publishable :: "fx_db \<Rightarrow> asset_row \<Rightarrow> bool" where
  "publishable d a \<longleftrightarrow>
     as_status a = AsApproved \<and>
     (case current_approval d (as_id a) of
        Some g \<Rightarrow> ap_decision g = DeApproved \<or> ap_decision g = DeOverridden
      | None \<Rightarrow> False)"

definition requested_kinds :: "factory_env \<Rightarrow> js \<Rightarrow> asset_row list \<Rightarrow> string list" where
  "requested_kinds E kind assets =
     (if truthy kind then [js_text_of (fe_decimal E) kind]
      else remdups (map (\<lambda>a. if as_type a = ''video'' then ''video'' else ''image'') assets))"

definition post_js :: "post_row \<Rightarrow> js" where
  "post_js p =
     JObj [(''id'', JStr (po_id p)), (''brand_id'', JStr (po_brand p)), (''caption_id'', JNull),
           (''asset_ids'', JArr (po_assets p)), (''caption'', JStr (po_caption p)), (''hashtags'', po_hashtags p),
           (''platform'', JStr (po_platform p)), (''slot'', slot_js (po_slot p)), (''status'', JStr ''queued''),
           (''permalink'', JStr []), (''retry_count'', int_js 0),
           (''created_at'', JStr (to_iso (po_createdAt p))), (''updated_at'', JStr (to_iso (po_createdAt p)))]"

definition publication_js :: "publication_row \<Rightarrow> js" where
  "publication_js p =
     JObj [(''id'', JStr (pu_id p)), (''post_id'', JStr (pu_post p)), (''provider'', JStr (pu_provider p)),
           (''idempotency_key'', JStr (pu_key p)), (''provider_publication_id'', JNull), (''permalink'', JNull),
           (''status'', JStr ''pending''), (''attempt'', int_js 0), (''provider_response'', JObj []),
           (''last_error'', JNull), (''published_at'', JNull),
           (''created_at'', JStr (to_iso (pu_createdAt p))), (''updated_at'', JStr (to_iso (pu_createdAt p)))]"

definition insert_post :: "post_row \<Rightarrow> fx_db \<Rightarrow> unit fx_result" where
  "insert_post p d =
     (if list_ex (\<lambda>x. po_id x = po_id p) (fx_posts d) then (d, Inl unique_violation)
      else if po_brand p \<notin> set (fx_brands d) then (d, Inl foreign_key_violation)
      else (d\<lparr>fx_posts := fx_posts d @ [p]\<rparr>, Inr ()))"

definition insert_publication :: "publication_row \<Rightarrow> fx_db \<Rightarrow> unit fx_result" where
  "insert_publication p d =
     (if list_ex (\<lambda>x. pu_id x = pu_id p \<or> pu_key x = pu_key p) (fx_publications d) then (d, Inl unique_violation)
      else (d\<lparr>fx_publications := fx_publications d @ [p]\<rparr>, Inr ()))"

definition insert_audit :: "audit_row \<Rightarrow> fx_db \<Rightarrow> unit fx_result" where
  "insert_audit a d =
     (if (case au_actor a of Some u \<Rightarrow> u \<notin> set (fx_users d) | None \<Rightarrow> False) then (d, Inl foreign_key_violation)
      else (d\<lparr>fx_audit := fx_audit d @ [a]\<rparr>, Inr ()))"

text \<open>The rows a new publication adds.\<close>

definition queue_publication ::
  "factory_env \<Rightarrow> (nat \<Rightarrow> string) \<Rightarrow> int \<Rightarrow> string \<Rightarrow> publication_command \<Rightarrow> string \<Rightarrow> js \<Rightarrow> js \<Rightarrow> fx_db \<Rightarrow> js fx_result" where
  "queue_publication E U now brand c key requestId actorId d =
     (let n = fx_fresh d;
          p = \<lparr>po_id = U n, po_brand = brand, po_assets = map json_image (pc_assetIds c),
               po_caption = or_else (text_param E (js_or (pc_caption c) (JStr []))) [],
               po_hashtags = json_image (js_or (pc_hashtags c) (JArr [])),
               po_platform = or_else (text_param E (pc_platform c)) [], po_slot = pc_slot c, po_createdAt = now\<rparr>;
          q = \<lparr>pu_id = U (n + 1), pu_post = po_id p, pu_provider = po_platform p, pu_key = key, pu_createdAt = now\<rparr>;
          response = JObj [(''post'', post_js p), (''publication'', publication_js q)]
      in andThen (insert_post p (d\<lparr>fx_fresh := n + 2\<rparr>)) (\<lambda>d _.
         andThen (insert_publication q d) (\<lambda>d _.
         andThen (lift (uuid_param E actorId) d) (\<lambda>d actor.
         andThen (lift (required (text_param E requestId)) d) (\<lambda>d request.
         andThen (insert_audit \<lparr>au_actor = actor, au_resource = pu_id q, au_request = request, au_after = json_image response\<rparr> d)
           (\<lambda>d _.
             (d\<lparr>fx_keys := update_where (\<lambda>k. ik_key k = key)
                  (\<lambda>k. k\<lparr>ik_resource := Some (pu_id q), ik_response := Some (json_image response)\<rparr>) (fx_keys d)\<rparr>,
              Inr response)))))))"

definition check_assets ::
  "factory_env \<Rightarrow> (string \<times> bool) list \<Rightarrow> publication_command \<Rightarrow> fx_db \<Rightarrow> unit thrower" where
  "check_assets E caps c d =
     bindR (uuid_param E (pc_brandId c)) (\<lambda>brand.
     bindR (the_ids E (pc_assetIds c)) (\<lambda>ids.
       let assets = filter (\<lambda>a. brand = Some (as_brand a) \<and> as_id a \<in> set ids) (fx_assets d);
           bad = filter (\<lambda>k. \<not> capable caps k) (requested_kinds E (pc_kind c) assets)
       in if length assets \<noteq> length (remdups (pc_assetIds c))
          then Inl (Error ''Every publication asset must exist'')
          else if \<not> list_all (publishable d) assets
          then Inl (Error ''Every publication asset must have current approved state'')
          else case bad of k # _ \<Rightarrow> Inl (unsupported E (pc_platform c) k) | [] \<Rightarrow> Inr ()))"

definition reserve_and_queue ::
  "factory_env \<Rightarrow> (nat \<Rightarrow> string) \<Rightarrow> int \<Rightarrow> (string \<times> bool) list \<Rightarrow> publication_command \<Rightarrow> string \<Rightarrow> js \<Rightarrow> js \<Rightarrow> fx_db \<Rightarrow> js fx_result" where
  "reserve_and_queue E U now caps c key requestId actorId d =
     (let h = fe_hash E (command_js c)
      in case find (\<lambda>k. ik_key k = key) (fx_keys d) of
           Some k \<Rightarrow>
             if ik_scope k \<noteq> SCOPE \<or> ik_hash k \<noteq> h
             then (d, Inl (Error ''Idempotency key reused with different input''))
             else (d, Inr (or_else (ik_response k) JNull))
         | None \<Rightarrow>
             let d = d\<lparr>fx_keys := fx_keys d @
                   [\<lparr>ik_key = key, ik_scope = SCOPE, ik_hash = h, ik_resource = None, ik_response = None\<rparr>]\<rparr>
             in andThen (lift (check_assets E caps c d) d) (\<lambda>d _.
                andThen (lift (uuid_param E (pc_brandId c)) d) (\<lambda>d b.
                andThen (lift (required b) d) (\<lambda>d brand.
                  queue_publication E U now brand c key requestId actorId d))))"

definition createApproved ::
  "factory_env \<Rightarrow> (nat \<Rightarrow> string) \<Rightarrow> int \<Rightarrow> publication_command \<Rightarrow> string \<Rightarrow> js \<Rightarrow> js \<Rightarrow> fx_db \<Rightarrow> js fx_result" where
  "createApproved E U now c key requestId actorId d =
     (if key = [] \<or> \<not> truthy requestId then (d, Inl (Error ''idempotencyKey and requestId are required''))
      else if pc_assetIds c = [] then (d, Inl (Error ''At least one asset is required''))
      else andThen (lift (provider_get E (pc_platform c)) d) (\<lambda>d caps.
             transaction (reserve_and_queue E U now caps c key requestId actorId) d))"

end
