(* ===== verification/Factory.thy ===== *)
theory Factory
  imports FactoryStore
begin

text \<open>
  \<open>packages/zeto/src/services/factoryWorkflowService.js\<close>: the handlers of the factory with the tables
  they write, the queueing of a publication, and the two requests of \<open>src/api/v1.js\<close> that start a
  factory run and approve its artifact. A handler awaits the database at most a few times and writes
  in one transaction; it is one move of the runner.
\<close>

section \<open>Handlers\<close>

definition asset_ids :: "js \<Rightarrow> js list thrower" where
  "asset_ids v0 =
     bindR (read_path v0 [''assetPack'', ''assets'']) (\<lambda>v.
     bindR (as_array v) (\<lambda>assets. mapR (\<lambda>a. read_prop a ''id'') assets))"

definition strategy_handler :: "factory_env \<Rightarrow> (nat \<Rightarrow> string) \<Rightarrow> fx_db handler" where
  "strategy_handler E U now r s d =
     andThen (lift (M01_STRATEGY E (wt_input s)) d) (\<lambda>d out.
     andThen (persistIdea E U (wr_id r) (get_prop (wt_input s) ''brandId'') (get_prop out ''idea'') d) (\<lambda>d i.
       (d, Inr (carry out [(''idea'', carry (get_prop out ''idea'') [(''id'', JStr (ie_id i))])]))))"

definition caption_handler :: "factory_env \<Rightarrow> (nat \<Rightarrow> string) \<Rightarrow> fx_db handler" where
  "caption_handler E U now r s d =
     andThen (lift (M05_CAPTION E U (fx_fresh d) now (wt_input s)) d) (\<lambda>d (pack, out).
       let n = fx_fresh d + 5 + length (pk_captions pack)
       in andThen (persistAssetPack E (get_prop (wt_input s) ''brandId'')
             (get_prop (get_prop (wt_input s) ''idea'') ''id'') pack (d\<lparr>fx_fresh := n\<rparr>)) (\<lambda>d _. (d, Inr out)))"

definition qa_handler :: "factory_env \<Rightarrow> (nat \<Rightarrow> string) \<Rightarrow> fx_db handler" where
  "qa_handler E U now r s d =
     andThen (lift (M10_QA (wt_input s)) d) (\<lambda>d (qa, out).
     andThen (lift (asset_ids out) d) (\<lambda>d assets.
     andThen (persistQa E U now assets qa d) (\<lambda>d _. (d, Inr out))))"

definition approval_handler :: "factory_env \<Rightarrow> (nat \<Rightarrow> string) \<Rightarrow> fx_db handler" where
  "approval_handler E U now r s d =
     (let input = wt_input s in
      andThen (lift (APPROVAL now input) d) (\<lambda>d out.
        if truthy (get_prop out ''blocked'') then (d, Inr out)
        else
          andThen (lift (asset_ids input) d) (\<lambda>d assets.
          andThen (approve_assets E U now assets (js_or (get_prop input ''approvalActorId'') JNull) (get_prop input ''qa'')
              (if get_prop input ''approvalDecision'' = JStr ''overridden'' then ''overridden'' else ''approved'') d)
            (\<lambda>d _. (d, Inr out)))))"

text \<open>\<open>a === b\<close> for values that do not share objects.\<close>

definition strict_eq :: "js \<Rightarrow> js \<Rightarrow> bool" where
  "strict_eq a b =
     (case a of
        JObj _ \<Rightarrow> False
      | JArr _ \<Rightarrow> False
      | JNum n \<Rightarrow> n \<noteq> NaN \<and> a = b
      | _ \<Rightarrow> a = b)"

fun find_visual :: "js \<Rightarrow> js list \<Rightarrow> js option thrower" where
  "find_visual kind [] = Inr None"
| "find_visual kind (a # as) =
     bindR (read_prop a ''type'') (\<lambda>t. if strict_eq t kind then Inr (Some a) else find_visual kind as)"

definition publish_command :: "factory_env \<Rightarrow> js \<Rightarrow> string option \<Rightarrow> publication_command thrower" where
  "publish_command E input slot =
     (let kind = js_or (get_prop input ''publicationKind'') (JStr ''image'') in
      bindR (read_path input [''assetPack'', ''assets'']) (\<lambda>v.
      bindR (as_array v) (\<lambda>assets.
      bindR (find_visual kind assets) (\<lambda>found.
        case found of
          None \<Rightarrow>
            Inl (Error (''No '' @ js_text_of (fe_decimal E) kind @ '' asset is available for publishing''))
        | Some visual \<Rightarrow>
            bindR (read_path input [''caption'', ''hook'']) (\<lambda>hook.
              Inr \<lparr>pc_brandId = get_prop input ''brandId'', pc_assetIds = [get_prop visual ''id''],
                   pc_platform = get_prop input ''platform'', pc_kind = get_prop visual ''type'', pc_caption = hook,
                   pc_hashtags = get_prop (get_prop input ''caption'') ''hashtags'', pc_slot = slot\<rparr>)))))"

definition publish :: "factory_env \<Rightarrow> (nat \<Rightarrow> string) \<Rightarrow> int \<Rightarrow> js \<Rightarrow> string option \<Rightarrow> fx_db \<Rightarrow> js fx_result" where
  "publish E U now input slot d =
     andThen (lift (publish_command E input slot) d) (\<lambda>d c.
       createApproved E U now c
         (js_text_of (fe_decimal E) (get_prop input ''factoryCommandKey'') @ '':publish'')
         (get_prop input ''requestId'') (js_or (get_prop input ''approvalActorId'') JNull) d)"

definition publish_handler :: "factory_env \<Rightarrow> (nat \<Rightarrow> string) \<Rightarrow> fx_db handler" where
  "publish_handler E U now r s d =
     andThen (lift (publish_slot E now (wt_input s)) d) (\<lambda>d slot.
     andThen (publish E U now (wt_input s) slot d) (\<lambda>d publication.
       lift (published_output (wt_input s) publication) d))"

text \<open>A handler that writes no table.\<close>

definition pure_handler :: "(int \<Rightarrow> js \<Rightarrow> js thrower) \<Rightarrow> fx_db handler" where
  "pure_handler f now r s d = lift (f now (wt_input s)) d"

definition service_handlers :: "factory_env \<Rightarrow> (nat \<Rightarrow> string) \<Rightarrow> fx_db handlers" where
  "service_handlers E U = map_of
     [(''M01_STRATEGY'', strategy_handler E U),
      (''M02_IMAGE'', pure_handler (\<lambda>_. M02_IMAGE)),
      (''M03_VIDEO'', pure_handler (\<lambda>_. M03_VIDEO)),
      (''M04_AUDIO'', pure_handler (\<lambda>_. M04_AUDIO)),
      (''M05_CAPTION'', caption_handler E U),
      (''M10_QA'', qa_handler E U),
      (''APPROVAL'', approval_handler E U),
      (''M06_PUBLISH'', publish_handler E U),
      (''M07_MONITOR'', pure_handler (\<lambda>_. M07_MONITOR E)),
      (''M08_REPORT'', pure_handler M08_REPORT)]"

section \<open>The service\<close>

type_synonym factory_system = "fx_db system"

definition CANONICAL :: string where
  "CANONICAL = ''canonical-content-factory''"

definition definitionFor :: "(nat \<Rightarrow> string) \<Rightarrow> string \<Rightarrow> wf_db \<Rightarrow> workflow_row wf_result" where
  "definitionFor U brandId d =
     (case rev (sort_key wd_version
             (filter (\<lambda>w. wd_brand w = brandId \<and> wd_name w = CANONICAL \<and> wd_active w) (db_workflows d))) of
        w # _ \<Rightarrow> (d, Inr w)
      | [] \<Rightarrow> createDefinition U brandId CANONICAL FACTORY_STEPS d)"

definition factory_body :: "(string \<times> js) list \<Rightarrow> string \<Rightarrow> string \<Rightarrow> (string \<times> js) list" where
  "factory_body input key requestId =
     spread input [(''factoryCommandKey'', JStr key), (''requestId'', JStr requestId)]"

definition start_factory ::
  "factory_env \<Rightarrow> (nat \<Rightarrow> string) \<Rightarrow> string \<Rightarrow> string \<Rightarrow> (string \<times> js) list \<Rightarrow> string \<Rightarrow> string \<Rightarrow> factory_system \<Rightarrow> factory_system" where
  "start_factory E U worker brandId input key requestId s =
     (case definitionFor U brandId (sy_db s) of
        (d, Inl _) \<Rightarrow> with_db d s
      | (d, Inr w) \<Rightarrow>
          serve U (service_handlers E U) worker (Start (wd_id w) (factory_body input key requestId) key True) (with_db d s))"

definition approval_body :: "string \<Rightarrow> js \<Rightarrow> (string \<times> js) list" where
  "approval_body decision actorId = [(''approvalDecision'', JStr decision), (''approvalActorId'', actorId)]"

definition approve_factory ::
  "factory_env \<Rightarrow> (nat \<Rightarrow> string) \<Rightarrow> string \<Rightarrow> string \<Rightarrow> string \<Rightarrow> js \<Rightarrow> factory_system \<Rightarrow> factory_system" where
  "approve_factory E U worker rid decision actorId =
     serve U (service_handlers E U) worker (Resume rid ''APPROVAL'' (approval_body decision actorId))"

section \<open>The requests\<close>

text \<open>
  \<open>factoryRunSchema\<close>: the members it knows are checked, every other member passes through. The
  syntax of an id, \<open>z.string().uuid()\<close>, is the parameter \<open>is_uuid\<close>.
\<close>

definition PLATFORMS :: "string list" where
  "PLATFORMS = [''facebook'', ''instagram'', ''youtube'', ''tiktok'', ''x'', ''linkedin'']"

definition is_strings :: "js \<Rightarrow> bool" where
  "is_strings v =
     (case v of JArr xs \<Rightarrow> xs \<noteq> [] \<and> list_all (\<lambda>x. case x of JStr _ \<Rightarrow> True | _ \<Rightarrow> False) xs | _ \<Rightarrow> False)"

definition factoryRunSchema :: "(string \<Rightarrow> bool) \<Rightarrow> (string \<times> js) list \<Rightarrow> bool" where
  "factoryRunSchema is_uuid body \<longleftrightarrow>
     (let m = get_prop (JObj body) in
      (case m ''brandId'' of JStr b \<Rightarrow> is_uuid b | _ \<Rightarrow> False) \<and>
      list_all (\<lambda>k. is_plain_object (m k))
        [''brand'', ''idea'', ''image'', ''video'', ''audio'', ''caption'', ''qaChecks''] \<and>
      is_strings (m ''palette'') \<and> is_strings (m ''platforms'') \<and>
      m ''platform'' \<in> JStr ` set PLATFORMS)"

definition may_edit :: "string \<Rightarrow> bool" where
  "may_edit role \<longleftrightarrow> role = ''admin'' \<or> role = ''editor''"

definition valid_command_key :: "string option \<Rightarrow> bool" where
  "valid_command_key key \<longleftrightarrow> (case key of None \<Rightarrow> False | Some k \<Rightarrow> k \<noteq> [] \<and> length k \<le> 200)"

text \<open>
  The status of the answer when the request is turned down, else \<open>None\<close>: then the service starts
  the run.
\<close>

definition refuse_factory_run ::
  "factory_env \<Rightarrow> (string \<Rightarrow> bool) \<Rightarrow> string \<Rightarrow> string option \<Rightarrow> (string \<times> js) list \<Rightarrow> nat option" where
  "refuse_factory_run E is_uuid role key body =
     (if \<not> may_edit role then Some 403
      else if \<not> valid_command_key key then Some 400
      else if \<not> factoryRunSchema is_uuid body then Some 422
      else case validatePublication E (get_prop (JObj body) ''platform'')
                (js_or (get_prop (JObj body) ''publicationKind'') (JStr ''image'')) of
             Inl _ \<Rightarrow> Some 500
           | Inr _ \<Rightarrow> None)"

definition brand_of :: "(string \<times> js) list \<Rightarrow> string" where
  "brand_of body = (case get_prop (JObj body) ''brandId'' of JStr b \<Rightarrow> b | _ \<Rightarrow> [])"

definition post_factory_run ::
  "factory_env \<Rightarrow> (nat \<Rightarrow> string) \<Rightarrow> string \<Rightarrow> (string \<Rightarrow> bool) \<Rightarrow> string \<Rightarrow> string option \<Rightarrow> (string \<times> js) list \<Rightarrow> string \<Rightarrow>
    factory_system \<Rightarrow> factory_system" where
  "post_factory_run E U worker is_uuid role key body requestId s =
     (case (refuse_factory_run E is_uuid role key body, key) of
        (None, Some k) \<Rightarrow> start_factory E U worker (brand_of body) body k requestId s
      | _ \<Rightarrow> s)"

definition refuse_approval :: "string \<Rightarrow> js \<Rightarrow> nat option" where
  "refuse_approval role decision =
     (if \<not> may_edit role then Some 403
      else if decision \<notin> {JStr ''approved'', JStr ''overridden''} then Some 422 else None)"

definition post_approval ::
  "factory_env \<Rightarrow> (nat \<Rightarrow> string) \<Rightarrow> string \<Rightarrow> string \<Rightarrow> js \<Rightarrow> string \<Rightarrow> js \<Rightarrow> factory_system \<Rightarrow> factory_system" where
  "post_approval E U worker role actorId rid decision s =
     (case (refuse_approval role decision, decision) of
        (None, JStr dec) \<Rightarrow> approve_factory E U worker rid dec actorId s
      | _ \<Rightarrow> s)"

end
