(* ===== verification/WorkflowFlow.thy ===== *)
theory WorkflowFlow
  imports WorkflowGuarantees
begin

text \<open>
  What a run hands from step to step. A set of handlers promises something of every artifact that
  enters or leaves a step (the locale \<open>artifact_flow\<close>); then it holds of the rows of the tables and of
  the artifacts that runners carry, in every history.
\<close>

section \<open>The step keys of a run\<close>

definition keys_of :: "wf_db \<Rightarrow> string \<Rightarrow> string list" where
  "keys_of d rid = map wt_key (steps_of d rid)"

lemma line_nth:
  assumes "line_ok L" and "t \<in> set L"
  shows "wt_order t < length L" and "L ! wt_order t = t"
proof -
  have m: "map wt_order L = [0..<length L]" using assms(1) by (simp add: line_ok_def)
  from assms(2) obtain i where i: "i < length L" "L ! i = t" by (metis in_set_conv_nth)
  then have "wt_order t = i" using m by (metis add_0 length_map nth_map nth_upt)
  with i show "wt_order t < length L" "L ! wt_order t = t" by simp_all
qed

lemma keys_nth:
  assumes "wf_ok d" and "t \<in> set (db_steps d)"
  shows "wt_order t < length (keys_of d (wt_run t))" and "keys_of d (wt_run t) ! wt_order t = wt_key t"
  using line_nth [OF line_of [OF assms]] assms(2) by (simp_all add: keys_of_def)

lemma keys_same:
  assumes ok: "wf_ok d" "wf_ok d'" and ev: "evolves d e p d'" and r: "r \<in> set (db_runs d)"
  shows "keys_of d' (wr_id r) = keys_of d (wr_id r)"
proof -
  let ?L = "steps_of d (wr_id r)" and ?L' = "steps_of d' (wr_id r)"
  from evolves_run_on [OF ev r] obtain r' where "r' \<in> set (db_runs d')" "wr_id r' = wr_id r" by (auto simp: same_run_def)
  with ok r have line: "line_ok ?L" "line_ok ?L'" by (auto simp: wf_ok_def run_ok_def)
  have from_old: "\<exists>t\<in>set ?L. same_place t t'" if "t' \<in> set ?L'" for t'
  proof -
    from that have t': "t' \<in> set (db_steps d')" "wt_run t' = wr_id r" by simp_all
    from evolves_step [OF ev t'(1)] show ?thesis
    proof
      assume "\<exists>t\<in>set (db_steps d). step_change d e p t t'"
      then obtain t where t: "t \<in> set (db_steps d)" "step_change d e p t t'" by blast
      then have "same_place t t'" using step_change_place by blast
      with t(1) t'(2) show ?thesis by (auto simp: same_place_def)
    next
      assume "\<exists>x\<in>set (db_runs d'). begins d e x \<and> fresh_step (wr_id x) (wr_input x) t'"
      then obtain x :: wf_run where "wr_id x \<notin> wr_id ` set (db_runs d)" "wt_run t' = wr_id x"
        unfolding begins_def fresh_step_def by blast
      with r t'(2) show ?thesis by (metis imageI)
    qed
  qed
  have to_new: "\<exists>t'\<in>set ?L'. same_place t t'" if "t \<in> set ?L" for t
  proof -
    from that have t: "t \<in> set (db_steps d)" "wt_run t = wr_id r" by simp_all
    from evolves_step_on [OF ev t(1)] obtain t' where t': "t' \<in> set (db_steps d')" "step_change d e p t t'" by blast
    then have "same_place t t'" using step_change_place by blast
    with t t'(1) show ?thesis by (auto simp: same_place_def)
  qed
  have "length ?L' \<le> length ?L"
  proof (rule ccontr)
    assume "\<not> length ?L' \<le> length ?L"
    then have n: "length ?L < length ?L'" by simp
    then obtain t where "t \<in> set ?L" "same_place t (?L' ! length ?L)" using from_old nth_mem by blast
    moreover have "wt_order (?L' ! length ?L) = length ?L"
      using line(2) n by (metis add_0 length_map line_ok_def nth_map nth_upt)
    ultimately show False using line_nth(1) [OF line(1)] by (force simp: same_place_def)
  qed
  moreover have "length ?L \<le> length ?L'"
  proof (rule ccontr)
    assume "\<not> length ?L \<le> length ?L'"
    then have n: "length ?L' < length ?L" by simp
    then obtain t where "t \<in> set ?L'" "same_place (?L ! length ?L') t" using to_new nth_mem by blast
    moreover have "wt_order (?L ! length ?L') = length ?L'"
      using line(1) n by (metis add_0 length_map line_ok_def nth_map nth_upt)
    ultimately show False using line_nth(1) [OF line(2)] by (force simp: same_place_def)
  qed
  ultimately have len: "length ?L' = length ?L" by simp
  have "wt_key (?L' ! k) = wt_key (?L ! k)" if "k < length ?L'" for k
  proof -
    from from_old that obtain t where t: "t \<in> set ?L" "same_place t (?L' ! k)" using nth_mem by blast
    have "wt_order (?L' ! k) = k"
      using line(2) that by (metis add_0 length_map line_ok_def nth_map nth_upt)
    with t(2) have "wt_order t = k" by (metis same_place_def)
    moreover have "wt_key (?L' ! k) = wt_key t" using t(2) by (simp add: same_place_def)
    ultimately show ?thesis using line_nth(2) [OF line(1) t(1)] by metis
  qed
  with len show ?thesis unfolding keys_of_def by (intro nth_equalityI) simp_all
qed

section \<open>What holds of the artifacts of a run\<close>

text \<open>
  The contract of a set of handlers: \<open>I es rid input keys k v\<close> is what they promise of the
  artifact \<open>v\<close> that enters the step at place \<open>k\<close> of a run, \<open>E\<close> what they promise of the tables
  they work on. Events other than those with \<open>ok_event\<close> do not happen.
\<close>

locale artifact_flow =
  fixes H :: "'x handlers" and ok_event :: "wf_event \<Rightarrow> bool"
    and I :: "wf_event list \<Rightarrow> string \<Rightarrow> js \<Rightarrow> string list \<Rightarrow> nat \<Rightarrow> js \<Rightarrow> bool"
    and E :: "wf_event list \<Rightarrow> wf_db \<Rightarrow> 'x \<Rightarrow> bool" and x0 :: 'x
  assumes I_later: "I es rid rin ks k v \<Longrightarrow> I (e # es) rid rin ks k v"
    and I_start: "ok_event (Start wid body key run) \<Longrightarrow> I es rid (json_image (JObj body)) ks 0 (json_image (JObj body))"
    and I_resume: "ok_event (Resume rid key body) \<Longrightarrow>
      I (Resume rid key body # es) rid rin ks k (jsonb_concat v (stored (JObj body)))"
    and I_handler: "H (wt_key s) = Some h \<Longrightarrow> k < length ks \<Longrightarrow> ks ! k = wt_key s \<Longrightarrow> I es rid rin ks k (wt_input s) \<Longrightarrow>
      h now r s x = (x', Inr out) \<Longrightarrow> \<not> truthy (get_prop out ''blocked'') \<Longrightarrow> I es rid rin ks (Suc k) (stored out)"
    and E_start: "E [] (empty_db now) x0"
    and E_later: "E es d x \<Longrightarrow> (\<And>r. r \<in> set (db_runs d) \<Longrightarrow> \<exists>r'\<in>set (db_runs d'). same_run r r' \<and> keys_of d' (wr_id r) = keys_of d (wr_id r)) \<Longrightarrow>
      E (e # es) d' x"
    and E_handler: "E es d x \<Longrightarrow> r0 \<in> set (db_runs d) \<Longrightarrow> same_run r0 r \<Longrightarrow> H (wt_key s) = Some h \<Longrightarrow>
      k < length (keys_of d (wr_id r)) \<Longrightarrow> keys_of d (wr_id r) ! k = wt_key s \<Longrightarrow>
      I es (wr_id r) (wr_input r) (keys_of d (wr_id r)) k (wt_input s) \<Longrightarrow> h now r s x = (x', res) \<Longrightarrow> E es d x'"
begin

definition flows :: "wf_event list \<Rightarrow> wf_db \<Rightarrow> wf_run \<Rightarrow> nat \<Rightarrow> js \<Rightarrow> bool" where
  "flows es d r = I es (wr_id r) (wr_input r) (keys_of d (wr_id r))"

definition step_flow :: "wf_event list \<Rightarrow> wf_db \<Rightarrow> wf_run \<Rightarrow> wf_step \<Rightarrow> bool" where
  "step_flow es d r t \<longleftrightarrow>
     (0 < wt_attempt t \<or> wt_order t = 0 \<longrightarrow> flows es d r (wt_order t) (wt_input t)) \<and>
     (wt_status t = StSucceeded \<longrightarrow> flows es d r (Suc (wt_order t)) (wt_output t))"

definition carried :: "wf_event list \<Rightarrow> wf_db \<Rightarrow> wf_run \<Rightarrow> wf_step \<Rightarrow> bool" where
  "carried es d r s \<longleftrightarrow> (\<exists>r0\<in>set (db_runs d). same_run r0 r) \<and> (\<exists>t\<in>set (db_steps d). same_place t s) \<and>
     wt_run s = wr_id r \<and> flows es d r (wt_order s) (wt_input s)"

definition phase_flow :: "wf_event list \<Rightarrow> wf_db \<Rightarrow> phase \<Rightarrow> bool" where
  "phase_flow es d p =
     (case p of
        AtClaim r \<Rightarrow> \<exists>r0\<in>set (db_runs d). same_run r0 r
      | AtTrace r s \<Rightarrow> carried es d r s
      | AtHandler r s _ \<Rightarrow> carried es d r s
      | AtCommit r s _ v \<Rightarrow> carried es d r s \<and>
          (case v of VSucceed out \<Rightarrow> flows es d r (Suc (wt_order s)) (stored out)
           | _ \<Rightarrow> True)
      | AtClose r s _ _ \<Rightarrow> carried es d r s
      | _ \<Rightarrow> True)"

definition flow_ok :: "wf_event list \<Rightarrow> 'x system \<Rightarrow> bool" where
  "flow_ok es s \<longleftrightarrow>
     (\<forall>t\<in>set (db_steps (sy_db s)). \<forall>r\<in>set (db_runs (sy_db s)). wr_id r = wt_run t \<longrightarrow> step_flow es (sy_db s) r t) \<and>
     (\<forall>p\<in>set (sy_runners s). phase_flow es (sy_db s) p) \<and> E es (sy_db s) (fa_ext (sy_world s))"

lemma same_run_sym: "same_run r r' \<Longrightarrow> same_run r' r"
  by (simp add: same_run_def)

lemma same_run_trans: "same_run r r' \<Longrightarrow> same_run r' r'' \<Longrightarrow> same_run r r''"
  by (simp add: same_run_def)

lemma flows_on:
  assumes "flows es d r k v" and "same_run r r'" and "keys_of d' (wr_id r) = keys_of d (wr_id r)"
  shows "flows (e # es) d' r' k v"
  using assms I_later by (simp add: flows_def same_run_def)

text \<open>One event, for the rows.\<close>

lemma run_back:
  assumes ev: "evolves d e p d'" and "wf_ok d" and r': "r' \<in> set (db_runs d')" and t: "t \<in> set (db_steps d)" and "wr_id r' = wt_run t"
  obtains r where "r \<in> set (db_runs d)" and "same_run r r'"
proof -
  have "wt_run t \<in> wr_id ` set (db_runs d)" using assms(2) t by (simp add: wf_ok_def)
  with evolves_run [OF ev r'] assms(5) that show ?thesis by (auto simp: begins_def)
qed

lemma claimed_flow:
  assumes ok: "wf_ok d" and t: "t \<in> set (db_steps d)" "claimable d t" and r: "r \<in> set (db_runs d)" "wr_id r = wt_run t"
    and st: "\<And>u. u \<in> set (db_steps d) \<Longrightarrow> wt_run u = wt_run t \<Longrightarrow> step_flow es d r u"
  shows "flows es d r (wt_order t) (artifact d t)"
proof (cases "0 < wt_attempt t")
  case True
  with st [OF t(1)] show ?thesis by (simp add: artifact_def step_flow_def)
next
  case False
  let ?P = "filter (\<lambda>p. wt_order p < wt_order t) (steps_of d (wt_run t))"
  have line: "line_ok (steps_of d (wt_run t))" by (rule line_of [OF ok t(1)])
  show ?thesis
  proof (cases "rev (sort_key wt_order ?P)")
    case Nil
    then have "?P = []" by (metis rev_is_Nil_conv set_empty set_sort)
    moreover have "wt_order t = 0"
    proof (rule ccontr)
      assume n: "wt_order t \<noteq> 0"
      have "wt_order t < length (steps_of d (wt_run t))" using line_nth(1) [OF line] t(1) by simp
      then have z: "0 < length (steps_of d (wt_run t))" by linarith
      have "wt_order (steps_of d (wt_run t) ! 0) = 0"
        using line z by (metis add_0 length_map line_ok_def nth_map nth_upt)
      then have "steps_of d (wt_run t) ! 0 \<in> set ?P" using n nth_mem [OF z] by simp
      with \<open>?P = []\<close> show False by simp
    qed
    ultimately show ?thesis using st [OF t(1)] False Nil by (simp add: artifact_def previous_output_def step_flow_def)
  next
    case (Cons q qs)
    then have sk: "sort_key wt_order ?P = rev qs @ [q]" by (metis rev.simps(2) rev_rev_ident)
    have "sorted (map wt_order (sort_key wt_order ?P))" by simp
    then have "\<forall>x\<in>set qs. wt_order x \<le> wt_order q" unfolding sk by (simp add: sorted_append)
    moreover have "set ?P = insert q (set qs)" using arg_cong [OF sk, of set] by simp
    ultimately have srt: "\<forall>x\<in>set ?P. wt_order x \<le> wt_order q" by simp
    have "q \<in> set ?P" using Cons by (metis list.set_intros(1) set_rev set_sort)
    then have q: "q \<in> set (db_steps d)" "wt_run q = wt_run t" "wt_order q < wt_order t" by simp_all
    have "wt_status q = StSucceeded" using t(2) q by (auto simp: claimable_def list_ex_iff)
    moreover have "Suc (wt_order q) = wt_order t"
    proof (rule ccontr)
      assume "Suc (wt_order q) \<noteq> wt_order t"
      with q(3) have lt: "Suc (wt_order q) < wt_order t" by simp
      have "wt_order t < length (steps_of d (wt_run t))" using line_nth(1) [OF line] t(1) by simp
      with lt have k: "Suc (wt_order q) < length (steps_of d (wt_run t))" by linarith
      then have "wt_order (steps_of d (wt_run t) ! Suc (wt_order q)) = Suc (wt_order q)"
        using line by (metis add_0 length_map line_ok_def nth_map nth_upt)
      with lt nth_mem [OF k] have "steps_of d (wt_run t) ! Suc (wt_order q) \<in> set ?P" by simp
      with srt \<open>wt_order (_ ! _) = _\<close> show False by force
    qed
    ultimately show ?thesis using st [OF q(1,2)] False Cons by (simp add: artifact_def previous_output_def step_flow_def)
  qed
qed

lemma row_flow:
  assumes ok: "wf_ok d" "wf_ok d'" and ev: "evolves d e p d'" and oke: "ok_event e"
    and st: "\<And>t r. t \<in> set (db_steps d) \<Longrightarrow> r \<in> set (db_runs d) \<Longrightarrow> wr_id r = wt_run t \<Longrightarrow> step_flow es d r t"
    and ph: "\<And>q. p = Some q \<Longrightarrow> phase_flow es d q"
    and t': "t' \<in> set (db_steps d')" and r': "r' \<in> set (db_runs d')" "wr_id r' = wt_run t'"
  shows "step_flow (e # es) d' r' t'"
proof -
  from evolves_step [OF ev t']
  consider t where "t \<in> set (db_steps d)" "step_change d e p t t'"
    | x where "x \<in> set (db_runs d')" "begins d e x" "fresh_step (wr_id x) (wr_input x) t'" by blast
  then show ?thesis
  proof cases
    case (1 t)
    from step_change_place [OF 1(2)] have place: "same_place t t'" by blast
    then have "wr_id r' = wt_run t" using r'(2) by (simp add: same_place_def)
    with run_back [OF ev ok(1) r'(1) 1(1)] obtain r where r: "r \<in> set (db_runs d)" "same_run r r'" by metis
    have keys: "keys_of d' (wr_id r) = keys_of d (wr_id r)" by (rule keys_same [OF ok ev r(1)])
    have rt: "wr_id r = wt_run t" using r(2) \<open>wr_id r' = wt_run t\<close> by (simp add: same_run_def)
    have on: "flows (e # es) d' r' k v" if "flows es d r k v" for k v by (rule flows_on [OF that r(2) keys])
    have sf: "step_flow es d r t" by (rule st [OF 1(1) r(1) rt])
    from 1(2) show ?thesis
    proof cases
      case (taken q worker)
      have "flows es d r (wt_order t) (artifact d t)"
        by (rule claimed_flow [OF ok(1) 1(1) taken(2) r(1) rt]) (use st r(1) rt in auto)
      then show ?thesis using sf by (auto simp: taken(1) step_flow_def claimed_def intro: on)
    next
      case (finished q s spid out now c)
      from ph [OF finished(3)] have l: "carried es d q s" "flows es d q (Suc (wt_order s)) (stored out)"
        by (simp_all add: phase_flow_def)
      from l(1) obtain u where u: "u \<in> set (db_steps d)" "same_place u s" "wt_run s = wr_id q"
        unfolding carried_def by blast
      have "wt_id u = wt_id t" using u(2) finished(4) unfolding same_place_def by metis
      then have ut: "u = t" by (rule unique_step [OF ok(1) u(1) 1(1)])
      have "wt_order s = wt_order t" "wr_id q = wt_run t" using u(2,3) unfolding ut by (simp_all add: same_place_def)
      from l(1) obtain r0 where r0: "r0 \<in> set (db_runs d)" "same_run r0 q" unfolding carried_def by blast
      then have "wr_id r0 = wr_id r" using rt \<open>wr_id q = wt_run t\<close> unfolding same_run_def by metis
      then have "r0 = r" by (rule unique_run [OF ok(1) r0(1) r(1)])
      with r0(2) have "flows es d r k v = flows es d q k v" for k v by (simp add: flows_def same_run_def)
      with l(2) \<open>wt_order s = wt_order t\<close> have "flows es d r (Suc (wt_order t)) (stored out)" by simp
      then show ?thesis using sf by (auto simp: finished(1) step_flow_def succeeded_def intro: on)
    next
      case (resumed body now)
      have "flows (e # es) d' r' (wt_order t) (jsonb_concat (wt_output t) (stored (JObj body)))"
        using I_resume oke resumed(3) \<open>wr_id r' = wt_run t\<close> by (simp add: flows_def)
      then show ?thesis by (simp add: resumed(1) step_flow_def)
    qed (use sf in \<open>auto simp: step_flow_def failed_def requeued_def intro: on\<close>)
  next
    case (2 x)
    then have "wr_id x = wr_id r'" using r'(2) by (simp add: fresh_step_def)
    then have x: "x = r'" by (rule unique_run [OF ok(2) 2(1) r'(1)])
    from 2(2) obtain body key run where b: "e = Start (wr_workflow x) body key run" "wr_input x = json_image (JObj body)"
      by (auto simp: begins_def)
    have "flows (e # es) d' r' 0 (json_image (JObj body))"
      using I_start oke b x unfolding flows_def by metis
    then show ?thesis using 2(3) b(2) unfolding x step_flow_def fresh_step_def by (simp add: json_image_idem del: json_image.simps)
  qed
qed

lemma carried_later:
  assumes l: "carried es d r s" and ok: "wf_ok d" "wf_ok d'" and ev: "evolves d e p d'"
  shows "carried (e # es) d' r s"
proof -
  from l obtain r0 t where r0: "r0 \<in> set (db_runs d)" "same_run r0 r" and t: "t \<in> set (db_steps d)" "same_place t s"
    and f: "wt_run s = wr_id r" "flows es d r (wt_order s) (wt_input s)" unfolding carried_def by blast
  from evolves_run_on [OF ev r0(1)] obtain r1 where r1: "r1 \<in> set (db_runs d')" "same_run r0 r1" by blast
  from evolves_step_on [OF ev t(1)] obtain t1 where t1: "t1 \<in> set (db_steps d')" "step_change d e p t t1" by blast
  have "same_place t1 s" using t(2) step_change_place [OF t1(2)] by (simp add: same_place_def)
  moreover have "same_run r1 r" using same_run_trans [OF same_run_sym [OF r1(2)] r0(2)] .
  moreover have "keys_of d' (wr_id r) = keys_of d (wr_id r)"
    using keys_same [OF ok ev r0(1)] r0(2) by (simp add: same_run_def)
  ultimately show ?thesis using r1(1) t1(1) f flows_on [OF f(2) same_run_refl] unfolding carried_def by blast
qed

lemma known_later:
  assumes "\<exists>r0\<in>set (db_runs d). same_run r0 r" and ev: "evolves d e p d'"
  shows "\<exists>r0\<in>set (db_runs d'). same_run r0 r"
  using assms(1) evolves_run_on [OF ev] same_run_sym same_run_trans by meson

lemma flows_later:
  assumes "flows es d r k v" and l: "carried es d r s" and ok: "wf_ok d" "wf_ok d'" and ev: "evolves d e p d'"
  shows "flows (e # es) d' r k v"
proof -
  from l obtain r0 where r0: "r0 \<in> set (db_runs d)" "same_run r0 r" unfolding carried_def by blast
  have "keys_of d' (wr_id r) = keys_of d (wr_id r)"
    using keys_same [OF ok ev r0(1)] r0(2) by (simp add: same_run_def)
  with assms(1) show ?thesis by (rule flows_on [OF _ same_run_refl])
qed

lemma phase_later:
  assumes "phase_flow es d q" and "wf_ok d" "wf_ok d'" "evolves d e p d'"
  shows "phase_flow (e # es) d' q"
  using assms carried_later known_later flows_later
  by (cases q) (auto simp: phase_flow_def split: verdict.splits)

lemma flows_same: "same_run r r' \<Longrightarrow> flows es d r = flows es d r'"
  by (simp add: flows_def same_run_def fun_eq_iff)

lemma ext_later:
  assumes "E es d x" and ok: "wf_ok d" "wf_ok d'" and ev: "evolves d e p d'"
  shows "E (e # es) d' x"
  using assms(1) by (rule E_later) (use evolves_run_on [OF ev] keys_same [OF ok ev] in blast)

lemma claim_flow:
  assumes c: "claimNext (wr_id r) worker d = (d', Some s)" and ok: "wf_ok d" "wf_ok d'" and ev: "evolves d e p d'"
    and r: "\<exists>r0\<in>set (db_runs d). same_run r0 r"
    and st: "\<And>t r. t \<in> set (db_steps d) \<Longrightarrow> r \<in> set (db_runs d) \<Longrightarrow> wr_id r = wt_run t \<Longrightarrow> step_flow es d r t"
  shows "carried (e # es) d' r s"
  using c ok(1)
proof (cases rule: claimNext_cases)
  case (one t u)
  from r obtain r0 where r0: "r0 \<in> set (db_runs d)" "same_run r0 r" by blast
  then have id0: "wr_id r0 = wt_run t" using one(2) by (simp add: same_run_def)
  have "flows es d r0 (wt_order t) (artifact d t)"
    by (rule claimed_flow [OF ok(1) one(1,3) r0(1) id0]) (use st r0(1) id0 in auto)
  then have f: "flows es d r (wt_order s) (wt_input s)"
    using flows_same [OF r0(2), of es d] one(4,5) by (simp add: claimed_def)
  have "keys_of d' (wr_id r) = keys_of d (wr_id r)" using keys_same [OF ok ev r0(1)] r0(2) by (simp add: same_run_def)
  with f have "flows (e # es) d' r (wt_order s) (wt_input s)" by (rule flows_on [OF _ same_run_refl])
  moreover have "s \<in> set (db_steps d')"
    using one(1,4) unfolding one(6) by (auto simp: set_update_where intro: rev_image_eqI)
  moreover have "wt_run s = wr_id r" using one(2,4,5) by (simp add: claimed_def)
  ultimately show ?thesis using known_later [OF r ev] unfolding carried_def same_place_def by blast
qed simp

lemma handle_flow:
  assumes l: "carried es d r s" and ok: "wf_ok d" and x: "E es d x" and h: "H (wt_key s) = Some h"
    and run: "h (db_now d) r s x = (x', res)"
  shows "E es d x'" and "verdict_of res = VSucceed out \<Longrightarrow> flows es d r (Suc (wt_order s)) (stored out)"
proof -
  from l obtain r0 t where r0: "r0 \<in> set (db_runs d)" "same_run r0 r" and t: "t \<in> set (db_steps d)" "same_place t s"
    and f: "wt_run s = wr_id r" "flows es d r (wt_order s) (wt_input s)" unfolding carried_def by blast
  have k: "wt_order s < length (keys_of d (wr_id r))" "keys_of d (wr_id r) ! wt_order s = wt_key s"
    using keys_nth [OF ok t(1)] t(2) f(1) unfolding same_place_def by metis+
  have i: "I es (wr_id r) (wr_input r) (keys_of d (wr_id r)) (wt_order s) (wt_input s)" using f(2) by (simp only: flows_def)
  show "E es d x'" by (rule E_handler [OF x r0 h k i run])
  show "flows es d r (Suc (wt_order s)) (stored out)" if v: "verdict_of res = VSucceed out"
  proof -
    from v have "res = Inr out" "\<not> truthy (get_prop out ''blocked'')"
      by (auto simp: verdict_of_def split: sum.splits if_splits)
    with I_handler [OF h k i] run show ?thesis by (simp add: flows_def)
  qed
qed

lemma move_flow:
  assumes ok: "wf_ok (fa_db w)" and m: "runner_move U H worker q w = (w', q')"
    and st: "\<And>t r. t \<in> set (db_steps (fa_db w)) \<Longrightarrow> r \<in> set (db_runs (fa_db w)) \<Longrightarrow> wr_id r = wt_run t \<Longrightarrow> step_flow es (fa_db w) r t"
    and ph: "phase_flow es (fa_db w) q" and x: "E es (fa_db w) (fa_ext w)"
  shows "phase_flow (e # es) (fa_db w') q' \<and> E (e # es) (fa_db w') (fa_ext w')"
proof -
  have ok': "wf_ok (fa_db w')" using runner_move_ok [OF ok, of U H worker q] m by simp
  have ev: "evolves (fa_db w) e (Some q) (fa_db w')" using move_evolves [OF ok, of e q U H worker] m by simp
  note later = phase_later [OF _ ok ok' ev] ext_later [OF _ ok ok' ev]
  have ext: "E (e # es) (fa_db w') (fa_ext w')" if "fa_ext w' = fa_ext w"
    using later(2) [OF x] that by simp
  have on: ?thesis if "fa_ext w' = fa_ext w" and "phase_flow es (fa_db w) q'"
    using ext later(1) that by blast
  show ?thesis
  proof (cases q)
    case (AtHead rid)
    have "phase_flow es (fa_db w) (look rid w)"
      by (auto simp: phase_flow_def look_def split: option.split dest!: find_Some_in intro: same_run_refl)
    with m AtHead show ?thesis by (intro on) (auto simp: runner_move_def)
  next
    case (AtClaim r)
    have known: "\<exists>r0\<in>set (db_runs (fa_db w)). same_run r0 r" using ph AtClaim by (simp add: phase_flow_def)
    obtain d' o1 where c: "claimNext (wr_id r) worker (fa_db w) = (d', o1)" by fastforce
    show ?thesis
    proof (cases o1)
      case None
      with m AtClaim c show ?thesis by (intro on) (auto simp: runner_move_def claim_def phase_flow_def)
    next
      case (Some s)
      with m AtClaim c have w': "w' = w\<lparr>fa_db := d'\<rparr>" "q' = AtTrace r s" by (auto simp: runner_move_def claim_def)
      have "carried (e # es) (fa_db w') r s"
        by (rule claim_flow [OF _ ok ok' ev known st]) (use c Some w' in simp_all)
      with w' ext show ?thesis by (simp add: phase_flow_def)
    qed
  next
    case (AtTrace r s)
    with m ph show ?thesis
      by (intro on) (auto simp: runner_move_def trace_step_def phase_flow_def split: prod.splits sum.splits)
  next
    case (AtHandler r s spid)
    have l: "carried es (fa_db w) r s" using ph AtHandler by (simp add: phase_flow_def)
    show ?thesis
    proof (cases "H (wt_key s)")
      case None
      with m AtHandler l show ?thesis by (intro on) (auto simp: runner_move_def handle_def phase_flow_def)
    next
      case (Some h)
      obtain x' res where run: "h (db_now (fa_db w)) r s (fa_ext w) = (x', res)" by fastforce
      with m AtHandler Some have w': "w' = w\<lparr>fa_ext := x'\<rparr>" "q' = AtCommit r s spid (verdict_of res)"
        by (auto simp: runner_move_def handle_def)
      note h = handle_flow [OF l ok x Some run]
      have "phase_flow es (fa_db w) q'"
        using l h(2) by (auto simp: w' phase_flow_def split: verdict.split)
      with later w' h(1) show ?thesis by simp
    qed
  next
    case (AtCommit r s spid v)
    with m ph show ?thesis
      by (intro on) (auto simp: runner_move_def commit_def phase_flow_def split: verdict.splits prod.splits sum.splits)
  next
    case (AtClose r s spid v)
    with m ph show ?thesis
      by (intro on) (auto simp: runner_move_def close_def phase_flow_def split: verdict.splits prod.splits sum.splits if_splits)
  qed (use m ext in \<open>auto simp: runner_move_def phase_flow_def\<close>)
qed

theorem history_flow:
  assumes "history U H worker x0 es s" and "\<forall>e\<in>set es. ok_event e"
  shows "flow_ok es s"
  using assms
proof (induction rule: history.induct)
  case (init now)
  show ?case using E_start by (simp add: flow_ok_def boot_def empty_db_def)
next
  case (step es s e)
  let ?s = "serve U H worker e s"
  have ih: "flow_ok es s" and oke: "ok_event e" using step by simp_all
  have ok: "wf_ok (sy_db s)" by (rule history_ok [OF step.hyps(1)])
  have ok': "wf_ok (sy_db ?s)" by (rule serve_ok [OF ok])
  have ev: "evolves (sy_db s) e (moving s e) (sy_db ?s)" by (rule serve_evolves [OF ok])
  have st: "step_flow es (sy_db s) r t" if "t \<in> set (db_steps (sy_db s))" "r \<in> set (db_runs (sy_db s))" "wr_id r = wt_run t" for t r
    using ih that by (simp add: flow_ok_def)
  have ph: "phase_flow es (sy_db s) q" if "q \<in> set (sy_runners s)" for q using ih that by (simp add: flow_ok_def)
  have x: "E es (sy_db s) (fa_ext (sy_world s))" using ih by (simp add: flow_ok_def)
  have pm: "phase_flow es (sy_db s) q" if "moving s e = Some q" for q
    using that ph by (auto simp: moving_def split: wf_event.splits if_splits)
  have rows: "step_flow (e # es) (sy_db ?s) r t"
    if "t \<in> set (db_steps (sy_db ?s))" "r \<in> set (db_runs (sy_db ?s))" "wr_id r = wt_run t" for t r
    using row_flow [OF ok ok' ev oke st pm that] .
  have rest: "(\<forall>q\<in>set (sy_runners ?s). phase_flow (e # es) (sy_db ?s) q) \<and> E (e # es) (sy_db ?s) (fa_ext (sy_world ?s))"
  proof (cases "\<exists>i. e = Move i \<and> i < length (sy_runners s)")
    case True
    then obtain i where i: "e = Move i" "i < length (sy_runners s)" by blast
    obtain w' q' where m: "runner_move U H worker (sy_runners s ! i) (sy_world s) = (w', q')" by fastforce
    with i have s': "?s = \<lparr>sy_world = w', sy_runners = (sy_runners s)[i := q']\<rparr>" by (simp add: serve_def)
    have n: "phase_flow (e # es) (fa_db w') q' \<and> E (e # es) (fa_db w') (fa_ext w')"
      by (rule move_flow [OF ok m st ph [OF nth_mem [OF i(2)]] x])
    have "phase_flow (e # es) (sy_db ?s) q" if "q \<in> set (sy_runners s)" for q
      by (rule phase_later [OF ph [OF that] ok ok' ev])
    with n show ?thesis unfolding s' by (auto dest!: set_update_subset_insert [THEN subsetD])
  next
    case False
    have "fa_ext (sy_world ?s) = fa_ext (sy_world s)"
      using False by (auto simp: serve_def with_db_def spawn_def split: wf_event.split prod.split sum.split)
    moreover have "q \<in> set (sy_runners s) \<or> (\<exists>rid. q = AtHead rid)" if "q \<in> set (sy_runners ?s)" for q
      using that False by (auto simp: serve_def with_db_def spawn_def split: wf_event.splits prod.splits sum.splits if_splits)
    moreover have "phase_flow (e # es) (sy_db ?s) (AtHead rid)" for rid by (simp add: phase_flow_def)
    ultimately show ?thesis using ext_later [OF x ok ok' ev] phase_later [OF ph ok ok' ev] by metis
  qed
  with rows show ?case by (simp add: flow_ok_def)
qed

end

end
