(* ===== verification/FactoryProperties.thy ===== *)
theory FactoryProperties
  imports Factory WorkflowFlow
begin

text \<open>
  Lemmas about the content factory: what the handlers keep of an artifact, what they write to the
  tables, and the contract they have with the workflow engine (an interpretation of
  \<open>artifact_flow\<close>).
\<close>

section \<open>Artifacts\<close>

definition object_ok :: "js \<Rightarrow> bool" where
  "object_ok v \<longleftrightarrow> (\<exists>fs. v = JObj fs \<and> distinct (map fst fs))"

text \<open>\<open>out\<close> is an object that differs from \<open>v\<close> in the members \<open>K\<close> at most.\<close>

definition changes :: "string set \<Rightarrow> js \<Rightarrow> js \<Rightarrow> bool" where
  "changes K v out \<longleftrightarrow> object_ok out \<and> (\<forall>f. f \<notin> K \<longrightarrow> get_prop out f = get_prop v f)"

lemma keys_spread: "set (map fst (spread a b)) = set (map fst a) \<union> set (map fst b)"
proof (induction b arbitrary: a)
  case (Cons p b)
  obtain k v where p: "p = (k, v)" by (cases p)
  have "set (map fst (map_set a k v)) = insert k (set (map fst a))"
    using map_keys_set [of a k v] by (simp add: map_keys_def)
  with Cons [of "map_set a k v"] show ?case by (auto simp: p spread_def)
qed (simp add: spread_def)

lemma distinct_spread: "distinct (map fst a) \<Longrightarrow> distinct (map fst (spread a b))"
proof (induction b arbitrary: a)
  case (Cons p b)
  obtain k v where p: "p = (k, v)" by (cases p)
  have "distinct (map fst (map_set a k v))" using map_ok_set [of a k v] Cons.prems by (simp add: map_ok_def)
  with Cons.IH [of "map_set a k v"] show ?case by (simp add: p spread_def)
qed (simp add: spread_def)

lemma map_of_spread_other: "k \<notin> set (map fst b) \<Longrightarrow> map_of (spread a b) k = map_of a k"
proof (induction b arbitrary: a)
  case (Cons p b)
  obtain k0 v0 where p: "p = (k0, v0)" by (cases p)
  have "map_of (map_set a k0 v0) k = map_of a k"
    using Cons.prems map_get_set [of a k0 v0 k] by (simp add: map_get_def p)
  with Cons show ?case by (simp add: p spread_def)
qed (simp add: spread_def)

lemma changes_carry:
  assumes "object_ok v"
  shows "changes (set (map fst patch)) v (carry v patch)"
  using assms by (auto simp: changes_def object_ok_def carry_def members_def distinct_spread map_of_spread_other
      simp del: set_map list.set_map)

lemma changes_trans: "changes K v u \<Longrightarrow> changes L u w \<Longrightarrow> changes (K \<union> L) v w"
  by (simp add: changes_def)

lemma changes_mono: "changes K v u \<Longrightarrow> K \<subseteq> L \<Longrightarrow> changes L v u"
  by (auto simp: changes_def)

lemma changes_object: "changes K v u \<Longrightarrow> object_ok u"
  by (simp add: changes_def)

text \<open>The way through a column.\<close>

lemma get_prop_image:
  assumes "object_ok v"
  shows "get_prop (json_image v) f = (if get_prop v f = JUndef then JUndef else json_image (get_prop v f))"
proof -
  from assms obtain fs where v: "v = JObj fs" and d: "distinct (map fst fs)" by (auto simp: object_ok_def)
  show ?thesis
  proof (cases "get_prop v f = JUndef")
    case True
    have "get_prop (json_image v) f = JUndef"
    proof (rule ccontr)
      assume n: "get_prop (json_image v) f \<noteq> JUndef"
      let ?g = "filter (\<lambda>(k, v). v \<noteq> JUndef) (map (\<lambda>(k, v). (k, if v = JUndef then JUndef else json_image v)) fs)"
      have "get_prop (json_image v) f = (case map_of ?g f of Some x \<Rightarrow> x | None \<Rightarrow> JUndef)"
        by (simp only: v json_image.simps get_prop_simps)
      with n have "map_of ?g f \<noteq> None" by (intro notI) (simp only: option.case simp_thms)
      then obtain y where "map_of ?g f = Some y" by blast
      then have "(f, y) \<in> set ?g" by (rule map_of_SomeD)
      then obtain x where "(f, x) \<in> set fs" "x \<noteq> JUndef" by (auto split: if_splits)
      with d have "map_of fs f = Some x" by simp
      with True \<open>x \<noteq> JUndef\<close> show False by (simp add: v)
    qed
    with True show ?thesis by simp
  next
    case False
    then obtain x where x: "map_of fs f = Some x" "x \<noteq> JUndef" by (auto simp: v split: option.splits)
    with get_prop_json_image [OF x] False show ?thesis by (simp add: v del: json_image.simps)
  qed
qed

lemma object_ok_image:
  assumes "object_ok v" shows "object_ok (json_image v)"
proof -
  from assms obtain fs where v: "v = JObj fs" and d: "distinct (map fst fs)" by (auto simp: object_ok_def)
  let ?g = "map (\<lambda>(k, v). (k, if v = JUndef then JUndef else json_image v)) fs"
  have "map fst ?g = map fst fs" by (induction fs) auto
  with d have "distinct (map fst ?g)" by (simp only:)
  then have "distinct (map fst (filter (\<lambda>(k, v). v \<noteq> JUndef) ?g))" by (rule distinct_map_filter)
  then show ?thesis unfolding v json_image.simps object_ok_def by blast
qed

lemma stored_object: "object_ok v \<Longrightarrow> stored v = json_image v"
  by (auto simp: object_ok_def stored_def)

lemma get_prop_fixed:
  assumes "object_ok v" and "json_image v = v"
  shows "get_prop v f = JUndef \<or> json_image (get_prop v f) = get_prop v f"
  using get_prop_image [OF assms(1), of f] assms(2) by metis

lemma get_prop_stored:
  assumes "changes K v out" and "object_ok v" and "json_image v = v" and "f \<notin> K"
  shows "get_prop (stored out) f = get_prop v f"
proof -
  have o: "object_ok out" using assms(1) by (rule changes_object)
  have "get_prop out f = get_prop v f" using assms(1,4) by (simp add: changes_def)
  with get_prop_image [OF o, of f] get_prop_fixed [OF assms(2,3), of f] show ?thesis
    unfolding stored_object [OF o] by metis
qed

section \<open>What the handlers change\<close>

definition WRITTEN :: "string set" where
  "WRITTEN = {''idea'', ''compiledPrompt'', ''completedModules'', ''assetPack'', ''qa'', ''approval'', ''publication'',
              ''monitoring'', ''report''}"

lemma carry_written:
  assumes "object_ok v" and "set (map fst patch) \<subseteq> K"
  shows "changes K v (carry v patch)"
  using changes_mono [OF changes_carry [OF assms(1)] assms(2)] .

lemma bindR_E: "bindR r f = Inr b \<Longrightarrow> (\<And>a. r = Inr a \<Longrightarrow> f a = Inr b \<Longrightarrow> P) \<Longrightarrow> P"
  by (cases r) simp_all

lemma andThen_E: "andThen o1 f = (t, Inr b) \<Longrightarrow> (\<And>s a. o1 = (s, Inr a) \<Longrightarrow> f s a = (t, Inr b) \<Longrightarrow> P) \<Longrightarrow> P"
  by (auto simp: andThen_Inr_iff)

lemma lift_E: "lift r d = (d', Inr v) \<Longrightarrow> (d' = d \<Longrightarrow> r = Inr v \<Longrightarrow> P) \<Longrightarrow> P"
  by (simp add: lift_def)

lemma written:
  assumes "Inr (carry v patch) = Inr out" and "object_ok v" and "set (map fst patch) \<subseteq> K"
  shows "changes K v out"
proof -
  have "out = carry v patch" using assms(1) by simp
  with carry_written [OF assms(2,3)] show ?thesis by simp
qed

lemma strategy_changes:
  assumes "M01_STRATEGY E v = Inr out" and "object_ok v"
  shows "changes WRITTEN v out"
  using assms(1) unfolding M01_STRATEGY_def
  by (elim bindR_E) (rule written [OF _ assms(2)], assumption, simp add: WRITTEN_def)

lemma strategy_handler_changes:
  assumes "strategy_handler E U now r s d = (d', Inr out)" and "object_ok (wt_input s)"
  shows "changes WRITTEN (wt_input s) out"
  using assms(1) unfolding strategy_handler_def
proof (elim andThen_E lift_E)
  fix d1 d2 a i
  assume a: "M01_STRATEGY E (wt_input s) = Inr a"
    and out: "(d2, Inr (carry a [(''idea'', carry (get_prop a ''idea'') [(''id'', JStr (ie_id i))])])) = (d', Inr out)"
  have c: "changes WRITTEN (wt_input s) a" by (rule strategy_changes [OF a assms(2)])
  have "changes WRITTEN a out"
    by (rule written [OF _ changes_object [OF c]]) (use out in \<open>auto simp: WRITTEN_def\<close>)
  with changes_trans [OF c this] show ?thesis by simp
qed

lemma caption_changes:
  assumes "M05_CAPTION E U n now v = Inr (pack, out)" and "object_ok v"
  shows "changes WRITTEN v out"
  using assms(1) unfolding M05_CAPTION_def
  by (elim bindR_E) (rule written [OF _ assms(2)], simp, simp add: WRITTEN_def)

lemma caption_handler_changes:
  assumes "caption_handler E U now r s d = (d', Inr out)" and "object_ok (wt_input s)"
  shows "changes WRITTEN (wt_input s) out"
  using assms(1) unfolding caption_handler_def Let_def case_prod_unfold
proof (elim andThen_E lift_E)
  fix d1 d2 p u
  assume "M05_CAPTION E U (fx_fresh d) now (wt_input s) = Inr p" and "(d2, Inr (snd p)) = (d', Inr out)"
  then show ?thesis using caption_changes [OF _ assms(2)] by (cases p) auto
qed

lemma qa_out:
  assumes "M10_QA v = Inr (qa, out)"
  obtains ms where "evaluateArtifact (get_prop v ''qaChecks'') (get_prop v ''autoPilot'' = JBool True) = Inr qa"
    and "out = carry v [(''qa'', qa_js qa), (''autopilot'', autopilot_js (evaluateAutopilot (autopilot_context v qa))),
                        (''completedModules'', ms)]"
    and "get_prop out ''autopilot'' = autopilot_js (evaluateAutopilot (autopilot_context v qa))"
proof -
  from assms obtain ms where "evaluateArtifact (get_prop v ''qaChecks'') (get_prop v ''autoPilot'' = JBool True) = Inr qa"
    and out: "out = carry v [(''qa'', qa_js qa), (''autopilot'', autopilot_js (evaluateAutopilot (autopilot_context v qa))),
                             (''completedModules'', ms)]"
    unfolding M10_QA_def by (elim bindR_E) (auto simp: read_prop_def split: if_splits)
  moreover have "get_prop out ''autopilot'' = autopilot_js (evaluateAutopilot (autopilot_context v qa))"
    unfolding out by (simp add: carry_def map_of_spread)
  ultimately show ?thesis using that by blast
qed

lemma qa_changes:
  assumes "M10_QA v = Inr (qa, out)" and "object_ok v"
  shows "changes (insert ''autopilot'' WRITTEN) v out"
    and "get_prop out ''autopilot'' = autopilot_js (evaluateAutopilot (autopilot_context v qa))"
    and "evaluateArtifact (get_prop v ''qaChecks'') (get_prop v ''autoPilot'' = JBool True) = Inr qa"
proof -
  from assms(1) show "get_prop out ''autopilot'' = autopilot_js (evaluateAutopilot (autopilot_context v qa))"
    and "evaluateArtifact (get_prop v ''qaChecks'') (get_prop v ''autoPilot'' = JBool True) = Inr qa"
    by (auto elim: qa_out)
  from assms(1) obtain patch where "out = carry v patch" "set (map fst patch) \<subseteq> insert ''autopilot'' WRITTEN"
    by (rule qa_out) (simp add: WRITTEN_def)
  then show "changes (insert ''autopilot'' WRITTEN) v out" using carry_written [OF assms(2)] by simp
qed

lemma approval_changes:
  assumes "APPROVAL now v = Inr out" and "object_ok v" and "\<not> truthy (get_prop out ''blocked'')"
  shows "changes WRITTEN v out" and "approved_input v"
proof -
  from assms(1) have "approved_input v \<and> changes WRITTEN v out"
    unfolding APPROVAL_def
  proof (elim bindR_E, cases "approved_input v")
    fix a assume "(if \<not> approved_input v then Inr (JObj [(''blocked'', JBool True),
                       (''reason'', JObj [(''code'', JStr ''HUMAN_APPROVAL_REQUIRED''), (''qa'', get_prop v ''qa'')]),
                       (''output'', v)])
       else Inr (carry v [(''approval'',
              JObj [(''decision'', js_or a (JStr ''approved_by_policy'')), (''approvedAt'', JStr (to_iso now))])])) = Inr out"
      and "approved_input v"
    then show ?thesis using carry_written [OF assms(2)] by (auto simp: WRITTEN_def)
  next
    fix a assume "(if \<not> approved_input v then Inr (JObj [(''blocked'', JBool True),
                       (''reason'', JObj [(''code'', JStr ''HUMAN_APPROVAL_REQUIRED''), (''qa'', get_prop v ''qa'')]),
                       (''output'', v)])
       else Inr (carry v [(''approval'',
              JObj [(''decision'', js_or a (JStr ''approved_by_policy'')), (''approvedAt'', JStr (to_iso now))])])) = Inr out"
      and "\<not> approved_input v"
    then have "get_prop out ''blocked'' = JBool True" by auto
    with assms(3) show ?thesis by (simp add: truthy_def)
  qed
  then show "changes WRITTEN v out" and "approved_input v" by simp_all
qed

lemma publish_handler_changes:
  assumes "publish_handler E U now r s d = (d', Inr out)" and "object_ok (wt_input s)"
  shows "changes WRITTEN (wt_input s) out"
  using assms(1) unfolding publish_handler_def published_output_def
  by (elim andThen_E lift_E bindR_E) (rule written [OF _ assms(2)], assumption, simp add: WRITTEN_def)

lemma media_changes:
  assumes "object_ok v"
  shows "M02_IMAGE v = Inr out \<Longrightarrow> changes WRITTEN v out"
    and "M03_VIDEO v = Inr out \<Longrightarrow> changes WRITTEN v out"
    and "M04_AUDIO v = Inr out \<Longrightarrow> changes WRITTEN v out"
    and "M07_MONITOR E v = Inr out \<Longrightarrow> changes WRITTEN v out"
    and "M08_REPORT now v = Inr out \<Longrightarrow> changes WRITTEN v out"
  unfolding M02_IMAGE_def M03_VIDEO_def M04_AUDIO_def M07_MONITOR_def M08_REPORT_def Let_def
  by (elim bindR_E; rule written [OF _ assms], assumption, simp add: WRITTEN_def)+

text \<open>Every handler of the service.\<close>

lemma handler_cases:
  assumes "service_handlers E U key = Some h"
  obtains "key = ''M01_STRATEGY''" "h = strategy_handler E U"
  | "key = ''M02_IMAGE''" "h = pure_handler (\<lambda>_. M02_IMAGE)"
  | "key = ''M03_VIDEO''" "h = pure_handler (\<lambda>_. M03_VIDEO)"
  | "key = ''M04_AUDIO''" "h = pure_handler (\<lambda>_. M04_AUDIO)"
  | "key = ''M05_CAPTION''" "h = caption_handler E U"
  | "key = ''M10_QA''" "h = qa_handler E U"
  | "key = ''APPROVAL''" "h = approval_handler E U"
  | "key = ''M06_PUBLISH''" "h = publish_handler E U"
  | "key = ''M07_MONITOR''" "h = pure_handler (\<lambda>_. M07_MONITOR E)"
  | "key = ''M08_REPORT''" "h = pure_handler M08_REPORT"
proof -
  from assms have "(key, h) \<in> set
     [(''M01_STRATEGY'', strategy_handler E U), (''M02_IMAGE'', pure_handler (\<lambda>_. M02_IMAGE)),
      (''M03_VIDEO'', pure_handler (\<lambda>_. M03_VIDEO)), (''M04_AUDIO'', pure_handler (\<lambda>_. M04_AUDIO)),
      (''M05_CAPTION'', caption_handler E U), (''M10_QA'', qa_handler E U), (''APPROVAL'', approval_handler E U),
      (''M06_PUBLISH'', publish_handler E U), (''M07_MONITOR'', pure_handler (\<lambda>_. M07_MONITOR E)),
      (''M08_REPORT'', pure_handler M08_REPORT)]"
    unfolding service_handlers_def by (rule map_of_SomeD)
  then show ?thesis
    by (simp only: list.set insert_iff empty_iff prod.inject simp_thms) (elim disjE conjE; (rule that, assumption, assumption))
qed

lemma handler_changes:
  assumes h: "service_handlers E U key = Some h" and run: "h now r s d = (d', Inr out)"
    and v: "object_ok (wt_input s)" and b: "\<not> truthy (get_prop out ''blocked'')"
  shows "changes (insert ''autopilot'' WRITTEN) (wt_input s) out"
    and "key \<noteq> ''M10_QA'' \<Longrightarrow> changes WRITTEN (wt_input s) out"
proof -
  have "changes WRITTEN (wt_input s) out \<or> key = ''M10_QA'' \<and> changes (insert ''autopilot'' WRITTEN) (wt_input s) out"
    using h
  proof (cases rule: handler_cases)
    case 1
    then show ?thesis using run strategy_handler_changes [OF _ v] by blast
  next
    case 5
    then show ?thesis using run caption_handler_changes [OF _ v] by blast
  next
    case 6
    obtain qa where "M10_QA (wt_input s) = Inr (qa, out)"
      using run unfolding 6(2) qa_handler_def case_prod_unfold
      by (elim andThen_E lift_E) auto
    with qa_changes(1) [OF this v] 6 show ?thesis by simp
  next
    case 7
    have "APPROVAL now (wt_input s) = Inr out"
      using run unfolding 7(2) approval_handler_def Let_def
      by (elim andThen_E lift_E) (auto split: if_splits elim!: andThen_E lift_E)
    with approval_changes(1) v b show ?thesis by blast
  next
    case 8
    then show ?thesis using run publish_handler_changes [OF _ v] by blast
  qed (use run media_changes [OF v] in \<open>auto simp: pure_handler_def elim!: lift_E\<close>)
  then show "changes (insert ''autopilot'' WRITTEN) (wt_input s) out"
    and "key \<noteq> ''M10_QA'' \<Longrightarrow> changes WRITTEN (wt_input s) out"
    using changes_mono by blast+
qed

section \<open>What the handlers write\<close>

definition grants :: "approval_row \<Rightarrow> bool" where
  "grants g \<longleftrightarrow> ap_decision g = DeApproved \<or> ap_decision g = DeOverridden"

definition asset_granted :: "factory_env \<Rightarrow> fx_db \<Rightarrow> js \<Rightarrow> bool" where
  "asset_granted E d v \<longleftrightarrow>
     (\<exists>t g. v = JStr t \<and> g \<in> set (fx_approvals d) \<and> fe_uuid E t = Some (ap_asset g) \<and> grants g)"

text \<open>
  From \<open>d\<close> to \<open>d'\<close> approvals are only added, those that grant something only if \<open>may\<close>, and so are
  posts, each with a grant for its assets in \<open>d\<close> and at a time the kill switch is off.
\<close>

definition effect :: "factory_env \<Rightarrow> bool \<Rightarrow> fx_db \<Rightarrow> fx_db \<Rightarrow> bool" where
  "effect E may d d' \<longleftrightarrow>
     set (fx_approvals d) \<subseteq> set (fx_approvals d') \<and>
     (\<forall>g\<in>set (fx_approvals d'). g \<in> set (fx_approvals d) \<or> (grants g \<longrightarrow> may)) \<and>
     (\<forall>p\<in>set (fx_posts d'). p \<in> set (fx_posts d) \<or>
        \<not> fe_kill E (po_createdAt p) \<and> (\<forall>v\<in>set (po_assets p). asset_granted E d v))"

lemma effect_same: "fx_approvals d' = fx_approvals d \<Longrightarrow> fx_posts d' = fx_posts d \<Longrightarrow> effect E may d d'"
  by (simp add: effect_def)

lemma effect_then:
  assumes "effect E may c d" and "fx_approvals d' = fx_approvals d" and "fx_posts d' = fx_posts d"
  shows "effect E may c d'"
  using assms by (simp add: effect_def)

lemma effect_add:
  assumes "effect E may c d" and "grants g \<longrightarrow> may" and "fx_approvals d' = fx_approvals d @ [g]" and "fx_posts d' = fx_posts d"
  shows "effect E may c d'"
  using assms by (auto simp: effect_def)

lemma for_each_inv:
  assumes "P s" and "\<And>x s. x \<in> set xs \<Longrightarrow> P s \<Longrightarrow> P (fst (f x s))"
  shows "P (fst (for_each f xs s))"
  using assms
proof (induction xs arbitrary: s)
  case (Cons x xs)
  show ?case unfolding for_each.simps
    by (rule andThen_state_inv) (use Cons in auto)
qed simp

lemma fst_lift [simp]: "fst (lift r d) = d"
  by (simp add: lift_def)

lemma persistIdea_tables:
  "fx_approvals (fst (persistIdea E U rid b idea d)) = fx_approvals d \<and> fx_posts (fst (persistIdea E U rid b idea d)) = fx_posts d"
  by (simp add: persistIdea_def andThen_def lift_def insert_idea_def Let_def split: sum.split option.split prod.split)

lemma persist_asset_tables:
  "fx_approvals (fst (persist_asset E b i a d)) = fx_approvals d \<and> fx_posts (fst (persist_asset E b i a d)) = fx_posts d"
  by (simp add: persist_asset_def andThen_def lift_def insert_asset_def split: sum.split)

lemma persist_caption_tables:
  "fx_approvals (fst (persist_caption E b c d)) = fx_approvals d \<and> fx_posts (fst (persist_caption E b c d)) = fx_posts d"
  by (simp add: persist_caption_def andThen_def lift_def insert_caption_def split: sum.split)

lemma transaction_inv: "I d \<Longrightarrow> I (fst (f d)) \<Longrightarrow> I (fst (transaction f d))"
  by (auto simp: transaction_def split: prod.split sum.split)

lemma persistAssetPack_tables:
  "fx_approvals (fst (persistAssetPack E b i pack d)) = fx_approvals d \<and> fx_posts (fst (persistAssetPack E b i pack d)) = fx_posts d"
  unfolding persistAssetPack_def
proof (rule transaction_inv)
  let ?I = "\<lambda>s. fx_approvals s = fx_approvals d \<and> fx_posts s = fx_posts d"
  show "?I (fst (andThen (for_each (persist_asset E b i) (pk_assets pack) d) (\<lambda>d _. for_each (persist_caption E b) (pk_captions pack) d)))"
    by (intro andThen_state_inv [where I = ?I] for_each_inv [where P = ?I])
      (simp_all add: persist_asset_tables persist_caption_tables)
qed simp

lemma add_approval_effect:
  assumes "effect E may c d" and "dec = DeApproved \<or> dec = DeOverridden \<longrightarrow> may"
  shows "effect E may c (fst (add_approval E U now asset actor dec score qa d))"
proof -
  have "fx_posts (fst (add_approval E U now asset actor dec score qa d)) = fx_posts d \<and>
    (fx_approvals (fst (add_approval E U now asset actor dec score qa d)) = fx_approvals d \<or>
     (\<exists>g. ap_decision g = dec \<and> fx_approvals (fst (add_approval E U now asset actor dec score qa d)) = fx_approvals d @ [g]))"
    by (auto simp: add_approval_def andThen_def lift_def insert_approval_def split: sum.split)
  with assms show ?thesis using effect_then effect_add by (metis grants_def)
qed

lemma persist_qa_of_effect:
  assumes "effect E may c d"
  shows "effect E may c (fst (persist_qa_of E U now qa v d))"
  unfolding persist_qa_of_def
proof (intro andThen_state_inv [where I = "effect E may c"])
  fix s asset s1 score
  assume i: "effect E may c s1"
  show "effect E may c (fst (if list_ex (\<lambda>g. asset = Some (ap_asset g) \<and> ap_decision g = qa_decision qa \<and> score \<noteq> None \<and> ap_score g = score)
             (fx_approvals s1) then (s1, Inr ())
        else add_approval E U now asset None (qa_decision qa) score (qa_js qa) s1))"
    using i add_approval_effect [OF i] by (simp add: qa_decision_def)
next
  fix asset score s2
  assume "effect E may c s2"
  then show "effect E may c (fst (score_asset asset score (qa_status qa) s2))"
    by (auto simp: score_asset_def intro: effect_then)
qed (use assms in simp_all)

lemma persistQa_effect: "effect E may d (fst (persistQa E U now ids qa d))"
  unfolding persistQa_def
  by (intro transaction_inv [where I = "effect E may d"] for_each_inv [where P = "effect E may d"] persist_qa_of_effect)
    (simp_all add: effect_same)

lemma approve_asset_effect:
  assumes "effect E True c d"
  shows "effect E True c (fst (approve_asset E U now actor qa dec v d))"
  unfolding approve_asset_def
proof (intro andThen_state_inv [where I = "effect E True c"] add_approval_effect)
  fix asset s
  assume "effect E True c s"
  then show "effect E True c (fst (s\<lparr>fx_assets := update_where (\<lambda>a. Some (as_id a) = asset) (\<lambda>a. a\<lparr>as_status := AsApproved\<rparr>) (fx_assets s)\<rparr>,
      Inr ()))" unfolding fst_conv by (rule effect_then) simp_all
qed (use assms in simp_all)

lemma approve_assets_effect: "effect E True d (fst (approve_assets E U now ids actor qa dec d))"
proof (cases "factory_decision dec")
  case (Some x)
  have "effect E True d (fst (transaction (for_each (approve_asset E U now actor qa x) ids) d))"
    by (intro transaction_inv [where I = "effect E True d"] for_each_inv [where P = "effect E True d"] approve_asset_effect)
      (simp_all add: effect_same)
  with Some show ?thesis by (simp add: approve_assets_def)
qed (simp add: approve_assets_def effect_same)

text \<open>Publishing.\<close>

lemma current_approval_in:
  assumes "current_approval d a = Some g"
  shows "g \<in> set (fx_approvals d) \<and> ap_asset g = a"
proof -
  let ?L = "filter (\<lambda>g. ap_asset g = a) (fx_approvals d)"
  from assms obtain gs where "rev (sort_key (\<lambda>g. (ap_createdAt g, ap_id g)) ?L) = g # gs"
    by (auto simp: current_approval_def split: list.splits)
  then have "g \<in> set ?L" by (metis list.set_intros(1) set_rev set_sort)
  then show ?thesis by simp
qed

lemma publishable_granted: "publishable d a \<Longrightarrow> \<exists>g\<in>set (fx_approvals d). ap_asset g = as_id a \<and> grants g"
  by (auto simp: publishable_def grants_def split: option.splits dest: current_approval_in)

lemma uuid_param_Some: "uuid_param E v = Inr (Some u) \<Longrightarrow> \<exists>t. v = JStr t \<and> fe_uuid E t = Some u"
  by (auto simp: uuid_param_def is_nullish_def split: js.splits option.splits if_splits)

lemma two_guards: "(if a \<noteq> b then Inl e else if \<not> q then Inl f else z) = Inr u \<Longrightarrow> a = b \<and> q"
  by (simp split: if_splits)

lemma check_assets_granted:
  assumes "check_assets E caps c d = Inr u" and "pc_assetIds c = [v]"
  shows "asset_granted E d v"
proof -
  from assms(1) obtain brand ids where ids: "the_ids E [v] = Inr ids" and rest:
    "(if length (filter (\<lambda>a. brand = Some (as_brand a) \<and> as_id a \<in> set ids) (fx_assets d)) \<noteq> length (remdups [v])
      then Inl (Error ''Every publication asset must exist'')
      else if \<not> list_all (publishable d) (filter (\<lambda>a. brand = Some (as_brand a) \<and> as_id a \<in> set ids) (fx_assets d))
      then Inl (Error ''Every publication asset must have current approved state'')
      else case filter (\<lambda>k. \<not> capable caps k) (requested_kinds E (pc_kind c)
             (filter (\<lambda>a. brand = Some (as_brand a) \<and> as_id a \<in> set ids) (fx_assets d))) of
             k # _ \<Rightarrow> Inl (unsupported E (pc_platform c) k) | [] \<Rightarrow> Inr ()) = Inr u"
    unfolding check_assets_def Let_def assms(2) by (elim bindR_E)
  have n: "length (filter (\<lambda>a. brand = Some (as_brand a) \<and> as_id a \<in> set ids) (fx_assets d)) = 1"
    and p: "list_all (publishable d) (filter (\<lambda>a. brand = Some (as_brand a) \<and> as_id a \<in> set ids) (fx_assets d))"
    using two_guards [OF rest] by simp_all
  let ?F = "filter (\<lambda>a. brand = Some (as_brand a) \<and> as_id a \<in> set ids) (fx_assets d)"
  have "\<exists>a. xs = [a]" if "length xs = 1" for xs :: "asset_row list" using that by (cases xs) simp_all
  from this [OF n] obtain a where f: "?F = [a]" ..
  have "a \<in> set ?F" unfolding f by simp
  then have a1: "as_id a \<in> set ids" by simp
  have a2: "publishable d a" using p unfolding f by simp
  obtain u0 where u0: "uuid_param E v = Inr u0" "ids = (case u0 of None \<Rightarrow> [] | Some x \<Rightarrow> [x])"
    using ids by (cases "uuid_param E v") (auto simp: the_ids_def split: option.split)
  with a1 have "uuid_param E v = Inr (Some (as_id a))" by (cases u0) auto
  with uuid_param_Some publishable_granted [OF a2] show ?thesis by (fastforce simp: asset_granted_def)
qed

lemma queue_tables:
  "fx_approvals (fst (queue_publication E U now b c key rq actor d)) = fx_approvals d \<and>
   (fx_posts (fst (queue_publication E U now b c key rq actor d)) = fx_posts d \<or>
    (\<exists>p. po_assets p = map json_image (pc_assetIds c) \<and> po_createdAt p = now \<and>
      fx_posts (fst (queue_publication E U now b c key rq actor d)) = fx_posts d @ [p]))"
  by (auto simp: queue_publication_def insert_post_def insert_publication_def insert_audit_def lift_def andThen_def Let_def
      split: sum.split if_splits)

lemma createApproved_effect:
  assumes v: "pc_assetIds c = [v]" and kill: "\<not> fe_kill E now"
  shows "effect E may d (fst (createApproved E U now c key rq actor d))"
proof -
  have body: "effect E may d (fst (reserve_and_queue E U now caps c key rq actor d))" for caps
  proof (cases "find (\<lambda>k. ik_key k = key) (fx_keys d)")
    case None
    let ?d = "d\<lparr>fx_keys := fx_keys d @ [\<lparr>ik_key = key, ik_scope = SCOPE, ik_hash = fe_hash E (command_js c),
        ik_resource = None, ik_response = None\<rparr>]\<rparr>"
    have q: "effect E may d (fst (queue_publication E U now b c key rq actor ?d))" if "check_assets E caps c ?d = Inr ()" for b
    proof -
      have g: "asset_granted E d v" using check_assets_granted [OF that v] by (simp add: asset_granted_def)
      then have "json_image v = v" by (auto simp: asset_granted_def)
      then show ?thesis using queue_tables [of E U now b c key rq actor ?d] g kill v by (auto simp: effect_def)
    qed
    have same: "effect E may d ?d" by (rule effect_same) simp_all
    from None q same show ?thesis
      by (auto simp: reserve_and_queue_def Let_def andThen_def lift_def split: sum.split)
  qed (auto simp: reserve_and_queue_def Let_def intro: effect_same)
  have tr: "effect E may d (fst (transaction (reserve_and_queue E U now caps c key rq actor) d))" for caps
    by (rule transaction_inv [where I = "effect E may d"]) (simp_all add: effect_same body)
  show ?thesis
    by (auto simp: createApproved_def andThen_def lift_def tr effect_same split: sum.split)
qed

lemma publish_effect:
  assumes "\<not> fe_kill E now"
  shows "effect E may d (fst (publish E U now v slot d))"
proof (cases "publish_command E v slot")
  case (Inl e)
  then show ?thesis by (simp add: publish_def lift_def effect_same)
next
  case (Inr c)
  then obtain x where "pc_assetIds c = [x]"
    unfolding publish_command_def Let_def by (elim bindR_E) (auto split: option.splits elim!: bindR_E)
  with createApproved_effect [OF this assms] Inr show ?thesis by (simp add: publish_def lift_def)
qed

lemma publish_slot_kill: "publish_slot E now v = Inr slot \<Longrightarrow> \<not> fe_kill E now"
  by (auto simp: publish_slot_def split: if_splits)

lemma fst_andThen_lift [simp]: "fst (andThen o1 (\<lambda>d a. lift (f d a) d)) = fst o1"
  by (cases o1; cases "snd o1") (auto simp: andThen_def lift_def split: sum.splits)

lemma fst_andThen_lift_first: "fst (andThen (lift r d) f) = (case r of Inl _ \<Rightarrow> d | Inr v \<Rightarrow> fst (f d v))"
  by (auto simp: andThen_def lift_def split: sum.split)

text \<open>Every handler, for what it reads as its input.\<close>

lemma handler_effect:
  assumes h: "service_handlers E U key = Some h" and run: "h now r s d = (d', res)"
  shows "effect E (key = ''APPROVAL'' \<and> approved_input (wt_input s)) d d'"
proof -
  let ?m = "key = ''APPROVAL'' \<and> approved_input (wt_input s)"
  have d': "d' = fst (h now r s d)" using run by simp
  show ?thesis
    using h
  proof (cases rule: handler_cases)
    case 1
    have "fx_approvals d' = fx_approvals d \<and> fx_posts d' = fx_posts d"
      unfolding d' 1(2) strategy_handler_def
      by (simp add: fst_andThen_lift_first persistIdea_tables split: sum.split)
    then show ?thesis by (simp add: effect_same)
  next
    case 5
    have "fx_approvals d' = fx_approvals d \<and> fx_posts d' = fx_posts d"
      unfolding d' 5(2) caption_handler_def
      by (simp add: fst_andThen_lift_first persistAssetPack_tables Let_def split: sum.split prod.split)
    then show ?thesis by (simp add: effect_same)
  next
    case 6
    show ?thesis
      unfolding d' 6(2) qa_handler_def
      by (simp add: fst_andThen_lift_first persistQa_effect effect_same split: sum.split prod.split)
  next
    case 7
    show ?thesis
    proof (cases "approved_input (wt_input s)")
      case True
      then have m: "?m = True" using 7(1) by simp
      show ?thesis
        unfolding m d' 7(2) approval_handler_def Let_def
        by (simp add: fst_andThen_lift_first approve_assets_effect effect_same split: sum.split)
    next
      case False
      have "truthy (get_prop out ''blocked'')" if "APPROVAL now (wt_input s) = Inr out" for out
        using that False unfolding APPROVAL_def by (elim bindR_E) (auto simp: truthy_def)
      then have "d' = d"
        unfolding d' 7(2) approval_handler_def Let_def
        by (simp add: fst_andThen_lift_first split: sum.split)
      then show ?thesis by (simp add: effect_same)
    qed
  next
    case 8
    show ?thesis
    proof (cases "publish_slot E now (wt_input s)")
      case (Inr slot)
      with publish_effect [OF publish_slot_kill [OF Inr]] show ?thesis
        unfolding d' 8(2) publish_handler_def by (simp add: fst_andThen_lift_first)
    qed (simp add: d' 8(2) publish_handler_def fst_andThen_lift_first effect_same)
  qed (simp_all add: d' pure_handler_def effect_same)
qed

section \<open>The contract of the handlers\<close>

text \<open>
  The requests of the service: a blocked step is resumed only by an approval of \<open>APPROVAL\<close>, and the
  body of a request has no member twice.
\<close>

definition factory_event :: "wf_event \<Rightarrow> bool" where
  "factory_event e \<longleftrightarrow>
     (case e of
        Resume rid key body \<Rightarrow>
          key = ''APPROVAL'' \<and> (\<exists>decision actor. factory_decision decision \<noteq> None \<and> body = approval_body decision actor)
      | Start wid body key run \<Rightarrow> distinct (map fst body)
      | _ \<Rightarrow> True)"

text \<open>A person has approved the artifact of the run.\<close>

definition decided :: "wf_event list \<Rightarrow> string \<Rightarrow> bool" where
  "decided es rid \<longleftrightarrow>
     (\<exists>decision actor. factory_decision decision \<noteq> None \<and>
        Resume rid ''APPROVAL'' (approval_body decision actor) \<in> set es)"

text \<open>The request that started the run opens every gate of the autopilot.\<close>

definition gates :: "js \<Rightarrow> bool" where
  "gates rin \<longleftrightarrow>
     (\<exists>qa. evaluateArtifact (get_prop rin ''qaChecks'') (get_prop rin ''autoPilot'' = JBool True) = Inr qa \<and>
           fst (evaluateAutopilot (autopilot_context rin qa)))"

definition allows :: "js \<Rightarrow> bool" where
  "allows v \<longleftrightarrow> get_prop (get_prop v ''autopilot'') ''allowed'' = JBool True"

definition faithful :: "js \<Rightarrow> string list \<Rightarrow> nat \<Rightarrow> js \<Rightarrow> bool" where
  "faithful rin ks k v \<longleftrightarrow>
     object_ok v \<and> json_image v = v \<and>
     (\<forall>f. f \<notin> insert ''autopilot'' WRITTEN \<longrightarrow> get_prop v f = get_prop rin f) \<and>
     (if ''M10_QA'' \<in> set (take k ks) then allows v \<longrightarrow> gates rin
      else get_prop v ''autopilot'' = get_prop rin ''autopilot'')"

definition artifact_promise :: "wf_event list \<Rightarrow> string \<Rightarrow> js \<Rightarrow> string list \<Rightarrow> nat \<Rightarrow> js \<Rightarrow> bool" where
  "artifact_promise es rid rin ks k v \<longleftrightarrow> decided es rid \<or> faithful rin ks k v"

text \<open>
  What can make an approval of a run with the steps \<open>ks\<close>: a person, the request itself, or the
  autopilot: by its gates when the quality check comes before the approval, else by what the request claims.
\<close>

definition authorised :: "wf_event list \<Rightarrow> string list \<Rightarrow> wf_run \<Rightarrow> bool" where
  "authorised es ks r \<longleftrightarrow>
     decided es (wr_id r) \<or>
     get_prop (wr_input r) ''approvalDecision'' \<in> {JStr ''approved'', JStr ''overridden''} \<or>
     (\<exists>k<length ks. ks ! k = ''APPROVAL'' \<and>
        (if ''M10_QA'' \<in> set (take k ks) then gates (wr_input r) else allows (wr_input r)))"

definition tables_promise :: "factory_env \<Rightarrow> fx_db \<Rightarrow> wf_event list \<Rightarrow> wf_db \<Rightarrow> fx_db \<Rightarrow> bool" where
  "tables_promise E x0 es d x \<longleftrightarrow>
     (\<forall>g\<in>set (fx_approvals x). grants g \<longrightarrow>
        g \<in> set (fx_approvals x0) \<or> (\<exists>r\<in>set (db_runs d). authorised es (keys_of d (wr_id r)) r)) \<and>
     (\<forall>p\<in>set (fx_posts x). p \<in> set (fx_posts x0) \<or>
        \<not> fe_kill E (po_createdAt p) \<and> (\<forall>v\<in>set (po_assets p). asset_granted E x v))"

lemma decided_later: "decided es rid \<Longrightarrow> decided (e # es) rid"
  by (auto simp: decided_def)

lemma authorised_later: "authorised es ks r \<Longrightarrow> same_run r r' \<Longrightarrow> authorised (e # es) ks r'"
  by (auto simp: authorised_def same_run_def decided_later)

lemma context_same:
  assumes "\<forall>f. f \<notin> insert ''autopilot'' WRITTEN \<longrightarrow> get_prop v f = get_prop rin f"
  shows "autopilot_context v qa = autopilot_context rin qa"
    and "get_prop v ''qaChecks'' = get_prop rin ''qaChecks''" and "get_prop v ''autoPilot'' = get_prop rin ''autoPilot''"
    and "get_prop v ''approvalDecision'' = get_prop rin ''approvalDecision''"
  using assms by (simp_all add: autopilot_context_def WRITTEN_def)

lemma promise_start:
  assumes "factory_event (Start wid body key run)"
  shows "artifact_promise es rid (json_image (JObj body)) ks 0 (json_image (JObj body))"
proof -
  have "object_ok (JObj body)" using assms by (auto simp: factory_event_def object_ok_def)
  then show ?thesis
    by (simp add: artifact_promise_def faithful_def object_ok_image json_image_idem del: json_image.simps)
qed

lemma promise_handler:
  assumes h: "service_handlers E U (wt_key s) = Some h" and k: "k < length ks" "ks ! k = wt_key s"
    and p: "artifact_promise es rid rin ks k (wt_input s)" and run: "h now r s x = (x', Inr out)"
    and b: "\<not> truthy (get_prop out ''blocked'')"
  shows "artifact_promise es rid rin ks (Suc k) (stored out)"
proof (cases "decided es rid")
  case False
  with p have f: "faithful rin ks k (wt_input s)" by (simp add: artifact_promise_def)
  then have v: "object_ok (wt_input s)" "json_image (wt_input s) = wt_input s"
    and kept: "\<forall>f. f \<notin> insert ''autopilot'' WRITTEN \<longrightarrow> get_prop (wt_input s) f = get_prop rin f"
    and pilot: "if ''M10_QA'' \<in> set (take k ks) then allows (wt_input s) \<longrightarrow> gates rin
      else get_prop (wt_input s) ''autopilot'' = get_prop rin ''autopilot''" by (simp_all add: faithful_def)
  note c = handler_changes [OF h run v(1) b]
  have o: "object_ok out" by (rule changes_object [OF c(1)])
  have kept': "\<forall>f. f \<notin> insert ''autopilot'' WRITTEN \<longrightarrow> get_prop (stored out) f = get_prop rin f"
    using get_prop_stored [OF c(1) v] kept by simp
  have tk: "set (take (Suc k) ks) = insert (wt_key s) (set (take k ks))"
    using k by (simp add: take_Suc_conv_app_nth)
  have pilot': "if ''M10_QA'' \<in> set (take (Suc k) ks) then allows (stored out) \<longrightarrow> gates rin
      else get_prop (stored out) ''autopilot'' = get_prop rin ''autopilot''"
  proof (cases "wt_key s = ''M10_QA''")
    case True
    with h have "h = qa_handler E U" by (cases rule: handler_cases) simp_all
    with run obtain qa where qa: "M10_QA (wt_input s) = Inr (qa, out)"
      unfolding qa_handler_def case_prod_unfold by (simp only:) (elim andThen_E lift_E, auto)
    note q = qa_changes [OF qa v(1)]
    have "get_prop (stored out) ''autopilot'' = json_image (get_prop out ''autopilot'')"
      using get_prop_image [OF o, of "''autopilot''"] q(2) unfolding stored_object [OF o] by (simp add: autopilot_js_def)
    then have "allows (stored out) \<longleftrightarrow> fst (evaluateAutopilot (autopilot_context (wt_input s) qa))"
      by (simp add: allows_def q(2) autopilot_js_def)
    then have "allows (stored out) \<longrightarrow> gates rin"
      using q(3) context_same [OF kept] by (auto simp: gates_def)
    with True tk show ?thesis by simp
  next
    case False
    have "''autopilot'' \<notin> WRITTEN" by (simp add: WRITTEN_def)
    then have "get_prop (stored out) ''autopilot'' = get_prop (wt_input s) ''autopilot''"
      by (rule get_prop_stored [OF c(2) [OF False] v])
    with pilot False tk show ?thesis by (auto simp: allows_def)
  qed
  have "object_ok (stored out)" "json_image (stored out) = stored out"
    unfolding stored_object [OF o] by (rule object_ok_image [OF o]) (rule json_image_idem)
  with kept' pilot' show ?thesis by (simp add: artifact_promise_def faithful_def)
qed (simp add: artifact_promise_def)

lemma approved_authorised:
  assumes "artifact_promise es (wr_id r) (wr_input r) ks k v" and "k < length ks" "ks ! k = ''APPROVAL''" and "approved_input v"
  shows "authorised es ks r"
proof (cases "decided es (wr_id r)")
  case False
  with assms(1) have f: "faithful (wr_input r) ks k v" by (simp add: artifact_promise_def)
  then have kept: "\<forall>f. f \<notin> insert ''autopilot'' WRITTEN \<longrightarrow> get_prop v f = get_prop (wr_input r) f"
    by (simp add: faithful_def)
  from assms(4) consider "get_prop v ''approvalDecision'' \<in> {JStr ''approved'', JStr ''overridden''}" | "allows v"
    by (auto simp: approved_input_def allows_def)
  then show ?thesis
  proof cases
    case 1
    then show ?thesis using context_same(4) [OF kept] by (simp add: authorised_def)
  next
    case 2
    with f have "if ''M10_QA'' \<in> set (take k ks) then gates (wr_input r) else allows (wr_input r)"
      by (auto simp: faithful_def allows_def split: if_splits)
    with assms(2,3) show ?thesis unfolding authorised_def by blast
  qed
qed (simp add: authorised_def)

lemma tables_handler:
  assumes t: "tables_promise E x0 es d x" and r: "r0 \<in> set (db_runs d)" "same_run r0 r"
    and h: "service_handlers E U (wt_key s) = Some h"
    and k: "k < length (keys_of d (wr_id r))" "keys_of d (wr_id r) ! k = wt_key s"
    and p: "artifact_promise es (wr_id r) (wr_input r) (keys_of d (wr_id r)) k (wt_input s)"
    and run: "h now r s x = (x', res)"
  shows "tables_promise E x0 es d x'"
proof -
  have e: "effect E (wt_key s = ''APPROVAL'' \<and> approved_input (wt_input s)) x x'" by (rule handler_effect [OF h run])
  have run0: "wr_id r = wr_id r0" "wr_input r = wr_input r0" using r(2) by (simp_all add: same_run_def)
  have a: "authorised es (keys_of d (wr_id r0)) r0" if "wt_key s = ''APPROVAL''" "approved_input (wt_input s)"
    by (rule approved_authorised [OF p [unfolded run0] _ _ that(2)]) (use k that(1) run0 in simp_all)
  have "asset_granted E x' v" if "asset_granted E x v" for v
    using that e by (auto simp: asset_granted_def effect_def)
  with t e show ?thesis using r(1) a unfolding tables_promise_def effect_def by blast
qed

lemma tables_later:
  assumes t: "tables_promise E x0 es d x"
    and k: "\<And>r. r \<in> set (db_runs d) \<Longrightarrow> \<exists>r'\<in>set (db_runs d'). same_run r r' \<and> keys_of d' (wr_id r) = keys_of d (wr_id r)"
  shows "tables_promise E x0 (e # es) d' x"
proof -
  have "\<exists>r\<in>set (db_runs d'). authorised (e # es) (keys_of d' (wr_id r)) r"
    if "r \<in> set (db_runs d)" "authorised es (keys_of d (wr_id r)) r" for r
  proof -
    from k [OF that(1)] obtain r' where r': "r' \<in> set (db_runs d')" "same_run r r'" "keys_of d' (wr_id r) = keys_of d (wr_id r)"
      by blast
    have "authorised (e # es) (keys_of d' (wr_id r')) r'"
      using authorised_later [OF that(2) r'(2)] r'(2,3) by (simp add: same_run_def)
    with r'(1) show ?thesis by blast
  qed
  with t show ?thesis unfolding tables_promise_def by blast
qed

interpretation contract: artifact_flow "service_handlers E U" factory_event artifact_promise "tables_promise E x0" x0
  for E U x0
proof unfold_locales
  fix es rid rin ks k v e
  assume "artifact_promise es rid rin ks k v"
  then show "artifact_promise (e # es) rid rin ks k v" using decided_later by (auto simp: artifact_promise_def)
next
  fix rid key body es rin ks k v
  assume "factory_event (Resume rid key body)"
  then show "artifact_promise (Resume rid key body # es) rid rin ks k (jsonb_concat v (stored (JObj body)))"
    by (fastforce simp: artifact_promise_def decided_def factory_event_def)
next
  fix now
  show "tables_promise E x0 [] (empty_db now) x0" by (simp add: tables_promise_def)
qed (fact promise_start promise_handler tables_later tables_handler)+

end
