(* ===== verification/FactoryGuarantees.thy ===== *)
theory FactoryGuarantees
  imports FactoryProperties
begin

text \<open>
  What the content factory promises: posts are queued only on an approval somebody or the rules of the
  autopilot gave, once per command, and when the quality gate and the autopilot let an artifact through;
  and what happens when the caption of an artifact was used before.
\<close>

section \<open>Who approved a post\<close>


section \<open>One post per command\<close>

text \<open>
  The posts of the factory and their publications belong together row by row, an id is used once, and the
  key of every publication is taken.
\<close>

definition books :: "fx_db \<Rightarrow> bool" where
  "books d \<longleftrightarrow>
     list_all2 (\<lambda>p q. pu_post q = po_id p \<and> pu_provider q = po_platform p) (fx_posts d) (fx_publications d) \<and>
     distinct (map po_id (fx_posts d)) \<and> distinct (map pu_key (fx_publications d)) \<and>
     distinct (map ik_key (fx_keys d)) \<and> pu_key ` set (fx_publications d) \<subseteq> ik_key ` set (fx_keys d)"

lemma books_same:
  "books d \<Longrightarrow> fx_posts d' = fx_posts d \<Longrightarrow> fx_publications d' = fx_publications d \<Longrightarrow> fx_keys d' = fx_keys d \<Longrightarrow> books d'"
  by (simp add: books_def)

definition unbooked :: "fx_db \<Rightarrow> fx_db \<Rightarrow> bool" where
  "unbooked d d' \<longleftrightarrow> fx_posts d' = fx_posts d \<and> fx_publications d' = fx_publications d \<and> fx_keys d' = fx_keys d"

lemma unbooked_simps [simp]:
  "unbooked d d" "unbooked d (d'\<lparr>fx_assets := x1\<rparr>) = unbooked d d'" "unbooked d (d'\<lparr>fx_approvals := x2\<rparr>) = unbooked d d'"
  "unbooked d (d'\<lparr>fx_fresh := n\<rparr>) = unbooked d d'" "unbooked d (d'\<lparr>fx_ideas := x3\<rparr>) = unbooked d d'"
  "unbooked d (d'\<lparr>fx_captions := x4\<rparr>) = unbooked d d'"
  by (simp_all add: unbooked_def)

lemma repository_unbooked:
  "unbooked c d \<Longrightarrow> unbooked c (fst (persistIdea E U rid b idea d))"
  "unbooked c d \<Longrightarrow> unbooked c (fst (persistAssetPack E b i pack d))"
  "unbooked c d \<Longrightarrow> unbooked c (fst (persistQa E U now ids qa d))"
  "unbooked c d \<Longrightarrow> unbooked c (fst (approve_assets E U now ids actor q dec d))"
proof -
  assume u: "unbooked c d"
  have add: "unbooked c (fst (add_approval E U now asset actor dec score q s))" if "unbooked c s" for asset actor dec score q s
    using that by (simp add: add_approval_def andThen_def lift_def insert_approval_def split: sum.split)
  show "unbooked c (fst (persistIdea E U rid b idea d))"
    using u by (simp add: persistIdea_def andThen_def lift_def insert_idea_def Let_def split: sum.split option.split prod.split)
  have asset: "unbooked c (fst (persist_asset E b i a s))" if "unbooked c s" for a s
    using that by (simp add: persist_asset_def andThen_def lift_def insert_asset_def split: sum.split)
  have caption: "unbooked c (fst (persist_caption E b a s))" if "unbooked c s" for a s
    using that by (simp add: persist_caption_def andThen_def lift_def insert_caption_def split: sum.split)
  show "unbooked c (fst (persistAssetPack E b i pack d))"
    unfolding persistAssetPack_def
    by (intro transaction_inv [where I = "unbooked c"] andThen_state_inv [where I = "unbooked c"]
        for_each_inv [where P = "unbooked c"]) (simp_all add: u asset caption)
  have "unbooked c (fst (persist_qa_of E U now qa v s))" if "unbooked c s" for v s
    unfolding persist_qa_of_def
    by (intro andThen_state_inv [where I = "unbooked c"]) (simp_all add: that add score_asset_def)
  then show "unbooked c (fst (persistQa E U now ids qa d))"
    unfolding persistQa_def
    by (intro transaction_inv [where I = "unbooked c"] for_each_inv [where P = "unbooked c"]) (simp_all add: u)
  have "unbooked c (fst (approve_asset E U now actor q x v s))" if "unbooked c s" for x v s
    unfolding approve_asset_def
    by (intro andThen_state_inv [where I = "unbooked c"]) (simp_all add: that add)
  then have "unbooked c (fst (transaction (for_each (approve_asset E U now actor q x) ids) d))" for x
    by (intro transaction_inv [where I = "unbooked c"] for_each_inv [where P = "unbooked c"]) (simp_all add: u)
  then show "unbooked c (fst (approve_assets E U now ids actor q dec d))"
    by (simp add: approve_assets_def u split: option.split)
qed

lemma insert_rows:
  "insert_post p d = (d', Inr u) \<Longrightarrow> d' = d\<lparr>fx_posts := fx_posts d @ [p]\<rparr> \<and> po_id p \<notin> po_id ` set (fx_posts d)"
  "insert_publication q d = (d', Inr u) \<Longrightarrow>
     d' = d\<lparr>fx_publications := fx_publications d @ [q]\<rparr> \<and> pu_key q \<notin> pu_key ` set (fx_publications d)"
  "insert_audit a d = (d', Inr u) \<Longrightarrow> d' = d\<lparr>fx_audit := fx_audit d @ [a]\<rparr>"
  by (auto simp: insert_post_def insert_publication_def insert_audit_def list_ex_iff split: if_splits)

lemma queue_rows:
  assumes "andThen (insert_post p (d\<lparr>fx_fresh := n\<rparr>)) (\<lambda>d _.
         andThen (insert_publication q d) (\<lambda>d _.
         andThen (lift a d) (\<lambda>d actor.
         andThen (lift r d) (\<lambda>d request.
         andThen (insert_audit (row actor request) d) (\<lambda>d _. (d\<lparr>fx_keys := K (fx_keys d)\<rparr>, Inr resp)))))) = (d', Inr response)"
  shows "fx_posts d' = fx_posts d @ [p] \<and> fx_publications d' = fx_publications d @ [q] \<and>
    po_id p \<notin> po_id ` set (fx_posts d) \<and> pu_key q \<notin> pu_key ` set (fx_publications d) \<and>
    fx_keys d' = K (fx_keys d) \<and> response = resp"
  using assms by (elim andThen_E lift_E) (auto dest!: insert_rows)

lemma queue_books:
  assumes "queue_publication E U now b c key rq actor d = (d', Inr response)"
  shows "\<exists>p q. fx_posts d' = fx_posts d @ [p] \<and> fx_publications d' = fx_publications d @ [q] \<and>
    pu_post q = po_id p \<and> pu_provider q = po_platform p \<and> pu_key q = key \<and> po_id p \<notin> po_id ` set (fx_posts d) \<and>
    pu_key q \<notin> pu_key ` set (fx_publications d) \<and>
    fx_keys d' = update_where (\<lambda>k. ik_key k = key)
      (\<lambda>k. k\<lparr>ik_resource := Some (pu_id q), ik_response := Some (json_image response)\<rparr>) (fx_keys d)"
proof -
  note q = queue_rows [OF assms [unfolded queue_publication_def Let_def]]
  show ?thesis
    by (rule exI, rule exI, intro conjI, rule q [THEN conjunct1], rule q [THEN conjunct2, THEN conjunct1])
      (use q in \<open>simp_all only: publication_row.select_convs post_row.select_convs simp_thms\<close>)
qed

lemma createApproved_cases:
  assumes "createApproved E U now c key rq actor d = (d', res)"
  obtains (same) "d' = d"
  | (queued) caps d1 b response where "provider_get E (pc_platform c) = Inr caps" and "key \<noteq> []"
      and "pc_assetIds c \<noteq> []" and "find (\<lambda>k. ik_key k = key) (fx_keys d) = None"
      and "d1 = d\<lparr>fx_keys := fx_keys d @ [\<lparr>ik_key = key, ik_scope = SCOPE, ik_hash = fe_hash E (command_js c),
             ik_resource = None, ik_response = None\<rparr>]\<rparr>"
      and "queue_publication E U now b c key rq actor d1 = (d', Inr response)" and "res = Inr response"
proof (cases "d' = d")
  case False
  then obtain caps where caps: "provider_get E (pc_platform c) = Inr caps" and g: "key \<noteq> []" "pc_assetIds c \<noteq> []"
    and t: "transaction (reserve_and_queue E U now caps c key rq actor) d = (d', res)"
    using assms by (cases "provider_get E (pc_platform c)") (auto simp: createApproved_def lift_def split: if_splits)
  obtain response where r: "res = Inr response" "reserve_and_queue E U now caps c key rq actor d = (d', Inr response)"
    using t False by (cases res) (auto simp: transaction_def split: prod.splits sum.splits)
  have f: "find (\<lambda>k. ik_key k = key) (fx_keys d) = None"
    using r(2) False by (auto simp: reserve_and_queue_def Let_def split: option.splits if_splits)
  from r(2) f show ?thesis
    unfolding reserve_and_queue_def Let_def by simp (elim andThen_E lift_E, rule queued [OF caps g f], use r(1) in auto)
qed (rule same)

lemma createApproved_books:
  assumes "books d" shows "books (fst (createApproved E U now c key rq actor d))"
proof -
  obtain d' res where c: "createApproved E U now c key rq actor d = (d', res)" by fastforce
  have "books d'"
    using c
  proof (cases rule: createApproved_cases)
    case (queued caps d1 b response)
    have new: "key \<notin> ik_key ` set (fx_keys d)" using queued(4) by (auto simp: find_None_iff)
    from queue_books [OF queued(6)] obtain p q where
      "fx_posts d' = fx_posts d @ [p]" "fx_publications d' = fx_publications d @ [q]"
      "pu_post q = po_id p" "pu_provider q = po_platform p" "pu_key q = key" "po_id p \<notin> po_id ` set (fx_posts d)"
      "pu_key q \<notin> pu_key ` set (fx_publications d)"
      and keys: "map ik_key (fx_keys d') = map ik_key (fx_keys d) @ [key]"
      by (auto simp: queued(5) map_update_where)
    moreover have "ik_key ` set (fx_keys d') = insert key (ik_key ` set (fx_keys d))"
      using arg_cong [OF keys, of set] by simp
    moreover have "distinct (map ik_key (fx_keys d'))" using assms new unfolding keys by (simp add: books_def)
    ultimately show ?thesis using assms by (auto simp: books_def list_all2_appendI)
  qed (simp add: assms)
  with c show ?thesis by simp
qed

lemma handler_books:
  assumes h: "service_handlers E U key = Some h" and b: "books d"
  shows "books (fst (h now r s d))"
proof -
  have u: "books d'" if "unbooked d d'" for d' using b that by (auto simp: unbooked_def intro: books_same)
  show ?thesis
    using h
  proof (cases rule: handler_cases)
    case 1
    show ?thesis unfolding 1(2) strategy_handler_def
      by (rule u) (simp add: fst_andThen_lift_first repository_unbooked split: sum.split)
  next
    case 5
    show ?thesis unfolding 5(2) caption_handler_def
      by (rule u) (simp add: fst_andThen_lift_first repository_unbooked Let_def split: sum.split prod.split)
  next
    case 6
    show ?thesis unfolding 6(2) qa_handler_def
      by (rule u) (simp add: fst_andThen_lift_first repository_unbooked split: sum.split prod.split)
  next
    case 7
    show ?thesis unfolding 7(2) approval_handler_def Let_def
      by (rule u) (simp add: fst_andThen_lift_first repository_unbooked split: sum.split)
  next
    case 8
    show ?thesis unfolding 8(2) publish_handler_def publish_def
      by (simp add: fst_andThen_lift_first createApproved_books b split: sum.split)
  qed (simp_all add: pure_handler_def b)
qed

text \<open>
  C37: In every history that starts with empty tables, each post of the factory has exactly one publication, and no
  two publications have the same command key: a publish step that is tried again queues nothing twice.
\<close>

theorem posts_once:
  assumes "history U (service_handlers E U) worker x0 es s"
    and "fx_posts x0 = []" and "fx_publications x0 = []" and "distinct (map ik_key (fx_keys x0))"
  shows "books (fa_ext (sy_world s))"
  using assms(1)
proof (induction rule: history.induct)
  case (init now)
  show ?case using assms(2-4) by (simp add: boot_def books_def)
next
  case (step es s e)
  have "books (fa_ext (fst (runner_move U (service_handlers E U) worker q w)))" if "books (fa_ext w)" for q w
    using that handler_books
    by (auto simp: runner_move_def claim_def trace_step_def handle_def commit_def close_def
        split: phase.split prod.split option.split sum.split verdict.split) (metis fst_conv)
  with step.IH show ?case
    by (auto simp: serve_def with_db_def spawn_def split: wf_event.split prod.split sum.split) (metis fst_conv)
qed


text \<open>
  C38: A publication command that was accepted is accepted again under its key, whatever the time, the actor and
  the request, with the answer that was stored for it and without any change.
\<close>

theorem publication_idempotent:
  assumes "createApproved E U now c key rq actor d = (d', Inr response)" and "truthy rq'"
  shows "\<exists>again. createApproved E U now' c key rq' actor' d' = (d', Inr again) \<and> json_image again = json_image response"
proof -
  obtain caps where caps: "provider_get E (pc_platform c) = Inr caps" and g: "key \<noteq> []" "pc_assetIds c \<noteq> []"
    and t: "transaction (reserve_and_queue E U now caps c key rq actor) d = (d', Inr response)"
    using assms(1) by (cases "provider_get E (pc_platform c)") (auto simp: createApproved_def lift_def split: if_splits)
  then have r: "reserve_and_queue E U now caps c key rq actor d = (d', Inr response)" by (simp add: transaction_Inr_iff)
  have "\<exists>again. reserve_and_queue E U now' caps c key rq' actor' d' = (d', Inr again) \<and> json_image again = json_image response"
  proof (cases "find (\<lambda>k. ik_key k = key) (fx_keys d)")
    case (Some k)
    with r have "d' = d" "ik_scope k = SCOPE \<and> ik_hash k = fe_hash E (command_js c)" "response = or_else (ik_response k) JNull"
      by (auto simp: reserve_and_queue_def Let_def split: if_splits)
    with Some show ?thesis by (simp add: reserve_and_queue_def Let_def)
  next
    case None
    from assms(1) show ?thesis
    proof (cases rule: createApproved_cases)
      case same
      with r None have False
        unfolding reserve_and_queue_def Let_def by simp (elim andThen_E lift_E, auto dest!: queue_books)
      then show ?thesis ..
    next
      case (queued caps1 d1 b response1)
      let ?p = "\<lambda>k. ik_key k = key"
      have "response1 = response" using queued(7) by simp
      from queue_books [OF queued(6), unfolded this] obtain q :: publication_row where keys: "fx_keys d' = update_where ?p
          (\<lambda>k. k\<lparr>ik_resource := Some (pu_id q), ik_response := Some (json_image response)\<rparr>) (fx_keys d1)"
        by blast
      have "find ?p (xs @ [k]) = Some k" if "find ?p xs = None" "?p k" for xs k
        using that by (induction xs) (auto split: if_splits)
      from this [OF None] have "find ?p (fx_keys d1) = Some \<lparr>ik_key = key, ik_scope = SCOPE,
          ik_hash = fe_hash E (command_js c), ik_resource = None, ik_response = None\<rparr>" by (simp add: queued(5))
      then have "find ?p (fx_keys d') = Some \<lparr>ik_key = key, ik_scope = SCOPE, ik_hash = fe_hash E (command_js c),
          ik_resource = Some (pu_id q), ik_response = Some (json_image response)\<rparr>"
        unfolding keys by (subst find_update_where) simp_all
      then show ?thesis by (simp add: reserve_and_queue_def Let_def json_image_idem)
    qed
  qed
  then obtain again where a: "reserve_and_queue E U now' caps c key rq' actor' d' = (d', Inr again)"
    "json_image again = json_image response" by blast
  then have "transaction (reserve_and_queue E U now' caps c key rq' actor') d' = (d', Inr again)"
    by (simp add: transaction_Inr_iff)
  with a(2) show ?thesis using caps g assms(2) by (auto simp: createApproved_def lift_def)
qed

section \<open>The quality gate and the autopilot\<close>

definition failed_checks :: "js \<Rightarrow> nat" where
  "failed_checks checks = length (filter (\<lambda>k. get_prop (get_prop checks k) ''passed'' \<noteq> JBool True) DIMENSIONS)"

lemma qa_check_simps [simp]:
  "qi_passed (qa_check checks k) \<longleftrightarrow> get_prop (get_prop checks k) ''passed'' = JBool True"
  "qi_points (qa_check checks k) = (if get_prop (get_prop checks k) ''passed'' = JBool True then 100 / 12 else 0)"
  by (simp_all add: qa_check_def Let_def DIMENSIONS_def)

lemma qa_score_of:
  assumes "evaluateArtifact checks auto = Inr qa"
  shows "qa_score qa = js_round (of_nat (12 - failed_checks checks) * (100 / 12))" and "failed_checks checks \<le> 12"
proof -
  let ?ok = "\<lambda>k. get_prop (get_prop checks k) ''passed'' = JBool True"
  have sums: "foldl (\<lambda>t i. t + qi_points i) a (map (qa_check checks) ks) = a + of_nat (length (filter ?ok ks)) * (100 / 12)" for a ks
    by (induction ks arbitrary: a) (simp_all add: algebra_simps)
  have "length (filter ?ok DIMENSIONS) + length (filter (\<lambda>k. \<not> ?ok k) DIMENSIONS) = length DIMENSIONS"
    by (rule sum_length_filter_compl)
  also have "length DIMENSIONS = 12" by (simp add: DIMENSIONS_def)
  finally have n: "length (filter ?ok DIMENSIONS) = 12 - failed_checks checks" and "failed_checks checks \<le> 12"
    by (simp_all add: failed_checks_def)
  have "y = x" if "(if b then Inl e else Inr x) = Inr y" for b e and x y :: qa_result using that by (simp split: if_splits)
  from this [OF assms [unfolded evaluateArtifact_def Let_def]]
  have "qa_score qa = js_round (foldl (\<lambda>t i. t + qi_points i) 0 (map (qa_check checks) DIMENSIONS))"
    by (simp only: qa_result.select_convs)
  then show "qa_score qa = js_round (of_nat (12 - failed_checks checks) * (100 / 12))"
    unfolding sums n by (simp only: add_0)
  show "failed_checks checks \<le> 12" by fact
qed

lemma score_thresholds:
  assumes "evaluateArtifact checks auto = Inr qa"
  shows "90 \<le> qa_score qa \<longleftrightarrow> failed_checks checks \<le> 1" and "70 \<le> qa_score qa \<longleftrightarrow> failed_checks checks \<le> 3"
proof -
  note s = qa_score_of [OF assms]
  let ?n = "12 - failed_checks checks"
  have "90 \<le> qa_score qa \<longleftrightarrow> (1074 :: rat) \<le> of_nat (100 * ?n)"
    unfolding s(1) js_round_def le_floor_iff by (simp add: field_simps)
  also have "\<dots> \<longleftrightarrow> 1074 \<le> 100 * ?n" by (metis of_nat_le_iff of_nat_numeral)
  finally show "90 \<le> qa_score qa \<longleftrightarrow> failed_checks checks \<le> 1" using s(2) by arith
  have "70 \<le> qa_score qa \<longleftrightarrow> (834 :: rat) \<le> of_nat (100 * ?n)"
    unfolding s(1) js_round_def le_floor_iff by (simp add: field_simps)
  also have "\<dots> \<longleftrightarrow> 834 \<le> 100 * ?n" by (metis of_nat_le_iff of_nat_numeral)
  finally show "70 \<le> qa_score qa \<longleftrightarrow> failed_checks checks \<le> 3" using s(2) by arith
qed

lemma autopilot_gates:
  "fst (evaluateAutopilot c) \<longleftrightarrow>
     truthy (get_prop c ''autoPilot'') \<and> \<not> truthy (get_prop c ''killSwitch'') \<and>
     \<not> (\<not> is_finite_js (get_prop c ''qaScore'') \<or> num_lt (js_number (get_prop c ''qaScore'')) (Fin 90)) \<and>
     truthy (get_prop c ''platformPermitted'') \<and>
     \<not> (\<not> is_finite_js (get_prop c ''estimatedCost'') \<or> \<not> is_finite_js (get_prop c ''remainingBudget'') \<or>
        over (get_prop c ''estimatedCost'') (get_prop c ''remainingBudget'')) \<and>
     \<not> (\<not> is_integer_js (get_prop c ''postsInWindow'') \<or> \<not> is_integer_js (get_prop c ''postingFrequencyCap'') \<or>
        \<not> over (get_prop c ''postingFrequencyCap'') (get_prop c ''postsInWindow'')) \<and>
     truthy (get_prop c ''claimsSubstantiated'') \<and> truthy (get_prop c ''copyrightCleared'')"
proof -
  have gate: "(if b then [x] else []) = [] \<longleftrightarrow> \<not> b" for b and x :: string by simp
  show ?thesis
    by (cases "truthy (get_prop c ''autoPilot'')")
      (simp_all only: evaluateAutopilot_def Let_def if_True if_False fst_conv append_is_Nil_conv gate simp_thms)
qed

text \<open>
  C39: After the quality check the autopilot is allowed exactly when it was asked for, no kill switch was set, at most
  one of the twelve checks failed, the platform, the claims and the copyright are cleared, the estimated cost fits
  the budget, and the posts of the window stay below the cap; the artifact is blocked exactly from four failures on.
\<close>

theorem autopilot_allowed_iff:
  assumes "M10_QA v = Inr (qa, out)"
  shows "(allows out \<longleftrightarrow>
      get_prop v ''autoPilot'' = JBool True \<and> get_prop v ''killSwitch'' \<noteq> JBool True \<and>
      failed_checks (get_prop v ''qaChecks'') \<le> 1 \<and> get_prop v ''platformPermitted'' = JBool True \<and>
      get_prop v ''claimsSubstantiated'' = JBool True \<and> get_prop v ''copyrightCleared'' = JBool True \<and>
      (\<exists>a b. js_number (get_prop v ''estimatedCost'') = Fin a \<and> js_number (get_prop v ''remainingBudget'') = Fin b \<and> a \<le> b) \<and>
      (\<exists>m n :: int. get_prop v ''postsInWindow'' = JNum (Fin (of_int m)) \<and>
         get_prop v ''postingFrequencyCap'' = JNum (Fin (of_int n)) \<and> m < n)) \<and>
    (qa_route qa = ''block'' \<longleftrightarrow> 4 \<le> failed_checks (get_prop v ''qaChecks''))"
proof -
  from assms obtain e: "evaluateArtifact (get_prop v ''qaChecks'') (get_prop v ''autoPilot'' = JBool True) = Inr qa"
    and a: "get_prop out ''autopilot'' = autopilot_js (evaluateAutopilot (autopilot_context v qa))" by (rule qa_out)
  note th = score_thresholds [OF e]
  have "y = x" if "(if b then Inl e else Inr x) = Inr y" for b e and x y :: qa_result using that by (simp split: if_splits)
  from this [OF e [unfolded evaluateArtifact_def Let_def]]
  have "qa_route qa = ''block'' \<longleftrightarrow> qa_score qa < 70" by simp
  then have block: "qa_route qa = ''block'' \<longleftrightarrow> 4 \<le> failed_checks (get_prop v ''qaChecks'')" using th(2) by linarith
  have score: "num_lt (Fin (of_int (qa_score qa))) (Fin 90) \<longleftrightarrow> \<not> failed_checks (get_prop v ''qaChecks'') \<le> 1"
    unfolding th(1) [symmetric] num_lt_Fin by (simp add: not_le)
  have cost: "\<not> (\<not> is_finite_js (JNum x) \<or> \<not> is_finite_js (JNum y) \<or> over (JNum x) (JNum y)) \<longleftrightarrow>
      (\<exists>a b. x = Fin a \<and> y = Fin b \<and> a \<le> b)" for x y
    by (cases x; cases y) (auto simp: is_finite_js_def is_finite_num_def over_def)
  have posts: "\<not> (\<not> is_integer_js x \<or> \<not> is_integer_js y \<or> \<not> over y x) \<longleftrightarrow>
      (\<exists>m n :: int. x = JNum (Fin (of_int m)) \<and> y = JNum (Fin (of_int n)) \<and> m < n)" for x y
    by (cases x; cases y) (auto simp: is_integer_js_def over_def dest!: is_integer_num_cases)
  have flag: "truthy (is_true x) \<longleftrightarrow> x = JBool True" for x by (simp add: is_true_def truthy_def)
  have "allows out \<longleftrightarrow> fst (evaluateAutopilot (autopilot_context v qa))" by (simp add: allows_def a autopilot_js_def)
  also have "\<dots> \<longleftrightarrow> truthy (is_true (get_prop v ''autoPilot'')) \<and> \<not> truthy (is_true (get_prop v ''killSwitch'')) \<and>
      \<not> num_lt (Fin (of_int (qa_score qa))) (Fin 90) \<and> truthy (is_true (get_prop v ''platformPermitted'')) \<and>
      \<not> (\<not> is_finite_js (JNum (js_number (get_prop v ''estimatedCost''))) \<or>
         \<not> is_finite_js (JNum (js_number (get_prop v ''remainingBudget''))) \<or>
         over (JNum (js_number (get_prop v ''estimatedCost''))) (JNum (js_number (get_prop v ''remainingBudget'')))) \<and>
      \<not> (\<not> is_integer_js (get_prop v ''postsInWindow'') \<or> \<not> is_integer_js (get_prop v ''postingFrequencyCap'') \<or>
         \<not> over (get_prop v ''postingFrequencyCap'') (get_prop v ''postsInWindow'')) \<and>
      truthy (is_true (get_prop v ''claimsSubstantiated'')) \<and> truthy (is_true (get_prop v ''copyrightCleared''))"
    unfolding autopilot_gates by (simp add: autopilot_context_def int_js_def is_finite_js_def is_finite_num_def)
  finally show ?thesis unfolding score cost posts flag using block by blast
qed

section \<open>A caption that was used before\<close>

lemma platform_captions_asset:
  "platform_captions E U n v aid tags body ps = Inr cs \<Longrightarrow> length cs = length ps \<and> (\<forall>c\<in>set cs. dc_asset_id c = aid)"
proof (induction ps arbitrary: n cs)
  case (Cons p ps)
  from Cons.prems show ?case unfolding platform_captions.simps Let_def
    by (elim bindR_E) (auto dest!: Cons.IH)
qed simp

lemma draft_pack:
  assumes "createDraftAssetPack E U n now v = Inr pack"
  obtains a where "pk_assets pack = media_assets E U n v @ [a]" and "da_id a = U (n + 3)"
    and "da_prompt_hash a = fe_hash E (get_prop v ''caption'')" and "\<forall>c\<in>set (pk_captions pack). dc_asset_id c = U (n + 3)"
    and "get_prop v ''platforms'' = JArr [] \<or> pk_captions pack \<noteq> []"
proof -
  let ?goal = "\<exists>a. pk_assets pack = media_assets E U n v @ [a] \<and> da_id a = U (n + 3) \<and>
    da_prompt_hash a = fe_hash E (get_prop v ''caption'') \<and> (\<forall>c\<in>set (pk_captions pack). dc_asset_id c = U (n + 3)) \<and>
    (get_prop v ''platforms'' = JArr [] \<or> pk_captions pack \<noteq> [])"
  from assms have ?goal
    unfolding createDraftAssetPack_def Let_def
  proof (elim bindR_E)
    fix u1 tags hashtags title w platforms captions
    assume "read_prop v ''platforms'' = Inr w" and "as_array w = Inr platforms"
      and c: "platform_captions E U (n + 4) v (U (n + 3)) hashtags (caption_text E (get_prop v ''caption'') hashtags) platforms = Inr captions"
      and pk: "Inr \<lparr>pk_id = U (n + 4 + length platforms), pk_brand = get_prop v ''brand'',
          pk_idea = carry (get_prop v ''idea'') [(''status'', JStr ''selected''), (''version'', int_js 1)],
          pk_assets = media_assets E U n v @
            [(baseAsset (U (n + 3)) ''caption'' (fe_hash E (get_prop v ''caption'')))
               \<lparr>da_spec := get_prop v ''caption'', da_provenance := [(''source_idea'', title)]\<rparr>],
          pk_captions = captions, pk_created_at = to_iso now\<rparr> = Inr pack"
    then have "get_prop v ''platforms'' = JArr platforms"
      by (auto simp: read_prop_def as_array_def split: if_splits js.splits)
    with platform_captions_asset [OF c] pk show ?goal by (auto simp: baseAsset_def)
  qed
  then show ?thesis using that by blast
qed

lemma persist_asset_keeps:
  assumes "a0 \<in> set (fx_assets d)" and "i \<notin> as_id ` set (fx_assets d)"
    and "da_id a \<noteq> i \<or> da_prompt_hash a = as_prompt_hash a0 \<and> as_version a0 = 1 \<and> uuid_param E b = Inr (Some (as_brand a0))"
  shows "a0 \<in> set (fx_assets (fst (persist_asset E b idea a d))) \<and> i \<notin> as_id ` set (fx_assets (fst (persist_asset E b idea a d))) \<and>
    fx_captions (fst (persist_asset E b idea a d)) = fx_captions d"
  using assms by (auto simp: persist_asset_def andThen_def lift_def insert_asset_def required_def list_ex_iff split: sum.split option.split)

lemma transaction_isl: "isl (snd (f d)) \<Longrightarrow> \<exists>e. transaction f d = (d, Inl e)"
  by (cases "f d") (auto simp: transaction_def isl_def)

lemma persist_caption_orphan:
  assumes "dc_asset_id c \<notin> as_id ` set (fx_assets d)" and "dc_asset_id c \<notin> ca_asset ` set (fx_captions d)"
  shows "isl (snd (persist_caption E b c d))"
  using assms by (auto simp: persist_caption_def andThen_def lift_def insert_caption_def list_ex_iff image_iff split: sum.split)

text \<open>
  C40: When an asset of the brand with the same caption text is stored already, the caption step of a run fails and
  writes nothing: the insert of the caption asset is skipped for the conflict, and the captions refer to the
  id that was not inserted.
\<close>

theorem reused_caption_fails:
  assumes "a0 \<in> set (fx_assets d)" and "as_version a0 = 1"
    and "as_prompt_hash a0 = fe_hash E (get_prop (wt_input s) ''caption'')"
    and "uuid_param E (get_prop (wt_input s) ''brandId'') = Inr (Some (as_brand a0))"
    and "get_prop (wt_input s) ''platforms'' \<noteq> JArr []" and "inj U"
    and "U (fx_fresh d + 3) \<notin> as_id ` set (fx_assets d)" and "U (fx_fresh d + 3) \<notin> ca_asset ` set (fx_captions d)"
  shows "isl (snd (caption_handler E U now r s d)) \<and> fx_assets (fst (caption_handler E U now r s d)) = fx_assets d \<and>
    fx_captions (fst (caption_handler E U now r s d)) = fx_captions d"
proof (cases "M05_CAPTION E U (fx_fresh d) now (wt_input s)")
  case (Inl e)
  then show ?thesis by (simp add: caption_handler_def lift_def)
next
  case (Inr po)
  obtain pack out where po: "po = (pack, out)" by (cases po)
  let ?n = "fx_fresh d" and ?v = "wt_input s"
  let ?i = "U (?n + 3)" and ?b = "get_prop ?v ''brandId''" and ?idea = "get_prop (get_prop ?v ''idea'') ''id''"
  have "createDraftAssetPack E U ?n now ?v = Inr pack"
    using Inr unfolding po M05_CAPTION_def by (elim bindR_E) simp
  then obtain a where a: "pk_assets pack = media_assets E U ?n ?v @ [a]" "da_id a = ?i"
      "da_prompt_hash a = fe_hash E (get_prop ?v ''caption'')" "\<forall>c\<in>set (pk_captions pack). dc_asset_id c = ?i"
      "get_prop ?v ''platforms'' = JArr [] \<or> pk_captions pack \<noteq> []" by (rule draft_pack)
  have media: "da_id m \<noteq> ?i" if "m \<in> set (media_assets E U ?n ?v)" for m
    using that inj_eq [OF assms(6)] by (auto simp: media_assets_def Let_def baseAsset_def)
  let ?I = "\<lambda>x :: fx_db. a0 \<in> set (fx_assets x) \<and> ?i \<notin> as_id ` set (fx_assets x) \<and> fx_captions x = fx_captions d"
  let ?d = "d\<lparr>fx_fresh := ?n + 5 + length (pk_captions pack)\<rparr>"
  have i: "?I (fst (for_each (persist_asset E ?b ?idea) (pk_assets pack) ?d))"
  proof (rule for_each_inv [where P = ?I])
    fix m x assume m: "m \<in> set (pk_assets pack)" and x: "?I x"
    have "da_id m \<noteq> ?i \<or> da_prompt_hash m = as_prompt_hash a0 \<and> as_version a0 = 1 \<and> uuid_param E ?b = Inr (Some (as_brand a0))"
      using m media assms(2-4) a(1-3) by auto
    from persist_asset_keeps [OF _ _ this] x show "?I (fst (persist_asset E ?b ?idea m x))" by auto
  qed (use assms in simp)
  obtain c cs where cs: "pk_captions pack = c # cs" using a(5) assms(5) by (cases "pk_captions pack") auto
  have "isl (snd (andThen (for_each (persist_asset E ?b ?idea) (pk_assets pack) ?d)
      (\<lambda>x _. for_each (persist_caption E ?b) (pk_captions pack) x)))"
  proof (cases "for_each (persist_asset E ?b ?idea) (pk_assets pack) ?d")
    case (Pair x res)
    with i have "?i \<notin> as_id ` set (fx_assets x)" "?i \<notin> ca_asset ` set (fx_captions x)" using assms(8) by simp_all
    with a(4) cs have "isl (snd (persist_caption E ?b c x))" by (intro persist_caption_orphan) simp_all
    then have "isl (snd (for_each (persist_caption E ?b) (pk_captions pack) x))"
      unfolding cs by (auto simp: andThen_def isl_def split: prod.split sum.split)
    then show ?thesis unfolding Pair by (cases res) simp_all
  qed
  then obtain e where "persistAssetPack E ?b ?idea pack ?d = (?d, Inl e)"
    unfolding persistAssetPack_def
    using transaction_isl [where d = ?d and f = "\<lambda>x. andThen (for_each (persist_asset E ?b ?idea) (pk_assets pack) x)
      (\<lambda>x _. for_each (persist_caption E ?b) (pk_captions pack) x)"] by blast
  then have "caption_handler E U now r s d = (?d, Inl e)" by (simp add: caption_handler_def Inr po lift_def)
  then show ?thesis by simp
qed

section \<open>The requests of the service\<close>

text \<open>What the service does for a request is a series of events as the properties above allow them.\<close>

lemma start_factory_events:
  assumes "history U (service_handlers E U) worker x0 es s" and "distinct (map fst input)"
  shows "\<exists>es'. history U (service_handlers E U) worker x0 (es' @ es) (start_factory E U worker b input key rq s) \<and>
    (\<forall>e\<in>set es'. factory_event e)"
proof -
  let ?H = "service_handlers E U"
  have body: "factory_event (Start wid (factory_body input key rq) key True)" for wid
    using distinct_spread [OF assms(2)] by (simp add: factory_event_def factory_body_def)
  have started: "\<exists>es'. history U ?H worker x0 (es' @ es) (serve U ?H worker (Start wid (factory_body input key rq) key True) t) \<and>
      (\<forall>e\<in>set es'. factory_event e)" if "history U ?H worker x0 (es0 @ es) t" "\<forall>e\<in>set es0. factory_event e" for wid t es0
    using history.step [OF that(1), of "Start wid (factory_body input key rq) key True"] that(2) body
    by (intro exI [of _ "Start wid (factory_body input key rq) key True # es0"]) simp
  show ?thesis
  proof (cases "rev (sort_key wd_version
             (filter (\<lambda>w. wd_brand w = b \<and> wd_name w = CANONICAL \<and> wd_active w) (db_workflows (sy_db s))))")
    case (Cons w ws)
    have "with_db (sy_db s) s = s" by (simp add: with_db_def)
    with Cons started [of "[]" s] assms(1) show ?thesis by (simp add: start_factory_def definitionFor_def)
  next
    case Nil
    obtain d res where c: "createDefinition U b CANONICAL FACTORY_STEPS (sy_db s) = (d, res)" by fastforce
    have h: "history U ?H worker x0 ([Define b CANONICAL FACTORY_STEPS] @ es) (with_db d s)"
      using history.step [OF assms(1), of "Define b CANONICAL FACTORY_STEPS"] c by (simp add: serve_def)
    have f: "\<forall>e\<in>set [Define b CANONICAL FACTORY_STEPS]. factory_event e" by (simp add: factory_event_def)
    from Nil c have eq: "start_factory E U worker b input key rq s =
        (case res of Inl _ \<Rightarrow> with_db d s | Inr w \<Rightarrow> serve U ?H worker (Start (wd_id w) (factory_body input key rq) key True) (with_db d s))"
      by (simp add: start_factory_def definitionFor_def split: sum.split)
    show ?thesis
    proof (cases res)
      case (Inl e)
      then have "start_factory E U worker b input key rq s = with_db d s" using eq by simp
      then show ?thesis by (metis h f)
    next
      case (Inr w)
      then have "start_factory E U worker b input key rq s =
          serve U ?H worker (Start (wd_id w) (factory_body input key rq) key True) (with_db d s)" using eq by simp
      then show ?thesis by (metis started [OF h f])
    qed
  qed
qed

lemma approve_factory_event:
  assumes "refuse_approval role (JStr decision) = None"
  shows "factory_event (Resume rid ''APPROVAL'' (approval_body decision actor))"
proof -
  from assms have "factory_decision decision \<noteq> None"
    by (auto simp: refuse_approval_def factory_decision_def split: if_splits)
  then show ?thesis by (simp only: factory_event_def wf_event.case) blast
qed

text \<open>A request to start a run may carry the approval of the run it starts: the schema lets the member pass.\<close>

lemma request_may_approve:
  assumes "factoryRunSchema is_uuid body"
  shows "factoryRunSchema is_uuid (map_set body ''approvalDecision'' (JStr ''approved''))"
    and "approved_input (JObj (map_set body ''approvalDecision'' (JStr ''approved'')))"
proof -
  have "get_prop (JObj (map_set body k x)) f = (if f = k then x else get_prop (JObj body) f)" for k x f
    using map_get_set [of body k x f] by (simp add: map_get_def)
  then show "factoryRunSchema is_uuid (map_set body ''approvalDecision'' (JStr ''approved''))"
    and "approved_input (JObj (map_set body ''approvalDecision'' (JStr ''approved'')))"
    using assms by (simp_all add: factoryRunSchema_def approved_input_def Let_def del: get_prop_simps(7))
qed

section \<open>Runs that show that the hypotheses can hold\<close>

definition demo_env :: factory_env where
  "demo_env =
     \<lparr>fe_hash = (\<lambda>_. ''h''), fe_decimal = (\<lambda>_. []), fe_isValidZone = (\<lambda>_. True), fe_fromISO = (\<lambda>_ _. None),
      fe_kill = (\<lambda>_. False), fe_uuid = Some, fe_numeric = (\<lambda>v. case v of JNum n \<Rightarrow> Inr n | _ \<Rightarrow> Inl ''22P02''),
      fe_text = (\<lambda>_. [])\<rparr>"

definition demo_asset :: asset_row where
  "demo_asset =
     \<lparr>as_id = ''a'', as_brand = ''b'', as_idea = None, as_type = ''image'', as_prompt_hash = ''h'', as_seed = None,
      as_lufs = JUndef, as_aspect_ratio = None, as_tags = JArr [], as_score = None, as_status = AsReview,
      as_version = 1, as_provenance = JObj []\<rparr>"

definition demo_tables :: fx_db where
  "demo_tables =
     \<lparr>fx_fresh = 0, fx_brands = [''b''], fx_users = [], fx_ideas = [], fx_assets = [demo_asset], fx_captions = [],
      fx_approvals = [], fx_posts = [], fx_publications = [], fx_keys = [], fx_audit = []\<rparr>"

definition demo_qa :: js where
  "demo_qa = JObj [(''score'', int_js 92), (''breakdown'', JArr []), (''reasons'', JArr []), (''remediation'', JArr [])]"

definition demo_body :: "(string \<times> js) list" where
  "demo_body =
     [(''brandId'', JStr ''b''), (''platform'', JStr ''facebook''), (''requestId'', JStr ''q''),
      (''factoryCommandKey'', JStr ''k''), (''completedModules'', JArr []), (''qa'', demo_qa),
      (''approvalDecision'', JStr ''approved''),
      (''assetPack'', JObj [(''assets'', JArr [JObj [(''id'', JStr ''a''), (''type'', JStr ''image'')]])]),
      (''caption'', JObj [(''hook'', JStr ''hook''), (''hashtags'', JArr [])])]"

abbreviation demo_artifact :: js where
  "demo_artifact \<equiv> JObj demo_body"

definition one_step :: "string \<Rightarrow> step_spec list" where
  "one_step key = [\<lparr>sx_key = key, sx_owner = ''o'', sx_timeoutMs = None, sx_maxAttempts = None\<rparr>]"

definition factory_after :: "wf_event list \<Rightarrow> fx_db system" where
  "factory_after es = foldr (serve demo_id (service_handlers demo_env demo_id) ''w'') es (boot 0 demo_tables)"

lemma factory_after_history: "history demo_id (service_handlers demo_env demo_id) ''w'' demo_tables es (factory_after es)"
  by (induction es) (auto simp: factory_after_def intro: history.intros)

text \<open>One run approves the asset, another one publishes it.\<close>

definition demo_requests :: "wf_event list" where
  "demo_requests =
     [Start (demo_id 1) demo_body ''k2'' True, Start (demo_id 0) demo_body ''k1'' True,
      Define ''b'' ''publish'' (one_step ''M06_PUBLISH''), Define ''b'' ''approve'' (one_step ''APPROVAL'')]"

definition demo_publication :: "wf_event list" where
  "demo_publication = replicate 4 (Move 1) @ replicate 4 (Move 0) @ demo_requests"

definition demo_run_row :: "nat \<Rightarrow> nat \<Rightarrow> string \<Rightarrow> wf_run" where
  "demo_run_row n w key =
     \<lparr>wr_id = demo_id n, wr_workflow = demo_id w, wr_status = RnRunning, wr_input = demo_artifact, wr_output = JObj [],
      wr_cost = 0, wr_startedAt = 0, wr_finishedAt = None, wr_createdAt = 0, wr_commandKey = key,
      wr_traceId = JStr (demo_id (Suc n))\<rparr>"

definition demo_step_row :: "nat \<Rightarrow> string \<Rightarrow> wf_step" where
  "demo_step_row n key =
     \<lparr>wt_id = demo_id (n + 2), wt_run = demo_id n, wt_key = key, wt_owner = ''o'', wt_status = StQueued, wt_attempt = 0,
      wt_input = demo_artifact, wt_output = JObj [], wt_error = None, wt_timeoutMs = 120000, wt_maxAttempts = 3,
      wt_availableAt = 0, wt_worker = None, wt_heartbeatAt = None, wt_cost = 0,
      wt_idempotencyKey = demo_id n @ '':'' @ key, wt_order = 0\<rparr>"

definition demo_db :: wf_db where
  "demo_db =
     \<lparr>db_now = 0, db_fresh = 8,
      db_workflows = [new_workflow (demo_id 0) ''b'' ''approve'' (one_step ''APPROVAL''),
                      new_workflow (demo_id 1) ''b'' ''publish'' (one_step ''M06_PUBLISH'')],
      db_runs = [demo_run_row 2 0 ''k1'', demo_run_row 5 1 ''k2''],
      db_steps = [demo_step_row 2 ''APPROVAL'', demo_step_row 5 ''M06_PUBLISH''], db_spans = []\<rparr>"

lemma demo_id_eq [simp]: "demo_id m = demo_id n \<longleftrightarrow> m = n"
  using inj_demo_id by (auto dest: injD)

lemma demo_image: "json_image demo_artifact = demo_artifact"
  by (simp add: demo_body_def demo_qa_def int_js_def is_finite_num_def)

lemma demo_members:
  "get_prop demo_artifact ''traceId'' = JUndef" "get_prop demo_artifact ''approvalDecision'' = JStr ''approved''"
  "get_prop demo_artifact ''qa'' = demo_qa" "get_prop demo_artifact ''approvalActorId'' = JUndef"
  "get_prop demo_artifact ''autopilot'' = JUndef" "get_prop demo_artifact ''blocked'' = JUndef"
  "get_prop demo_artifact ''slot'' = JUndef" "get_prop demo_artifact ''publicationKind'' = JUndef"
  "get_prop demo_artifact ''brandId'' = JStr ''b''" "get_prop demo_artifact ''platform'' = JStr ''facebook''"
  "get_prop demo_artifact ''requestId'' = JStr ''q''" "get_prop demo_artifact ''factoryCommandKey'' = JStr ''k''"
  "get_prop demo_artifact ''assetPack'' = JObj [(''assets'', JArr [JObj [(''id'', JStr ''a''), (''type'', JStr ''image'')]])]"
  "get_prop demo_artifact ''caption'' = JObj [(''hook'', JStr ''hook''), (''hashtags'', JArr [])]"
  "get_prop demo_artifact ''completedModules'' = JArr []"
  by (simp_all add: demo_body_def)

lemma demo_requests_state:
  "factory_after demo_requests = \<lparr>sy_world = \<lparr>fa_db = demo_db, fa_ext = demo_tables\<rparr>, sy_runners = [AtHead (demo_id 2), AtHead (demo_id 5)]\<rparr>"
  using demo_members(1) demo_image
  by (simp add: factory_after_def demo_requests_def serve_def with_db_def spawn_def boot_def empty_db_def createDefinition_def
      Let_def new_workflow_def one_step_def start_run_def transaction_def insert_run_def new_run_def insert_step_def
      new_step_def int4_def number_or_def step_conflict_def demo_db_def demo_run_row_def demo_step_row_def js_or_def truthy_def
      eval_nat_numeral del: json_image.simps get_prop_simps)

text \<open>The first four moves of a runner, up to its handler.\<close>

lemma first_moves:
  assumes "s = \<lparr>sy_world = \<lparr>fa_db = d, fa_ext = x\<rparr>, sy_runners = qs\<rparr>" and "i < length qs" and "qs ! i = AtHead rid"
    and "find (\<lambda>r. wr_id r = rid) (db_runs d) = Some r" and "wr_status r = RnRunning"
    and "claimNext (wr_id r) worker d = (d1, Some t)"
    and "startSpan U r t (JObj [(''attempt'', JNum (Fin (of_int (wt_attempt t))))]) d1 = (d2, Inr p)"
    and "H (wt_key t) = Some h" and "h (db_now d2) r t x = (x', res)"
  shows "foldr (serve U H worker) (replicate 4 (Move i)) s =
    \<lparr>sy_world = \<lparr>fa_db = d2, fa_ext = x'\<rparr>, sy_runners = qs[i := AtCommit r t (wp_id p) (verdict_of res)]\<rparr>"
  using assms
  by (simp add: eval_nat_numeral serve_def runner_move_def look_def ENDED_def claim_def trace_step_def handle_def)

definition demo_approval :: approval_row where
  "demo_approval =
     \<lparr>ap_id = demo_id 0, ap_asset = ''a'', ap_actor = None, ap_decision = DeApproved, ap_score = Some (Fin 92),
      ap_breakdown = JArr [], ap_reasons = JArr [], ap_remediation = JArr [], ap_createdAt = 0\<rparr>"

definition demo_approved :: fx_db where
  "demo_approved =
     demo_tables\<lparr>fx_fresh := 1, fx_assets := [demo_asset\<lparr>as_status := AsApproved\<rparr>], fx_approvals := [demo_approval]\<rparr>"

lemma demo_asset_ids: "asset_ids demo_artifact = Inr [JStr ''a'']"
  by (simp add: asset_ids_def read_prop_def is_nullish_def as_array_def demo_members del: get_prop_simps(7))
     (simp add: read_prop_def is_nullish_def)

lemma demo_approve:
  "approve_assets demo_env demo_id 0 [JStr ''a''] JNull demo_qa ''approved'' demo_tables = (demo_approved, Inr ())"
proof -
  have q: "read_prop demo_qa ''score'' = Inr (int_js 92)" "get_prop demo_qa ''breakdown'' = JArr []"
    "get_prop demo_qa ''reasons'' = JArr []" "get_prop demo_qa ''remediation'' = JArr []"
    by (simp_all add: demo_qa_def read_prop_def is_nullish_def)
  have p: "uuid_param demo_env (JStr ''a'') = Inr (Some ''a'')" "uuid_param demo_env JNull = Inr None"
    "numeric_param demo_env (int_js 92) = Inr (Some (Fin 92))"
    by (simp_all add: uuid_param_def numeric_param_def demo_env_def is_nullish_def int_js_def)
  have "approve_asset demo_env demo_id 0 JNull demo_qa DeApproved (JStr ''a'') demo_tables = (demo_approved, Inr ())"
    by (simp add: approve_asset_def q p lift_def add_approval_def required_def json_param_def insert_approval_def
        demo_tables_def demo_asset_def update_where_def demo_approved_def demo_approval_def)
  then show ?thesis by (simp add: approve_assets_def factory_decision_def transaction_def)
qed

lemma demo_approval_handler:
  assumes "wt_input t = demo_artifact"
  shows "fst (approval_handler demo_env demo_id 0 r t demo_tables) = demo_approved"
proof -
  let ?out = "carry demo_artifact [(''approval'', JObj [(''decision'', JStr ''approved''), (''approvedAt'', JStr (to_iso 0))])]"
  have a: "APPROVAL 0 demo_artifact = Inr ?out"
    by (simp add: APPROVAL_def read_prop_def is_nullish_def approved_input_def demo_members js_or_def truthy_def del: get_prop_simps(7))
  have b: "\<not> truthy (get_prop ?out ''blocked'')"
    by (simp add: carry_def members_def map_of_spread demo_body_def truthy_def)
  have c: "js_or JUndef JNull = JNull" by (simp add: js_or_def truthy_def)
  show ?thesis
    unfolding approval_handler_def Let_def assms lift_def a andThen_simps demo_asset_ids demo_members c
    using b demo_approve by simp
qed

definition demo_command :: publication_command where
  "demo_command =
     \<lparr>pc_brandId = JStr ''b'', pc_assetIds = [JStr ''a''], pc_platform = JStr ''facebook'', pc_kind = JStr ''image'',
      pc_caption = JStr ''hook'', pc_hashtags = JArr [], pc_slot = None\<rparr>"

lemma demo_publish_command: "publish_command demo_env demo_artifact None = Inr demo_command"
  unfolding publish_command_def Let_def read_path.simps
  by (simp add: read_prop_def is_nullish_def demo_members as_array_def strict_eq_def js_or_def truthy_def demo_command_def
      del: get_prop_simps(7)) (simp add: read_prop_def is_nullish_def strict_eq_def)

definition demo_caps :: "(string \<times> bool) list" where
  "demo_caps = [(''text'', True), (''image'', True), (''video'', True), (''delete'', True), (''metrics'', True)]"

lemma demo_provider: "provider_get demo_env (JStr ''facebook'') = Inr demo_caps"
proof -
  have "to_lower ''facebook'' = ''facebook''" by code_simp
  then show ?thesis
    by (simp add: provider_get_def provider_key_def js_or_def truthy_def CAPABILITIES_def Let_def demo_caps_def)
qed

definition demo_post :: post_row where
  "demo_post =
     \<lparr>po_id = demo_id 1, po_brand = ''b'', po_assets = [JStr ''a''], po_caption = ''hook'', po_hashtags = JArr [],
      po_platform = ''facebook'', po_slot = None, po_createdAt = 0\<rparr>"

definition demo_publication_row :: publication_row where
  "demo_publication_row =
     \<lparr>pu_id = demo_id 2, pu_post = demo_id 1, pu_provider = ''facebook'', pu_key = ''k:publish'', pu_createdAt = 0\<rparr>"

definition demo_response :: js where
  "demo_response = JObj [(''post'', post_js demo_post), (''publication'', publication_js demo_publication_row)]"

definition demo_published :: fx_db where
  "demo_published =
     demo_approved\<lparr>fx_fresh := 3, fx_posts := [demo_post], fx_publications := [demo_publication_row],
       fx_audit := [\<lparr>au_actor = None, au_resource = demo_id 2, au_request = ''q'', au_after = json_image demo_response\<rparr>],
       fx_keys := [\<lparr>ik_key = ''k:publish'', ik_scope = SCOPE, ik_hash = ''h'', ik_resource = Some (demo_id 2),
                    ik_response = Some (json_image demo_response)\<rparr>]\<rparr>"

definition demo_reserved :: fx_db where
  "demo_reserved =
     demo_approved\<lparr>fx_keys := [\<lparr>ik_key = ''k:publish'', ik_scope = SCOPE, ik_hash = ''h'', ik_resource = None,
                                ik_response = None\<rparr>]\<rparr>"

lemma demo_check: "check_assets demo_env demo_caps demo_command demo_reserved = Inr ()"
proof -
  have "publishable demo_reserved (demo_asset\<lparr>as_status := AsApproved\<rparr>)"
    by (simp add: publishable_def current_approval_def demo_reserved_def demo_approved_def demo_approval_def demo_asset_def)
  moreover have "fx_assets demo_reserved = [demo_asset\<lparr>as_status := AsApproved\<rparr>]"
    by (simp add: demo_reserved_def demo_approved_def)
  moreover have "the_ids demo_env [JStr ''a''] = Inr [''a'']"
    by (simp add: the_ids_def uuid_param_def is_nullish_def demo_env_def)
  moreover have "uuid_param demo_env (JStr ''b'') = Inr (Some ''b'')" by (simp add: uuid_param_def is_nullish_def demo_env_def)
  moreover have "capable demo_caps ''image''" by (simp add: capable_def demo_caps_def literal_lookup_def)
  ultimately show ?thesis
    by (simp add: check_assets_def demo_command_def demo_asset_def requested_kinds_def truthy_def)
qed

lemma demo_queue:
  "queue_publication demo_env demo_id 0 ''b'' demo_command ''k:publish'' (JStr ''q'') JNull demo_reserved = (demo_published, Inr demo_response)"
proof -
  have t: "text_param demo_env (JStr s) = Some s" for s by (simp add: text_param_def is_nullish_def)
  have u: "uuid_param demo_env JNull = Inr None" by (simp add: uuid_param_def is_nullish_def)
  have p: "\<lparr>po_id = demo_id (fx_fresh demo_reserved), po_brand = ''b'', po_assets = map json_image (pc_assetIds demo_command),
      po_caption = or_else (text_param demo_env (js_or (pc_caption demo_command) (JStr []))) [],
      po_hashtags = json_image (js_or (pc_hashtags demo_command) (JArr [])),
      po_platform = or_else (text_param demo_env (pc_platform demo_command)) [], po_slot = pc_slot demo_command,
      po_createdAt = 0\<rparr> = demo_post"
    by (simp add: demo_post_def demo_command_def demo_reserved_def demo_approved_def js_or_def truthy_def t)
  have q: "\<lparr>pu_id = demo_id (fx_fresh demo_reserved + 1), pu_post = po_id demo_post, pu_provider = po_platform demo_post,
      pu_key = ''k:publish'', pu_createdAt = 0\<rparr> = demo_publication_row"
    by (simp add: demo_publication_row_def demo_post_def demo_reserved_def demo_approved_def eval_nat_numeral)
  show ?thesis
    unfolding queue_publication_def Let_def p q demo_response_def [symmetric]
    by (simp add: insert_post_def insert_publication_def lift_def u t required_def insert_audit_def update_where_def
        demo_reserved_def demo_approved_def demo_tables_def demo_published_def demo_post_def demo_publication_row_def
        del: json_image.simps)
qed

lemma demo_create:
  "createApproved demo_env demo_id 0 demo_command ''k:publish'' (JStr ''q'') JNull demo_approved = (demo_published, Inr demo_response)"
proof -
  have k: "fx_keys demo_approved = []" by (simp add: demo_approved_def demo_tables_def)
  have h: "fe_hash demo_env = (\<lambda>_. ''h'')" by (simp add: demo_env_def)
  have b: "uuid_param demo_env (pc_brandId demo_command) = Inr (Some ''b'')"
    by (simp add: uuid_param_def is_nullish_def demo_env_def demo_command_def)
  have r: "demo_approved\<lparr>fx_keys := [\<lparr>ik_key = ''k:publish'', ik_scope = SCOPE, ik_hash = ''h'', ik_resource = None,
      ik_response = None\<rparr>]\<rparr> = demo_reserved" by (simp only: demo_reserved_def)
  have "reserve_and_queue demo_env demo_id 0 demo_caps demo_command ''k:publish'' (JStr ''q'') JNull demo_approved
      = (demo_published, Inr demo_response)"
    by (simp add: reserve_and_queue_def Let_def k h r lift_def demo_check b required_def demo_queue)
  moreover have "pc_platform demo_command = JStr ''facebook''" "pc_assetIds demo_command \<noteq> []"
    by (simp_all add: demo_command_def)
  ultimately show ?thesis
    by (simp add: createApproved_def lift_def demo_provider truthy_def transaction_def)
qed

lemma demo_publish_handler:
  assumes "wt_input t = demo_artifact"
  shows "fst (publish_handler demo_env demo_id 0 r t demo_approved) = demo_published"
proof -
  have s: "publish_slot demo_env 0 demo_artifact = Inr None"
    by (simp add: publish_slot_def demo_env_def read_prop_def is_nullish_def demo_members truthy_def del: get_prop_simps(7))
  have "publish demo_env demo_id 0 demo_artifact None demo_approved = (demo_published, Inr demo_response)"
    using demo_create
    by (simp add: publish_def lift_def demo_publish_command demo_members js_or_def truthy_def del: get_prop_simps(7))
  then show ?thesis unfolding publish_handler_def assms by (simp add: lift_def s)
qed

lemma demo_publication_state:
  "fa_ext (sy_world (factory_after demo_publication)) = demo_published"
proof -
  let ?H = "service_handlers demo_env demo_id"
  let ?s = "factory_after demo_requests"
  let ?claim = "\<lambda>t. t\<lparr>wt_status := StRunning, wt_worker := Some ''w'', wt_heartbeatAt := Some 0, wt_attempt := 1\<rparr>"
  let ?t1 = "?claim (demo_step_row 2 ''APPROVAL'')" and ?t2 = "?claim (demo_step_row 5 ''M06_PUBLISH'')"
  let ?d1 = "demo_db\<lparr>db_steps := [?t1, demo_step_row 5 ''M06_PUBLISH'']\<rparr>"
  have H: "?H ''APPROVAL'' = Some (approval_handler demo_env demo_id)" "?H ''M06_PUBLISH'' = Some (publish_handler demo_env demo_id)"
    by (simp_all add: service_handlers_def)
  obtain x1 res1 where h1: "approval_handler demo_env demo_id 0 (demo_run_row 2 0 ''k1'') ?t1 demo_tables = (x1, res1)" by fastforce
  have x1: "x1 = demo_approved"
    using demo_approval_handler [of ?t1 "demo_run_row 2 0 ''k1''"] h1 by (simp add: demo_step_row_def)
  obtain d2 p1 where sp1: "startSpan demo_id (demo_run_row 2 0 ''k1'') ?t1 (JObj [(''attempt'', JNum (Fin (of_int (wt_attempt ?t1))))]) ?d1 = (d2, Inr p1)"
    and d2: "db_now d2 = 0" "db_runs d2 = db_runs demo_db" "db_steps d2 = db_steps ?d1" "db_fresh d2 = 9" "map wp_id (db_spans d2) = [demo_id 8]"
    by (simp add: startSpan_def Let_def demo_db_def)
  have "foldr (serve demo_id ?H ''w'') (replicate 4 (Move 0)) ?s =
      \<lparr>sy_world = \<lparr>fa_db = d2, fa_ext = x1\<rparr>,
       sy_runners = [AtHead (demo_id 2), AtHead (demo_id 5)][0 := AtCommit (demo_run_row 2 0 ''k1'') ?t1 (wp_id p1) (verdict_of res1)]\<rparr>"
  proof (rule first_moves [OF demo_requests_state])
    show "find (\<lambda>r. wr_id r = demo_id 2) (db_runs demo_db) = Some (demo_run_row 2 0 ''k1'')"
      by (simp add: demo_db_def demo_run_row_def)
    show "claimNext (wr_id (demo_run_row 2 0 ''k1'')) ''w'' demo_db = (?d1, Some ?t1)"
      by (simp add: claimNext_def demo_db_def steps_of_def demo_step_row_def demo_run_row_def claimable_def claimed_def
          artifact_def previous_output_def update_where_def Let_def)
    show "?H (wt_key ?t1) = Some (approval_handler demo_env demo_id)" using H by (simp add: demo_step_row_def)
    show "approval_handler demo_env demo_id (db_now d2) (demo_run_row 2 0 ''k1'') ?t1 demo_tables = (x1, res1)" using h1 d2(1) by simp
    show "startSpan demo_id (demo_run_row 2 0 ''k1'') ?t1 (JObj [(''attempt'', JNum (Fin (of_int (wt_attempt ?t1))))]) ?d1 = (d2, Inr p1)"
      by (rule sp1)
  qed (simp_all add: demo_run_row_def)
  then have s1: "foldr (serve demo_id ?H ''w'') (replicate 4 (Move 0)) ?s =
      \<lparr>sy_world = \<lparr>fa_db = d2, fa_ext = demo_approved\<rparr>,
       sy_runners = [AtCommit (demo_run_row 2 0 ''k1'') ?t1 (wp_id p1) (verdict_of res1), AtHead (demo_id 5)]\<rparr>"
    by (simp add: x1)
  let ?d3 = "d2\<lparr>db_steps := [?t1, ?t2]\<rparr>"
  obtain x2 res2 where h2: "publish_handler demo_env demo_id 0 (demo_run_row 5 1 ''k2'') ?t2 demo_approved = (x2, res2)" by fastforce
  have x2: "x2 = demo_published"
    using demo_publish_handler [of ?t2 "demo_run_row 5 1 ''k2''"] h2 by (simp add: demo_step_row_def)
  have "wp_id ` set (db_spans d2) = {demo_id 8}" using arg_cong [OF d2(5), of set] by simp
  then obtain d4 p2 where sp2: "startSpan demo_id (demo_run_row 5 1 ''k2'') ?t2 (JObj [(''attempt'', JNum (Fin (of_int (wt_attempt ?t2))))]) ?d3 = (d4, Inr p2)"
    and d4: "db_now d4 = 0"
    using d2 by (auto simp: startSpan_def Let_def list_ex_iff)
  have "foldr (serve demo_id ?H ''w'') (replicate 4 (Move 1)) (foldr (serve demo_id ?H ''w'') (replicate 4 (Move 0)) ?s) =
      \<lparr>sy_world = \<lparr>fa_db = d4, fa_ext = x2\<rparr>,
       sy_runners = [AtCommit (demo_run_row 2 0 ''k1'') ?t1 (wp_id p1) (verdict_of res1), AtHead (demo_id 5)]
         [1 := AtCommit (demo_run_row 5 1 ''k2'') ?t2 (wp_id p2) (verdict_of res2)]\<rparr>"
  proof (rule first_moves [OF s1])
    show "find (\<lambda>r. wr_id r = demo_id 5) (db_runs d2) = Some (demo_run_row 5 1 ''k2'')"
      by (simp add: d2 demo_db_def demo_run_row_def)
    show "claimNext (wr_id (demo_run_row 5 1 ''k2'')) ''w'' d2 = (?d3, Some ?t2)"
      by (simp add: claimNext_def d2 demo_db_def steps_of_def demo_step_row_def demo_run_row_def claimable_def claimed_def
          artifact_def previous_output_def update_where_def Let_def)
    show "?H (wt_key ?t2) = Some (publish_handler demo_env demo_id)" using H by (simp add: demo_step_row_def)
    show "publish_handler demo_env demo_id (db_now d4) (demo_run_row 5 1 ''k2'') ?t2 demo_approved = (x2, res2)" using h2 d4 by simp
    show "startSpan demo_id (demo_run_row 5 1 ''k2'') ?t2 (JObj [(''attempt'', JNum (Fin (of_int (wt_attempt ?t2))))]) ?d3 = (d4, Inr p2)"
      by (rule sp2)
  qed (simp_all add: demo_run_row_def)
  then show ?thesis by (simp add: factory_after_def demo_publication_def x2)
qed


theorem posts_once_witness:
  "books (fa_ext (sy_world (factory_after demo_publication))) \<and>
   map pu_key (fx_publications (fa_ext (sy_world (factory_after demo_publication)))) = [''k:publish'']"
proof
  show "books (fa_ext (sy_world (factory_after demo_publication)))"
    by (rule posts_once [OF factory_after_history]) (simp_all add: demo_tables_def)
  show "map pu_key (fx_publications (fa_ext (sy_world (factory_after demo_publication)))) = [''k:publish'']"
    unfolding demo_publication_state by (simp add: demo_published_def demo_publication_row_def)
qed

theorem publication_idempotent_witness:
  "\<exists>again. createApproved demo_env demo_id 9 demo_command ''k:publish'' (JStr ''z'') JNull demo_published
       = (demo_published, Inr again) \<and> json_image again = json_image demo_response"
  by (rule publication_idempotent [OF demo_create]) (simp add: truthy_def)

definition demo_checked :: js where
  "demo_checked =
     JObj [(''qaChecks'', JObj (map (\<lambda>k. (k, JObj [(''passed'', JBool (k \<noteq> ''alt_text''))])) DIMENSIONS)),
           (''autoPilot'', JBool True), (''platformPermitted'', JBool True), (''claimsSubstantiated'', JBool True),
           (''copyrightCleared'', JBool True), (''estimatedCost'', int_js 1), (''remainingBudget'', int_js 2),
           (''postsInWindow'', int_js 0), (''postingFrequencyCap'', int_js 3), (''completedModules'', JArr [])]"

theorem autopilot_allowed_iff_witness:
  "\<exists>qa out. M10_QA demo_checked = Inr (qa, out) \<and> allows out \<and> qa_route qa \<noteq> ''block''"
proof -
  let ?c = "get_prop demo_checked ''qaChecks''"
  have f: "failed_checks ?c = 1" by (simp add: failed_checks_def demo_checked_def DIMENSIONS_def)
  have "truthy ?c" by (simp add: demo_checked_def truthy_def)
  moreover have "\<not> list_ex (\<lambda>k. \<not> truthy (get_prop ?c k)) DIMENSIONS"
    by (simp add: demo_checked_def DIMENSIONS_def truthy_def)
  ultimately obtain qa where "evaluateArtifact ?c (get_prop demo_checked ''autoPilot'' = JBool True) = Inr qa"
    unfolding evaluateArtifact_def Let_def by simp
  moreover have "read_prop demo_checked ''qaChecks'' = Inr ?c" by (simp add: read_prop_def is_nullish_def demo_checked_def)
  moreover have "completed (get_prop demo_checked ''completedModules'') ''M10'' = Inr (JArr [JStr ''M10''])"
    by (simp add: demo_checked_def completed_def iterated_def)
  ultimately obtain out where m: "M10_QA demo_checked = Inr (qa, out)" by (simp add: M10_QA_def)
  have "allows out"
    unfolding autopilot_allowed_iff [OF m, THEN conjunct1] f
    by (simp add: demo_checked_def int_js_def)
  moreover have "qa_route qa \<noteq> ''block''"
    unfolding autopilot_allowed_iff [OF m, THEN conjunct2] f by simp
  ultimately show ?thesis using m by blast
qed

definition demo_spec :: js where
  "demo_spec =
     JObj [(''brandId'', JStr ''b''), (''platforms'', JArr [JStr ''facebook'']), (''idea'', JObj [(''title'', JStr ''t'')]),
           (''image'', JObj [(''prompt'', JStr ''p''), (''aspectRatio'', JStr ''4:5'')]),
           (''video'', JObj [(''shots'', JArr [JObj [(''start'', int_js 0), (''end'', int_js 5)]])]),
           (''audio'', JObj [(''license'', JStr ''generated''), (''lufs'', int_js (- 14)), (''bpm'', int_js 100)]),
           (''caption'', JObj [(''hook'', JStr ''h''), (''cta'', JStr ''c''), (''body'', JStr ''b''), (''hashtags'', JArr [])]),
           (''completedModules'', JArr [])]"

definition demo_caption_step :: wf_step where
  "demo_caption_step = (demo_step_row 0 ''M05_CAPTION'')\<lparr>wt_input := demo_spec\<rparr>"

theorem reused_caption_fails_witness:
  "(\<exists>po. M05_CAPTION demo_env demo_id 0 0 demo_spec = Inr po) \<and>
   isl (snd (caption_handler demo_env demo_id 0 (demo_run_row 0 0 ''k'') demo_caption_step demo_tables)) \<and>
   fx_assets (fst (caption_handler demo_env demo_id 0 (demo_run_row 0 0 ''k'') demo_caption_step demo_tables)) = [demo_asset]"
proof -
  have c: "check_media demo_spec = Inr ()"
    by (simp add: check_media_def demo_spec_def read_prop_def is_nullish_def guard_def ASPECT_RATIOS_def outside_def
        int_js_def invalid_shots_def bad_shot_def truthy_def)
  have "\<exists>cs. platform_captions demo_env demo_id 4 demo_spec i [] (caption_text demo_env (get_prop demo_spec ''caption'') []) [JStr ''facebook''] = Inr cs" for i
  proof -
    have "literal_lookup CAPTION_LIMITS ''facebook'' = Own 63206" by (simp add: literal_lookup_def CAPTION_LIMITS_def)
    moreover have "length (caption_text demo_env (get_prop demo_spec ''caption'') []) \<le> 9"
      using js_trim_length by (simp add: caption_text_def demo_spec_def newline_def Let_def) (rule order_trans, rule js_trim_length, simp)
    ultimately show ?thesis by (simp add: Let_def guard_def too_long_def)
  qed
  then obtain cs where cs: "platform_captions demo_env demo_id 4 demo_spec (demo_id 3) []
      (caption_text demo_env (get_prop demo_spec ''caption'') []) [JStr ''facebook''] = Inr cs" by blast
  have r: "read_path demo_spec [''caption'', ''hashtags''] = Inr (JArr [])" "read_path demo_spec [''idea'', ''title''] = Inr (JStr ''t'')"
    "read_prop demo_spec ''platforms'' = Inr (JArr [JStr ''facebook''])"
    "completed (get_prop demo_spec ''completedModules'') ''M05'' = Inr (JArr [JStr ''M05''])"
    by (simp_all add: demo_spec_def read_prop_def is_nullish_def completed_def iterated_def)
  have m: "\<exists>po. M05_CAPTION demo_env demo_id 0 0 demo_spec = Inr po"
    unfolding M05_CAPTION_def createDraftAssetPack_def Let_def c r bindR_simps as_array_def js.case
    by (simp only: add_0 cs r bindR_simps) blast
  have i: "wt_input demo_caption_step = demo_spec" by (simp add: demo_caption_step_def)
  have t: "fx_assets demo_tables = [demo_asset]" "fx_captions demo_tables = []" by (simp_all add: demo_tables_def)
  have "isl (snd (caption_handler demo_env demo_id 0 (demo_run_row 0 0 ''k'') demo_caption_step demo_tables)) \<and>
    fx_assets (fst (caption_handler demo_env demo_id 0 (demo_run_row 0 0 ''k'') demo_caption_step demo_tables)) = fx_assets demo_tables \<and>
    fx_captions (fst (caption_handler demo_env demo_id 0 (demo_run_row 0 0 ''k'') demo_caption_step demo_tables)) = fx_captions demo_tables"
  proof (rule reused_caption_fails [where ?a0.0 = demo_asset])
    show "uuid_param demo_env (get_prop (wt_input demo_caption_step) ''brandId'') = Inr (Some (as_brand demo_asset))"
      by (simp add: i demo_spec_def uuid_param_def is_nullish_def demo_env_def demo_asset_def)
    show "as_prompt_hash demo_asset = fe_hash demo_env (get_prop (wt_input demo_caption_step) ''caption'')"
      by (simp add: demo_asset_def demo_env_def)
    show "get_prop (wt_input demo_caption_step) ''platforms'' \<noteq> JArr []" by (simp add: i demo_spec_def)
    show "demo_id (fx_fresh demo_tables + 3) \<notin> as_id ` set (fx_assets demo_tables)"
      by (simp add: t demo_asset_def demo_id_def demo_tables_def eval_nat_numeral)
  qed (simp_all add: t inj_demo_id, simp add: demo_asset_def)
  with m t show ?thesis by simp
qed

end
