(* ===== verification/Spec2Isabelle.thy ===== *)
theory Spec2Isabelle
  imports OperatorProperties TaskGuarantees ActionGuarantees ProactiveGuarantees MemoryGuarantees PerceptionGuarantees
    SkillGuarantees WorkflowGuarantees FactoryGuarantees
begin

text \<open>
  A model of the control plane of zWorkforce: the code that decides what an agent may do,
  records that it did it, and stops it. The repository is a collection of packages; the
  parts modelled are those with a state and rules of their own.

  \<^bold>\<open>Operator runtime\<close> (\<open>packages/zeto/src\<close>). A session of the operator moves
  through sixteen states, writes an event for every change, and is served to browsers as a
  stream.
  \<^item> \<open>OperatorStateMachine\<close>: \<open>domain/operatorStateMachine.js\<close>, the pure transition
    function with its tables, guards, checkpoints and the pause policy.
  \<^item> \<open>OperatorEvents\<close>: \<open>domain/operatorEvents.js\<close>, the catalog and the builders.
  \<^item> \<open>OperatorRepository\<close>: \<open>repositories/operatorRepository.js\<close>, every query as a
    function of the tables (\<open>world\<close>), transactions included.
  \<^item> \<open>OperatorSequences\<close>: \<open>domain/operatorSequences.js\<close> and
    \<open>services/operatorSequenceExecutor.js\<close>, intents, references between steps, and the
    executor of one step.
  \<^item> \<open>OperatorRuntime\<close>: \<open>services/operatorRuntimeService.js\<close>, each method of the
    service, \<open>rt_step\<close> its requests as a step relation, and \<open>sendNewEvents\<close> of
    \<open>api/operatorV1.js\<close>.
  \<^item> \<open>OperatorStream\<close>: the text of an event on the wire, and \<open>public/js/operatorStream.js\<close>
    with the handler of \<open>public/js/zarvis.js\<close> that reads it.
  \<^item> \<open>OperatorInvariants\<close>, \<open>OperatorProperties\<close>: the invariant of the tables, kept by
    every request, and what follows: a session is always in a state the pure machine reaches,
    its log replays to its state, a stream delivers every event once and in order.

  \<^bold>\<open>Task gateway\<close> (\<open>packages/zarvis/services/zarvis-task-gateway\<close>). A plan of
  read-only tool calls is submitted, approved with a digest and a nonce, queued and run.
  \<^item> \<open>TaskPlan\<close>: validation and canonical form of a plan, grants, the plan worker
    (\<open>runtime.mjs\<close>).
  \<^item> \<open>TaskGateway\<close>: \<open>AgentOrchestrator\<close> (\<open>orchestrator-core.mjs\<close>) and
    \<open>ZarvisTaskRuntime\<close> (\<open>runtime.mjs\<close>) over a record of adapters; \<open>gw_step\<close> the
    routes of \<open>server.mjs\<close>.
  \<^item> \<open>TaskStores\<close>: the memory adapters and the file adapters (\<open>durable-adapters.mjs\<close>);
    the files refine the memory.
  \<^item> \<open>TaskProperties\<close>, \<open>TaskGuarantees\<close>: the locale \<open>task_adapters\<close> is the contract of
    the adapters, interpreted on both sets; the invariant of jobs and queue; approvals,
    attempts, idempotency, progress.

  \<^bold>\<open>Action gateway\<close> (\<open>packages/zarvis/services/zarvis-action-gateway\<close>). One reversible
  local mutation: previewed, approved, executed, rolled back, with an emergency stop.
  \<^item> \<open>Service\<close>: clock, id supply and store calls shared by the small services, and the
    canonical form of a hashed value.
  \<^item> \<open>ActionGateway\<close>: every method of \<open>runtime.mjs\<close>, and the pass of \<open>worker.mjs\<close>.
  \<^item> \<open>ActionStores\<close>: the memory and the file store of \<open>store.mjs\<close>.
  \<^item> \<open>ActionSpec\<close>: the promise as an abstract machine over log and preferences; legal logs
    and their history.
  \<^item> \<open>ActionProperties\<close>, \<open>ActionGuarantees\<close>: the locale \<open>action_stores\<close>, the refinement
    of the abstract machine by every method over any such store, and its consequences.

  \<^bold>\<open>Proactive scheduler\<close> (\<open>packages/zarvis/services/zarvis-proactive\<close>). Subscriptions are
  evaluated when due, and a signal is delivered, deferred or suppressed by the policy.
  \<^item> \<open>EventLog\<close>: the locale of an event log, what appending and reading promise, shared by
    the services that keep one.
  \<^item> \<open>Proactive\<close>: every method of \<open>runtime.mjs\<close>, the stores of \<open>store.mjs\<close>, the health
    adapter.
  \<^item> \<open>ProactiveSpec\<close>, \<open>ProactiveProperties\<close>, \<open>ProactiveGuarantees\<close>: what stands behind
    a delivery, quiet hours as an interval on the clock, the budget of a day, the settled
    state after a tick.

  \<^bold>\<open>Memory and perception\<close> (\<open>packages/zarvis/services/zarvis-memory\<close>, \<open>zarvis-perception\<close>).
  Personal facts are stored after a confirmation, media are analysed after a consent, both
  in an encrypted journal that is compacted when something is deleted.
  \<^item> \<open>Bytes\<close>, \<open>Media\<close>: base64 and the PNG and JPEG readers on words of eight bits, with
    termination of the marker loop and round trips.
  \<^item> \<open>Regex\<close>, \<open>Secrets\<close>: the patterns of both services over a backtracking matcher that is
    sound and complete for a declarative meaning.
  \<^item> \<open>EncryptedJournal\<close>: both \<open>crypto-store.mjs\<close> with a symbolic cipher; the locale
    \<open>journal_log\<close> extends \<open>event_log\<close> by compaction.
  \<^item> \<open>Memory\<close>, \<open>Perception\<close>: every method of the two \<open>runtime.mjs\<close>, whole for requests one
    after the other and split at the read for requests that overlap.
  \<^item> \<open>MemorySpec\<close>, \<open>MemoryProperties\<close>, \<open>MemoryGuarantees\<close> and the three of perception:
    consent behind everything stored, deletion and retention, and what overlapping requests
    break.

  \<^bold>\<open>Skill catalog\<close> (\<open>packages/zarvis/services/zarvis-orchestrator\<close>). Versions of a
  skill are registered, switched on and off, rolled back and updated automatically, and a
  request is executed by the version it resolves to.
  \<^item> \<open>JsSort\<close>: the stable sort of the language and the locale of a comparator.
  \<^item> \<open>SkillCatalog\<close>: every method of \<open>skill-catalog.mjs\<close>, and \<open>executeSkill\<close> of
    \<open>orchestrator.mjs\<close>.
  \<^item> \<open>SkillProperties\<close>, \<open>SkillGuarantees\<close>: the invariant of a catalog, which version
    resolves, what automatic updates may change, when a handler acts.

  \<^bold>\<open>Workflow engine\<close> (\<open>packages/zeto/src\<close>). A run of the content factory is a
  sequence of steps in a database; a runner claims one step after the other, calls its handler,
  and writes what came of it, while approvals, cancellations and other runners come in between.
  \<^item> \<open>Workflow\<close>: every method of \<open>repositories/workflowRepository.js\<close> with the constraints of
    its tables.
  \<^item> \<open>WorkflowRunner\<close>: the runner of \<open>domain/factoryWorkflow.js\<close>, one move per await, and the
    system of all runners and requests with its histories.
  \<^item> \<open>WorkflowProperties\<close>, \<open>WorkflowGuarantees\<close>: a run as a pipeline, what an event can change,
    status, cost and attempts, and that a runner returns.
  \<^item> \<open>WorkflowFlow\<close>: the locale \<open>artifact_flow\<close>, the contract of handlers that hand an artifact
    from step to step and write tables of their own, and what holds of both in every history.

  \<^bold>\<open>Content factory\<close> (\<open>packages/zeto/src\<close>). The ten steps the engine runs: an idea is
  compiled to a prompt, image, video, audio and caption are checked, the pack is stored and scored,
  approved by a person or by the autopilot, queued for publication once, and monitored.
  \<^item> \<open>FactoryDomain\<close>: \<open>domain/qaScorer.js\<close>, \<open>autopilotPolicy.js\<close>, \<open>promptCompiler.js\<close>,
    \<open>assetPackFactory.js\<close>, what the steps use of \<open>calendar.js\<close> and \<open>monitoring.js\<close>, and the
    handlers of \<open>factoryWorkflow.js\<close>.
  \<^item> \<open>FactoryStore\<close>: \<open>repositories/factoryRepository.js\<close> and \<open>publicationRepository.js\<close> with
    the constraints of their tables, \<open>providers/providerRegistry.js\<close> and what each provider can
    publish.
  \<^item> \<open>Factory\<close>: \<open>services/factoryWorkflowService.js\<close>, and the two requests of \<open>api/v1.js\<close> that
    start and approve a run. A handler, with all it writes, is one move of the runner.
  \<^item> \<open>FactoryProperties\<close>: what each handler changes in the artifact and in the tables; the
    interpretation of \<open>artifact_flow\<close> on the handlers of the service.
  \<^item> \<open>FactoryGuarantees\<close>: who approved a queued post, one publication per command key, the gates
    of the autopilot, and what a caption that was used before does to a run.

  \<open>Prelude\<close> and \<open>JsValue\<close> hold what all use: results and state-passing operations that
  keep the writes made before a throw, the rules for what holds after an operation
  (\<open>post\<close>), insertion ordered maps, and JavaScript values with their coercions.

  \<^bold>\<open>Conventions.\<close> A method is a function from a state to a state and a result: \<open>Inl\<close>
  what it throws, \<open>Inr\<close> what it returns. Methods are atomic: requests interleave between
  methods and never at an \<open>await\<close> inside one. The action gateway enforces this with its
  serial executor; for the operator and the task gateway it is an assumption; memory and
  perception have a second step relation in which what follows a read works on a log read
  at any time before, and the runners of the workflow engine interleave at every await. A method
  reads the clock once. Times are integers of milliseconds, and ISO texts are compared as
  the times they print. Strings have Latin-1 code units, numbers are exact rationals with
  \<open>NaN\<close> and the infinities. Loops run over lists and the
  service relations are inductive; the loop of a workflow runner is the only one with fuel,
  seven moves per step and two, which is shown to be enough.

  \<^bold>\<open>Parameters\<close> stand for code outside the repository: the random ids (a supply
  without repetition where a property needs that), SHA-256, the text of a number that is no
  integer, the GitHub call of the plan worker, the calendar of a time zone, the decoder of
  UTF-8, the zod contracts of the operator API, the
  byte size of a JSON text, how PostgreSQL reads the text of a uuid or a number, and the kill
  switch of the content factory at a time.

  \<^bold>\<open>Not modelled.\<close> HTTP servers beyond the routes named (headers, tokens, body limits,
  static files), SQL below the queries (isolation levels, constraint names, key order of
  jsonb), partial lines in files, the other services of Zarvis (voice, the session store of the
  orchestrator), the code of \<open>packages/zeto\<close> that posts to the platforms and its older scripts over
  a JSON file, the best time of \<open>calendar.js\<close> and the second classifier of \<open>monitoring.js\<close>, the product tool \<open>packages/zsp-aitool\<close>, the browser extension
  \<open>packages/zider\<close>, the Python providers, the Go and C# clients, and the infrastructure.

  \<^bold>\<open>Plan.\<close> Next the session store of the orchestrator, then the analytics and monitoring
  repositories behind the other routes of \<open>api/v1.js\<close>.
\<close>

end
